(* ===== verification/Float64.thy ===== *)
theory Float64
  imports Complex_Main "HOL-Library.Log_Nat"
begin

text \<open>
  Go's \<open>float64\<close>: IEEE 754 binary64 with rounding to the nearest, ties to even. A value is a finite
  number, one of the infinities or NaN; a finite result is rounded to 53 significant bits with the
  exponent bounded below (subnormal numbers keep the spacing \<open>2 ^ -1074\<close>), and one that reaches
  \<open>2 ^ 1024\<close> becomes infinite. The two zeros are one value: nothing modelled divides by zero.
  Every operation rounds once, as on amd64, where the compiler fuses no multiplication with an
  addition. \<open>math.Exp\<close> is taken to be rounded the same way.

  The lemmas are the ones an error analysis needs: rounding is monotone, odd and exact on
  representable numbers, and a sum of two representable numbers is off by at most one part in
  \<open>2 ^ 53\<close>.
\<close>

section \<open>Rounding\<close>

definition round_half_even :: "real \<Rightarrow> int" where
  "round_half_even r =
     (let n = \<lfloor>r\<rfloor>; d = r - of_int n
      in if d < 1 / 2 then n else if d > 1 / 2 then n + 1 else if even n then n else n + 1)"

text \<open>A number is scaled by \<open>2 ^ 1074\<close> first: the representable numbers are then integers.\<close>

definition excess_bits :: "real \<Rightarrow> nat" where
  "excess_bits y = floorlog 2 (nat \<lfloor>\<bar>y\<bar>\<rfloor>) - 53"

definition round53 :: "real \<Rightarrow> real" where
  "round53 y = of_int (round_half_even (y / 2 ^ excess_bits y)) * 2 ^ excess_bits y"

definition subnormal_scale :: real where
  "subnormal_scale = 2 ^ 1074"

definition overflow_limit :: real where
  "overflow_limit = 2 ^ 1024"

definition rnd64 :: "real \<Rightarrow> real" where
  "rnd64 x = round53 (x * subnormal_scale) / subnormal_scale"

datatype float64 = Fin real | PosInf | NegInf | NaN

definition float_of :: "real \<Rightarrow> float64" where
  "float_of x = (if rnd64 x \<ge> overflow_limit then PosInf
     else if rnd64 x \<le> - overflow_limit then NegInf else Fin (rnd64 x))"

section \<open>Operations\<close>

text \<open>An infinite product or quotient has the sign of its operands.\<close>

fun infinite_of :: "real \<Rightarrow> float64" where
  "infinite_of s = (if s > 0 then PosInf else if s < 0 then NegInf else NaN)"

fun sign_of :: "float64 \<Rightarrow> real" where
  "sign_of (Fin x) = sgn x"
| "sign_of PosInf = 1"
| "sign_of NegInf = - 1"
| "sign_of NaN = 0"

fun fadd :: "float64 \<Rightarrow> float64 \<Rightarrow> float64" where
  "fadd (Fin x) (Fin y) = float_of (x + y)"
| "fadd NaN _ = NaN"
| "fadd _ NaN = NaN"
| "fadd (Fin _) b = b"
| "fadd a (Fin _) = a"
| "fadd PosInf PosInf = PosInf"
| "fadd NegInf NegInf = NegInf"
| "fadd _ _ = NaN"

fun fneg :: "float64 \<Rightarrow> float64" where
  "fneg (Fin x) = Fin (- x)"
| "fneg PosInf = NegInf"
| "fneg NegInf = PosInf"
| "fneg NaN = NaN"

definition fsub :: "float64 \<Rightarrow> float64 \<Rightarrow> float64" where
  "fsub a b = fadd a (fneg b)"

fun fmul :: "float64 \<Rightarrow> float64 \<Rightarrow> float64" where
  "fmul (Fin x) (Fin y) = float_of (x * y)"
| "fmul NaN _ = NaN"
| "fmul _ NaN = NaN"
| "fmul a b = infinite_of (sign_of a * sign_of b)"

fun fdiv :: "float64 \<Rightarrow> float64 \<Rightarrow> float64" where
  "fdiv (Fin x) (Fin y) = (if y = 0 then infinite_of x else float_of (x / y))"
| "fdiv NaN _ = NaN"
| "fdiv _ NaN = NaN"
| "fdiv (Fin _) _ = Fin 0"
| "fdiv a (Fin y) = (if y < 0 then fneg a else a)"
| "fdiv _ _ = NaN"

fun fexp :: "float64 \<Rightarrow> float64" where
  "fexp (Fin x) = float_of (exp x)"
| "fexp PosInf = PosInf"
| "fexp NegInf = Fin 0"
| "fexp NaN = NaN"

text \<open>The comparisons are false on NaN.\<close>

fun fless :: "float64 \<Rightarrow> float64 \<Rightarrow> bool" where
  "fless (Fin x) (Fin y) = (x < y)"
| "fless (Fin _) b = (b = PosInf)"
| "fless NegInf b = (b \<noteq> NegInf \<and> b \<noteq> NaN)"
| "fless _ _ = False"

definition fle :: "float64 \<Rightarrow> float64 \<Rightarrow> bool" where
  "fle a b \<longleftrightarrow> fless a b \<or> a = b \<and> a \<noteq> NaN"

section \<open>Rounding an integer quotient\<close>

lemma rhe_of_int [simp]: "round_half_even (of_int n) = n"
  by (simp add: round_half_even_def)

lemma rhe_error: "\<bar>of_int (round_half_even r) - r\<bar> \<le> 1 / 2"
proof -
  have "of_int \<lfloor>r\<rfloor> \<le> r" "r < of_int \<lfloor>r\<rfloor> + 1" by linarith+
  then show ?thesis unfolding round_half_even_def Let_def by auto
qed

lemma rhe_mono: assumes "a \<le> b" shows "round_half_even a \<le> round_half_even b"
proof -
  have "\<lfloor>a\<rfloor> < \<lfloor>b\<rfloor> \<or> \<lfloor>a\<rfloor> = \<lfloor>b\<rfloor>" using floor_mono [OF assms] by linarith
  then show ?thesis using assms unfolding round_half_even_def Let_def by auto
qed

lemma rhe_minus: "round_half_even (- r) = - round_half_even r"
proof (cases "r \<in> \<int>")
  case True
  then show ?thesis by (metis Ints_cases of_int_minus rhe_of_int)
next
  case False
  define n where "n = \<lfloor>r\<rfloor>"
  have "of_int n \<noteq> r" using False Ints_of_int by metis
  then have n: "of_int n < r" "r < of_int n + 1" unfolding n_def by linarith+
  then have m: "\<lfloor>- r\<rfloor> = - n - 1" by (intro floor_unique) auto
  show ?thesis unfolding round_half_even_def Let_def n_def [symmetric] m using n by auto
qed

section \<open>The spacing\<close>

lemma pow2_lessD: "(2 :: real) ^ m < 2 ^ n \<Longrightarrow> m < n"
  by simp

lemma pow2_leD: "(2 :: real) ^ m \<le> 2 ^ n \<Longrightarrow> m \<le> n"
  by simp

lemma excess_bits_cases:
  obtains (small) "excess_bits y = 0" "\<bar>y\<bar> < 2 ^ 53"
  | (large) "2 ^ (52 + excess_bits y) \<le> \<bar>y\<bar>" "\<bar>y\<bar> < 2 ^ (53 + excess_bits y)"
proof -
  let ?n = "nat \<lfloor>\<bar>y\<bar>\<rfloor>"
  show thesis
  proof (cases "floorlog 2 ?n \<le> 53")
    case True
    then have "?n < 2 ^ 53" by (simp add: floorlog_le_iff)
    then have "\<lfloor>\<bar>y\<bar>\<rfloor> < 2 ^ 53" by (simp only: nat_less_iff zero_le_floor abs_ge_zero) simp
    then have "\<bar>y\<bar> < 2 ^ 53" by (simp add: floor_less_iff)
    with True show thesis by (intro small) (simp_all add: excess_bits_def)
  next
    case False
    then have f: "floorlog 2 ?n = 53 + excess_bits y" by (simp add: excess_bits_def)
    have "?n > 0" using False by (cases "?n = 0") (auto simp: floorlog_def)
    with floorlog_bounds [of ?n 2] f
    have "2 ^ (52 + excess_bits y) \<le> ?n" "?n < 2 ^ (53 + excess_bits y)" by simp_all
    then have "(2 :: int) ^ (52 + excess_bits y) \<le> \<lfloor>\<bar>y\<bar>\<rfloor>" "\<lfloor>\<bar>y\<bar>\<rfloor> < 2 ^ (53 + excess_bits y)"
      by (simp_all add: nat_less_iff le_nat_iff)
    then show thesis by (intro large) (simp_all add: le_floor_iff floor_less_iff)
  qed
qed

lemma excess_bits_unique:
  assumes "2 ^ (52 + e) \<le> \<bar>y\<bar>" "\<bar>y\<bar> < 2 ^ (53 + e)"
  shows "excess_bits y = e"
proof (cases y rule: excess_bits_cases)
  case small
  have "(2 :: real) ^ (52 + e) < 2 ^ 53" using assms(1) small(2) by linarith
  then have "52 + e < 53" by (rule pow2_lessD)
  with small show ?thesis by simp
next
  case large
  have "(2 :: real) ^ (52 + e) < 2 ^ (53 + excess_bits y)" "(2 :: real) ^ (52 + excess_bits y) < 2 ^ (53 + e)"
    using assms large by linarith+
  from this [THEN pow2_lessD] show ?thesis by simp
qed

lemma excess_bits_small: "\<bar>y\<bar> < 2 ^ 53 \<Longrightarrow> excess_bits y = 0"
proof (cases y rule: excess_bits_cases)
  case large
  assume "\<bar>y\<bar> < 2 ^ 53"
  with large have "(2 :: real) ^ (52 + excess_bits y) < 2 ^ 53" by linarith
  then have "52 + excess_bits y < 53" by (rule pow2_lessD)
  then show ?thesis by simp
qed

lemma excess_bits_minus [simp]: "excess_bits (- y) = excess_bits y"
  by (simp add: excess_bits_def)

section \<open>Rounding to 53 bits\<close>

lemma round53_0 [simp]: "round53 0 = 0"
  using rhe_of_int [of 0] by (simp add: round53_def)

lemma round53_minus: "round53 (- y) = - round53 y"
  using rhe_minus [of "y / 2 ^ excess_bits y"] by (simp add: round53_def)

text \<open>A whole multiple of a power of two with at most 53 bits is kept.\<close>

lemma round53_of_int:
  assumes "\<bar>k\<bar> \<le> 2 ^ 53"
  shows "round53 (of_int k * 2 ^ e) = of_int k * 2 ^ e"
proof -
  let ?y = "of_int k * 2 ^ e :: real"
  have k: "\<bar>of_int k :: real\<bar> \<le> 2 ^ 53" using assms
    by (metis (mono_tags, opaque_lifting) of_int_abs of_int_le_iff of_int_numeral of_int_power)
  have y: "\<bar>?y\<bar> \<le> 2 ^ 53 * 2 ^ e" using k by (simp add: abs_mult)
  have "\<exists>n :: int. ?y / 2 ^ excess_bits ?y = of_int n"
  proof (cases "excess_bits ?y \<le> e")
    case True
    then have "(2 :: real) ^ e / 2 ^ excess_bits ?y = 2 ^ (e - excess_bits ?y)"
      by (simp add: power_diff)
    then have "?y / 2 ^ excess_bits ?y = of_int (k * 2 ^ (e - excess_bits ?y))"
      by (simp flip: times_divide_eq_right)
    then show ?thesis by blast
  next
    case False
    show ?thesis
    proof (cases ?y rule: excess_bits_cases)
      case small
      with False show ?thesis by simp
    next
      case large
      have "(2 :: real) ^ (52 + excess_bits ?y) \<le> 2 ^ (53 + e)" using large(1) y by (simp add: power_add)
      then have "52 + excess_bits ?y \<le> 53 + e" by (rule pow2_leD)
      with False have e: "excess_bits ?y = Suc e" by simp
      with large y have "\<bar>?y\<bar> = 2 ^ 53 * 2 ^ e" by (simp add: power_add)
      then have "?y = 2 ^ 53 * 2 ^ e \<or> ?y = - (2 ^ 53 * 2 ^ e)" by linarith
      then have "?y / 2 ^ Suc e = of_int (2 ^ 52) \<or> ?y / 2 ^ Suc e = of_int (- (2 ^ 52))"
        by (elim disjE) simp_all
      then have "?y / 2 ^ excess_bits ?y = of_int (2 ^ 52) \<or> ?y / 2 ^ excess_bits ?y = of_int (- (2 ^ 52))"
        by (simp only: e)
      then show ?thesis by blast
    qed
  qed
  then obtain n where n: "?y / 2 ^ excess_bits ?y = of_int n" by blast
  then have "round53 ?y = of_int n * 2 ^ excess_bits ?y" unfolding round53_def by simp
  with n show ?thesis by (simp add: field_simps)
qed

text \<open>Every result is such a number, so a second rounding changes nothing.\<close>

lemma round53_result:
  obtains k where "round53 y = of_int k * 2 ^ excess_bits y" "\<bar>k\<bar> \<le> 2 ^ 53"
proof -
  let ?r = "y / 2 ^ excess_bits y"
  have "\<bar>y\<bar> < 2 ^ (53 + excess_bits y)" by (cases y rule: excess_bits_cases) auto
  then have "\<bar>?r\<bar> \<le> of_int (2 ^ 53)" by (simp add: power_add field_simps)
  then have "?r \<le> of_int (2 ^ 53)" "of_int (- (2 ^ 53)) \<le> ?r" by (simp_all only: abs_le_iff of_int_minus) linarith
  then have "round_half_even ?r \<le> 2 ^ 53" "- (2 ^ 53) \<le> round_half_even ?r"
    using rhe_mono rhe_of_int by metis+
  then show thesis by (intro that [of "round_half_even ?r"]) (auto simp: round53_def)
qed

lemma round53_idem [simp]: "round53 (round53 y) = round53 y"
proof (rule round53_result [of y])
  fix k assume "round53 y = of_int k * 2 ^ excess_bits y" "\<bar>k\<bar> \<le> 2 ^ 53"
  then show ?thesis using round53_of_int by metis
qed

lemma round53_mono_nonneg:
  assumes "0 \<le> a" "a \<le> b"
  shows "round53 a \<le> round53 b"
proof (cases "excess_bits a = excess_bits b")
  case True
  then have "a / 2 ^ excess_bits b \<le> b / 2 ^ excess_bits b" using assms by (simp add: divide_right_mono)
  then show ?thesis using rhe_mono True by (simp add: round53_def)
next
  case False
  have "\<lfloor>\<bar>a\<bar>\<rfloor> \<le> \<lfloor>\<bar>b\<bar>\<rfloor>" using assms by (intro floor_mono) auto
  then have "excess_bits a \<le> excess_bits b"
    unfolding excess_bits_def by (intro diff_le_mono floorlog_mono nat_mono)
  with False have lt: "excess_bits a < excess_bits b" by simp
  obtain k where k: "round53 a = of_int k * 2 ^ excess_bits a" "\<bar>k\<bar> \<le> 2 ^ 53" by (rule round53_result)
  have "(of_int k :: real) \<le> of_int (2 ^ 53)" using k(2) by (subst of_int_le_iff) auto
  then have "round53 a \<le> 2 ^ 53 * 2 ^ excess_bits a" using k(1) by simp
  also have "\<dots> = 2 ^ 52 * 2 ^ Suc (excess_bits a)" by simp
  also have "\<dots> \<le> 2 ^ 52 * 2 ^ excess_bits b" using lt by (intro mult_left_mono power_increasing) auto
  also have "\<dots> \<le> round53 b"
  proof (cases b rule: excess_bits_cases)
    case small
    with lt show ?thesis by simp
  next
    case large
    then have "of_int (2 ^ 52) \<le> b / 2 ^ excess_bits b" using assms by (simp add: power_add field_simps)
    then have "(2 ^ 52 :: int) \<le> round_half_even (b / 2 ^ excess_bits b)" using rhe_mono rhe_of_int by metis
    then have "of_int (2 ^ 52) \<le> (of_int (round_half_even (b / 2 ^ excess_bits b)) :: real)"
      by (subst of_int_le_iff)
    then show ?thesis by (simp add: round53_def)
  qed
  finally show ?thesis .
qed

lemma round53_mono: "a \<le> b \<Longrightarrow> round53 a \<le> round53 b"
proof (cases "0 \<le> a")
  case True
  then show "a \<le> b \<Longrightarrow> ?thesis" by (rule round53_mono_nonneg)
next
  case a: False
  assume ab: "a \<le> b"
  show ?thesis
  proof (cases "0 \<le> b")
    case True
    have "0 \<le> round53 (- a)" "0 \<le> round53 b"
      using round53_mono_nonneg [of 0] a True by fastforce+
    then show ?thesis by (simp add: round53_minus)
  next
    case False
    then have "round53 (- b) \<le> round53 (- a)" using ab by (intro round53_mono_nonneg) auto
    then show ?thesis by (simp add: round53_minus)
  qed
qed

lemma round53_error:
  "\<bar>round53 y - y\<bar> \<le> \<bar>y\<bar> / 2 ^ 53 \<or> excess_bits y = 0 \<and> \<bar>round53 y - y\<bar> \<le> 1 / 2"
proof -
  let ?e = "excess_bits y"
  have "\<bar>of_int (round_half_even (y / 2 ^ ?e)) - y / 2 ^ ?e\<bar> \<le> 1 / 2" by (rule rhe_error)
  then have "\<bar>of_int (round_half_even (y / 2 ^ ?e)) - y / 2 ^ ?e\<bar> * 2 ^ ?e \<le> 1 / 2 * 2 ^ ?e"
    by (rule mult_right_mono) simp
  moreover have "\<bar>of_int (round_half_even (y / 2 ^ ?e)) - y / 2 ^ ?e\<bar> * 2 ^ ?e = \<bar>round53 y - y\<bar>"
  proof -
    have "\<bar>a - y / c\<bar> * c = \<bar>a * c - y\<bar>" if "0 < c" for a c :: real
    proof -
      have "\<bar>a - y / c\<bar> * c = \<bar>(a - y / c) * c\<bar>" using that by (simp add: abs_mult)
      also have "(a - y / c) * c = a * c - y" using that by (simp add: left_diff_distrib)
      finally show ?thesis .
    qed
    then show ?thesis by (simp add: round53_def)
  qed
  ultimately have err: "\<bar>round53 y - y\<bar> \<le> 2 ^ ?e / 2" by simp
  show ?thesis
  proof (cases y rule: excess_bits_cases)
    case small
    with err show ?thesis by simp
  next
    case large
    then have "2 ^ ?e / 2 \<le> \<bar>y\<bar> / 2 ^ 53" by (simp add: power_add field_simps)
    with err show ?thesis by linarith
  qed
qed

section \<open>Rounding to \<open>float64\<close>\<close>

abbreviation representable :: "real \<Rightarrow> bool" where
  "representable x \<equiv> rnd64 x = x"

text \<open>One part in \<open>2 ^ 53\<close>, and half the smallest subnormal.\<close>

definition unit_roundoff :: real where
  "unit_roundoff = 1 / 2 ^ 53"

definition half_subnormal :: real where
  "half_subnormal = 1 / (2 * subnormal_scale)"

lemma scale_pos [simp]: "0 < subnormal_scale" "subnormal_scale \<noteq> 0"
  by (simp_all only: subnormal_scale_def zero_less_power zero_less_numeral power_not_zero zero_neq_numeral [symmetric]) simp

lemma scale_split: "m \<le> 1074 \<Longrightarrow> subnormal_scale = 2 ^ (1074 - m) * 2 ^ m"
  by (simp only: subnormal_scale_def power_add [symmetric] le_add_diff_inverse2)

lemma rnd64_0 [simp]: "rnd64 0 = 0"
  by (simp add: rnd64_def)

lemma rnd64_minus: "rnd64 (- x) = - rnd64 x"
  using round53_minus [of "x * subnormal_scale"] by (simp add: rnd64_def)

lemma rnd64_mono: "x \<le> y \<Longrightarrow> rnd64 x \<le> rnd64 y"
  unfolding rnd64_def by (intro divide_right_mono round53_mono mult_right_mono) (simp_all add: less_imp_le)

lemma rnd64_idem [simp]: "rnd64 (rnd64 x) = rnd64 x"
  by (simp add: rnd64_def)

lemma rnd64_nonneg: "0 \<le> x \<Longrightarrow> 0 \<le> rnd64 x"
  using rnd64_mono [of 0 x] by simp

lemma rnd64_le: "representable b \<Longrightarrow> x \<le> b \<Longrightarrow> rnd64 x \<le> b"
  using rnd64_mono [of x b] by simp

lemma rnd64_ge: "representable b \<Longrightarrow> b \<le> x \<Longrightarrow> b \<le> rnd64 x"
  using rnd64_mono [of b x] by simp

lemma representable_dyadic:
  assumes "\<bar>k\<bar> \<le> 2 ^ 53" "m \<le> 1074"
  shows "representable (of_int k / 2 ^ m)"
proof -
  have "of_int k / 2 ^ m * subnormal_scale = of_int k * 2 ^ (1074 - m)"
    by (simp add: scale_split [OF assms(2)])
  then have "round53 (of_int k / 2 ^ m * subnormal_scale) = of_int k / 2 ^ m * subnormal_scale"
    using round53_of_int [OF assms(1)] by simp
  then show ?thesis by (simp only: rnd64_def) simp
qed

lemma representable_of_int: "\<bar>k\<bar> \<le> 2 ^ 53 \<Longrightarrow> representable (of_int k)"
  using representable_dyadic [of k 0] by simp

lemma representable_1 [simp]: "representable 1"
  using representable_of_int [of 1] by simp

lemma representable_numeral [simp]:
  "(numeral n :: int) \<le> 2 ^ 53 \<Longrightarrow> representable (numeral n)"
  using representable_of_int [of "numeral n"] by simp

lemma representable_minus [simp]: "representable (- x) \<longleftrightarrow> representable x"
  by (simp add: rnd64_minus)

text \<open>A number whose leading bit has the weight \<open>2 ^ 52 / 2 ^ m\<close> is rounded to a multiple of \<open>1 / 2 ^ m\<close>.\<close>

lemma rnd64_at:
  assumes "m \<le> 1074" "2 ^ 52 \<le> \<bar>z\<bar>" "\<bar>z\<bar> < 2 ^ 53"
  shows "rnd64 (z / 2 ^ m) = of_int (round_half_even z) / 2 ^ m"
proof -
  define e where "e = 1074 - m"
  have p: "subnormal_scale = 2 ^ e * 2 ^ m" unfolding e_def by (rule scale_split [OF assms(1)])
  have "excess_bits (z * 2 ^ e) = e"
    using assms(2,3) by (intro excess_bits_unique) (simp_all add: abs_mult power_add)
  then have "round53 (z * 2 ^ e) = of_int (round_half_even z) * 2 ^ e" by (simp add: round53_def)
  then show ?thesis unfolding rnd64_def p by simp
qed

lemma rnd64_error: "\<bar>rnd64 x - x\<bar> \<le> unit_roundoff * \<bar>x\<bar> + half_subnormal"
proof -
  define c where "c = subnormal_scale"
  have c: "0 < c" by (simp add: c_def)
  have "\<bar>round53 (x * c) - x * c\<bar> \<le> \<bar>x * c\<bar> / 2 ^ 53 \<or> \<bar>round53 (x * c) - x * c\<bar> \<le> 1 / 2"
    using round53_error by blast
  moreover have "0 \<le> \<bar>x * c\<bar> / 2 ^ 53" by simp
  ultimately have "\<bar>round53 (x * c) - x * c\<bar> \<le> \<bar>x * c\<bar> / 2 ^ 53 + 1 / 2" by linarith
  then have "\<bar>round53 (x * c) - x * c\<bar> / c \<le> (\<bar>x * c\<bar> / 2 ^ 53 + 1 / 2) / c" using c by (simp add: divide_right_mono)
  moreover have "\<bar>round53 (x * c) - x * c\<bar> / c = \<bar>(round53 (x * c) - x * c) / c\<bar>" using c by simp
  moreover have "(round53 (x * c) - x * c) / c = rnd64 x - x"
    using c unfolding rnd64_def c_def [symmetric] by (simp add: diff_divide_distrib)
  moreover have "(\<bar>x * c\<bar> / 2 ^ 53 + 1 / 2) / c = unit_roundoff * \<bar>x\<bar> + half_subnormal"
    using c unfolding half_subnormal_def unit_roundoff_def c_def [symmetric]
    by (simp add: abs_mult add_divide_distrib)
  ultimately show ?thesis by simp
qed

text \<open>Sums and differences of representable numbers do not underflow.\<close>

lemma representable_scaled: "representable x \<Longrightarrow> \<exists>n :: int. x * subnormal_scale = of_int n"
proof -
  assume x: "representable x"
  obtain k where "round53 (x * subnormal_scale) = of_int k * 2 ^ excess_bits (x * subnormal_scale)"
    by (rule round53_result)
  then have "rnd64 x * subnormal_scale = of_int (k * 2 ^ excess_bits (x * subnormal_scale))"
    unfolding rnd64_def by simp
  with x show ?thesis by metis
qed

lemma rnd64_sum_error:
  assumes "representable x" "representable y"
  shows "\<bar>rnd64 (x + y) - (x + y)\<bar> \<le> unit_roundoff * \<bar>x + y\<bar>"
proof -
  define c where "c = subnormal_scale"
  have c: "0 < c" by (simp add: c_def)
  obtain m n :: int where "x * c = of_int m" "y * c = of_int n"
    using representable_scaled [OF assms(1)] representable_scaled [OF assms(2)] unfolding c_def by blast
  then have i: "(x + y) * c = of_int (m + n)" by (simp add: distrib_right)
  have "\<bar>round53 ((x + y) * c) - (x + y) * c\<bar> \<le> \<bar>(x + y) * c\<bar> / 2 ^ 53"
    using round53_error [of "(x + y) * c"]
  proof
    assume "excess_bits ((x + y) * c) = 0 \<and> \<bar>round53 ((x + y) * c) - (x + y) * c\<bar> \<le> 1 / 2"
    then have "round53 ((x + y) * c) = (x + y) * c" using rhe_of_int [of "m + n"] unfolding round53_def i by simp
    then show ?thesis by simp
  qed
  then have "\<bar>round53 ((x + y) * c) - (x + y) * c\<bar> / c \<le> \<bar>(x + y) * c\<bar> / 2 ^ 53 / c"
    using c by (intro divide_right_mono) auto
  moreover have "\<bar>round53 ((x + y) * c) - (x + y) * c\<bar> / c = \<bar>(round53 ((x + y) * c) - (x + y) * c) / c\<bar>"
    using c by simp
  moreover have "(round53 ((x + y) * c) - (x + y) * c) / c = rnd64 (x + y) - (x + y)"
    using c unfolding rnd64_def c_def [symmetric] by (simp add: diff_divide_distrib)
  moreover have "\<bar>(x + y) * c\<bar> / 2 ^ 53 / c = unit_roundoff * \<bar>x + y\<bar>" using c by (simp add: abs_mult unit_roundoff_def)
  ultimately show ?thesis by simp
qed

lemma rnd64_diff_error:
  assumes "representable x" "representable y"
  shows "\<bar>rnd64 (x - y) - (x - y)\<bar> \<le> unit_roundoff * \<bar>x - y\<bar>"
  using rnd64_sum_error [of x "- y"] assms by simp

end
