(* ===== verification/Go_Prelude.thy ===== *)
theory Go_Prelude
  imports Float64 "HOL-Library.Multiset" "HOL-Library.Sublist"
    "HOL-Library.Word" "HOL-Library.List_Lexorder" "HOL-Library.Char_ord" "HOL-Library.Product_Lexorder"
begin

text \<open>
  The prelude: the part of Go and its standard library that the modelled packages use, and the
  generic lemmas the component theories share.

  A Go string is a sequence of bytes and a HOL \<^typ>\<open>char\<close> is a byte, so \<^typ>\<open>string\<close> models it and
  the byte-wise order of \<open>List_Lexorder\<close> over \<open>Char_ord\<close> is Go's \<open><\<close> on strings. A
  \<open>float64\<close> that is computed with is a \<^typ>\<open>float64\<close> of \<open>Float64\<close>; one that is only carried,
  compared and stored, all of them finite, is its value, a \<^typ>\<open>real\<close>.
  A \<open>time.Time\<close> is the number of nanoseconds since Go's zero time, midnight of
  1 January of year 1, in UTC. \<open>sort.Strings\<close>, \<open>sort.Slice\<close> and
  \<open>sort.SliceStable\<close> are \<^const>\<open>sort\<close> and \<^const>\<open>sort_key\<close>, which is stable.
\<close>

section \<open>Shared automation\<close>

named_theorems enum_defs \<open>the Go string constants of an enumeration\<close>
named_theorems go_defs \<open>short helpers of the model that proofs unfold\<close>

section \<open>Types the packages share\<close>

type_synonym time = int

text \<open>
  The parts of the standard library that rest on large tables or on bit-level floating point are
  parameters: the Unicode case tables (used only for strings with a byte outside ASCII), the
  decimal rendering of a float in a format at a precision (\<open>-1\<close> asks for the shortest), the
  hexadecimal SHA-256 digest, \<open>url.Parse\<close> with the accessors the code calls on its result, and
  \<open>net.ParseIP\<close>; the working directory is what \<open>os.Getwd\<close> returns. An IP address is a slice of
  bytes, \<open>None\<close> being nil. The order in which a \<open>range\<close> visits a map is chosen by the runtime anew
  each time, so it is a parameter as well: for each loop, the choices it makes.
\<close>

record URL =
  url_Scheme :: string
  url_Host :: string
  url_Hostname :: string
  url_Path :: string
  url_EscapedPath :: string
  url_String :: string

type_synonym IP = "8 word list"

record golib =
  lib_lower :: "string \<Rightarrow> string"
  lib_upper :: "string \<Rightarrow> string"
  lib_FormatFloat :: "char \<Rightarrow> float64 \<Rightarrow> int \<Rightarrow> string"
  lib_sha256hex :: "string \<Rightarrow> string"
  lib_url_Parse :: "string \<Rightarrow> URL option"
  lib_ParseIP :: "string \<Rightarrow> IP option"
  lib_Getwd :: "string option"
  lib_map_order :: "nat \<Rightarrow> nat list"

definition sample_lib :: golib where
  "sample_lib = \<lparr>lib_lower = (\<lambda>s. s), lib_upper = (\<lambda>s. s),
     lib_FormatFloat = (\<lambda>_ _ _. ''0''), lib_sha256hex = (\<lambda>s. s), lib_url_Parse = (\<lambda>_. None),
     lib_ParseIP = (\<lambda>_. None), lib_Getwd = None, lib_map_order = (\<lambda>_. [])\<rparr>"

text \<open>
  A \<open>range\<close> over a map with the given entries: each choice picks the next entry among those not yet
  visited, and without further choices the rest follows in order of insertion. Every order is
  produced by some choices.
\<close>

fun map_range :: "nat list \<Rightarrow> 'a list \<Rightarrow> 'a list" where
  "map_range cs [] = []"
| "map_range [] xs = xs"
| "map_range (c # cs) xs =
     (let i = c mod length xs in xs ! i # map_range cs (take i xs @ drop (Suc i) xs))"

lemma mset_map_range [simp]: "mset (map_range cs xs) = mset xs"
proof (induction cs xs rule: map_range.induct)
  case (3 c cs x xs)
  let ?xs = "x # xs" and ?i = "c mod length (x # xs)"
  have i: "?i < length ?xs" by simp
  have "mset (map_range cs (take ?i ?xs @ drop (Suc ?i) ?xs)) = mset (take ?i ?xs @ drop (Suc ?i) ?xs)"
    by (rule 3) simp
  then have "mset (map_range (c # cs) ?xs) = mset (take ?i ?xs @ ?xs ! ?i # drop (Suc ?i) ?xs)"
    by (simp add: Let_def del: take_Cons drop_Suc_Cons)
  also have "take ?i ?xs @ ?xs ! ?i # drop (Suc ?i) ?xs = ?xs" by (rule id_take_nth_drop [OF i, symmetric])
  finally show ?case .
qed simp_all

lemma set_map_range [simp]: "set (map_range cs xs) = set xs"
  using mset_eq_setD [OF mset_map_range] .

lemma distinct_map_range [simp]: "distinct (map_range cs xs) = distinct xs"
  using mset_eq_imp_distinct_iff [OF mset_map_range] .

lemma length_map_range [simp]: "length (map_range cs xs) = length xs"
  using mset_eq_length [OF mset_map_range] .

lemma sort_map_range [simp]: "sort (map_range cs xs) = sort xs"
  by (rule properties_for_sort) simp_all

section \<open>Package strings\<close>

text \<open>The UTF-8 encodings of the runes for which \<open>unicode.IsSpace\<close> holds.\<close>

definition space_runes :: "string list" where
  "space_runes =
     [[CHR 0x09], [CHR 0x0A], [CHR 0x0B], [CHR 0x0C], [CHR 0x0D], [CHR 0x20],
      [CHR 0xC2, CHR 0x85], [CHR 0xC2, CHR 0xA0], [CHR 0xE1, CHR 0x9A, CHR 0x80],
      [CHR 0xE2, CHR 0x80, CHR 0x80], [CHR 0xE2, CHR 0x80, CHR 0x81],
      [CHR 0xE2, CHR 0x80, CHR 0x82], [CHR 0xE2, CHR 0x80, CHR 0x83],
      [CHR 0xE2, CHR 0x80, CHR 0x84], [CHR 0xE2, CHR 0x80, CHR 0x85],
      [CHR 0xE2, CHR 0x80, CHR 0x86], [CHR 0xE2, CHR 0x80, CHR 0x87],
      [CHR 0xE2, CHR 0x80, CHR 0x88], [CHR 0xE2, CHR 0x80, CHR 0x89],
      [CHR 0xE2, CHR 0x80, CHR 0x8A], [CHR 0xE2, CHR 0x80, CHR 0xA8],
      [CHR 0xE2, CHR 0x80, CHR 0xA9], [CHR 0xE2, CHR 0x80, CHR 0xAF],
      [CHR 0xE2, CHR 0x81, CHR 0x9F], [CHR 0xE3, CHR 0x80, CHR 0x80]]"

text \<open>Strip, repeatedly, a prefix that is one of the given non-empty strings.\<close>

function strip_front :: "string list \<Rightarrow> string \<Rightarrow> string" where
  "strip_front ps s =
     (case List.find (\<lambda>p. p \<noteq> [] \<and> prefix p s) ps of
        None \<Rightarrow> s
      | Some p \<Rightarrow> strip_front ps (drop (length p) s))"
  by pat_completeness auto
termination
  by (relation "measure (\<lambda>(ps, s). length s)")
    (auto simp: find_Some_iff prefix_def)

declare strip_front.simps [simp del]

definition TrimLeftSpace :: "string \<Rightarrow> string" where
  "TrimLeftSpace s = strip_front space_runes s"

definition TrimRightSpace :: "string \<Rightarrow> string" where
  "TrimRightSpace s = rev (strip_front (map rev space_runes) (rev s))"

definition TrimSpace :: "string \<Rightarrow> string" where
  "TrimSpace s = TrimRightSpace (TrimLeftSpace s)"

definition is_ascii :: "string \<Rightarrow> bool" where
  "is_ascii s = list_all (\<lambda>c. \<not> digit7 c) s"

text \<open>An ASCII letter and its other case differ in bit 5.\<close>

definition lower_byte :: "char \<Rightarrow> char" where
  "lower_byte c =
     (if CHR ''A'' \<le> c \<and> c \<le> CHR ''Z''
      then Char (digit0 c) (digit1 c) (digit2 c) (digit3 c) (digit4 c) True (digit6 c) (digit7 c)
      else c)"

definition upper_byte :: "char \<Rightarrow> char" where
  "upper_byte c =
     (if CHR ''a'' \<le> c \<and> c \<le> CHR ''z''
      then Char (digit0 c) (digit1 c) (digit2 c) (digit3 c) (digit4 c) False (digit6 c) (digit7 c)
      else c)"

definition ToLower :: "golib \<Rightarrow> string \<Rightarrow> string" where
  "ToLower L s = (if is_ascii s then map lower_byte s else lib_lower L s)"

definition ToUpper :: "golib \<Rightarrow> string \<Rightarrow> string" where
  "ToUpper L s = (if is_ascii s then map upper_byte s else lib_upper L s)"

fun contains :: "string \<Rightarrow> string \<Rightarrow> bool" where
  "contains [] sub = (sub = [])"
| "contains (c # cs) sub = (prefix sub (c # cs) \<or> contains cs sub)"

definition TrimPrefix :: "string \<Rightarrow> string \<Rightarrow> string" where
  "TrimPrefix s p = (if prefix p s then drop (length p) s else s)"

text \<open>\<open>strings.Cut\<close> and \<open>strings.Split\<close> at a one-byte separator.\<close>

definition Cut :: "string \<Rightarrow> char \<Rightarrow> string \<times> string \<times> bool" where
  "Cut s c = (let b = takeWhile (\<lambda>x. x \<noteq> c) s in
     if c \<in> set s then (b, drop (Suc (length b)) s, True) else (s, [], False))"

fun Split :: "string \<Rightarrow> char \<Rightarrow> string list" where
  "Split [] c = [[]]"
| "Split (x # xs) c =
     (if x = c then [] # Split xs c
      else (case Split xs c of [] \<Rightarrow> [[x]] | w # ws \<Rightarrow> (x # w) # ws))"

fun Join :: "string list \<Rightarrow> string \<Rightarrow> string" where
  "Join [] sep = []"
| "Join [w] sep = w"
| "Join (w # v # ws) sep = w @ sep @ Join (v # ws) sep"

definition TrimByte :: "char \<Rightarrow> string \<Rightarrow> string" where
  "TrimByte c s = rev (dropWhile (\<lambda>x. x = c) (rev (dropWhile (\<lambda>x. x = c) s)))"

text \<open>The position of the last occurrence of a byte, \<open>-1\<close> when there is none.\<close>

definition LastIndexByte :: "string \<Rightarrow> char \<Rightarrow> int" where
  "LastIndexByte s c = (if c \<in> set s then int (length s) - 1 - int (length (takeWhile (\<lambda>x. x \<noteq> c) (rev s))) else -1)"

section \<open>Packages strconv, time and path\<close>

fun Itoa :: "nat \<Rightarrow> string" where
  "Itoa n = (if n < 10 then [''0123456789'' ! n] else Itoa (n div 10) @ [''0123456789'' ! (n mod 10)])"

declare Itoa.simps [simp del]

definition pad :: "nat \<Rightarrow> string \<Rightarrow> string" where
  "pad k s = replicate (k - length s) (CHR ''0'') @ s"

definition leap :: "int \<Rightarrow> bool" where
  "leap y = (y mod 4 = 0 \<and> (y mod 100 \<noteq> 0 \<or> y mod 400 = 0))"

definition year_and_day :: "int \<Rightarrow> int \<times> int" where
  "year_and_day d =
     (let a = d mod 146097; b = min 3 (a div 36524); a1 = a - b * 36524;
          c = a1 div 1461; a2 = a1 mod 1461; e = min 3 (a2 div 365)
      in (400 * (d div 146097) + 100 * b + 4 * c + e + 1, a2 - e * 365))"

fun month_and_day :: "int list \<Rightarrow> int \<Rightarrow> int \<Rightarrow> int \<times> int" where
  "month_and_day [] m d = (m, d + 1)"
| "month_and_day (n # ns) m d = (if d < n then (m, d + 1) else month_and_day ns (m + 1) (d - n))"

definition format_date :: "time \<Rightarrow> string" where
  \<comment> \<open>\<open>t.UTC().Format("2006-01-02")\<close>\<close>
  "format_date t =
     (let (y, d) = year_and_day (t div (86400 * 1000000000));
          (m, dom) = month_and_day
            [31, if leap y then 29 else 28, 31, 30, 31, 30, 31, 31, 30, 31, 30, 31] 1 d
      in (if y < 0 then ''-'' else []) @ pad 4 (Itoa (nat \<bar>y\<bar>)) @ ''-'' @
         pad 2 (Itoa (nat m)) @ ''-'' @ pad 2 (Itoa (nat dom)))"

text \<open>
  \<open>path.Clean\<close>, over the slash-separated elements: empty elements and dots go, a dot-dot removes
  the element before it, is dropped at the root, and is kept at the start of a relative path.
\<close>

fun clean_elems :: "bool \<Rightarrow> string list \<Rightarrow> string list \<Rightarrow> string list" where
  "clean_elems rooted st [] = rev st"
| "clean_elems rooted st (e # es) =
     (if e = [] \<or> e = ''.'' then clean_elems rooted st es
      else if e = ''..'' then
        (case st of
           [] \<Rightarrow> clean_elems rooted (if rooted then [] else [''..'']) es
         | t # ts \<Rightarrow> clean_elems rooted (if t = ''..'' then ''..'' # st else ts) es)
      else clean_elems rooted (e # st) es)"

definition Clean :: "string \<Rightarrow> string" where
  "Clean p =
     (if p = [] then ''.''
      else let rooted = (hd p = CHR ''/'');
               es = clean_elems rooted [] (Split p (CHR ''/''))
           in if rooted then ''/'' @ Join es ''/''
              else if es = [] then ''.'' else Join es ''/'')"

section \<open>The seen-map loop\<close>

text \<open>
  The idiom \<open>if seen[x] { continue }; seen[x] = true; out = append(out, x)\<close>, which keeps the
  first occurrence of each value, in order.
\<close>

fun dedup_seen :: "'a list \<Rightarrow> 'a list \<Rightarrow> 'a list" where
  "dedup_seen seen [] = []"
| "dedup_seen seen (x # xs) =
     (if x \<in> set seen then dedup_seen seen xs else x # dedup_seen (x # seen) xs)"

abbreviation dedup :: "'a list \<Rightarrow> 'a list" where
  "dedup xs \<equiv> dedup_seen [] xs"

lemma set_dedup_seen: "set (dedup_seen seen xs) = set xs - set seen"
  by (induction seen xs rule: dedup_seen.induct) auto

lemma set_dedup [simp]: "set (dedup xs) = set xs"
  by (simp add: set_dedup_seen)

lemma distinct_dedup [simp]: "distinct (dedup_seen seen xs)"
  by (induction seen xs rule: dedup_seen.induct) (auto simp: set_dedup_seen)

lemma length_dedup_seen: "length (dedup_seen seen xs) \<le> length xs"
  by (induction seen xs rule: dedup_seen.induct) auto

lemma dedup_seen_cong:
  "set s = set t \<Longrightarrow> dedup_seen s xs = dedup_seen t xs"
proof (induction xs arbitrary: s t)
  case (Cons x xs)
  have "dedup_seen (x # s) xs = dedup_seen (x # t) xs"
    by (rule Cons.IH) (simp add: Cons.prems)
  moreover have "dedup_seen s xs = dedup_seen t xs"
    by (rule Cons.IH) (rule Cons.prems)
  ultimately show ?case using Cons.prems by simp
qed simp

lemma dedup_seen_append:
  "dedup_seen s (xs @ ys) = dedup_seen s xs @ dedup_seen (s @ xs) ys"
proof (induction s xs rule: dedup_seen.induct)
  case (1 seen)
  then show ?case by simp
next
  case (2 seen x xs)
  have "dedup_seen (x # seen @ xs) ys = dedup_seen (seen @ x # xs) ys"
    by (rule dedup_seen_cong) auto
  moreover have "x \<in> set seen \<Longrightarrow> dedup_seen (seen @ x # xs) ys = dedup_seen (seen @ xs) ys"
    by (rule dedup_seen_cong) auto
  ultimately show ?case using 2 by auto
qed

lemma dedup_snoc:
  "dedup (xs @ [x]) = (if x \<in> set xs then dedup xs else dedup xs @ [x])"
  by (simp add: dedup_seen_append)

lemma sort_dedup_cong: "set xs = set ys \<Longrightarrow> sort (dedup xs) = sort (dedup (ys :: 'a::linorder list))"
  by (metis distinct_dedup set_dedup sorted_list_of_set_sort_remdups distinct_remdups_id)

lemma dedup_id: "distinct xs \<Longrightarrow> set xs \<inter> set s = {} \<Longrightarrow> dedup_seen s xs = xs"
  by (induction s xs rule: dedup_seen.induct) auto

section \<open>Sorting\<close>

lemma filter_eq_key_singleton:
  "distinct (map f xs) \<Longrightarrow> k \<in> set xs \<Longrightarrow> filter (\<lambda>x. f k = f x) xs = [k]"
  by (induction xs) (auto simp: image_iff filter_empty_conv)

lemma sort_key_perm:
  assumes "mset xs = mset ys" and "distinct (map f xs)"
  shows "sort_key f xs = sort_key f ys"
proof (rule properties_for_sort_key)
  show "mset (sort_key f ys) = mset xs" using assms(1) by simp
next
  fix k assume k: "k \<in> set (sort_key f ys)"
  have d: "distinct (map f (sort_key f ys))"
    by (metis assms mset_eq_imp_distinct_iff mset_map mset_sort)
  have "k \<in> set xs" using k assms(1) by (metis mset_sort set_mset_mset)
  with d k assms(2) show "filter (\<lambda>x. f k = f x) (sort_key f ys) = filter (\<lambda>x. f k = f x) xs"
    by (simp only: filter_eq_key_singleton)
qed simp

section \<open>TrimSpace\<close>

lemma strip_front_suffix: "suffix (strip_front ps s) s"
proof (induction ps s rule: strip_front.induct)
  case (1 ps s)
  show ?case
    by (subst strip_front.simps)
      (auto split: option.split intro: 1 suffix_order.trans suffix_drop)
qed

lemma strip_front_clean:
  "p \<in> set ps \<Longrightarrow> p \<noteq> [] \<Longrightarrow> \<not> prefix p (strip_front ps s)"
proof (induction ps s rule: strip_front.induct)
  case (1 ps s)
  show ?case
  proof (cases "List.find (\<lambda>p. p \<noteq> [] \<and> prefix p s) ps")
    case None
    then have "strip_front ps s = s" by (simp add: strip_front.simps [of ps s])
    with None 1(2,3) show ?thesis by (auto simp: find_None_iff)
  next
    case (Some q)
    then have "strip_front ps s = strip_front ps (drop (length q) s)"
      by (simp add: strip_front.simps [of ps s])
    with Some 1 show ?thesis by auto
  qed
qed

lemma strip_front_id:
  "(\<And>p. p \<in> set ps \<Longrightarrow> p \<noteq> [] \<Longrightarrow> \<not> prefix p s) \<Longrightarrow> strip_front ps s = s"
  by (subst strip_front.simps) (auto simp: find_None_iff split: option.split dest: find_Some_iff [THEN iffD1])

lemma strip_front_idem [simp]: "strip_front ps (strip_front ps s) = strip_front ps s"
  by (rule strip_front_id) (rule strip_front_clean)

lemma TrimRightSpace_prefix: "prefix (TrimRightSpace s) s"
  using strip_front_suffix [of "map rev space_runes" "rev s"]
  by (simp add: TrimRightSpace_def suffix_to_prefix)

lemma TrimSpace_idem [simp]: "TrimSpace (TrimSpace s) = TrimSpace s"
proof -
  have "TrimLeftSpace (TrimRightSpace (TrimLeftSpace s)) = TrimRightSpace (TrimLeftSpace s)"
    unfolding TrimLeftSpace_def [of "TrimRightSpace _"]
  proof (rule strip_front_id)
    fix p assume p: "p \<in> set space_runes" "p \<noteq> []"
    then have "\<not> prefix p (TrimLeftSpace s)"
      unfolding TrimLeftSpace_def by (rule strip_front_clean)
    then show "\<not> prefix p (TrimRightSpace (TrimLeftSpace s))"
      using TrimRightSpace_prefix prefix_order.trans by blast
  qed
  then show ?thesis
    by (simp add: TrimSpace_def TrimRightSpace_def)
qed

lemma TrimSpace_Nil [simp]: "TrimSpace [] = []"
  by (simp add: TrimSpace_def TrimLeftSpace_def TrimRightSpace_def strip_front_id)

lemma TrimSpace_sublist: "set (TrimSpace s) \<subseteq> set s"
  unfolding TrimSpace_def TrimLeftSpace_def
  using TrimRightSpace_prefix [of "strip_front space_runes s"] strip_front_suffix [of space_runes s]
  by (meson set_mono_prefix set_mono_suffix subset_trans)

lemma TrimSpace_length: "length (TrimSpace s) \<le> length s"
  unfolding TrimSpace_def TrimLeftSpace_def
  using TrimRightSpace_prefix [of "strip_front space_runes s"] strip_front_suffix [of space_runes s]
  by (meson le_trans prefix_length_le suffix_length_le)

lemma prefix_first: "prefix p s \<Longrightarrow> p \<noteq> [] \<Longrightarrow> hd p \<in> set s"
  by (auto simp: prefix_def)

lemma TrimSpace_graphic:
  assumes "\<And>c. c \<in> set s \<Longrightarrow> CHR 0x20 < c \<and> \<not> digit7 c"
  shows "TrimSpace s = s"
proof -
  have ends: "list_all (\<lambda>r. \<not> (CHR 0x20 < hd r \<and> \<not> digit7 (hd r)) \<and>
      \<not> (CHR 0x20 < hd (rev r) \<and> \<not> digit7 (hd (rev r)))) space_runes"
    by code_simp
  have "strip_front space_runes s = s"
  proof (rule strip_front_id)
    fix p assume "p \<in> set space_runes" "p \<noteq> []"
    with ends assms show "\<not> prefix p s" by (auto simp: list_all_iff dest: prefix_first)
  qed
  moreover have "strip_front (map rev space_runes) (rev s) = rev s"
  proof (rule strip_front_id)
    fix p assume "p \<in> set (map rev space_runes)" "p \<noteq> []"
    with ends assms show "\<not> prefix p (rev s)" by (fastforce simp: list_all_iff dest: prefix_first)
  qed
  ultimately show ?thesis by (simp add: TrimSpace_def TrimLeftSpace_def TrimRightSpace_def)
qed

section \<open>Split and Join\<close>

lemma contains_single [simp]: "contains s [c] \<longleftrightarrow> c \<in> set s"
  by (induction s) auto

lemma Split_no_sep: "c \<notin> set w \<Longrightarrow> Split w c = [w]"
  by (induction w) auto

lemma Split_append: "c \<notin> set w \<Longrightarrow> Split (w @ c # rest) c = w # Split rest c"
  by (induction w) auto

lemma Split_Join:
  assumes "ws \<noteq> []" and "\<And>w. w \<in> set ws \<Longrightarrow> c \<notin> set w"
  shows "Split (Join ws [c]) c = ws"
  using assms
proof (induction ws "[c]" rule: Join.induct)
  case (3 w v ws)
  then show ?case by (simp add: Split_append)
qed (simp_all add: Split_no_sep)

lemma Join_inj:
  assumes "xs \<noteq> []" "ys \<noteq> []" "\<And>w. w \<in> set xs \<union> set ys \<Longrightarrow> c \<notin> set w"
    and "Join xs [c] = Join ys [c]"
  shows "xs = ys"
  by (metis Split_Join Un_iff assms)

lemma Split_nonempty [simp]: "Split s c \<noteq> []"
  by (cases s) (auto split: list.split)

lemma Split_no_sep_elem: "w \<in> set (Split s c) \<Longrightarrow> c \<notin> set w"
  by (induction s arbitrary: w) (auto split: list.splits if_splits)

lemma Split_chars: "w \<in> set (Split s c) \<Longrightarrow> set w \<subseteq> set s"
  by (induction s arbitrary: w) (fastforce split: list.splits if_splits)+

lemma set_via_Split: "x \<in> set s \<Longrightarrow> x = c \<or> (\<exists>w \<in> set (Split s c). x \<in> set w)"
proof (induction s)
  case (Cons a s)
  obtain w ws where "Split s c = w # ws" by (cases "Split s c") auto
  with Cons show ?case by auto
qed simp

section \<open>Results\<close>

lemma not_isl_Inr: "\<not> isl x \<Longrightarrow> x = Inr (projr x)"
  by (cases x) auto

section \<open>Pages\<close>

lemma concat_pages: "concat (map (\<lambda>k. take m (drop (k * m) xs)) [0..<n]) = take (n * m) xs"
  by (induction n) (simp_all add: add.commute [of m] take_add)

end
