(* ===== verification/Findings_Model.thy ===== *)
theory Findings_Model
  imports Go_Prelude
begin

text \<open>
  The canonical finding: \<open>internal/normalization/severity.go\<close>, \<open>fix.go\<close>,
  \<open>threatintel.go\<close>, \<open>finding.go\<close>, and the categories of \<open>internal/scanners/scanner.go\<close>.
  Go's string enumerations stay strings, because the code casts stored text to them and handles
  values outside the enumeration; their constants are abbreviations. Each \<open>Validate\<close> returns the
  error it reports as a value of \<open>finding_error\<close>. The lemmas show that the severity scale is
  what the engines rely on: a rank that orders the six levels, mappings that only produce valid
  levels, and which findings a validated value excludes.
\<close>

section \<open>Severity and confidence\<close>

type_synonym Severity = string
type_synonym Confidence = string

abbreviation SeverityCritical :: Severity where "SeverityCritical \<equiv> ''critical''"
abbreviation SeverityHigh :: Severity where "SeverityHigh \<equiv> ''high''"
abbreviation SeverityMedium :: Severity where "SeverityMedium \<equiv> ''medium''"
abbreviation SeverityLow :: Severity where "SeverityLow \<equiv> ''low''"
abbreviation SeverityInfo :: Severity where "SeverityInfo \<equiv> ''info''"
abbreviation SeverityUnknown :: Severity where "SeverityUnknown \<equiv> ''unknown''"

definition Severity_Valid :: "Severity \<Rightarrow> bool" where
  "Severity_Valid s = (s \<in> set [SeverityCritical, SeverityHigh, SeverityMedium,
     SeverityLow, SeverityInfo, SeverityUnknown])"

definition Severity_Rank :: "Severity \<Rightarrow> nat" where
  "Severity_Rank s =
     (if s = SeverityCritical then 5
      else if s = SeverityHigh then 4
      else if s = SeverityMedium then 3
      else if s = SeverityUnknown then 2
      else if s = SeverityLow then 1
      else 0)"

definition MapSeverity :: "golib \<Rightarrow> string \<Rightarrow> Severity" where
  "MapSeverity L raw =
     (let s = ToLower L (TrimSpace raw) in
      if s = ''critical'' then SeverityCritical
      else if s = ''high'' then SeverityHigh
      else if s = ''medium'' \<or> s = ''moderate'' then SeverityMedium
      else if s = ''low'' then SeverityLow
      else if s = ''negligible'' \<or> s = ''info'' \<or> s = ''informational'' \<or> s = ''none''
        then SeverityInfo
      else SeverityUnknown)"

definition MapZAPRisk :: "string \<Rightarrow> Severity" where
  "MapZAPRisk raw =
     (let s = TrimSpace raw in
      if s = ''3'' then SeverityHigh
      else if s = ''2'' then SeverityMedium
      else if s = ''1'' then SeverityLow
      else if s = ''0'' then SeverityInfo
      else SeverityUnknown)"

abbreviation ConfidenceHigh :: Confidence where "ConfidenceHigh \<equiv> ''high''"
abbreviation ConfidenceMedium :: Confidence where "ConfidenceMedium \<equiv> ''medium''"
abbreviation ConfidenceLow :: Confidence where "ConfidenceLow \<equiv> ''low''"

definition Confidence_Valid :: "Confidence \<Rightarrow> bool" where
  "Confidence_Valid c = (c \<in> set [ConfidenceHigh, ConfidenceMedium, ConfidenceLow])"

definition MapZAPConfidence :: "string \<Rightarrow> Confidence" where
  "MapZAPConfidence raw =
     (let s = TrimSpace raw in
      if s = ''3'' \<or> s = ''4'' then ConfidenceHigh
      else if s = ''2'' then ConfidenceMedium
      else ConfidenceLow)"

definition MapSemgrepSeverity :: "golib \<Rightarrow> string \<Rightarrow> Severity" where
  "MapSemgrepSeverity L raw =
     (let s = ToUpper L (TrimSpace raw) in
      if s = ''ERROR'' then SeverityHigh
      else if s = ''WARNING'' then SeverityMedium
      else if s = ''INFO'' then SeverityInfo
      else SeverityUnknown)"

section \<open>Lifecycle status and categories\<close>

type_synonym Status = string

abbreviation StatusOpen :: Status where "StatusOpen \<equiv> ''open''"
abbreviation StatusAcknowledged :: Status where "StatusAcknowledged \<equiv> ''acknowledged''"
abbreviation StatusInProgress :: Status where "StatusInProgress \<equiv> ''in_progress''"
abbreviation StatusResolved :: Status where "StatusResolved \<equiv> ''resolved''"
abbreviation StatusReopened :: Status where "StatusReopened \<equiv> ''reopened''"
abbreviation StatusFalsePositive :: Status where "StatusFalsePositive \<equiv> ''false_positive''"
abbreviation StatusIgnored :: Status where "StatusIgnored \<equiv> ''ignored''"

definition Status_Valid :: "Status \<Rightarrow> bool" where
  "Status_Valid s = (s \<in> set [StatusOpen, StatusAcknowledged, StatusInProgress,
     StatusResolved, StatusReopened, StatusFalsePositive, StatusIgnored])"

type_synonym Category = string

abbreviation CategorySAST :: Category where "CategorySAST \<equiv> ''sast''"
abbreviation CategorySecrets :: Category where "CategorySecrets \<equiv> ''secrets''"
abbreviation CategoryDependency :: Category where "CategoryDependency \<equiv> ''dependency''"
abbreviation CategoryContainer :: Category where "CategoryContainer \<equiv> ''container''"
abbreviation CategoryIaC :: Category where "CategoryIaC \<equiv> ''iac''"
abbreviation CategoryDAST :: Category where "CategoryDAST \<equiv> ''dast''"
abbreviation CategorySBOM :: Category where "CategorySBOM \<equiv> ''sbom''"
abbreviation CategoryLicense :: Category where "CategoryLicense \<equiv> ''license''"

definition validCategory :: "Category \<Rightarrow> bool" where
  "validCategory c = (c \<in> set [CategorySAST, CategorySecrets, CategoryDependency,
     CategoryContainer, CategoryIaC, CategoryDAST, CategoryLicense])"

section \<open>Fix facts and threat intelligence\<close>

type_synonym FixState = string

abbreviation (input) FixStateUnknown :: FixState where "FixStateUnknown \<equiv> ''''"
abbreviation FixStateFixed :: FixState where "FixStateFixed \<equiv> ''fixed''"
abbreviation FixStateNotFixed :: FixState where "FixStateNotFixed \<equiv> ''not-fixed''"
abbreviation FixStateWontFix :: FixState where "FixStateWontFix \<equiv> ''wont-fix''"

definition FixState_Valid :: "FixState \<Rightarrow> bool" where
  "FixState_Valid s = (s \<in> set [FixStateUnknown, FixStateFixed, FixStateNotFixed, FixStateWontFix])"

definition MapFixState :: "golib \<Rightarrow> string \<Rightarrow> FixState" where
  "MapFixState L raw =
     (let s = ToLower L (TrimSpace raw) in
      if s = ''fixed'' then FixStateFixed
      else if s = ''not-fixed'' \<or> s = ''not_fixed'' then FixStateNotFixed
      else if s = ''wont-fix'' \<or> s = ''wont_fix'' \<or> s = ''will-not-fix'' then FixStateWontFix
      else FixStateUnknown)"

record Fix =
  FixSt :: FixState
  FixedVersions :: "string list"
  References :: "string list"

definition Fix_Available :: "Fix \<Rightarrow> bool" where
  "Fix_Available f = (FixSt f = FixStateFixed \<and> 0 < length (FixedVersions f))"

record EPSS =
  Probability :: real
  Percentile :: real
  EPSS_Source :: string
  ObservedAt :: time

text \<open>\<open>ThreatIntel\<close> holds one pointer, nil when there is no signal.\<close>

record ThreatIntel =
  Threat_EPSS :: "EPSS option"

definition Threat_Available :: "ThreatIntel \<Rightarrow> bool" where
  "Threat_Available t = (Threat_EPSS t \<noteq> None)"

datatype finding_error =
    FingerprintRequired | ScannerRequired | TitleRequired
  | UnknownCategory string | UnknownSeverity string | UnknownConfidence string
  | UnknownStatus string | CVSSOutOfRange real
  | UnknownFixState string | BlankVersion | VersionsWithoutFix string nat | BlankReference
  | ProbabilityOutOfRange real | PercentileOutOfRange real | NoEPSSSource | NoEPSSDate

definition Fix_Validate :: "Fix \<Rightarrow> finding_error option" where
  "Fix_Validate f =
     (if \<not> FixState_Valid (FixSt f) then Some (UnknownFixState (FixSt f))
      else if list_ex (\<lambda>v. TrimSpace v = []) (FixedVersions f) then Some BlankVersion
      else if 0 < length (FixedVersions f) \<and>
              (FixSt f = FixStateWontFix \<or> FixSt f = FixStateNotFixed)
        then Some (VersionsWithoutFix (FixSt f) (length (FixedVersions f)))
      else if list_ex (\<lambda>r. TrimSpace r = []) (References f) then Some BlankReference
      else None)"

definition Threat_Validate :: "ThreatIntel \<Rightarrow> finding_error option" where
  "Threat_Validate t =
     (case Threat_EPSS t of
        None \<Rightarrow> None
      | Some e \<Rightarrow>
          (if Probability e < 0 \<or> Probability e > 1 then Some (ProbabilityOutOfRange (Probability e))
           else if Percentile e < 0 \<or> Percentile e > 1 then Some (PercentileOutOfRange (Percentile e))
           else if EPSS_Source e = [] then Some NoEPSSSource
           else if ObservedAt e = 0 then Some NoEPSSDate
           else None))"

section \<open>Finding, Occurrence and Result\<close>

record Finding =
  Fingerprint :: string
  ProjectID :: string
  Scanner :: string
  ScannerFindingID :: string
  ScannerSeverity :: string
  Category :: Category
  Sev :: Severity
  Conf :: Confidence
  Title :: string
  Description :: string
  Remediation :: string
  Package :: string
  PackageVersion :: string
  PURL :: string
  Image :: string
  Endpoint :: string
  CVE :: string
  CWE :: string
  CVSS :: real
  FixInfo :: Fix
  Threat :: ThreatIntel
  FStatus :: Status

record Occurrence =
  occ_Fingerprint :: string
  occ_ScanID :: string
  occ_File :: string
  occ_StartLine :: int
  occ_EndLine :: int
  occ_Scanner :: string
  occ_SeenAt :: time

record NormResult =
  res_Findings :: "Finding list"
  res_Occurrences :: "Occurrence list"
  res_Errors :: "string list"

definition Finding_Validate :: "Finding \<Rightarrow> finding_error option" where
  "Finding_Validate f =
     (if TrimSpace (Fingerprint f) = [] then Some FingerprintRequired
      else if TrimSpace (Scanner f) = [] then Some ScannerRequired
      else if TrimSpace (Title f) = [] then Some TitleRequired
      else if \<not> validCategory (Category f) then Some (UnknownCategory (Category f))
      else if \<not> Severity_Valid (Sev f) then Some (UnknownSeverity (Sev f))
      else if \<not> Confidence_Valid (Conf f) then Some (UnknownConfidence (Conf f))
      else if FStatus f \<noteq> [] \<and> \<not> Status_Valid (FStatus f) then Some (UnknownStatus (FStatus f))
      else if CVSS f < 0 \<or> CVSS f > 10 then Some (CVSSOutOfRange (CVSS f))
      else (case Fix_Validate (FixInfo f) of
              Some e \<Rightarrow> Some e
            | None \<Rightarrow> Threat_Validate (Threat f)))"

text \<open>The zero value of the struct, from which the examples start.\<close>

definition zero_Finding :: Finding where
  "zero_Finding = \<lparr>Fingerprint = [], ProjectID = [], Scanner = [], ScannerFindingID = [],
     ScannerSeverity = [], Category = [], Sev = [], Conf = [], Title = [], Description = [],
     Remediation = [], Package = [], PackageVersion = [], PURL = [], Image = [], Endpoint = [],
     CVE = [], CWE = [], CVSS = 0, FixInfo = \<lparr>FixSt = [], FixedVersions = [], References = []\<rparr>,
     Threat = \<lparr>Threat_EPSS = None\<rparr>, FStatus = []\<rparr>"

section \<open>Lemmas\<close>

lemma Severity_Rank_le [simp]: "Severity_Rank s \<le> 5"
  by (simp add: Severity_Rank_def)

lemma Severity_Rank_inj:
  "Severity_Valid s \<Longrightarrow> Severity_Valid t \<Longrightarrow> Severity_Rank s = Severity_Rank t \<Longrightarrow> s = t"
proof -
  have "\<forall>s \<in> set [SeverityCritical, SeverityHigh, SeverityMedium, SeverityLow, SeverityInfo, SeverityUnknown].
    \<forall>t \<in> set [SeverityCritical, SeverityHigh, SeverityMedium, SeverityLow, SeverityInfo, SeverityUnknown].
      Severity_Rank s = Severity_Rank t \<longrightarrow> s = t" by code_simp
  then show "Severity_Valid s \<Longrightarrow> Severity_Valid t \<Longrightarrow> Severity_Rank s = Severity_Rank t \<Longrightarrow> s = t"
    unfolding Severity_Valid_def by blast
qed

lemma Severity_Rank_invalid: "\<not> Severity_Valid s \<Longrightarrow> Severity_Rank s = 0"
  by (auto simp: Severity_Valid_def Severity_Rank_def)

lemma Severity_Rank_positive: "0 < Severity_Rank s \<Longrightarrow> Severity_Valid s"
  using Severity_Rank_invalid by (metis less_nat_zero_code)

lemma Threat_Validate_percentile:
  assumes "Threat_Validate t = None" and "Threat_EPSS t = Some e"
  shows "0 \<le> Percentile e" and "Percentile e \<le> 1"
  using assms by (auto simp: Threat_Validate_def split: if_splits)

text \<open>
  A valid fix that names a version carries the state \<open>fixed\<close>, or claims no state at all; it is
  never a state that says no fix exists.
\<close>

lemma Fix_Validate_versions:
  assumes "Fix_Validate f = None" and "v \<in> set (FixedVersions f)"
  shows "FixSt f \<in> {FixStateFixed, FixStateUnknown}" and "TrimSpace v \<noteq> []"
  using assms by (auto simp: Fix_Validate_def FixState_Valid_def list_ex_iff split: if_splits)

lemma Finding_Validate_parts:
  assumes "Finding_Validate f = None"
  shows "Severity_Valid (Sev f)" "Confidence_Valid (Conf f)" "validCategory (Category f)"
    "Fix_Validate (FixInfo f) = None" "Threat_Validate (Threat f) = None" "Fingerprint f \<noteq> []"
  using assms by (auto simp: Finding_Validate_def split: if_splits option.splits)

text \<open>Every mapping from a scanner's vocabulary lands on the scale, whatever the scanner wrote.\<close>

lemma MapSeverity_valid: "Severity_Valid (MapSeverity L raw)"
  by (simp add: MapSeverity_def Severity_Valid_def Let_def)

lemma MapZAPRisk_valid: "Severity_Valid (MapZAPRisk raw)"
  by (simp add: MapZAPRisk_def Severity_Valid_def Let_def)

lemma MapSemgrepSeverity_valid: "Severity_Valid (MapSemgrepSeverity L raw)"
  by (simp add: MapSemgrepSeverity_def Severity_Valid_def Let_def)

text \<open>
  ZAP and semgrep have no level that reads as critical: the top of their scales maps to high.
\<close>

lemma tool_scales_not_critical:
  "MapZAPRisk raw \<noteq> SeverityCritical" "MapSemgrepSeverity L raw \<noteq> SeverityCritical"
  by (simp_all add: MapZAPRisk_def MapSemgrepSeverity_def Let_def)

section \<open>Which findings count\<close>

text \<open>
  Four engines decide for themselves which statuses take a finding out of scope, and have to agree.
  The contract is a locale each of them interprets on its own predicate.
\<close>

locale dismissal =
  fixes dead :: "Status \<Rightarrow> bool"
  assumes dead_iff: "dead s \<longleftrightarrow> s \<in> {StatusResolved, StatusFalsePositive, StatusIgnored}"
begin

lemma agrees: "dismissal other \<Longrightarrow> other = dead"
  using dead_iff by (auto simp: dismissal_def fun_eq_iff)

lemma live_statuses: "s \<in> {[], StatusOpen, StatusAcknowledged, StatusInProgress, StatusReopened} \<Longrightarrow> \<not> dead s"
  by (auto simp: dead_iff)

end

end
