(* ===== verification/Fingerprints.thy ===== *)
theory Fingerprints
  imports Findings_Model
begin

text \<open>
  Stable identity and deduplication: \<open>internal/normalization/fingerprint.go\<close> and
  \<open>dedup.go\<close>. A fingerprint hashes five normalised fields joined by a separator that no field
  may contain; \<open>Deduplicate\<close> merges findings with equal fingerprints. The lemmas show that the
  join is unambiguous, that locations have one normal form, and that \<open>Deduplicate\<close> implements
  the group-by specification \<open>dedup_spec\<close>.
\<close>

section \<open>Fingerprint\<close>

abbreviation fieldSeparator :: string where "fieldSeparator \<equiv> [CHR 0x1F]"

record FingerprintInput =
  in_Category :: Category
  in_RuleID :: string
  in_Location :: string
  in_Package :: string
  in_VulnerabilityID :: string

datatype fingerprint_error = ContainsSeparator nat | NothingBeyondCategory

definition NormalizeLocation :: "string \<Rightarrow> string" where
  "NormalizeLocation p0 =
     (let p = TrimSpace p0 in
      if p = [] then []
      else let p = map (\<lambda>c. if c = CHR 0x5C then CHR ''/'' else c) p;
               p = Clean p;
               p = TrimPrefix p ''./''
           in TrimPrefix p ''/'')"

definition normalizeRuleID :: "golib \<Rightarrow> string \<Rightarrow> string" where
  "normalizeRuleID L s = ToLower L (TrimSpace s)"

definition normalizePackage :: "golib \<Rightarrow> string \<Rightarrow> string" where
  "normalizePackage L s = ToLower L (TrimSpace s)"

definition normalizeVulnerabilityID :: "golib \<Rightarrow> string \<Rightarrow> string" where
  "normalizeVulnerabilityID L s = ToUpper L (TrimSpace s)"

definition fingerprint_fields :: "golib \<Rightarrow> FingerprintInput \<Rightarrow> string list" where
  "fingerprint_fields L i =
     [ToLower L (TrimSpace (in_Category i)), normalizeRuleID L (in_RuleID i),
      NormalizeLocation (in_Location i), normalizePackage L (in_Package i),
      normalizeVulnerabilityID L (in_VulnerabilityID i)]"

fun first_with_separator :: "nat \<Rightarrow> string list \<Rightarrow> nat option" where
  "first_with_separator i [] = None"
| "first_with_separator i (f # fs) =
     (if contains f fieldSeparator then Some i else first_with_separator (Suc i) fs)"

definition Fingerprint_of :: "golib \<Rightarrow> FingerprintInput \<Rightarrow> fingerprint_error + string" where
  "Fingerprint_of L i =
     (let fields = fingerprint_fields L i in
      case first_with_separator 0 fields of
        Some k \<Rightarrow> Inl (ContainsSeparator k)
      | None \<Rightarrow>
          if fields ! 1 = [] \<and> fields ! 2 = [] \<and> fields ! 3 = [] \<and> fields ! 4 = []
          then Inl NothingBeyondCategory
          else Inr (lib_sha256hex L (Join fields fieldSeparator)))"

definition EndpointTargetPath :: "golib \<Rightarrow> string \<Rightarrow> string option" where
  "EndpointTargetPath L raw0 =
     (let raw = TrimSpace raw0 in
      if raw = [] then None
      else case lib_url_Parse L raw of
        None \<Rightarrow> None
      | Some u \<Rightarrow>
          if url_Scheme u = [] \<or> url_Hostname u = [] then None
          else Some (NormalizeLocation (url_EscapedPath u)))"

section \<open>Deduplicate and Combine\<close>

record MergedFinding =
  merged :: Finding
  Sources :: "string list"

record DedupResult =
  dd_Findings :: "MergedFinding list"
  dd_Occurrences :: "Occurrence list"
  dd_Errors :: "string list"

text \<open>
  The loop of \<open>Deduplicate\<close>. The map \<open>byFingerprint\<close> together with the slice \<open>order\<close> is the
  list of entries in order of first sight; the entry a finding updates is the one with its
  fingerprint.
\<close>

definition merge_into :: "Finding \<Rightarrow> MergedFinding \<Rightarrow> MergedFinding" where
  "merge_into f m =
     (let m1 = (if Scanner f \<in> set (Sources m) then m
                else m\<lparr>Sources := Sources m @ [Scanner f]\<rparr>)
      in if Severity_Rank (Sev f) > Severity_Rank (Sev (merged m1))
         then m1\<lparr>merged := (merged m1)\<lparr>Sev := Sev f\<rparr>\<rparr> else m1)"

fun dedup_step :: "MergedFinding list \<Rightarrow> Finding \<Rightarrow> MergedFinding list" where
  "dedup_step [] f = [\<lparr>merged = f, Sources = [Scanner f]\<rparr>]"
| "dedup_step (m # ms) f =
     (if Fingerprint (merged m) = Fingerprint f then merge_into f m # ms
      else m # dedup_step ms f)"

definition Deduplicate :: "Finding list \<Rightarrow> DedupResult" where
  "Deduplicate fs =
     \<lparr>dd_Findings = map (\<lambda>m. m\<lparr>Sources := sort (Sources m)\<rparr>) (foldl dedup_step [] fs),
      dd_Occurrences = [], dd_Errors = []\<rparr>"

definition Combine :: "NormResult list \<Rightarrow> DedupResult" where
  "Combine results =
     (Deduplicate (concat (map res_Findings results)))
       \<lparr>dd_Occurrences := concat (map res_Occurrences results),
        dd_Errors := concat (map res_Errors results)\<rparr>"

text \<open>
  What deduplication promises, as a group-by: one entry per fingerprint in order of first sight;
  its prose is the first report's, its severity the first of the worst reported, its sources the
  sorted set of reporting scanners.
\<close>

definition worse :: "Severity \<Rightarrow> Severity \<Rightarrow> Severity" where
  "worse a b = (if Severity_Rank b > Severity_Rank a then b else a)"

definition group_of :: "Finding list \<Rightarrow> string \<Rightarrow> Finding list" where
  "group_of fs k = filter (\<lambda>f. Fingerprint f = k) fs"

definition merge_group :: "Finding list \<Rightarrow> MergedFinding" where
  "merge_group g =
     \<lparr>merged = (hd g)\<lparr>Sev := foldl worse (Sev (hd g)) (map Sev (tl g))\<rparr>,
      Sources = dedup (map Scanner g)\<rparr>"

definition dedup_spec :: "Finding list \<Rightarrow> MergedFinding list" where
  "dedup_spec fs =
     map (\<lambda>k. let m = merge_group (group_of fs k) in m\<lparr>Sources := sort (Sources m)\<rparr>)
       (dedup (map Fingerprint fs))"

text \<open>The shape \<open>path.Clean\<close> leaves: dot-dots only in front, and not in a rooted path.\<close>

fun norm_elems :: "bool \<Rightarrow> string list \<Rightarrow> bool" where
  "norm_elems b [] = True"
| "norm_elems b (e # es) =
     (if e = ''..'' then b \<and> norm_elems b es else e \<noteq> [] \<and> e \<noteq> ''.'' \<and> norm_elems False es)"

text \<open>The part of a result that the order of the input cannot reach.\<close>

definition dedup_view :: "DedupResult \<Rightarrow> (string \<times> string list \<times> nat) set" where
  "dedup_view r = (\<lambda>m. (Fingerprint (merged m), Sources m, Severity_Rank (Sev (merged m)))) `
     set (dd_Findings r)"

abbreviation good_elems :: "string list \<Rightarrow> bool" where
  "good_elems es \<equiv> norm_elems True es \<and> (\<forall>e \<in> set es. CHR ''/'' \<notin> set e \<and> CHR 0x5C \<notin> set e)"

text \<open>Sample values for the examples.\<close>

definition report :: "string \<Rightarrow> string \<Rightarrow> Severity \<Rightarrow> Finding" where
  "report fpr scanner sev = zero_Finding\<lparr>Fingerprint := fpr, Scanner := scanner, Sev := sev\<rparr>"

definition sample_input :: "string \<Rightarrow> string \<Rightarrow> FingerprintInput" where
  "sample_input rule loc = \<lparr>in_Category = CategorySAST, in_RuleID = rule, in_Location = loc,
     in_Package = [], in_VulnerabilityID = []\<rparr>"

section \<open>The join is unambiguous\<close>

lemma first_with_separator_None:
  "first_with_separator i fs = None \<longleftrightarrow> (\<forall>f \<in> set fs. CHR 0x1F \<notin> set f)"
  by (induction i fs rule: first_with_separator.induct) auto

lemma Fingerprint_of_Inr:
  assumes "Fingerprint_of L i = Inr x"
  shows "\<forall>f \<in> set (fingerprint_fields L i). CHR 0x1F \<notin> set f"
    and "x = lib_sha256hex L (Join (fingerprint_fields L i) fieldSeparator)"
  using assms
  by (auto simp: Fingerprint_of_def Let_def split: option.splits if_splits
      dest: first_with_separator_None [THEN iffD1])

text \<open>
  Two inputs get the same fingerprint only when all five normalised fields agree, unless the
  hash itself collides on the two joined strings: the separator cannot be forged by a field, so
  no other pair of inputs shares an identity.
\<close>

theorem fingerprint_identifies_fields:
  assumes "Fingerprint_of L i = Inr x" and "Fingerprint_of L j = Inr x"
    and "lib_sha256hex L (Join (fingerprint_fields L i) fieldSeparator) =
           lib_sha256hex L (Join (fingerprint_fields L j) fieldSeparator) \<Longrightarrow>
         Join (fingerprint_fields L i) fieldSeparator = Join (fingerprint_fields L j) fieldSeparator"
  shows "fingerprint_fields L i = fingerprint_fields L j"
proof (rule Join_inj)
  show "fingerprint_fields L i \<noteq> []" "fingerprint_fields L j \<noteq> []"
    by (simp_all add: fingerprint_fields_def)
  show "Join (fingerprint_fields L i) fieldSeparator = Join (fingerprint_fields L j) fieldSeparator"
    using assms(3) Fingerprint_of_Inr(2) [OF assms(1)] Fingerprint_of_Inr(2) [OF assms(2)] by simp
qed (use Fingerprint_of_Inr(1) [OF assms(1)] Fingerprint_of_Inr(1) [OF assms(2)] in auto)

text \<open>The hypotheses hold, with a concrete digest, for two spellings of one finding.\<close>

theorem fingerprint_identifies_fields_witness:
  "fingerprint_fields sample_lib (sample_input ''G101'' ''./a/b.go'') =
   fingerprint_fields sample_lib (sample_input '' g101'' ''a//b.go'')"
proof (rule fingerprint_identifies_fields)
  show "Fingerprint_of sample_lib (sample_input ''G101'' ''./a/b.go'') =
      Inr (Join [''sast'', ''g101'', ''a/b.go'', [], []] fieldSeparator)"
    by code_simp
  show "Fingerprint_of sample_lib (sample_input '' g101'' ''a//b.go'') =
      Inr (Join [''sast'', ''g101'', ''a/b.go'', [], []] fieldSeparator)"
    by code_simp
qed (simp add: sample_lib_def)

section \<open>Locations have one normal form\<close>

lemma norm_elems_weaken: "norm_elems False es \<Longrightarrow> norm_elems b es"
  by (cases es) auto

lemma norm_elems_snoc:
  "norm_elems b (xs @ [e]) \<longleftrightarrow>
   norm_elems b xs \<and> (if e = ''..'' then b \<and> set xs \<subseteq> {''..''} else e \<noteq> [] \<and> e \<noteq> ''.'')"
  by (induction xs arbitrary: b) auto

lemma norm_elems_prefix: "norm_elems b (xs @ ys) \<Longrightarrow> norm_elems b xs"
  by (induction xs arbitrary: b) auto

lemma clean_elems_norm:
  "norm_elems (\<not> rooted) (rev st) \<Longrightarrow> norm_elems (\<not> rooted) (clean_elems rooted st es)"
proof (induction rooted st es rule: clean_elems.induct)
  case (2 rooted st e es)
  show ?case
  proof (cases "e = ''..'' \<and> st \<noteq> []")
    case True
    then obtain t ts where st: "st = t # ts" by (cases st) auto
    have "norm_elems (\<not> rooted) (rev (''..'' # st))" if "t = ''..''"
      using "2.prems" that norm_elems_snoc [of "\<not> rooted" "rev ts @ [''..'']" "''..''"]
      by (auto simp: st norm_elems_snoc)
    moreover have "norm_elems (\<not> rooted) (rev ts)"
      using "2.prems" by (simp add: st norm_elems_snoc)
    ultimately show ?thesis using 2 True st by (cases "t = ''..''") auto
  next
    case False
    then show ?thesis using 2 by (cases "st = []") (auto simp: norm_elems_snoc)
  qed
qed simp

lemma clean_elems_id:
  "norm_elems True (rev st @ es) \<Longrightarrow> clean_elems False st es = rev st @ es"
proof (induction es arbitrary: st)
  case (Cons e es)
  have pre: "norm_elems True (rev st @ [e])"
    using norm_elems_prefix [of True "rev st @ [e]" es] Cons.prems by simp
  have IH: "clean_elems False (e # st) es = rev st @ e # es"
    using Cons.IH [of "e # st"] Cons.prems by simp
  show ?case
  proof (cases "e = ''..''")
    case True
    then have "set st \<subseteq> {''..''}" using pre by (simp add: norm_elems_snoc)
    then show ?thesis using True IH by (cases st) auto
  next
    case False
    then show ?thesis using pre IH by (simp add: norm_elems_snoc)
  qed
qed simp

text \<open>Cleaned elements contain no slash and only bytes of the path.\<close>

lemma clean_elems_set:
  "set (clean_elems rooted st es) \<subseteq> set st \<union> set es \<union> {''..''}"
proof (induction rooted st es rule: clean_elems.induct)
  case (2 rooted st e es)
  then show ?case by (cases st) (auto split: if_splits)
qed auto

lemma Join_hd:
  "es \<noteq> [] \<Longrightarrow> hd es \<noteq> [] \<Longrightarrow> Join es sep \<noteq> [] \<and> hd (Join es sep) = hd (hd es)"
  by (cases "(es, sep)" rule: Join.cases) auto

lemma set_Join: "set (Join es sep) \<subseteq> \<Union> (set ` set es) \<union> set sep"
  by (induction es sep rule: Join.induct) auto

lemma norm_elems_hd: "norm_elems b es \<Longrightarrow> es \<noteq> [] \<Longrightarrow> hd es \<noteq> [] \<and> hd es \<noteq> ''.''"
  by (cases es) (auto split: if_splits)

lemma clean_elems_good:
  assumes "CHR 0x5C \<notin> set p"
  shows "good_elems (clean_elems rooted [] (Split p (CHR ''/'')))"
proof -
  have "norm_elems True (clean_elems rooted [] (Split p (CHR ''/'')))"
    using clean_elems_norm [of rooted "[]" "Split p (CHR ''/'')"]
    by (cases rooted) (auto intro: norm_elems_weaken)
  moreover have "CHR ''/'' \<notin> set e \<and> CHR 0x5C \<notin> set e"
    if "e \<in> set (clean_elems rooted [] (Split p (CHR ''/'')))" for e
  proof -
    have "e \<in> set (Split p (CHR ''/'')) \<or> e = ''..''"
      using that clean_elems_set [of rooted "[]" "Split p (CHR ''/'')"] by auto
    then show ?thesis
      using Split_no_sep_elem Split_chars assms by fastforce
  qed
  ultimately show ?thesis by blast
qed

lemma good_elems_Join:
  assumes "good_elems es" and "es \<noteq> []"
  shows "Join es ''/'' \<noteq> []" and "hd (Join es ''/'') \<noteq> CHR ''/''"
    and "\<not> prefix ''./'' (Join es ''/'')" and "CHR 0x5C \<notin> set (Join es ''/'')"
    and "Split (Join es ''/'') (CHR ''/'') = es"
proof -
  have hd: "hd es \<noteq> []" "hd es \<noteq> ''.''" using assms norm_elems_hd by blast+
  show *: "Join es ''/'' \<noteq> []" using Join_hd [OF assms(2) hd(1)] by simp
  show "hd (Join es ''/'') \<noteq> CHR ''/''"
    using Join_hd [OF assms(2) hd(1)] assms hd(1) by (metis hd_in_set)
  show "CHR 0x5C \<notin> set (Join es ''/'')"
    using set_Join [of es "''/''"] assms by fastforce
  show split: "Split (Join es ''/'') (CHR ''/'') = es"
    using assms by (intro Split_Join) auto
  show "\<not> prefix ''./'' (Join es ''/'')"
  proof
    assume "prefix ''./'' (Join es ''/'')"
    then obtain r where "Join es ''/'' = ''.'' @ CHR ''/'' # r" by (auto simp: prefix_def)
    then have "hd es = ''.''" using split Split_append [of "CHR ''/''" "''.''" r] by auto
    with hd show False by simp
  qed
qed

lemma NormalizeLocation_shape:
  "NormalizeLocation p = [] \<or> NormalizeLocation p = ''.'' \<or>
   (\<exists>es. es \<noteq> [] \<and> good_elems es \<and> NormalizeLocation p = Join es ''/'')"
proof (cases "TrimSpace p = []")
  case False
  define q where "q = map (\<lambda>c. if c = CHR 0x5C then CHR ''/'' else c) (TrimSpace p)"
  define rooted where "rooted = (hd q = CHR ''/'')"
  define es where "es = clean_elems rooted [] (Split q (CHR ''/''))"
  have "CHR 0x5C \<notin> set q" by (auto simp: q_def)
  then have good: "good_elems es" unfolding es_def by (rule clean_elems_good)
  have nl: "NormalizeLocation p =
      TrimPrefix (TrimPrefix (if rooted then ''/'' @ Join es ''/''
        else if es = [] then ''.'' else Join es ''/'') ''./'') ''/''"
    using False by (simp add: NormalizeLocation_def Clean_def Let_def q_def es_def rooted_def)
  show ?thesis
  proof (cases "es = []")
    case True
    then show ?thesis by (simp add: nl TrimPrefix_def)
  next
    case False
    note J = good_elems_Join [OF good False]
    from J(1,2) have "\<not> prefix ''/'' (Join es ''/'')" by (cases "Join es ''/''") auto
    with J(3) False good show ?thesis by (auto simp: nl TrimPrefix_def)
  qed
qed (simp add: NormalizeLocation_def)

text \<open>
  A normalised location is a fixed point: normalising it again, as the correlation engine does
  with stored file paths, changes nothing, as long as it starts and ends with no white space.
\<close>

theorem NormalizeLocation_idempotent:
  assumes "TrimSpace (NormalizeLocation p) = NormalizeLocation p"
  shows "NormalizeLocation (NormalizeLocation p) = NormalizeLocation p"
proof -
  consider "NormalizeLocation p = []" | "NormalizeLocation p = ''.''"
    | es where "es \<noteq> []" "good_elems es" "NormalizeLocation p = Join es ''/''"
    using NormalizeLocation_shape by blast
  then show ?thesis
  proof cases
    case 1
    then show ?thesis by (simp add: NormalizeLocation_def)
  next
    case 2
    have "NormalizeLocation ''.'' = ''.''" by code_simp
    with 2 show ?thesis by simp
  next
    case 3
    note J = good_elems_Join [OF 3(2,1)]
    have trim: "TrimSpace (Join es ''/'') = Join es ''/''" using assms 3(3) by simp
    have m: "map (\<lambda>c. if c = CHR 0x5C then CHR ''/'' else c) (Join es ''/'') = Join es ''/''"
      using J(4) by (intro map_idI) auto
    have c: "Clean (Join es ''/'') = Join es ''/''"
      using clean_elems_id [of "[]" es] 3(1,2) J by (simp add: Clean_def Let_def)
    have "\<not> prefix ''/'' (Join es ''/'')" using J(1,2) by (cases "Join es ''/''") auto
    then have "NormalizeLocation (Join es ''/'') = Join es ''/''"
      unfolding NormalizeLocation_def Let_def trim m c using J(1,3) by (simp add: TrimPrefix_def)
    with 3(3) show ?thesis by simp
  qed
qed

theorem NormalizeLocation_idempotent_witness:
  "NormalizeLocation (NormalizeLocation ''./src//x/../main.go'') = ''src/main.go''"
proof -
  have n: "NormalizeLocation ''./src//x/../main.go'' = ''src/main.go''" by code_simp
  have t: "TrimSpace ''src/main.go'' = ''src/main.go''" by code_simp
  show ?thesis using NormalizeLocation_idempotent [of "''./src//x/../main.go''"] by (simp add: n t)
qed

section \<open>Deduplicate implements the group-by specification\<close>

lemma merge_group_snoc: "g \<noteq> [] \<Longrightarrow> merge_group (g @ [f]) = merge_into f (merge_group g)"
  by (simp add: merge_group_def merge_into_def worse_def dedup_snoc Let_def)

lemma merge_group_single: "merge_group [f] = \<lparr>merged = f, Sources = [Scanner f]\<rparr>"
  by (simp add: merge_group_def)

lemma group_of_snoc:
  "group_of (fs @ [f]) k = (if Fingerprint f = k then group_of fs k @ [f] else group_of fs k)"
  by (simp add: group_of_def)

lemma group_of_nonempty: "k \<in> Fingerprint ` set fs \<Longrightarrow> group_of fs k \<noteq> []"
  by (auto simp: group_of_def filter_empty_conv)

lemma Fingerprint_merge_group:
  assumes "k \<in> Fingerprint ` set fs"
  shows "Fingerprint (merged (merge_group (group_of fs k))) = k"
proof -
  have "hd (group_of fs k) \<in> set (group_of fs k)" using assms group_of_nonempty by simp
  then show ?thesis by (simp add: merge_group_def group_of_def)
qed

lemma dedup_step_map:
  assumes "distinct ks" and "\<And>k. k \<in> set ks \<Longrightarrow> Fingerprint (merged (g k)) = k"
  shows "dedup_step (map g ks) f =
    (if Fingerprint f \<in> set ks
     then map (\<lambda>k. if k = Fingerprint f then merge_into f (g k) else g k) ks
     else map g ks @ [\<lparr>merged = f, Sources = [Scanner f]\<rparr>])"
  using assms by (induction ks) (auto intro!: map_cong)

lemma dedup_loop:
  "foldl dedup_step [] fs = map (\<lambda>k. merge_group (group_of fs k)) (dedup (map Fingerprint fs))"
proof (induction fs rule: rev_induct)
  case (snoc f fs)
  let ?g = "\<lambda>k. merge_group (group_of fs k)" and ?ks = "dedup (map Fingerprint fs)"
  have keys: "Fingerprint (merged (?g k)) = k" if "k \<in> set ?ks" for k
    using that by (intro Fingerprint_merge_group) auto
  show ?case
  proof (cases "Fingerprint f \<in> set ?ks")
    case True
    then have ne: "group_of fs (Fingerprint f) \<noteq> []" by (intro group_of_nonempty) auto
    have "foldl dedup_step [] (fs @ [f]) =
        map (\<lambda>k. if k = Fingerprint f then merge_into f (?g k) else ?g k) ?ks"
      using snoc dedup_step_map [of ?ks ?g f] keys True by simp
    also have "\<dots> = map (\<lambda>k. merge_group (group_of (fs @ [f]) k)) ?ks"
      by (rule map_cong) (auto simp: group_of_snoc merge_group_snoc ne)
    finally show ?thesis using True by (simp add: dedup_snoc)
  next
    case False
    then have "group_of fs (Fingerprint f) = []"
      by (simp add: group_of_def filter_empty_conv image_iff) metis
    then have new: "merge_group (group_of (fs @ [f]) (Fingerprint f)) =
        \<lparr>merged = f, Sources = [Scanner f]\<rparr>"
      by (simp add: group_of_snoc merge_group_single)
    have "map (\<lambda>k. merge_group (group_of (fs @ [f]) k)) ?ks = map ?g ?ks"
      using False by (intro map_cong) (auto simp: group_of_snoc)
    then show ?thesis
      using snoc dedup_step_map [of ?ks ?g f] keys False new by (simp add: dedup_snoc)
  qed
qed simp

text \<open>
  C26: \<open>Deduplicate\<close> is the group-by specification: one merged finding per distinct fingerprint,
  in order of first sight, with the first report's fields, the worst reported severity and the
  sorted set of reporting scanners.
\<close>

theorem Deduplicate_refines_spec: "dd_Findings (Deduplicate fs) = dedup_spec fs"
  by (simp add: Deduplicate_def dedup_loop dedup_spec_def Let_def)

lemma foldl_worse_rank:
  "Severity_Rank (foldl worse s ss) = Max (set (map Severity_Rank (s # ss)))"
proof (induction ss arbitrary: s)
  case (Cons a ss)
  have "Severity_Rank (worse s a) = max (Severity_Rank s) (Severity_Rank a)"
    by (auto simp: worse_def)
  then show ?case using Cons [of "worse s a"] by (cases "ss = []") (auto simp: max.assoc)
qed simp

lemma merge_group_rank:
  assumes "g \<noteq> []"
  shows "Severity_Rank (Sev (merged (merge_group g))) = Max (Severity_Rank ` Sev ` set g)"
proof -
  have "Severity_Rank (Sev (merged (merge_group g))) =
      Max (set (map Severity_Rank (Sev (hd g) # map Sev (tl g))))"
    by (simp add: merge_group_def foldl_worse_rank)
  also have "set (map Severity_Rank (Sev (hd g) # map Sev (tl g))) = Severity_Rank ` Sev ` set g"
    using assms by (cases g) (auto simp: image_image)
  finally show ?thesis .
qed

lemma Deduplicate_entry:
  assumes "m \<in> set (dd_Findings (Deduplicate fs))"
  defines "g \<equiv> group_of fs (Fingerprint (merged m))"
  shows "g \<noteq> []"
    and "Severity_Rank (Sev (merged m)) = Max (Severity_Rank ` Sev ` set g)"
    and "Sources m = sort (dedup (map Scanner g))"
proof -
  obtain k where k: "k \<in> Fingerprint ` set fs"
    and m: "m = (merge_group (group_of fs k))\<lparr>Sources := sort (Sources (merge_group (group_of fs k)))\<rparr>"
    using assms(1) by (auto simp: Deduplicate_def dedup_loop)
  have gk: "g = group_of fs k" unfolding g_def m using Fingerprint_merge_group [OF k] by simp
  show ne: "g \<noteq> []" unfolding gk using k by (rule group_of_nonempty)
  show "Severity_Rank (Sev (merged m)) = Max (Severity_Rank ` Sev ` set g)"
    using merge_group_rank [OF ne] by (simp add: m gk)
  show "Sources m = sort (dedup (map Scanner g))" by (simp add: m gk merge_group_def)
qed

lemma Deduplicate_fingerprints:
  "map (Fingerprint \<circ> merged) (dd_Findings (Deduplicate fs)) = dedup (map Fingerprint fs)"
proof -
  have "map (Fingerprint \<circ> merged) (dd_Findings (Deduplicate fs)) =
      map (\<lambda>k. Fingerprint (merged (merge_group (group_of fs k)))) (dedup (map Fingerprint fs))"
    by (simp add: Deduplicate_def dedup_loop)
  also have "\<dots> = map (\<lambda>k. k) (dedup (map Fingerprint fs))"
    by (rule map_cong) (auto intro: Fingerprint_merge_group)
  finally show ?thesis by simp
qed

text \<open>
  Nothing a scanner reported is lost or understated: every input finding has exactly one merged
  finding with its identity, which names its scanner and carries a severity at least as bad.
\<close>

theorem Deduplicate_keeps_every_report:
  assumes "f \<in> set fs"
  shows "\<exists>!m. m \<in> set (dd_Findings (Deduplicate fs)) \<and> Fingerprint (merged m) = Fingerprint f \<and>
     Scanner f \<in> set (Sources m) \<and> Severity_Rank (Sev f) \<le> Severity_Rank (Sev (merged m))"
proof (rule ex_ex1I)
  have "Fingerprint f \<in> set (map (Fingerprint \<circ> merged) (dd_Findings (Deduplicate fs)))"
    using assms by (simp only: Deduplicate_fingerprints) simp
  then obtain m where m: "m \<in> set (dd_Findings (Deduplicate fs))"
    and fp: "Fingerprint (merged m) = Fingerprint f" by auto
  have f: "f \<in> set (group_of fs (Fingerprint (merged m)))" using assms fp by (simp add: group_of_def)
  then have "Scanner f \<in> set (Sources m)"
    by (simp only: Deduplicate_entry(3) [OF m] set_sort set_dedup) simp
  moreover have "Severity_Rank (Sev f) \<le> Severity_Rank (Sev (merged m))"
    using f by (simp add: Deduplicate_entry(2) [OF m] Max_ge)
  ultimately show "\<exists>m. m \<in> set (dd_Findings (Deduplicate fs)) \<and> Fingerprint (merged m) = Fingerprint f \<and>
     Scanner f \<in> set (Sources m) \<and> Severity_Rank (Sev f) \<le> Severity_Rank (Sev (merged m))"
    using m fp by blast
next
  have "distinct (map (Fingerprint \<circ> merged) (dd_Findings (Deduplicate fs)))"
    by (simp only: Deduplicate_fingerprints) simp
  then show "m = m'" if "m \<in> set (dd_Findings (Deduplicate fs)) \<and> Fingerprint (merged m) = Fingerprint f \<and>
     Scanner f \<in> set (Sources m) \<and> Severity_Rank (Sev f) \<le> Severity_Rank (Sev (merged m))"
    "m' \<in> set (dd_Findings (Deduplicate fs)) \<and> Fingerprint (merged m') = Fingerprint f \<and>
     Scanner f \<in> set (Sources m') \<and> Severity_Rank (Sev f) \<le> Severity_Rank (Sev (merged m'))" for m m'
    using that by (auto simp: distinct_map inj_on_def)
qed

theorem Deduplicate_keeps_every_report_witness:
  "\<exists>!m. m \<in> set (dd_Findings (Deduplicate [report ''x'' ''trivy'' SeverityLow, report ''x'' ''grype'' SeverityHigh])) \<and>
     Fingerprint (merged m) = ''x'' \<and> ''grype'' \<in> set (Sources m) \<and>
     Severity_Rank SeverityHigh \<le> Severity_Rank (Sev (merged m))"
  using Deduplicate_keeps_every_report
    [of "report ''x'' ''grype'' SeverityHigh"
      "[report ''x'' ''trivy'' SeverityLow, report ''x'' ''grype'' SeverityHigh]"]
  by (simp add: report_def)

text \<open>
  What does not depend on the order of the input: the identities, their sources and their
  severity ranks. The order of the output and the prose of a merged finding do: each follows the
  first report, so re-running a scan whose scanners finish in another order can change both.
\<close>

lemma dedup_view_eq:
  "dedup_view (Deduplicate fs) =
     (\<lambda>k. (k, sort (dedup (map Scanner (group_of fs k))), Max (Severity_Rank ` Sev ` set (group_of fs k)))) `
       Fingerprint ` set fs"
proof -
  let ?h = "\<lambda>k. (k, sort (dedup (map Scanner (group_of fs k))), Max (Severity_Rank ` Sev ` set (group_of fs k)))"
  have "dedup_view (Deduplicate fs) = ?h ` (Fingerprint \<circ> merged) ` set (dd_Findings (Deduplicate fs))"
    unfolding dedup_view_def image_image o_def
    by (rule image_cong) (auto simp: Deduplicate_entry(2,3) image_image)
  also have "(Fingerprint \<circ> merged) ` set (dd_Findings (Deduplicate fs)) = Fingerprint ` set fs"
    using Deduplicate_fingerprints [of fs] by (metis list.set_map set_dedup)
  finally show ?thesis .
qed

text \<open>
  The identities, sources and severity ranks of the merged findings are the same for every
  order in which the scanners' findings arrive.
\<close>

theorem Deduplicate_order_independent:
  assumes "mset fs = mset gs"
  shows "dedup_view (Deduplicate fs) = dedup_view (Deduplicate gs)"
proof -
  have set: "set (group_of fs k) = set (group_of gs k)" for k
    using mset_eq_setD [OF assms] by (simp add: group_of_def)
  then have "sort (dedup (map Scanner (group_of fs k))) = sort (dedup (map Scanner (group_of gs k)))" for k
    by (intro sort_dedup_cong) simp
  with set mset_eq_setD [OF assms] show ?thesis by (simp add: dedup_view_eq)
qed

theorem Deduplicate_order_independent_witness:
  "dedup_view (Deduplicate [report ''x'' ''trivy'' SeverityLow, report ''y'' ''zap'' SeverityHigh]) =
   dedup_view (Deduplicate [report ''y'' ''zap'' SeverityHigh, report ''x'' ''trivy'' SeverityLow])"
  by (rule Deduplicate_order_independent) simp

text \<open>The whole result is not: two scanners finishing in the other order swap the output.\<close>

lemma Deduplicate_order_matters:
  "Deduplicate [report ''x'' ''trivy'' SeverityLow, report ''y'' ''zap'' SeverityHigh] \<noteq>
   Deduplicate [report ''y'' ''zap'' SeverityHigh, report ''x'' ''trivy'' SeverityLow]"
  by (simp add: Deduplicate_def report_def)

end
