(* ===== verification/Projects.thy ===== *)
theory Projects
  imports Go_Prelude
begin

text \<open>
  The project entity: \<open>internal/projects/project.go\<close>. \<open>Normalize\<close> validates a creation request
  and returns its canonical copy; \<open>Slugify\<close> derives a slug from a name. The lemmas show that
  \<open>Slugify\<close> produces the empty string or a slug the pattern accepts, that everything
  \<open>Normalize\<close> accepts is within the declared bounds, and that it is a projection.
\<close>

section \<open>Environment and criticality\<close>

type_synonym Environment = string
type_synonym Criticality = string

abbreviation EnvDevelopment :: Environment where "EnvDevelopment \<equiv> ''development''"
abbreviation EnvStaging :: Environment where "EnvStaging \<equiv> ''staging''"
abbreviation EnvProduction :: Environment where "EnvProduction \<equiv> ''production''"

definition Environments :: "Environment list" where
  "Environments = [EnvDevelopment, EnvStaging, EnvProduction]"

definition Environment_Valid :: "Environment \<Rightarrow> bool" where
  "Environment_Valid e = list_ex (\<lambda>known. e = known) Environments"

abbreviation CriticalityLow :: Criticality where "CriticalityLow \<equiv> ''low''"
abbreviation CriticalityMedium :: Criticality where "CriticalityMedium \<equiv> ''medium''"
abbreviation CriticalityHigh :: Criticality where "CriticalityHigh \<equiv> ''high''"
abbreviation CriticalityCritical :: Criticality where "CriticalityCritical \<equiv> ''critical''"

definition Criticalities :: "Criticality list" where
  "Criticalities = [CriticalityLow, CriticalityMedium, CriticalityHigh, CriticalityCritical]"

definition Criticality_Valid :: "Criticality \<Rightarrow> bool" where
  "Criticality_Valid c = list_ex (\<lambda>known. c = known) Criticalities"

section \<open>NewProject\<close>

abbreviation MaxNameLength :: nat where "MaxNameLength \<equiv> 128"
abbreviation MaxSlugLength :: nat where "MaxSlugLength \<equiv> 64"
abbreviation MaxDescriptionLength :: nat where "MaxDescriptionLength \<equiv> 1024"

record NewProject =
  np_Name :: string
  np_Slug :: string
  np_Description :: string
  np_Environment :: Environment
  np_Criticality :: Criticality
  np_InternetFacing :: bool

datatype project_error =
    NameRequired | NameTooLong | NameControlCharacters | DescriptionTooLong | DescriptionNUL
  | SlugUnderivable | SlugTooLong | SlugMalformed
  | BadEnvironment string | BadCriticality string

definition slug_byte :: "char \<Rightarrow> bool" where
  "slug_byte c = (CHR ''a'' \<le> c \<and> c \<le> CHR ''z'' \<or> CHR ''0'' \<le> c \<and> c \<le> CHR ''9'')"

text \<open>The regular expression \<open>[a-z0-9]+(-[a-z0-9]+)*\<close>, anchored at both ends.\<close>

definition slugPattern :: "string \<Rightarrow> bool" where
  "slugPattern s = list_all (\<lambda>w. w \<noteq> [] \<and> list_all slug_byte w) (Split s (CHR ''-''))"

text \<open>
  The loop of \<open>Slugify\<close>, over bytes: Go ranges over runes, and a rune outside ASCII is a run of
  bytes that are no slug bytes, which collapses to one hyphen either way.
\<close>

fun slug_loop :: "bool \<Rightarrow> string \<Rightarrow> string" where
  "slug_loop lastHyphen [] = []"
| "slug_loop lastHyphen (r # rs) =
     (if slug_byte r then r # slug_loop False rs
      else if \<not> lastHyphen then CHR ''-'' # slug_loop True rs
      else slug_loop True rs)"

definition Slugify :: "golib \<Rightarrow> string \<Rightarrow> string" where
  "Slugify L name =
     (let slug = TrimByte (CHR ''-'') (slug_loop True (ToLower L name)) in
      if length slug > MaxSlugLength then TrimByte (CHR ''-'') (take MaxSlugLength slug) else slug)"

text \<open>
  \<open>Normalize\<close> in two steps: the canonical copy it builds (trimmed text, derived slug, default
  environment and criticality), and its checks in their order. The source interleaves them; a
  default only feeds the checks after it, so the first failing check is the same.
\<close>

definition canonical_project :: "golib \<Rightarrow> NewProject \<Rightarrow> NewProject" where
  "canonical_project L n =
     n\<lparr>np_Name := TrimSpace (np_Name n),
       np_Slug := (if TrimSpace (np_Slug n) = [] then Slugify L (TrimSpace (np_Name n))
                   else TrimSpace (np_Slug n)),
       np_Description := TrimSpace (np_Description n),
       np_Environment := (if np_Environment n = [] then EnvDevelopment else np_Environment n),
       np_Criticality := (if np_Criticality n = [] then CriticalityMedium else np_Criticality n)\<rparr>"

definition check_project :: "NewProject \<Rightarrow> project_error + NewProject" where
  "check_project out =
     (if np_Name out = [] then Inl NameRequired
      else if length (np_Name out) > MaxNameLength then Inl NameTooLong
      else if list_ex (\<lambda>c. c \<in> set [CHR 0x00, CHR 0x0D, CHR 0x0A]) (np_Name out)
        then Inl NameControlCharacters
      else if length (np_Description out) > MaxDescriptionLength then Inl DescriptionTooLong
      else if CHR 0x00 \<in> set (np_Description out) then Inl DescriptionNUL
      else if np_Slug out = [] then Inl SlugUnderivable
      else if length (np_Slug out) > MaxSlugLength then Inl SlugTooLong
      else if \<not> slugPattern (np_Slug out) then Inl SlugMalformed
      else if \<not> Environment_Valid (np_Environment out) then Inl (BadEnvironment (np_Environment out))
      else if \<not> Criticality_Valid (np_Criticality out) then Inl (BadCriticality (np_Criticality out))
      else Inr out)"

definition NewProject_Normalize :: "golib \<Rightarrow> NewProject \<Rightarrow> project_error + NewProject" where
  "NewProject_Normalize L n = check_project (canonical_project L n)"

text \<open>What a stored project satisfies.\<close>

definition project_ok :: "NewProject \<Rightarrow> bool" where
  "project_ok p =
     (np_Name p \<noteq> [] \<and> length (np_Name p) \<le> MaxNameLength \<and>
      set (np_Name p) \<inter> {CHR 0x00, CHR 0x0D, CHR 0x0A} = {} \<and>
      length (np_Description p) \<le> MaxDescriptionLength \<and> CHR 0x00 \<notin> set (np_Description p) \<and>
      slugPattern (np_Slug p) \<and> length (np_Slug p) \<le> MaxSlugLength \<and>
      Environment_Valid (np_Environment p) \<and> Criticality_Valid (np_Criticality p))"

definition no_double_hyphen :: "string \<Rightarrow> bool" where
  "no_double_hyphen s = successively (\<lambda>a b. \<not> (a = CHR ''-'' \<and> b = CHR ''-'')) s"

definition sample_project :: NewProject where
  "sample_project = \<lparr>np_Name = '' My App 2 '', np_Slug = [], np_Description = [],
     np_Environment = [], np_Criticality = CriticalityHigh, np_InternetFacing = True\<rparr>"

section \<open>Slugify produces slugs\<close>

lemma slug_byte_props: "slug_byte c \<Longrightarrow> c \<noteq> CHR ''-'' \<and> CHR 0x20 < c \<and> \<not> digit7 c"
  by (cases c) (auto simp: slug_byte_def)

lemma no_double_hyphen_append:
  "no_double_hyphen (xs @ ys) \<Longrightarrow> no_double_hyphen xs \<and> no_double_hyphen ys"
  by (simp add: no_double_hyphen_def successively_append_iff)

lemma slug_loop_props:
  "no_double_hyphen (slug_loop b s)" (is ?A)
  "set (slug_loop b s) \<subseteq> {c. slug_byte c} \<union> {CHR ''-''}" (is ?B)
proof -
  have "?A \<and> ?B \<and> (b \<longrightarrow> slug_loop b s \<noteq> [] \<longrightarrow> hd (slug_loop b s) \<noteq> CHR ''-'')"
    by (induction b s rule: slug_loop.induct)
      (auto simp: no_double_hyphen_def successively_Cons slug_byte_props)
  then show ?A and ?B by blast+
qed

lemma Trim_split: "t = TrimByte c s \<Longrightarrow> \<exists>a b. s = a @ t @ b"
proof -
  assume t: "t = TrimByte c s"
  obtain b where b: "rev (dropWhile (\<lambda>x. x = c) s) = b @ rev (TrimByte c s)"
    unfolding TrimByte_def by (metis takeWhile_dropWhile_id rev_rev_ident)
  have "dropWhile (\<lambda>x. x = c) s = TrimByte c s @ rev b"
    using arg_cong [OF b, of rev] by simp
  then have "s = takeWhile (\<lambda>x. x = c) s @ t @ rev b"
    using takeWhile_dropWhile_id [of "\<lambda>x. x = c" s] by (simp add: t)
  then show ?thesis by blast
qed

lemma TrimByte_ends:
  assumes "TrimByte c s \<noteq> []"
  shows "hd (TrimByte c s) \<noteq> c" and "last (TrimByte c s) \<noteq> c"
proof -
  have b: "\<exists>b. dropWhile (\<lambda>x. x = c) s = TrimByte c s @ b"
    unfolding TrimByte_def by (metis takeWhile_dropWhile_id rev_append rev_rev_ident)
  have "hd (dropWhile (\<lambda>x. x = c) s) \<noteq> c"
    by (rule hd_dropWhile) (metis b assms append_is_Nil_conv)
  with b assms show "hd (TrimByte c s) \<noteq> c" by (metis hd_append2)
  have "hd (dropWhile (\<lambda>x. x = c) (rev (dropWhile (\<lambda>x. x = c) s))) \<noteq> c"
    by (rule hd_dropWhile) (use assms in \<open>simp add: TrimByte_def\<close>)
  then show "last (TrimByte c s) \<noteq> c"
    using assms unfolding TrimByte_def by (simp add: last_rev)
qed

lemma Split_slug:
  assumes "set s \<subseteq> {c. slug_byte c} \<union> {CHR ''-''}" "no_double_hyphen s"
    and "s \<noteq> [] \<longrightarrow> last s \<noteq> CHR ''-''"
  shows "list_all (list_all slug_byte) (Split s (CHR ''-'')) \<and>
    (\<forall>w \<in> set (tl (Split s (CHR ''-''))). w \<noteq> []) \<and>
    (hd (Split s (CHR ''-'')) = [] \<longleftrightarrow> s = [] \<or> hd s = CHR ''-'')"
  using assms
proof (induction s)
  case (Cons c s)
  have IH: "list_all (list_all slug_byte) (Split s (CHR ''-''))"
    "\<forall>w \<in> set (tl (Split s (CHR ''-''))). w \<noteq> []"
    "hd (Split s (CHR ''-'')) = [] \<longleftrightarrow> s = [] \<or> hd s = CHR ''-''"
    using Cons by (auto simp: no_double_hyphen_def successively_Cons split: if_splits)
  obtain w ws where W: "Split s (CHR ''-'') = w # ws"
    by (cases "Split s (CHR ''-'')") auto
  show ?case
  proof (cases "c = CHR ''-''")
    case True
    then have "s \<noteq> []" "hd s \<noteq> CHR ''-''"
      using Cons.prems by (auto simp: no_double_hyphen_def successively_Cons)
    with True IH W show ?thesis by auto
  next
    case False
    with Cons.prems IH W show ?thesis by auto
  qed
qed simp

lemma slugPatternI:
  assumes "s \<noteq> []" "hd s \<noteq> CHR ''-''" "last s \<noteq> CHR ''-''" "no_double_hyphen s"
    and "set s \<subseteq> {c. slug_byte c} \<union> {CHR ''-''}"
  shows "slugPattern s"
proof -
  obtain w ws where "Split s (CHR ''-'') = w # ws" by (cases "Split s (CHR ''-'')") auto
  with Split_slug [of s] assms show ?thesis by (auto simp: slugPattern_def list_all_iff)
qed

lemma slugPattern_graphic: "slugPattern s \<Longrightarrow> c \<in> set s \<Longrightarrow> CHR 0x20 < c \<and> \<not> digit7 c"
  using set_via_Split [of c s "CHR ''-''"]
  by (auto simp: slugPattern_def list_all_iff dest: slug_byte_props)

lemma Slugify_slug:
  "Slugify L name = [] \<or> slugPattern (Slugify L name) \<and> length (Slugify L name) \<le> MaxSlugLength"
proof -
  define raw where "raw = slug_loop True (ToLower L name)"
  have piece: "slugPattern t" if "t = TrimByte (CHR ''-'') u" "t \<noteq> []" "raw = a @ u @ b" for t u a b
  proof -
    have "\<exists>x y. u = x @ t @ y" using that(1) by (rule Trim_split)
    then obtain x y where u: "u = x @ t @ y" by blast
    have "no_double_hyphen t" "set t \<subseteq> {c. slug_byte c} \<union> {CHR ''-''}"
      using slug_loop_props [of True "ToLower L name"] that(3) u
      by (auto simp: raw_def [symmetric] dest!: no_double_hyphen_append)
    with that TrimByte_ends [of "CHR ''-''" u] show ?thesis by (intro slugPatternI) auto
  qed
  define s where "s = TrimByte (CHR ''-'') raw"
  obtain a b where s: "raw = a @ s @ b" using Trim_split [OF s_def] by blast
  have take: "raw = a @ take MaxSlugLength s @ (drop MaxSlugLength s @ b)" using s by simp
  have len: "length (TrimByte (CHR ''-'') (take MaxSlugLength s)) \<le> MaxSlugLength"
  proof -
    obtain x y where "take MaxSlugLength s = x @ TrimByte (CHR ''-'') (take MaxSlugLength s) @ y"
      using Trim_split [OF refl] by blast
    then have "length (TrimByte (CHR ''-'') (take MaxSlugLength s)) \<le> length (take MaxSlugLength s)"
      by (metis le_add1 le_add2 le_trans length_append)
    then show ?thesis by simp
  qed
  have "Slugify L name = (if length s > MaxSlugLength
      then TrimByte (CHR ''-'') (take MaxSlugLength s) else s)"
    by (simp add: Slugify_def s_def raw_def Let_def)
  then show ?thesis
    using piece [OF refl _ take] len piece [OF s_def, of "[]" "[]"] by auto
qed

text \<open>
  For every name, \<open>Slugify\<close> returns the empty string, which the caller rejects, or a slug of
  at most 64 bytes that the slug pattern accepts.
\<close>

theorem Slugify_is_slug:
  "Slugify L name = [] \<or> slugPattern (Slugify L name) \<and> length (Slugify L name) \<le> MaxSlugLength"
  by (rule Slugify_slug)

section \<open>Normalize\<close>

lemma slugPattern_nonempty: "slugPattern s \<Longrightarrow> s \<noteq> []"
  by (auto simp: slugPattern_def)

lemma check_project_iff: "check_project p = Inr q \<longleftrightarrow> project_ok p \<and> q = p"
  by (auto simp: check_project_def project_ok_def list_ex_iff dest: slugPattern_nonempty)

lemma canonical_project_fixpoint:
  assumes "project_ok (canonical_project L n)"
  shows "canonical_project L (canonical_project L n) = canonical_project L n"
proof -
  let ?m = "canonical_project L n"
  have slug: "slugPattern (np_Slug ?m)" using assms by (simp add: project_ok_def)
  then have "TrimSpace (np_Slug ?m) = np_Slug ?m"
    by (intro TrimSpace_graphic) (rule slugPattern_graphic)
  moreover have "np_Slug ?m \<noteq> []" using slug by (rule slugPattern_nonempty)
  moreover have "np_Environment ?m \<noteq> []" "np_Criticality ?m \<noteq> []"
    by (simp_all add: canonical_project_def)
  moreover have "TrimSpace (np_Name ?m) = np_Name ?m" "TrimSpace (np_Description ?m) = np_Description ?m"
    by (simp_all add: canonical_project_def)
  ultimately show ?thesis by (simp add: canonical_project_def [of L ?m])
qed

text \<open>
  What \<open>Normalize\<close> accepts is within every bound the schema enforces (name and description
  length, no control characters, slug format, known environment and criticality), and is already
  canonical: normalising it again returns it unchanged.
\<close>

theorem Normalize_accepts_canonical:
  assumes "NewProject_Normalize L n = Inr m"
  shows "project_ok m \<and> NewProject_Normalize L m = Inr m"
  using assms canonical_project_fixpoint [of L n]
  by (auto simp: NewProject_Normalize_def check_project_iff)

theorem Normalize_accepts_canonical_witness:
  "NewProject_Normalize sample_lib sample_project =
     Inr (sample_project\<lparr>np_Name := ''My App 2'', np_Slug := ''my-app-2'',
       np_Environment := EnvDevelopment\<rparr>) \<and>
   project_ok (sample_project\<lparr>np_Name := ''My App 2'', np_Slug := ''my-app-2'',
       np_Environment := EnvDevelopment\<rparr>)"
proof -
  have n: "NewProject_Normalize sample_lib sample_project =
      Inr (sample_project\<lparr>np_Name := ''My App 2'', np_Slug := ''my-app-2'',
        np_Environment := EnvDevelopment\<rparr>)"
    by code_simp
  show ?thesis using n Normalize_accepts_canonical [OF n] by blast
qed

end
