(* ===== verification/Float_Sums.thy ===== *)
theory Float_Sums
  imports Float64 "HOL-Library.Sublist"
begin

text \<open>
  Rounded sums of non-negative risks, and the aggregate that is computed from one: how far a sum
  can be from the exact one, and that a further risk never lowers the aggregate. Everything here is
  over finite numbers; \<open>Risk\<close> brings the code's values into this form.
\<close>

section \<open>Finite results come from finite operands\<close>

lemma Fin_float_of: "float_of x = Fin z \<longleftrightarrow> z = rnd64 x \<and> \<bar>rnd64 x\<bar> < overflow_limit"
  by (auto simp: float_of_def)

lemma float_of_small: "\<bar>rnd64 x\<bar> < overflow_limit \<Longrightarrow> float_of x = Fin (rnd64 x)"
  by (simp add: Fin_float_of)

lemma fadd_Fin:
  "fadd a b = Fin z \<longleftrightarrow> (\<exists>x y. a = Fin x \<and> b = Fin y \<and> z = rnd64 (x + y) \<and> \<bar>z\<bar> < overflow_limit)"
  by (cases a; cases b) (auto simp: Fin_float_of)

lemma fsub_Fin:
  "fsub a b = Fin z \<longleftrightarrow> (\<exists>x y. a = Fin x \<and> b = Fin y \<and> z = rnd64 (x - y) \<and> \<bar>z\<bar> < overflow_limit)"
  by (cases b) (auto simp: fsub_def fadd_Fin)

lemma fmul_Fin:
  "fmul a b = Fin z \<longleftrightarrow> (\<exists>x y. a = Fin x \<and> b = Fin y \<and> z = rnd64 (x * y) \<and> \<bar>z\<bar> < overflow_limit)"
  by (cases a; cases b) (auto simp: Fin_float_of)

lemma fless_Fin [simp]: "fless a (Fin y) \<longleftrightarrow> a = NegInf \<or> (\<exists>x. a = Fin x \<and> x < y)"
  by (cases a) auto

lemma fle_Fin [simp]: "fle (Fin x) (Fin y) \<longleftrightarrow> x \<le> y"
  by (auto simp: fle_def)

lemma fle_float_of: "x \<le> y \<Longrightarrow> fle (float_of x) (float_of y)"
  using rnd64_mono [of x y] by (auto simp: float_of_def fle_def)

section \<open>Rounded sums\<close>

definition rsum_from :: "real \<Rightarrow> real list \<Rightarrow> real" where
  "rsum_from = foldl (\<lambda>s v. rnd64 (s + v))"

abbreviation rsum :: "real list \<Rightarrow> real" where "rsum \<equiv> rsum_from 0"

lemma rsum_from_simps [simp]:
  "rsum_from s [] = s" "rsum_from s (v # vs) = rsum_from (rnd64 (s + v)) vs"
  "rsum_from s (us @ vs) = rsum_from (rsum_from s us) vs"
  by (simp_all add: rsum_from_def)

definition risks_ok :: "real list \<Rightarrow> bool" where
  "risks_ok vs \<longleftrightarrow> (\<forall>v \<in> set vs. 0 \<le> v \<and> representable v)"

lemma risks_ok_simps [simp]:
  "risks_ok []" "risks_ok (v # vs) \<longleftrightarrow> 0 \<le> v \<and> representable v \<and> risks_ok vs"
  "risks_ok (us @ vs) \<longleftrightarrow> risks_ok us \<and> risks_ok vs"
  by (auto simp: risks_ok_def)

lemma rnd64_add_ge:
  assumes "representable s" "0 \<le> v" shows "s \<le> rnd64 (s + v)"
  using assms by (intro rnd64_ge) auto

lemma rsum_from_representable: "representable s \<Longrightarrow> representable (rsum_from s vs)"
  by (induction vs arbitrary: s) auto

lemma rsum_from_ge: "representable s \<Longrightarrow> risks_ok vs \<Longrightarrow> s \<le> rsum_from s vs"
proof (induction vs arbitrary: s)
  case (Cons v vs)
  then have "s \<le> rnd64 (s + v)" by (intro rnd64_add_ge) auto
  moreover have "rnd64 (s + v) \<le> rsum_from (rnd64 (s + v)) vs" using Cons by simp
  ultimately show ?case by simp
qed simp

lemma rsum_from_mono: "s \<le> s' \<Longrightarrow> rsum_from s vs \<le> rsum_from s' vs"
proof (induction vs arbitrary: s s')
  case (Cons v vs)
  then have "rnd64 (s + v) \<le> rnd64 (s' + v)" by (intro rnd64_mono) simp
  then show ?case using Cons.IH by simp
qed simp

lemma rsum_nonneg: "risks_ok vs \<Longrightarrow> 0 \<le> rsum vs"
  using rsum_from_ge [of 0] by simp

lemma rsum_from_member:
  "representable s \<Longrightarrow> 0 \<le> s \<Longrightarrow> risks_ok vs \<Longrightarrow> v \<in> set vs \<Longrightarrow> v \<le> rsum_from s vs"
proof (induction vs arbitrary: s)
  case (Cons w vs)
  have s: "0 \<le> rnd64 (s + w)" using Cons.prems by (intro rnd64_nonneg) auto
  show ?case
  proof (cases "v = w")
    case True
    have "w \<le> rnd64 (s + w)" using Cons.prems by (intro rnd64_ge) auto
    also have "\<dots> \<le> rsum_from (rnd64 (s + w)) vs" using Cons.prems by (intro rsum_from_ge) auto
    finally show ?thesis using True by simp
  qed (use Cons s in auto)
qed simp

lemma rsum_insert_le:
  assumes "risks_ok us" "0 \<le> v"
  shows "rsum (us @ ws) \<le> rsum (us @ v # ws)"
  using assms rnd64_add_ge [OF rsum_from_representable [of 0 us]] by (simp add: rsum_from_mono)

lemma rnd64_add_bounds:
  assumes "representable s" "representable v" "0 \<le> s" "0 \<le> v"
  shows "(s + v) * (1 - unit_roundoff) \<le> rnd64 (s + v)"
    and "rnd64 (s + v) \<le> (s + v) * (1 + unit_roundoff)"
proof -
  define u :: real where "u = unit_roundoff"
  have "\<bar>rnd64 (s + v) - (s + v)\<bar> \<le> u * (s + v)"
    using rnd64_sum_error [OF assms(1,2)] assms(3,4) by (simp add: u_def)
  then have "(s + v) * (1 - u) \<le> rnd64 (s + v)" "rnd64 (s + v) \<le> (s + v) * (1 + u)"
    by (simp_all add: algebra_simps abs_le_iff)
  then show "(s + v) * (1 - unit_roundoff) \<le> rnd64 (s + v)" "rnd64 (s + v) \<le> (s + v) * (1 + unit_roundoff)"
    by (simp_all add: u_def)
qed

lemma rsum_from_error:
  assumes "representable s" "0 \<le> s" "risks_ok vs" "length vs \<le> 2 ^ 50"
  shows "\<bar>rsum_from s vs - (s + sum_list vs)\<bar> \<le> 2 * unit_roundoff * length vs * (s + sum_list vs)"
  using assms
proof (induction vs rule: rev_induct)
  case (snoc v vs)
  define X where "X = s + sum_list vs"
  define S where "S = rsum_from s vs"
  define n :: real where "n = length vs"
  define u :: real where "u = unit_roundoff"
  have u: "0 < u" by (simp add: u_def unit_roundoff_def)
  have v: "0 \<le> v" "representable v" and ok: "risks_ok vs" using snoc.prems(3) by auto
  have X: "0 \<le> X" using ok snoc.prems(2) by (auto simp: X_def risks_ok_def intro!: add_nonneg_nonneg sum_list_nonneg)
  have S: "0 \<le> S" "representable S"
    using rsum_from_ge [of s vs] rsum_from_representable [of s vs] snoc.prems ok by (auto simp: S_def)
  have n: "0 \<le> n" "2 * u * n \<le> 1 / 4"
    using snoc.prems(4) by (simp_all add: n_def u_def unit_roundoff_def)
  have IH: "\<bar>S - X\<bar> \<le> 2 * u * n * X"
    using snoc.IH snoc.prems ok by (simp add: S_def X_def n_def u_def)
  have e: "\<bar>rnd64 (S + v) - (S + v)\<bar> \<le> u * (S + v)"
    using rnd64_sum_error [OF S(2) v(2)] S(1) v(1) by (simp add: u_def)
  have "2 * u * n * X \<le> 1 / 4 * X" using n(2) X by (rule mult_right_mono)
  then have "S + v \<le> 5 / 4 * X + v" using IH by linarith
  then have "u * (S + v) \<le> u * (5 / 4 * X + v)" using u by (intro mult_left_mono) auto
  then have "\<bar>rnd64 (S + v) - (X + v)\<bar> \<le> 2 * u * n * X + u * (5 / 4 * X + v)" using e IH by linarith
  also have "\<dots> \<le> 2 * u * (n + 1) * (X + v)"
  proof -
    have "0 \<le> u * X" "0 \<le> u * v" "0 \<le> u * n * v" using u X v n by simp_all
    then show ?thesis by (simp add: algebra_simps)
  qed
  finally show ?case by (simp add: X_def S_def n_def u_def add.assoc) (simp add: add.commute)
qed simp

lemma rsum_error:
  assumes "risks_ok vs" "length vs \<le> 2 ^ 50"
  shows "\<bar>rsum vs - sum_list vs\<bar> \<le> 2 * unit_roundoff * length vs * sum_list vs"
  using rsum_from_error [OF _ _ assms, of 0] by simp

text \<open>How much of a head start survives the additions that follow.\<close>

lemma rsum_from_gap:
  assumes "representable s" "representable s'" "0 \<le> s" "s \<le> s'" "risks_ok vs"
  shows "s' - s - 3 * unit_roundoff * length vs * rsum_from s' vs \<le> rsum_from s' vs - rsum_from s vs"
  using assms
proof (induction vs arbitrary: s s')
  case (Cons v vs)
  define a b where "a = rnd64 (s' + v)" and "b = rnd64 (s + v)"
  define T where "T = rsum_from s' (v # vs)"
  define u :: real where "u = unit_roundoff"
  have u: "0 < u" "u \<le> 1 / 8" by (simp_all add: u_def unit_roundoff_def)
  have ab: "b \<le> a" "0 \<le> b" "representable a" "representable b"
    using Cons.prems by (auto simp: a_def b_def intro: rnd64_mono rnd64_nonneg)
  have aT: "a \<le> T" using Cons.prems rsum_from_ge [of a vs] ab by (simp add: T_def a_def)
  define P where "P = u * (s' + v)"
  have sv: "s' + v - P \<le> a" "b \<le> s + v + u * (s + v)"
    using rnd64_add_bounds(1) [of s' v] rnd64_add_bounds(2) [of s v] Cons.prems
    by (auto simp: a_def b_def u_def P_def algebra_simps)
  have "u * (s + v) \<le> P" unfolding P_def using u Cons.prems by (intro mult_left_mono) auto
  moreover have "P \<le> 1 / 8 * (s' + v)" unfolding P_def using u Cons.prems by (intro mult_right_mono) auto
  with sv(1) aT have "s' + v \<le> 8 / 7 * T" by (simp add: field_simps)
  then have "P \<le> u * (8 / 7 * T)" unfolding P_def using u by (intro mult_left_mono) auto
  moreover have "0 \<le> u * T" using u aT ab by simp
  ultimately have step: "s' - s - 3 * u * T \<le> a - b" using sv by simp
  have "a - b - 3 * u * length vs * T \<le> T - rsum_from b vs"
    using Cons.IH [of b a] ab Cons.prems by (simp add: T_def u_def a_def)
  with step have "s' - s - 3 * u * (length vs + 1) * T \<le> T - rsum_from b vs"
    by (simp add: algebra_simps)
  then show ?case by (simp add: T_def b_def u_def algebra_simps)
qed simp

section \<open>The rounded aggregate\<close>

definition rtotal :: "real \<Rightarrow> real list \<Rightarrow> real" where
  "rtotal lam vs = (if vs = [] then 0 else
     rnd64 (Max (set vs) + rnd64 (lam * rnd64 (rsum vs - Max (set vs)))))"

lemma risks_ok_Max:
  assumes "risks_ok vs" "vs \<noteq> []"
  shows "0 \<le> Max (set vs)" "representable (Max (set vs))" "Max (set vs) \<le> rsum vs"
proof -
  have m: "Max (set vs) \<in> set vs" using assms(2) by simp
  show "0 \<le> Max (set vs)" "representable (Max (set vs))" using assms(1) m by (auto simp: risks_ok_def)
  show "Max (set vs) \<le> rsum vs" using assms(1) m by (intro rsum_from_member) auto
qed

lemma rtotal_ge_Max:
  assumes "0 \<le> lam" "risks_ok vs" "vs \<noteq> []"
  shows "Max (set vs) \<le> rtotal lam vs"
proof -
  have "0 \<le> rnd64 (rsum vs - Max (set vs))" using risks_ok_Max [OF assms(2,3)] by (intro rnd64_nonneg) auto
  then have "0 \<le> rnd64 (lam * rnd64 (rsum vs - Max (set vs)))" using assms(1) by (intro rnd64_nonneg) auto
  then show ?thesis using risks_ok_Max [OF assms(2,3)] assms(3) by (simp add: rtotal_def rnd64_add_ge)
qed

lemma rtotal_nonneg: "0 \<le> lam \<Longrightarrow> risks_ok vs \<Longrightarrow> 0 \<le> rtotal lam vs"
  using order_trans [OF risks_ok_Max(1) rtotal_ge_Max] by (cases "vs = []") (auto simp: rtotal_def)

lemma rtotal_le_sum:
  assumes "0 \<le> lam" "lam \<le> 1" "risks_ok vs" "vs \<noteq> []"
  shows "rtotal lam vs \<le> rnd64 (Max (set vs) + rsum vs)"
proof -
  note M = risks_ok_Max [OF assms(3,4)]
  define D where "D = rnd64 (rsum vs - Max (set vs))"
  have D: "0 \<le> D" "D \<le> rsum vs"
    using M rsum_from_representable [of 0 vs] by (auto simp: D_def intro: rnd64_nonneg rnd64_le)
  have "lam * D \<le> D" using assms(1,2) D by (simp add: mult_left_le_one_le)
  then have "rnd64 (lam * D) \<le> D" by (intro rnd64_le) (auto simp: D_def)
  then show ?thesis using assms(4) D by (auto simp: rtotal_def D_def intro: rnd64_mono)
qed

text \<open>
  A further risk never lowers the rounded aggregate of up to \<open>2 ^ 24\<close> risks. Below the worst risk
  this is monotonicity of every operation. A new worst risk \<open>v\<close> takes the place of the old one: either
  the sum still grows by more than the worst risk does, or the rounding errors of the sum exceed the
  old worst risk, and then everything that was there before is smaller than \<open>v\<close>.
\<close>

lemma rtotal_insert:
  assumes lam: "0 \<le> lam" "lam \<le> 1" and ok: "risks_ok (us @ v # ws)" and len: "length (us @ v # ws) \<le> 2 ^ 24"
  shows "rtotal lam (us @ ws) \<le> rtotal lam (us @ v # ws)"
proof (cases "us @ ws = []")
  case True
  then show ?thesis using rtotal_nonneg [OF lam(1) ok] by (simp add: rtotal_def)
next
  case ne: False
  define M where "M = Max (set (us @ ws))"
  define S S' where "S = rsum (us @ ws)" and "S' = rsum (us @ v # ws)"
  have ok': "risks_ok (us @ ws)" and v: "0 \<le> v" "representable v" using ok by auto
  note M = risks_ok_Max [OF ok' ne, folded M_def S_def]
  have SS: "S \<le> S'" using rsum_insert_le [of us v ws] ok by (simp add: S_def S'_def)
  have vS: "v \<le> S'" unfolding S'_def using ok by (intro rsum_from_member) auto
  have M': "Max (set (us @ v # ws)) = max v M"
    using ne by (simp add: M_def Max_insert [symmetric] del: Max_insert)
  have old: "rtotal lam (us @ ws) = rnd64 (M + rnd64 (lam * rnd64 (S - M)))"
    using ne by (auto simp: rtotal_def M_def S_def)
  have new: "rtotal lam (us @ v # ws) = rnd64 (max v M + rnd64 (lam * rnd64 (S' - max v M)))"
    using M' by (simp add: rtotal_def S'_def)
  show ?thesis
  proof (cases "v - M \<le> S' - S \<or> v \<le> M")
    case True
    then have "S - M \<le> S' - max v M" using SS by (auto simp: max_def)
    then have "rnd64 (lam * rnd64 (S - M)) \<le> rnd64 (lam * rnd64 (S' - max v M))"
      using lam(1) by (intro rnd64_mono mult_left_mono) auto
    then show ?thesis unfolding old new by (intro rnd64_mono) auto
  next
    case False
    define n :: real where "n = length (us @ ws)"
    define u :: real where "u = unit_roundoff"
    have "1 \<le> length (us @ ws)" using ne by (cases "us @ ws") auto
    then have n: "1 \<le> n" "n + 1 \<le> 2 ^ 24" using len by (simp_all add: n_def del: length_append) simp
    have u: "0 < u" "u * 2 ^ 53 = 1" by (simp_all add: u_def unit_roundoff_def)
    define s where "s = rsum us"
    have s: "0 \<le> s" "representable s" using ok by (auto simp: s_def rsum_nonneg rsum_from_representable)
    have gap0: "v - 2 * u * S' \<le> rnd64 (s + v) - s"
    proof -
      have b: "(s + v) * (1 - u) \<le> rnd64 (s + v)" using rnd64_add_bounds [OF s(2) v(2) s(1) v(1)] by (simp add: u_def)
      have "rnd64 (s + v) \<le> S'" using ok rsum_from_ge [of "rnd64 (s + v)" ws] by (simp add: S'_def s_def)
      with b have "(s + v) * (1 - u) \<le> S'" by linarith
      moreover have "(s + v) * (1 / 2) \<le> (s + v) * (1 - u)" using s v by (intro mult_left_mono) (auto simp: u_def unit_roundoff_def)
      ultimately have "(s + v) * (1 / 2) \<le> S'" by (rule order_trans [rotated])
      then have "s + v \<le> 2 * S'" by simp
      then have "u * (s + v) \<le> u * (2 * S')" using u(1) by (intro mult_left_mono) auto
      with b show ?thesis by (simp add: algebra_simps)
    qed
    have gap: "rnd64 (s + v) - s - 3 * u * length ws * S' \<le> S' - S"
      using rsum_from_gap [of s "rnd64 (s + v)" ws] s v ok rnd64_add_ge [OF s(2) v(1)]
      by (simp add: S'_def S_def s_def u_def)
    have "0 \<le> S'" using v vS by linarith
    have "v - 3 * u * (n + 1) * S' \<le> S' - S"
    proof -
      have "3 * u * length ws * S' \<le> 3 * u * n * S'"
        using u \<open>0 \<le> S'\<close> by (intro mult_right_mono mult_left_mono) (auto simp: n_def)
      moreover have "2 * u * S' \<le> 3 * u * S'" using u \<open>0 \<le> S'\<close> by (intro mult_right_mono) auto
      ultimately show ?thesis using gap gap0 by (simp add: algebra_simps)
    qed
    with False have Mlt: "M < 3 * u * (n + 1) * S'" by linarith
    have Sn: "sum_list (us @ ws) \<le> n * M"
    proof -
      have "sum_list xs \<le> length xs * M" if "\<And>x. x \<in> set xs \<Longrightarrow> x \<le> M" for xs
        using that by (induction xs) (auto simp: algebra_simps intro: add_mono)
      moreover have "x \<le> M" if "x \<in> set (us @ ws)" for x unfolding M_def using that by (rule Max_ge [OF finite_set])
      ultimately show ?thesis unfolding n_def by blast
    qed
    have two: "rsum xs \<le> 2 * sum_list xs" if "risks_ok xs" "length xs \<le> 2 ^ 24" for xs
    proof -
      have nn: "0 \<le> sum_list xs" using that by (auto simp: risks_ok_def intro: sum_list_nonneg)
      have "2 * unit_roundoff * length xs * sum_list xs \<le> 1 * sum_list xs"
        using that(2) nn by (intro mult_right_mono) (auto simp: unit_roundoff_def)
      moreover have "length xs \<le> 2 ^ 50" using that(2) by simp
      ultimately show ?thesis using rsum_error [OF that(1)] by linarith
    qed
    have S2: "S \<le> 2 * (n * M)" using two [OF ok'] len Sn by (simp add: S_def)
    have "S' \<le> 2 * (sum_list (us @ ws) + v)" using two [OF ok] len by (simp add: S'_def)
    also have "2 * (sum_list (us @ ws) + v) \<le> 2 * (n * M + v)" using Sn by (intro mult_left_mono add_mono) auto
    finally have S'2: "S' \<le> 2 * (n * M + v)" .
    have "3 * u * (n + 1) * S' \<le> 3 * u * (n + 1) * (2 * (n * M + v))"
      using S'2 u n by (intro mult_left_mono) auto
    define P Q where "P = u * (n + 1) * n * M" and "Q = u * (n + 1) * v"
    have "3 * u * (n + 1) * (2 * (n * M + v)) = 6 * P + 6 * Q" by (simp add: P_def Q_def algebra_simps)
    with Mlt \<open>3 * u * (n + 1) * S' \<le> _\<close> have M1: "M < 6 * P + 6 * Q" by linarith
    have un: "u * (n + 1) \<le> 1 / 2 ^ 29" using n(2) u by (simp add: u_def unit_roundoff_def field_simps)
    have "P \<le> 1 / 2 ^ 29 * 2 ^ 24 * M"
      unfolding P_def using un n M(1) u by (intro mult_right_mono mult_mono) auto
    then have "32 * P \<le> M" by simp
    moreover have "0 \<le> Q" using u n v by (simp add: Q_def)
    ultimately have "M < 12 * Q" using M1 by linarith
    then have "M < 12 * (u * (n + 1)) * v" by (simp add: Q_def)
    then have "(2 * n + 1) * M \<le> (2 * n + 1) * (12 * (u * (n + 1)) * v)" using n by (intro mult_left_mono) auto
    also have "\<dots> \<le> (2 * 2 ^ 24) * (12 * (1 / 2 ^ 29) * v)"
      using n un v u by (intro mult_mono mult_left_mono mult_right_mono) auto
    also have "\<dots> \<le> v" using v by simp
    finally have "M + S \<le> v" using S2 by (simp add: algebra_simps)
    then have "rtotal lam (us @ ws) \<le> v"
      using rtotal_le_sum [OF lam ok' ne] rnd64_le [OF v(2), of "M + S"] by (simp add: M_def S_def)
    also have "v \<le> max v M" by simp
    also have "max v M \<le> rtotal lam (us @ v # ws)"
      unfolding M' [symmetric] by (rule rtotal_ge_Max [OF lam(1) ok]) simp
    finally show ?thesis .
  qed
qed

text \<open>A list function that no insertion lowers is monotone in the sublist order.\<close>

lemma subseq_mono:
  fixes f :: "'a list \<Rightarrow> 'b :: preorder"
  assumes "subseq us vs" and step: "\<And>us v ws. subseq (us @ v # ws) vs \<Longrightarrow> f (us @ ws) \<le> f (us @ v # ws)"
  shows "f us \<le> f vs"
proof -
  have "f (ps @ us) \<le> f (ps @ xs)" if "subseq us xs" "subseq (ps @ xs) vs" for ps xs
    using that
  proof (induction arbitrary: ps)
    case (list_emb_Nil ys)
    then show ?case
    proof (induction ys arbitrary: ps)
      case (Cons y ys)
      have "subseq (ps @ ys) vs"
        by (rule subseq_order.trans [OF _ Cons.prems]) (auto simp: subseq_append')
      then have "f ps \<le> f (ps @ ys)" using Cons.IH by simp
      also have "\<dots> \<le> f (ps @ y # ys)" by (rule step [OF Cons.prems])
      finally show ?case by simp
    qed simp
  next
    case (list_emb_Cons xs ys y)
    have "subseq (ps @ ys) vs" by (rule subseq_order.trans [OF _ list_emb_Cons.prems]) (auto simp: subseq_append')
    then have "f (ps @ xs) \<le> f (ps @ ys)" by (rule list_emb_Cons.IH)
    also have "\<dots> \<le> f (ps @ y # ys)" by (rule step [OF list_emb_Cons.prems])
    finally show ?case .
  next
    case (list_emb_Cons2 x y xs ys)
    then show ?case using list_emb_Cons2.IH [of "ps @ [x]"] by auto
  qed
  from this [OF assms(1), of "[]"] show ?thesis by simp
qed

lemma risks_ok_subseq: "subseq us vs \<Longrightarrow> risks_ok vs \<Longrightarrow> risks_ok us"
  using list_emb_set by (fastforce simp: risks_ok_def)

lemma rsum_subseq:
  assumes "subseq us vs" "risks_ok vs"
  shows "rsum us \<le> rsum vs"
  using assms(1)
proof (rule subseq_mono)
  fix us v ws assume "subseq (us @ v # ws) vs"
  then have "risks_ok (us @ v # ws)" by (rule risks_ok_subseq [OF _ assms(2)])
  then show "rsum (us @ ws) \<le> rsum (us @ v # ws)" by (intro rsum_insert_le) auto
qed

lemma rtotal_subseq:
  assumes "subseq us vs" "0 \<le> lam" "lam \<le> 1" "risks_ok vs" "length vs \<le> 2 ^ 24"
  shows "rtotal lam us \<le> rtotal lam vs"
  using assms(1)
proof (rule subseq_mono)
  fix us v ws assume s: "subseq (us @ v # ws) vs"
  have "length (us @ v # ws) \<le> 2 ^ 24" using list_emb_length [OF s] assms(5) by linarith
  then show "rtotal lam (us @ ws) \<le> rtotal lam (us @ v # ws)"
    using rtotal_insert [OF assms(2,3) risks_ok_subseq [OF s assms(4)]] by blast
qed

text \<open>The distance from the exact max-dominant aggregate.\<close>

lemma rtotal_error:
  assumes lam: "0 \<le> lam" "lam \<le> 1" and ok: "risks_ok vs" and ne: "vs \<noteq> []" and len: "length vs \<le> 2 ^ 24"
  shows "\<bar>rtotal lam vs - (Max (set vs) + lam * (sum_list vs - Max (set vs)))\<bar>
    \<le> (2 * length vs + 7) * unit_roundoff * sum_list vs + 2 * half_subnormal"
proof -
  define M X S where "M = Max (set vs)" and "X = sum_list vs" and "S = rsum vs"
  define u h :: real where "u = unit_roundoff" and "h = half_subnormal"
  define n :: real where "n = length vs"
  have u: "0 < u" "u \<le> 1 / 2 ^ 53" and h: "0 < h" by (simp_all add: u_def h_def unit_roundoff_def half_subnormal_def)
  have n: "0 \<le> n" "u * n \<le> 1 / 2 ^ 29"
    using len u by (auto simp: n_def u_def unit_roundoff_def)
  note M = risks_ok_Max [OF ok ne, folded M_def S_def]
  have MX: "M \<le> X" using ne ok unfolding M_def X_def
    by (intro member_le_sum_list) (auto simp: risks_ok_def)
  have X: "0 \<le> X" using M MX by linarith
  have S: "\<bar>S - X\<bar> \<le> 2 * u * n * X" using rsum_error [OF ok] len by (simp add: S_def X_def u_def n_def)
  have "u * n * X \<le> 1 / 2 ^ 29 * X" using n(2) X by (rule mult_right_mono)
  then have S2: "S \<le> 5 / 4 * X" using S X by simp
  define D where "D = rnd64 (S - M)"
  have repS: "representable S" unfolding S_def by (rule rsum_from_representable) simp
  have d1: "\<bar>D - (S - M)\<bar> \<le> u * (S - M)"
    using rnd64_diff_error [OF repS M(2)] M by (simp add: D_def u_def)
  have "u * (S - M) \<le> u * (5 / 4 * X)" using u S2 M by (intro mult_left_mono) auto
  then have d1': "\<bar>D - (S - M)\<bar> \<le> 5 / 4 * (u * X)" using d1 by simp
  have D: "0 \<le> D" "D \<le> S" using M repS by (auto simp: D_def intro: rnd64_nonneg rnd64_le)
  define W where "W = rnd64 (lam * D)"
  have lD: "0 \<le> lam * D" "lam * D \<le> D" using lam D by (auto simp: mult_left_le_one_le)
  have W: "0 \<le> W" "W \<le> D" using lD by (auto simp: W_def D_def intro: rnd64_nonneg rnd64_le)
  have d2: "\<bar>W - lam * D\<bar> \<le> u * (lam * D) + h" using rnd64_error [of "lam * D"] lD by (simp add: W_def u_def h_def)
  have "u * (lam * D) \<le> u * (5 / 4 * X)" using u lD D S2 by (intro mult_left_mono) auto
  then have d2': "\<bar>W - lam * D\<bar> \<le> 5 / 4 * (u * X) + h" using d2 by simp
  have d3: "\<bar>rnd64 (M + W) - (M + W)\<bar> \<le> u * (M + W)"
    using rnd64_sum_error [OF M(2), of W] M W by (simp add: W_def u_def)
  have "u * (M + W) \<le> u * (9 / 4 * X)" using u MX W D S2 by (intro mult_left_mono) auto
  then have d3': "\<bar>rnd64 (M + W) - (M + W)\<bar> \<le> 9 / 4 * (u * X)" using d3 by simp
  have "\<bar>lam * D - lam * (X - M)\<bar> \<le> \<bar>D - (X - M)\<bar>"
    using lam by (simp add: right_diff_distrib [symmetric] abs_mult mult_left_le_one_le)
  also have "\<dots> \<le> 5 / 4 * (u * X) + 2 * u * n * X" using d1' S by linarith
  finally have d4: "\<bar>lam * D - lam * (X - M)\<bar> \<le> 5 / 4 * (u * X) + 2 * u * n * X" .
  have "\<bar>rnd64 (M + W) - (M + lam * (X - M))\<bar> \<le> 6 * (u * X) + 2 * u * n * X + h"
    using d2' d3' d4 by linarith
  moreover have "6 * (u * X) + 2 * u * n * X + h \<le> (2 * n + 7) * u * X + 2 * h"
    using h u X by (simp add: algebra_simps)
  ultimately have "\<bar>rnd64 (M + W) - (M + lam * (X - M))\<bar> \<le> (2 * n + 7) * u * X + 2 * h" by linarith
  then show ?thesis using ne
    by (simp add: rtotal_def M_def X_def S_def W_def D_def u_def h_def n_def)
qed

section \<open>Sums of float64 values\<close>

lemma fsum_Fin:
  assumes "foldl fadd (Fin s) fs = Fin t"
  obtains vs where "fs = map Fin vs" "t = rsum_from s vs" "fs \<noteq> [] \<longrightarrow> t < overflow_limit"
proof -
  have "\<exists>vs. fs = map Fin vs \<and> t = rsum_from s vs \<and> (fs \<noteq> [] \<longrightarrow> t < overflow_limit)"
    using assms
  proof (induction fs arbitrary: t rule: rev_induct)
    case (snoc f fs)
    then obtain x y where xy: "foldl fadd (Fin s) fs = Fin x" "f = Fin y" "t = rnd64 (x + y)" "\<bar>t\<bar> < overflow_limit"
      by (auto simp: fadd_Fin)
    from snoc.IH [OF xy(1)] obtain vs where "fs = map Fin vs" "x = rsum_from s vs" by blast
    with xy show ?case by (intro exI [of _ "vs @ [y]"]) auto
  qed simp
  with that show thesis by blast
qed

lemma fsum_finite:
  assumes "risks_ok vs" "representable s" "0 \<le> s" "rsum_from s vs < overflow_limit"
  shows "foldl fadd (Fin s) (map Fin vs) = Fin (rsum_from s vs)"
  using assms
proof (induction vs arbitrary: s)
  case (Cons v vs)
  have r: "0 \<le> rnd64 (s + v)" using Cons.prems by (intro rnd64_nonneg) auto
  have "rnd64 (s + v) \<le> rsum_from (rnd64 (s + v)) vs" using Cons.prems by (intro rsum_from_ge) auto
  then have "float_of (s + v) = Fin (rnd64 (s + v))" using Cons.prems r by (intro float_of_small) auto
  with Cons r show ?case by simp
qed simp

text \<open>The sum of up to \<open>2 ^ 24\<close> risks of at most \<open>2 ^ 10\<close> each cannot overflow.\<close>

lemma rsum_bounded:
  assumes "risks_ok vs" "length vs \<le> 2 ^ 24" "\<And>v. v \<in> set vs \<Longrightarrow> v \<le> 2 ^ 10"
  shows "rsum vs \<le> 2 ^ 35"
proof -
  have s: "0 \<le> sum_list vs" using assms(1) by (auto simp: risks_ok_def intro: sum_list_nonneg)
  have "sum_list vs \<le> real (length vs) * 2 ^ 10" using assms(3) by (induction vs) (auto simp: algebra_simps intro: add_mono)
  also have "\<dots> \<le> 2 ^ 24 * 2 ^ 10" using assms(2) by (intro mult_right_mono) auto
  finally have b: "sum_list vs \<le> 2 ^ 34" by simp
  have "2 * unit_roundoff * length vs * sum_list vs \<le> 1 * sum_list vs"
    using assms(2) s by (intro mult_right_mono) (auto simp: unit_roundoff_def)
  moreover have "length vs \<le> 2 ^ 50" using assms(2) by simp
  ultimately show ?thesis using rsum_error [OF assms(1)] b by simp
qed

section \<open>The saturation curve\<close>

text \<open>\<open>saturation t k\<close> is the score of the total \<open>t\<close> with the constant \<open>k\<close>, before the clamps.\<close>

definition saturation :: "float64 \<Rightarrow> float64 \<Rightarrow> float64" where
  "saturation t k = fmul (Fin 100) (fsub (Fin 1) (fexp (fdiv (fneg t) k)))"

definition score_from_exp :: "real \<Rightarrow> real" where
  "score_from_exp e = rnd64 (100 * rnd64 (1 - e))"

lemma overflow_limit_gt: "2 ^ 53 < overflow_limit"
  unfolding overflow_limit_def by (rule power_strict_increasing) simp_all

lemma rnd64_below_limit: "\<bar>x\<bar> \<le> 2 ^ 53 \<Longrightarrow> \<bar>rnd64 x\<bar> < overflow_limit"
proof -
  assume x: "\<bar>x\<bar> \<le> 2 ^ 53"
  have r: "representable (2 ^ 53)" using representable_of_int [of "2 ^ 53"] by simp
  have "rnd64 x \<le> 2 ^ 53" using x by (intro rnd64_le [OF r]) auto
  moreover have "- (2 ^ 53) \<le> rnd64 x" using x r by (intro rnd64_ge) (simp_all only: representable_minus abs_le_iff, auto)
  ultimately show ?thesis using overflow_limit_gt by linarith
qed

lemma fexp_nonpos: "x \<le> 0 \<Longrightarrow> fexp (Fin x) = Fin (rnd64 (exp x))"
proof -
  assume x: "x \<le> 0"
  then have "\<bar>exp x\<bar> \<le> 1" by simp
  then have "\<bar>exp x\<bar> \<le> 2 ^ 53" by (rule order_trans) simp
  from float_of_small [OF rnd64_below_limit [OF this]] show ?thesis by simp
qed

lemma score_from_exp:
  assumes "0 \<le> e" "e \<le> 1"
  shows "fmul (Fin 100) (fsub (Fin 1) (Fin e)) = Fin (score_from_exp e)"
    and "0 \<le> score_from_exp e" "score_from_exp e \<le> 100"
proof -
  have a: "0 \<le> rnd64 (1 - e)" "rnd64 (1 - e) \<le> 1"
    using assms by (auto intro: rnd64_nonneg rnd64_le)
  show b: "0 \<le> score_from_exp e" "score_from_exp e \<le> 100"
    unfolding score_from_exp_def using a by (auto intro: rnd64_nonneg rnd64_le)
  have "\<bar>rnd64 (1 - e)\<bar> < overflow_limit" "\<bar>rnd64 (100 * rnd64 (1 - e))\<bar> < overflow_limit"
    using assms a by (intro rnd64_below_limit; simp)+
  then show "fmul (Fin 100) (fsub (Fin 1) (Fin e)) = Fin (score_from_exp e)"
    by (simp add: fsub_def float_of_small score_from_exp_def)
qed

text \<open>The exponential of a quotient: 0 where the quotient overflows.\<close>

definition decay :: "real \<Rightarrow> real \<Rightarrow> real" where
  "decay t k = (if rnd64 (- t / k) \<le> - overflow_limit then 0 else rnd64 (exp (rnd64 (- t / k))))"

lemma quotient_nonpos: "0 \<le> t \<Longrightarrow> 0 < k \<Longrightarrow> rnd64 (- t / k) \<le> 0"
  by (intro rnd64_le) auto

lemma decay_range:
  assumes "0 \<le> t" "0 < k" shows "0 \<le> decay t k" "decay t k \<le> 1"
  using quotient_nonpos [OF assms] by (auto simp: decay_def intro: rnd64_nonneg rnd64_le)

lemma saturation_finite:
  assumes "0 \<le> t" "0 < k"
  shows "saturation (Fin t) (Fin k) = Fin (score_from_exp (decay t k))"
proof -
  have "fexp (fdiv (fneg (Fin t)) (Fin k)) = Fin (decay t k)"
    using assms quotient_nonpos [OF assms] overflow_limit_gt
    by (auto simp: decay_def float_of_def fexp_nonpos simp del: fexp.simps(1))
  then show ?thesis unfolding saturation_def by (simp only: score_from_exp(1) [OF decay_range [OF assms]])
qed

lemma decay_antimono:
  assumes "0 \<le> s" "s \<le> t" "0 < k"
  shows "decay t k \<le> decay s k"
proof -
  have q: "rnd64 (- t / k) \<le> rnd64 (- s / k)" using assms by (intro rnd64_mono divide_right_mono) auto
  show ?thesis
  proof (cases "rnd64 (- t / k) \<le> - overflow_limit")
    case True
    then show ?thesis using decay_range(1) [of s k] assms by (simp add: decay_def)
  next
    case False
    with q show ?thesis by (auto simp: decay_def intro!: rnd64_mono)
  qed
qed

lemma score_from_exp_antimono: "d \<le> e \<Longrightarrow> score_from_exp e \<le> score_from_exp d"
  unfolding score_from_exp_def by (intro rnd64_mono mult_left_mono) auto

lemma exp_neg_bound: "0 \<le> x \<Longrightarrow> exp (- x) \<le> 1 / (1 + x)" for x :: real
  using exp_ge_add_one_self [of x] by (simp add: exp_minus field_simps)

text \<open>The score reaches 100 at 41 saturation constants, and not below 34.\<close>

lemma decay_small:
  assumes "41 * k \<le> t" "0 < k"
  shows "decay t k \<le> 1 / 2 ^ 54"
proof -
  have "- t / k \<le> - 41" using assms by (simp add: field_simps)
  then have "rnd64 (- t / k) \<le> - 41" by (intro rnd64_le) simp_all
  then have "exp (rnd64 (- t / k)) \<le> exp (- 41)" by simp
  also have "\<dots> \<le> 1 / 2 ^ 54"
  proof -
    have "(5 / 2 :: real) \<le> exp 1" using exp_lower_Taylor_quadratic [of 1] by simp
    then have "(5 / 2 :: real) ^ 41 \<le> exp 1 ^ 41" by (intro power_mono) auto
    moreover have "(2 :: real) ^ 54 \<le> (5 / 2) ^ 41" by (simp add: power_divide)
    moreover have "exp (1 :: real) ^ 41 = exp 41" by (simp flip: exp_of_nat_mult)
    ultimately have "(2 :: real) ^ 54 \<le> exp 41" by linarith
    then show ?thesis unfolding exp_minus by (simp add: field_simps)
  qed
  finally have "rnd64 (exp (rnd64 (- t / k))) \<le> 1 / 2 ^ 54"
    using representable_dyadic [of 1 54] by (intro rnd64_le) simp_all
  then show ?thesis by (simp add: decay_def)
qed

lemma rnd64_below_1:
  "rnd64 (1 - 1 / 2 ^ 54) = 1"
  "rnd64 (1 - 17 / 16 / 2 ^ 54) = 1 - 1 / 2 ^ 53"
  "rnd64 (100 * (1 - 1 / 2 ^ 53)) < 100"
proof -
  have r: "round_half_even (9007199254740992 - 1 / 2) = 9007199254740992"
    "round_half_even (9007199254740992 - 17 / 32) = 9007199254740991"
    unfolding round_half_even_def Let_def
    by simp_all
  show "rnd64 (1 - 1 / 2 ^ 54) = 1"
    using rnd64_at [of 53 "9007199254740992 - 1 / 2"] r by (simp add: field_simps)
  show "rnd64 (1 - 17 / 16 / 2 ^ 54) = 1 - 1 / 2 ^ 53"
    using rnd64_at [of 53 "9007199254740992 - 17 / 32"] r by (simp add: field_simps)
  have "100 * (1 - 1 / 2 ^ 53) \<le> (of_int (100 * 2 ^ 46 - 1) / 2 ^ 46 + 1 / 2 ^ 46 :: real)" by simp
  have "rnd64 (100 * (1 - 1 / 2 ^ 53)) = of_int (round_half_even (100 * (1 - 1 / 2 ^ 53) * 2 ^ 46)) / 2 ^ 46"
    using rnd64_at [of 46 "100 * (1 - 1 / 2 ^ 53) * 2 ^ 46"] by simp
  also have "round_half_even (100 * (1 - 1 / 2 ^ 53) * 2 ^ 46) < 100 * 2 ^ 46"
  proof -
    have "\<lfloor>100 * (1 - 1 / 2 ^ 53) * 2 ^ 46 :: real\<rfloor> = 100 * 2 ^ 46 - 1" by (intro floor_unique) simp_all
    then show ?thesis unfolding round_half_even_def Let_def by simp
  qed
  then have "of_int (round_half_even (100 * (1 - 1 / 2 ^ 53) * 2 ^ 46)) / 2 ^ 46 < (100 :: real)" by simp
  finally show "rnd64 (100 * (1 - 1 / 2 ^ 53)) < 100" .
qed

lemma score_reaches_100:
  assumes "41 * k \<le> t" "0 < k"
  shows "score_from_exp (decay t k) = 100"
proof -
  have t: "0 \<le> t" using assms by (simp add: order_trans [of 0 "41 * k" t])
  have "rnd64 (1 - 1 / 2 ^ 54) \<le> rnd64 (1 - decay t k)" using decay_small [OF assms] by (intro rnd64_mono) simp
  moreover have "rnd64 (1 - decay t k) \<le> 1" using decay_range [OF t assms(2)] by (intro rnd64_le) auto
  ultimately have "rnd64 (1 - decay t k) = 1" by (simp only: rnd64_below_1)
  then show ?thesis by (simp add: score_from_exp_def)
qed

lemma score_below_100:
  assumes "0 \<le> t" "t \<le> 34 * k" "0 < k"
  shows "score_from_exp (decay t k) < 100"
proof -
  have q: "- 34 \<le> - t / k" using assms by (simp add: field_simps)
  then have q: "- 34 \<le> rnd64 (- t / k)" by (intro rnd64_ge) simp_all
  have "exp (34 :: real) = exp 1 ^ 34" by (simp flip: exp_of_nat_mult)
  also have "\<dots> \<le> 3 ^ 34" by (intro power_mono exp_le) simp
  also have "\<dots> \<le> (16 / 17 * 2 ^ 54 :: real)" by simp
  finally have "17 / 16 / 2 ^ 54 \<le> exp (- 34 :: real)" unfolding exp_minus by (simp add: field_simps)
  also have "\<dots> \<le> exp (rnd64 (- t / k))" using q by simp
  finally have "rnd64 (17 / 16 / 2 ^ 54) \<le> rnd64 (exp (rnd64 (- t / k)))" by (rule rnd64_mono)
  moreover have "rnd64 (17 / 16 / 2 ^ 54) = 17 / 16 / 2 ^ 54" using representable_dyadic [of 17 58] by simp
  moreover have "(34 :: real) < overflow_limit" by (rule order_less_trans [OF _ overflow_limit_gt]) simp
  ultimately have "17 / 16 / 2 ^ 54 \<le> decay t k" using q by (auto simp: decay_def)
  then have "rnd64 (1 - decay t k) \<le> 1 - 1 / 2 ^ 53"
    unfolding rnd64_below_1(2) [symmetric] by (intro rnd64_mono) simp
  then have "score_from_exp (decay t k) \<le> rnd64 (100 * (1 - 1 / 2 ^ 53))"
    unfolding score_from_exp_def by (intro rnd64_mono mult_left_mono) auto
  with rnd64_below_1(3) show ?thesis by linarith
qed

text \<open>The computed score is within \<open>2 ^ -43\<close> of the curve.\<close>

lemma exp_close:
  fixes a b :: real
  assumes "a \<le> b"
  shows "exp b - exp a \<le> (b - a) * exp b"
proof -
  have "1 + (a - b) \<le> exp (a - b)" by (rule exp_ge_add_one_self)
  then have "(1 + (a - b)) * exp b \<le> exp (a - b) * exp b" by (rule mult_right_mono) simp
  then show ?thesis by (simp add: algebra_simps flip: exp_add)
qed

lemma times_exp_neg: "x \<le> 0 \<Longrightarrow> - x * exp x \<le> 1" for x :: real
proof -
  have "(1 + - x) * exp x \<le> exp (- x) * exp x" by (rule mult_right_mono [OF exp_ge_add_one_self]) simp
  then have "- x * exp x \<le> 1 - exp x" by (simp add: algebra_simps flip: exp_add)
  then show ?thesis by (rule order_trans) simp
qed

lemma half_subnormal_small: "0 < half_subnormal" "half_subnormal \<le> unit_roundoff / 4"
proof -
  show "0 < half_subnormal" by (simp add: half_subnormal_def)
  have "(2 :: real) ^ 55 \<le> subnormal_scale" unfolding subnormal_scale_def by (rule power_increasing) simp_all
  then have "1 / subnormal_scale \<le> 1 / 2 ^ 55" by (rule divide_left_mono) simp_all
  then show "half_subnormal \<le> unit_roundoff / 4" by (simp add: half_subnormal_def unit_roundoff_def field_simps)
qed

lemma exp_rnd64_error:
  assumes "a \<le> 0"
  shows "\<bar>exp (rnd64 a) - exp a\<bar> \<le> 3 * unit_roundoff"
proof -
  define u h where "u = unit_roundoff" and "h = half_subnormal"
  define b where "b = rnd64 a"
  have u: "0 < u" "u \<le> 1 / 4" by (simp_all add: u_def unit_roundoff_def)
  have h: "0 < h" "h \<le> u / 4" using half_subnormal_small by (simp_all add: u_def h_def)
  have d: "\<bar>b - a\<bar> \<le> u * - a + h" using rnd64_error [of a] assms by (simp add: b_def u_def h_def)
  have b: "b \<le> 0" using assms by (auto simp: b_def intro: rnd64_le)
  show ?thesis
  proof (cases "b \<le> a")
    case True
    have "exp a - exp b \<le> (a - b) * exp a" by (rule exp_close [OF True])
    also have "\<dots> \<le> (u * - a + h) * exp a" using d True by (intro mult_right_mono) auto
    also have "\<dots> = u * (- a * exp a) + h * exp a" by (simp add: algebra_simps)
    also have "\<dots> \<le> u * 1 + h * 1"
      using u h assms times_exp_neg [OF assms] by (intro add_mono mult_left_mono) auto
    finally show ?thesis using True u h unfolding b_def u_def [symmetric] by simp
  next
    case False
    then have ab: "a \<le> b" by simp
    have "u * - a \<le> 1 / 4 * - a" using u assms by (intro mult_right_mono) auto
    moreover have "b - a \<le> u * - a + h" using d by linarith
    ultimately have "b - a \<le> 1 / 4 * - a + h" by linarith
    then have a: "- a \<le> 2 * (- b + h)" using b h by simp
    have "exp b - exp a \<le> (b - a) * exp b" by (rule exp_close [OF ab])
    also have "\<dots> \<le> (u * (2 * (- b + h)) + h) * exp b"
    proof (rule mult_right_mono)
      have "u * - a \<le> u * (2 * (- b + h))" using u a by (intro mult_left_mono) auto
      then show "b - a \<le> u * (2 * (- b + h)) + h" using d by linarith
    qed simp
    also have "\<dots> = 2 * u * (- b * exp b) + (2 * u * h + h) * exp b" by (simp add: algebra_simps)
    also have "\<dots> \<le> 2 * u * 1 + (2 * u * h + h) * 1"
      using u h b times_exp_neg [OF b] by (intro add_mono mult_left_mono) auto
    also have "\<dots> \<le> 3 * u"
    proof -
      have "u * h \<le> 1 / 4 * h" using u h by (intro mult_right_mono) auto
      then have "2 * (u * h) + h \<le> u" using h by linarith
      then show ?thesis by simp
    qed
    finally show ?thesis using ab unfolding b_def u_def [symmetric] by simp
  qed
qed

lemma decay_error:
  assumes "0 \<le> t" "0 < k"
  shows "\<bar>decay t k - exp (- t / k)\<bar> \<le> 5 * unit_roundoff"
proof (cases "rnd64 (- t / k) \<le> - overflow_limit")
  case True
  have "\<not> - (2 ^ 53) \<le> - t / k"
  proof
    assume "- (2 ^ 53) \<le> - t / k"
    moreover have "representable (2 ^ 53)" using representable_of_int [of "2 ^ 53"] by simp
    ultimately have "- (2 ^ 53) \<le> rnd64 (- t / k)" by (intro rnd64_ge) (simp_all only: representable_minus)
    with True overflow_limit_gt show False by linarith
  qed
  then have "2 ^ 53 \<le> 1 + t / k" by linarith
  moreover have "0 < 1 + t / k" using assms by (simp add: add_pos_nonneg)
  ultimately have "1 / (1 + t / k) \<le> 1 / 2 ^ 53" by (intro divide_left_mono mult_pos_pos) simp_all
  then have "exp (- (t / k)) \<le> unit_roundoff"
    using exp_neg_bound [of "t / k"] assms by (simp add: unit_roundoff_def)
  moreover have "0 < unit_roundoff" by (simp add: unit_roundoff_def)
  ultimately show ?thesis using True by (simp add: decay_def)
next
  case False
  let ?a = "- t / k"
  have a: "?a \<le> 0" using assms by simp
  have "exp (rnd64 ?a) \<le> 1" using quotient_nonpos [OF assms] by simp
  then have "unit_roundoff * exp (rnd64 ?a) \<le> unit_roundoff * 1"
    by (intro mult_left_mono) (simp_all add: unit_roundoff_def)
  then have "\<bar>rnd64 (exp (rnd64 ?a)) - exp (rnd64 ?a)\<bar> \<le> unit_roundoff + half_subnormal"
    using rnd64_error [of "exp (rnd64 ?a)"] by simp
  with exp_rnd64_error [OF a] half_subnormal_small False show ?thesis by (simp add: decay_def)
qed

lemma score_error:
  assumes "0 \<le> t" "0 < k"
  shows "\<bar>score_from_exp (decay t k) - 100 * (1 - exp (- t / k))\<bar> \<le> 1 / 2 ^ 43"
proof -
  define e u where "e = decay t k" and "u = unit_roundoff"
  define y where "y = rnd64 (1 - e)"
  note e = decay_range [OF assms, folded e_def]
  have u: "0 < u" "801 * u \<le> 1 / 2 ^ 43" by (simp_all add: u_def unit_roundoff_def)
  have h: "half_subnormal \<le> u" using half_subnormal_small u by (simp add: u_def)
  have y: "0 \<le> y" "y \<le> 1" using e by (auto simp: y_def intro: rnd64_nonneg rnd64_le)
  have "u * (1 - e) \<le> u * 1" using e u by (intro mult_left_mono) auto
  then have "\<bar>y - (1 - e)\<bar> \<le> 2 * u" using rnd64_error [of "1 - e"] e h by (simp add: y_def u_def)
  moreover have "u * (100 * y) \<le> u * 100" using y u by (intro mult_left_mono) auto
  then have "\<bar>rnd64 (100 * y) - 100 * y\<bar> \<le> 101 * u" using rnd64_error [of "100 * y"] y h by (simp add: u_def)
  moreover have "\<bar>e - exp (- t / k)\<bar> \<le> 5 * u" using decay_error [OF assms] by (simp add: e_def u_def)
  ultimately have "\<bar>rnd64 (100 * y) - 100 + 100 * exp (- t / k)\<bar> \<le> 801 * u"
    unfolding abs_le_iff by linarith
  then have "\<bar>rnd64 (100 * y) - 100 * (1 - exp (- t / k))\<bar> \<le> 801 * u" by (simp add: algebra_simps)
  with u show ?thesis by (simp add: score_from_exp_def y_def e_def)
qed

end
