(* ===== verification/Risk.thy ===== *)
theory Risk
  imports Findings_Model Projects Float_Sums
begin

text \<open>
  The risk engine: \<open>internal/risk/weights.go\<close>, \<open>risk.go\<close> and \<open>explain.go\<close>. A finding's
  risk is the product of five factors and a project's score saturates the max-dominant aggregate
  of its live findings. Every operation is the rounded one of
  \<open>Float64\<close>, infinities and NaN included; the score, which the code clamps to [0, 100], is
  the value of a finite \<open>float64\<close>. A Go map of weights is an association list, read with
  \<^const>\<open>map_of\<close>; its keys are distinct.
\<close>

section \<open>Weights\<close>

record Weights =
  w_Severity :: "(Severity \<times> float64) list"
  w_Environment :: "(Environment \<times> float64) list"
  w_InternetFacing :: float64
  w_Criticality :: "(Criticality \<times> float64) list"
  w_Confidence :: "(Confidence \<times> float64) list"
  w_ExploitabilityFloor :: float64
  w_TailWeight :: float64
  w_Saturation :: float64

text \<open>A decimal literal is rounded by the compiler.\<close>

abbreviation lit :: "real \<Rightarrow> float64" where "lit x \<equiv> Fin (rnd64 x)"

definition DefaultWeights :: Weights where
  "DefaultWeights =
     \<lparr>w_Severity = [(SeverityCritical, lit 100), (SeverityHigh, lit 30), (SeverityMedium, lit 8),
        (SeverityUnknown, lit 5), (SeverityLow, lit 1), (SeverityInfo, lit (5 / 100))],
      w_Environment = [(EnvProduction, lit 1), (EnvStaging, lit (6 / 10)), (EnvDevelopment, lit (3 / 10))],
      w_InternetFacing = lit (15 / 10),
      w_Criticality = [(CriticalityCritical, lit (15 / 10)), (CriticalityHigh, lit (12 / 10)),
        (CriticalityMedium, lit 1), (CriticalityLow, lit (7 / 10))],
      w_Confidence = [(ConfidenceHigh, lit 1), (ConfidenceMedium, lit (75 / 100)), (ConfidenceLow, lit (5 / 10))],
      w_ExploitabilityFloor = lit (5 / 10),
      w_TailWeight = lit (15 / 100),
      w_Saturation = lit 200\<rparr>"

datatype weights_error =
    NoSeverityWeight string | BadSeverityWeight string float64
  | NoEnvironmentWeight string | BadEnvironmentWeight string float64
  | NoCriticalityWeight string | BadCriticalityWeight string float64
  | NoConfidenceWeight string | BadConfidenceWeight string float64
  | BadInternetFacing float64 | BadExploitabilityFloor float64 | BadTailWeight float64
  | BadSaturation float64

text \<open>One of the validation loops: every key has an entry, and the entry is acceptable.\<close>

fun check_table :: "(string \<times> float64) list \<Rightarrow> (float64 \<Rightarrow> bool) \<Rightarrow> (string \<Rightarrow> weights_error) \<Rightarrow>
    (string \<Rightarrow> float64 \<Rightarrow> weights_error) \<Rightarrow> string list \<Rightarrow> weights_error option" where
  "check_table tbl ok missing bad [] = None"
| "check_table tbl ok missing bad (k # ks) =
     (case map_of tbl k of
        None \<Rightarrow> Some (missing k)
      | Some v \<Rightarrow> if \<not> ok v then Some (bad k v) else check_table tbl ok missing bad ks)"

fun first_error :: "'e option list \<Rightarrow> 'e option" where
  "first_error [] = None"
| "first_error (None # cs) = first_error cs"
| "first_error (Some e # cs) = Some e"

definition Weights_Validate :: "Weights \<Rightarrow> weights_error option" where
  "Weights_Validate w = first_error
     [check_table (w_Severity w) (\<lambda>v. \<not> fle v (Fin 0)) NoSeverityWeight BadSeverityWeight
        [SeverityCritical, SeverityHigh, SeverityMedium, SeverityUnknown, SeverityLow, SeverityInfo],
      check_table (w_Environment w) (\<lambda>v. \<not> fle v (Fin 0)) NoEnvironmentWeight BadEnvironmentWeight
        Environments,
      check_table (w_Criticality w) (\<lambda>v. \<not> fle v (Fin 0)) NoCriticalityWeight BadCriticalityWeight
        Criticalities,
      check_table (w_Confidence w) (\<lambda>v. \<not> (fle v (Fin 0) \<or> fless (Fin 1) v))
        NoConfidenceWeight BadConfidenceWeight [ConfidenceHigh, ConfidenceMedium, ConfidenceLow],
      if fless (w_InternetFacing w) (Fin 1) then Some (BadInternetFacing (w_InternetFacing w)) else None,
      if fless (w_ExploitabilityFloor w) (Fin 0) \<or> fless (Fin 1) (w_ExploitabilityFloor w)
        then Some (BadExploitabilityFloor (w_ExploitabilityFloor w)) else None,
      if fless (w_TailWeight w) (Fin 0) \<or> fless (Fin 1) (w_TailWeight w)
        then Some (BadTailWeight (w_TailWeight w)) else None,
      if fle (w_Saturation w) (Fin 0) then Some (BadSaturation (w_Saturation w)) else None]"

text \<open>
  \<open>Digest\<close>: each table with its keys, collected in the order the map is visited and then sorted,
  and the scalars, hashed.
\<close>

definition digest_section :: "golib \<Rightarrow> string \<Rightarrow> (string \<times> float64) list \<Rightarrow> string list \<Rightarrow> string" where
  "digest_section L name tbl ks =
     name @ ''{'' @
     concat (map (\<lambda>k. k @ ''='' @ lib_FormatFloat L (CHR ''g'') (the (map_of tbl k)) (-1) @ '';'')
       (sort ks)) @ ''}''"

definition Digest :: "golib \<Rightarrow> Weights \<Rightarrow> string" where
  "Digest L w = lib_sha256hex L
     (digest_section L ''severity'' (w_Severity w)
        (map_range (lib_map_order L 3) (map fst (w_Severity w))) @
      digest_section L ''environment'' (w_Environment w)
        (map_range (lib_map_order L 4) (map fst (w_Environment w))) @
      digest_section L ''criticality'' (w_Criticality w)
        (map_range (lib_map_order L 5) (map fst (w_Criticality w))) @
      digest_section L ''confidence'' (w_Confidence w)
        (map_range (lib_map_order L 6) (map fst (w_Confidence w))) @
      digest_section L ''scalar''
        [(''internet_facing'', w_InternetFacing w), (''exploitability_floor'', w_ExploitabilityFloor w),
         (''tail_weight'', w_TailWeight w), (''saturation'', w_Saturation w)]
        [''internet_facing'', ''exploitability_floor'', ''tail_weight'', ''saturation''])"

section \<open>Scoring one finding\<close>

definition trim_float :: "golib \<Rightarrow> float64 \<Rightarrow> string" where
  "trim_float L v = lib_FormatFloat L (CHR ''f'') v (-1)"

record RiskContext =
  ctx_Environment :: Environment
  ctx_Criticality :: Criticality
  ctx_InternetFacing :: bool

record RiskSubject =
  rs_Finding :: Finding
  rs_Sources :: "string list"
  rs_IssueSeverity :: Severity
  rs_IssueKey :: string

record Factor =
  f_Name :: string
  f_Value :: float64
  f_Reason :: string
  f_Neutral :: bool

record Score =
  s_Fingerprint :: string
  s_Value :: float64
  s_Severity :: Severity
  s_Escalated :: bool
  s_Dismissed :: bool
  s_Factors :: "Factor list"

record Assessment =
  a_Score :: real
  a_Total :: float64
  a_Findings :: "Score list"
  a_Live :: nat
  a_Dismissed :: nat

definition dismissed :: "Status \<Rightarrow> bool" where
  "dismissed s = (s \<in> set [StatusResolved, StatusFalsePositive, StatusIgnored])"

definition effectiveSeverity :: "RiskSubject \<Rightarrow> Severity \<times> bool" where
  "effectiveSeverity s =
     (if rs_IssueSeverity s = [] \<or> \<not> Severity_Valid (rs_IssueSeverity s)
        then (Sev (rs_Finding s), False)
      else if Severity_Rank (rs_IssueSeverity s) > Severity_Rank (Sev (rs_Finding s))
        then (rs_IssueSeverity s, True)
      else (Sev (rs_Finding s), False))"

text \<open>A Go map read: the zero value when the key is missing.\<close>

definition weight_of :: "(string \<times> float64) list \<Rightarrow> string \<Rightarrow> float64" where
  "weight_of tbl k = (case map_of tbl k of None \<Rightarrow> Fin 0 | Some v \<Rightarrow> v)"

definition severityFactor :: "Weights \<Rightarrow> Severity \<Rightarrow> bool \<Rightarrow> RiskSubject \<Rightarrow> float64 \<times> string" where
  "severityFactor w sev escalated s =
     (case map_of (w_Severity w) sev of
        None \<Rightarrow> (weight_of (w_Severity w) SeverityUnknown,
                 ''unrecognised severity '' @ sev @ '', scored as unknown'')
      | Some v \<Rightarrow>
          (v, sev @ (if escalated
                     then '', escalated from '' @ Sev (rs_Finding s) @ '' by issue '' @ rs_IssueKey s
                     else [])))"

definition exploitabilityFactor :: "golib \<Rightarrow> Weights \<Rightarrow> ThreatIntel \<Rightarrow> Factor" where
  "exploitabilityFactor L w t =
     (case Threat_EPSS t of
        None \<Rightarrow> \<lparr>f_Name = ''exploitability'', f_Value = Fin 1,
                 f_Reason = ''no threat intelligence available'', f_Neutral = True\<rparr>
      | Some e \<Rightarrow>
          \<lparr>f_Name = ''exploitability'', f_Value = fadd (w_ExploitabilityFloor w) (Fin (Percentile e)),
           f_Reason = ''EPSS percentile '' @ trim_float L (Fin (Percentile e)) @ '' ('' @
             EPSS_Source e @ '', '' @ format_date (ObservedAt e) @ '')'',
           f_Neutral = False\<rparr>)"

definition exposureFactor :: "Weights \<Rightarrow> RiskContext \<Rightarrow> Factor" where
  "exposureFactor w pc =
     (let (base, reason, neutral) =
        (case map_of (w_Environment w) (ctx_Environment pc) of
           None \<Rightarrow> (Fin 1, ''environment not declared'', True)
         | Some v \<Rightarrow> (v, ctx_Environment pc, False))
      in if ctx_InternetFacing pc
         then \<lparr>f_Name = ''exposure'', f_Value = fmul base (w_InternetFacing w),
               f_Reason = reason @ '', internet-facing'', f_Neutral = neutral\<rparr>
         else \<lparr>f_Name = ''exposure'', f_Value = base, f_Reason = reason, f_Neutral = neutral\<rparr>)"

definition criticalityFactor :: "Weights \<Rightarrow> RiskContext \<Rightarrow> Factor" where
  "criticalityFactor w pc =
     (case map_of (w_Criticality w) (ctx_Criticality pc) of
        None \<Rightarrow> \<lparr>f_Name = ''criticality'', f_Value = Fin 1, f_Reason = ''criticality not declared'',
                 f_Neutral = True\<rparr>
      | Some v \<Rightarrow> \<lparr>f_Name = ''criticality'', f_Value = v, f_Reason = ctx_Criticality pc,
                   f_Neutral = False\<rparr>)"

definition raiseConfidence :: "Confidence \<Rightarrow> Confidence \<times> bool" where
  "raiseConfidence c =
     (if c = ConfidenceLow then (ConfidenceMedium, True)
      else if c = ConfidenceMedium then (ConfidenceHigh, True)
      else (c, False))"

definition distinct_sources :: "string list \<Rightarrow> string list" where
  "distinct_sources ins = sort (dedup (filter (\<lambda>s. s \<noteq> []) ins))"

definition join_prose :: "string list \<Rightarrow> string" where
  "join_prose ins =
     (case ins of
        [] \<Rightarrow> []
      | [a] \<Rightarrow> a
      | [a, b] \<Rightarrow> a @ '' and '' @ b
      | _ \<Rightarrow> Join (butlast ins) '', '' @ '' and '' @ last ins)"

definition confidenceFactor :: "Weights \<Rightarrow> RiskSubject \<Rightarrow> Factor" where
  "confidenceFactor w s =
     (let level = (if Confidence_Valid (Conf (rs_Finding s)) then Conf (rs_Finding s) else ConfidenceLow);
          reporters = distinct_sources (rs_Sources s);
          (level', reason) =
            (if length reporters \<ge> 2
             then (case raiseConfidence level of
                     (raised, True) \<Rightarrow>
                       (raised, raised @ '', raised by agreement between '' @ join_prose reporters)
                   | (_, False) \<Rightarrow> (level, level @ '', corroborated by '' @ join_prose reporters))
             else (level, level));
          v = (case map_of (w_Confidence w) level' of
                 None \<Rightarrow> weight_of (w_Confidence w) ConfidenceLow
               | Some v \<Rightarrow> v)
      in \<lparr>f_Name = ''confidence'', f_Value = v, f_Reason = reason, f_Neutral = False\<rparr>)"

definition scoreOne :: "golib \<Rightarrow> Weights \<Rightarrow> RiskSubject \<Rightarrow> RiskContext \<Rightarrow> Score" where
  "scoreOne L w s pc =
     (let f = rs_Finding s in
      if dismissed (FStatus f) then
        \<lparr>s_Fingerprint = Fingerprint f, s_Value = Fin 0, s_Severity = Sev f, s_Escalated = False,
         s_Dismissed = True,
         s_Factors = [\<lparr>f_Name = ''status'', f_Value = Fin 0, f_Reason = ''dismissed as '' @ FStatus f,
                       f_Neutral = False\<rparr>]\<rparr>
      else
        let (sev, escalated) = effectiveSeverity s;
            (sevWeight, sevReason) = severityFactor w sev escalated s;
            expl = exploitabilityFactor L w (Threat f);
            exposure = exposureFactor w pc;
            crit = criticalityFactor w pc;
            conf = confidenceFactor w s
        in \<lparr>s_Fingerprint = Fingerprint f,
            s_Value = fmul (fmul (fmul (fmul sevWeight (f_Value expl)) (f_Value exposure)) (f_Value crit))
              (f_Value conf),
            s_Severity = sev, s_Escalated = escalated, s_Dismissed = False,
            s_Factors = [\<lparr>f_Name = ''severity'', f_Value = sevWeight, f_Reason = sevReason,
                          f_Neutral = False\<rparr>, expl, exposure, crit, conf]\<rparr>)"

section \<open>Aggregation\<close>

text \<open>The two clamps: NaN and a negative score become 0, a score above 100 becomes 100.\<close>

fun clamp_score :: "float64 \<Rightarrow> real" where
  "clamp_score NaN = 0"
| "clamp_score NegInf = 0"
| "clamp_score PosInf = 100"
| "clamp_score (Fin score) = (if score < 0 then 0 else if score > 100 then 100 else score)"

definition aggregate :: "float64 list \<Rightarrow> float64 \<Rightarrow> float64 \<Rightarrow> float64 \<times> real" where
  "aggregate values lambda k =
     (case values of
        [] \<Rightarrow> (Fin 0, 0)
      | v0 # _ \<Rightarrow>
          (let sum = foldl fadd (Fin 0) values;
               max = foldl (\<lambda>m v. if fless m v then v else m) v0 values;
               total = fadd max (fmul lambda (fsub sum max));
               score = fmul (Fin 100) (fsub (Fin 1) (fexp (fdiv (fneg total) k)))
           in (total, clamp_score score)))"

text \<open>\<open>assess\<close>: the loop keeps every score, in input order, and the values of the live ones.\<close>

definition assess :: "golib \<Rightarrow> RiskSubject list \<Rightarrow> RiskContext \<Rightarrow> Weights \<Rightarrow> Assessment" where
  "assess L subjects pc w =
     (let scores = map (\<lambda>s. scoreOne L w s pc) subjects;
          live = filter (\<lambda>sc. \<not> s_Dismissed sc) scores;
          (total, score) = aggregate (map s_Value live) (w_TailWeight w) (w_Saturation w)
      in \<lparr>a_Score = score, a_Total = total, a_Findings = scores, a_Live = length live,
          a_Dismissed = length (filter s_Dismissed scores)\<rparr>)"

definition Assess :: "golib \<Rightarrow> RiskSubject list \<Rightarrow> RiskContext \<Rightarrow> Assessment" where
  "Assess L subjects pc = assess L subjects pc DefaultWeights"

definition AssessWith :: "golib \<Rightarrow> RiskSubject list \<Rightarrow> RiskContext \<Rightarrow> Weights \<Rightarrow>
    weights_error + Assessment" where
  "AssessWith L subjects pc w =
     (case Weights_Validate w of Some e \<Rightarrow> Inl e | None \<Rightarrow> Inr (assess L subjects pc w))"

section \<open>Explain\<close>

fun explain_factors :: "golib \<Rightarrow> bool \<Rightarrow> Factor list \<Rightarrow> string" where
  "explain_factors L first [] = []"
| "explain_factors L first (f # fs) =
     (if first then '' = ''
      else [CHR 0x0A] @ ''          '' @ [CHR 0xC3, CHR 0x97, CHR 0x20]) @
     f_Name f @ '' '' @ trim_float L (f_Value f) @ '' ('' @ f_Reason f @
     (if f_Neutral f then ''; neutral)'' else '')'') @ explain_factors L False fs"

definition Explain :: "golib \<Rightarrow> Score \<Rightarrow> string" where
  "Explain L s =
     ''risk '' @ trim_float L (s_Value s) @
     (if s_Dismissed s
      then '' = 0 ('' @ (case s_Factors s of [] \<Rightarrow> [] | f # _ \<Rightarrow> f_Reason f) @ '')''
      else explain_factors L True (s_Factors s))"

section \<open>Specification vocabulary\<close>

text \<open>
  \<open>Validate\<close> checks the entries of the enumerations and leaves any other key of a table
  unchecked, so the weights the lemmas are about have no other key.
\<close>

definition known_keys :: "Weights \<Rightarrow> bool" where
  "known_keys w \<longleftrightarrow> (\<forall>k \<in> fst ` set (w_Severity w). Severity_Valid k) \<and>
     fst ` set (w_Environment w) \<subseteq> set Environments \<and>
     fst ` set (w_Criticality w) \<subseteq> set Criticalities"

definition weights_ok :: "Weights \<Rightarrow> bool" where
  "weights_ok w \<longleftrightarrow> Weights_Validate w = None \<and> known_keys w"

text \<open>Subjects whose threat intelligence passed validation, as every stored finding's has.\<close>

abbreviation threats_ok :: "RiskSubject list \<Rightarrow> bool" where
  "threats_ok ss \<equiv> list_all (\<lambda>s. Threat_Validate (Threat (rs_Finding s)) = None) ss"

definition live_subjects :: "RiskSubject list \<Rightarrow> RiskSubject list" where
  "live_subjects ss = filter (\<lambda>s. \<not> dismissed (FStatus (rs_Finding s))) ss"

text \<open>The aggregate and the curve as the design document writes them, in exact numbers.\<close>

definition max_dominant :: "real \<Rightarrow> real list \<Rightarrow> real" where
  "max_dominant lam vs =
     (if vs = [] then 0 else Max (set vs) + lam * (sum_list vs - Max (set vs)))"

definition saturate :: "real \<Rightarrow> real \<Rightarrow> real" where
  "saturate k t = 100 * (1 - exp (- t / k))"

text \<open>The risks of the live findings, in order.\<close>

definition live_risks :: "golib \<Rightarrow> Weights \<Rightarrow> RiskContext \<Rightarrow> RiskSubject list \<Rightarrow> float64 list" where
  "live_risks L w pc ss = map (\<lambda>s. s_Value (scoreOne L w s pc)) (live_subjects ss)"

fun is_finite :: "float64 \<Rightarrow> bool" where
  "is_finite (Fin x) = True"
| "is_finite _ = False"

definition sample_subject :: "Severity \<Rightarrow> Status \<Rightarrow> RiskSubject" where
  "sample_subject sev st =
     \<lparr>rs_Finding = zero_Finding\<lparr>Fingerprint := ''f'', Sev := sev, Conf := ConfidenceHigh, FStatus := st\<rparr>,
      rs_Sources = [''trivy''], rs_IssueSeverity = [], rs_IssueKey = []\<rparr>"

definition sample_context :: RiskContext where
  "sample_context = \<lparr>ctx_Environment = EnvProduction, ctx_Criticality = CriticalityHigh,
     ctx_InternetFacing = True\<rparr>"

definition confidence_level :: "RiskSubject \<Rightarrow> Confidence" where
  "confidence_level s =
     (let level = (if Confidence_Valid (Conf (rs_Finding s)) then Conf (rs_Finding s) else ConfidenceLow)
      in if length (distinct_sources (rs_Sources s)) \<ge> 2 then fst (raiseConfidence level) else level)"

definition severity_weight :: "Weights \<Rightarrow> Severity \<Rightarrow> float64" where
  "severity_weight w sev = (case map_of (w_Severity w) sev of
     None \<Rightarrow> weight_of (w_Severity w) SeverityUnknown | Some v \<Rightarrow> v)"

section \<open>Weights\<close>

lemma check_table_None:
  "check_table tbl ok miss bad ks = None \<longleftrightarrow> (\<forall>k \<in> set ks. \<exists>v. map_of tbl k = Some v \<and> ok v)"
  by (induction ks) (auto split: option.split)

declare check_table.simps [simp del]

lemma first_error_None: "first_error cs = None \<longleftrightarrow> (\<forall>c \<in> set cs. c = None)"
  by (induction cs rule: first_error.induct) auto

lemma Weights_Validate_None:
  assumes "Weights_Validate w = None"
  shows "\<And>k. Severity_Valid k \<Longrightarrow> \<exists>v. map_of (w_Severity w) k = Some v \<and> \<not> fle v (Fin 0)"
    and "\<And>k. k \<in> set Environments \<Longrightarrow> \<exists>v. map_of (w_Environment w) k = Some v \<and> \<not> fle v (Fin 0)"
    and "\<And>k. k \<in> set Criticalities \<Longrightarrow> \<exists>v. map_of (w_Criticality w) k = Some v \<and> \<not> fle v (Fin 0)"
    and "\<And>k. Confidence_Valid k \<Longrightarrow>
      \<exists>v. map_of (w_Confidence w) k = Some v \<and> \<not> fle v (Fin 0) \<and> \<not> fless (Fin 1) v"
    and "\<not> fless (w_InternetFacing w) (Fin 1)" "\<not> fless (w_ExploitabilityFloor w) (Fin 0)"
    and "\<not> fless (w_TailWeight w) (Fin 0)" "\<not> fless (Fin 1) (w_TailWeight w)" "\<not> fle (w_Saturation w) (Fin 0)"
proof -
  note v = assms [unfolded Weights_Validate_def first_error_None, simplified check_table_None list.set ball_simps]
  show "\<exists>v. map_of (w_Severity w) k = Some v \<and> \<not> fle v (Fin 0)" if "Severity_Valid k" for k
    using v that by (auto simp: Severity_Valid_def split: if_splits)
  show "\<exists>v. map_of (w_Environment w) k = Some v \<and> \<not> fle v (Fin 0)" if "k \<in> set Environments" for k
    using v that by (auto split: if_splits)
  show "\<exists>v. map_of (w_Criticality w) k = Some v \<and> \<not> fle v (Fin 0)" if "k \<in> set Criticalities" for k
    using v that by (auto split: if_splits)
  show "\<exists>v. map_of (w_Confidence w) k = Some v \<and> \<not> fle v (Fin 0) \<and> \<not> fless (Fin 1) v" if "Confidence_Valid k" for k
    using v that by (auto simp: Confidence_Valid_def split: if_splits)
qed (use assms in \<open>simp_all add: Weights_Validate_def first_error_None split: if_splits\<close>)

text \<open>A literal keeps its sign and its order.\<close>

lemma lit_pos: "1 / 2 ^ 10 \<le> x \<Longrightarrow> 0 < rnd64 x"
proof -
  assume "1 / 2 ^ 10 \<le> x"
  moreover have "representable (1 / 2 ^ 10)" using representable_dyadic [of 1 10] by simp
  ultimately have "1 / 2 ^ 10 \<le> rnd64 x" by (intro rnd64_ge)
  then show ?thesis by (rule less_le_trans [rotated]) simp
qed

lemma default_literals:
  "0 < rnd64 (1 / 20)" "0 < rnd64 (3 / 5)" "0 < rnd64 (3 / 10)" "0 < rnd64 (3 / 2)" "0 < rnd64 (6 / 5)"
  "0 < rnd64 (7 / 10)" "0 < rnd64 (3 / 4)" "0 < rnd64 (1 / 2)" "0 < rnd64 (3 / 20)"
  "rnd64 (3 / 4) \<le> 1" "rnd64 (1 / 2) \<le> 1" "rnd64 (3 / 20) \<le> 1" "1 \<le> rnd64 (3 / 2)" "rnd64 (3 / 2) \<le> 2"
  by (auto intro: lit_pos rnd64_le rnd64_ge)

lemma DefaultWeights_ok: "weights_ok DefaultWeights"
  using default_literals
  by (auto simp: weights_ok_def known_keys_def Weights_Validate_def first_error_None
      check_table.simps DefaultWeights_def Severity_Valid_def Environments_def Criticalities_def fle_def)

text \<open>Over known keys no table returns a weight that is not positive.\<close>

lemma weights_ok_positive:
  assumes "weights_ok w"
  shows "map_of (w_Severity w) k = Some v \<Longrightarrow> \<not> fle v (Fin 0)"
    and "map_of (w_Environment w) k = Some v \<Longrightarrow> \<not> fle v (Fin 0)"
    and "map_of (w_Criticality w) k = Some v \<Longrightarrow> \<not> fle v (Fin 0)"
proof -
  have V: "Weights_Validate w = None" and K: "known_keys w" using assms by (auto simp: weights_ok_def)
  have key: "map_of t k = Some v \<Longrightarrow> k \<in> fst ` set t" for t :: "(string \<times> float64) list"
    by (metis domI dom_map_of_conv_image_fst)
  show "map_of (w_Severity w) k = Some v \<Longrightarrow> \<not> fle v (Fin 0)"
    using Weights_Validate_None(1) [OF V, of k] K key by (fastforce simp: known_keys_def)
  show "map_of (w_Environment w) k = Some v \<Longrightarrow> \<not> fle v (Fin 0)"
    using Weights_Validate_None(2) [OF V, of k] K key by (fastforce simp: known_keys_def)
  show "map_of (w_Criticality w) k = Some v \<Longrightarrow> \<not> fle v (Fin 0)"
    using Weights_Validate_None(3) [OF V, of k] K key by (fastforce simp: known_keys_def)
qed

lemma weights_ok_scalars:
  assumes "weights_ok w"
  shows "\<not> fless (w_InternetFacing w) (Fin 1)" "\<not> fless (w_ExploitabilityFloor w) (Fin 0)"
    "\<not> fless (w_TailWeight w) (Fin 0)" "\<not> fless (Fin 1) (w_TailWeight w)" "\<not> fle (w_Saturation w) (Fin 0)"
  using Weights_Validate_None(5-9) assms by (auto simp: weights_ok_def)

section \<open>Dismissal\<close>

interpretation risk_lifecycle: dismissal dismissed
  by unfold_locales (simp add: dismissed_def)

section \<open>The factors\<close>

text \<open>A factor that is finite is not negative.\<close>

definition sign_ok :: "float64 \<Rightarrow> bool" where
  "sign_ok v \<longleftrightarrow> \<not> fless v (Fin 0)"

lemma sign_ok_Fin [simp]: "sign_ok (Fin x) \<longleftrightarrow> 0 \<le> x"
  by (simp add: sign_ok_def not_less)

lemma sign_okI: "\<not> fle v (Fin 0) \<Longrightarrow> sign_ok v"
  by (auto simp: sign_ok_def fle_def)

lemma sign_ok_cases:
  assumes "sign_ok v"
  obtains x where "v = Fin x" "0 \<le> x" | "v = PosInf" | "v = NaN"
  using assms by (cases v) (auto simp: sign_ok_def)

lemma sign_ok_float_of: "0 \<le> x \<Longrightarrow> sign_ok (float_of x)"
proof -
  assume "0 \<le> x"
  then have "0 \<le> rnd64 x" by (rule rnd64_nonneg)
  moreover have "0 < overflow_limit" by (rule less_trans [OF _ overflow_limit_gt]) simp
  ultimately show ?thesis by (auto simp: float_of_def sign_ok_def)
qed

lemma sign_ok_infinite [simp]: "sign_ok PosInf" "sign_ok NaN"
  by (simp_all add: sign_ok_def)

lemma sign_ok_fmul: "sign_ok a \<Longrightarrow> sign_ok b \<Longrightarrow> sign_ok (fmul a b)"
  by (elim sign_ok_cases) (simp_all add: sign_ok_float_of sgn_if)

lemma sign_ok_fadd: "sign_ok a \<Longrightarrow> sign_ok b \<Longrightarrow> sign_ok (fadd a b)"
  by (elim sign_ok_cases) (simp_all add: sign_ok_float_of)

lemma severityFactor_sign:
  assumes "weights_ok w"
  shows "sign_ok (fst (severityFactor w sev esc s))"
proof -
  have "sign_ok (weight_of (w_Severity w) SeverityUnknown)"
    using Weights_Validate_None(1) [of w SeverityUnknown] assms
    by (auto simp: weights_ok_def Severity_Valid_def weight_of_def intro: sign_okI)
  then show ?thesis
    using weights_ok_positive(1) [OF assms] by (auto simp: severityFactor_def split: option.split intro: sign_okI)
qed

lemma exploitabilityFactor_sign:
  assumes "weights_ok w" and "Threat_Validate t = None"
  shows "sign_ok (f_Value (exploitabilityFactor L w t))"
proof -
  have "sign_ok (w_ExploitabilityFloor w)" unfolding sign_ok_def by (rule weights_ok_scalars(2) [OF assms(1)])
  then show ?thesis
    using Threat_Validate_percentile [OF assms(2)]
    by (auto simp: exploitabilityFactor_def split: option.split intro!: sign_ok_fadd)
qed

lemma exposureFactor_sign: "weights_ok w \<Longrightarrow> sign_ok (f_Value (exposureFactor w pc))"
proof -
  assume w: "weights_ok w"
  have "sign_ok (w_InternetFacing w)"
    using weights_ok_scalars(1) [OF w] by (cases "w_InternetFacing w") (auto simp: sign_ok_def)
  then show ?thesis
    using weights_ok_positive(2) [OF w, of "ctx_Environment pc"]
    by (auto simp: exposureFactor_def split: option.split intro: sign_okI sign_ok_fmul)
qed

lemma criticalityFactor_sign: "weights_ok w \<Longrightarrow> sign_ok (f_Value (criticalityFactor w pc))"
  using weights_ok_positive(3) [of w "ctx_Criticality pc"]
  by (auto simp: criticalityFactor_def split: option.split intro: sign_okI)

lemma raiseConfidence_valid: "Confidence_Valid c \<Longrightarrow> Confidence_Valid (fst (raiseConfidence c))"
  by (auto simp: raiseConfidence_def Confidence_Valid_def)

text \<open>The level the table is read at: the finding's own, or one step above it.\<close>

lemma confidence_level_valid: "Confidence_Valid (confidence_level s)"
  using raiseConfidence_valid [of "Conf (rs_Finding s)"] raiseConfidence_valid [of ConfidenceLow]
  by (auto simp: confidence_level_def Let_def Confidence_Valid_def)

lemma confidenceFactor_level:
  assumes "Weights_Validate w = None"
  shows "map_of (w_Confidence w) (confidence_level s) = Some (f_Value (confidenceFactor w s))"
proof -
  obtain v where v: "map_of (w_Confidence w) (confidence_level s) = Some v"
    using Weights_Validate_None(4) [OF assms confidence_level_valid] by blast
  define level where
    "level = (if Confidence_Valid (Conf (rs_Finding s)) then Conf (rs_Finding s) else ConfidenceLow)"
  obtain raised ok where r: "raiseConfidence level = (raised, ok)" by fastforce
  have "\<not> ok \<Longrightarrow> raised = level" using r by (auto simp: raiseConfidence_def split: if_splits)
  then have "f_Value (confidenceFactor w s) = v"
    using v r
    by (cases ok) (auto simp: confidenceFactor_def confidence_level_def Let_def level_def [symmetric]
        split: if_splits)
  with v show ?thesis by simp
qed

lemma confidenceFactor_bounds:
  assumes "weights_ok w"
  shows "\<not> fle (f_Value (confidenceFactor w s)) (Fin 0)" and "\<not> fless (Fin 1) (f_Value (confidenceFactor w s))"
proof -
  have V: "Weights_Validate w = None" using assms by (simp add: weights_ok_def)
  show "\<not> fle (f_Value (confidenceFactor w s)) (Fin 0)" "\<not> fless (Fin 1) (f_Value (confidenceFactor w s))"
    using Weights_Validate_None(4) [OF V confidence_level_valid] confidenceFactor_level [OF V]
    by fastforce+
qed

section \<open>One finding's risk\<close>

lemma scoreOne_dismissed [simp]:
  "s_Dismissed (scoreOne L w s pc) = dismissed (FStatus (rs_Finding s))"
  by (simp add: scoreOne_def Let_def split: prod.split)

lemma scoreOne_live:
  assumes "\<not> dismissed (FStatus (rs_Finding s))"
  shows "s_Value (scoreOne L w s pc) = fmul (fmul (fmul (fmul
    (fst (severityFactor w (fst (effectiveSeverity s)) (snd (effectiveSeverity s)) s))
    (f_Value (exploitabilityFactor L w (Threat (rs_Finding s))))) (f_Value (exposureFactor w pc)))
    (f_Value (criticalityFactor w pc))) (f_Value (confidenceFactor w s))"
  using assms by (simp add: scoreOne_def Let_def split: prod.split)

lemma scoreOne_dead: "dismissed (FStatus (rs_Finding s)) \<Longrightarrow> s_Value (scoreOne L w s pc) = Fin 0"
  by (simp add: scoreOne_def Let_def)

text \<open>A finite risk is a representable number that is not negative.\<close>

lemma scoreOne_risk:
  assumes "weights_ok w" and "Threat_Validate (Threat (rs_Finding s)) = None" and "s_Value (scoreOne L w s pc) = Fin x"
  shows "0 \<le> x" "representable x"
proof -
  show "0 \<le> x"
  proof (cases "dismissed (FStatus (rs_Finding s))")
    case False
    have "sign_ok (s_Value (scoreOne L w s pc))"
      unfolding scoreOne_live [OF False]
      by (intro sign_ok_fmul severityFactor_sign exploitabilityFactor_sign exposureFactor_sign
          criticalityFactor_sign sign_okI [OF confidenceFactor_bounds(1)] assms(1,2))
    then show ?thesis by (simp add: assms(3))
  qed (use assms(3) in \<open>simp add: scoreOne_dead\<close>)
  show "representable x"
    using assms(3) by (cases "dismissed (FStatus (rs_Finding s))") (auto simp: scoreOne_dead scoreOne_live fmul_Fin)
qed

section \<open>The aggregate\<close>

lemma foldl_running_max:
  "foldl (\<lambda>m v. if fless m v then v else m) (Fin a) (map Fin vs) = Fin (Max (insert a (set vs)))"
proof (induction vs arbitrary: a)
  case (Cons v vs)
  have "Max (insert (max a v) (set vs)) = Max (insert a (insert v (set vs)))"
    by (cases "vs = []") (simp_all add: max.assoc)
  moreover have "(if fless (Fin a) (Fin v) then Fin v else Fin a) = Fin (max a v)" by simp
  ultimately show ?case using Cons by (simp only: foldl.simps list.set list.map)
qed simp

lemma aggregate_Fin:
  assumes "vs \<noteq> []"
  shows "fst (aggregate (map Fin vs) lam k) = fadd (Fin (Max (set vs)))
    (fmul lam (fsub (foldl fadd (Fin 0) (map Fin vs)) (Fin (Max (set vs)))))"
proof -
  obtain v vs' where v: "vs = v # vs'" using assms by (cases vs) auto
  have "foldl (\<lambda>m v. if fless m v then v else m) (Fin v) (map Fin vs) = Fin (Max (set vs))"
    using foldl_running_max [of v vs] by (simp add: v)
  then show ?thesis by (simp add: aggregate_def v Let_def)
qed

text \<open>A finite total has been computed from finite risks and a finite tail weight.\<close>

lemma aggregate_finite:
  assumes "fst (aggregate fs lam k) = Fin t" "fs \<noteq> []"
  obtains vs l where "fs = map Fin vs" "lam = Fin l" "t = rtotal l vs" "rsum vs < overflow_limit" "t < overflow_limit"
proof -
  define m where "m = foldl (\<lambda>m v. if fless m v then v else m) (hd fs) fs"
  have "fst (aggregate fs lam k) = fadd m (fmul lam (fsub (foldl fadd (Fin 0) fs) m))"
    using assms(2) by (cases fs) (simp_all add: aggregate_def Let_def m_def)
  with assms(1) have "fadd m (fmul lam (fsub (foldl fadd (Fin 0) fs) m)) = Fin t" by simp
  then obtain S where S: "foldl fadd (Fin 0) fs = Fin S"
    unfolding fadd_Fin fmul_Fin fsub_Fin by blast
  obtain vs where vs: "fs = map Fin vs" "S = rsum vs" "fs \<noteq> [] \<longrightarrow> S < overflow_limit"
    by (rule fsum_Fin [OF S])
  have ne: "vs \<noteq> []" using vs(1) assms(2) by auto
  from assms(1) [unfolded vs(1) aggregate_Fin [OF ne]] S [unfolded vs(1)]
  obtain l where "lam = Fin l" "t = rtotal l vs" "t < overflow_limit"
    using ne by (auto simp: fadd_Fin fmul_Fin fsub_Fin vs(2) rtotal_def)
  then show thesis using vs assms(2) by (intro that [of vs l]) auto
qed

lemma aggregate_computes:
  assumes "risks_ok vs" "vs \<noteq> []" "0 \<le> l" "l \<le> 1" "rsum vs < overflow_limit" "rtotal l vs < overflow_limit"
  shows "fst (aggregate (map Fin vs) (Fin l) k) = Fin (rtotal l vs)"
proof -
  note M = risks_ok_Max [OF assms(1,2)]
  define D where "D = rnd64 (rsum vs - Max (set vs))"
  have D: "0 \<le> D" "D \<le> rsum vs"
    using M rsum_from_representable [of 0 vs] by (auto simp: D_def intro: rnd64_nonneg rnd64_le)
  have "l * D \<le> D" using assms(3,4) D by (simp add: mult_left_le_one_le)
  then have W: "0 \<le> rnd64 (l * D)" "rnd64 (l * D) \<le> D"
    using assms(3) D by (auto simp: D_def intro: rnd64_nonneg rnd64_le)
  have "foldl fadd (Fin 0) (map Fin vs) = Fin (rsum vs)" using assms by (intro fsum_finite) auto
  moreover have "fsub (Fin (rsum vs)) (Fin (Max (set vs))) = Fin D" using D assms(5) by (simp add: fsub_Fin D_def)
  moreover have "fmul (Fin l) (Fin D) = Fin (rnd64 (l * D))" using D W assms(5) by (simp only: fmul_Fin) auto
  moreover have "fadd (Fin (Max (set vs))) (Fin (rnd64 (l * D))) = Fin (rtotal l vs)"
    using assms(2,6) rtotal_nonneg [OF assms(3,1)] by (simp only: fadd_Fin) (auto simp: rtotal_def D_def)
  ultimately show ?thesis by (simp add: aggregate_Fin [OF assms(2)])
qed

lemma aggregate_score:
  "snd (aggregate fs lam k) = (if fs = [] then 0 else clamp_score (saturation (fst (aggregate fs lam k)) k))"
  by (simp add: aggregate_def saturation_def Let_def split: list.split)

lemma clamp_score_range: "0 \<le> clamp_score v" "clamp_score v \<le> 100"
  by (cases v; simp)+

lemma clamp_saturation:
  assumes "0 \<le> t" "0 < k"
  shows "clamp_score (saturation (Fin t) (Fin k)) = score_from_exp (decay t k)"
  using score_from_exp(2,3) [OF decay_range [OF assms]] by (simp add: saturation_finite [OF assms])

lemma clamp_saturation_mono:
  assumes "0 \<le> s" "s \<le> t" "\<not> fle k (Fin 0)"
  shows "clamp_score (saturation (Fin s) k) \<le> clamp_score (saturation (Fin t) k)"
proof (cases k)
  case (Fin x)
  with assms show ?thesis by (simp add: clamp_saturation score_from_exp_antimono decay_antimono)
qed (use assms in \<open>simp_all add: saturation_def fle_def\<close>)

section \<open>The project's assessment\<close>

lemma assess_live:
  "map s_Value (filter (\<lambda>sc. \<not> s_Dismissed sc) (map (\<lambda>s. scoreOne L w s pc) ss)) = live_risks L w pc ss"
  by (induction ss) (auto simp: live_subjects_def live_risks_def)

lemma live_risks_empty [simp]: "live_risks L w pc ss = [] \<longleftrightarrow> live_subjects ss = []"
  by (simp add: live_risks_def)

lemma assess_simps:
  "a_Total (assess L ss pc w) = fst (aggregate (live_risks L w pc ss) (w_TailWeight w) (w_Saturation w))"
  "a_Score (assess L ss pc w) = (if live_subjects ss = [] then 0
     else clamp_score (saturation (a_Total (assess L ss pc w)) (w_Saturation w)))"
  "a_Findings (assess L ss pc w) = map (\<lambda>s. scoreOne L w s pc) ss"
  "a_Live (assess L ss pc w) = length (live_subjects ss)"
  "a_Dismissed (assess L ss pc w) = length ss - length (live_subjects ss)"
proof -
  define vs where "vs = live_risks L w pc ss"
  define ag where "ag = aggregate vs (w_TailWeight w) (w_Saturation w)"
  have A: "assess L ss pc w = \<lparr>a_Score = snd ag, a_Total = fst ag,
      a_Findings = map (\<lambda>s. scoreOne L w s pc) ss,
      a_Live = length (filter (\<lambda>sc. \<not> s_Dismissed sc) (map (\<lambda>s. scoreOne L w s pc) ss)),
      a_Dismissed = length (filter s_Dismissed (map (\<lambda>s. scoreOne L w s pc) ss))\<rparr>"
    unfolding assess_def Let_def assess_live vs_def [symmetric] ag_def [symmetric]
    by (cases ag) simp
  show T: "a_Total (assess L ss pc w) = fst (aggregate (live_risks L w pc ss) (w_TailWeight w) (w_Saturation w))"
    by (simp add: A ag_def vs_def)
  show "a_Score (assess L ss pc w) = (if live_subjects ss = [] then 0
     else clamp_score (saturation (a_Total (assess L ss pc w)) (w_Saturation w)))"
    by (simp add: T) (simp add: A ag_def aggregate_score vs_def)
  show "a_Live (assess L ss pc w) = length (live_subjects ss)"
    using arg_cong [OF assess_live, of length] by (simp add: A live_risks_def)
  have "length (filter s_Dismissed (map (\<lambda>s. scoreOne L w s pc) ss)) + length (live_subjects ss) = length ss"
    by (induction ss) (auto simp: live_subjects_def)
  then show "a_Dismissed (assess L ss pc w) = length ss - length (live_subjects ss)"
    by (simp add: A)
qed (simp add: assess_def Let_def split: prod.split)

lemma assess_score_range: "0 \<le> a_Score (assess L ss pc w)" "a_Score (assess L ss pc w) \<le> 100"
  by (simp_all add: assess_simps(2) clamp_score_range)

lemma live_risks_ok:
  assumes "weights_ok w" "threats_ok ss" "live_risks L w pc ss = map Fin vs"
  shows "risks_ok vs"
  unfolding risks_ok_def
proof
  fix v assume "v \<in> set vs"
  then have "Fin v \<in> set (live_risks L w pc ss)" by (simp add: assms(3))
  then obtain s where s: "s \<in> set ss" "s_Value (scoreOne L w s pc) = Fin v"
    by (auto simp: live_risks_def live_subjects_def)
  have "Threat_Validate (Threat (rs_Finding s)) = None" using assms(2) s(1) by (simp add: list_all_iff)
  from scoreOne_risk [OF assms(1) this s(2)] show "0 \<le> v \<and> representable v" by blast
qed

text \<open>What a finite total rests on.\<close>

lemma finite_total:
  assumes "weights_ok w" "threats_ok ss" "a_Total (assess L ss pc w) = Fin t"
  obtains vs l where "live_risks L w pc ss = map Fin vs" "risks_ok vs" "t = rtotal l vs" "0 \<le> l" "l \<le> 1"
    "rsum vs < overflow_limit" "t < overflow_limit" "vs \<noteq> [] \<longrightarrow> w_TailWeight w = Fin l"
proof (cases "live_subjects ss = []")
  case True
  then have "live_risks L w pc ss = map Fin []" "t = rtotal 0 []"
    using assms(3) by (simp_all add: live_risks_def assess_simps(1) aggregate_def rtotal_def)
  moreover have "0 < overflow_limit" by (rule less_trans [OF _ overflow_limit_gt]) simp
  ultimately show thesis by (intro that [of "[]" 0]) (simp_all add: rtotal_def)
next
  case False
  have "live_risks L w pc ss \<noteq> []" using False by simp
  with assms(3) obtain vs l where v: "live_risks L w pc ss = map Fin vs" "w_TailWeight w = Fin l" "t = rtotal l vs"
    "rsum vs < overflow_limit" "t < overflow_limit"
    unfolding assess_simps(1) by (elim aggregate_finite)
  moreover have "0 \<le> l" "l \<le> 1" using weights_ok_scalars(3,4) [OF assms(1)] v(2) by (simp_all add: not_less)
  ultimately show thesis using live_risks_ok [OF assms(1,2)] by (intro that) auto
qed

lemma subseq_map_split:
  assumes "subseq xs (map f ys)" obtains zs where "xs = map f zs" "subseq zs ys"
  using assms by (auto simp: subseq_conv_nths nths_map)

lemma live_risks_subseq: "subseq rs ss \<Longrightarrow> subseq (live_risks L w pc rs) (live_risks L w pc ss)"
  unfolding live_risks_def live_subjects_def by (intro subseq_map subseq_filter)

lemma length_live_risks: "length (live_risks L w pc ss) \<le> length ss"
  by (simp add: live_risks_def live_subjects_def)

lemma assess_mono:
  assumes "weights_ok w" "threats_ok ss" "subseq rs ss" "length ss \<le> 2 ^ 24"
    and t: "a_Total (assess L ss pc w) = Fin t"
  obtains r where "a_Total (assess L rs pc w) = Fin r" "r \<le> t" "a_Score (assess L rs pc w) \<le> a_Score (assess L ss pc w)"
proof -
  obtain vs l where v: "live_risks L w pc ss = map Fin vs" "risks_ok vs" "t = rtotal l vs" "0 \<le> l" "l \<le> 1"
    "rsum vs < overflow_limit" "t < overflow_limit" "vs \<noteq> [] \<longrightarrow> w_TailWeight w = Fin l"
    by (rule finite_total [OF assms(1,2) t])
  obtain us where u: "live_risks L w pc rs = map Fin us" "subseq us vs"
    using live_risks_subseq [OF assms(3), of L w pc] by (auto simp: v(1) elim: subseq_map_split)
  have "length vs \<le> 2 ^ 24" using length_live_risks [of L w pc ss] assms(4) by (simp add: v(1))
  then have ut: "rtotal l us \<le> t" unfolding v(3) by (rule rtotal_subseq [OF u(2) v(4,5,2)])
  have uok: "risks_ok us" by (rule risks_ok_subseq [OF u(2) v(2)])
  have us: "rsum us < overflow_limit" using rsum_subseq [OF u(2) v(2)] v(6) by linarith
  have T: "a_Total (assess L rs pc w) = Fin (rtotal l us)"
  proof (cases "us = []")
    case True
    then show ?thesis by (simp add: assess_simps(1) u(1) aggregate_def rtotal_def)
  next
    case False
    then have "vs \<noteq> []" using u(2) by auto
    with v(8) have "w_TailWeight w = Fin l" by blast
    then show ?thesis
      using aggregate_computes [OF uok False v(4,5) us] ut v(7) by (simp add: assess_simps(1) u(1))
  qed
  have "a_Score (assess L rs pc w) \<le> a_Score (assess L ss pc w)"
  proof (cases "live_subjects rs = []")
    case True
    have "a_Score (assess L rs pc w) = 0" using True by (simp add: assess_simps(2))
    then show ?thesis using assess_score_range(1) by metis
  next
    case False
    then have "live_risks L w pc ss \<noteq> []"
      using live_risks_subseq [OF assms(3), of L w pc] by (metis live_risks_empty list_emb_Nil2)
    then have "live_subjects ss \<noteq> []" by simp
    with False show ?thesis
      using clamp_saturation_mono [OF rtotal_nonneg [OF v(4) uok] ut weights_ok_scalars(5) [OF assms(1)]]
      by (simp add: assess_simps(2) T t)
  qed
  with T ut show thesis by (rule that)
qed

section \<open>The default weights\<close>

text \<open>A finite value bounded_by bounds, and what the operations make of such values.\<close>

definition bounded_by :: "real \<Rightarrow> float64 \<Rightarrow> bool" where
  "bounded_by b v \<longleftrightarrow> (\<exists>x. v = Fin x \<and> 0 \<le> x \<and> x \<le> b)"

lemma bounded_by_lit: "0 \<le> x \<Longrightarrow> x \<le> b \<Longrightarrow> representable b \<Longrightarrow> bounded_by b (lit x)"
  by (simp add: bounded_by_def rnd64_nonneg rnd64_le)

lemma below_limit: "0 \<le> x \<Longrightarrow> x \<le> 2 ^ 53 \<Longrightarrow> \<bar>rnd64 x\<bar> < overflow_limit"
  by (rule rnd64_below_limit) simp

lemma bounded_by_fmul:
  assumes "bounded_by a v" "bounded_by b u" "representable (a * b)" "a * b \<le> 2 ^ 53"
  shows "bounded_by (a * b) (fmul v u)"
proof -
  obtain x y where x: "v = Fin x" "0 \<le> x" "x \<le> a" and y: "u = Fin y" "0 \<le> y" "y \<le> b"
    using assms(1,2) by (auto simp: bounded_by_def)
  have xy: "0 \<le> x * y" "x * y \<le> a * b" using x y by (auto intro: mult_mono)
  then have "fmul v u = Fin (rnd64 (x * y))" using assms(4) by (simp add: x(1) y(1) float_of_small below_limit)
  with xy show ?thesis using assms(3) by (auto simp: bounded_by_def rnd64_nonneg rnd64_le)
qed

lemma bounded_by_fadd:
  assumes "bounded_by a v" "bounded_by b u" "representable (a + b)" "a + b \<le> 2 ^ 53"
  shows "bounded_by (a + b) (fadd v u)"
proof -
  obtain x y where x: "v = Fin x" "0 \<le> x" "x \<le> a" and y: "u = Fin y" "0 \<le> y" "y \<le> b"
    using assms(1,2) by (auto simp: bounded_by_def)
  then have xy: "0 \<le> x + y" "x + y \<le> a + b" by auto
  then have "fadd v u = Fin (rnd64 (x + y))" using assms(4) by (simp add: x(1) y(1) float_of_small below_limit)
  with xy show ?thesis using assms(3) by (auto simp: bounded_by_def rnd64_nonneg rnd64_le)
qed

lemma fmul_bounded_mono:
  assumes "bounded_by a v" "bounded_by a v'" "bounded_by b u" "bounded_by b u'" "fle v v'" "fle u u'"
    and "representable (a * b)" "a * b \<le> 2 ^ 53"
  shows "fle (fmul v u) (fmul v' u')" "bounded_by (a * b) (fmul v u)" "bounded_by (a * b) (fmul v' u')"
proof -
  show "fle (fmul v u) (fmul v' u')"
    using assms(1-6) by (auto simp: bounded_by_def intro!: fle_float_of mult_mono)
qed (intro bounded_by_fmul assms)+

lemma default_tables:
  "map_of (w_Severity DefaultWeights) k = Some v \<Longrightarrow> bounded_by 100 v"
  "map_of (w_Environment DefaultWeights) k = Some v \<Longrightarrow> bounded_by 1 v"
  "map_of (w_Criticality DefaultWeights) k = Some v \<Longrightarrow> bounded_by 2 v"
  "map_of (w_Confidence DefaultWeights) k = Some v \<Longrightarrow> bounded_by 1 v"
  by (auto simp: DefaultWeights_def simp del: of_int_numeral split: if_splits intro!: bounded_by_lit;
      simp add: bounded_by_def)+

lemma default_factors:
  assumes "Threat_Validate t = None"
  shows "bounded_by 100 (fst (severityFactor DefaultWeights sev esc s))"
    and "bounded_by 2 (f_Value (exploitabilityFactor L DefaultWeights t))"
    and "bounded_by 2 (f_Value (exposureFactor DefaultWeights pc))"
    and "bounded_by 2 (f_Value (criticalityFactor DefaultWeights pc))"
    and "bounded_by 1 (f_Value (confidenceFactor DefaultWeights s))"
proof -
  have "map_of (w_Severity DefaultWeights) SeverityUnknown = Some (lit 5)" by (simp add: DefaultWeights_def)
  then have "bounded_by 100 (weight_of (w_Severity DefaultWeights) SeverityUnknown)"
    by (simp add: weight_of_def bounded_by_def)
  then show "bounded_by 100 (fst (severityFactor DefaultWeights sev esc s))"
    using default_tables(1) by (auto simp: severityFactor_def split: option.split)
  have one: "bounded_by 2 (Fin 1)" "bounded_by 1 (Fin 1)" by (simp_all add: bounded_by_def)
  have "bounded_by 1 (w_ExploitabilityFloor DefaultWeights)"
    unfolding DefaultWeights_def by (simp only: Weights.select_convs) (rule bounded_by_lit, simp_all)
  then have "bounded_by (1 + 1) (fadd (w_ExploitabilityFloor DefaultWeights) (Fin p))" if "0 \<le> p" "p \<le> 1" for p
    using that by (intro bounded_by_fadd) (auto simp: bounded_by_def)
  then show "bounded_by 2 (f_Value (exploitabilityFactor L DefaultWeights t))"
    using Threat_Validate_percentile [OF assms] one by (auto simp: exploitabilityFactor_def split: option.split)
  have "bounded_by 2 (w_InternetFacing DefaultWeights)"
    unfolding DefaultWeights_def by (simp only: Weights.select_convs) (rule bounded_by_lit, simp_all)
  then have "bounded_by (1 * 2) (fmul v (w_InternetFacing DefaultWeights))" if "bounded_by 1 v" for v
    using that by (intro bounded_by_fmul) auto
  moreover have "bounded_by 2 v" if "bounded_by 1 v" for v using that by (auto simp: bounded_by_def)
  ultimately show "bounded_by 2 (f_Value (exposureFactor DefaultWeights pc))"
    using default_tables(2) [of "ctx_Environment pc"] one
    by (auto simp: exposureFactor_def split: option.split)
  show "bounded_by 2 (f_Value (criticalityFactor DefaultWeights pc))"
    using default_tables(3) one by (auto simp: criticalityFactor_def split: option.split)
  have V: "Weights_Validate DefaultWeights = None" using DefaultWeights_ok by (simp add: weights_ok_def)
  show "bounded_by 1 (f_Value (confidenceFactor DefaultWeights s))"
    by (rule default_tables(4) [OF confidenceFactor_level [OF V]])
qed

lemma default_risk_bound:
  assumes "Threat_Validate (Threat (rs_Finding s)) = None"
  shows "bounded_by 800 (s_Value (scoreOne L DefaultWeights s pc))"
proof (cases "dismissed (FStatus (rs_Finding s))")
  case False
  note f = default_factors [OF assms]
  have "bounded_by (100 * 2 * 2 * 2 * 1) (s_Value (scoreOne L DefaultWeights s pc))"
    unfolding scoreOne_live [OF False] by (intro bounded_by_fmul f) simp_all
  then show ?thesis by simp
qed (simp add: scoreOne_dead bounded_by_def)

text \<open>Under the default weights the total is finite.\<close>

lemma default_total_finite:
  assumes "threats_ok ss" "length ss \<le> 2 ^ 24"
  shows "is_finite (a_Total (assess L ss pc DefaultWeights))"
proof (cases "live_subjects ss = []")
  case True
  then show ?thesis by (simp add: assess_simps(1) live_risks_def aggregate_def)
next
  case False
  have w: "\<forall>v \<in> set (live_risks L DefaultWeights pc ss). bounded_by 800 v"
    using assms(1) default_risk_bound by (auto simp: live_risks_def live_subjects_def list_all_iff)
  then have "\<forall>v \<in> set (live_risks L DefaultWeights pc ss). \<exists>x. v = Fin x" by (auto simp: bounded_by_def)
  then obtain vs where vs: "live_risks L DefaultWeights pc ss = map Fin vs" unfolding ex_map_conv [symmetric] by blast
  have ok: "risks_ok vs" by (rule live_risks_ok [OF DefaultWeights_ok assms(1) vs])
  have ne: "vs \<noteq> []" using False vs by (metis live_risks_empty list.map_disc_iff)
  have len: "length vs \<le> 2 ^ 24" using length_live_risks [of L DefaultWeights pc ss] assms(2) by (simp add: vs)
  have le: "v \<le> 2 ^ 10" if "v \<in> set vs" for v using w that by (auto simp: vs bounded_by_def)
  have S: "rsum vs \<le> 2 ^ 35" by (rule rsum_bounded [OF ok len le])
  define l where "l = rnd64 (15 / 100)"
  have l: "0 \<le> l" "l \<le> 1" by (auto simp: l_def intro: rnd64_nonneg rnd64_le)
  have "Max (set vs) + rsum vs \<le> 2 ^ 53" using S risks_ok_Max(3) [OF ok ne] by simp
  then have "rnd64 (Max (set vs) + rsum vs) \<le> 2 ^ 53"
    using representable_of_int [of "2 ^ 53"] by (intro rnd64_le) simp_all
  then have "rtotal l vs < overflow_limit" using rtotal_le_sum [OF l ok ne] overflow_limit_gt by linarith
  moreover have "rsum vs < overflow_limit"
    using S by (rule le_less_trans) (rule less_trans [OF _ overflow_limit_gt], simp)
  ultimately have "fst (aggregate (map Fin vs) (Fin l) (w_Saturation DefaultWeights)) = Fin (rtotal l vs)"
    by (intro aggregate_computes ok ne l)
  moreover have "w_TailWeight DefaultWeights = Fin l" by (simp add: DefaultWeights_def l_def)
  ultimately show ?thesis by (simp add: assess_simps(1) vs)
qed

section \<open>Escalation and corroboration under the default weights\<close>

lemma severityFactor_weight: "fst (severityFactor w sev esc s) = severity_weight w sev"
  by (simp add: severityFactor_def severity_weight_def split: option.split)

lemma effectiveSeverity_rank:
  "Severity_Rank (fst (effectiveSeverity s)) =
     (if Severity_Valid (rs_IssueSeverity s)
      then max (Severity_Rank (Sev (rs_Finding s))) (Severity_Rank (rs_IssueSeverity s))
      else Severity_Rank (Sev (rs_Finding s)))"
  by (auto simp: effectiveSeverity_def Severity_Valid_def)

lemma effectiveSeverity_valid:
  "Severity_Valid (Sev (rs_Finding s)) \<Longrightarrow> Severity_Valid (fst (effectiveSeverity s))"
  by (simp add: effectiveSeverity_def)

lemma default_severity_mono:
  assumes "Severity_Valid a" "Severity_Valid b" "Severity_Rank a \<le> Severity_Rank b"
  shows "fle (severity_weight DefaultWeights a) (severity_weight DefaultWeights b)"
proof -
  have "rnd64 (1 / 20) \<le> 1" by (intro rnd64_le) simp_all
  moreover from this have "rnd64 (1 / 20) \<le> 5" "rnd64 (1 / 20) \<le> 8" "rnd64 (1 / 20) \<le> 30" "rnd64 (1 / 20) \<le> 100"
    by linarith+
  ultimately show ?thesis
    using assms
    by (auto simp: Severity_Valid_def severity_weight_def DefaultWeights_def Severity_Rank_def split: if_splits)
qed

lemma default_confidence_mono:
  assumes "c = d \<or> d = fst (raiseConfidence c)" "Confidence_Valid c"
    "map_of (w_Confidence DefaultWeights) c = Some v" "map_of (w_Confidence DefaultWeights) d = Some u"
  shows "fle v u"
proof -
  have "rnd64 (1 / 2) \<le> rnd64 (3 / 4)" "rnd64 (3 / 4) \<le> 1" by (auto intro: rnd64_mono rnd64_le)
  then show ?thesis
    using assms by (auto simp: Confidence_Valid_def raiseConfidence_def DefaultWeights_def)
qed

lemma fle_refl_bounded: "bounded_by b v \<Longrightarrow> fle v v"
  by (auto simp: bounded_by_def)

lemma scoreOne_mono:
  assumes t: "Threat_Validate (Threat (rs_Finding s)) = None" and f: "rs_Finding s' = rs_Finding s"
    and sev: "fle (severity_weight DefaultWeights (fst (effectiveSeverity s)))
      (severity_weight DefaultWeights (fst (effectiveSeverity s')))"
    and conf: "fle (f_Value (confidenceFactor DefaultWeights s)) (f_Value (confidenceFactor DefaultWeights s'))"
  shows "fle (s_Value (scoreOne L DefaultWeights s pc)) (s_Value (scoreOne L DefaultWeights s' pc))"
proof (cases "dismissed (FStatus (rs_Finding s))")
  case False
  have F: "\<not> dismissed (FStatus (rs_Finding s'))" using False f by simp
  have t': "Threat_Validate (Threat (rs_Finding s')) = None" using t f by simp
  note f1 = default_factors [OF t] and f2 = default_factors [OF t']
  note r = fle_refl_bounded
  have s0: "fle (fst (severityFactor DefaultWeights sev esc s)) (fst (severityFactor DefaultWeights sev' esc' s'))"
    if "fle (severity_weight DefaultWeights sev) (severity_weight DefaultWeights sev')" for sev sev' esc esc'
    using that by (simp add: severityFactor_weight)
  note m1 = fmul_bounded_mono [OF f1(1) f2(1) f1(2) f1(2) s0 [OF sev] r [OF f1(2)]]
  note m2 = fmul_bounded_mono [OF m1(2,3) f1(3) f1(3) m1(1) r [OF f1(3)]]
  note m3 = fmul_bounded_mono [OF m2(2,3) f1(4) f1(4) m2(1) r [OF f1(4)]]
  note m4 = fmul_bounded_mono(1) [OF m3(2,3) f1(5) f2(5) m3(1) conf]
  show ?thesis unfolding scoreOne_live [OF False] scoreOne_live [OF F] f by (rule m4) simp_all
qed (use f in \<open>simp add: scoreOne_dead\<close>)

lemma distinct_sources_card: "length (distinct_sources a) = card (set a - {[]})"
proof -
  have "set (distinct_sources a) = set a - {[]}" by (auto simp: distinct_sources_def)
  moreover have "distinct (distinct_sources a)" by (simp add: distinct_sources_def)
  ultimately show ?thesis using distinct_card by metis
qed

lemma distinct_sources_mono:
  "set a \<subseteq> set b \<Longrightarrow> length (distinct_sources a) \<le> length (distinct_sources b)"
  unfolding distinct_sources_card by (intro card_mono) auto

lemma digest_section_perm:
  assumes "distinct (map fst a)" "mset a = mset b"
  shows "digest_section L n a (map_range cs (map fst a)) = digest_section L n b (map_range ds (map fst b))"
proof -
  have "distinct (map fst b)" using assms by (metis mset_eq_imp_distinct_iff mset_map)
  then have "map_of a = map_of b" using assms by (metis map_of_inject_set set_mset_mset)
  moreover have "mset (map fst a) = mset (map fst b)" using assms(2) by simp
  then have "sort (map fst a) = sort (map fst b)" by (metis sorted_list_of_multiset_mset)
  ultimately show ?thesis by (simp add: digest_section_def)
qed

section \<open>The interface the other engines use\<close>

text \<open>
  A scorer of a list of findings on a scale of 0 to 100. What its clients rely on: a finding that
  goes away never makes the score worse, in the lists that are \<open>ok\<close>.
\<close>

locale risk_engine =
  fixes ok :: "'s list \<Rightarrow> bool" and score :: "'s list \<Rightarrow> real"
  assumes score_range: "0 \<le> score ss" "score ss \<le> 100"
    and score_subseq: "ok ss \<Longrightarrow> subseq rs ss \<Longrightarrow> score rs \<le> score ss"
begin

lemma removal_range:
  assumes "ok ss"
  shows "0 \<le> rnd64 (score ss - score (filter P ss))" "rnd64 (score ss - score (filter P ss)) \<le> 100"
proof -
  have "0 \<le> score ss - score (filter P ss)" using score_subseq [OF assms, of "filter P ss"] by simp
  then show "0 \<le> rnd64 (score ss - score (filter P ss))" by (rule rnd64_nonneg)
  have "score ss - score (filter P ss) \<le> 100"
    using score_range(1) [of "filter P ss"] score_range(2) [of ss] by linarith
  then show "rnd64 (score ss - score (filter P ss)) \<le> 100" by (intro rnd64_le) simp_all
qed

text \<open>Removing more never removes less risk.\<close>

lemma removal_mono:
  assumes "ok (filter P ss)" "\<And>s. Q s \<Longrightarrow> P s"
  shows "rnd64 (score ss - score (filter P ss)) \<le> rnd64 (score ss - score (filter Q ss))"
proof -
  have "filter Q ss = filter Q (filter P ss)" using assms(2) by (simp add: conj_commute) (metis filter_cong)
  then have "subseq (filter Q ss) (filter P ss)" by (metis subseq_filter_left)
  then have "score (filter Q ss) \<le> score (filter P ss)" by (rule score_subseq [OF assms(1)])
  then show ?thesis by (intro rnd64_mono) simp
qed

end

interpretation default_risk: risk_engine "\<lambda>ss. threats_ok ss \<and> length ss \<le> 2 ^ 24" "\<lambda>ss. a_Score (Assess L ss pc)"
  for L :: golib and pc :: RiskContext
proof unfold_locales
  fix rs ss :: "RiskSubject list"
  assume ok: "threats_ok ss \<and> length ss \<le> 2 ^ 24" and sub: "subseq rs ss"
  then obtain t where "a_Total (assess L ss pc DefaultWeights) = Fin t"
    using default_total_finite by (metis is_finite.elims(2))
  with ok sub show "a_Score (Assess L rs pc) \<le> a_Score (Assess L ss pc)"
    unfolding Assess_def by (metis assess_mono DefaultWeights_ok)
qed (simp_all add: Assess_def assess_score_range)

section \<open>Where the guarantees end\<close>

text \<open>
  \<open>Validate\<close> accepts an infinite weight. Such a weight makes the total NaN, which the clamp turns
  into the score 0: the worst severity then scores as if there were no finding at all.
\<close>

definition infinite_weights :: Weights where
  "infinite_weights = DefaultWeights\<lparr>w_Severity := (SeverityCritical, PosInf) # w_Severity DefaultWeights\<rparr>"

lemma infinite_weight_scores_zero:
  "weights_ok infinite_weights \<and>
   a_Total (assess sample_lib [sample_subject SeverityCritical StatusOpen] sample_context infinite_weights) = NaN \<and>
   a_Score (assess sample_lib [sample_subject SeverityCritical StatusOpen] sample_context infinite_weights) = 0"
proof -
  have V: "weights_ok infinite_weights"
    using default_literals
    by (auto simp: weights_ok_def known_keys_def Weights_Validate_def first_error_None infinite_weights_def
        check_table.simps DefaultWeights_def Severity_Valid_def Environments_def Criticalities_def fle_def)
  let ?s = "sample_subject SeverityCritical StatusOpen"
  have live: "\<not> dismissed (FStatus (rs_Finding ?s))" by (simp add: sample_subject_def dismissed_def)
  have sev: "fst (severityFactor infinite_weights (fst (effectiveSeverity ?s)) (snd (effectiveSeverity ?s)) ?s) = PosInf"
    by (simp add: severityFactor_def effectiveSeverity_def sample_subject_def infinite_weights_def)
  have inf: "fmul PosInf v = PosInf" if "\<not> fle v (Fin 0)" "v \<noteq> NaN" for v
    using that by (cases v) (auto simp: fle_def sgn_if)
  have pos: "0 < rnd64 (15 / 10)" "0 < rnd64 (12 / 10)" using default_literals by simp_all
  have e: "f_Value (exploitabilityFactor sample_lib infinite_weights (Threat (rs_Finding ?s))) = Fin 1"
    by (simp add: exploitabilityFactor_def sample_subject_def zero_Finding_def)
  have x: "f_Value (exposureFactor infinite_weights sample_context) = float_of (1 * rnd64 (15 / 10))"
    by (simp add: exposureFactor_def infinite_weights_def DefaultWeights_def sample_context_def)
  have "rnd64 (15 / 10) \<le> 2" by (intro rnd64_le) simp_all
  then have x: "f_Value (exposureFactor infinite_weights sample_context) = Fin (rnd64 (15 / 10))"
    using pos below_limit [of "rnd64 (15 / 10)"] unfolding x by (subst float_of_small) auto
  have c: "f_Value (criticalityFactor infinite_weights sample_context) = Fin (rnd64 (12 / 10))"
    by (simp add: criticalityFactor_def infinite_weights_def DefaultWeights_def sample_context_def)
  have f: "f_Value (confidenceFactor infinite_weights ?s) = Fin 1"
    by (simp add: confidenceFactor_def infinite_weights_def DefaultWeights_def sample_subject_def
        distinct_sources_def zero_Finding_def Confidence_Valid_def)
  have "s_Value (scoreOne sample_lib infinite_weights ?s sample_context) = PosInf"
    unfolding scoreOne_live [OF live] sev e x c f using pos by (simp add: inf fle_def)
  then have r: "live_risks sample_lib infinite_weights sample_context [?s] = [PosInf]"
    using live by (simp add: live_risks_def live_subjects_def)
  have "w_TailWeight infinite_weights = lit (15 / 100)" by (simp add: infinite_weights_def DefaultWeights_def)
  then have T: "a_Total (assess sample_lib [?s] sample_context infinite_weights) = NaN"
    by (simp add: assess_simps(1) r aggregate_def Let_def fsub_def)
  moreover have "live_subjects [?s] \<noteq> []" using live by (simp add: live_subjects_def)
  ultimately show ?thesis using V by (simp add: assess_simps(2) saturation_def fsub_def)
qed

text \<open>
  The order of the findings can move the total by a rounding error: with the tail weight 1, which is
  valid, the same three risks add up differently.
\<close>

lemma order_moves_the_total:
  "fst (aggregate [Fin 1, Fin (1 / 2 ^ 53), Fin (1 / 2 ^ 53)] (Fin 1) k) = Fin 1 \<and>
   fst (aggregate [Fin (1 / 2 ^ 53), Fin (1 / 2 ^ 53), Fin 1] (Fin 1) k) = Fin (1 + 1 / 2 ^ 52)"
proof -
  define e :: real where "e = 1 / 2 ^ 53"
  have e: "0 < e" "e < 1 / 4" by (simp_all add: e_def)
  have r: "round_half_even (4503599627370496 + 1 / 2) = 4503599627370496"
    unfolding round_half_even_def Let_def by simp
  have one: "rnd64 (1 + e) = 1" using rnd64_at [of 52 "4503599627370496 + 1 / 2"] r by (simp add: e_def field_simps)
  have ee: "representable (e + e)" "representable e"
    using representable_dyadic [of 1 52] representable_dyadic [of 1 53] by (simp_all add: e_def)
  have two: "representable (1 + (e + e))" using representable_dyadic [of "2 ^ 52 + 1" 52] by (simp add: e_def field_simps)
  have keep: "float_of x = Fin x" if "representable x" "0 \<le> x" "x \<le> 2" for x
    using that float_of_small [OF below_limit [of x]] by simp
  have "float_of (1 + e) = Fin (rnd64 (1 + e))" using e by (intro float_of_small below_limit) auto
  then have f: "float_of (1 + e) = Fin 1" by (simp only: one)
  note r2 = ee(1) [folded mult_2] two [folded mult_2]
  have f': "float_of 1 = Fin 1" "float_of e = Fin e" "float_of 0 = Fin 0"
    "float_of (2 * e) = Fin (2 * e)" "float_of (1 + 2 * e) = Fin (1 + 2 * e)"
    using e by (auto intro: keep [OF ee(2)] keep [OF r2(1)] keep [OF r2(2)] keep)
  have f2: "float_of (2 * e + 1) = Fin (1 + 2 * e)" using f'(5) by (simp only: add.commute)
  have m: "foldl (\<lambda>m v. if fless m v then v else m) (Fin 1) [Fin 1, Fin e, Fin e] = Fin 1"
    "foldl (\<lambda>m v. if fless m v then v else m) (Fin e) [Fin e, Fin e, Fin 1] = Fin 1" using e by simp_all
  have "fst (aggregate [Fin 1, Fin e, Fin e] (Fin 1) k) = Fin 1"
    using m(1) by (simp add: aggregate_def Let_def fsub_def f f')
  moreover have "fst (aggregate [Fin e, Fin e, Fin 1] (Fin 1) k) = Fin (1 + (e + e))"
    using m(2) by (simp add: aggregate_def Let_def fsub_def f' f2)
  moreover have "1 + (e + e) = 1 + 1 / 2 ^ 52" by (simp add: e_def)
  ultimately show ?thesis unfolding e_def by simp
qed

section \<open>Properties\<close>





text \<open>
  A dismissed finding moves neither the total nor the score: they are those of the live findings
  alone, while every finding keeps its entry and is counted as live or as dismissed.
\<close>

theorem assess_ignores_dismissed:
  "a_Total (assess L ss pc w) = a_Total (assess L (live_subjects ss) pc w) \<and>
    a_Score (assess L ss pc w) = a_Score (assess L (live_subjects ss) pc w) \<and>
    a_Live (assess L ss pc w) + a_Dismissed (assess L ss pc w) = length ss \<and>
    map s_Fingerprint (a_Findings (assess L ss pc w)) = map (\<lambda>s. Fingerprint (rs_Finding s)) ss"
proof -
  have "live_subjects (live_subjects ss) = live_subjects ss" by (simp add: live_subjects_def)
  moreover from this have "live_risks L w pc (live_subjects ss) = live_risks L w pc ss"
    by (simp add: live_risks_def)
  moreover have "length (live_subjects ss) \<le> length ss" by (simp add: live_subjects_def)
  ultimately show ?thesis
    by (simp add: assess_simps) (simp add: scoreOne_def Let_def split: prod.split)
qed

text \<open>
  The worst finding sets the floor. A finite total is at least every single live risk.
\<close>

theorem total_at_least_every_risk:
  assumes "weights_ok w" "threats_ok ss" "s \<in> set (live_subjects ss)" "is_finite (a_Total (assess L ss pc w))"
  shows "fle (s_Value (scoreOne L w s pc)) (a_Total (assess L ss pc w))"
proof -
  obtain t where t: "a_Total (assess L ss pc w) = Fin t" using assms(4) by (metis is_finite.elims(2))
  obtain vs l where v: "live_risks L w pc ss = map Fin vs" "risks_ok vs" "t = rtotal l vs" "0 \<le> l"
    by (rule finite_total [OF assms(1,2) t])
  have "s_Value (scoreOne L w s pc) \<in> set (map Fin vs)" using assms(3) unfolding v(1) [symmetric] by (simp add: live_risks_def)
  then obtain x where x: "s_Value (scoreOne L w s pc) = Fin x" "x \<in> set vs" by auto
  have "x \<le> Max (set vs)" using x(2) by simp
  also have "\<dots> \<le> t" unfolding v(3) using x(2) by (intro rtotal_ge_Max v(2,4)) auto
  finally show ?thesis by (simp add: x(1) t)
qed

theorem total_at_least_every_risk_witness:
  "fle (s_Value (scoreOne sample_lib DefaultWeights (sample_subject SeverityHigh StatusOpen) sample_context))
   (a_Total (assess sample_lib [sample_subject SeverityHigh StatusOpen, sample_subject SeverityLow StatusOpen]
     sample_context DefaultWeights))"
proof -
  let ?ss = "[sample_subject SeverityHigh StatusOpen, sample_subject SeverityLow StatusOpen]"
  have "threats_ok ?ss" "length ?ss \<le> 2 ^ 24"
    by (simp_all add: sample_subject_def zero_Finding_def Threat_Validate_def)
  moreover have "sample_subject SeverityHigh StatusOpen \<in> set (live_subjects ?ss)"
    by (simp add: live_subjects_def sample_subject_def dismissed_def)
  ultimately show ?thesis using total_at_least_every_risk [OF DefaultWeights_ok] default_total_finite by blast
qed

text \<open>
  Correlation may raise a finding's severity, never lower it. The severity a finding is scored
  at ranks at least as high as its own and as a recognised issue severity, and under the default
  weights a finding never scores less for belonging to an issue.
\<close>

theorem escalation_never_lowers:
  assumes "Severity_Valid (Sev (rs_Finding s))" "Threat_Validate (Threat (rs_Finding s)) = None"
  shows "Severity_Rank (Sev (rs_Finding s)) \<le> Severity_Rank (fst (effectiveSeverity s)) \<and>
    fle (s_Value (scoreOne L DefaultWeights (s\<lparr>rs_IssueSeverity := [], rs_IssueKey := []\<rparr>) pc))
      (s_Value (scoreOne L DefaultWeights s pc))"
proof -
  let ?t = "s\<lparr>rs_IssueSeverity := [], rs_IssueKey := []\<rparr>"
  have r: "Severity_Rank (Sev (rs_Finding s)) \<le> Severity_Rank (fst (effectiveSeverity s))"
    by (simp add: effectiveSeverity_rank)
  have "f_Value (confidenceFactor DefaultWeights ?t) = f_Value (confidenceFactor DefaultWeights s)"
    by (simp add: confidenceFactor_def)
  then have c: "fle (f_Value (confidenceFactor DefaultWeights ?t)) (f_Value (confidenceFactor DefaultWeights s))"
    using fle_refl_bounded [OF default_factors(5) [OF assms(2)], of s] by simp
  have w: "fle (severity_weight DefaultWeights (fst (effectiveSeverity ?t)))
      (severity_weight DefaultWeights (fst (effectiveSeverity s)))"
    using r assms(1) effectiveSeverity_valid [OF assms(1)]
    by (intro default_severity_mono) (simp_all add: effectiveSeverity_def [of ?t])
  have "fle (s_Value (scoreOne L DefaultWeights ?t pc)) (s_Value (scoreOne L DefaultWeights s pc))"
    by (rule scoreOne_mono [OF _ _ w c]) (simp_all add: assms(2))
  with r show ?thesis by blast
qed

theorem escalation_never_lowers_witness:
  "fle (s_Value (scoreOne sample_lib DefaultWeights (sample_subject SeverityLow StatusOpen) sample_context))
   (s_Value (scoreOne sample_lib DefaultWeights
     ((sample_subject SeverityLow StatusOpen)\<lparr>rs_IssueSeverity := SeverityHigh\<rparr>) sample_context))"
  using escalation_never_lowers [of "(sample_subject SeverityLow StatusOpen)\<lparr>rs_IssueSeverity := SeverityHigh\<rparr>"
      sample_lib sample_context]
  by (simp add: sample_subject_def zero_Finding_def Severity_Valid_def Threat_Validate_def)

text \<open>
  Under the default weights another scanner reporting the same finding never lowers its risk,
  and the confidence factor stays in (0, 1], so agreement never inflates past certainty.
\<close>

theorem corroboration_never_lowers:
  assumes "Threat_Validate (Threat (rs_Finding s)) = None" "set (rs_Sources s) \<subseteq> set sources"
  shows "fle (s_Value (scoreOne L DefaultWeights s pc))
      (s_Value (scoreOne L DefaultWeights (s\<lparr>rs_Sources := sources\<rparr>) pc)) \<and>
    fless (Fin 0) (f_Value (confidenceFactor DefaultWeights s)) \<and>
    fle (f_Value (confidenceFactor DefaultWeights s)) (Fin 1)"
proof -
  let ?t = "s\<lparr>rs_Sources := sources\<rparr>"
  have V: "Weights_Validate DefaultWeights = None" using DefaultWeights_ok by (simp add: weights_ok_def)
  have "confidence_level s = confidence_level ?t \<or>
      confidence_level ?t = fst (raiseConfidence (confidence_level s))"
    using distinct_sources_mono [OF assms(2)] by (simp add: confidence_level_def Let_def)
  then have "fle (f_Value (confidenceFactor DefaultWeights s)) (f_Value (confidenceFactor DefaultWeights ?t))"
    using confidenceFactor_level [OF V] confidence_level_valid [of s]
    by (intro default_confidence_mono [of "confidence_level s" "confidence_level ?t"]) auto
  moreover have "effectiveSeverity ?t = effectiveSeverity s" by (simp add: effectiveSeverity_def)
  moreover have "fle (severity_weight DefaultWeights x) (severity_weight DefaultWeights x)" for x
    using fle_refl_bounded [OF default_factors(1) [OF assms(1), of x False s]] by (simp add: severityFactor_weight)
  ultimately have "fle (s_Value (scoreOne L DefaultWeights s pc)) (s_Value (scoreOne L DefaultWeights ?t pc))"
    using assms(1) by (intro scoreOne_mono) simp_all
  moreover obtain x where x: "f_Value (confidenceFactor DefaultWeights s) = Fin x" "x \<le> 1"
    using default_factors(5) [OF assms(1), of s] by (auto simp: bounded_by_def)
  moreover have "0 < x" using confidenceFactor_bounds(1) [OF DefaultWeights_ok, of s] by (simp add: x)
  ultimately show ?thesis by simp
qed

theorem corroboration_never_lowers_witness:
  "fle (s_Value (scoreOne sample_lib DefaultWeights (sample_subject SeverityLow StatusOpen) sample_context))
   (s_Value (scoreOne sample_lib DefaultWeights
     ((sample_subject SeverityLow StatusOpen)\<lparr>rs_Sources := [''grype'', ''trivy'']\<rparr>) sample_context))"
  using corroboration_never_lowers [of "sample_subject SeverityLow StatusOpen" "[''grype'', ''trivy'']"
      sample_lib sample_context]
  by (simp add: sample_subject_def zero_Finding_def Threat_Validate_def)

text \<open>
  The digest of a weight configuration does not depend on the order in which its maps were built or
  are visited.
\<close>

theorem Digest_map_order_independent:
  assumes "distinct (map fst (w_Severity w))" "mset (w_Severity w) = mset (w_Severity w')"
    and "distinct (map fst (w_Environment w))" "mset (w_Environment w) = mset (w_Environment w')"
    and "distinct (map fst (w_Criticality w))" "mset (w_Criticality w) = mset (w_Criticality w')"
    and "distinct (map fst (w_Confidence w))" "mset (w_Confidence w) = mset (w_Confidence w')"
    and "w_InternetFacing w = w_InternetFacing w'" "w_ExploitabilityFloor w = w_ExploitabilityFloor w'"
    and "w_TailWeight w = w_TailWeight w'" "w_Saturation w = w_Saturation w'"
  shows "Digest L w = Digest (L\<lparr>lib_map_order := order\<rparr>) w'"
proof -
  have L: "digest_section (L\<lparr>lib_map_order := order\<rparr>) = digest_section L"
    by (simp add: digest_section_def fun_eq_iff)
  show ?thesis
    unfolding Digest_def L assms(9-12)
      digest_section_perm [OF assms(1,2), where ds = "lib_map_order (L\<lparr>lib_map_order := order\<rparr>) 3"]
      digest_section_perm [OF assms(3,4), where ds = "lib_map_order (L\<lparr>lib_map_order := order\<rparr>) 4"]
      digest_section_perm [OF assms(5,6), where ds = "lib_map_order (L\<lparr>lib_map_order := order\<rparr>) 5"]
      digest_section_perm [OF assms(7,8), where ds = "lib_map_order (L\<lparr>lib_map_order := order\<rparr>) 6"]
    by simp
qed

theorem Digest_map_order_independent_witness:
  "Digest sample_lib DefaultWeights =
   Digest (sample_lib\<lparr>lib_map_order := (\<lambda>_. [2, 1])\<rparr>) (DefaultWeights\<lparr>w_Severity := rev (w_Severity DefaultWeights)\<rparr>)"
  by (rule Digest_map_order_independent) (simp_all add: DefaultWeights_def)

end
