(* ===== verification/Correlation.thy ===== *)
theory Correlation
  imports Fingerprints
begin

text \<open>
  The correlation engine: \<open>internal/correlation/key.go\<close>, \<open>link.go\<close>, \<open>issue.go\<close>,
  \<open>deployment.go\<close> and \<open>correlation.go\<close>. Findings that share a CVE, a component or a file are
  bucketed by key; a bucket yields pairwise links and at most one issue. A Go map is an
  association list; where the code ranges over one, the entries come in the order the runtime picks
  (\<^const>\<open>map_range\<close>). The lemmas show the issues and links as comprehensions over the findings that
  carry a key, and that neither the order of the input nor the order of the maps can reach the output.
\<close>

section \<open>Keys\<close>

type_synonym KeyKind = string

abbreviation KindCVE :: KeyKind where "KindCVE \<equiv> ''cve''"
abbreviation KindComponent :: KeyKind where "KindComponent \<equiv> ''purl''"
abbreviation KindFile :: KeyKind where "KindFile \<equiv> ''file''"

record Key =
  Kind :: KeyKind
  KeyValue :: string

definition Key_String :: "Key \<Rightarrow> string" where
  "Key_String k = Kind k @ '':'' @ KeyValue k"

section \<open>Links\<close>

type_synonym Relationship = string

abbreviation RelationExactDuplicate :: Relationship where "RelationExactDuplicate \<equiv> ''exact_duplicate''"
abbreviation RelationLikelyDuplicate :: Relationship where "RelationLikelyDuplicate \<equiv> ''likely_duplicate''"
abbreviation RelationRelated :: Relationship where "RelationRelated \<equiv> ''related''"
abbreviation RelationIndependent :: Relationship where "RelationIndependent \<equiv> ''independent''"

record Link =
  l_From :: string
  l_To :: string
  l_Relationship :: Relationship
  l_Confidence :: Confidence
  l_Evidence :: string

definition confidenceRank :: "Confidence \<Rightarrow> nat" where
  "confidenceRank c =
     (if c = ConfidenceHigh then 3 else if c = ConfidenceMedium then 2
      else if c = ConfidenceLow then 1 else 0)"

definition stronger :: "Link \<Rightarrow> Link \<Rightarrow> bool" where
  "stronger a b =
     (let ar = confidenceRank (l_Confidence a); br = confidenceRank (l_Confidence b) in
      if ar \<noteq> br then ar > br
      else l_Relationship a = RelationLikelyDuplicate \<and> l_Relationship b \<noteq> RelationLikelyDuplicate)"

text \<open>\<open>linkSet\<close>: the map \<open>byPair\<close>.\<close>

type_synonym linkSet = "((string \<times> string) \<times> Link) list"

definition direct :: "Link \<Rightarrow> Link" where
  "direct l = (if l_From l > l_To l then l\<lparr>l_From := l_To l, l_To := l_From l\<rparr> else l)"

fun put :: "(string \<times> string) \<Rightarrow> Link \<Rightarrow> linkSet \<Rightarrow> linkSet" where
  "put p l [] = [(p, l)]"
| "put p l ((q, m) # s) = (if q = p then (p, l) # s else (q, m) # put p l s)"

definition linkSet_add :: "linkSet \<Rightarrow> Link \<Rightarrow> linkSet" where
  "linkSet_add s l0 =
     (let l = direct l0; pair = (l_From l, l_To l) in
      case map_of s pair of
        None \<Rightarrow> put pair l s
      | Some existing \<Rightarrow> if stronger l existing then put pair l s else s)"

text \<open>The links come out of the map in the order the runtime picks, and are then sorted.\<close>

definition linkSet_sorted :: "golib \<Rightarrow> linkSet \<Rightarrow> Link list" where
  "linkSet_sorted L s = sort_key (\<lambda>l. (l_From l, l_To l)) (map_range (lib_map_order L 2) (map snd s))"

section \<open>Deployment\<close>

type_synonym Deployment = string

abbreviation DeploymentUnknown :: Deployment where "DeploymentUnknown \<equiv> ''unknown''"
abbreviation DeploymentPresent :: Deployment where "DeploymentPresent \<equiv> ''deployed''"
abbreviation DeploymentAbsent :: Deployment where "DeploymentAbsent \<equiv> ''not_deployed''"

record Inventory =
  PURLs :: "string set"
  Complete :: bool
  InvScanID :: string
  ScannedAt :: time

definition Inventory_Empty :: "Inventory \<Rightarrow> bool" where
  "Inventory_Empty i = (PURLs i = {} \<and> InvScanID i = [])"

definition deploymentOf :: "Key \<Rightarrow> Inventory \<Rightarrow> Deployment" where
  "deploymentOf key iv =
     (if Kind key \<noteq> KindComponent \<or> Inventory_Empty iv then DeploymentUnknown
      else if KeyValue key \<in> PURLs iv then DeploymentPresent
      else if \<not> Complete iv then DeploymentUnknown
      else DeploymentAbsent)"

definition deploymentEvidence :: "Deployment \<Rightarrow> Inventory \<Rightarrow> string" where
  "deploymentEvidence d iv =
     (if d = DeploymentPresent
        then ''this package is installed in the image scanned on '' @ format_date (ScannedAt iv)
      else if d = DeploymentAbsent
        then ''this package is NOT installed in the image scanned on '' @ format_date (ScannedAt iv) @
          '', so it appears to be declared but not deployed '' @ [CHR 0xE2, CHR 0x80, CHR 0x94] @
          '' verify before dismissing''
      else [])"

definition purlsFrom :: "string list \<Rightarrow> string set" where
  "purlsFrom purls = set (filter (\<lambda>p. p \<noteq> []) (map TrimSpace purls))"

definition NewInventory :: "string \<Rightarrow> time \<Rightarrow> string list \<Rightarrow> bool \<Rightarrow> Inventory" where
  "NewInventory scanID scannedAt purls whole =
     \<lparr>PURLs = purlsFrom purls, Complete = whole, InvScanID = scanID, ScannedAt = scannedAt\<rparr>"

definition sortedPURLs :: "Inventory \<Rightarrow> string list" where
  "sortedPURLs iv = sorted_list_of_set (PURLs iv)"

section \<open>Issues\<close>

record CSubject =
  c_Finding :: Finding
  Files :: "string list"

abbreviation c_Fingerprint :: "CSubject \<Rightarrow> string" where "c_Fingerprint s \<equiv> Fingerprint (c_Finding s)"

record Member =
  m_Fingerprint :: string
  m_Scanner :: string
  m_Severity :: Severity
  m_Evidence :: string

record Issue =
  i_Key :: Key
  i_Severity :: Severity
  i_Escalated :: bool
  i_Categories :: "string list"
  i_Members :: "Member list"
  i_Deployment :: Deployment
  i_DeploymentEvidence :: string
  i_ArtifactScanID :: string
  i_Explanation :: string

definition escalate :: "Severity \<Rightarrow> Severity \<times> bool" where
  "escalate s =
     (if s = SeverityInfo then (SeverityLow, True)
      else if s = SeverityLow then (SeverityMedium, True)
      else if s = SeverityMedium then (SeverityHigh, True)
      else if s = SeverityHigh then (SeverityCritical, True)
      else (s, False))"

definition worst_severity :: "CSubject list \<Rightarrow> Severity" where
  "worst_severity members =
     foldl (\<lambda>worst m. if Severity_Rank (Sev (c_Finding m)) > Severity_Rank worst
                      then Sev (c_Finding m) else worst) SeverityInfo members"

definition issueSeverity :: "CSubject list \<Rightarrow> string list \<Rightarrow> Severity \<times> bool" where
  "issueSeverity members categories =
     (let worst = worst_severity members in
      if length categories < 2 then (worst, False)
      else case escalate worst of
        (raised, ok) \<Rightarrow> if \<not> ok then (worst, False) else (raised, True))"

definition membershipEvidence :: "Key \<Rightarrow> CSubject \<Rightarrow> string" where
  "membershipEvidence key m =
     (if Kind key = KindCVE then ''reports '' @ KeyValue key
      else if Kind key = KindComponent then ''concerns component '' @ KeyValue key
      else if Kind key = KindFile
        then ''found in '' @ KeyValue key @ '' ('' @ Category (c_Finding m) @ '')''
      else ''shares '' @ Key_String key)"

definition explain_issue :: "Key \<Rightarrow> Issue \<Rightarrow> string" where
  "explain_issue key issue =
     (let n = Itoa (length (i_Members issue));
          subject =
            (if Kind key = KindCVE then n @ '' findings report vulnerability '' @ KeyValue key
             else if Kind key = KindComponent then n @ '' findings concern component '' @ KeyValue key
             else if Kind key = KindFile then n @ '' findings share the file '' @ KeyValue key
             else n @ '' findings share '' @ Key_String key)
      in if \<not> i_Escalated issue then subject @ ''.''
         else subject @ ''. Severity raised one step to '' @ i_Severity issue @
           '' because the findings span '' @ Join (i_Categories issue) '' and '' @
           '', which corroborate each other across domains.'')"

definition distinctCategories :: "CSubject list \<Rightarrow> string list" where
  "distinctCategories members =
     sort (dedup (filter (\<lambda>c. c \<noteq> []) (map (\<lambda>m. Category (c_Finding m)) members)))"

definition formIssue :: "Key \<Rightarrow> CSubject list \<Rightarrow> Inventory \<Rightarrow> Issue option" where
  "formIssue key members artifact =
     (let categories = distinctCategories members in
      if Kind key = KindFile \<and> length categories < 2 then None
      else
        let (sev, esc) = issueSeverity members categories;
            d = deploymentOf key artifact;
            issue = \<lparr>i_Key = key, i_Severity = sev, i_Escalated = esc, i_Categories = categories,
              i_Members = map (\<lambda>m. \<lparr>m_Fingerprint = c_Fingerprint m, m_Scanner = Scanner (c_Finding m),
                m_Severity = Sev (c_Finding m), m_Evidence = membershipEvidence key m\<rparr>) members,
              i_Deployment = d, i_DeploymentEvidence = deploymentEvidence d artifact,
              i_ArtifactScanID = (if d \<noteq> DeploymentUnknown then InvScanID artifact else []),
              i_Explanation = []\<rparr>
        in Some (issue\<lparr>i_Explanation := explain_issue key issue\<rparr>))"

section \<open>CorrelateWith\<close>

abbreviation DefaultMaxBucketSize :: int where "DefaultMaxBucketSize \<equiv> 500"

record Options =
  MaxBucketSize :: int
  Artifact :: Inventory

record CResult =
  Issues :: "Issue list"
  Links :: "Link list"
  Truncated :: "string list"

definition sortedByFingerprint :: "CSubject list \<Rightarrow> CSubject list" where
  "sortedByFingerprint subjects = sort_key c_Fingerprint subjects"

definition keysOf :: "CSubject \<Rightarrow> Key list" where
  "keysOf s =
     (let cve = TrimSpace (CVE (c_Finding s)); purl = TrimSpace (PURL (c_Finding s)) in
      (if cve \<noteq> [] then [\<lparr>Kind = KindCVE, KeyValue = cve\<rparr>] else []) @
      (if purl \<noteq> [] then [\<lparr>Kind = KindComponent, KeyValue = purl\<rparr>] else []) @
      map (\<lambda>p. \<lparr>Kind = KindFile, KeyValue = p\<rparr>)
        (dedup (filter (\<lambda>p. p \<noteq> []) (map NormalizeLocation (Files s)))))"

type_synonym buckets = "(Key \<times> CSubject list) list"

fun bucket_append :: "Key \<Rightarrow> CSubject \<Rightarrow> buckets \<Rightarrow> buckets" where
  "bucket_append k s [] = [(k, [s])]"
| "bucket_append k s ((q, ms) # bs) =
     (if q = k then (q, ms @ [s]) # bs else (q, ms) # bucket_append k s bs)"

definition bucketize :: "golib \<Rightarrow> CSubject list \<Rightarrow> buckets \<times> Key list" where
  "bucketize L subjects =
     (let buckets = foldl (\<lambda>bs s. foldl (\<lambda>bs k. bucket_append k s bs) bs (keysOf s)) [] subjects
      in (buckets, sort_key Key_String (map_range (lib_map_order L 1) (map fst buckets))))"

definition linkFor :: "Key \<Rightarrow> CSubject \<Rightarrow> CSubject \<Rightarrow> Link option" where
  "linkFor key sa sb =
     (let a = c_Finding sa; b = c_Finding sb;
          mk = (\<lambda>r c e. Some \<lparr>l_From = Fingerprint a, l_To = Fingerprint b, l_Relationship = r,
                  l_Confidence = c, l_Evidence = e\<rparr>)
      in if Kind key = KindCVE
           then mk RelationRelated ConfidenceHigh (''same vulnerability '' @ KeyValue key)
         else if Kind key = KindComponent then
           (if Category a = Category b \<and> CVE a = [] \<and> CVE b = []
            then mk RelationLikelyDuplicate ConfidenceMedium
              (''same component '' @ KeyValue key @ '' and category '' @ Category a)
            else mk RelationRelated ConfidenceMedium (''same component '' @ KeyValue key))
         else if Kind key = KindFile then
           (if Category a = Category b then None
            else mk RelationRelated ConfidenceLow
              (''same file '' @ KeyValue key @ '', categories '' @ Category a @ '' and '' @ Category b))
         else None)"

text \<open>The pairs \<open>(members[i], members[j])\<close> with \<open>i < j\<close>, in the order of the nested loops.\<close>

fun pairs :: "'a list \<Rightarrow> ('a \<times> 'a) list" where
  "pairs [] = []"
| "pairs (x # xs) = map (Pair x) xs @ pairs xs"

definition linkBucket :: "Key \<Rightarrow> CSubject list \<Rightarrow> linkSet \<Rightarrow> linkSet" where
  "linkBucket key members into =
     foldl (\<lambda>s (a, b). case linkFor key a b of None \<Rightarrow> s | Some l \<Rightarrow> linkSet_add s l)
       into (pairs members)"

definition bucket_limit :: "Options \<Rightarrow> nat" where
  "bucket_limit opts =
     nat (if MaxBucketSize opts \<le> 0 then DefaultMaxBucketSize else MaxBucketSize opts)"

text \<open>The body of the loop over keys, on the result so far and the link set.\<close>

definition correlate_step ::
    "nat \<Rightarrow> Inventory \<Rightarrow> buckets \<Rightarrow> CResult \<times> linkSet \<Rightarrow> Key \<Rightarrow> CResult \<times> linkSet" where
  "correlate_step limit artifact buckets st key =
     (let (result, links) = st;
          members = (case map_of buckets key of None \<Rightarrow> [] | Some ms \<Rightarrow> ms);
          result = (if length members > limit
                    then result\<lparr>Truncated := Truncated result @ [Key_String key]\<rparr> else result);
          members = (if length members > limit then take limit members else members)
      in if length members < 2 then (result, links)
         else
           let links = linkBucket key members links in
           case formIssue key members artifact of
             Some issue \<Rightarrow> (result\<lparr>Issues := Issues result @ [issue]\<rparr>, links)
           | None \<Rightarrow> (result, links))"

definition CorrelateWith :: "golib \<Rightarrow> CSubject list \<Rightarrow> Options \<Rightarrow> CResult" where
  "CorrelateWith L subjects0 opts =
     (let subjects = sortedByFingerprint subjects0;
          (buckets, keys) = bucketize L subjects;
          (result, links) =
            foldl (correlate_step (bucket_limit opts) (Artifact opts) buckets)
              (\<lparr>Issues = [], Links = [], Truncated = []\<rparr>, []) keys
      in result\<lparr>Links := linkSet_sorted L links\<rparr>)"

definition Correlate :: "golib \<Rightarrow> CSubject list \<Rightarrow> CResult" where
  "Correlate L subjects = CorrelateWith L subjects
     \<lparr>MaxBucketSize = 0,
      Artifact = \<lparr>PURLs = {}, Complete = False, InvScanID = [], ScannedAt = 0\<rparr>\<rparr>"

section \<open>Specification vocabulary\<close>

text \<open>The findings that carry a key, in fingerprint order, and the part of them a bucket keeps.\<close>

definition members_of :: "CSubject list \<Rightarrow> Key \<Rightarrow> CSubject list" where
  "members_of ss k = filter (\<lambda>s. k \<in> set (keysOf s)) (sortedByFingerprint ss)"

definition bucket_of :: "Options \<Rightarrow> CSubject list \<Rightarrow> Key \<Rightarrow> CSubject list" where
  "bucket_of opts ss k = take (bucket_limit opts) (members_of ss k)"

definition keys_of :: "CSubject list \<Rightarrow> Key list" where
  "keys_of ss = sort_key Key_String
     (map fst (foldl (\<lambda>bs s. foldl (\<lambda>bs k. bucket_append k s bs) bs (keysOf s)) [] (sortedByFingerprint ss)))"

definition bucket_lookup :: "buckets \<Rightarrow> Key \<Rightarrow> CSubject list" where
  "bucket_lookup bs k = (case map_of bs k of None \<Rightarrow> [] | Some ms \<Rightarrow> ms)"

definition bucket_links :: "Key \<Rightarrow> CSubject list \<Rightarrow> Link list" where
  "bucket_links k ms = List.map_filter (\<lambda>(a, b). linkFor k a b) (pairs ms)"

definition bucket_issue :: "Inventory \<Rightarrow> Key \<Rightarrow> CSubject list \<Rightarrow> Issue option" where
  "bucket_issue artifact k ms = (if length ms < 2 then None else formIssue k ms artifact)"

definition candidate_links :: "Options \<Rightarrow> CSubject list \<Rightarrow> Link list" where
  "candidate_links opts ss = concat (map (\<lambda>k. bucket_links k (bucket_of opts ss k)) (keys_of ss))"

abbreviation link_pair :: "Link \<Rightarrow> string \<times> string" where "link_pair l \<equiv> (l_From l, l_To l)"

text \<open>The strength of a claim, compared lexicographically.\<close>

definition strength :: "Link \<Rightarrow> nat \<times> nat" where
  "strength l = (confidenceRank (l_Confidence l),
     if l_Relationship l = RelationLikelyDuplicate then 1 else 0)"

definition linkSet_ok :: "linkSet \<Rightarrow> bool" where
  "linkSet_ok s \<longleftrightarrow> distinct (map fst s) \<and> (\<forall>(p, l) \<in> set s. p = link_pair l)"

definition sample_issue_subject :: "string \<Rightarrow> Category \<Rightarrow> Severity \<Rightarrow> string \<Rightarrow> CSubject" where
  "sample_issue_subject fpr cat sev purl =
     \<lparr>c_Finding = zero_Finding\<lparr>Fingerprint := fpr, Scanner := ''trivy'', Category := cat, Sev := sev,
        PURL := purl, CVE := ''CVE-1''\<rparr>, Files = []\<rparr>"

definition sample_options :: Options where
  "sample_options = \<lparr>MaxBucketSize = 0,
     Artifact = \<lparr>PURLs = {''p''}, Complete = True, InvScanID = ''s1'', ScannedAt = 0\<rparr>\<rparr>"

definition sample_pair :: "CSubject list" where
  "sample_pair = [sample_issue_subject ''b'' CategoryDependency SeverityLow ''p'',
     sample_issue_subject ''a'' CategorySAST SeverityMedium ''q'']"

section \<open>Keys and buckets\<close>

lemma keysOf_distinct: "distinct (keysOf s)"
  by (auto simp: keysOf_def Let_def distinct_map inj_on_def)

lemma keysOf_kinds: "k \<in> set (keysOf s) \<Longrightarrow> Kind k \<in> {KindCVE, KindComponent, KindFile} \<and> KeyValue k \<noteq> []"
  by (auto simp: keysOf_def Let_def split: if_splits)

lemma bucket_append_lookup:
  "bucket_lookup (bucket_append k s bs) q = bucket_lookup bs q @ (if q = k then [s] else [])"
  by (induction k s bs rule: bucket_append.induct) (auto simp: bucket_lookup_def)

lemma bucket_append_keys:
  "map fst (bucket_append k s bs) = (if k \<in> set (map fst bs) then map fst bs else map fst bs @ [k])"
  by (induction k s bs rule: bucket_append.induct) auto

lemma bucket_subject_lookup:
  "distinct ks \<Longrightarrow> bucket_lookup (foldl (\<lambda>bs k. bucket_append k s bs) bs ks) q =
     bucket_lookup bs q @ (if q \<in> set ks then [s] else [])"
  by (induction ks arbitrary: bs) (auto simp: bucket_append_lookup)

lemma bucket_subject_keys:
  "distinct (map fst bs) \<Longrightarrow> distinct (map fst (foldl (\<lambda>bs k. bucket_append k s bs) bs ks)) \<and>
     set (map fst (foldl (\<lambda>bs k. bucket_append k s bs) bs ks)) = set (map fst bs) \<union> set ks"
proof (induction ks arbitrary: bs)
  case (Cons k ks)
  have "distinct (map fst (bucket_append k s bs))" using Cons.prems by (auto simp: bucket_append_keys)
  from Cons.IH [OF this] show ?case by (auto simp: bucket_append_keys simp del: set_map)
qed simp

lemma bucketize_lookup:
  "bucket_lookup (fst (bucketize L ss)) q = filter (\<lambda>s. q \<in> set (keysOf s)) ss"
proof -
  have "bucket_lookup (foldl (\<lambda>bs s. foldl (\<lambda>bs k. bucket_append k s bs) bs (keysOf s)) bs ss) q =
      bucket_lookup bs q @ filter (\<lambda>s. q \<in> set (keysOf s)) ss" for bs
    by (induction ss arbitrary: bs) (simp_all add: bucket_subject_lookup keysOf_distinct)
  then show ?thesis by (simp add: bucketize_def Let_def bucket_lookup_def [of "[]"])
qed

lemma buckets_keys:
  "distinct (map fst bs) \<Longrightarrow>
    distinct (map fst (foldl (\<lambda>bs s. foldl (\<lambda>bs k. bucket_append k s bs) bs (keysOf s)) bs ss)) \<and>
    set (map fst (foldl (\<lambda>bs s. foldl (\<lambda>bs k. bucket_append k s bs) bs (keysOf s)) bs ss)) =
      set (map fst bs) \<union> (\<Union>s \<in> set ss. set (keysOf s))"
proof (induction ss arbitrary: bs)
  case (Cons s ss)
  note one = bucket_subject_keys [OF Cons.prems, of s "keysOf s"]
  from Cons.IH [OF conjunct1 [OF one]] show ?case using one by (simp del: set_map) blast
qed simp

lemma bucket_lookup_members: "bucket_lookup (fst (bucketize L (sortedByFingerprint ss))) k = members_of ss k"
  by (simp add: bucketize_lookup members_of_def)

lemma set_keys_of: "set (keys_of ss) = (\<Union>s \<in> set ss. set (keysOf s))"
  using buckets_keys [of "[]" "sortedByFingerprint ss"] by (simp add: keys_of_def sortedByFingerprint_def)

lemma distinct_keys_of: "distinct (keys_of ss)"
  using buckets_keys [of "[]" "sortedByFingerprint ss"] by (simp add: keys_of_def)

lemma set_members_of: "set (members_of ss k) = {s \<in> set ss. k \<in> set (keysOf s)}"
  by (auto simp: members_of_def sortedByFingerprint_def)

text \<open>No kind contains a colon, so the rendering the keys are sorted by tells them apart.\<close>

lemma Key_String_inj:
  assumes "Kind a \<in> {KindCVE, KindComponent, KindFile}" "Kind b \<in> {KindCVE, KindComponent, KindFile}"
    and "Key_String a = Key_String b"
  shows "a = b"
  using assms by (cases a; cases b) (auto simp: Key_String_def)

text \<open>So the order in which the map of buckets is visited does not reach the sorted keys.\<close>

lemma bucketize_keys: "snd (bucketize L (sortedByFingerprint ss)) = keys_of ss"
proof -
  let ?bs = "foldl (\<lambda>bs s. foldl (\<lambda>bs k. bucket_append k s bs) bs (keysOf s)) [] (sortedByFingerprint ss)"
  have k: "distinct (map fst ?bs)" "set (map fst ?bs) = (\<Union>s \<in> set (sortedByFingerprint ss). set (keysOf s))"
    using buckets_keys [of "[]" "sortedByFingerprint ss"] by simp_all
  have "inj_on Key_String (set (map fst ?bs))"
    unfolding k(2) using keysOf_kinds by (intro inj_onI Key_String_inj) blast+
  then have "distinct (map Key_String (map fst ?bs))" using k(1) by (simp only: distinct_map)
  then show ?thesis
    unfolding keys_of_def bucketize_def Let_def snd_conv
    by (rule sort_key_perm [symmetric, OF mset_map_range [symmetric]])
qed

section \<open>The loop over keys\<close>

lemma linkBucket_fold: "linkBucket k ms s = foldl linkSet_add s (bucket_links k ms)"
proof -
  have "foldl (\<lambda>s (a, b). case linkFor k a b of None \<Rightarrow> s | Some l \<Rightarrow> linkSet_add s l) s ps =
      foldl linkSet_add s (List.map_filter (\<lambda>(a, b). linkFor k a b) ps)" for ps
    by (induction ps arbitrary: s) (auto simp: List.map_filter_simps split: option.split)
  then show ?thesis by (simp add: linkBucket_def bucket_links_def)
qed

lemma bucket_links_small: "length ms < 2 \<Longrightarrow> bucket_links k ms = []"
  by (cases ms; cases "tl ms") (auto simp: bucket_links_def List.map_filter_simps)

lemma correlate_step_eq:
  "correlate_step limit artifact bs (r, links) k =
    (r\<lparr>Issues := Issues r @ (case bucket_issue artifact k (take limit (bucket_lookup bs k)) of
         None \<Rightarrow> [] | Some i \<Rightarrow> [i]),
       Truncated := Truncated r @ (if length (bucket_lookup bs k) > limit then [Key_String k] else [])\<rparr>,
     foldl linkSet_add links (bucket_links k (take limit (bucket_lookup bs k))))"
proof -
  let ?ms = "take limit (bucket_lookup bs k)"
  have take: "(if length (bucket_lookup bs k) > limit then ?ms else bucket_lookup bs k) = ?ms" by simp
  show ?thesis
    unfolding correlate_step_def Let_def prod.case bucket_lookup_def [symmetric] take bucket_issue_def
    by (cases "length ?ms < 2"; cases "formIssue k ?ms artifact")
      (simp_all add: bucket_links_small linkBucket_fold)
qed

lemma correlate_fold:
  "foldl (correlate_step limit artifact bs) (r, links) ks =
    (r\<lparr>Issues := Issues r @
         List.map_filter (\<lambda>k. bucket_issue artifact k (take limit (bucket_lookup bs k))) ks,
       Truncated := Truncated r @
         map Key_String (filter (\<lambda>k. length (bucket_lookup bs k) > limit) ks)\<rparr>,
     foldl linkSet_add links (concat (map (\<lambda>k. bucket_links k (take limit (bucket_lookup bs k))) ks)))"
  by (induction ks arbitrary: r links)
    (simp_all add: correlate_step_eq List.map_filter_simps split: option.split)

text \<open>The result as comprehensions over the keys.\<close>

lemma CorrelateWith_eq:
  "Issues (CorrelateWith L ss opts) =
     List.map_filter (\<lambda>k. bucket_issue (Artifact opts) k (bucket_of opts ss k)) (keys_of ss)"
  "Truncated (CorrelateWith L ss opts) =
     map Key_String (filter (\<lambda>k. length (members_of ss k) > bucket_limit opts) (keys_of ss))"
  "Links (CorrelateWith L ss opts) = linkSet_sorted L (foldl linkSet_add [] (candidate_links opts ss))"
  by (simp_all add: CorrelateWith_def Let_def prod.case_eq_if correlate_fold bucket_lookup_members
      bucket_of_def bucketize_keys candidate_links_def del: foldl_append)

section \<open>The link set keeps the strongest claim\<close>

lemma stronger_strength: "stronger a b \<longleftrightarrow> strength b < strength a"
  by (auto simp: stronger_def strength_def Let_def less_prod_def)

lemma map_of_put: "map_of (put p l s) = (map_of s)(p \<mapsto> l)"
  by (induction p l s rule: put.induct) auto

lemma keys_put: "map fst (put p l s) = (if p \<in> set (map fst s) then map fst s else map fst s @ [p])"
  by (induction p l s rule: put.induct) auto

lemma set_put: "set (put p l s) \<subseteq> insert (p, l) (set s)"
  by (induction p l s rule: put.induct) auto

lemma put_ok: "linkSet_ok s \<Longrightarrow> p = link_pair l \<Longrightarrow> linkSet_ok (put p l s)"
  using set_put [of p l s] by (auto simp: linkSet_ok_def keys_put simp del: set_map)

lemma linkSet_add_ok: "linkSet_ok s \<Longrightarrow> linkSet_ok (linkSet_add s l)"
  by (auto simp: linkSet_add_def Let_def intro: put_ok split: option.split)

lemma linkSet_adds_ok: "linkSet_ok s \<Longrightarrow> linkSet_ok (foldl linkSet_add s ls)"
  by (induction ls arbitrary: s) (auto intro: linkSet_add_ok)

lemma linkSet_add_lookup:
  "map_of (linkSet_add s l0) p =
    (let l = direct l0 in
     if p = link_pair l \<and> (case map_of s p of None \<Rightarrow> True | Some e \<Rightarrow> stronger l e) then Some l
     else map_of s p)"
  by (auto simp: linkSet_add_def Let_def map_of_put split: option.split)

text \<open>
  After any sequence of additions, a pair is mapped exactly when some claim about it was added,
  and then to one of the claims about it that no other claim is stronger than.
\<close>

lemma linkSet_adds_lookup:
  "case map_of (foldl linkSet_add [] ls) p of
     None \<Rightarrow> \<forall>l \<in> set ls. link_pair (direct l) \<noteq> p
   | Some m \<Rightarrow> m \<in> direct ` set ls \<and> link_pair m = p \<and>
       (\<forall>l \<in> set ls. link_pair (direct l) = p \<longrightarrow> \<not> stronger (direct l) m)"
proof (induction ls rule: rev_induct)
  case (snoc l ls)
  show ?case
  proof (cases "map_of (foldl linkSet_add [] ls) p")
    case None
    with snoc show ?thesis by (auto simp: linkSet_add_lookup Let_def stronger_strength)
  next
    case (Some m)
    with snoc show ?thesis
      by (auto simp: linkSet_add_lookup Let_def stronger_strength)
  qed
qed simp

lemma set_linkSet_sorted:
  assumes "linkSet_ok s"
  shows "l \<in> set (linkSet_sorted L s) \<longleftrightarrow> map_of s (link_pair l) = Some l"
proof -
  have "distinct (map fst s)" using assms by (simp add: linkSet_ok_def)
  then have "map_of s (link_pair l) = Some l \<longleftrightarrow> (link_pair l, l) \<in> set s" by simp
  also have "\<dots> \<longleftrightarrow> l \<in> snd ` set s" using assms by (force simp: linkSet_ok_def)
  finally show ?thesis by (simp add: linkSet_sorted_def)
qed

lemma linkSet_sorted_pairs:
  assumes "linkSet_ok s"
  shows "sorted (map link_pair (linkSet_sorted L s))" "distinct (map link_pair (linkSet_sorted L s))"
proof -
  show "sorted (map link_pair (linkSet_sorted L s))" by (simp add: linkSet_sorted_def)
  have "map link_pair (map snd s) = map fst s"
    using assms by (auto simp: linkSet_ok_def)
  then have "distinct (map link_pair (map snd s))" using assms by (simp add: linkSet_ok_def del: map_map)
  moreover have "mset (map link_pair (linkSet_sorted L s)) = mset (map link_pair (map snd s))"
    by (simp only: linkSet_sorted_def mset_map mset_sort mset_map_range)
  ultimately show "distinct (map link_pair (linkSet_sorted L s))"
    using mset_eq_imp_distinct_iff by blast
qed

lemma linkSet_sorted_order:
  assumes "linkSet_ok s" shows "linkSet_sorted L s = linkSet_sorted L' s"
proof -
  have "map link_pair (map snd s) = map fst s" using assms by (auto simp: linkSet_ok_def)
  then have d: "distinct (map link_pair (map snd s))" using assms by (simp add: linkSet_ok_def del: map_map)
  have "linkSet_sorted M s = sort_key link_pair (map snd s)" for M
    unfolding linkSet_sorted_def
    by (rule sort_key_perm [symmetric]) (simp_all only: mset_map_range d)
  then show ?thesis by simp
qed

lemma linkSet_ok_Nil [simp]: "linkSet_ok []"
  by (simp add: linkSet_ok_def)

section \<open>Issue severity\<close>

lemma worst_severity_rank:
  "Severity_Rank (worst_severity ms) = Max (insert 0 ((\<lambda>m. Severity_Rank (Sev (c_Finding m))) ` set ms))"
proof -
  have "Severity_Rank (foldl (\<lambda>worst m. if Severity_Rank (Sev (c_Finding m)) > Severity_Rank worst
        then Sev (c_Finding m) else worst) w ms) =
      Max (insert (Severity_Rank w) ((\<lambda>m. Severity_Rank (Sev (c_Finding m))) ` set ms))" for w
  proof (induction ms arbitrary: w)
    case (Cons m ms)
    show ?case
      by (cases "ms = []") (simp_all add: Cons max_def)
  qed simp
  from this [of SeverityInfo] show ?thesis by (simp add: worst_severity_def Severity_Rank_def)
qed

lemma worst_severity_ge: "m \<in> set ms \<Longrightarrow> Severity_Rank (Sev (c_Finding m)) \<le> Severity_Rank (worst_severity ms)"
  by (simp add: worst_severity_rank)

lemma worst_severity_valid: "Severity_Valid (worst_severity ms)"
proof -
  have "Severity_Valid w \<Longrightarrow> Severity_Valid (foldl (\<lambda>worst m.
      if Severity_Rank (Sev (c_Finding m)) > Severity_Rank worst then Sev (c_Finding m) else worst) w ms)" for w
    by (induction ms arbitrary: w) (auto dest: Severity_Rank_positive [OF le_less_trans [OF le0]])
  then show ?thesis by (simp add: worst_severity_def Severity_Valid_def)
qed

lemma issueSeverity_cases:
  "issueSeverity ms cs =
     (if length cs < 2 \<or> \<not> snd (escalate (worst_severity ms)) then (worst_severity ms, False)
      else (fst (escalate (worst_severity ms)), True))"
  by (auto simp: issueSeverity_def Let_def split: prod.split)

lemma escalate_rank: "snd (escalate s) \<Longrightarrow> Severity_Rank s < Severity_Rank (fst (escalate s))"
  by (auto simp: escalate_def Severity_Rank_def split: if_splits)

section \<open>What a formed issue is\<close>

lemma formIssue_Some:
  assumes "formIssue k ms a = Some i"
  shows "i_Key i = k" "i_Categories i = distinctCategories ms"
    "(i_Severity i, i_Escalated i) = issueSeverity ms (distinctCategories ms)"
    "map m_Fingerprint (i_Members i) = map c_Fingerprint ms"
    "map m_Severity (i_Members i) = map (\<lambda>m. Sev (c_Finding m)) ms"
    "i_Deployment i = deploymentOf k a"
    "Kind k = KindFile \<Longrightarrow> 2 \<le> length (i_Categories i)"
  using assms by (auto simp: formIssue_def Let_def split: if_splits prod.splits)

lemma explain_issue_cong:
  "i_Members i = i_Members j \<Longrightarrow> i_Escalated i = i_Escalated j \<Longrightarrow> i_Severity i = i_Severity j \<Longrightarrow>
   i_Categories i = i_Categories j \<Longrightarrow> explain_issue k i = explain_issue k j"
  by (simp only: explain_issue_def)

lemma formIssue_artifact:
  "map_option (\<lambda>i. (i_Key i, i_Severity i, i_Escalated i, i_Categories i, i_Members i, i_Explanation i))
     (formIssue k ms a) =
   map_option (\<lambda>i. (i_Key i, i_Severity i, i_Escalated i, i_Categories i, i_Members i, i_Explanation i))
     (formIssue k ms b)"
proof (cases "issueSeverity ms (distinctCategories ms)")
  case (Pair sev esc)
  show ?thesis
    unfolding formIssue_def Let_def Pair prod.case
    by (cases "Kind k = KindFile \<and> length (distinctCategories ms) < 2")
      (simp_all only: if_True if_False option.map Issue.simps prod.inject option.inject simp_thms,
        auto intro: explain_issue_cong)
qed

lemma formIssue_None: "formIssue k ms a = None \<longleftrightarrow> Kind k = KindFile \<and> length (distinctCategories ms) < 2"
  by (simp add: formIssue_def Let_def split: prod.split)

lemma issue_bucket:
  assumes "i \<in> set (Issues (CorrelateWith L ss opts))"
  shows "i_Key i \<in> set (keys_of ss)" "2 \<le> length (bucket_of opts ss (i_Key i))"
    "formIssue (i_Key i) (bucket_of opts ss (i_Key i)) (Artifact opts) = Some i"
proof -
  obtain k where k: "k \<in> set (keys_of ss)"
    "bucket_issue (Artifact opts) k (bucket_of opts ss k) = Some i"
    using assms by (auto simp: CorrelateWith_eq(1) List.map_filter_def)
  then have "i_Key i = k" by (auto simp: bucket_issue_def dest: formIssue_Some(1) split: if_splits)
  with k show "i_Key i \<in> set (keys_of ss)" "2 \<le> length (bucket_of opts ss (i_Key i))"
    "formIssue (i_Key i) (bucket_of opts ss (i_Key i)) (Artifact opts) = Some i"
    by (auto simp: bucket_issue_def split: if_splits)
qed

lemma issue_of_bucket:
  assumes "k \<in> set (keys_of ss)" "2 \<le> length (bucket_of opts ss k)"
    and "formIssue k (bucket_of opts ss k) (Artifact opts) = Some i"
  shows "i \<in> set (Issues (CorrelateWith L ss opts))"
  using assms by (force simp: CorrelateWith_eq(1) List.map_filter_def bucket_issue_def)

lemma map_Key_issues:
  "map i_Key (Issues (CorrelateWith L ss opts)) =
     filter (\<lambda>k. bucket_issue (Artifact opts) k (bucket_of opts ss k) \<noteq> None) (keys_of ss)"
proof -
  have "map i_Key (List.map_filter (\<lambda>k. bucket_issue a k (B k)) ks) =
      filter (\<lambda>k. bucket_issue a k (B k) \<noteq> None) ks" for a B ks
    by (induction ks) (auto simp: List.map_filter_simps bucket_issue_def dest: formIssue_Some(1)
        split: option.split if_splits)
  then show ?thesis by (simp add: CorrelateWith_eq(1))
qed

lemma pairs_sorted_wrt:
  "sorted_wrt P xs \<Longrightarrow> (a, b) \<in> set (pairs xs) \<Longrightarrow> P a b \<and> a \<in> set xs \<and> b \<in> set xs"
  by (induction xs) auto

lemma pairs_complete:
  "a \<in> set xs \<Longrightarrow> b \<in> set xs \<Longrightarrow> a \<noteq> b \<Longrightarrow> (a, b) \<in> set (pairs xs) \<or> (b, a) \<in> set (pairs xs)"
  by (induction xs) auto

lemma strict_members:
  assumes "distinct (map c_Fingerprint ss)"
  shows "sorted_wrt (\<lambda>a b. c_Fingerprint a < c_Fingerprint b) (bucket_of opts ss k)"
proof -
  have "sorted (map c_Fingerprint (sortedByFingerprint ss))" by (simp add: sortedByFingerprint_def)
  moreover have "mset (map c_Fingerprint (sortedByFingerprint ss)) = mset (map c_Fingerprint ss)"
    by (simp only: sortedByFingerprint_def mset_map mset_sort)
  then have "distinct (map c_Fingerprint (sortedByFingerprint ss))"
    using assms mset_eq_imp_distinct_iff by blast
  ultimately have "sorted_wrt (<) (map c_Fingerprint (sortedByFingerprint ss))"
    by (simp add: strict_sorted_iff)
  then have "sorted_wrt (\<lambda>a b. c_Fingerprint a < c_Fingerprint b) (sortedByFingerprint ss)"
    by (simp add: sorted_wrt_map)
  then show ?thesis by (simp add: bucket_of_def members_of_def sorted_wrt_filter sorted_wrt_take)
qed

lemma linkFor_ends: "linkFor k a b = Some l \<Longrightarrow> l_From l = c_Fingerprint a \<and> l_To l = c_Fingerprint b"
  by (auto simp: linkFor_def Let_def split: if_splits)

text \<open>Every claim the engine weighs is about two findings that carry its key.\<close>

lemma candidate_links_sound:
  assumes "distinct (map c_Fingerprint ss)" "l \<in> set (candidate_links opts ss)"
  shows "\<exists>k a b. a \<in> set ss \<and> b \<in> set ss \<and> k \<in> set (keysOf a) \<inter> set (keysOf b) \<and>
    linkFor k a b = Some l \<and> c_Fingerprint a < c_Fingerprint b \<and> direct l = l"
proof -
  obtain k a b where k: "(a, b) \<in> set (pairs (bucket_of opts ss k))" "linkFor k a b = Some l"
    using assms(2) by (auto simp: candidate_links_def bucket_links_def List.map_filter_def)
  have lt: "c_Fingerprint a < c_Fingerprint b" and mem: "a \<in> set (bucket_of opts ss k)" "b \<in> set (bucket_of opts ss k)"
    using pairs_sorted_wrt [OF strict_members [OF assms(1)] k(1)] by auto
  have "a \<in> set (members_of ss k)" "b \<in> set (members_of ss k)"
    using mem by (auto simp: bucket_of_def dest: in_set_takeD)
  moreover have "direct l = l" using lt linkFor_ends [OF k(2)] by (simp add: direct_def)
  ultimately show ?thesis using k(2) lt by (auto simp: set_members_of)
qed

lemma candidate_links_complete:
  assumes "a \<in> set (bucket_of opts ss k)" "b \<in> set (bucket_of opts ss k)"
    and "distinct (map c_Fingerprint ss)" "c_Fingerprint a < c_Fingerprint b" "linkFor k a b = Some l"
  shows "l \<in> set (candidate_links opts ss)"
proof -
  have "(b, a) \<notin> set (pairs (bucket_of opts ss k))"
    using pairs_sorted_wrt [OF strict_members [OF assms(3)], of b a] assms(4) by force
  then have "(a, b) \<in> set (pairs (bucket_of opts ss k))"
    using pairs_complete [OF assms(1,2)] assms(4) by auto
  then have "l \<in> set (bucket_links k (bucket_of opts ss k))"
    using assms(5) by (force simp: bucket_links_def List.map_filter_def)
  moreover have "k \<in> set (keys_of ss)"
    using assms(1) by (auto simp: bucket_of_def set_keys_of set_members_of dest!: in_set_takeD)
  ultimately show ?thesis by (auto simp: candidate_links_def)
qed



lemma sample_pair_distinct: "distinct (map c_Fingerprint sample_pair)"
  by (simp add: sample_pair_def sample_issue_subject_def)

section \<open>Properties\<close>

text \<open>
  C3: correlation is deterministic. When no two findings share a fingerprint, correlating any
  permutation of them gives the same issues, links and truncation report, in the same order,
  whatever order the runtime visits the map of buckets and the map of links in.
\<close>

theorem correlate_order_independent:
  assumes "mset ss = mset ts" "distinct (map c_Fingerprint ss)"
  shows "CorrelateWith L ss opts = CorrelateWith (L\<lparr>lib_map_order := order\<rparr>) ts opts"
proof -
  let ?L = "L\<lparr>lib_map_order := order\<rparr>"
  have "sortedByFingerprint ss = sortedByFingerprint ts"
    unfolding sortedByFingerprint_def by (rule sort_key_perm [OF assms])
  then have "CorrelateWith ?L ss opts = CorrelateWith ?L ts opts" by (simp add: CorrelateWith_def)
  moreover have "linkSet_sorted L (foldl linkSet_add [] (candidate_links opts ss)) =
      linkSet_sorted ?L (foldl linkSet_add [] (candidate_links opts ss))"
    by (rule linkSet_sorted_order) (simp add: linkSet_adds_ok)
  then have "CorrelateWith L ss opts = CorrelateWith ?L ss opts"
    by (intro CResult.equality) (simp_all add: CorrelateWith_eq)
  ultimately show ?thesis by simp
qed

theorem correlate_order_independent_witness:
  "CorrelateWith sample_lib sample_pair sample_options =
   CorrelateWith (sample_lib\<lparr>lib_map_order := (\<lambda>_. [1, 0])\<rparr>) (rev sample_pair) sample_options"
  by (rule correlate_order_independent) (simp_all add: sample_pair_distinct)

text \<open>
  Every issue is supported. It has at least two and at most the capped number of members, each
  of which is a finding that carries the issue's key; a file issue spans two categories; and its
  severity is the worst member's, or, when the members span two categories and that severity is on
  the ladder, exactly one step above it.
\<close>

theorem issues_are_supported:
  assumes "i \<in> set (Issues (CorrelateWith L ss opts))"
  shows "2 \<le> length (i_Members i) \<and> length (i_Members i) \<le> bucket_limit opts \<and>
    m_Fingerprint ` set (i_Members i) \<subseteq> c_Fingerprint ` {s \<in> set ss. i_Key i \<in> set (keysOf s)} \<and>
    (Kind (i_Key i) = KindFile \<longrightarrow> 2 \<le> length (i_Categories i)) \<and>
    Max ((\<lambda>m. Severity_Rank (m_Severity m)) ` set (i_Members i)) \<le> Severity_Rank (i_Severity i) \<and>
    Severity_Valid (i_Severity i) \<and>
    (\<exists>worst. Severity_Rank worst = Max ((\<lambda>m. Severity_Rank (m_Severity m)) ` set (i_Members i)) \<and>
      (i_Severity i, i_Escalated i) =
        (if 2 \<le> length (i_Categories i) then escalate worst else (worst, False)))"
proof -
  let ?b = "bucket_of opts ss (i_Key i)"
  note b = issue_bucket [OF assms]
  note f = formIssue_Some [OF b(3)]
  have "length (i_Members i) = length ?b" using arg_cong [OF f(4), of length] by simp
  moreover have "m_Fingerprint ` set (i_Members i) = c_Fingerprint ` set ?b"
    using arg_cong [OF f(4), of set] by simp
  moreover have "set ?b \<subseteq> {s \<in> set ss. i_Key i \<in> set (keysOf s)}"
    using set_members_of [of ss "i_Key i"] set_take_subset [of _ "members_of ss (i_Key i)"]
    by (auto simp: bucket_of_def)
  moreover have M: "(\<lambda>m. Severity_Rank (m_Severity m)) ` set (i_Members i) =
      (\<lambda>m. Severity_Rank (Sev (c_Finding m))) ` set ?b"
    using arg_cong [OF f(5), of "\<lambda>xs. Severity_Rank ` set xs"] by (simp add: image_image)
  have W: "Severity_Rank (worst_severity ?b) = Max ((\<lambda>m. Severity_Rank (m_Severity m)) ` set (i_Members i))"
    unfolding worst_severity_rank M using b(2) by (subst Max_insert) auto
  moreover have E: "(i_Severity i, i_Escalated i) =
      (if 2 \<le> length (i_Categories i) then escalate (worst_severity ?b) else (worst_severity ?b, False))"
    using f(2,3) by (auto simp: issueSeverity_cases escalate_def split: if_splits)
  moreover have "Severity_Rank (worst_severity ?b) \<le> Severity_Rank (i_Severity i) \<and> Severity_Valid (i_Severity i)"
    using E worst_severity_valid [of ?b]
    by (auto simp: escalate_def Severity_Rank_def Severity_Valid_def split: if_splits)
  ultimately show ?thesis
    using b(2) f(7) by (auto simp: bucket_of_def intro!: exI [of _ "worst_severity ?b"])
qed

lemma sample_pair_issues:
  "\<exists>i. i \<in> set (Issues (CorrelateWith sample_lib sample_pair sample_options)) \<and>
     i_Severity i = SeverityHigh \<and> Kind (i_Key i) = KindCVE"
proof -
  have "\<exists>i \<in> set (Issues (CorrelateWith sample_lib sample_pair sample_options)). i_Severity i = SeverityHigh \<and> Kind (i_Key i) = KindCVE"
    by code_simp
  then show ?thesis by blast
qed

theorem issues_are_supported_witness:
  "\<exists>i \<in> set (Issues (CorrelateWith sample_lib sample_pair sample_options)).
     2 \<le> length (i_Members i) \<and> i_Severity i = SeverityHigh"
proof -
  obtain i where "i \<in> set (Issues (CorrelateWith sample_lib sample_pair sample_options))" "i_Severity i = SeverityHigh"
    using sample_pair_issues by blast
  with issues_are_supported [OF this(1)] show ?thesis by blast
qed

lemma sample_pair_members:
  "map c_Fingerprint (members_of sample_pair \<lparr>Kind = KindCVE, KeyValue = ''CVE-1''\<rparr>) = [''a'', ''b'']"
  by code_simp



text \<open>
  The links are sorted, name each unordered pair of findings at most once and never a finding
  with itself; each is a claim the rules make about two findings carrying a common key, and no rule
  makes a stronger claim about the same pair. Conversely every pair some rule makes a claim about
  is linked.
\<close>

theorem links_are_strongest_claims:
  assumes "distinct (map c_Fingerprint ss)"
  shows "sorted_wrt (<) (map link_pair (Links (CorrelateWith L ss opts))) \<and>
    (\<forall>l \<in> set (Links (CorrelateWith L ss opts)).
       (\<exists>k a b. a \<in> set ss \<and> b \<in> set ss \<and> k \<in> set (keysOf a) \<inter> set (keysOf b) \<and>
          linkFor k a b = Some l \<and> l_From l = c_Fingerprint a \<and> l_To l = c_Fingerprint b \<and>
          l_From l < l_To l) \<and>
       (\<forall>k a b m. a \<in> set (bucket_of opts ss k) \<and> b \<in> set (bucket_of opts ss k) \<and>
          linkFor k a b = Some m \<and> link_pair m = link_pair l \<longrightarrow> \<not> stronger m l)) \<and>
    (\<forall>k a b m. a \<in> set (bucket_of opts ss k) \<and> b \<in> set (bucket_of opts ss k) \<and>
       linkFor k a b = Some m \<and> c_Fingerprint a < c_Fingerprint b \<longrightarrow>
       (\<exists>l \<in> set (Links (CorrelateWith L ss opts)). link_pair l = link_pair m))"
proof -
  define S where "S = foldl linkSet_add [] (candidate_links opts ss)"
  have L: "Links (CorrelateWith L ss opts) = linkSet_sorted L S" by (simp add: S_def CorrelateWith_eq(3))
  have ok: "linkSet_ok S" by (simp add: S_def linkSet_adds_ok)
  have mem: "l \<in> set (linkSet_sorted L S) \<longleftrightarrow> map_of S (link_pair l) = Some l" for l
    by (rule set_linkSet_sorted [OF ok])
  note look = linkSet_adds_lookup [of "candidate_links opts ss", folded S_def]
  have srt: "sorted_wrt (<) (map link_pair (linkSet_sorted L S))"
    using linkSet_sorted_pairs [OF ok] by (simp add: strict_sorted_iff)
  have sup: "\<exists>k a b. a \<in> set ss \<and> b \<in> set ss \<and> k \<in> set (keysOf a) \<inter> set (keysOf b) \<and>
      linkFor k a b = Some l \<and> l_From l = c_Fingerprint a \<and> l_To l = c_Fingerprint b \<and>
      l_From l < l_To l" if "l \<in> set (linkSet_sorted L S)" for l
  proof -
    have "l \<in> direct ` set (candidate_links opts ss)" using that mem look [of "link_pair l"] by simp
    then obtain c where c: "c \<in> set (candidate_links opts ss)" "l = direct c" by blast
    from candidate_links_sound [OF assms c(1)] c(2) show ?thesis using linkFor_ends by metis
  qed
  have best: "\<not> stronger m l" if l: "l \<in> set (linkSet_sorted L S)" and p: "link_pair m = link_pair l"
    and c: "a \<in> set (bucket_of opts ss k)" "b \<in> set (bucket_of opts ss k)" "linkFor k a b = Some m" for l m a b k
  proof -
    have "c_Fingerprint a < c_Fingerprint b"
      using sup [OF l] p linkFor_ends [OF c(3)] by (metis prod.inject)
    then have "m \<in> set (candidate_links opts ss)" "direct m = m"
      using candidate_links_complete [OF c(1,2) assms _ c(3)] linkFor_ends [OF c(3)]
      by (auto simp: direct_def)
    then show ?thesis using look [of "link_pair l"] mem l p by force
  qed
  have "\<exists>l \<in> set (linkSet_sorted L S). link_pair l = link_pair m"
    if c: "a \<in> set (bucket_of opts ss k)" "b \<in> set (bucket_of opts ss k)" "linkFor k a b = Some m"
      "c_Fingerprint a < c_Fingerprint b" for m a b k
  proof -
    have "m \<in> set (candidate_links opts ss)" "direct m = m"
      using candidate_links_complete [OF c(1,2) assms c(4,3)] linkFor_ends [OF c(3)] c(4)
      by (auto simp: direct_def)
    then show ?thesis using look [of "link_pair m"] mem by (cases "map_of S (link_pair m)") auto
  qed
  with srt sup best show ?thesis unfolding L by blast
qed

theorem links_are_strongest_claims_witness:
  "sorted_wrt (<) (map link_pair (Links (CorrelateWith sample_lib sample_pair sample_options))) \<and>
   map link_pair (Links (CorrelateWith sample_lib sample_pair sample_options)) = [(''a'', ''b'')]"
proof -
  have "map link_pair (Links (CorrelateWith sample_lib sample_pair sample_options)) = [(''a'', ''b'')]" by code_simp
  with links_are_strongest_claims [OF sample_pair_distinct, of sample_lib sample_options] show ?thesis by blast
qed

text \<open>
  Truncation is never silent and never invented: a key is reported as truncated exactly when
  more findings carry it than the cap allows.
\<close>

theorem truncation_is_reported:
  assumes "k \<in> set (keysOf s)" "s \<in> set ss"
  shows "Key_String k \<in> set (Truncated (CorrelateWith L ss opts)) \<longleftrightarrow>
    bucket_limit opts < length (members_of ss k)"
proof -
  have k: "k \<in> set (keys_of ss)" using assms by (auto simp: set_keys_of)
  have inj: "q = k" if "q \<in> set (keys_of ss)" "Key_String k = Key_String q" for q
  proof (rule Key_String_inj)
    show "Key_String q = Key_String k" using that(2) by simp
  qed (use that(1) k in \<open>auto simp: set_keys_of dest: keysOf_kinds\<close>)
  have "Key_String k \<in> Key_String ` {q \<in> set (keys_of ss). bucket_limit opts < length (members_of ss q)} \<longleftrightarrow>
      bucket_limit opts < length (members_of ss k)"
  proof
    assume "Key_String k \<in> Key_String ` {q \<in> set (keys_of ss). bucket_limit opts < length (members_of ss q)}"
    then show "bucket_limit opts < length (members_of ss k)" using inj by blast
  qed (use k in blast)
  then show ?thesis by (simp only: CorrelateWith_eq(2) set_map set_filter)
qed

theorem truncation_is_reported_witness:
  "Key_String \<lparr>Kind = KindCVE, KeyValue = ''CVE-1''\<rparr> \<in>
     set (Truncated (CorrelateWith sample_lib sample_pair (sample_options\<lparr>MaxBucketSize := 1\<rparr>)))"
proof -
  note m = sample_pair_members
  have "\<lparr>Kind = KindCVE, KeyValue = ''CVE-1''\<rparr> \<in> set (keysOf (hd sample_pair))" by code_simp
  moreover have "hd sample_pair \<in> set sample_pair" by (simp add: sample_pair_def)
  moreover have "bucket_limit (sample_options\<lparr>MaxBucketSize := 1\<rparr>) = 1" by (simp add: bucket_limit_def)
  ultimately show ?thesis using truncation_is_reported arg_cong [OF m, of length] by simp
qed

text \<open>
  Deployment is evidence only. Whatever image inventory the engine is given, the issues have the
  same keys, severities, escalations, categories, members and explanations, and the links and the
  truncation report are the same.
\<close>

theorem deployment_moves_nothing:
  "map (\<lambda>i. (i_Key i, i_Severity i, i_Escalated i, i_Categories i, i_Members i, i_Explanation i))
       (Issues (CorrelateWith L ss (opts\<lparr>Artifact := a\<rparr>))) =
     map (\<lambda>i. (i_Key i, i_Severity i, i_Escalated i, i_Categories i, i_Members i, i_Explanation i))
       (Issues (CorrelateWith L ss (opts\<lparr>Artifact := b\<rparr>))) \<and>
   Links (CorrelateWith L ss (opts\<lparr>Artifact := a\<rparr>)) = Links (CorrelateWith L ss (opts\<lparr>Artifact := b\<rparr>)) \<and>
   Truncated (CorrelateWith L ss (opts\<lparr>Artifact := a\<rparr>)) = Truncated (CorrelateWith L ss (opts\<lparr>Artifact := b\<rparr>))"
proof -
  let ?v = "\<lambda>i. (i_Key i, i_Severity i, i_Escalated i, i_Categories i, i_Members i, i_Explanation i)"
  have "map_option ?v (bucket_issue a k ms) = map_option ?v (bucket_issue b k ms)" for k ms
    unfolding bucket_issue_def
    by (cases "length ms < 2") (simp_all only: if_True if_False option.map formIssue_artifact [of k ms a b])
  then have "map ?v (List.map_filter (\<lambda>k. bucket_issue a k (B k)) ks) =
      map ?v (List.map_filter (\<lambda>k. bucket_issue b k (B k)) ks)" for B ks
  proof (induction ks)
    case (Cons k ks)
    from Cons.prems [of k "B k"] Cons.IH [OF Cons.prems] show ?case
      by (cases "bucket_issue a k (B k)"; cases "bucket_issue b k (B k)")
        (auto simp: List.map_filter_simps)
  qed (simp add: List.map_filter_simps)
  moreover have "bucket_limit (opts\<lparr>Artifact := a\<rparr>) = bucket_limit (opts\<lparr>Artifact := b\<rparr>)"
    by (simp add: bucket_limit_def)
  ultimately show ?thesis
    by (simp add: CorrelateWith_eq bucket_of_def candidate_links_def)
qed

text \<open>
  An issue is reported as not deployed only for a component key, against a complete inventory
  of a named artifact that does not list the component; a truncated inventory proves presence but
  never absence.
\<close>

theorem not_deployed_needs_complete_inventory:
  assumes "i \<in> set (Issues (CorrelateWith L ss opts))"
  shows "(i_Deployment i = DeploymentAbsent \<longleftrightarrow>
      Kind (i_Key i) = KindComponent \<and> Complete (Artifact opts) \<and>
      \<not> Inventory_Empty (Artifact opts) \<and> KeyValue (i_Key i) \<notin> PURLs (Artifact opts)) \<and>
    (i_Deployment i = DeploymentPresent \<longleftrightarrow>
      Kind (i_Key i) = KindComponent \<and> KeyValue (i_Key i) \<in> PURLs (Artifact opts))"
  using formIssue_Some(6) [OF issue_bucket(3) [OF assms]]
  by (auto simp: deploymentOf_def Inventory_Empty_def)

theorem not_deployed_needs_complete_inventory_witness:
  "\<exists>i \<in> set (Issues (CorrelateWith sample_lib sample_pair sample_options)). i_Deployment i \<noteq> DeploymentAbsent"
proof -
  obtain i where "i \<in> set (Issues (CorrelateWith sample_lib sample_pair sample_options))" "Kind (i_Key i) = KindCVE"
    using sample_pair_issues by blast
  with not_deployed_needs_complete_inventory [OF this(1)] show ?thesis by auto
qed

end
