(* ===== verification/Policies.thy ===== *)
theory Policies
  imports Risk
begin

text \<open>
  The policy gate: \<open>internal/policies/policy.go\<close> and \<open>evaluate.go\<close>. A policy is a list of
  ceilings; \<open>Evaluate\<close> reports every rule and returns the worst verdict of the breached ones and
  of the scan's coverage. A Go map of counters is a function with value 0 where no key was stored.
  The lemmas show the verdict as a maximum over the breached levels, that an incomplete scan never
  passes, that the order of the rules does not matter, and that worse input never gets a better
  verdict.
\<close>

section \<open>Policy\<close>

type_synonym Verdict = string
type_synonym Level = string
type_synonym RuleKind = string

abbreviation VerdictPass :: Verdict where "VerdictPass \<equiv> ''pass''"
abbreviation VerdictWarn :: Verdict where "VerdictWarn \<equiv> ''warn''"
abbreviation VerdictFail :: Verdict where "VerdictFail \<equiv> ''fail''"

definition Verdict_rank :: "Verdict \<Rightarrow> nat" where
  "Verdict_rank v = (if v = VerdictFail then 2 else if v = VerdictWarn then 1 else 0)"

abbreviation LevelWarn :: Level where "LevelWarn \<equiv> ''warn''"
abbreviation LevelFail :: Level where "LevelFail \<equiv> ''fail''"

definition Level_Valid :: "Level \<Rightarrow> bool" where
  "Level_Valid l = (l = LevelWarn \<or> l = LevelFail)"

definition Level_verdict :: "Level \<Rightarrow> Verdict" where
  "Level_verdict l = (if l = LevelFail then VerdictFail else VerdictWarn)"

abbreviation KindSeverityCount :: RuleKind where "KindSeverityCount \<equiv> ''severity_count''"
abbreviation KindCategoryCount :: RuleKind where "KindCategoryCount \<equiv> ''category_count''"
abbreviation KindRiskScore :: RuleKind where "KindRiskScore \<equiv> ''risk_score''"

record Rule =
  r_Kind :: RuleKind
  Selector :: string
  r_Max :: real
  r_Level :: Level

record Policy =
  Rules :: "Rule list"
  IncompleteScan :: Level

definition DefaultPolicy :: Policy where
  "DefaultPolicy =
     \<lparr>Rules =
        [\<lparr>r_Kind = KindSeverityCount, Selector = SeverityCritical, r_Max = 0, r_Level = LevelFail\<rparr>,
         \<lparr>r_Kind = KindSeverityCount, Selector = SeverityHigh, r_Max = 5, r_Level = LevelFail\<rparr>,
         \<lparr>r_Kind = KindCategoryCount, Selector = CategorySecrets, r_Max = 0, r_Level = LevelFail\<rparr>,
         \<lparr>r_Kind = KindRiskScore, Selector = [], r_Max = 70, r_Level = LevelFail\<rparr>],
      IncompleteScan = LevelWarn\<rparr>"

datatype rule_error =
    BadLevel string | NegativeMax real | UnknownRuleSeverity string | UnknownRuleCategory string
  | SelectorNotAllowed string | MaxAboveScale real | UnknownKind string

datatype policy_error =
    BadIncompleteScan string | BadRule nat rule_error | DuplicateMetric nat string

definition policy_validCategory :: "string \<Rightarrow> bool" where
  "policy_validCategory c = (c \<in> set [CategorySAST, CategorySecrets, CategoryDependency,
     CategoryContainer, CategoryIaC, CategoryDAST, CategoryLicense])"

definition Rule_validate :: "Rule \<Rightarrow> rule_error option" where
  "Rule_validate r =
     (if \<not> Level_Valid (r_Level r) then Some (BadLevel (r_Level r))
      else if r_Max r < 0 then Some (NegativeMax (r_Max r))
      else if r_Kind r = KindSeverityCount then
        (if \<not> Severity_Valid (Selector r) then Some (UnknownRuleSeverity (Selector r)) else None)
      else if r_Kind r = KindCategoryCount then
        (if \<not> policy_validCategory (Selector r) then Some (UnknownRuleCategory (Selector r)) else None)
      else if r_Kind r = KindRiskScore then
        (if TrimSpace (Selector r) \<noteq> [] then Some (SelectorNotAllowed (Selector r))
         else if r_Max r > 100 then Some (MaxAboveScale (r_Max r)) else None)
      else Some (UnknownKind (r_Kind r)))"

definition metric_key :: "Rule \<Rightarrow> string" where
  "metric_key r = r_Kind r @ ''/'' @ Selector r"

fun validate_rules :: "nat \<Rightarrow> string list \<Rightarrow> Rule list \<Rightarrow> policy_error option" where
  "validate_rules i seen [] = None"
| "validate_rules i seen (r # rs) =
     (case Rule_validate r of
        Some e \<Rightarrow> Some (BadRule i e)
      | None \<Rightarrow>
          if metric_key r \<in> set seen then Some (DuplicateMetric i (metric_key r))
          else validate_rules (Suc i) (metric_key r # seen) rs)"

definition Policy_Validate :: "Policy \<Rightarrow> policy_error option" where
  "Policy_Validate p =
     (if \<not> Level_Valid (IncompleteScan p) then Some (BadIncompleteScan (IncompleteScan p))
      else validate_rules 0 [] (Rules p))"

definition sortedRules :: "Rule list \<Rightarrow> Rule list" where
  "sortedRules ins = sort_key (\<lambda>r. (r_Kind r, Selector r)) ins"

section \<open>Evaluate\<close>

record Input =
  SeverityCounts :: "Severity \<Rightarrow> nat"
  CategoryCounts :: "Category \<Rightarrow> nat"
  RiskScore :: real
  ScanStatus :: string
  ScanComplete :: bool

definition policy_dismissed :: "Status \<Rightarrow> bool" where
  "policy_dismissed s = (s \<in> set [StatusResolved, StatusFalsePositive, StatusIgnored])"

definition count_subject :: "Input \<Rightarrow> RiskSubject \<Rightarrow> Input" where
  "count_subject i s =
     (if policy_dismissed (FStatus (rs_Finding s)) then i
      else i\<lparr>SeverityCounts := (SeverityCounts i)(Sev (rs_Finding s) :=
               SeverityCounts i (Sev (rs_Finding s)) + 1),
             CategoryCounts := (CategoryCounts i)(Category (rs_Finding s) :=
               CategoryCounts i (Category (rs_Finding s)) + 1)\<rparr>)"

definition InputFrom :: "RiskSubject list \<Rightarrow> real \<Rightarrow> string \<Rightarrow> bool \<Rightarrow> Input" where
  "InputFrom subjects score scanStatus whole =
     foldl count_subject
       \<lparr>SeverityCounts = (\<lambda>_. 0), CategoryCounts = (\<lambda>_. 0), RiskScore = score,
        ScanStatus = scanStatus, ScanComplete = whole\<rparr> subjects"

record Condition =
  c_Rule :: Rule
  Observed :: real
  Breached :: bool
  c_Explanation :: string

record Coverage =
  cov_Complete :: bool
  cov_ScanStatus :: string
  Downgraded :: bool
  cov_Level :: Level

record GateResult =
  g_Verdict :: Verdict
  Conditions :: "Condition list"
  g_Coverage :: Coverage
  Summary :: string

definition observe :: "Rule \<Rightarrow> Input \<Rightarrow> real" where
  "observe r i =
     (if r_Kind r = KindSeverityCount then real (SeverityCounts i (Selector r))
      else if r_Kind r = KindCategoryCount then real (CategoryCounts i (Selector r))
      else if r_Kind r = KindRiskScore then RiskScore i
      else 0)"

definition metricName :: "Rule \<Rightarrow> string" where
  "metricName r =
     (if r_Kind r = KindSeverityCount then Selector r @ '' findings:''
      else if r_Kind r = KindCategoryCount then Selector r @ '' findings:''
      else ''risk score:'')"

text \<open>A number equals its truncation exactly when it is an integer.\<close>

definition number :: "golib \<Rightarrow> real \<Rightarrow> string" where
  "number L v =
     (if v = of_int \<lfloor>v\<rfloor> then lib_FormatFloat L (CHR ''f'') (Fin v) 0
      else lib_FormatFloat L (CHR ''f'') (Fin v) 1)"

definition explain_condition :: "golib \<Rightarrow> Rule \<Rightarrow> real \<Rightarrow> bool \<Rightarrow> string" where
  "explain_condition L r observed breached =
     (if breached
      then metricName r @ '' '' @ number L observed @ '' exceeds the limit of '' @ number L (r_Max r) @
        '' ('' @ r_Level r @ '')''
      else metricName r @ '' '' @ number L observed @ '' is within the limit of '' @ number L (r_Max r))"

definition em_dash :: string where
  "em_dash = [CHR 0x20, CHR 0xE2, CHR 0x80, CHR 0x94, CHR 0x20]"

definition summarize :: "golib \<Rightarrow> GateResult \<Rightarrow> string" where
  "summarize L res =
     (let breached = filter Breached (Conditions res) in
      ToUpper L (g_Verdict res) @
      (if length breached = 0 \<and> length (Conditions res) = 0
         then em_dash @ ''no policy rules are configured, so nothing was checked.''
       else if length breached = 0
         then em_dash @ ''all '' @ Itoa (length (Conditions res)) @ '' policy rules satisfied.''
       else em_dash @ Itoa (length breached) @ '' of '' @ Itoa (length (Conditions res)) @
         '' policy rules breached:'' @
         concat (map (\<lambda>c. [CHR 0x0A] @ ''  '' @ [CHR 0xE2, CHR 0x80, CHR 0xA2] @ '' '' @ c_Explanation c)
           breached)) @
      (if \<not> cov_Complete (g_Coverage res)
       then [CHR 0x0A, CHR 0x0A] @ ''Coverage: this scan is '' @ cov_ScanStatus (g_Coverage res) @
         '', not complete. A scanner that failed reported nothing, so this'' @
         '' result is computed over less than the whole project and fewer'' @
         '' findings do not mean fewer problems.'' @
         (if Downgraded (g_Coverage res) then '' The verdict was downgraded for this reason.'' else [])
       else []))"

text \<open>One iteration of the loop over the rules, on the verdict and the conditions so far.\<close>

definition rule_step :: "golib \<Rightarrow> Input \<Rightarrow> Verdict \<times> Condition list \<Rightarrow> Rule \<Rightarrow> Verdict \<times> Condition list" where
  "rule_step L i st r =
     (let (v, cs) = st;
          observed = observe r i;
          breached = (observed > r_Max r);
          cs' = cs @ [\<lparr>c_Rule = r, Observed = observed, Breached = breached,
                       c_Explanation = explain_condition L r observed breached\<rparr>]
      in (if breached \<and> Verdict_rank (Level_verdict (r_Level r)) > Verdict_rank v
          then Level_verdict (r_Level r) else v, cs'))"

definition Evaluate :: "golib \<Rightarrow> Policy \<Rightarrow> Input \<Rightarrow> policy_error + GateResult" where
  "Evaluate L p i =
     (case Policy_Validate p of
        Some e \<Rightarrow> Inl e
      | None \<Rightarrow>
          (let (v, cs) = foldl (rule_step L i) (VerdictPass, []) (sortedRules (Rules p));
               iv = Level_verdict (IncompleteScan p);
               worse = (\<not> ScanComplete i \<and> Verdict_rank iv > Verdict_rank v);
               res = \<lparr>g_Verdict = (if worse then iv else v), Conditions = cs,
                 g_Coverage = \<lparr>cov_Complete = ScanComplete i, cov_ScanStatus = ScanStatus i,
                   Downgraded = worse, cov_Level = IncompleteScan p\<rparr>, Summary = []\<rparr>
           in Inr (res\<lparr>Summary := summarize L res\<rparr>)))"

section \<open>Specification vocabulary\<close>

definition breaches :: "Input \<Rightarrow> Rule \<Rightarrow> bool" where
  "breaches i r \<longleftrightarrow> observe r i > r_Max r"

text \<open>What calls for a verdict: the breached rules and, for an incomplete scan, its treatment.\<close>

definition causes :: "Policy \<Rightarrow> Input \<Rightarrow> Level set" where
  "causes p i = r_Level ` {r \<in> set (Rules p). breaches i r} \<union>
     (if ScanComplete i then {} else {IncompleteScan p})"

text \<open>An input is at least as bad as another.\<close>

definition worse_input :: "Input \<Rightarrow> Input \<Rightarrow> bool" where
  "worse_input j i \<longleftrightarrow> (\<forall>s. SeverityCounts i s \<le> SeverityCounts j s) \<and>
     (\<forall>c. CategoryCounts i c \<le> CategoryCounts j c) \<and> RiskScore i \<le> RiskScore j \<and>
     (ScanComplete j \<longrightarrow> ScanComplete i)"

definition sample_gate_input :: Input where
  "sample_gate_input = InputFrom [sample_subject SeverityCritical StatusOpen] 50 ''completed'' True"

definition condition_of :: "golib \<Rightarrow> Input \<Rightarrow> Rule \<Rightarrow> Condition" where
  "condition_of L i r = \<lparr>c_Rule = r, Observed = observe r i, Breached = breaches i r,
     c_Explanation = explain_condition L r (observe r i) (breaches i r)\<rparr>"

section \<open>Validation\<close>

lemma validate_rules_None:
  "validate_rules i seen rs = None \<longleftrightarrow>
     (\<forall>r \<in> set rs. Rule_validate r = None) \<and> distinct (map metric_key rs) \<and>
     set (map metric_key rs) \<inter> set seen = {}"
  by (induction i seen rs rule: validate_rules.induct) (auto split: option.split)

lemma Policy_Validate_None:
  "Policy_Validate p = None \<longleftrightarrow>
     Level_Valid (IncompleteScan p) \<and> (\<forall>r \<in> set (Rules p). Rule_validate r = None) \<and>
     distinct (map metric_key (Rules p))"
  by (auto simp: Policy_Validate_def validate_rules_None)

lemma Rule_validate_None:
  assumes "Rule_validate r = None"
  shows "Level_Valid (r_Level r)" "0 \<le> r_Max r"
    "r_Kind r \<in> {KindSeverityCount, KindCategoryCount, KindRiskScore}"
  using assms by (auto simp: Rule_validate_def split: if_splits)

lemma valid_rules_distinct:
  assumes "Policy_Validate p = None"
  shows "distinct (map (\<lambda>r. (r_Kind r, Selector r)) (Rules p))"
proof -
  have "map metric_key (Rules p) = map (\<lambda>(k, s). k @ ''/'' @ s) (map (\<lambda>r. (r_Kind r, Selector r)) (Rules p))"
    by (simp add: metric_key_def)
  moreover have "distinct (map metric_key (Rules p))" using assms by (simp only: Policy_Validate_None)
  ultimately show ?thesis by (simp only: distinct_map [of "\<lambda>(k, s). k @ ''/'' @ s"])
qed

lemma set_sortedRules [simp]: "set (sortedRules rs) = set rs"
  by (simp add: sortedRules_def)

lemma DefaultPolicy_valid: "Policy_Validate DefaultPolicy = None"
  by code_simp

section \<open>The verdict\<close>

lemma rule_step_eq:
  "rule_step L i (v, cs) r =
     (if breaches i r \<and> Verdict_rank (Level_verdict (r_Level r)) > Verdict_rank v
      then Level_verdict (r_Level r) else v, cs @ [condition_of L i r])"
  by (simp add: rule_step_def Let_def condition_of_def breaches_def)

lemma Level_verdict_rank: "Level_Valid l \<Longrightarrow> Verdict_rank (Level_verdict l) = (if l = LevelFail then 2 else 1)"
  by (auto simp: Verdict_rank_def Level_verdict_def)

lemma rule_fold_conditions:
  "snd (foldl (rule_step L i) st rs) = snd st @ map (condition_of L i) rs"
  by (induction rs arbitrary: st) (auto simp: rule_step_eq split: prod.split)

lemma rule_step_verdict:
  "v \<in> {VerdictPass, VerdictWarn, VerdictFail} \<Longrightarrow>
   fst (rule_step L i (v, cs) r) \<in> {VerdictPass, VerdictWarn, VerdictFail}"
  by (auto simp: rule_step_eq Level_verdict_def)

text \<open>The verdict of the rules alone, by what was breached so far.\<close>

lemma rule_fold_verdict:
  assumes "\<And>r. r \<in> set rs \<Longrightarrow> Level_Valid (r_Level r)"
  shows "fst (foldl (rule_step L i) (VerdictPass, []) rs) =
    (if \<exists>r \<in> set rs. breaches i r \<and> r_Level r = LevelFail then VerdictFail
     else if \<exists>r \<in> set rs. breaches i r then VerdictWarn else VerdictPass)"
  using assms
proof (induction rs rule: rev_induct)
  case (snoc r rs)
  have lv: "r_Level r = LevelWarn \<or> r_Level r = LevelFail"
    using snoc.prems [of r] by (simp add: Level_Valid_def)
  obtain v cs where f: "foldl (rule_step L i) (VerdictPass, []) rs = (v, cs)" by fastforce
  have v: "v = (if \<exists>r \<in> set rs. breaches i r \<and> r_Level r = LevelFail then VerdictFail
     else if \<exists>r \<in> set rs. breaches i r then VerdictWarn else VerdictPass)"
    using snoc f by simp
  show ?case
    using lv by (auto simp: f rule_step_eq v Verdict_rank_def Level_verdict_def)
qed simp

lemma cause_iff:
  "l \<in> causes p i \<longleftrightarrow> (\<exists>r \<in> set (Rules p). breaches i r \<and> r_Level r = l) \<or> \<not> ScanComplete i \<and> l = IncompleteScan p"
  "causes p i = {} \<longleftrightarrow> (\<forall>r \<in> set (Rules p). \<not> breaches i r) \<and> ScanComplete i"
  by (auto simp: causes_def)

lemma Evaluate_Inr:
  assumes "Evaluate L p i = Inr r"
  shows "Policy_Validate p = None"
    and "Conditions r = map (condition_of L i) (sortedRules (Rules p))"
    and "g_Verdict r = (if LevelFail \<in> causes p i then VerdictFail
           else if causes p i \<noteq> {} then VerdictWarn else VerdictPass)"
    and "Downgraded (g_Coverage r) \<longleftrightarrow> \<not> ScanComplete i \<and>
           g_Verdict r \<noteq> fst (foldl (rule_step L i) (VerdictPass, []) (sortedRules (Rules p)))"
proof -
  show V: "Policy_Validate p = None" using assms by (auto simp: Evaluate_def split: option.splits)
  let ?f = "foldl (rule_step L i) (VerdictPass, []) (sortedRules (Rules p))"
  let ?iv = "Level_verdict (IncompleteScan p)"
  let ?w = "\<not> ScanComplete i \<and> Verdict_rank ?iv > Verdict_rank (fst ?f)"
  have r: "g_Verdict r = (if ?w then ?iv else fst ?f)" "Conditions r = snd ?f" "Downgraded (g_Coverage r) = ?w"
    using assms V by (auto simp: Evaluate_def Let_def prod.case_eq_if)
  have lv: "Level_Valid (r_Level x)" if "x \<in> set (sortedRules (Rules p))" for x
    using V that by (auto simp: Policy_Validate_None dest: Rule_validate_None)
  have f: "fst ?f = (if \<exists>x \<in> set (Rules p). breaches i x \<and> r_Level x = LevelFail then VerdictFail
     else if \<exists>x \<in> set (Rules p). breaches i x then VerdictWarn else VerdictPass)"
    using rule_fold_verdict [of "sortedRules (Rules p)" L i] lv by simp
  have inc: "IncompleteScan p = LevelWarn \<or> IncompleteScan p = LevelFail"
    using V by (simp add: Policy_Validate_None Level_Valid_def)
  show "Conditions r = map (condition_of L i) (sortedRules (Rules p))"
    by (simp add: r(2) rule_fold_conditions)
  show "Downgraded (g_Coverage r) \<longleftrightarrow> \<not> ScanComplete i \<and> g_Verdict r \<noteq> fst ?f"
    using r(1,3) by auto
  show "g_Verdict r = (if LevelFail \<in> causes p i then VerdictFail
      else if causes p i \<noteq> {} then VerdictWarn else VerdictPass)"
    using inc unfolding r(1) f
    by (cases "ScanComplete i") (auto simp: cause_iff Verdict_rank_def Level_verdict_def)
qed

lemma incomplete_verdict:
  assumes "Evaluate L p i = Inr r" "\<not> ScanComplete i"
  shows "g_Verdict r \<noteq> VerdictPass \<and> Verdict_rank (Level_verdict (IncompleteScan p)) \<le> Verdict_rank (g_Verdict r) \<and>
    (IncompleteScan p = LevelWarn \<or> IncompleteScan p = LevelFail)"
proof -
  have "Level_Valid (IncompleteScan p)"
    using Evaluate_Inr(1) [OF assms(1)] by (simp add: Policy_Validate_None)
  then have "IncompleteScan p = LevelWarn \<or> IncompleteScan p = LevelFail" by (simp add: Level_Valid_def)
  moreover have "IncompleteScan p \<in> causes p i" using assms(2) by (simp add: causes_def)
  ultimately show ?thesis
    using Evaluate_Inr(3) [OF assms(1)] by (auto simp: Verdict_rank_def Level_verdict_def)
qed

lemma Evaluate_total: "Policy_Validate p = None \<Longrightarrow> \<exists>r. Evaluate L p i = Inr r"
  by (simp add: Evaluate_def Let_def split: prod.split)

lemma causes_mono:
  assumes "worse_input j i"
  shows "causes p i \<subseteq> causes p j"
proof -
  have "observe r i \<le> observe r j" for r
    using assms by (simp add: observe_def worse_input_def)
  then have "breaches i r \<Longrightarrow> breaches j r" for r
    unfolding breaches_def by (meson less_le_trans)
  then show ?thesis using assms by (auto simp: causes_def worse_input_def)
qed

lemma verdict_mono:
  assumes "Evaluate L p i = Inr r" "Evaluate L p j = Inr q" "causes p i \<subseteq> causes p j"
  shows "Verdict_rank (g_Verdict r) \<le> Verdict_rank (g_Verdict q)"
  using assms(3) by (auto simp: Evaluate_Inr(3) [OF assms(1)] Evaluate_Inr(3) [OF assms(2)] Verdict_rank_def)

section \<open>Counting\<close>

interpretation policy_lifecycle: dismissal policy_dismissed
  by unfold_locales (simp add: policy_dismissed_def)

lemma policy_dismissed_eq: "policy_dismissed = dismissed"
  by (rule policy_lifecycle.agrees [OF risk_lifecycle.dismissal_axioms, symmetric])

lemma InputFrom_counts:
  "SeverityCounts (InputFrom ss sc st b) sev =
     length (filter (\<lambda>s. Sev (rs_Finding s) = sev) (live_subjects ss))"
  "CategoryCounts (InputFrom ss sc st b) cat =
     length (filter (\<lambda>s. Category (rs_Finding s) = cat) (live_subjects ss))"
  "RiskScore (InputFrom ss sc st b) = sc" "ScanComplete (InputFrom ss sc st b) = b"
  "ScanStatus (InputFrom ss sc st b) = st"
proof -
  have "SeverityCounts (foldl count_subject i ss) sev =
      SeverityCounts i sev + length (filter (\<lambda>s. Sev (rs_Finding s) = sev) (live_subjects ss)) \<and>
    CategoryCounts (foldl count_subject i ss) cat =
      CategoryCounts i cat + length (filter (\<lambda>s. Category (rs_Finding s) = cat) (live_subjects ss)) \<and>
    RiskScore (foldl count_subject i ss) = RiskScore i \<and>
    ScanComplete (foldl count_subject i ss) = ScanComplete i \<and>
    ScanStatus (foldl count_subject i ss) = ScanStatus i" for i
    by (induction ss arbitrary: i)
      (auto simp: count_subject_def live_subjects_def policy_dismissed_eq)
  then show "SeverityCounts (InputFrom ss sc st b) sev =
     length (filter (\<lambda>s. Sev (rs_Finding s) = sev) (live_subjects ss))"
    "CategoryCounts (InputFrom ss sc st b) cat =
     length (filter (\<lambda>s. Category (rs_Finding s) = cat) (live_subjects ss))"
    "RiskScore (InputFrom ss sc st b) = sc" "ScanComplete (InputFrom ss sc st b) = b"
    "ScanStatus (InputFrom ss sc st b) = st"
    by (simp_all add: InputFrom_def)
qed

lemma length_filter_subseteq:
  "mset xs \<subseteq># mset ys \<Longrightarrow> length (filter P xs) \<le> length (filter P ys)"
  by (metis mset_filter multiset_filter_mono size_mset size_mset_mono)

lemma InputFrom_worse:
  assumes "mset rs \<subseteq># mset ss" "score \<le> score'"
  shows "worse_input (InputFrom ss score' st b) (InputFrom rs score st b)"
proof -
  have "mset (live_subjects rs) \<subseteq># mset (live_subjects ss)"
    unfolding live_subjects_def mset_filter by (rule multiset_filter_mono [OF assms(1)])
  with assms(2) show ?thesis
    by (simp add: worse_input_def InputFrom_counts length_filter_subseteq)
qed

section \<open>Properties\<close>

text \<open>
  The verdict is the worst of what calls for one. \<open>fail\<close> exactly when a breached rule has level
  \<open>fail\<close>, or the scan is incomplete and the policy treats that as \<open>fail\<close>; \<open>pass\<close> exactly when the
  scan is complete and no rule is breached; every rule of the policy is reported once, breached or
  not, with its observed value.
\<close>

theorem gate_verdict_is_worst_cause:
  assumes "Evaluate L p i = Inr r"
  shows "(g_Verdict r = VerdictFail \<longleftrightarrow> (\<exists>x. x \<in> set (Rules p) \<and> observe x i > r_Max x \<and> r_Level x = LevelFail) \<or>
       \<not> ScanComplete i \<and> IncompleteScan p = LevelFail) \<and>
    (g_Verdict r = VerdictPass \<longleftrightarrow> ScanComplete i \<and> \<not> (\<exists>x. x \<in> set (Rules p) \<and> observe x i > r_Max x)) \<and>
    g_Verdict r \<in> {VerdictPass, VerdictWarn, VerdictFail} \<and>
    mset (map c_Rule (Conditions r)) = mset (Rules p) \<and>
    list_all (\<lambda>c. Observed c = observe (c_Rule c) i \<and> (Breached c \<longleftrightarrow> Observed c > r_Max (c_Rule c)))
      (Conditions r)"
proof -
  have "map c_Rule (Conditions r) = sortedRules (Rules p)"
    by (simp add: Evaluate_Inr(2) [OF assms] condition_of_def comp_def)
  then have "mset (map c_Rule (Conditions r)) = mset (Rules p)" by (simp add: sortedRules_def)
  moreover have "list_all (\<lambda>c. Observed c = observe (c_Rule c) i \<and> (Breached c \<longleftrightarrow> Observed c > r_Max (c_Rule c)))
      (Conditions r)"
    by (simp add: Evaluate_Inr(2) [OF assms] condition_of_def list_all_iff breaches_def)
  ultimately show ?thesis
    unfolding Evaluate_Inr(3) [OF assms] by (auto simp: cause_iff breaches_def)
qed

theorem gate_verdict_is_worst_cause_witness:
  "\<exists>r. Evaluate sample_lib DefaultPolicy sample_gate_input = Inr r \<and> g_Verdict r = VerdictFail"
proof -
  obtain r where r: "Evaluate sample_lib DefaultPolicy sample_gate_input = Inr r"
    using Evaluate_total [OF DefaultPolicy_valid] by blast
  have "hd (Rules DefaultPolicy) \<in> set (Rules DefaultPolicy) \<and>
      observe (hd (Rules DefaultPolicy)) sample_gate_input > r_Max (hd (Rules DefaultPolicy)) \<and>
      r_Level (hd (Rules DefaultPolicy)) = LevelFail"
    by code_simp
  with gate_verdict_is_worst_cause [OF r] r show ?thesis by blast
qed

text \<open>
  C4: a scan that did not complete can never pass, whatever the policy and the counts, and the
  result says so: coverage is recorded as incomplete, and as having downgraded the verdict exactly
  when the rules alone would have given a better one.
\<close>

theorem incomplete_scan_never_passes:
  assumes "Evaluate L p i = Inr r" "\<not> ScanComplete i"
  shows "g_Verdict r \<noteq> VerdictPass \<and>
    Verdict_rank (Level_verdict (IncompleteScan p)) \<le> Verdict_rank (g_Verdict r) \<and>
    (Downgraded (g_Coverage r) \<longleftrightarrow>
      g_Verdict r \<noteq> fst (foldl (rule_step L i) (VerdictPass, []) (sortedRules (Rules p))))"
  using incomplete_verdict [OF assms] assms(2) Evaluate_Inr(4) [OF assms(1)] by simp

theorem incomplete_scan_never_passes_witness:
  "\<exists>r. Evaluate sample_lib DefaultPolicy (InputFrom [] 0 ''partial'' False) = Inr r \<and>
     g_Verdict r \<noteq> VerdictPass"
proof -
  obtain r where r: "Evaluate sample_lib DefaultPolicy (InputFrom [] 0 ''partial'' False) = Inr r"
    using Evaluate_total [OF DefaultPolicy_valid] by blast
  have "\<not> ScanComplete (InputFrom [] 0 ''partial'' False)" by (simp add: InputFrom_counts)
  from incomplete_scan_never_passes [OF r this] r show ?thesis by blast
qed

text \<open>
  The order in which a policy lists its rules does not matter: a valid policy and any
  reordering of it produce the same result, summary and condition order included.
\<close>

theorem rule_order_irrelevant:
  assumes "Policy_Validate p = None" "mset (Rules p) = mset rs"
  shows "Evaluate L p i = Evaluate L (p\<lparr>Rules := rs\<rparr>) i"
proof -
  have "mset (map metric_key (Rules p)) = mset (map metric_key rs)" using assms(2) by simp
  from mset_eq_imp_distinct_iff [OF this] have "distinct (map metric_key rs)"
    using assms(1) by (simp add: Policy_Validate_None)
  moreover have "set (Rules p) = set rs" using assms(2) by (rule mset_eq_setD)
  ultimately have "Policy_Validate (p\<lparr>Rules := rs\<rparr>) = None"
    using assms(1) by (simp add: Policy_Validate_None)
  moreover have "sortedRules (Rules p) = sortedRules rs"
    unfolding sortedRules_def by (rule sort_key_perm [OF assms(2) valid_rules_distinct [OF assms(1)]])
  ultimately show ?thesis using assms(1) by (simp add: Evaluate_def)
qed

theorem rule_order_irrelevant_witness:
  "Evaluate sample_lib DefaultPolicy sample_gate_input =
   Evaluate sample_lib (DefaultPolicy\<lparr>Rules := rev (Rules DefaultPolicy)\<rparr>) sample_gate_input"
  by (rule rule_order_irrelevant [OF DefaultPolicy_valid]) simp

text \<open>
  C5: worse input never gets a better verdict. More findings of any severity or category, a higher
  risk score, or lost coverage can only move the verdict towards \<open>fail\<close>.
\<close>

theorem gate_is_monotone:
  assumes "worse_input j i" "Evaluate L p i = Inr r" "Evaluate L p j = Inr q"
  shows "Verdict_rank (g_Verdict r) \<le> Verdict_rank (g_Verdict q)"
  using verdict_mono [OF assms(2,3) causes_mono [OF assms(1)]] .

theorem gate_is_monotone_witness:
  "\<exists>r q. Evaluate sample_lib DefaultPolicy (InputFrom [] 0 ''completed'' True) = Inr r \<and>
     Evaluate sample_lib DefaultPolicy sample_gate_input = Inr q \<and>
     Verdict_rank (g_Verdict r) \<le> Verdict_rank (g_Verdict q)"
proof -
  obtain r q where e: "Evaluate sample_lib DefaultPolicy (InputFrom [] 0 ''completed'' True) = Inr r"
    "Evaluate sample_lib DefaultPolicy sample_gate_input = Inr q"
    using Evaluate_total [OF DefaultPolicy_valid] by blast
  have "worse_input sample_gate_input (InputFrom [] 0 ''completed'' True)"
    unfolding sample_gate_input_def by (rule InputFrom_worse) simp_all
  from gate_is_monotone [OF this e] e show ?thesis by blast
qed

text \<open>
  The gate counts what the risk engine scores. The counters are the numbers of live findings of
  each severity and category, so a dismissed finding cannot breach a rule.
\<close>

theorem gate_counts_live_findings:
  "SeverityCounts (InputFrom ss score st b) sev =
     length (filter (\<lambda>s. Sev (rs_Finding s) = sev \<and> \<not> dismissed (FStatus (rs_Finding s))) ss) \<and>
   CategoryCounts (InputFrom ss score st b) cat =
     length (filter (\<lambda>s. Category (rs_Finding s) = cat \<and> \<not> dismissed (FStatus (rs_Finding s))) ss)"
  by (simp add: InputFrom_counts live_subjects_def conj_commute)

text \<open>
  The validation of a policy compares the raw selector, but a risk rule's selector only has to be
  blank: two rules on the risk score pass as different metrics.
\<close>

lemma duplicate_risk_rules_accepted:
  "Policy_Validate \<lparr>Rules =
     [\<lparr>r_Kind = KindRiskScore, Selector = [], r_Max = 70, r_Level = LevelWarn\<rparr>,
      \<lparr>r_Kind = KindRiskScore, Selector = '' '', r_Max = 50, r_Level = LevelFail\<rparr>],
     IncompleteScan = LevelWarn\<rparr> = None"
  by code_simp

end
