(* ===== verification/Remediation_Plan.thy ===== *)
theory Remediation_Plan
  imports Risk
begin

text \<open>
  The remediation engine: \<open>internal/remediation/action.go\<close>, \<open>group.go\<close> and
  \<open>remediation.go\<close>. Live findings are grouped into actions by what a person acts on, and the
  actions are ranked by how far the project score falls without their members. The lemmas show
  that the actions partition the live findings, that the ranking is the one the risk engine gives,
  with the risk removed never negative, and that an action states nothing no scanner reported.
\<close>

section \<open>Actions\<close>

type_synonym ActionKind = string
type_synonym Source = string

abbreviation KindUpgrade :: ActionKind where "KindUpgrade \<equiv> ''upgrade''"
abbreviation KindNoFixAvailable :: ActionKind where "KindNoFixAvailable \<equiv> ''no_fix_available''"
abbreviation KindRotateCredential :: ActionKind where "KindRotateCredential \<equiv> ''rotate_credential''"
abbreviation KindReconfigure :: ActionKind where "KindReconfigure \<equiv> ''reconfigure''"
abbreviation KindChangeCode :: ActionKind where "KindChangeCode \<equiv> ''change_code''"
abbreviation KindReviewLicense :: ActionKind where "KindReviewLicense \<equiv> ''review_license''"

abbreviation SourceVendor :: Source where "SourceVendor \<equiv> ''vendor''"
abbreviation SourceScanner :: Source where "SourceScanner \<equiv> ''scanner''"
abbreviation SourceDerived :: Source where "SourceDerived \<equiv> ''derived''"
abbreviation SourceAIExplanation :: Source where "SourceAIExplanation \<equiv> ''ai_explanation''"

record Statement =
  st_Source :: Source
  st_Text :: string

record RMember =
  rm_Fingerprint :: string
  rm_Scanner :: string
  rm_Severity :: Severity
  rm_Title :: string
  rm_Risk :: float64

record Action =
  act_Kind :: ActionKind
  act_Key :: string
  act_Component :: string
  act_FixedVersions :: "string list"
  act_References :: "string list"
  act_Statements :: "Statement list"
  act_Members :: "RMember list"
  act_RiskRemoved :: real
  act_ScoreAfter :: real

record Plan =
  plan_Actions :: "Action list"
  plan_Score :: real
  plan_Addressable :: nat

definition kindFor :: "Finding \<Rightarrow> ActionKind" where
  "kindFor f =
     (if Category f = CategoryDependency \<or> Category f = CategoryContainer then
        (if Fix_Available (FixInfo f) then KindUpgrade else KindNoFixAvailable)
      else if Category f = CategorySecrets then KindRotateCredential
      else if Category f = CategoryIaC then KindReconfigure
      else if Category f = CategoryLicense then KindReviewLicense
      else KindChangeCode)"

section \<open>Grouping\<close>

abbreviation maxVersions :: nat where "maxVersions \<equiv> 20"
abbreviation maxReferences :: nat where "maxReferences \<equiv> 20"

definition dedupe :: "string list \<Rightarrow> nat \<Rightarrow> string list" where
  "dedupe ins cap = take cap (sort (dedup (filter (\<lambda>v. v \<noteq> []) (map TrimSpace ins))))"

definition componentFor :: "Finding \<Rightarrow> ActionKind \<Rightarrow> string" where
  "componentFor f kind =
     (if kind = KindUpgrade \<or> kind = KindNoFixAvailable \<or> kind = KindReviewLicense then
        (if TrimSpace (PURL f) \<noteq> [] then TrimSpace (PURL f)
         else if TrimSpace (Package f) \<noteq> [] then TrimSpace (Package f)
         else Fingerprint f)
      else if kind = KindRotateCredential then Fingerprint f
      else if (kind = KindReconfigure \<or> kind = KindChangeCode) \<and> TrimSpace (ScannerFindingID f) \<noteq> []
        then TrimSpace (ScannerFindingID f) @ ''@'' @ take (min 12 (length (Fingerprint f))) (Fingerprint f)
      else Fingerprint f)"

definition memberOf :: "Action \<Rightarrow> string \<Rightarrow> bool" where
  "memberOf a fingerprint = list_ex (\<lambda>m. rm_Fingerprint m = fingerprint) (act_Members a)"

definition appendUnique :: "Statement list \<Rightarrow> Statement \<Rightarrow> Statement list" where
  "appendUnique ins s =
     (if list_ex (\<lambda>e. st_Text e = st_Text s \<and> st_Source e = st_Source s) ins then ins else ins @ [s])"

definition plural :: "nat \<Rightarrow> string \<Rightarrow> string" where
  "plural n noun = (if n = 1 then ''1 '' @ noun else Itoa n @ '' '' @ noun @ ''s'')"

definition fixStateAccount :: "Action \<Rightarrow> RiskSubject list \<Rightarrow> string" where
  "fixStateAccount a subjects =
     (let states = map (\<lambda>s. FixSt (FixInfo (rs_Finding s)))
        (filter (\<lambda>s. memberOf a (Fingerprint (rs_Finding s))) subjects)
      in if FixStateWontFix \<in> set states
           then ''The maintainer has declined to fix at least one of these, so no upgrade will ever resolve it.''
         else if FixStateNotFixed \<in> set states then ''A fix is not yet available.''
         else if states \<noteq> []
           then ''No scanner reported whether a fix exists, which is not the same as there being none.''
         else [])"

definition own_statements :: "Action \<Rightarrow> RiskSubject list \<Rightarrow> Statement list" where
  "own_statements a subjects =
     (if act_Kind a = KindUpgrade then
        [\<lparr>st_Source = SourceDerived,
          st_Text = ''Upgrade '' @ act_Component a @ '' to a version that resolves '' @
            plural (length (act_Members a)) ''finding'' @ ''. Versions reported as fixed: '' @
            Join (act_FixedVersions a) '', '' @ ''.''\<rparr>,
         \<lparr>st_Source = SourceVendor,
          st_Text = ''Fixed versions are as published by the advisory source; SecureOps does not choose between them.''\<rparr>]
      else if act_Kind a = KindNoFixAvailable then
        [\<lparr>st_Source = SourceDerived,
          st_Text = ''No upgrade target is known for '' @ act_Component a @ ''. '' @
            fixStateAccount a subjects @
            '' Mitigate with a compensating control, or record an accepted risk.''\<rparr>]
      else if act_Kind a = KindRotateCredential then
        [\<lparr>st_Source = SourceDerived,
          st_Text = ''Revoke this credential at its issuer first. Removing it from the file does not '' @
            ''invalidate it, and it remains in git history.''\<rparr>]
      else [])"

definition statementsFor :: "Action \<Rightarrow> RiskSubject list \<Rightarrow> Statement list" where
  "statementsFor a subjects =
     foldl (\<lambda>out s.
         if \<not> memberOf a (Fingerprint (rs_Finding s)) then out
         else if TrimSpace (Remediation (rs_Finding s)) \<noteq> []
           then appendUnique out \<lparr>st_Source = SourceScanner, st_Text = TrimSpace (Remediation (rs_Finding s))\<rparr>
         else out)
       (own_statements a subjects) subjects"

text \<open>
  The loop of \<open>group\<close>: the map \<open>byKey\<close> with the slice \<open>order\<close> is the list of actions in
  order of first sight.
\<close>

definition action_key :: "Finding \<Rightarrow> string" where
  "action_key f = kindFor f @ '':'' @ componentFor f (kindFor f)"

definition new_action :: "Finding \<Rightarrow> Action" where
  "new_action f = \<lparr>act_Kind = kindFor f, act_Key = action_key f,
     act_Component = componentFor f (kindFor f), act_FixedVersions = [], act_References = [],
     act_Statements = [], act_Members = [], act_RiskRemoved = 0, act_ScoreAfter = 0\<rparr>"

definition member_for :: "(string \<Rightarrow> float64) \<Rightarrow> Finding \<Rightarrow> RMember" where
  "member_for perFinding f = \<lparr>rm_Fingerprint = Fingerprint f, rm_Scanner = Scanner f,
     rm_Severity = Sev f, rm_Title = Title f, rm_Risk = perFinding (Fingerprint f)\<rparr>"

definition add_finding :: "(string \<Rightarrow> float64) \<Rightarrow> Finding \<Rightarrow> Action \<Rightarrow> Action" where
  "add_finding perFinding f a =
     a\<lparr>act_Members := act_Members a @ [member_for perFinding f],
       act_FixedVersions := act_FixedVersions a @ FixedVersions (FixInfo f),
       act_References := act_References a @ References (FixInfo f)\<rparr>"

fun group_step :: "(string \<Rightarrow> float64) \<Rightarrow> Action list \<Rightarrow> RiskSubject \<Rightarrow> Action list" where
  "group_step perFinding [] s =
     [add_finding perFinding (rs_Finding s) (new_action (rs_Finding s))]"
| "group_step perFinding (a # as) s =
     (if act_Key a = action_key (rs_Finding s) then add_finding perFinding (rs_Finding s) a # as
      else a # group_step perFinding as s)"

definition finish_action :: "RiskSubject list \<Rightarrow> Action \<Rightarrow> Action" where
  "finish_action subjects a0 =
     (let a = a0\<lparr>act_FixedVersions := dedupe (act_FixedVersions a0) maxVersions,
                 act_References := dedupe (act_References a0) maxReferences,
                 act_Members := sort_key rm_Fingerprint (act_Members a0)\<rparr>
      in a\<lparr>act_Statements := statementsFor a subjects\<rparr>)"

definition group :: "RiskSubject list \<Rightarrow> (string \<Rightarrow> float64) \<Rightarrow> Action list" where
  "group subjects perFinding =
     map (finish_action subjects) (foldl (group_step perFinding) [] subjects)"

section \<open>Build\<close>

definition isDismissed :: "Status \<Rightarrow> bool" where
  "isDismissed s = (s \<in> set [StatusResolved, StatusFalsePositive, StatusIgnored])"

definition plan_assess :: "golib \<Rightarrow> RiskSubject list \<Rightarrow> RiskContext \<Rightarrow> Weights \<Rightarrow> real \<times> Score list" where
  "plan_assess L subjects ctx w =
     (case AssessWith L subjects ctx w of
        Inl e \<Rightarrow> (0, []) | Inr a \<Rightarrow> (a_Score a, a_Findings a))"

definition without :: "RiskSubject list \<Rightarrow> RMember list \<Rightarrow> RiskSubject list" where
  "without subjects members =
     filter (\<lambda>s. Fingerprint (rs_Finding s) \<notin> set (map rm_Fingerprint members)) subjects"

text \<open>The map \<open>perFinding\<close>: the last score stored for a fingerprint, 0 when there is none.\<close>

definition per_finding :: "Score list \<Rightarrow> string \<Rightarrow> float64" where
  "per_finding scores = foldl (\<lambda>m sc. m(s_Fingerprint sc := s_Value sc)) (\<lambda>_. Fin 0) scores"

text \<open>The difference of two scores is rounded like every other operation.\<close>

definition score_action :: "golib \<Rightarrow> RiskSubject list \<Rightarrow> RiskContext \<Rightarrow> Weights \<Rightarrow> real \<Rightarrow> Action \<Rightarrow> Action" where
  "score_action L live ctx w baseline a =
     (let after = fst (plan_assess L (without live (act_Members a)) ctx w);
          removed = rnd64 (baseline - after)
      in a\<lparr>act_ScoreAfter := after, act_RiskRemoved := (if removed < 0 then 0 else removed)\<rparr>)"

definition rank_key :: "Action \<Rightarrow> real \<times> int \<times> string" where
  "rank_key a = (- act_RiskRemoved a, - int (length (act_Members a)), act_Key a)"

definition BuildWith :: "golib \<Rightarrow> RiskSubject list \<Rightarrow> RiskContext \<Rightarrow> Weights \<Rightarrow> Plan" where
  "BuildWith L subjects ctx w =
     (let live = filter (\<lambda>s. \<not> isDismissed (FStatus (rs_Finding s))) subjects;
          (baseline, scores) = plan_assess L live ctx w
      in if live = [] then \<lparr>plan_Actions = [], plan_Score = baseline, plan_Addressable = length live\<rparr>
         else \<lparr>plan_Actions = sort_key rank_key
                 (map (score_action L live ctx w baseline) (group live (per_finding scores))),
               plan_Score = baseline, plan_Addressable = length live\<rparr>)"

definition Build :: "golib \<Rightarrow> RiskSubject list \<Rightarrow> RiskContext \<Rightarrow> Plan" where
  "Build L subjects ctx = BuildWith L subjects ctx DefaultWeights"

section \<open>Specification vocabulary\<close>

text \<open>The action for a key, gathered from all findings with that key at once.\<close>

definition with_key :: "RiskSubject list \<Rightarrow> string \<Rightarrow> RiskSubject list" where
  "with_key ss k = filter (\<lambda>s. action_key (rs_Finding s) = k) ss"

definition gather :: "(string \<Rightarrow> float64) \<Rightarrow> RiskSubject list \<Rightarrow> string \<Rightarrow> Action" where
  "gather pf ss k =
     (new_action (rs_Finding (hd (with_key ss k))))
       \<lparr>act_Members := map (\<lambda>s. member_for pf (rs_Finding s)) (with_key ss k),
        act_FixedVersions := concat (map (\<lambda>s. FixedVersions (FixInfo (rs_Finding s))) (with_key ss k)),
        act_References := concat (map (\<lambda>s. References (FixInfo (rs_Finding s))) (with_key ss k))\<rparr>"

abbreviation keys_in_order :: "RiskSubject list \<Rightarrow> string list" where
  "keys_in_order ss \<equiv> dedup (map (\<lambda>s. action_key (rs_Finding s)) ss)"

definition sample_work :: "string \<Rightarrow> Category \<Rightarrow> string list \<Rightarrow> RiskSubject" where
  "sample_work fpr cat versions =
     \<lparr>rs_Finding = zero_Finding\<lparr>Fingerprint := fpr, Category := cat, Sev := SeverityHigh,
        Conf := ConfidenceHigh, PURL := ''pkg:npm/x@1'', Remediation := ''see advisory'',
        FixInfo := \<lparr>FixSt = (if versions = [] then FixStateNotFixed else FixStateFixed),
          FixedVersions = versions, References = []\<rparr>\<rparr>,
      rs_Sources = [''grype''], rs_IssueSeverity = [], rs_IssueKey = []\<rparr>"

definition sample_backlog :: "RiskSubject list" where
  "sample_backlog = [sample_work ''a'' CategoryDependency [''1.2''], sample_work ''b'' CategorySecrets [],
     sample_work ''c'' CategoryContainer [''1.3'']]"

section \<open>The grouping loop gathers by key\<close>

interpretation plan_lifecycle: dismissal isDismissed
  by unfold_locales (simp add: isDismissed_def)

lemma live_eq: "filter (\<lambda>s. \<not> isDismissed (FStatus (rs_Finding s))) ss = live_subjects ss"
proof -
  have "isDismissed = dismissed"
    by (rule plan_lifecycle.agrees [OF risk_lifecycle.dismissal_axioms, symmetric])
  then show ?thesis by (simp add: live_subjects_def)
qed

lemma group_step_map:
  assumes "\<And>k. k \<in> set ks \<Longrightarrow> act_Key (F k) = k" "distinct ks"
  shows "group_step pf (map F ks) s =
    (if action_key (rs_Finding s) \<in> set ks
     then map (F(action_key (rs_Finding s) := add_finding pf (rs_Finding s) (F (action_key (rs_Finding s))))) ks
     else map F ks @ [add_finding pf (rs_Finding s) (new_action (rs_Finding s))])"
  using assms by (induction ks) (auto simp del: fun_upd_apply simp: map_fun_upd fun_upd_same fun_upd_other)

lemma act_Key_gather: "k \<in> set (keys_in_order ss) \<Longrightarrow> act_Key (gather pf ss k) = k"
proof -
  assume "k \<in> set (keys_in_order ss)"
  then have "with_key ss k \<noteq> []" by (auto simp: with_key_def filter_empty_conv)
  then have "hd (with_key ss k) \<in> set (with_key ss k)" by (rule hd_in_set)
  then show "act_Key (gather pf ss k) = k" by (simp add: gather_def new_action_def with_key_def)
qed

lemma with_key_snoc:
  "with_key (ss @ [s]) k = (if action_key (rs_Finding s) = k then with_key ss k @ [s] else with_key ss k)"
  by (simp add: with_key_def)

lemma gather_snoc:
  "gather pf (ss @ [s]) k =
    (if action_key (rs_Finding s) \<noteq> k then gather pf ss k
     else if k \<in> set (keys_in_order ss) then add_finding pf (rs_Finding s) (gather pf ss k)
     else add_finding pf (rs_Finding s) (new_action (rs_Finding s)))"
proof -
  have "k \<in> set (keys_in_order ss) \<longleftrightarrow> with_key ss k \<noteq> []"
    by (auto simp: with_key_def filter_empty_conv)
  then show ?thesis
    by (auto simp: gather_def with_key_snoc add_finding_def new_action_def)
qed

lemma group_loop: "foldl (group_step pf) [] ss = map (gather pf ss) (keys_in_order ss)"
proof (induction ss rule: rev_induct)
  case (snoc s ss)
  let ?k = "action_key (rs_Finding s)"
  have step: "foldl (group_step pf) [] (ss @ [s]) = group_step pf (map (gather pf ss) (keys_in_order ss)) s"
    using snoc by simp
  have g: "group_step pf (map (gather pf ss) (keys_in_order ss)) s =
      (if ?k \<in> set (keys_in_order ss)
       then map ((gather pf ss)(?k := add_finding pf (rs_Finding s) (gather pf ss ?k))) (keys_in_order ss)
       else map (gather pf ss) (keys_in_order ss) @ [add_finding pf (rs_Finding s) (new_action (rs_Finding s))])"
    by (rule group_step_map) (rule act_Key_gather, assumption, rule distinct_dedup)
  show ?case
  proof (cases "?k \<in> set (keys_in_order ss)")
    case True
    then have "gather pf (ss @ [s]) = (gather pf ss)(?k := add_finding pf (rs_Finding s) (gather pf ss ?k))"
      by (auto simp: fun_eq_iff gather_snoc)
    moreover have "keys_in_order (ss @ [s]) = keys_in_order ss" using True by (simp add: dedup_snoc)
    ultimately show ?thesis using True unfolding step g by (simp only: if_True)
  next
    case False
    then have "map (gather pf (ss @ [s])) (keys_in_order ss) = map (gather pf ss) (keys_in_order ss)"
      by (auto simp: gather_snoc)
    moreover have "keys_in_order (ss @ [s]) = keys_in_order ss @ [?k]" using False by (simp add: dedup_snoc)
    moreover have "gather pf (ss @ [s]) ?k = add_finding pf (rs_Finding s) (new_action (rs_Finding s))"
      using False by (simp only: gather_snoc if_False simp_thms)
    ultimately show ?thesis using False unfolding step g by (simp only: if_False map_append list.map)
  qed
qed simp

lemma group_eq: "group ss pf = map (\<lambda>k. finish_action ss (gather pf ss k)) (keys_in_order ss)"
  by (simp add: group_def group_loop)

section \<open>What an action holds\<close>

lemma finish_action_simps [simp]:
  "act_Key (finish_action ss a) = act_Key a" "act_Kind (finish_action ss a) = act_Kind a"
  "act_Members (finish_action ss a) = sort_key rm_Fingerprint (act_Members a)"
  "act_FixedVersions (finish_action ss a) = dedupe (act_FixedVersions a) maxVersions"
  by (simp_all add: finish_action_def Let_def)

lemma score_action_simps [simp]:
  "act_Key (score_action L live ctx w b a) = act_Key a"
  "act_Kind (score_action L live ctx w b a) = act_Kind a"
  "act_Members (score_action L live ctx w b a) = act_Members a"
  "act_FixedVersions (score_action L live ctx w b a) = act_FixedVersions a"
  "act_Statements (score_action L live ctx w b a) = act_Statements a"
  by (simp_all add: score_action_def Let_def)

lemma BuildWith_parts:
  "plan_Score (BuildWith L ss ctx w) = fst (plan_assess L (live_subjects ss) ctx w)"
  "plan_Addressable (BuildWith L ss ctx w) = length (live_subjects ss)"
  "plan_Actions (BuildWith L ss ctx w) = sort_key rank_key
     (map (score_action L (live_subjects ss) ctx w (fst (plan_assess L (live_subjects ss) ctx w)))
       (group (live_subjects ss) (per_finding (snd (plan_assess L (live_subjects ss) ctx w)))))"
  by (simp_all add: BuildWith_def live_eq Let_def prod.case_eq_if group_def)

lemma action_in_plan:
  assumes "a \<in> set (plan_Actions (BuildWith L ss ctx w))"
  obtains k pf where "k \<in> set (keys_in_order (live_subjects ss))"
    "a = score_action L (live_subjects ss) ctx w (plan_Score (BuildWith L ss ctx w))
      (finish_action (live_subjects ss) (gather pf (live_subjects ss) k))"
  using assms by (auto simp: BuildWith_parts group_eq)

text \<open>Grouping by a function partitions a list.\<close>

lemma mset_group_by:
  "distinct ks \<Longrightarrow> mset (concat (map (\<lambda>k. filter (\<lambda>x. f x = k) xs) ks)) = mset (filter (\<lambda>x. f x \<in> set ks) xs)"
proof (induction ks)
  case (Cons k ks)
  have "mset (filter (\<lambda>x. f x = k) xs) + mset (filter (\<lambda>x. f x \<in> set ks) xs) =
      mset (filter (\<lambda>x. f x = k \<or> f x \<in> set ks) xs)"
    using Cons.prems by (induction xs) auto
  with Cons show ?case by simp
qed simp

lemma plan_members_mset:
  "mset (concat (map (\<lambda>a. map rm_Fingerprint (act_Members a)) (plan_Actions (BuildWith L ss ctx w)))) =
   mset (map (\<lambda>s. Fingerprint (rs_Finding s)) (live_subjects ss))"
proof -
  let ?live = "live_subjects ss"
  have bag: "mset (concat (map g xs)) = sum_mset (image_mset (\<lambda>x. mset (g x)) (mset xs))"
    for g :: "Action \<Rightarrow> string list" and xs by (induction xs) auto
  have sorted: "mset (concat (map g (sort_key rank_key xs))) = mset (concat (map g xs))"
    for g :: "Action \<Rightarrow> string list" and xs by (simp only: bag mset_sort)
  have "mset (concat (map (\<lambda>k. map (\<lambda>s. Fingerprint (rs_Finding s)) (with_key ?live k)) (keys_in_order ?live))) =
      image_mset (\<lambda>s. Fingerprint (rs_Finding s)) (mset (concat (map (with_key ?live) (keys_in_order ?live))))"
    by (simp add: map_concat [symmetric] flip: mset_map) (simp add: map_concat comp_def)
  also have "mset (concat (map (with_key ?live) (keys_in_order ?live))) = mset ?live"
    using mset_group_by [OF distinct_dedup, of "\<lambda>s. action_key (rs_Finding s)" ?live "[]" "map (\<lambda>s. action_key (rs_Finding s)) ?live"]
    by (simp add: with_key_def [abs_def])
  finally show ?thesis
    unfolding BuildWith_parts(3) sorted group_eq
    by (simp add: comp_def gather_def member_for_def mset_concat image_mset.compositionality)
qed

lemma kindFor_kinds:
  "kindFor f \<in> {KindUpgrade, KindNoFixAvailable, KindRotateCredential, KindReconfigure, KindChangeCode,
     KindReviewLicense}"
  by (simp add: kindFor_def)

text \<open>No kind contains a colon, so findings with one action key have one kind.\<close>

lemma action_key_kind: "action_key f = action_key g \<Longrightarrow> kindFor f = kindFor g"
  using kindFor_kinds [of f] kindFor_kinds [of g] unfolding action_key_def by auto

lemma action_members:
  assumes "a \<in> set (plan_Actions (BuildWith L ss ctx w))"
  obtains g where "g \<noteq> []" "set g \<subseteq> set (live_subjects ss)"
    "mset (map rm_Fingerprint (act_Members a)) = mset (map (\<lambda>s. Fingerprint (rs_Finding s)) g)"
    "\<forall>s \<in> set g. kindFor (rs_Finding s) = act_Kind a \<and> action_key (rs_Finding s) = act_Key a"
    "act_FixedVersions a = dedupe (concat (map (\<lambda>s. FixedVersions (FixInfo (rs_Finding s))) g)) maxVersions"
proof -
  let ?live = "live_subjects ss"
  obtain k pf where k: "k \<in> set (keys_in_order ?live)" and a: "a = score_action L ?live ctx w
      (plan_Score (BuildWith L ss ctx w)) (finish_action ?live (gather pf ?live k))"
    by (rule action_in_plan [OF assms])
  let ?g = "with_key ?live k"
  have ne: "?g \<noteq> []" using k by (auto simp: with_key_def filter_empty_conv)
  have hd: "action_key (rs_Finding (hd ?g)) = k" using hd_in_set [OF ne] by (simp add: with_key_def)
  have kind: "\<forall>s \<in> set ?g. kindFor (rs_Finding s) = act_Kind a \<and> action_key (rs_Finding s) = act_Key a"
  proof
    fix s assume "s \<in> set ?g"
    then have s: "action_key (rs_Finding s) = k" by (simp add: with_key_def)
    have "act_Kind a = kindFor (rs_Finding (hd ?g))" "act_Key a = k"
      using hd by (simp_all add: a gather_def new_action_def)
    with s show "kindFor (rs_Finding s) = act_Kind a \<and> action_key (rs_Finding s) = act_Key a"
      using action_key_kind [of "rs_Finding s" "rs_Finding (hd ?g)"] hd by simp
  qed
  have members: "mset (map rm_Fingerprint (act_Members a)) = mset (map (\<lambda>s. Fingerprint (rs_Finding s)) ?g)"
    by (simp add: a gather_def member_for_def image_mset.compositionality comp_def)
  have versions: "act_FixedVersions a =
      dedupe (concat (map (\<lambda>s. FixedVersions (FixInfo (rs_Finding s))) ?g)) maxVersions"
    by (simp add: a gather_def)
  have live: "set ?g \<subseteq> set ?live" by (auto simp: with_key_def)
  show ?thesis by (rule that [OF ne live members kind versions])
qed

section \<open>The score of what remains\<close>

definition plan_ok :: "golib \<Rightarrow> RiskContext \<Rightarrow> Weights \<Rightarrow> RiskSubject list \<Rightarrow> bool" where
  "plan_ok L ctx w ss \<longleftrightarrow> weights_ok w \<and> threats_ok ss \<and> length ss \<le> 2 ^ 24 \<and>
     is_finite (a_Total (assess L ss ctx w))"

interpretation plan_risk: risk_engine "plan_ok L ctx w" "\<lambda>ss. fst (plan_assess L ss ctx w)"
  for L :: golib and ctx :: RiskContext and w :: Weights
proof unfold_locales
  fix ss rs
  show "0 \<le> fst (plan_assess L ss ctx w)" "fst (plan_assess L ss ctx w) \<le> 100"
    by (simp_all add: plan_assess_def AssessWith_def assess_score_range split: option.split)
  assume ok: "plan_ok L ctx w ss" and sub: "subseq rs ss"
  then obtain t where "a_Total (assess L ss ctx w) = Fin t" by (auto simp: plan_ok_def elim: is_finite.elims)
  with ok sub have "a_Score (assess L rs ctx w) \<le> a_Score (assess L ss ctx w)"
    unfolding plan_ok_def by (metis assess_mono)
  with ok show "fst (plan_assess L rs ctx w) \<le> fst (plan_assess L ss ctx w)"
    by (simp add: plan_assess_def AssessWith_def weights_ok_def plan_ok_def)
qed

lemma plan_ok_live:
  assumes "weights_ok w" "threats_ok ss" "length ss \<le> 2 ^ 24" "is_finite (a_Total (assess L ss ctx w))"
  shows "plan_ok L ctx w (live_subjects ss)"
proof -
  have "live_risks L w ctx (live_subjects ss) = live_risks L w ctx ss"
    by (simp add: live_risks_def live_subjects_def)
  then show ?thesis
    using assms by (auto simp: plan_ok_def assess_simps(1) live_subjects_def list_all_iff
        intro: order_trans [OF length_filter_le])
qed

lemma plan_score_action:
  assumes "a \<in> set (plan_Actions (BuildWith L ss ctx w))"
  shows "act_ScoreAfter a = fst (plan_assess L (without (live_subjects ss) (act_Members a)) ctx w)"
    "act_RiskRemoved a = max 0 (rnd64 (plan_Score (BuildWith L ss ctx w) - act_ScoreAfter a))"
proof -
  obtain k pf where a: "a = score_action L (live_subjects ss) ctx w
      (plan_Score (BuildWith L ss ctx w)) (finish_action (live_subjects ss) (gather pf (live_subjects ss) k))"
    by (rule action_in_plan [OF assms])
  show "act_ScoreAfter a = fst (plan_assess L (without (live_subjects ss) (act_Members a)) ctx w)"
    by (simp add: a) (simp add: score_action_def Let_def)
  show "act_RiskRemoved a = max 0 (rnd64 (plan_Score (BuildWith L ss ctx w) - act_ScoreAfter a))"
    by (simp add: a score_action_def Let_def)
qed

section \<open>Statements\<close>

lemma own_statements_source:
  "st \<in> set (own_statements a ss) \<Longrightarrow> st_Source st \<in> {SourceDerived, SourceVendor}"
  by (auto simp: own_statements_def split: if_splits)

lemma statementsFor_source:
  assumes "st \<in> set (statementsFor a ss)"
  shows "st \<in> set (own_statements a ss) \<or> st_Source st = SourceScanner \<and>
    (\<exists>s \<in> set ss. memberOf a (Fingerprint (rs_Finding s)) \<and> st_Text st = TrimSpace (Remediation (rs_Finding s)))"
proof -
  define step :: "Statement list \<Rightarrow> RiskSubject \<Rightarrow> Statement list" where "step = (\<lambda>out s.
      if \<not> memberOf a (Fingerprint (rs_Finding s)) then out
      else if TrimSpace (Remediation (rs_Finding s)) \<noteq> []
        then appendUnique out \<lparr>st_Source = SourceScanner, st_Text = TrimSpace (Remediation (rs_Finding s))\<rparr>
      else out)"
  have "st \<in> set (foldl step out xs) \<Longrightarrow> st \<in> set out \<or> st_Source st = SourceScanner \<and>
    (\<exists>s \<in> set xs. memberOf a (Fingerprint (rs_Finding s)) \<and> st_Text st = TrimSpace (Remediation (rs_Finding s)))"
    for out xs
    by (induction xs arbitrary: out) (fastforce simp: step_def appendUnique_def split: if_splits)+
  with assms show ?thesis unfolding statementsFor_def step_def [symmetric] by blast
qed

lemma own_statements_kept: "set (own_statements a ss) \<subseteq> set (statementsFor a ss)"
proof -
  define step :: "Statement list \<Rightarrow> RiskSubject \<Rightarrow> Statement list" where "step = (\<lambda>out s.
      if \<not> memberOf a (Fingerprint (rs_Finding s)) then out
      else if TrimSpace (Remediation (rs_Finding s)) \<noteq> []
        then appendUnique out \<lparr>st_Source = SourceScanner, st_Text = TrimSpace (Remediation (rs_Finding s))\<rparr>
      else out)"
  have "set out \<subseteq> set (foldl step out xs)" for out xs
  proof (induction xs arbitrary: out)
    case (Cons x xs)
    have "set out \<subseteq> set (step out x)" by (auto simp: step_def appendUnique_def)
    with Cons [of "step out x"] show ?case by auto
  qed simp
  then show ?thesis unfolding statementsFor_def step_def [symmetric] .
qed

lemma action_statements:
  assumes "a \<in> set (plan_Actions (BuildWith L ss ctx w))"
  obtains b where "act_Statements a = statementsFor b (live_subjects ss)" "memberOf b = memberOf a"
    "act_Kind b = act_Kind a"
proof -
  let ?live = "live_subjects ss"
  obtain k pf where a: "a = score_action L ?live ctx w (plan_Score (BuildWith L ss ctx w))
      (finish_action ?live (gather pf ?live k))"
    by (rule action_in_plan [OF assms])
  define b where "b = (gather pf ?live k)
      \<lparr>act_FixedVersions := dedupe (act_FixedVersions (gather pf ?live k)) maxVersions,
       act_References := dedupe (act_References (gather pf ?live k)) maxReferences,
       act_Members := sort_key rm_Fingerprint (act_Members (gather pf ?live k))\<rparr>"
  have "act_Statements a = statementsFor b ?live"
    by (simp add: a b_def) (simp add: finish_action_def Let_def)
  moreover have "memberOf b = memberOf a" "act_Kind b = act_Kind a"
    by (simp_all add: a b_def memberOf_def fun_eq_iff)
  ultimately show ?thesis by (rule that)
qed

lemma set_dedupe: "v \<in> set (dedupe vs cap) \<Longrightarrow> v \<noteq> [] \<and> (\<exists>u \<in> set vs. v = TrimSpace u)"
  by (auto simp: dedupe_def dest!: in_set_takeD)

lemma dedupe_nonempty:
  assumes "0 < cap" "u \<in> set vs" "TrimSpace u \<noteq> []"
  shows "dedupe vs cap \<noteq> []"
proof -
  have "TrimSpace u \<in> set (sort (dedup (filter (\<lambda>v. v \<noteq> []) (map TrimSpace vs))))"
    using assms(2,3) by simp
  then have "sort (dedup (filter (\<lambda>v. v \<noteq> []) (map TrimSpace vs))) \<noteq> []" by (metis empty_iff empty_set)
  with assms(1) show ?thesis by (simp only: dedupe_def take_eq_Nil) simp
qed

lemma sample_backlog_ok: "threats_ok sample_backlog"
  by (simp add: sample_backlog_def sample_work_def zero_Finding_def Threat_Validate_def)

section \<open>Properties\<close>

text \<open>
  The plan loses nothing and invents nothing. Counted with multiplicity, the members of the
  actions are exactly the live findings, no action is empty, and \<open>Addressable\<close> is their number.
\<close>

theorem plan_partitions_live_findings:
  "mset (concat (map (\<lambda>a. map rm_Fingerprint (act_Members a)) (plan_Actions (BuildWith L ss ctx w)))) =
     mset (map (\<lambda>s. Fingerprint (rs_Finding s))
       (filter (\<lambda>s. \<not> isDismissed (FStatus (rs_Finding s))) ss)) \<and>
   plan_Addressable (BuildWith L ss ctx w) = length (filter (\<lambda>s. \<not> isDismissed (FStatus (rs_Finding s))) ss) \<and>
   [] \<notin> act_Members ` set (plan_Actions (BuildWith L ss ctx w))"
proof -
  have "[] \<notin> act_Members ` set (plan_Actions (BuildWith L ss ctx w))"
  proof
    assume "[] \<in> act_Members ` set (plan_Actions (BuildWith L ss ctx w))"
    then obtain a where a: "a \<in> set (plan_Actions (BuildWith L ss ctx w))" "act_Members a = []" by force
    show False by (rule action_members [OF a(1)]) (use a(2) in auto)
  qed
  then show ?thesis by (simp add: plan_members_mset BuildWith_parts(2) live_eq)
qed

text \<open>
  The ranking signal is the risk engine's. For validated weights and findings with a finite total,
  up to \<open>2 ^ 24\<close> of them, every action's \<open>ScoreAfter\<close> is the project score without its members,
  \<open>RiskRemoved\<close> is the rounded difference to the current score, is never negative and never above
  100: the clamp in the source never fires.
\<close>

theorem risk_removed_is_score_difference:
  assumes "weights_ok w" "threats_ok ss" "length ss \<le> 2 ^ 24" "is_finite (a_Total (assess L ss ctx w))"
    and "a \<in> set (plan_Actions (BuildWith L ss ctx w))"
  shows "act_ScoreAfter a = a_Score (assess L (without (live_subjects ss) (act_Members a)) ctx w) \<and>
    act_RiskRemoved a = rnd64 (plan_Score (BuildWith L ss ctx w) - act_ScoreAfter a) \<and>
    0 \<le> act_RiskRemoved a \<and> act_RiskRemoved a \<le> 100"
proof -
  note r = plan_risk.removal_range [OF plan_ok_live [OF assms(1-4)],
      of "\<lambda>s. Fingerprint (rs_Finding s) \<notin> set (map rm_Fingerprint (act_Members a))",
      folded without_def]
  have "act_ScoreAfter a = a_Score (assess L (without (live_subjects ss) (act_Members a)) ctx w)"
    using plan_score_action(1) [OF assms(5)] assms(1)
    by (simp add: plan_assess_def AssessWith_def weights_ok_def)
  with r plan_score_action [OF assms(5)] show ?thesis by (simp add: BuildWith_parts(1))
qed

theorem risk_removed_is_score_difference_witness:
  "\<exists>a \<in> set (plan_Actions (BuildWith sample_lib sample_backlog sample_context DefaultWeights)).
     0 \<le> act_RiskRemoved a"
proof -
  have "plan_Actions (BuildWith sample_lib sample_backlog sample_context DefaultWeights) \<noteq> []"
    using plan_members_mset [of sample_lib sample_backlog sample_context DefaultWeights]
    by (auto simp: live_subjects_def sample_backlog_def sample_work_def dismissed_def zero_Finding_def)
  then obtain a where "a \<in> set (plan_Actions (BuildWith sample_lib sample_backlog sample_context DefaultWeights))"
    by (meson last_in_set)
  moreover have "length sample_backlog \<le> 2 ^ 24" by (simp add: sample_backlog_def)
  ultimately show ?thesis
    using risk_removed_is_score_difference [OF DefaultWeights_ok sample_backlog_ok] default_total_finite [OF sample_backlog_ok]
    by blast
qed

text \<open>
  The ranking is total. Actions come in order of risk removed, most first, then of the number
  of findings they close, then of their key; no two actions share a key, so the order leaves no
  choice.
\<close>

theorem plan_is_ranked:
  "sorted_wrt (\<lambda>a b. act_RiskRemoved a > act_RiskRemoved b \<or>
       act_RiskRemoved a = act_RiskRemoved b \<and>
         (length (act_Members a) > length (act_Members b) \<or>
          length (act_Members a) = length (act_Members b) \<and> act_Key a < act_Key b))
     (plan_Actions (BuildWith L ss ctx w))"
proof -
  let ?as = "plan_Actions (BuildWith L ss ctx w)"
  have srt: "sorted (map rank_key ?as)" unfolding BuildWith_parts(3) by simp
  let ?raw = "map (score_action L (live_subjects ss) ctx w (fst (plan_assess L (live_subjects ss) ctx w)))
      (group (live_subjects ss) (per_finding (snd (plan_assess L (live_subjects ss) ctx w))))"
  have "map act_Key ?raw = keys_in_order (live_subjects ss)"
    by (simp add: group_eq comp_def) (rule map_idI, rule act_Key_gather)
  moreover have "mset (map act_Key ?as) = mset (map act_Key ?raw)"
    unfolding BuildWith_parts(3) by (simp only: mset_map mset_sort)
  ultimately have "distinct (map act_Key ?as)" by (metis distinct_dedup mset_eq_imp_distinct_iff)
  then have "distinct (map rank_key ?as)" by (auto simp: distinct_map inj_on_def rank_key_def)
  with srt have "sorted_wrt (<) (map rank_key ?as)" by (simp add: strict_sorted_iff)
  then show ?thesis by (simp add: sorted_wrt_map) (rule sorted_wrt_mono_rel, auto simp: rank_key_def)
qed

text \<open>
  No invented version. Every version an action names was reported by a scanner for one of its
  members; every member of an upgrade has a published fix, never a declined one; and when the
  findings passed validation an upgrade always has a version to name.
\<close>

theorem versions_come_from_scanners:
  assumes "a \<in> set (plan_Actions (BuildWith L ss ctx w))"
  shows "set (act_FixedVersions a) \<subseteq> (\<Union>s \<in> {s \<in> set ss. memberOf a (Fingerprint (rs_Finding s))}.
      TrimSpace ` set (FixedVersions (FixInfo (rs_Finding s)))) \<and>
    (act_Kind a = KindUpgrade \<longrightarrow>
      (\<exists>g. set g \<subseteq> set ss \<and> (\<forall>s \<in> set g. FixSt (FixInfo (rs_Finding s)) = FixStateFixed) \<and>
        mset (map rm_Fingerprint (act_Members a)) = mset (map (\<lambda>s. Fingerprint (rs_Finding s)) g)) \<and>
      ((\<forall>s \<in> set ss. Finding_Validate (rs_Finding s) = None) \<longrightarrow> act_FixedVersions a \<noteq> []))"
proof (rule action_members [OF assms])
  fix g
  assume g: "g \<noteq> []" "set g \<subseteq> set (live_subjects ss)"
    "mset (map rm_Fingerprint (act_Members a)) = mset (map (\<lambda>s. Fingerprint (rs_Finding s)) g)"
    "\<forall>s \<in> set g. kindFor (rs_Finding s) = act_Kind a \<and> action_key (rs_Finding s) = act_Key a"
    "act_FixedVersions a = dedupe (concat (map (\<lambda>s. FixedVersions (FixInfo (rs_Finding s))) g)) maxVersions"
  have sub: "set g \<subseteq> set ss" using g(2) by (auto simp: live_subjects_def)
  have mem: "memberOf a (Fingerprint (rs_Finding s))" if "s \<in> set g" for s
  proof -
    have "rm_Fingerprint ` set (act_Members a) = (\<lambda>s. Fingerprint (rs_Finding s)) ` set g"
      using arg_cong [OF g(3), of set_mset] by simp
    then have "Fingerprint (rs_Finding s) \<in> rm_Fingerprint ` set (act_Members a)" using that by simp
    then show ?thesis by (auto simp: memberOf_def list_ex_iff)
  qed
  have "set (act_FixedVersions a) \<subseteq> (\<Union>s \<in> set g. TrimSpace ` set (FixedVersions (FixInfo (rs_Finding s))))"
    unfolding g(5) using set_dedupe by fastforce
  then have "set (act_FixedVersions a) \<subseteq> (\<Union>s \<in> {s \<in> set ss. memberOf a (Fingerprint (rs_Finding s))}.
      TrimSpace ` set (FixedVersions (FixInfo (rs_Finding s))))"
    using sub mem by blast
  moreover have avail: "\<forall>s \<in> set g. Fix_Available (FixInfo (rs_Finding s))" if "act_Kind a = KindUpgrade"
    using g(4) that by (auto simp: kindFor_def split: if_splits)
  moreover have "act_FixedVersions a \<noteq> []" if "act_Kind a = KindUpgrade"
    and V: "\<forall>s \<in> set ss. Finding_Validate (rs_Finding s) = None"
  proof -
    let ?f = "FixInfo (rs_Finding (hd g))"
    have h: "hd g \<in> set g" using g(1) by simp
    have "FixedVersions ?f \<noteq> []" using avail [OF that(1)] h by (auto simp: Fix_Available_def)
    then have v: "hd (FixedVersions ?f) \<in> set (FixedVersions ?f)" by simp
    have "Fix_Validate ?f = None" using V h sub Finding_Validate_parts(4) by blast
    from Fix_Validate_versions(2) [OF this v] show ?thesis
      unfolding g(5) using h v by (intro dedupe_nonempty [of _ "hd (FixedVersions ?f)"]) auto
  qed
  ultimately show ?thesis using sub g(3) by (auto simp: Fix_Available_def)
qed

theorem versions_come_from_scanners_witness:
  "\<exists>a \<in> set (plan_Actions (BuildWith sample_lib sample_backlog sample_context DefaultWeights)).
     set (act_FixedVersions a) \<subseteq> {''1.2'', ''1.3''}"
proof -
  have "plan_Actions (BuildWith sample_lib sample_backlog sample_context DefaultWeights) \<noteq> []"
    using plan_members_mset [of sample_lib sample_backlog sample_context DefaultWeights]
    by (auto simp: live_subjects_def sample_backlog_def sample_work_def dismissed_def zero_Finding_def)
  then obtain a where a: "a \<in> set (plan_Actions (BuildWith sample_lib sample_backlog sample_context DefaultWeights))"
    by (meson last_in_set)
  define V :: "string set" where "V = {''1.2'', ''1.3''}"
  have t: "TrimSpace ''1.2'' = ''1.2''" "TrimSpace ''1.3'' = ''1.3''" by code_simp+
  have img: "TrimSpace ` V = V" by (simp only: V_def image_insert image_empty t)
  have "set (FixedVersions (FixInfo (rs_Finding s))) \<subseteq> V" if "s \<in> set sample_backlog" for s
    using that by (auto simp: sample_backlog_def sample_work_def V_def)
  then have "TrimSpace ` set (FixedVersions (FixInfo (rs_Finding s))) \<subseteq> V" if "s \<in> set sample_backlog" for s
    using that image_mono img by metis
  then have "(\<Union>s \<in> {s \<in> set sample_backlog. memberOf a (Fingerprint (rs_Finding s))}.
      TrimSpace ` set (FixedVersions (FixInfo (rs_Finding s)))) \<subseteq> V"
    by blast
  with versions_come_from_scanners [OF a] have "set (act_FixedVersions a) \<subseteq> V" by blast
  with a show ?thesis unfolding V_def by (intro bexI [of _ a])
qed

text \<open>
  No generated advice. Every statement of an action is SecureOps' own fixed text, tagged as
  derived or vendor, or the verbatim remediation text a scanner gave for a member, tagged as the
  scanner's; none is tagged as an AI explanation.
\<close>

theorem statements_are_attributed:
  assumes "a \<in> set (plan_Actions (BuildWith L ss ctx w))" "st \<in> set (act_Statements a)"
  shows "st_Source st \<noteq> SourceAIExplanation \<and>
    (st_Source st = SourceScanner \<longrightarrow> (\<exists>s \<in> set ss. memberOf a (Fingerprint (rs_Finding s)) \<and>
      st_Text st = TrimSpace (Remediation (rs_Finding s))))"
proof -
  obtain b where b: "act_Statements a = statementsFor b (live_subjects ss)" "memberOf b = memberOf a"
    by (rule action_statements [OF assms(1)])
  have "set (live_subjects ss) \<subseteq> set ss" by (auto simp: live_subjects_def)
  then show ?thesis
    using statementsFor_source [of st b "live_subjects ss"] own_statements_source [of st b "live_subjects ss"]
      assms(2) b by auto
qed

theorem statements_are_attributed_witness:
  "\<exists>a \<in> set (plan_Actions (BuildWith sample_lib [sample_work ''b'' CategorySecrets []] sample_context DefaultWeights)).
     \<exists>st \<in> set (act_Statements a). st_Source st \<noteq> SourceAIExplanation"
proof -
  let ?ss = "[sample_work ''b'' CategorySecrets []]"
  let ?p = "plan_Actions (BuildWith sample_lib ?ss sample_context DefaultWeights)"
  have l: "live_subjects ?ss = ?ss"
    by (simp add: live_subjects_def sample_work_def dismissed_def zero_Finding_def)
  have "?p \<noteq> []" using plan_members_mset [of sample_lib ?ss sample_context DefaultWeights] by (auto simp: l)
  then obtain a where a: "a \<in> set ?p" by (meson last_in_set)
  obtain g where g: "g \<noteq> []" "set g \<subseteq> set ?ss" "\<forall>s \<in> set g. kindFor (rs_Finding s) = act_Kind a"
    by (rule action_members [OF a, unfolded l]) blast
  then have "act_Kind a = KindRotateCredential"
    by (cases g) (auto simp: sample_work_def kindFor_def)
  moreover obtain b where b: "act_Statements a = statementsFor b ?ss" "act_Kind b = act_Kind a"
    by (rule action_statements [OF a, unfolded l])
  ultimately have "own_statements b ?ss \<noteq> []" by (simp add: own_statements_def)
  then obtain st where "st \<in> set (own_statements b ?ss)" by (meson last_in_set)
  then have "st \<in> set (act_Statements a)" using own_statements_kept b(1) by fastforce
  with statements_are_attributed [OF a this] a show ?thesis by blast
qed

text \<open>
  A fix that lists versions without claiming the state \<open>fixed\<close> is valid, and is grouped as having
  no fix: the action then says that no upgrade target is known and carries the versions all the same.
\<close>

lemma versions_without_state_are_no_fix:
  "Fix_Validate \<lparr>FixSt = [], FixedVersions = [''1.2''], References = []\<rparr> = None \<and>
   kindFor (zero_Finding\<lparr>Category := CategoryDependency,
     FixInfo := \<lparr>FixSt = [], FixedVersions = [''1.2''], References = []\<rparr>\<rparr>) = KindNoFixAvailable"
  by code_simp

end
