(* ===== verification/Netguard.thy ===== *)
theory Netguard
  imports Go_Prelude
begin

text \<open>
  The SSRF guard: \<open>internal/netguard/netguard.go\<close>, with the methods of \<open>net.IP\<close> and
  \<open>net.SplitHostPort\<close> it calls. An address is a list of bytes, as in Go: four for IPv4, sixteen
  for IPv6 and for IPv4 in its mapped form. The lemmas give the blocked ranges as intervals and
  show that no spelling of an address, no DNS answer and no change of answer between the check and
  the connection reaches a blocked one.
\<close>

unbundle bit_operations_syntax

section \<open>net.IP\<close>

definition v4InV6Prefix :: IP where
  "v4InV6Prefix = [0, 0, 0, 0, 0, 0, 0, 0, 0, 0, 0xFF, 0xFF]"

definition To4 :: "IP \<Rightarrow> IP option" where
  "To4 ip =
     (if length ip = 4 then Some ip
      else if length ip = 16 \<and> take 12 ip = v4InV6Prefix then Some (drop 12 ip)
      else None)"

definition IP_Equal :: "IP \<Rightarrow> IP \<Rightarrow> bool" where
  "IP_Equal ip x =
     (if length ip = length x then ip = x
      else if length ip = 4 \<and> length x = 16 then take 12 x = v4InV6Prefix \<and> ip = drop 12 x
      else if length ip = 16 \<and> length x = 4 then take 12 ip = v4InV6Prefix \<and> drop 12 ip = x
      else False)"

definition IPv6zero :: IP where "IPv6zero = replicate 16 0"
definition IPv6loopback :: IP where "IPv6loopback = replicate 15 0 @ [1]"

definition IsUnspecified :: "IP \<Rightarrow> bool" where
  "IsUnspecified ip = (IP_Equal ip (v4InV6Prefix @ [0, 0, 0, 0]) \<or> IP_Equal ip IPv6zero)"

definition IsLoopback :: "IP \<Rightarrow> bool" where
  "IsLoopback ip = (case To4 ip of Some v \<Rightarrow> v ! 0 = 127 | None \<Rightarrow> IP_Equal ip IPv6loopback)"

definition IsPrivate :: "IP \<Rightarrow> bool" where
  "IsPrivate ip =
     (case To4 ip of
        Some v \<Rightarrow> v ! 0 = 10 \<or> v ! 0 = 172 \<and> v ! 1 AND 0xF0 = 16 \<or> v ! 0 = 192 \<and> v ! 1 = 168
      | None \<Rightarrow> length ip = 16 \<and> ip ! 0 AND 0xFE = 0xFC)"

definition IsMulticast :: "IP \<Rightarrow> bool" where
  "IsMulticast ip =
     (case To4 ip of
        Some v \<Rightarrow> v ! 0 AND 0xF0 = 0xE0
      | None \<Rightarrow> length ip = 16 \<and> ip ! 0 = 0xFF)"

definition IsInterfaceLocalMulticast :: "IP \<Rightarrow> bool" where
  "IsInterfaceLocalMulticast ip = (length ip = 16 \<and> ip ! 0 = 0xFF \<and> ip ! 1 AND 0x0F = 1)"

definition IsLinkLocalMulticast :: "IP \<Rightarrow> bool" where
  "IsLinkLocalMulticast ip =
     (case To4 ip of
        Some v \<Rightarrow> v ! 0 = 224 \<and> v ! 1 = 0 \<and> v ! 2 = 0
      | None \<Rightarrow> length ip = 16 \<and> ip ! 0 = 0xFF \<and> ip ! 1 AND 0x0F = 2)"

definition IsLinkLocalUnicast :: "IP \<Rightarrow> bool" where
  "IsLinkLocalUnicast ip =
     (case To4 ip of
        Some v \<Rightarrow> v ! 0 = 169 \<and> v ! 1 = 254
      | None \<Rightarrow> length ip = 16 \<and> ip ! 0 = 0xFE \<and> ip ! 1 AND 0xC0 = 0x80)"

section \<open>Policy\<close>

record NetPolicy =
  AllowPrivate :: bool

text \<open>169.254.169.254 and fd00:ec2::254, as \<open>net.ParseIP\<close> returns them.\<close>

definition metadataAddresses :: "IP list" where
  "metadataAddresses =
     [v4InV6Prefix @ [169, 254, 169, 254],
      [0xFD, 0, 0x0E, 0xC2, 0, 0, 0, 0, 0, 0, 0, 0, 0, 0, 0x02, 0x54]]"

function IsBlocked :: "NetPolicy \<Rightarrow> IP option \<Rightarrow> bool \<times> string" where
  "IsBlocked p None = (True, ''unparseable address'')"
| "IsBlocked p (Some ip) =
     (if list_ex (IP_Equal ip) metadataAddresses then (True, ''cloud instance metadata endpoint'')
      else if IsUnspecified ip then (True, ''unspecified address'')
      else if IsMulticast ip \<or> IsInterfaceLocalMulticast ip \<or> IsLinkLocalMulticast ip
        then (True, ''multicast address'')
      else if AllowPrivate p then (False, [])
      else if IsLoopback ip then (True, ''loopback address'')
      else if IsLinkLocalUnicast ip then (True, ''link-local address'')
      else if IsPrivate ip then (True, ''private address'')
      else (case To4 ip of
              Some v4 \<Rightarrow> if \<not> IP_Equal ip v4 then IsBlocked p (Some v4) else (False, [])
            | None \<Rightarrow> (False, [])))"
  by pat_completeness auto
termination
  by (relation "measure (\<lambda>(p, ip). case ip of None \<Rightarrow> 0 | Some ip \<Rightarrow> length ip)")
    (auto simp: To4_def IP_Equal_def split: if_splits)

declare IsBlocked.simps(2) [simp del]

datatype net_error = BlockedAddress string | ResolveFailed

text \<open>The resolver is a parameter: no answer is an error, an address may be nil.\<close>

definition CheckHost :: "golib \<Rightarrow> NetPolicy \<Rightarrow> (string \<Rightarrow> IP option list option) \<Rightarrow> string \<Rightarrow> net_error option" where
  "CheckHost L p resolver host =
     (if host = [] then Some (BlockedAddress ''empty host'')
      else case lib_ParseIP L host of
        Some ip \<Rightarrow>
          (case IsBlocked p (Some ip) of
             (True, reason) \<Rightarrow> Some (BlockedAddress reason) | (False, _) \<Rightarrow> None)
      | None \<Rightarrow>
          (case resolver host of
             None \<Rightarrow> Some ResolveFailed
           | Some addrs \<Rightarrow>
               if length addrs = 0 then Some (BlockedAddress ''host resolved to no addresses'')
               else (case List.find (\<lambda>a. fst (IsBlocked p a)) addrs of
                       Some a \<Rightarrow> Some (BlockedAddress (snd (IsBlocked p a)))
                     | None \<Rightarrow> None)))"

text \<open>\<open>net.SplitHostPort\<close>; its several errors are one, the code only asks whether there is one.\<close>

definition SplitHostPort :: "string \<Rightarrow> (string \<times> string) option" where
  "SplitHostPort hp =
     (if CHR '':'' \<notin> set hp then None
      else let port = rev (takeWhile (\<lambda>c. c \<noteq> CHR '':'') (rev hp));
               before = take (length hp - length port - 1) hp
           in if hd hp = CHR ''['' then
                (let host = takeWhile (\<lambda>c. c \<noteq> CHR '']'') (tl hp) in
                 if CHR '']'' \<notin> set hp \<or> before \<noteq> ''['' @ host @ '']'' then None
                 else if CHR ''['' \<in> set (tl hp) \<or> CHR '']'' \<in> set port then None
                 else Some (host, port))
              else if CHR '':'' \<in> set before then None
              else if CHR ''['' \<in> set hp \<or> CHR '']'' \<in> set hp then None
              else Some (before, port))"

definition ControlFunc :: "golib \<Rightarrow> NetPolicy \<Rightarrow> string \<Rightarrow> net_error option" where
  "ControlFunc L p address =
     (case SplitHostPort address of
        None \<Rightarrow> Some (BlockedAddress ''unparseable dial address'')
      | Some (host, _) \<Rightarrow>
          (case IsBlocked p (lib_ParseIP L host) of
             (True, reason) \<Rightarrow> Some (BlockedAddress reason) | (False, _) \<Rightarrow> None))"

section \<open>Specification vocabulary\<close>

text \<open>An IPv4 address in the ranges a default policy refuses, written as intervals.\<close>

definition refused_v4 :: "IP \<Rightarrow> bool" where
  "refused_v4 v \<longleftrightarrow>
     v = [0, 0, 0, 0] \<or> v ! 0 = 127 \<or> v ! 0 = 10 \<or>
     v ! 0 = 172 \<and> 16 \<le> v ! 1 \<and> v ! 1 \<le> 31 \<or>
     v ! 0 = 192 \<and> v ! 1 = 168 \<or> v ! 0 = 169 \<and> v ! 1 = 254 \<or>
     224 \<le> v ! 0 \<and> v ! 0 \<le> 239"

definition sample_public :: IP where "sample_public = [93, 184, 216, 34]"

section \<open>Byte masks\<close>

lemma high_nibble:
  fixes b :: "8 word"
  shows "b AND 0xF0 = 16 \<longleftrightarrow> 16 \<le> b \<and> b \<le> 31" and "b AND 0xF0 = 0xE0 \<longleftrightarrow> 224 \<le> b \<and> b \<le> 239"
proof -
  have "\<forall>n \<in> set [0..<8]. bit (0xF0 :: 8 word) n \<longleftrightarrow> 4 \<le> n" by code_simp
  then have m: "n < 8 \<Longrightarrow> bit (0xF0 :: 8 word) n \<longleftrightarrow> 4 \<le> n" for n by simp
  have "b AND 0xF0 = push_bit 4 (drop_bit 4 b)"
  proof (rule bit_word_eqI)
    fix n assume "n < LENGTH(8)"
    then have n: "n < 8" by simp
    show "bit (b AND 0xF0) n \<longleftrightarrow> bit (push_bit 4 (drop_bit 4 b)) n"
      unfolding bit_and_iff m [OF n] using n by (cases "4 \<le> n") (simp_all add: bit_push_bit_iff bit_drop_bit_eq)
  qed
  moreover have "unat (push_bit 4 (drop_bit 4 b)) = unat b div 16 * 16"
  proof -
    have "unat b < 256" using unsigned_less [of b] by simp
    then have "unat b div 16 * 16 < 256" by simp
    then show ?thesis by (simp add: push_bit_eq_mult unat_mult_lem unat_drop_bit_eq drop_bit_eq_div unat_word_ariths)
  qed
  ultimately have u: "unat (b AND 0xF0) = unat b div 16 * 16" by simp
  have s: "unat (31 :: 8 word) = 31" "unat (16 :: 8 word) = 16" "unat (0xE0 :: 8 word) = 224" "unat (239 :: 8 word) = 239" by simp_all
  obtain k r where b: "unat b = 16 * k + r" "r < 16" by (metis mult_div_mod_eq mod_less_divisor zero_less_numeral)
  then have d: "unat b div 16 * 16 = 16 * k" by simp
  show "b AND 0xF0 = 16 \<longleftrightarrow> 16 \<le> b \<and> b \<le> 31"
    unfolding word_unat_eq_iff [of "b AND 0xF0"] word_le_nat_alt u s d unfolding b(1) using b(2) by presburger
  show "b AND 0xF0 = 0xE0 \<longleftrightarrow> 224 \<le> b \<and> b \<le> 239"
    unfolding word_unat_eq_iff [of "b AND 0xF0"] word_le_nat_alt u s d unfolding b(1) using b(2) by presburger
qed

section \<open>The mapped form\<close>

lemma length_prefix [simp]: "length v4InV6Prefix = 12"
  by (simp add: v4InV6Prefix_def)

lemma To4_mapped [simp]: "length v = 4 \<Longrightarrow> To4 (v4InV6Prefix @ v) = Some v" "length v = 4 \<Longrightarrow> To4 v = Some v"
  by (simp_all add: To4_def)

lemma To4_Some: "To4 ip = Some v \<Longrightarrow> length v = 4 \<and> (ip = v \<or> ip = v4InV6Prefix @ v)"
  by (auto simp: To4_def split: if_splits) (metis append_take_drop_id)

text \<open>
  A mapped address equals its IPv4 form for \<open>Equal\<close>, so the last branch of \<open>IsBlocked\<close> is never
  taken: the recursive call the source makes for mapped addresses is dead code.
\<close>

lemma mapped_branch_dead: "To4 ip = Some v \<Longrightarrow> IP_Equal ip v"
  by (auto dest!: To4_Some simp: IP_Equal_def)

lemma IP_Equal_mapped:
  assumes "length v = 4" "length x = 16"
  shows "IP_Equal (v4InV6Prefix @ v) x = IP_Equal v x"
  using assms by (auto simp: IP_Equal_def) (metis append_take_drop_id)+

lemma lengths16 [simp]: "length IPv6zero = 16" "length IPv6loopback = 16" "x \<in> set metadataAddresses \<Longrightarrow> length x = 16"
  by (auto simp: IPv6zero_def IPv6loopback_def metadataAddresses_def)

lemma mapped_tests:
  assumes "length v = 4"
  shows "IsLoopback (v4InV6Prefix @ v) = IsLoopback v" "IsPrivate (v4InV6Prefix @ v) = IsPrivate v"
    "IsMulticast (v4InV6Prefix @ v) = IsMulticast v"
    "IsLinkLocalUnicast (v4InV6Prefix @ v) = IsLinkLocalUnicast v"
    "IsLinkLocalMulticast (v4InV6Prefix @ v) = IsLinkLocalMulticast v"
    "IsInterfaceLocalMulticast (v4InV6Prefix @ v) = IsInterfaceLocalMulticast v"
    "IsUnspecified (v4InV6Prefix @ v) = IsUnspecified v"
    "list_ex (IP_Equal (v4InV6Prefix @ v)) metadataAddresses = list_ex (IP_Equal v) metadataAddresses"
  using assms
  by (simp_all add: IsLoopback_def IsPrivate_def IsMulticast_def IsLinkLocalUnicast_def
      IsLinkLocalMulticast_def IsUnspecified_def IP_Equal_mapped list_ex_iff)
    (simp add: IsInterfaceLocalMulticast_def v4InV6Prefix_def)

lemma IsBlocked_mapped:
  assumes "length v = 4"
  shows "IsBlocked p (Some (v4InV6Prefix @ v)) = IsBlocked p (Some v)"
  using assms mapped_branch_dead [of v v] mapped_branch_dead [of "v4InV6Prefix @ v" v]
  by (simp add: IsBlocked.simps(2) mapped_tests)

lemma IsBlocked_v4:
  assumes "length v = 4" "\<not> AllowPrivate p"
  shows "fst (IsBlocked p (Some v)) \<longleftrightarrow> refused_v4 v"
proof -
  obtain a b c d where v: "v = [a, b, c, d]"
    using assms(1) by (auto simp: numeral_eq_Suc length_Suc_conv)
  have "list_ex (IP_Equal v) metadataAddresses \<longleftrightarrow> v = [169, 254, 169, 254]"
    by (simp add: metadataAddresses_def IP_Equal_def v v4InV6Prefix_def)
  moreover have "IsUnspecified v \<longleftrightarrow> v = [0, 0, 0, 0]"
    by (auto simp: IsUnspecified_def IP_Equal_def IPv6zero_def v v4InV6Prefix_def numeral_eq_Suc)
  ultimately show ?thesis
    using assms mapped_branch_dead [of v v]
    by (auto simp: IsBlocked.simps(2) refused_v4_def IsMulticast_def IsInterfaceLocalMulticast_def
        IsLinkLocalMulticast_def IsLoopback_def IsLinkLocalUnicast_def IsPrivate_def high_nibble v)
qed

section \<open>Properties\<close>

text \<open>
  No spelling gets past the guard. For every policy an IPv4 address and its IPv4-mapped IPv6
  form get the same answer with the same reason, and under the default policy an address is refused
  exactly when it is the unspecified address or lies in 10/8, 127/8, 169.254/16, 172.16/12,
  192.168/16 or 224/4.
\<close>

theorem blocked_v4_ranges:
  assumes "length v = 4"
  shows "IsBlocked p (Some (v4InV6Prefix @ v)) = IsBlocked p (Some v) \<and>
    (\<not> AllowPrivate p \<longrightarrow> (fst (IsBlocked p (Some v)) \<longleftrightarrow> refused_v4 v))"
  using IsBlocked_mapped [OF assms] IsBlocked_v4 [OF assms] by blast

theorem blocked_v4_ranges_witness:
  "\<not> fst (IsBlocked \<lparr>AllowPrivate = False\<rparr> (Some sample_public)) \<and>
   fst (IsBlocked \<lparr>AllowPrivate = False\<rparr> (Some (v4InV6Prefix @ [127, 0, 0, 1])))"
proof -
  have "\<not> refused_v4 sample_public" "refused_v4 [127, 0, 0, 1]"
    by (simp_all add: refused_v4_def sample_public_def)
  with blocked_v4_ranges [of sample_public "\<lparr>AllowPrivate = False\<rparr>"]
    blocked_v4_ranges [of "[127, 0, 0, 1]" "\<lparr>AllowPrivate = False\<rparr>"]
  show ?thesis by (simp add: sample_public_def)
qed

text \<open>
  C33: a host passes only when every address it stands for passes. An accepted literal is itself
  allowed; an accepted name resolved to at least one address and every resolved address is allowed;
  and whatever DNS answers later, the dial-time hook accepts only a parseable allowed address. No
  policy lets the instance metadata addresses through.
\<close>

theorem guard_admits_only_allowed_addresses:
  "(CheckHost L p resolver host = None \<longrightarrow> host \<noteq> [] \<and>
      (case lib_ParseIP L host of
         Some ip \<Rightarrow> \<not> fst (IsBlocked p (Some ip))
       | None \<Rightarrow> (\<exists>addrs. resolver host = Some addrs \<and> addrs \<noteq> [] \<and>
           list_all (\<lambda>a. \<not> fst (IsBlocked p a)) addrs))) \<and>
   (ControlFunc L p address = None \<longrightarrow>
      (\<exists>h port ip. SplitHostPort address = Some (h, port) \<and> lib_ParseIP L h = Some ip \<and>
         \<not> fst (IsBlocked p (Some ip)))) \<and>
   list_all (\<lambda>m. fst (IsBlocked p (Some m))) metadataAddresses"
proof -
  have m: "list_all (\<lambda>m. fst (IsBlocked p (Some m))) metadataAddresses"
    by (simp add: IsBlocked.simps(2) metadataAddresses_def IP_Equal_def v4InV6Prefix_def)
  have c: "case lib_ParseIP L host of
         Some ip \<Rightarrow> \<not> fst (IsBlocked p (Some ip))
       | None \<Rightarrow> (\<exists>addrs. resolver host = Some addrs \<and> addrs \<noteq> [] \<and>
           list_all (\<lambda>a. \<not> fst (IsBlocked p a)) addrs)" if "CheckHost L p resolver host = None"
    using that by (auto simp: CheckHost_def list_all_iff find_None_iff split: option.splits if_splits prod.splits bool.splits)
  have "host \<noteq> []" if "CheckHost L p resolver host = None" using that by (auto simp: CheckHost_def)
  moreover have "\<exists>h port ip. SplitHostPort address = Some (h, port) \<and> lib_ParseIP L h = Some ip \<and>
      \<not> fst (IsBlocked p (Some ip))" if d: "ControlFunc L p address = None"
  proof -
    obtain h port where hp: "SplitHostPort address = Some (h, port)"
      using d by (auto simp: ControlFunc_def split: option.splits)
    have nb: "\<not> fst (IsBlocked p (lib_ParseIP L h))"
      using d by (auto simp: ControlFunc_def hp split: prod.splits bool.splits)
    then obtain ip where "lib_ParseIP L h = Some ip" by (cases "lib_ParseIP L h") auto
    with hp nb show ?thesis by auto
  qed
  ultimately show ?thesis using m c by blast
qed

theorem guard_admits_only_allowed_addresses_witness:
  "ControlFunc (sample_lib\<lparr>lib_ParseIP := (\<lambda>_. Some sample_public)\<rparr>) \<lparr>AllowPrivate = False\<rparr>
      ''93.184.216.34:443'' = None \<and>
   (\<exists>ip. \<not> fst (IsBlocked \<lparr>AllowPrivate = False\<rparr> (Some ip)))"
proof -
  have "ControlFunc (sample_lib\<lparr>lib_ParseIP := (\<lambda>_. Some sample_public)\<rparr>) \<lparr>AllowPrivate = False\<rparr>
      ''93.184.216.34:443'' = None"
    by code_simp
  with guard_admits_only_allowed_addresses [of "sample_lib\<lparr>lib_ParseIP := (\<lambda>_. Some sample_public)\<rparr>"
      "\<lparr>AllowPrivate = False\<rparr>" "\<lambda>_. None" "[]" "''93.184.216.34:443''"]
  show ?thesis by blast
qed

end
