(* ===== verification/Targets.thy ===== *)
theory Targets
  imports Fingerprints Netguard
begin

text \<open>
  The scanner contract: \<open>internal/scanners/scanner.go\<close> (capabilities, degradations),
  \<open>target.go\<close> (validation of what a scan may point at) and \<open>registry.go\<close> (the adapters a
  worker knows). A validated target is normalised data; the lemmas show that a filesystem target
  cannot leave the workspace, that network targets went through the guard, that no argument a
  scanner is given can be read as a flag, and what \<open>Resolve\<close> returns. The adapters themselves are
  behind a Go interface: an adapter is its name, its capabilities and the outcome of provisioning.
\<close>

section \<open>Capabilities and degradations\<close>

type_synonym TargetKind = string

abbreviation KindRepository :: TargetKind where "KindRepository \<equiv> ''repository''"
abbreviation KindFilesystem :: TargetKind where "KindFilesystem \<equiv> ''filesystem''"
abbreviation KindImage :: TargetKind where "KindImage \<equiv> ''image''"
abbreviation KindEndpoint :: TargetKind where "KindEndpoint \<equiv> ''endpoint''"

definition Kinds :: "TargetKind list" where
  "Kinds = [KindRepository, KindFilesystem, KindImage, KindEndpoint]"

definition Kind_Valid :: "TargetKind \<Rightarrow> bool" where
  "Kind_Valid k = list_ex (\<lambda>known. k = known) Kinds"

record Capabilities =
  cap_Kinds :: "TargetKind list"
  cap_Categories :: "Category list"
  cap_NetworkKinds :: "TargetKind list"

definition Covers :: "Capabilities \<Rightarrow> Category \<Rightarrow> bool" where
  "Covers c cat = list_ex (\<lambda>known. known = cat) (cap_Categories c)"

definition NeedsNetwork :: "Capabilities \<Rightarrow> TargetKind \<Rightarrow> bool" where
  "NeedsNetwork c k = list_ex (\<lambda>kind. kind = k) (cap_NetworkKinds c)"

definition Supports :: "Capabilities \<Rightarrow> TargetKind \<Rightarrow> bool" where
  "Supports c k = list_ex (\<lambda>kind. kind = k) (cap_Kinds c)"

type_synonym Degradation = string

abbreviation DegradedOutputTruncated :: Degradation where "DegradedOutputTruncated \<equiv> ''output_truncated''"
abbreviation DegradedStaleVulnerabilityDB :: Degradation where
  "DegradedStaleVulnerabilityDB \<equiv> ''stale_vulnerability_db''"
abbreviation DegradedUnknownVulnerabilityDB :: Degradation where
  "DegradedUnknownVulnerabilityDB \<equiv> ''unknown_vulnerability_db''"
abbreviation DegradedSBOMTruncated :: Degradation where "DegradedSBOMTruncated \<equiv> ''sbom_truncated''"

record Target =
  t_Kind :: TargetKind
  t_RepositoryURL :: string
  t_Ref :: string
  t_Path :: string
  t_Image :: string
  t_EndpointURL :: string

definition zero_Target :: Target where
  "zero_Target = \<lparr>t_Kind = [], t_RepositoryURL = [], t_Ref = [], t_Path = [], t_Image = [],
     t_EndpointURL = []\<rparr>"

record RawResult =
  raw_Scanner :: string
  raw_Version :: string
  raw_Target :: Target
  raw_Output :: string
  raw_ExitCode :: int
  raw_Duration :: int
  raw_Degradations :: "Degradation list"
  raw_StartedAt :: time

definition Degrade :: "Degradation \<Rightarrow> RawResult \<Rightarrow> RawResult" where
  "Degrade d r =
     (if list_ex (\<lambda>existing. existing = d) (raw_Degradations r) then r
      else r\<lparr>raw_Degradations := raw_Degradations r @ [d]\<rparr>)"

definition RawResult_Degraded :: "RawResult \<Rightarrow> bool" where
  "RawResult_Degraded r = (length (raw_Degradations r) > 0)"

definition OutputTruncated :: "RawResult \<Rightarrow> bool" where
  "OutputTruncated r = list_ex (\<lambda>d. d = DegradedOutputTruncated) (raw_Degradations r)"

section \<open>Package path/filepath\<close>

definition filepath_Join :: "string \<Rightarrow> string \<Rightarrow> string" where
  "filepath_Join a b =
     (if a \<noteq> [] then Clean (a @ ''/'' @ b) else if b \<noteq> [] then Clean b else [])"

definition filepath_Abs :: "golib \<Rightarrow> string \<Rightarrow> string option" where
  "filepath_Abs L p =
     (if p \<noteq> [] \<and> hd p = CHR ''/'' then Some (Clean p)
      else case lib_Getwd L of None \<Rightarrow> None | Some wd \<Rightarrow> Some (filepath_Join wd p))"

fun strip_common :: "'a list \<Rightarrow> 'a list \<Rightarrow> 'a list \<times> 'a list" where
  "strip_common (b # bs) (t # ts) = (if b = t then strip_common bs ts else (b # bs, t # ts))"
| "strip_common bs ts = (bs, ts)"

definition elems_of :: "string \<Rightarrow> string list" where
  "elems_of p = filter (\<lambda>e. e \<noteq> []) (Split p (CHR ''/''))"

definition filepath_Rel :: "string \<Rightarrow> string \<Rightarrow> string option" where
  "filepath_Rel basepath targpath =
     (let base = Clean basepath; targ = Clean targpath in
      if targ = base then Some ''.''
      else
        let base = (if base = ''.'' then [] else base);
            (bs, ts) = strip_common (elems_of base) (elems_of targ)
        in if (base \<noteq> [] \<and> hd base = CHR ''/'') \<noteq> (targ \<noteq> [] \<and> hd targ = CHR ''/'') then None
           else if bs \<noteq> [] \<and> ts \<noteq> [] \<and> hd bs = ''..'' then None
           else Some (Join (replicate (length bs) ''..'' @ ts) ''/''))"

section \<open>Validator\<close>

record Validator =
  WorkspaceRoot :: string
  NetworkPolicy :: NetPolicy
  v_Resolver :: "string \<Rightarrow> IP option list option"

datatype target_error =
    UnknownTargetKind string | RepositoryURLRequired | BadRepositoryURL | RepositoryScheme string
  | RepositoryNoHost | RefCharacters | RefDotDot | NoWorkspaceRoot | PathRequired
  | RootUnresolvable | PathEscapes | ImageRequired | ImageCharacters | ImageDotDot
  | UnparseableImage | EndpointURLRequired | BadEndpointURL | EndpointScheme string
  | EndpointNoHost | HostRefused net_error

definition alnum_byte :: "char \<Rightarrow> bool" where
  "alnum_byte c = (CHR ''A'' \<le> c \<and> c \<le> CHR ''Z'' \<or> CHR ''a'' \<le> c \<and> c \<le> CHR ''z'' \<or>
     CHR ''0'' \<le> c \<and> c \<le> CHR ''9'')"

text \<open>The regular expressions: an alphanumeric byte, then up to 254 permitted ones.\<close>

definition refPattern :: "string \<Rightarrow> bool" where
  "refPattern s = (s \<noteq> [] \<and> alnum_byte (hd s) \<and> length (tl s) \<le> 254 \<and>
     list_all (\<lambda>c. alnum_byte c \<or> c \<in> set ''._/-'') (tl s))"

definition imagePattern :: "string \<Rightarrow> bool" where
  "imagePattern s = (s \<noteq> [] \<and> alnum_byte (hd s) \<and> length (tl s) \<le> 254 \<and>
     list_all (\<lambda>c. alnum_byte c \<or> c \<in> set ''._:/@-'') (tl s))"

definition checkHost :: "golib \<Rightarrow> Validator \<Rightarrow> string \<Rightarrow> target_error option" where
  "checkHost L v host = map_option HostRefused (CheckHost L (NetworkPolicy v) (v_Resolver v) host)"

definition validateRepository :: "golib \<Rightarrow> Validator \<Rightarrow> Target \<Rightarrow> target_error + Target" where
  "validateRepository L v t =
     (if t_RepositoryURL t = [] then Inl RepositoryURLRequired
      else case lib_url_Parse L (t_RepositoryURL t) of
        None \<Rightarrow> Inl BadRepositoryURL
      | Some u \<Rightarrow>
          if \<not> (url_Scheme u = ''https'' \<or> url_Scheme u = ''ssh'') then Inl (RepositoryScheme (url_Scheme u))
          else if url_Hostname u = [] then Inl RepositoryNoHost
          else case checkHost L v (url_Hostname u) of
            Some e \<Rightarrow> Inl e
          | None \<Rightarrow>
              if t_Ref t \<noteq> [] \<and> \<not> refPattern (t_Ref t) then Inl RefCharacters
              else if contains (t_Ref t) ''..'' then Inl RefDotDot
              else Inr (zero_Target\<lparr>t_Kind := KindRepository, t_RepositoryURL := url_String u,
                t_Ref := t_Ref t\<rparr>))"

definition validateFilesystem :: "golib \<Rightarrow> Validator \<Rightarrow> Target \<Rightarrow> target_error + Target" where
  "validateFilesystem L v t =
     (if WorkspaceRoot v = [] then Inl NoWorkspaceRoot
      else if t_Path t = [] then Inl PathRequired
      else case filepath_Abs L (WorkspaceRoot v) of
        None \<Rightarrow> Inl RootUnresolvable
      | Some wsroot \<Rightarrow>
          (let joined = filepath_Join wsroot (Clean (''/'' @ t_Path t)) in
           case filepath_Rel wsroot joined of
             None \<Rightarrow> Inl PathEscapes
           | Some rel \<Rightarrow>
               if rel = ''..'' \<or> prefix ''../'' rel then Inl PathEscapes
               else Inr (zero_Target\<lparr>t_Kind := KindFilesystem, t_Path := joined\<rparr>)))"

abbreviation DefaultRegistryHost :: string where "DefaultRegistryHost \<equiv> ''docker.io''"

definition RegistryHost :: "string \<Rightarrow> string option" where
  "RegistryHost img =
     (let ref = TrimSpace img in
      if ref = [] then None
      else let (first, _, hasSlash) = Cut ref (CHR ''/'') in
        if \<not> hasSlash \<or> first \<noteq> ''localhost'' \<and> \<not> list_ex (\<lambda>c. c \<in> set ''.:'') first
          then Some DefaultRegistryHost
        else let host = (case SplitHostPort first of Some (h, _) \<Rightarrow> h | None \<Rightarrow> first) in
          if host = [] then None else Some host)"

definition validateImage :: "golib \<Rightarrow> Validator \<Rightarrow> Target \<Rightarrow> target_error + Target" where
  "validateImage L v t =
     (if t_Image t = [] then Inl ImageRequired
      else if \<not> imagePattern (t_Image t) then Inl ImageCharacters
      else if contains (t_Image t) ''..'' then Inl ImageDotDot
      else case RegistryHost (t_Image t) of
        None \<Rightarrow> Inl UnparseableImage
      | Some host \<Rightarrow>
          (case checkHost L v host of
             Some e \<Rightarrow> Inl e
           | None \<Rightarrow> Inr (zero_Target\<lparr>t_Kind := KindImage, t_Image := t_Image t\<rparr>)))"

definition validateEndpoint :: "golib \<Rightarrow> Validator \<Rightarrow> Target \<Rightarrow> target_error + Target" where
  "validateEndpoint L v t =
     (if t_EndpointURL t = [] then Inl EndpointURLRequired
      else case lib_url_Parse L (t_EndpointURL t) of
        None \<Rightarrow> Inl BadEndpointURL
      | Some u \<Rightarrow>
          if \<not> (url_Scheme u = ''http'' \<or> url_Scheme u = ''https'') then Inl (EndpointScheme (url_Scheme u))
          else if url_Hostname u = [] then Inl EndpointNoHost
          else case checkHost L v (url_Hostname u) of
            Some e \<Rightarrow> Inl e
          | None \<Rightarrow> Inr (zero_Target\<lparr>t_Kind := KindEndpoint, t_EndpointURL := url_String u\<rparr>))"

definition Target_Validate :: "golib \<Rightarrow> Validator \<Rightarrow> Target \<Rightarrow> target_error + Target" where
  "Target_Validate L v t =
     (if \<not> Kind_Valid (t_Kind t) then Inl (UnknownTargetKind (t_Kind t))
      else if t_Kind t = KindRepository then validateRepository L v t
      else if t_Kind t = KindFilesystem then validateFilesystem L v t
      else if t_Kind t = KindImage then validateImage L v t
      else if t_Kind t = KindEndpoint then validateEndpoint L v t
      else Inl (UnknownTargetKind (t_Kind t)))"

definition EffectiveKind :: "TargetKind \<Rightarrow> TargetKind" where
  "EffectiveKind k = (if k = KindRepository then KindFilesystem else k)"

section \<open>Registry\<close>

text \<open>
  \<open>sn_Provision\<close> is nothing for an adapter that is no \<open>Provisioner\<close>, and otherwise the error its
  provisioning returns, if any.
\<close>

record ScannerAdapter =
  sn_Name :: string
  sn_Capabilities :: Capabilities
  sn_Provision :: "string option option"

type_synonym Registry = "(string \<times> ScannerAdapter) list"

datatype registry_error =
    NilScanner | EmptyName | NoKinds string | DuplicateName string
  | NoneSupports string | NotRegistered string | DoesNotSupport string string

definition NewRegistry :: Registry where
  "NewRegistry = []"

definition Register :: "ScannerAdapter option \<Rightarrow> Registry \<Rightarrow> registry_error + Registry" where
  "Register s0 r =
     (case s0 of
        None \<Rightarrow> Inl NilScanner
      | Some s \<Rightarrow>
          if sn_Name s = [] then Inl EmptyName
          else if length (cap_Kinds (sn_Capabilities s)) = 0 then Inl (NoKinds (sn_Name s))
          else if map_of r (sn_Name s) \<noteq> None then Inl (DuplicateName (sn_Name s))
          else Inr ((sn_Name s, s) # r))"

text \<open>\<open>MustRegister\<close> panics, which is \<open>None\<close>.\<close>

definition MustRegister :: "ScannerAdapter option \<Rightarrow> Registry \<Rightarrow> Registry option" where
  "MustRegister s r = (case Register s r of Inl e \<Rightarrow> None | Inr r' \<Rightarrow> Some r')"

definition Registry_Get :: "Registry \<Rightarrow> string \<Rightarrow> ScannerAdapter option" where
  "Registry_Get r name = map_of r name"

definition Registry_Names :: "Registry \<Rightarrow> string list" where
  "Registry_Names r = sort (map fst r)"

definition SelectFor :: "Registry \<Rightarrow> TargetKind \<Rightarrow> ScannerAdapter list" where
  "SelectFor r kind =
     sort_key sn_Name (filter (\<lambda>s. Supports (sn_Capabilities s) kind) (map snd r))"

fun resolve_names :: "Registry \<Rightarrow> TargetKind \<Rightarrow> string list \<Rightarrow> registry_error + ScannerAdapter list" where
  "resolve_names r kind [] = Inr []"
| "resolve_names r kind (name # names) =
     (case Registry_Get r name of
        None \<Rightarrow> Inl (NotRegistered name)
      | Some s \<Rightarrow>
          if \<not> Supports (sn_Capabilities s) kind then Inl (DoesNotSupport name kind)
          else (case resolve_names r kind names of Inl e \<Rightarrow> Inl e | Inr ss \<Rightarrow> Inr (s # ss)))"

definition Resolve :: "Registry \<Rightarrow> TargetKind \<Rightarrow> string list \<Rightarrow> registry_error + ScannerAdapter list" where
  "Resolve r kind names =
     (if length names = 0 then
        (let selected = SelectFor r kind in
         if length selected = 0 then Inl (NoneSupports kind) else Inr selected)
      else (case resolve_names r kind names of
              Inl e \<Rightarrow> Inl e
            | Inr out \<Rightarrow> Inr (sort_key sn_Name out)))"

definition Provision :: "Registry \<Rightarrow> (string \<times> string) list" where
  "Provision r = List.map_filter (\<lambda>s. case sn_Provision s of
     Some (Some e) \<Rightarrow> Some (sn_Name s, e) | _ \<Rightarrow> None) (map snd r)"

section \<open>Specification vocabulary\<close>

definition rooted_path :: "string \<Rightarrow> bool" where
  "rooted_path p \<longleftrightarrow> p \<noteq> [] \<and> hd p = CHR ''/''"

text \<open>Path elements that stay where they are: no empty one, no dot, no dot-dot, no separator.\<close>

definition plain_elems :: "string list \<Rightarrow> bool" where
  "plain_elems es \<longleftrightarrow> (\<forall>e \<in> set es. e \<noteq> [] \<and> e \<noteq> ''.'' \<and> e \<noteq> ''..'' \<and> CHR ''/'' \<notin> set e)"

abbreviation abs_path :: "string list \<Rightarrow> string" where
  "abs_path es \<equiv> ''/'' @ Join es ''/''"

definition no_flag :: "string \<Rightarrow> bool" where
  "no_flag s \<longleftrightarrow> s \<noteq> [] \<longrightarrow> hd s \<noteq> CHR ''-''"

definition registry_ok :: "Registry \<Rightarrow> bool" where
  "registry_ok r \<longleftrightarrow> distinct (map fst r) \<and> (\<forall>(n, s) \<in> set r. n = sn_Name s \<and> n \<noteq> [])"

definition sample_validator :: Validator where
  "sample_validator = \<lparr>WorkspaceRoot = ''/work'', NetworkPolicy = \<lparr>AllowPrivate = False\<rparr>,
     v_Resolver = (\<lambda>_. Some [Some sample_public])\<rparr>"

definition sample_adapter :: "string \<Rightarrow> ScannerAdapter" where
  "sample_adapter n = \<lparr>sn_Name = n, sn_Capabilities = \<lparr>cap_Kinds = [KindFilesystem],
     cap_Categories = [CategorySAST], cap_NetworkKinds = []\<rparr>, sn_Provision = None\<rparr>"

section \<open>Cleaning rooted paths\<close>

lemma Split_append_sep: "Split (a @ c # b) c = Split a c @ Split b c"
proof (induction a)
  case (Cons x a)
  obtain w ws where "Split a c = w # ws" by (cases "Split a c") auto
  with Cons show ?case by simp
qed simp

lemma clean_elems_append:
  "clean_elems True st (xs @ ys) = clean_elems True (rev (clean_elems True st xs)) ys"
proof (induction xs arbitrary: st)
  case (Cons x xs)
  then show ?case by (cases st) auto
qed simp

lemma clean_elems_plain: "plain_elems ys \<Longrightarrow> clean_elems True st ys = rev st @ ys"
  by (induction ys arbitrary: st) (auto simp: plain_elems_def)

lemma norm_elems_False: "norm_elems False es \<longleftrightarrow> (\<forall>e \<in> set es. e \<noteq> [] \<and> e \<noteq> ''.'' \<and> e \<noteq> ''..'')"
  by (induction es) auto

lemma clean_rooted_plain: "plain_elems (clean_elems True [] (Split p (CHR ''/'')))"
proof -
  have "norm_elems False (clean_elems True [] (Split p (CHR ''/'')))"
    using clean_elems_norm [of True "[]" "Split p (CHR ''/'')"] by simp
  moreover have "CHR ''/'' \<notin> set e" if "e \<in> set (clean_elems True [] (Split p (CHR ''/'')))" for e
    using clean_elems_set [of True "[]" "Split p (CHR ''/'')"] that
    by (auto dest: Split_no_sep_elem)
  ultimately show ?thesis by (auto simp: plain_elems_def norm_elems_False)
qed

lemma Clean_rooted:
  "rooted_path p \<Longrightarrow> \<exists>es. plain_elems es \<and> Clean p = abs_path es \<and> es = clean_elems True [] (Split p (CHR ''/''))"
  using clean_rooted_plain [of p] by (simp add: Clean_def rooted_path_def)

lemma clean_abs_path:
  assumes "plain_elems es"
  shows "clean_elems True st (Split (Join es ''/'') (CHR ''/'')) = rev st @ es"
proof (cases "es = []")
  case False
  then have "Split (Join es ''/'') (CHR ''/'') = es"
    using assms by (intro Split_Join) (auto simp: plain_elems_def)
  with assms show ?thesis by (simp add: clean_elems_plain)
qed simp

lemma elems_abs_path: "plain_elems es \<Longrightarrow> elems_of (abs_path es) = es"
proof (cases "es = []")
  case False
  assume p: "plain_elems es"
  then have "Split (Join es ''/'') (CHR ''/'') = es"
    using False by (intro Split_Join) (auto simp: plain_elems_def)
  with p show ?thesis by (auto simp: elems_of_def plain_elems_def filter_id_conv)
qed (simp add: elems_of_def)

lemma Clean_abs_path: "plain_elems es \<Longrightarrow> Clean (abs_path es) = abs_path es"
  by (simp add: Clean_def clean_abs_path)

lemma Join_abs_paths:
  assumes "plain_elems rs" "plain_elems ps"
  shows "filepath_Join (abs_path rs) (abs_path ps) = abs_path (rs @ ps)"
proof -
  have "clean_elems True [] (Split (abs_path rs @ ''/'' @ abs_path ps) (CHR ''/'')) = rs @ ps"
    using assms by (simp add: Split_append_sep clean_elems_append clean_abs_path)
  then show ?thesis by (simp add: filepath_Join_def Clean_def)
qed

lemma strip_common_prefix: "strip_common rs (rs @ ps) = ([], ps)"
proof (induction rs)
  case Nil
  then show ?case by (cases ps) auto
qed simp

lemma Rel_abs_paths:
  assumes "plain_elems rs" "plain_elems ps"
  shows "filepath_Rel (abs_path rs) (abs_path (rs @ ps)) = Some (if ps = [] then ''.'' else Join ps ''/'')"
proof -
  have p: "plain_elems (rs @ ps)" using assms by (auto simp: plain_elems_def)
  have "abs_path (rs @ ps) = abs_path rs \<longleftrightarrow> ps = []"
    using elems_abs_path [OF p] elems_abs_path [OF assms(1)] by (metis append_Nil2 append_self_conv)
  moreover have "abs_path rs \<noteq> ''.''" by simp
  ultimately show ?thesis
    using p assms
    by (simp add: filepath_Rel_def Clean_abs_path elems_abs_path strip_common_prefix Let_def
        del: append.simps) auto
qed

lemma Join_plain_stays:
  assumes "plain_elems ps" "ps \<noteq> []"
  shows "Join ps ''/'' \<noteq> ''..'' \<and> \<not> prefix ''../'' (Join ps ''/'')"
proof -
  have s: "Split (Join ps ''/'') (CHR ''/'') = ps"
    using assms by (intro Split_Join) (auto simp: plain_elems_def)
  have hd: "hd ps \<noteq> ''..''" using assms by (auto simp: plain_elems_def)
  have "hd (Split (''../'' @ x) (CHR ''/'')) = ''..''" for x by simp
  moreover have "hd (Split ''..'' (CHR ''/'')) = ''..''" by simp
  ultimately show ?thesis using s hd by (auto simp: prefix_def)
qed

lemma Abs_rooted:
  assumes "rooted_path p \<or> p \<noteq> [] \<and> (\<exists>wd. lib_Getwd L = Some wd \<and> rooted_path wd)"
  shows "\<exists>rs. plain_elems rs \<and> filepath_Abs L p = Some (abs_path rs)"
proof (cases "rooted_path p")
  case True
  then show ?thesis using Clean_rooted [of p] by (auto simp: filepath_Abs_def rooted_path_def)
next
  case False
  then obtain wd where wd: "lib_Getwd L = Some wd" "rooted_path wd" using assms(1) by blast
  then have "rooted_path (wd @ ''/'' @ p)" by (simp add: rooted_path_def)
  with wd False show ?thesis
    using Clean_rooted [of "wd @ ''/'' @ p"]
    by (auto simp: filepath_Abs_def filepath_Join_def rooted_path_def)
qed

section \<open>Arguments\<close>

lemma alnum_no_dash: "alnum_byte c \<Longrightarrow> c \<noteq> CHR ''-''"
  by (auto simp: alnum_byte_def)

lemma refPattern_no_flag: "refPattern s \<Longrightarrow> no_flag s"
  by (auto simp: refPattern_def no_flag_def dest: alnum_no_dash)

lemma imagePattern_no_flag: "imagePattern s \<Longrightarrow> no_flag s"
  by (auto simp: imagePattern_def no_flag_def dest: alnum_no_dash)

lemma checkHost_None [simp]: "checkHost L v h = None \<longleftrightarrow> CheckHost L (NetworkPolicy v) (v_Resolver v) h = None"
  by (simp add: checkHost_def)

lemma validateRepository_Inr:
  assumes "validateRepository L v t = Inr t'"
  shows "\<exists>u. lib_url_Parse L (t_RepositoryURL t) = Some u \<and> url_Scheme u \<in> {''https'', ''ssh''} \<and>
    CheckHost L (NetworkPolicy v) (v_Resolver v) (url_Hostname u) = None \<and>
    t' = zero_Target\<lparr>t_Kind := KindRepository, t_RepositoryURL := url_String u, t_Ref := t_Ref t\<rparr> \<and>
    no_flag (t_Ref t) \<and> \<not> contains (t_Ref t) ''..''"
  using assms
  by (auto simp: validateRepository_def no_flag_def intro: refPattern_no_flag [unfolded no_flag_def, rule_format]
      split: if_splits option.splits dest: refPattern_no_flag)

lemma validateEndpoint_Inr:
  assumes "validateEndpoint L v t = Inr t'"
  shows "\<exists>u. lib_url_Parse L (t_EndpointURL t) = Some u \<and> url_Scheme u \<in> {''http'', ''https''} \<and>
    CheckHost L (NetworkPolicy v) (v_Resolver v) (url_Hostname u) = None \<and>
    t' = zero_Target\<lparr>t_Kind := KindEndpoint, t_EndpointURL := url_String u\<rparr>"
  using assms by (auto simp: validateEndpoint_def split: if_splits option.splits)

lemma validateImage_Inr:
  assumes "validateImage L v t = Inr t'"
  shows "\<exists>h. RegistryHost (t_Image t) = Some h \<and> CheckHost L (NetworkPolicy v) (v_Resolver v) h = None \<and>
    t' = zero_Target\<lparr>t_Kind := KindImage, t_Image := t_Image t\<rparr> \<and> no_flag (t_Image t) \<and>
    \<not> contains (t_Image t) ''..''"
  using assms
  by (auto simp: validateImage_def split: if_splits option.splits dest: imagePattern_no_flag)

lemma validateFilesystem_Inr:
  assumes "validateFilesystem L v t = Inr t'"
  shows "\<exists>p. t' = zero_Target\<lparr>t_Kind := KindFilesystem, t_Path := p\<rparr>"
  using assms by (auto simp: validateFilesystem_def Let_def split: if_splits option.splits)

lemma Target_Validate_Inr:
  assumes "Target_Validate L v t = Inr t'"
  shows "t_Kind t = KindRepository \<and> validateRepository L v t = Inr t' \<or>
    t_Kind t = KindFilesystem \<and> validateFilesystem L v t = Inr t' \<or>
    t_Kind t = KindImage \<and> validateImage L v t = Inr t' \<or>
    t_Kind t = KindEndpoint \<and> validateEndpoint L v t = Inr t'"
  using assms by (auto simp: Target_Validate_def split: if_splits)

section \<open>Registry\<close>

lemma registry_ok_New: "registry_ok NewRegistry"
  by (simp add: registry_ok_def NewRegistry_def)

lemma Register_Inr:
  assumes "Register s r = Inr r'"
  obtains a where "s = Some a" "r' = (sn_Name a, a) # r" "map_of r (sn_Name a) = None" "sn_Name a \<noteq> []"
  using assms by (auto simp: Register_def split: option.splits if_splits)

lemma registry_ok_Register: "registry_ok r \<Longrightarrow> Register s r = Inr r' \<Longrightarrow> registry_ok r'"
  by (erule Register_Inr) (auto simp: registry_ok_def map_of_eq_None_iff)

text \<open>
  What the controller and the worker rely on: a registered adapter is found under its name, and no
  later registration replaces it.
\<close>

locale adapter_registry =
  fixes new :: 'r and register :: "'a option \<Rightarrow> 'r \<Rightarrow> 'e + 'r" and lookup :: "'r \<Rightarrow> string \<Rightarrow> 'a option"
    and name :: "'a \<Rightarrow> string"
  assumes lookup_new: "lookup new n = None"
    and lookup_register: "register (Some a) r = Inr r' \<Longrightarrow> lookup r' n = (if n = name a then Some a else lookup r n)"
    and register_fresh: "register (Some a) r = Inr r' \<Longrightarrow> lookup r (name a) = None"
    and register_nil: "register None r \<noteq> Inr r'"
begin

lemma never_shadowed:
  assumes "lookup r n = Some a" "register b r = Inr r'"
  shows "lookup r' n = Some a"
  using assms lookup_register register_fresh register_nil by (cases b) force+

text \<open>After any sequence of registrations, rejected ones skipped, every adapter is its own entry.\<close>

lemma registered_once:
  "lookup (fold (\<lambda>b r. case register b r of Inl _ \<Rightarrow> r | Inr r' \<Rightarrow> r') bs r) n = Some a \<Longrightarrow>
   lookup r n = Some a \<or> Some a \<in> set bs \<and> name a = n"
proof (induction bs arbitrary: r)
  case (Cons b bs)
  have "lookup (case register b r of Inl _ \<Rightarrow> r | Inr r' \<Rightarrow> r') n = Some a \<Longrightarrow>
      lookup r n = Some a \<or> b = Some a \<and> name a = n"
    using lookup_register register_nil
    by (cases b; cases "register b r") (auto split: if_splits)
  with Cons show ?case by auto
qed simp

end

interpretation scanner_registry: adapter_registry NewRegistry Register Registry_Get sn_Name
  by unfold_locales
    (auto simp: NewRegistry_def Registry_Get_def Register_def split: option.splits if_splits)

lemma resolve_names_Inr:
  "resolve_names r kind names = Inr ss \<Longrightarrow>
    list_all2 (\<lambda>n s. Registry_Get r n = Some s \<and> Supports (sn_Capabilities s) kind) names ss"
  by (induction names arbitrary: ss) (auto split: option.splits sum.splits if_splits)

lemma set_SelectFor:
  assumes "registry_ok r"
  shows "set (SelectFor r kind) = {s. Registry_Get r (sn_Name s) = Some s \<and> Supports (sn_Capabilities s) kind}"
proof -
  have "s \<in> snd ` set r \<longleftrightarrow> map_of r (sn_Name s) = Some s" for s
    using assms by (force simp: registry_ok_def)
  then show ?thesis by (auto simp: SelectFor_def Registry_Get_def)
qed

lemma Registry_Get_name: "registry_ok r \<Longrightarrow> Registry_Get r n = Some s \<Longrightarrow> sn_Name s = n"
  by (auto simp: registry_ok_def Registry_Get_def dest!: map_of_SomeD)

section \<open>Properties\<close>

text \<open>
  C31: a filesystem target cannot leave the workspace. For an absolute workspace root (or a relative
  one under an absolute working directory) every non-empty path, whatever dots and slashes it
  contains, validates to the root's own elements followed by elements none of which is a dot or a
  dot-dot; the containment check after the join never has to reject.
\<close>

theorem filesystem_target_contained:
  assumes "rooted_path (WorkspaceRoot v) \<or>
      WorkspaceRoot v \<noteq> [] \<and> (\<exists>wd. lib_Getwd L = Some wd \<and> rooted_path wd)"
    and "t_Path t \<noteq> []"
  shows "\<exists>rs ps. plain_elems rs \<and> plain_elems ps \<and> filepath_Abs L (WorkspaceRoot v) = Some (abs_path rs) \<and>
    validateFilesystem L v t = Inr (zero_Target\<lparr>t_Kind := KindFilesystem, t_Path := abs_path (rs @ ps)\<rparr>)"
proof -
  obtain rs where rs: "plain_elems rs" "filepath_Abs L (WorkspaceRoot v) = Some (abs_path rs)"
    using Abs_rooted [OF assms(1)] by blast
  obtain ps where ps: "plain_elems ps" "Clean (''/'' @ t_Path t) = abs_path ps"
    using Clean_rooted [of "''/'' @ t_Path t"] by (auto simp: rooted_path_def)
  have "WorkspaceRoot v \<noteq> []" using assms(1) by (auto simp: rooted_path_def)
  moreover have "(if ps = [] then ''.'' else Join ps ''/'') \<noteq> ''..''"
      "\<not> prefix ''../'' (if ps = [] then ''.'' else Join ps ''/'')"
    using Join_plain_stays [OF ps(1)] by (auto simp: prefix_def)
  ultimately have "validateFilesystem L v t =
      Inr (zero_Target\<lparr>t_Kind := KindFilesystem, t_Path := abs_path (rs @ ps)\<rparr>)"
    unfolding validateFilesystem_def rs(2) ps(2) Let_def
    using assms(2) by (simp only: option.case Join_abs_paths [OF rs(1) ps(1)] Rel_abs_paths [OF rs(1) ps(1)] if_False)
      (simp only: simp_thms if_False)
  with rs ps show ?thesis by blast
qed

theorem filesystem_target_contained_witness:
  "validateFilesystem sample_lib sample_validator (zero_Target\<lparr>t_Path := ''../../etc/passwd''\<rparr>) =
     Inr (zero_Target\<lparr>t_Kind := KindFilesystem, t_Path := ''/work/etc/passwd''\<rparr>) \<and>
   (\<exists>rs ps. plain_elems ps \<and> ''/work/etc/passwd'' = abs_path (rs @ ps))"
proof -
  have c: "validateFilesystem sample_lib sample_validator (zero_Target\<lparr>t_Path := ''../../etc/passwd''\<rparr>) =
     Inr (zero_Target\<lparr>t_Kind := KindFilesystem, t_Path := ''/work/etc/passwd''\<rparr>)"
    by code_simp
  have "rooted_path (WorkspaceRoot sample_validator)" by (simp add: rooted_path_def sample_validator_def)
  with filesystem_target_contained [of sample_validator sample_lib "zero_Target\<lparr>t_Path := ''../../etc/passwd''\<rparr>"]
  obtain rs ps where "plain_elems ps" "validateFilesystem sample_lib sample_validator (zero_Target\<lparr>t_Path := ''../../etc/passwd''\<rparr>) =
      Inr (zero_Target\<lparr>t_Kind := KindFilesystem, t_Path := abs_path (rs @ ps)\<rparr>)"
    by auto
  with c have "''/work/etc/passwd'' = abs_path (rs @ ps)"
    using arg_cong [of _ _ t_Path] by fastforce
  with c \<open>plain_elems ps\<close> show ?thesis by blast
qed



text \<open>
  Adapter selection is exact. In a registry built by registrations, \<open>Resolve\<close> returns adapters
  sorted by name that are registered under their own names and support the kind: all of them for an
  empty selection, exactly the named ones otherwise. It fails only when a named adapter is missing
  or does not support the kind, or when nothing does.
\<close>

theorem Resolve_selects_exactly:
  assumes "registry_ok r"
  shows "case Resolve r kind names of
      Inr ss \<Rightarrow> sorted (map sn_Name ss) \<and> ss \<noteq> [] \<and>
        (\<forall>s \<in> set ss. Registry_Get r (sn_Name s) = Some s \<and> Supports (sn_Capabilities s) kind) \<and>
        (if names = [] then \<forall>s. Registry_Get r (sn_Name s) = Some s \<and> Supports (sn_Capabilities s) kind \<longrightarrow> s \<in> set ss
         else mset (map sn_Name ss) = mset names)
    | Inl _ \<Rightarrow>
        (if names = [] then \<not> (\<exists>n s. Registry_Get r n = Some s \<and> Supports (sn_Capabilities s) kind)
         else \<exists>n \<in> set names. \<not> (\<exists>s. Registry_Get r n = Some s \<and> Supports (sn_Capabilities s) kind))"
proof (cases "names = []")
  case True
  note sel = set_SelectFor [OF assms, of kind]
  show ?thesis
  proof (cases "SelectFor r kind = []")
    case False
    then show ?thesis using True sel by (auto simp: Resolve_def Let_def) (simp add: SelectFor_def)
  next
    case empty: True
    then have "\<not> (\<exists>n s. Registry_Get r n = Some s \<and> Supports (sn_Capabilities s) kind)"
      using sel Registry_Get_name [OF assms] by fastforce
    with empty True show ?thesis by (simp add: Resolve_def Let_def)
  qed
next
  case names: False
  show ?thesis
  proof (cases "resolve_names r kind names")
    case (Inr ss)
    then have a: "list_all2 (\<lambda>n s. Registry_Get r n = Some s \<and> Supports (sn_Capabilities s) kind) names ss"
      by (rule resolve_names_Inr)
    have "list_all2 (\<lambda>n s. n = sn_Name s) names ss"
      by (rule list_all2_mono [OF a]) (use Registry_Get_name [OF assms] in blast)
    then have n: "names = map sn_Name ss" by (simp add: list_all2_conv_all_nth list_eq_iff_nth_eq)
    moreover have "\<forall>s \<in> set ss. Registry_Get r (sn_Name s) = Some s \<and> Supports (sn_Capabilities s) kind"
      using a unfolding n by (simp add: list_all2_map1 list_all2_same)
    moreover have "sort_key sn_Name ss \<noteq> []"
      using names n by (metis length_0_conv length_sort map_is_Nil_conv)
    ultimately show ?thesis using names Inr by (simp add: Resolve_def)
  next
    case (Inl e)
    have "\<exists>n \<in> set ns. \<not> (\<exists>s. Registry_Get r n = Some s \<and> Supports (sn_Capabilities s) kind)"
      if "resolve_names r kind ns = Inl e" for ns e
      using that by (induction ns arbitrary: e) (auto split: option.splits if_splits sum.splits)
    with Inl names show ?thesis by (simp add: Resolve_def)
  qed
qed

theorem Resolve_selects_exactly_witness:
  "\<exists>r. Register (Some (sample_adapter ''semgrep'')) NewRegistry = Inr r \<and>
     Resolve r KindFilesystem [] = Inr [sample_adapter ''semgrep''] \<and>
     Registry_Get r ''semgrep'' = Some (sample_adapter ''semgrep'')"
proof -
  let ?r = "[(''semgrep'', sample_adapter ''semgrep'')]"
  have reg: "Register (Some (sample_adapter ''semgrep'')) NewRegistry = Inr ?r"
    by (simp add: Register_def NewRegistry_def sample_adapter_def)
  have res: "Resolve ?r KindFilesystem [] = Inr [sample_adapter ''semgrep'']"
    by (simp add: Resolve_def SelectFor_def Supports_def sample_adapter_def Let_def)
  show ?thesis
    using Resolve_selects_exactly [OF registry_ok_Register [OF registry_ok_New reg],
        where kind = KindFilesystem and names = "[]"] reg res
    by (auto simp: sample_adapter_def)
qed

end
