(* ===== verification/Scans.thy ===== *)
theory Scans
  imports Targets Projects
begin

text \<open>
  The scan lifecycle: \<open>internal/scans/scan.go\<close> and \<open>create.go\<close>. A scan moves through an explicit
  state machine and collects one result per scanner; its end state is computed from them. The
  lemmas give the reachable states, show that every lifecycle ends after at most two moves, that
  \<open>completed\<close> is exactly complete coverage, that a retry supersedes the result it repeats, and that
  \<open>Normalize\<close> of a creation request is a projection onto requests that are safe as arguments.
\<close>

section \<open>The state machine\<close>

type_synonym ScanState = string

abbreviation StatusQueued :: ScanState where "StatusQueued \<equiv> ''queued''"
abbreviation StatusRunning :: ScanState where "StatusRunning \<equiv> ''running''"
abbreviation StatusPartial :: ScanState where "StatusPartial \<equiv> ''partial''"
abbreviation StatusCompleted :: ScanState where "StatusCompleted \<equiv> ''completed''"
abbreviation StatusFailed :: ScanState where "StatusFailed \<equiv> ''failed''"
abbreviation StatusCancelled :: ScanState where "StatusCancelled \<equiv> ''cancelled''"

definition allowedTransitions :: "(ScanState \<times> ScanState list) list" where
  "allowedTransitions =
     [(StatusQueued, [StatusRunning, StatusCancelled, StatusFailed]),
      (StatusRunning, [StatusPartial, StatusCompleted, StatusFailed, StatusCancelled]),
      (StatusPartial, []), (StatusCompleted, []), (StatusFailed, []), (StatusCancelled, [])]"

definition ScanState_Valid :: "ScanState \<Rightarrow> bool" where
  "ScanState_Valid s = (map_of allowedTransitions s \<noteq> None)"

definition Terminal :: "ScanState \<Rightarrow> bool" where
  "Terminal s = (s = StatusPartial \<or> s = StatusCompleted \<or> s = StatusFailed \<or> s = StatusCancelled)"

definition CanTransitionTo :: "ScanState \<Rightarrow> ScanState \<Rightarrow> bool" where
  "CanTransitionTo s next =
     list_ex (\<lambda>allowed. allowed = next) (case map_of allowedTransitions s of Some l \<Rightarrow> l | None \<Rightarrow> [])"

section \<open>Scanner results\<close>

type_synonym ScannerStatus = string

abbreviation ScannerPending :: ScannerStatus where "ScannerPending \<equiv> ''pending''"
abbreviation ScannerRunning :: ScannerStatus where "ScannerRunning \<equiv> ''running''"
abbreviation ScannerSucceeded :: ScannerStatus where "ScannerSucceeded \<equiv> ''succeeded''"
abbreviation ScannerFailed :: ScannerStatus where "ScannerFailed \<equiv> ''failed''"
abbreviation ScannerSkipped :: ScannerStatus where "ScannerSkipped \<equiv> ''skipped''"

record ScannerResult =
  sr_Scanner :: string
  sr_Status :: ScannerStatus
  sr_Version :: string
  sr_ExitCode :: int
  sr_Duration :: int
  sr_StartedAt :: "time option"
  sr_Error :: string
  sr_Degradations :: "Degradation list"

definition Succeeded :: "ScannerResult \<Rightarrow> bool" where
  "Succeeded r = (sr_Status r = ScannerSucceeded \<and> length (sr_Degradations r) = 0)"

definition ScannerResult_Degraded :: "ScannerResult \<Rightarrow> bool" where
  "ScannerResult_Degraded r = (length (sr_Degradations r) > 0)"

section \<open>The scan\<close>

record Scan =
  sc_ID :: string
  sc_ProjectID :: string
  sc_RepositoryID :: "string option"
  sc_Status :: ScanState
  sc_Target :: Target
  sc_CommitSHA :: string
  sc_Branch :: string
  sc_RequestedScanners :: "string list"
  sc_FailureReason :: string
  sc_Results :: "ScannerResult list"
  sc_QueuedAt :: time
  sc_StartedAt :: "time option"
  sc_CompletedAt :: "time option"

datatype transition_error = UnknownState ScanState | IllegalMove ScanState ScanState

definition Transition :: "ScanState \<Rightarrow> time \<Rightarrow> Scan \<Rightarrow> transition_error + Scan" where
  "Transition next tm s =
     (if \<not> ScanState_Valid next then Inl (UnknownState next)
      else if \<not> CanTransitionTo (sc_Status s) next then Inl (IllegalMove (sc_Status s) next)
      else let s = s\<lparr>sc_Status := next\<rparr> in
        if next = StatusRunning then Inr (s\<lparr>sc_StartedAt := Some tm\<rparr>)
        else if Terminal next then Inr (s\<lparr>sc_CompletedAt := Some tm\<rparr>)
        else Inr s)"

definition count_result :: "nat \<times> nat \<Rightarrow> ScannerResult \<Rightarrow> nat \<times> nat" where
  "count_result = (\<lambda>(succeeded, degraded) r.
     if Succeeded r then (succeeded + 1, degraded) else (succeeded, degraded + 1))"

definition TerminalStatus :: "Scan \<Rightarrow> ScanState" where
  "TerminalStatus s =
     (if length (sc_Results s) = 0 then StatusFailed
      else case foldl count_result (0, 0) (sc_Results s) of
        (succeeded, degraded) \<Rightarrow>
          if succeeded = 0 then StatusFailed
          else if degraded > 0 then StatusPartial
          else StatusCompleted)"

definition Complete :: "time \<Rightarrow> Scan \<Rightarrow> transition_error + Scan" where
  "Complete tm s = Transition (TerminalStatus s) tm s"

definition HasCompleteCoverage :: "Scan \<Rightarrow> bool" where
  "HasCompleteCoverage s = (length (sc_Results s) \<noteq> 0 \<and> list_all Succeeded (sc_Results s))"

definition DegradedScanners :: "Scan \<Rightarrow> string list" where
  "DegradedScanners s = map sr_Scanner (filter (\<lambda>r. \<not> Succeeded r) (sc_Results s))"

fun record_result :: "ScannerResult \<Rightarrow> ScannerResult list \<Rightarrow> ScannerResult list" where
  "record_result r [] = [r]"
| "record_result r (e # es) =
     (if sr_Scanner e = sr_Scanner r then r # es else e # record_result r es)"

definition RecordResult :: "ScannerResult \<Rightarrow> Scan \<Rightarrow> Scan" where
  "RecordResult r s = s\<lparr>sc_Results := record_result r (sc_Results s)\<rparr>"

section \<open>Creation requests\<close>

abbreviation MaxRequestedScanners :: nat where "MaxRequestedScanners \<equiv> 32"

definition hex_byte :: "char \<Rightarrow> bool" where
  "hex_byte c = (CHR ''0'' \<le> c \<and> c \<le> CHR ''9'' \<or> CHR ''a'' \<le> c \<and> c \<le> CHR ''f'')"

definition commitSHAPattern :: "string \<Rightarrow> bool" where
  "commitSHAPattern s = (list_all hex_byte s \<and> 7 \<le> length s \<and> length s \<le> 64)"

definition branchPattern :: "string \<Rightarrow> bool" where
  "branchPattern s = (s \<noteq> [] \<and> alnum_byte (hd s) \<and> length (tl s) \<le> 254 \<and>
     list_all (\<lambda>c. alnum_byte c \<or> c \<in> set ''._/-'') (tl s))"

definition scannerNamePattern :: "string \<Rightarrow> bool" where
  "scannerNamePattern s = (s \<noteq> [] \<and> slug_byte (hd s) \<and> length (tl s) \<le> 63 \<and>
     list_all (\<lambda>c. slug_byte c \<or> c \<in> set ''_-'') (tl s))"

record NewScan =
  ns_ProjectID :: string
  ns_RepositoryID :: "string option"
  ns_Target :: Target
  ns_CommitSHA :: string
  ns_Branch :: string
  ns_Scanners :: "string list"

datatype scan_error =
    ProjectIDRequired | BadTargetKind | BadCommitSHA | BranchCharacters | BranchDotDot
  | RepositoryIDBlank | TooManyScanners | BlankScannerName | BadScannerName

fun scanner_names_loop :: "golib \<Rightarrow> string list \<Rightarrow> string list \<Rightarrow> scan_error + string list" where
  "scanner_names_loop L seen [] = Inr []"
| "scanner_names_loop L seen (raw # raws) =
     (let name = ToLower L (TrimSpace raw) in
      if name = [] then Inl BlankScannerName
      else if \<not> scannerNamePattern name then Inl BadScannerName
      else if name \<in> set seen then scanner_names_loop L seen raws
      else map_sum id (\<lambda>out. name # out) (scanner_names_loop L (name # seen) raws))"

definition normalizeScannerNames :: "golib \<Rightarrow> string list \<Rightarrow> scan_error + string list" where
  "normalizeScannerNames L names =
     (if length names = 0 then Inr []
      else if length names > MaxRequestedScanners then Inl TooManyScanners
      else map_sum id sort (scanner_names_loop L [] names))"

definition NewScan_Normalize :: "golib \<Rightarrow> NewScan \<Rightarrow> scan_error + NewScan" where
  "NewScan_Normalize L n =
     (let out = n\<lparr>ns_ProjectID := TrimSpace (ns_ProjectID n),
                   ns_CommitSHA := ToLower L (TrimSpace (ns_CommitSHA n)),
                   ns_Branch := TrimSpace (ns_Branch n), ns_Scanners := []\<rparr> in
      if ns_ProjectID out = [] then Inl ProjectIDRequired
      else if \<not> Kind_Valid (t_Kind (ns_Target out)) then Inl BadTargetKind
      else if ns_CommitSHA out \<noteq> [] \<and> \<not> commitSHAPattern (ns_CommitSHA out) then Inl BadCommitSHA
      else if ns_Branch out \<noteq> [] \<and> \<not> branchPattern (ns_Branch out) then Inl BranchCharacters
      else if ns_Branch out \<noteq> [] \<and> contains (ns_Branch out) ''..'' then Inl BranchDotDot
      else if ns_RepositoryID n \<noteq> None \<and> TrimSpace (the (ns_RepositoryID n)) = [] then Inl RepositoryIDBlank
      else case normalizeScannerNames L (ns_Scanners n) of
        Inl e \<Rightarrow> Inl e
      | Inr selection \<Rightarrow>
          Inr (out\<lparr>ns_RepositoryID := map_option TrimSpace (ns_RepositoryID n),
                   ns_Scanners := selection\<rparr>))"

section \<open>Failure reasons\<close>

type_synonym FailureReason = string

abbreviation FailureTargetInvalid :: FailureReason where
  "FailureTargetInvalid \<equiv> ''target failed validation''"
abbreviation FailureNoScannerAvailable :: FailureReason where
  "FailureNoScannerAvailable \<equiv> ''no registered scanner supports this target kind''"
abbreviation FailureScannerNotRegistered :: FailureReason where
  "FailureScannerNotRegistered \<equiv> ''a requested scanner is not registered for this target kind''"
abbreviation FailureWorkspaceUnavailable :: FailureReason where
  "FailureWorkspaceUnavailable \<equiv> ''the worker could not create an isolated workspace''"
abbreviation FailureMaxAttemptsExceeded :: FailureReason where
  "FailureMaxAttemptsExceeded \<equiv> ''the job exceeded the maximum number of delivery attempts''"
abbreviation FailureAllScannersDegraded :: FailureReason where
  "FailureAllScannersDegraded \<equiv> ''every scanner failed or was skipped''"
abbreviation FailureNotEnqueued :: FailureReason where
  "FailureNotEnqueued \<equiv> ''the scan job could not be enqueued''"
abbreviation FailureFetchFailed :: FailureReason where
  "FailureFetchFailed \<equiv> ''the repository could not be fetched''"
abbreviation FailureTargetTooLarge :: FailureReason where
  "FailureTargetTooLarge \<equiv> ''the repository exceeds the configured size limits''"

section \<open>Specification vocabulary\<close>

text \<open>What callers may do to a scan: a legal move, or recording a result.\<close>

inductive scan_step :: "Scan \<Rightarrow> Scan \<Rightarrow> bool" where
  move: "Transition next tm s = Inr s' \<Longrightarrow> scan_step s s'"
| report: "scan_step s (RecordResult r s)"

inductive_cases scan_stepE: "scan_step s s'"

text \<open>A scan as creation makes it.\<close>

definition fresh_scan :: "Scan \<Rightarrow> bool" where
  "fresh_scan s = (sc_Status s = StatusQueued \<and> sc_Results s = [] \<and>
     sc_StartedAt s = None \<and> sc_CompletedAt s = None)"

definition scan_invariant :: "Scan \<Rightarrow> bool" where
  "scan_invariant s =
     (ScanState_Valid (sc_Status s) \<and>
      (sc_CompletedAt s \<noteq> None \<longleftrightarrow> Terminal (sc_Status s)) \<and>
      (sc_StartedAt s \<noteq> None \<longrightarrow> sc_Status s \<noteq> StatusQueued) \<and>
      (sc_Status s = StatusRunning \<or> sc_Status s = StatusPartial \<or> sc_Status s = StatusCompleted
         \<longrightarrow> sc_StartedAt s \<noteq> None) \<and>
      distinct (map sr_Scanner (sc_Results s)))"

text \<open>How many moves a state still allows.\<close>

definition moves_left :: "ScanState \<Rightarrow> nat" where
  "moves_left s = (if s = StatusQueued then 2 else if s = StatusRunning then 1 else 0)"

text \<open>A sequence of moves, each of which must be legal.\<close>

fun run_moves :: "(ScanState \<times> time) list \<Rightarrow> Scan \<Rightarrow> transition_error + Scan" where
  "run_moves [] s = Inr s"
| "run_moves ((next, tm) # ms) s =
     (case Transition next tm s of Inl e \<Rightarrow> Inl e | Inr s' \<Rightarrow> run_moves ms s')"

text \<open>The abstract view of the results: the last one reported by each scanner.\<close>

definition results_map :: "ScannerResult list \<Rightarrow> string \<Rightarrow> ScannerResult option" where
  "results_map rs = map_of (map (\<lambda>r. (sr_Scanner r, r)) rs)"

definition newscan_ok :: "NewScan \<Rightarrow> bool" where
  "newscan_ok n =
     (ns_ProjectID n \<noteq> [] \<and> Kind_Valid (t_Kind (ns_Target n)) \<and>
      (ns_CommitSHA n = [] \<or> commitSHAPattern (ns_CommitSHA n)) \<and>
      no_flag (ns_Branch n) \<and> length (ns_Branch n) \<le> 255 \<and> \<not> contains (ns_Branch n) ''..'' \<and>
      ns_RepositoryID n \<noteq> Some [] \<and>
      length (ns_Scanners n) \<le> MaxRequestedScanners \<and> sorted (ns_Scanners n) \<and> distinct (ns_Scanners n) \<and>
      list_all scannerNamePattern (ns_Scanners n))"

definition sample_result :: "string \<Rightarrow> ScannerStatus \<Rightarrow> Degradation list \<Rightarrow> ScannerResult" where
  "sample_result n st ds = \<lparr>sr_Scanner = n, sr_Status = st, sr_Version = ''1'', sr_ExitCode = 0,
     sr_Duration = 0, sr_StartedAt = None, sr_Error = [], sr_Degradations = ds\<rparr>"

definition sample_scan :: Scan where
  "sample_scan = \<lparr>sc_ID = ''s1'', sc_ProjectID = ''p1'', sc_RepositoryID = None,
     sc_Status = StatusQueued, sc_Target = zero_Target\<lparr>t_Kind := KindFilesystem, t_Path := ''app''\<rparr>,
     sc_CommitSHA = [], sc_Branch = [], sc_RequestedScanners = [], sc_FailureReason = [],
     sc_Results = [], sc_QueuedAt = 1, sc_StartedAt = None, sc_CompletedAt = None\<rparr>"

definition sample_newscan :: NewScan where
  "sample_newscan = \<lparr>ns_ProjectID = '' p1 '', ns_RepositoryID = None,
     ns_Target = zero_Target\<lparr>t_Kind := KindFilesystem, t_Path := ''app''\<rparr>,
     ns_CommitSHA = ''ABCDEF0'', ns_Branch = ''main'', ns_Scanners = [''Trivy'', ''semgrep'', ''trivy '']\<rparr>"


section \<open>The state machine\<close>

lemmas state_machine_defs = CanTransitionTo_def allowedTransitions_def ScanState_Valid_def Terminal_def

lemma CanTransitionTo_iff:
  "CanTransitionTo s next \<longleftrightarrow>
     s = StatusQueued \<and> (next = StatusRunning \<or> next = StatusCancelled \<or> next = StatusFailed) \<or>
     s = StatusRunning \<and> Terminal next"
proof -
  consider "s = StatusQueued" | "s = StatusRunning" | "s \<noteq> StatusQueued" "s \<noteq> StatusRunning" by blast
  then show ?thesis
    by cases (simp_all add: state_machine_defs eq_commute [of _ "next"] disj_assoc)
qed

lemma ScanState_Valid_iff: "ScanState_Valid s \<longleftrightarrow> s = StatusQueued \<or> s = StatusRunning \<or> Terminal s"
  by (simp add: state_machine_defs)

lemma Terminal_simps [simp]:
  "\<not> Terminal StatusQueued" "\<not> Terminal StatusRunning" "Terminal StatusPartial"
  "Terminal StatusCompleted" "Terminal StatusFailed" "Terminal StatusCancelled"
  by (simp_all add: Terminal_def)

lemma Transition_Inr:
  "Transition next tm s = Inr s' \<longleftrightarrow>
     CanTransitionTo (sc_Status s) next \<and>
     s' = (if next = StatusRunning then s\<lparr>sc_Status := next, sc_StartedAt := Some tm\<rparr>
           else s\<lparr>sc_Status := next, sc_CompletedAt := Some tm\<rparr>)"
proof -
  have "CanTransitionTo (sc_Status s) next \<Longrightarrow> ScanState_Valid next \<and> (next = StatusRunning \<or> Terminal next)"
    by (auto simp: CanTransitionTo_iff ScanState_Valid_iff Terminal_def)
  then show ?thesis by (auto simp: Transition_def Let_def)
qed

lemma moves_left_decrease: "CanTransitionTo s next \<Longrightarrow> moves_left next < moves_left s"
  by (auto simp: CanTransitionTo_iff moves_left_def Terminal_def)

lemma fresh_invariant: "fresh_scan s \<Longrightarrow> scan_invariant s"
  by (auto simp: fresh_scan_def scan_invariant_def ScanState_Valid_iff Terminal_def)

lemma Transition_invariant:
  assumes "scan_invariant s" "Transition next tm s = Inr s'"
  shows "scan_invariant s'"
proof (cases "next = StatusRunning")
  case True
  then show ?thesis using assms by (auto simp: Transition_Inr scan_invariant_def ScanState_Valid_iff CanTransitionTo_iff)
next
  case False
  then have t: "Terminal next" "next \<noteq> StatusQueued" "sc_Status s = StatusQueued \<or> sc_Status s = StatusRunning"
    and s': "s' = s\<lparr>sc_Status := next, sc_CompletedAt := Some tm\<rparr>"
    and left: "sc_Status s = StatusQueued \<longrightarrow> next \<noteq> StatusPartial \<and> next \<noteq> StatusCompleted"
    using assms(2) by (auto simp: Transition_Inr CanTransitionTo_iff)
  from t(3) show ?thesis
    by (elim disjE) (use t(1,2) False left assms(1) in \<open>simp_all add: s' scan_invariant_def ScanState_Valid_iff\<close>)
qed

section \<open>Results\<close>

lemma record_result_names:
  "set (map sr_Scanner (record_result r rs)) = insert (sr_Scanner r) (set (map sr_Scanner rs))"
  by (induction rs) auto

lemma record_result_distinct:
  "distinct (map sr_Scanner rs) \<Longrightarrow> distinct (map sr_Scanner (record_result r rs))"
proof (induction rs)
  case (Cons e es)
  then show ?case using record_result_names [of r es] by auto
qed simp

lemma results_map_record: "results_map (record_result r rs) = (results_map rs)(sr_Scanner r \<mapsto> r)"
  by (induction rs) (auto simp: results_map_def)

lemma count_results:
  "foldl count_result (a, b) rs =
     (a + length (filter Succeeded rs), b + length (filter (\<lambda>r. \<not> Succeeded r) rs))"
  by (induction rs arbitrary: a b) (auto simp: count_result_def)

lemma TerminalStatus_cases:
  "TerminalStatus s = StatusCompleted \<longleftrightarrow> sc_Results s \<noteq> [] \<and> (\<forall>r \<in> set (sc_Results s). Succeeded r)"
  "TerminalStatus s = StatusFailed \<longleftrightarrow> (\<forall>r \<in> set (sc_Results s). \<not> Succeeded r)"
  "TerminalStatus s = StatusPartial \<longleftrightarrow>
     (\<exists>r \<in> set (sc_Results s). Succeeded r) \<and> (\<exists>r \<in> set (sc_Results s). \<not> Succeeded r)"
  by (auto simp: TerminalStatus_def count_results filter_empty_conv)

lemma TerminalStatus_terminal:
  "TerminalStatus s \<in> {StatusFailed, StatusPartial, StatusCompleted}"
  by (auto simp: TerminalStatus_def count_results)

lemma RecordResult_invariant: "scan_invariant s \<Longrightarrow> scan_invariant (RecordResult r s)"
  by (simp add: scan_invariant_def RecordResult_def record_result_distinct)

lemma scan_step_invariant: "scan_step s s' \<Longrightarrow> scan_invariant s \<Longrightarrow> scan_invariant s'"
  by (erule scan_stepE) (auto intro: Transition_invariant RecordResult_invariant)

lemma scan_step_end:
  assumes "scan_step s s'" "Terminal (sc_Status s)"
  shows "sc_Status s' = sc_Status s \<and> sc_CompletedAt s' = sc_CompletedAt s"
  using assms by (auto elim!: scan_stepE simp: Transition_Inr CanTransitionTo_iff RecordResult_def Terminal_def)

text \<open>
  C34: the invariant of a scan's life. After any sequence of legal moves and reported results from a
  fresh scan, the status is known; the completion time is set exactly in an end state; a scan that
  is running or has ended with results has a start time; no scanner has two results; and an end
  state, with its completion time, is never left.
\<close>

theorem scan_lifecycle_invariant:
  assumes "fresh_scan s" "scan_step\<^sup>*\<^sup>* s t"
  shows "scan_invariant t \<and>
    (Terminal (sc_Status t) \<longrightarrow> scan_step\<^sup>*\<^sup>* t u \<longrightarrow>
      sc_Status u = sc_Status t \<and> sc_CompletedAt u = sc_CompletedAt t)"
proof -
  have "scan_invariant t"
    using assms(2) fresh_invariant [OF assms(1)] by induction (auto intro: scan_step_invariant)
  moreover have "sc_Status u = sc_Status t \<and> sc_CompletedAt u = sc_CompletedAt t"
    if t: "Terminal (sc_Status t)" and r: "scan_step\<^sup>*\<^sup>* t u"
    using r t by induction (auto dest!: scan_step_end)
  ultimately show ?thesis by blast
qed

theorem scan_lifecycle_invariant_witness:
  "fresh_scan sample_scan \<and> scan_step\<^sup>*\<^sup>* sample_scan (RecordResult (sample_result ''trivy'' ScannerFailed []) sample_scan) \<and>
   scan_invariant (RecordResult (sample_result ''trivy'' ScannerFailed []) sample_scan)"
proof -
  let ?t = "RecordResult (sample_result ''trivy'' ScannerFailed []) sample_scan"
  have f: "fresh_scan sample_scan" by (simp add: fresh_scan_def sample_scan_def)
  have r: "scan_step\<^sup>*\<^sup>* sample_scan ?t" by (rule r_into_rtranclp) (rule scan_step.report)
  from scan_lifecycle_invariant [OF f r, of ?t] f r show ?thesis by blast
qed

text \<open>
  C35: every lifecycle ends. No scan makes more than two moves, whatever is asked of it; a running
  scan can always be completed and then is in an end state; and a scan refuses completion only when
  it is still queued with a usable result or has already ended.
\<close>

theorem scan_lifecycle_ends:
  "(run_moves ms s = Inr s' \<longrightarrow> length ms \<le> 2) \<and>
   (sc_Status s = StatusRunning \<longrightarrow>
      (\<exists>s'. Complete tm s = Inr s' \<and> sc_Status s' = TerminalStatus s \<and> Terminal (sc_Status s') \<and>
        sc_CompletedAt s' = Some tm)) \<and>
   (ScanState_Valid (sc_Status s) \<longrightarrow> Complete tm s = Inl e \<longrightarrow>
      Terminal (sc_Status s) \<or> sc_Status s = StatusQueued \<and> list_ex Succeeded (sc_Results s))"
proof -
  have "run_moves ms s = Inr s' \<Longrightarrow> length ms \<le> moves_left (sc_Status s)"
  proof (induction ms s rule: run_moves.induct)
    case (2 nxt tm ms s)
    then obtain t where t: "Transition nxt tm s = Inr t" "run_moves ms t = Inr s'"
      by (auto split: sum.splits)
    have "sc_Status t = nxt" "moves_left nxt < moves_left (sc_Status s)"
      using t(1) by (auto simp: Transition_Inr moves_left_decrease)
    with "2.IH" [OF t] show ?case by simp
  qed simp
  moreover have "moves_left (sc_Status s) \<le> 2" by (simp add: moves_left_def)
  moreover have "\<exists>s'. Complete tm s = Inr s' \<and> sc_Status s' = TerminalStatus s \<and>
      Terminal (sc_Status s') \<and> sc_CompletedAt s' = Some tm" if "sc_Status s = StatusRunning"
    using that TerminalStatus_terminal [of s]
    by (auto simp: Complete_def Transition_Inr CanTransitionTo_iff Terminal_def)
  moreover have "Terminal (sc_Status s) \<or> sc_Status s = StatusQueued \<and> list_ex Succeeded (sc_Results s)"
    if v: "ScanState_Valid (sc_Status s)" and e: "Complete tm s = Inl e"
  proof -
    have "\<not> CanTransitionTo (sc_Status s) (TerminalStatus s)"
      using e Transition_Inr [of "TerminalStatus s" tm s] by (auto simp: Complete_def)
    with v TerminalStatus_terminal [of s] TerminalStatus_cases(2) [of s] show ?thesis
      by (auto simp: ScanState_Valid_iff CanTransitionTo_iff Terminal_def list_ex_iff)
  qed
  ultimately show ?thesis by fastforce
qed

theorem scan_lifecycle_ends_witness:
  "\<exists>s'. run_moves [(StatusRunning, 2), (StatusFailed, 3)] sample_scan = Inr s' \<and>
     length [(StatusRunning, 2 :: time), (StatusFailed, 3)] \<le> 2"
proof -
  let ?ms = "[(StatusRunning, 2), (StatusFailed, 3)]"
  have "run_moves ?ms sample_scan =
      Inr (sample_scan\<lparr>sc_Status := StatusFailed, sc_StartedAt := Some 2, sc_CompletedAt := Some 3\<rparr>)"
    by code_simp
  with scan_lifecycle_ends [of ?ms sample_scan] show ?thesis by blast
qed

text \<open>
  Incomplete coverage is never reported as complete. The end state computed from the results is
  \<open>completed\<close> exactly when there are results and every one succeeded without a degradation, which
  is what \<open>HasCompleteCoverage\<close> says and what an empty list of degraded scanners says of a scan with
  results; it is \<open>failed\<close> exactly when no result is whole, and \<open>partial\<close> otherwise.
\<close>

theorem completed_means_complete_coverage:
  "(TerminalStatus s = StatusCompleted \<longleftrightarrow> HasCompleteCoverage s) \<and>
   (HasCompleteCoverage s \<longleftrightarrow> sc_Results s \<noteq> [] \<and> DegradedScanners s = []) \<and>
   (TerminalStatus s = StatusFailed \<longleftrightarrow> \<not> list_ex Succeeded (sc_Results s)) \<and>
   (TerminalStatus s = StatusPartial \<longleftrightarrow> list_ex Succeeded (sc_Results s) \<and> DegradedScanners s \<noteq> []) \<and>
   (list_ex ScannerResult_Degraded (sc_Results s) \<or> list_ex (\<lambda>r. sr_Status r \<noteq> ScannerSucceeded) (sc_Results s)
      \<longleftrightarrow> DegradedScanners s \<noteq> [])"
  unfolding TerminalStatus_cases HasCompleteCoverage_def DegradedScanners_def
  by (auto simp: list_all_iff list_ex_iff filter_empty_conv Succeeded_def ScannerResult_Degraded_def)

lemma fold_record_result:
  "results_map (fold record_result rs es) = results_map es ++ results_map (rev rs)"
proof (induction rs arbitrary: es)
  case Nil
  then show ?case by (simp add: results_map_def)
next
  case (Cons r rs)
  have "results_map (rev (r # rs)) = [sr_Scanner r \<mapsto> r] ++ results_map (rev rs)"
    by (simp add: results_map_def)
  then have "results_map es ++ results_map (rev (r # rs)) =
      (results_map es ++ [sr_Scanner r \<mapsto> r]) ++ results_map (rev rs)"
    by (simp only: map_add_assoc)
  then show ?case by (simp only: fold_Cons o_apply Cons.IH results_map_record map_add_upd map_add_empty)
qed

lemma fold_record_names:
  "map sr_Scanner (fold record_result rs es) = map sr_Scanner es @ dedup_seen (map sr_Scanner es) (map sr_Scanner rs)"
proof (induction rs arbitrary: es)
  case (Cons r rs)
  have n: "map sr_Scanner (record_result r es) =
      (if sr_Scanner r \<in> set (map sr_Scanner es) then map sr_Scanner es else map sr_Scanner es @ [sr_Scanner r])"
    by (induction es) auto
  have "dedup_seen (sr_Scanner r # map sr_Scanner es) (map sr_Scanner rs) =
      dedup_seen (map sr_Scanner es @ [sr_Scanner r]) (map sr_Scanner rs)"
    by (rule dedup_seen_cong) auto
  then show ?case by (simp add: Cons.IH n)
qed simp

lemma fold_RecordResult: "fold RecordResult rs s = s\<lparr>sc_Results := fold record_result rs (sc_Results s)\<rparr>"
  by (induction rs arbitrary: s) (simp_all add: RecordResult_def)

text \<open>
  Recording results implements a table with one row per scanner. Whatever is reported, in
  whatever order, a scanner's row is the last result it reported, rows keep the order in which
  scanners first reported, and nothing else of the scan changes.
\<close>

theorem RecordResult_refines_table:
  "results_map (sc_Results (fold RecordResult rs s)) = results_map (sc_Results s) ++ results_map (rev rs) \<and>
   map sr_Scanner (sc_Results (fold RecordResult rs s)) =
     map sr_Scanner (sc_Results s) @ dedup_seen (map sr_Scanner (sc_Results s)) (map sr_Scanner rs) \<and>
   (fold RecordResult rs s)\<lparr>sc_Results := sc_Results s\<rparr> = s"
  by (simp add: fold_RecordResult fold_record_result fold_record_names)

section \<open>Normalize\<close>

lemma lower_byte_fix: "\<not> (CHR ''A'' \<le> c \<and> c \<le> CHR ''Z'') \<Longrightarrow> lower_byte c = c"
  by (auto simp: lower_byte_def)

lemma ToLower_fix:
  assumes "\<And>c. c \<in> set s \<Longrightarrow> \<not> digit7 c \<and> \<not> (CHR ''A'' \<le> c \<and> c \<le> CHR ''Z'')"
  shows "ToLower L s = s"
  using assms by (simp add: ToLower_def is_ascii_def list_all_iff lower_byte_fix map_idI)

lemma slug_byte_no_upper: "slug_byte c \<Longrightarrow> \<not> (CHR ''A'' \<le> c \<and> c \<le> CHR ''Z'')"
  by (cases c) (auto simp: slug_byte_def)

lemma hex_byte_slug: "hex_byte c \<Longrightarrow> slug_byte c"
  unfolding hex_byte_def slug_byte_def using order_trans [of c "CHR ''f''" "CHR ''z''"] by auto

lemma scannerNamePattern_bytes:
  "scannerNamePattern s \<Longrightarrow> c \<in> set s \<Longrightarrow> CHR 0x20 < c \<and> \<not> digit7 c \<and> \<not> (CHR ''A'' \<le> c \<and> c \<le> CHR ''Z'')"
proof -
  assume "scannerNamePattern s" "c \<in> set s"
  then have "slug_byte c \<or> c = CHR ''_'' \<or> c = CHR ''-''"
    by (cases s) (auto simp: scannerNamePattern_def list_all_iff)
  then show ?thesis using slug_byte_props [of c] slug_byte_no_upper [of c] by (elim disjE) simp_all
qed

lemma scannerNamePattern_fix: "scannerNamePattern s \<Longrightarrow> ToLower L (TrimSpace s) = s"
  using scannerNamePattern_bytes [of s] by (simp add: TrimSpace_graphic ToLower_fix)

lemma commitSHAPattern_fix: "s = [] \<or> commitSHAPattern s \<Longrightarrow> ToLower L (TrimSpace s) = s"
proof -
  assume "s = [] \<or> commitSHAPattern s"
  then have "slug_byte c" if "c \<in> set s" for c
    using that by (auto simp: commitSHAPattern_def list_all_iff intro: hex_byte_slug)
  then show ?thesis using slug_byte_props slug_byte_no_upper by (simp add: TrimSpace_graphic ToLower_fix)
qed

lemma scanner_names_loop_Inr:
  "scanner_names_loop L seen raws = Inr out \<longleftrightarrow>
     (\<forall>raw \<in> set raws. scannerNamePattern (ToLower L (TrimSpace raw))) \<and>
     out = dedup_seen seen (map (\<lambda>raw. ToLower L (TrimSpace raw)) raws)"
proof (induction L seen raws arbitrary: out rule: scanner_names_loop.induct)
  case (2 L seen raw raws)
  let ?n = "ToLower L (TrimSpace raw)"
  have e: "\<not> scannerNamePattern []" by (simp add: scannerNamePattern_def)
  show ?case
  proof (cases "scannerNamePattern ?n")
    case False
    then show ?thesis by (simp add: Let_def)
  next
    case True
    with e have ne: "?n \<noteq> []" by metis
    show ?thesis
    proof (cases "?n \<in> set seen")
      case in_seen: True
      from "2.IH"(1) [OF refl ne _ in_seen] True in_seen ne show ?thesis by simp
    next
      case fresh: False
      from "2.IH"(2) [OF refl ne _ fresh] True fresh ne show ?thesis
        by (cases "scanner_names_loop L (?n # seen) raws") auto
    qed
  qed
qed auto

lemma normalizeScannerNames_Inr:
  "normalizeScannerNames L names = Inr out \<longleftrightarrow>
     length names \<le> MaxRequestedScanners \<and>
     (\<forall>raw \<in> set names. scannerNamePattern (ToLower L (TrimSpace raw))) \<and>
     out = sort (dedup (map (\<lambda>raw. ToLower L (TrimSpace raw)) names))"
proof (cases "names = []")
  case False
  let ?d = "dedup (map (\<lambda>raw. ToLower L (TrimSpace raw)) names)"
  let ?ok = "\<forall>raw \<in> set names. scannerNamePattern (ToLower L (TrimSpace raw))"
  note iff = scanner_names_loop_Inr [of L "[]" names]
  have "map_sum id sort (scanner_names_loop L [] names) = Inr out \<longleftrightarrow> ?ok \<and> out = sort ?d"
  proof (cases "scanner_names_loop L [] names")
    case (Inl e)
    then have "\<not> ?ok" using iff [of ?d] by simp
    with Inl show ?thesis by simp
  next
    case (Inr b)
    then have "?ok" "b = ?d" using iff [of b] by simp_all
    with Inr show ?thesis by auto
  qed
  with False show ?thesis by (simp add: normalizeScannerNames_def)
qed (simp add: normalizeScannerNames_def eq_commute [of out])

lemma normalizeScannerNames_fix:
  assumes "normalizeScannerNames L names = Inr out"
  shows "length out \<le> MaxRequestedScanners \<and> sorted out \<and> distinct out \<and> list_all scannerNamePattern out \<and>
    normalizeScannerNames L out = Inr out"
proof -
  let ?f = "\<lambda>raw. ToLower L (TrimSpace raw)"
  note o = assms [unfolded normalizeScannerNames_Inr]
  then have out: "out = sort (dedup (map ?f names))" by blast
  have pat: "\<forall>s \<in> set out. scannerNamePattern s" using o by auto
  then have "map ?f out = out" by (simp add: map_idI scannerNamePattern_fix)
  moreover have "distinct out" "sorted out" by (simp_all add: out)
  moreover have "length out \<le> MaxRequestedScanners"
    using o length_dedup_seen [of "[]" "map ?f names"] by (simp add: out)
  ultimately show ?thesis
    using pat by (simp add: normalizeScannerNames_Inr list_all_iff dedup_id sorted_sort_id scannerNamePattern_fix)
qed

lemma branchPattern_safe: "branchPattern b \<Longrightarrow> no_flag b \<and> length b \<le> 255"
  by (cases b) (auto simp: branchPattern_def no_flag_def dest: alnum_no_dash)

lemma NewScan_Normalize_Inr:
  "NewScan_Normalize L n = Inr m \<longleftrightarrow>
     (\<exists>selection. normalizeScannerNames L (ns_Scanners n) = Inr selection \<and>
        m = n\<lparr>ns_ProjectID := TrimSpace (ns_ProjectID n), ns_RepositoryID := map_option TrimSpace (ns_RepositoryID n),
              ns_CommitSHA := ToLower L (TrimSpace (ns_CommitSHA n)), ns_Branch := TrimSpace (ns_Branch n),
              ns_Scanners := selection\<rparr>) \<and>
     TrimSpace (ns_ProjectID n) \<noteq> [] \<and> Kind_Valid (t_Kind (ns_Target n)) \<and>
     (ToLower L (TrimSpace (ns_CommitSHA n)) = [] \<or> commitSHAPattern (ToLower L (TrimSpace (ns_CommitSHA n)))) \<and>
     (TrimSpace (ns_Branch n) = [] \<or>
        branchPattern (TrimSpace (ns_Branch n)) \<and> \<not> contains (TrimSpace (ns_Branch n)) ''..'') \<and>
     (\<forall>id. ns_RepositoryID n = Some id \<longrightarrow> TrimSpace id \<noteq> [])"
  by (cases "ns_RepositoryID n"; cases "normalizeScannerNames L (ns_Scanners n)")
    (auto simp: NewScan_Normalize_def Let_def)

text \<open>
  C36: what \<open>Normalize\<close> accepts is canonical and safe to store and to pass on. It has a project and a
  known target kind; commit and branch are empty or match their pattern, and a branch can be neither
  a flag nor a path escape; the selection is at most 32 distinct well-formed names in order; and
  normalising it again returns it unchanged.
\<close>

theorem NewScan_Normalize_canonical:
  assumes "NewScan_Normalize L n = Inr m"
  shows "newscan_ok m \<and> NewScan_Normalize L m = Inr m"
proof -
  note f = assms [unfolded NewScan_Normalize_Inr]
  then obtain sel where sel: "normalizeScannerNames L (ns_Scanners n) = Inr sel" and
    m: "m = n\<lparr>ns_ProjectID := TrimSpace (ns_ProjectID n), ns_RepositoryID := map_option TrimSpace (ns_RepositoryID n),
              ns_CommitSHA := ToLower L (TrimSpace (ns_CommitSHA n)), ns_Branch := TrimSpace (ns_Branch n),
              ns_Scanners := sel\<rparr>" by blast
  note fix_sel = normalizeScannerNames_fix [OF sel]
  have sel_m: "ns_ProjectID m = TrimSpace (ns_ProjectID n)" "ns_RepositoryID m = map_option TrimSpace (ns_RepositoryID n)"
    "ns_CommitSHA m = ToLower L (TrimSpace (ns_CommitSHA n))" "ns_Branch m = TrimSpace (ns_Branch n)" "ns_Scanners m = sel"
    "ns_Target m = ns_Target n" by (simp_all add: m)
  have repo: "map_option TrimSpace (ns_RepositoryID m) = ns_RepositoryID m"
    by (cases "ns_RepositoryID n") (simp_all add: sel_m)
  have sha: "ToLower L (TrimSpace (ns_CommitSHA m)) = ns_CommitSHA m"
    using f commitSHAPattern_fix [of "ns_CommitSHA m" L] unfolding sel_m by fastforce
  have same: "m = m\<lparr>ns_ProjectID := TrimSpace (ns_ProjectID m), ns_RepositoryID := map_option TrimSpace (ns_RepositoryID m),
      ns_CommitSHA := ToLower L (TrimSpace (ns_CommitSHA m)), ns_Branch := TrimSpace (ns_Branch m), ns_Scanners := sel\<rparr>"
    unfolding repo sha by (cases m) (use sel_m in simp)
  have c: "TrimSpace (ns_ProjectID m) \<noteq> [] \<and> Kind_Valid (t_Kind (ns_Target m)) \<and>
     (ToLower L (TrimSpace (ns_CommitSHA m)) = [] \<or> commitSHAPattern (ToLower L (TrimSpace (ns_CommitSHA m)))) \<and>
     (TrimSpace (ns_Branch m) = [] \<or>
        branchPattern (TrimSpace (ns_Branch m)) \<and> \<not> contains (TrimSpace (ns_Branch m)) ''..'') \<and>
     (\<forall>id. ns_RepositoryID m = Some id \<longrightarrow> TrimSpace id \<noteq> [])"
    unfolding sha unfolding sel_m TrimSpace_idem using f by (simp add: map_option_case split: option.splits)
  have idem: "NewScan_Normalize L m = Inr m" unfolding NewScan_Normalize_Inr using fix_sel same c unfolding sel_m(5) by blast
  have "no_flag (ns_Branch m) \<and> length (ns_Branch m) \<le> 255 \<and> \<not> contains (ns_Branch m) ''..''"
    using c branchPattern_safe [of "ns_Branch m"] unfolding sel_m TrimSpace_idem by (auto simp: no_flag_def)
  then have "newscan_ok m" unfolding newscan_ok_def using c fix_sel unfolding sha unfolding sel_m TrimSpace_idem
    by (cases "ns_RepositoryID n") auto
  with idem show ?thesis by blast
qed

theorem NewScan_Normalize_canonical_witness:
  "\<exists>m. NewScan_Normalize sample_lib sample_newscan = Inr m \<and> newscan_ok m \<and>
     ns_Scanners m = [''semgrep'', ''trivy'']"
proof -
  let ?m = "sample_newscan\<lparr>ns_ProjectID := ''p1'', ns_CommitSHA := ''abcdef0'', ns_Scanners := [''semgrep'', ''trivy'']\<rparr>"
  have n: "NewScan_Normalize sample_lib sample_newscan = Inr ?m" by code_simp
  from NewScan_Normalize_canonical [OF n] n show ?thesis by auto
qed

end
