(* ===== verification/Auth.thy ===== *)
theory Auth
  imports Scans
begin

text \<open>
  Credentials: \<open>internal/auth\<close> (\<open>role.go\<close>, \<open>scope.go\<close>, \<open>auth.go\<close>). A credential is a label, a
  role, a scope and the digest of a secret. The lemmas show that roles form a chain, that a scope
  reaches exactly the projects it names and the zero scope none, that \<open>New\<close> accepts only
  unambiguous credentials, and that \<open>Authenticate\<close> answers with the one credential the presented
  secret belongs to. A digest is compared in its hexadecimal form, which is in bijection with the
  bytes; constant-time comparison is equality.
\<close>

section \<open>role.go\<close>

type_synonym Role = string

abbreviation RoleViewer :: Role where "RoleViewer \<equiv> ''viewer''"
abbreviation RoleService :: Role where "RoleService \<equiv> ''service''"
abbreviation RoleAdmin :: Role where "RoleAdmin \<equiv> ''admin''"

definition Role_Valid :: "Role \<Rightarrow> bool" where
  "Role_Valid r = (r = RoleViewer \<or> r = RoleService \<or> r = RoleAdmin)"

definition role_rank :: "Role \<Rightarrow> nat" where
  "role_rank r = (if r = RoleAdmin then 3 else if r = RoleService then 2 else if r = RoleViewer then 1 else 0)"

definition Role_Allows :: "Role \<Rightarrow> Role \<Rightarrow> bool" where
  "Role_Allows r required = (Role_Valid r \<and> role_rank r \<ge> role_rank required)"

definition ParseRole :: "golib \<Rightarrow> string \<Rightarrow> Role \<times> bool" where
  "ParseRole L raw = (let r = ToLower L (TrimSpace raw) in (r, Role_Valid r))"

section \<open>scope.go\<close>

record Scope =
  scope_global :: bool
  scope_projects :: "string list"

definition zero_Scope :: Scope where
  "zero_Scope = \<lparr>scope_global = False, scope_projects = []\<rparr>"

definition GlobalScope :: Scope where
  "GlobalScope = \<lparr>scope_global = True, scope_projects = []\<rparr>"

text \<open>The loop skips blanks and what it has seen; \<^const>\<open>dedup\<close> is the seen-map idiom.\<close>

definition ScopeTo :: "golib \<Rightarrow> string list \<Rightarrow> Scope" where
  "ScopeTo L slugs =
     \<lparr>scope_global = False,
      scope_projects = sort (dedup (filter (\<lambda>s. s \<noteq> []) (map (\<lambda>s. ToLower L (TrimSpace s)) slugs)))\<rparr>"

datatype scope_error = ScopeEmpty | ScopeNamesNoProject string

definition ParseScope :: "golib \<Rightarrow> string \<Rightarrow> scope_error + Scope" where
  "ParseScope L raw =
     (let trimmed = TrimSpace raw in
      if trimmed = [] then Inl ScopeEmpty
      else if trimmed = ''*'' then Inr GlobalScope
      else let scope = ScopeTo L (Split trimmed (CHR '','')) in
        if length (scope_projects scope) = 0 then Inl (ScopeNamesNoProject raw) else Inr scope)"

definition IsGlobal :: "Scope \<Rightarrow> bool" where
  "IsGlobal s = scope_global s"

definition Scope_IsEmpty :: "Scope \<Rightarrow> bool" where
  "Scope_IsEmpty s = (\<not> scope_global s \<and> length (scope_projects s) = 0)"

definition Slugs :: "Scope \<Rightarrow> string list" where
  "Slugs s = scope_projects s"

definition Scope_Allows :: "golib \<Rightarrow> Scope \<Rightarrow> string \<Rightarrow> bool" where
  "Scope_Allows L s slug =
     (if scope_global s then True
      else let slug = ToLower L (TrimSpace slug) in list_ex (\<lambda>p. p = slug) (scope_projects s))"

definition Scope_String :: "Scope \<Rightarrow> string" where
  "Scope_String s =
     (if scope_global s then ''*''
      else if length (scope_projects s) = 0 then ''(none)''
      else Join (scope_projects s) '','')"

section \<open>auth.go\<close>

abbreviation MinTokenLength :: nat where "MinTokenLength \<equiv> 32"

record Principal =
  pr_Label :: string
  pr_Role :: Role
  pr_Scope :: Scope
  pr_UserID :: string

definition IsUser :: "Principal \<Rightarrow> bool" where
  "IsUser p = (TrimSpace (pr_UserID p) \<noteq> [])"

record credential =
  cr_label :: string
  cr_role :: Role
  cr_scope :: Scope
  cr_digest :: string

record Authenticator =
  credentials :: "credential list"

datatype auth_error =
    NoTokens | NotTokenForm nat | TokenRole nat string | TokenScope nat scope_error
  | EmptyLabel nat | SecretTooShort string | LabelReused string | SecretReused string
  | Unauthenticated

fun new_loop :: "golib \<Rightarrow> nat \<Rightarrow> string list \<Rightarrow> string list \<Rightarrow> string list \<Rightarrow> auth_error + credential list" where
  "new_loop L i seenLabels seenDigests [] = Inr []"
| "new_loop L i seenLabels seenDigests (pair # pairs) =
     (case Cut pair (CHR '':'') of (label, rest, ok) \<Rightarrow>
      if \<not> ok then Inl (NotTokenForm (i + 1))
      else case Cut rest (CHR '':'') of (roleText, rest, ok) \<Rightarrow>
      if \<not> ok then Inl (NotTokenForm (i + 1))
      else case Cut rest (CHR '':'') of (scopeText, secret, ok) \<Rightarrow>
      if \<not> ok then Inl (NotTokenForm (i + 1))
      else case ParseRole L roleText of (role, ok) \<Rightarrow>
      if \<not> ok then Inl (TokenRole (i + 1) (TrimSpace roleText))
      else case ParseScope L scopeText of
        Inl e \<Rightarrow> Inl (TokenScope (i + 1) e)
      | Inr scope \<Rightarrow>
        let label = TrimSpace label; digest = lib_sha256hex L secret in
        if label = [] then Inl (EmptyLabel (i + 1))
        else if length secret < MinTokenLength then Inl (SecretTooShort label)
        else if label \<in> set seenLabels then Inl (LabelReused label)
        else if digest \<in> set seenDigests then Inl (SecretReused label)
        else map_sum id
          (\<lambda>creds. \<lparr>cr_label = label, cr_role = role, cr_scope = scope, cr_digest = digest\<rparr> # creds)
          (new_loop L (i + 1) (label # seenLabels) (digest # seenDigests) pairs))"

definition New_Authenticator :: "golib \<Rightarrow> string list \<Rightarrow> auth_error + Authenticator" where
  "New_Authenticator L pairs =
     (if length pairs = 0 then Inl NoTokens
      else map_sum id (\<lambda>creds. \<lparr>credentials = creds\<rparr>) (new_loop L 0 [] [] pairs))"

text \<open>
  \<open>strings.EqualFold(scheme, "bearer")\<close>: no rune outside ASCII folds to one of these letters, so
  the comparison is byte-wise up to the case of ASCII letters.
\<close>

definition parseBearer :: "string \<Rightarrow> auth_error + string" where
  "parseBearer header =
     (if header = [] then Inl Unauthenticated
      else case Cut header (CHR '' '') of (scheme, token, ok) \<Rightarrow>
        if \<not> ok then Inl Unauthenticated
        else if map lower_byte scheme \<noteq> ''bearer'' then Inl Unauthenticated
        else let token = TrimSpace token in
          if token = [] then Inl Unauthenticated else Inr token)"

text \<open>The loop runs to its end and keeps the index of the last match, \<open>-1\<close> for none.\<close>

fun match_loop :: "string \<Rightarrow> nat \<Rightarrow> credential list \<Rightarrow> int \<Rightarrow> int" where
  "match_loop presented i [] matched = matched"
| "match_loop presented i (cred # creds) matched =
     match_loop presented (i + 1) creds (if presented = cr_digest cred then int i else matched)"

definition Authenticate :: "golib \<Rightarrow> Authenticator \<Rightarrow> string \<Rightarrow> auth_error + Principal" where
  "Authenticate L a header =
     (case parseBearer header of
        Inl e \<Rightarrow> Inl e
      | Inr token \<Rightarrow>
          let presented = lib_sha256hex L token;
              matched = match_loop presented 0 (credentials a) (-1)
          in if matched < 0 then Inl Unauthenticated
             else let c = credentials a ! nat matched in
               Inr \<lparr>pr_Label = cr_label c, pr_Role = cr_role c, pr_Scope = cr_scope c, pr_UserID = []\<rparr>)"

definition Labels :: "Authenticator \<Rightarrow> string list" where
  "Labels a = sort (map cr_label (credentials a))"

section \<open>Specification vocabulary\<close>

text \<open>The credential a specification \<open>label:role:scope:secret\<close> stands for.\<close>

definition spec_credential :: "golib \<Rightarrow> string \<Rightarrow> string \<Rightarrow> credential \<Rightarrow> bool" where
  "spec_credential L pair secret c \<longleftrightarrow>
     (\<exists>label roleText scopeText. pair = label @ '':'' @ roleText @ '':'' @ scopeText @ '':'' @ secret \<and>
        CHR '':'' \<notin> set label \<and> CHR '':'' \<notin> set roleText \<and> CHR '':'' \<notin> set scopeText \<and>
        cr_label c = TrimSpace label \<and> cr_label c \<noteq> [] \<and>
        cr_role c = ToLower L (TrimSpace roleText) \<and> Role_Valid (cr_role c) \<and>
        ParseScope L scopeText = Inr (cr_scope c) \<and>
        MinTokenLength \<le> length secret \<and> cr_digest c = lib_sha256hex L secret)"

definition principal_of :: "credential \<Rightarrow> Principal" where
  "principal_of c = \<lparr>pr_Label = cr_label c, pr_Role = cr_role c, pr_Scope = cr_scope c, pr_UserID = []\<rparr>"

definition sample_secret :: string where
  "sample_secret = replicate 32 (CHR ''a'')"

definition sample_pairs :: "string list" where
  "sample_pairs = [''ci:service:web,api:'' @ sample_secret]"

section \<open>Roles\<close>

lemma Role_Allows_trans: "Role_Allows a b \<Longrightarrow> Role_Allows b c \<Longrightarrow> Role_Allows a c"
  by (auto simp: Role_Allows_def)

text \<open>
  Roles are a chain and a role outside it grants nothing. Whatever is required of a valid role is
  granted exactly to the roles at least as high in viewer, service, admin; a role that is not one of
  the three satisfies no requirement at all.
\<close>

theorem roles_form_a_chain:
  "(Role_Valid required \<longrightarrow>
      (Role_Allows r required \<longleftrightarrow>
        r = RoleAdmin \<or> r = RoleService \<and> required \<noteq> RoleAdmin \<or> r = RoleViewer \<and> required = RoleViewer)) \<and>
   (\<not> Role_Valid r \<longrightarrow> \<not> Role_Allows r required) \<and>
   (\<not> Role_Valid required \<longrightarrow> Role_Valid r \<longrightarrow> Role_Allows r required)"
  by (simp add: Role_Allows_def role_rank_def Role_Valid_def)

theorem roles_form_a_chain_witness:
  "Role_Allows RoleAdmin RoleService \<and> \<not> Role_Allows RoleService RoleAdmin"
  using roles_form_a_chain [of RoleService RoleAdmin] roles_form_a_chain [of RoleAdmin RoleService]
  by (simp add: Role_Valid_def)


section \<open>Scopes\<close>

lemma slugPattern_bytes:
  "slugPattern s \<Longrightarrow> c \<in> set s \<Longrightarrow> slug_byte c \<or> c = CHR ''-''"
  using set_via_Split [of c s "CHR ''-''"] by (auto simp: slugPattern_def list_all_iff)

lemma slugPattern_fix: "slugPattern s \<Longrightarrow> ToLower L (TrimSpace s) = s"
proof -
  assume s: "slugPattern s"
  have "\<not> digit7 c \<and> \<not> (CHR ''A'' \<le> c \<and> c \<le> CHR ''Z'')" if c: "c \<in> set s" for c
    using slugPattern_bytes [OF s c] slugPattern_graphic [OF s c] slug_byte_no_upper [of c] by (elim disjE) simp_all
  then show ?thesis using slugPattern_graphic [OF s] by (simp add: TrimSpace_graphic ToLower_fix)
qed

lemma ScopeTo_slugs:
  assumes "\<And>s. s \<in> set slugs \<Longrightarrow> slugPattern s"
  shows "scope_projects (ScopeTo L slugs) = sort (dedup slugs)"
proof -
  have "map (\<lambda>s. ToLower L (TrimSpace s)) slugs = slugs"
    using assms by (simp add: map_idI slugPattern_fix)
  moreover have "filter (\<lambda>s. s \<noteq> []) slugs = slugs"
    using assms by (auto simp: filter_id_conv dest: slugPattern_nonempty)
  ultimately show ?thesis by (simp add: ScopeTo_def)
qed

lemma Join_Nil_iff: "Join ws [c] = [] \<longleftrightarrow> ws = [] \<or> ws = [[]]"
  by (induction ws "[c]" rule: Join.induct) auto

text \<open>
  A scope reaches exactly what it names. The zero scope reaches no project and the global one
  every project; a scope over slugs reaches a project exactly when one of them is its slug up to
  case and surrounding space; and what \<open>ParseScope\<close> accepts is never empty and is global exactly for
  the single asterisk, so neither an accident nor a typo widens a credential.
\<close>

theorem scope_reaches_named_projects:
  "\<not> Scope_Allows L zero_Scope slug \<and> Scope_Allows L GlobalScope slug \<and>
   (Scope_Allows L (ScopeTo L slugs) slug \<longleftrightarrow>
      ToLower L (TrimSpace slug) \<noteq> [] \<and>
      ToLower L (TrimSpace slug) \<in> (\<lambda>s. ToLower L (TrimSpace s)) ` set slugs) \<and>
   (ParseScope L raw = Inr sc \<longrightarrow>
      \<not> Scope_IsEmpty sc \<and> (IsGlobal sc \<longleftrightarrow> TrimSpace raw = ''*'') \<and>
      (\<not> IsGlobal sc \<longrightarrow> sc = ScopeTo L (Split (TrimSpace raw) (CHR '',''))))"
  by (auto simp: Scope_Allows_def zero_Scope_def GlobalScope_def ScopeTo_def ParseScope_def Let_def
      Scope_IsEmpty_def IsGlobal_def list_ex_iff split: if_splits)

theorem scope_reaches_named_projects_witness:
  "ParseScope sample_lib '' web ,API'' = Inr \<lparr>scope_global = False, scope_projects = [''api'', ''web'']\<rparr> \<and>
   \<not> IsGlobal \<lparr>scope_global = False, scope_projects = [''api'', ''web'']\<rparr>"
proof -
  have p: "ParseScope sample_lib '' web ,API'' = Inr \<lparr>scope_global = False, scope_projects = [''api'', ''web'']\<rparr>"
    and t: "TrimSpace '' web ,API'' \<noteq> ''*''"
    by code_simp+
  from scope_reaches_named_projects [of sample_lib "[]" "[]" "'' web ,API''"] p t show ?thesis by blast
qed

text \<open>
  Printing a scope and parsing it back is the identity, for the global scope and for every scope
  over at least one well-formed project slug. The text an operator reads in the startup log is a
  configuration for the same reach.
\<close>

theorem scope_roundtrip:
  assumes "slugs \<noteq> []" "\<And>s. s \<in> set slugs \<Longrightarrow> slugPattern s"
  shows "ParseScope L (Scope_String (ScopeTo L slugs)) = Inr (ScopeTo L slugs) \<and>
    ParseScope L (Scope_String GlobalScope) = Inr GlobalScope"
proof -
  let ?ws = "sort (dedup slugs)"
  have ws: "\<And>s. s \<in> set ?ws \<Longrightarrow> slugPattern s" using assms(2) by simp
  have dne: "dedup slugs \<noteq> []" using assms(1) by (metis set_dedup set_empty)
  then have ne: "?ws \<noteq> []" by (metis set_empty set_sort)
  have proj: "scope_projects (ScopeTo L slugs) = ?ws" "\<not> scope_global (ScopeTo L slugs)"
    using ScopeTo_slugs [OF assms(2)] by (simp_all add: ScopeTo_def)
  have str: "Scope_String (ScopeTo L slugs) = Join ?ws '',''" using dne by (simp add: Scope_String_def proj)
  have nocomma: "\<And>s. s \<in> set ?ws \<Longrightarrow> CHR '','' \<notin> set s"
    using slugPattern_bytes ws by (fastforce simp: slug_byte_def)
  then have split: "Split (Join ?ws '','') (CHR '','') = ?ws" by (rule Split_Join [OF ne])
  have "CHR 0x20 < c \<and> \<not> digit7 c" if "c \<in> set (Join ?ws '','')" for c
    using set_Join [of ?ws "'',''"] that slugPattern_graphic [OF ws] by fastforce
  then have trim: "TrimSpace (Join ?ws '','') = Join ?ws '',''" by (rule TrimSpace_graphic)
  have "Join ?ws '','' \<noteq> []"
    using ne ws slugPattern_nonempty by (metis Join_Nil_iff list.set_intros(1))
  moreover have "Join ?ws '','' \<noteq> ''*''"
  proof
    assume "Join ?ws '','' = ''*''"
    then have "?ws = [''*'']" using split by simp
    then have "slugPattern ''*''" using ws by simp
    then show False by (simp add: slugPattern_def slug_byte_def)
  qed
  moreover have "scope_projects (ScopeTo L ?ws) = ?ws"
    using ScopeTo_slugs [of ?ws L, OF ws] by (simp add: dedup_id sorted_sort_id)
  then have "ScopeTo L ?ws = ScopeTo L slugs" by (simp add: ScopeTo_def flip: proj(1))
  ultimately have "ParseScope L (Scope_String (ScopeTo L slugs)) = Inr (ScopeTo L slugs)"
    using dne ne by (simp add: str ParseScope_def trim split Let_def proj)
  moreover have "TrimSpace ''*'' = ''*''" by (rule TrimSpace_graphic) auto
  ultimately show ?thesis by (simp add: ParseScope_def Scope_String_def GlobalScope_def)
qed

theorem scope_roundtrip_witness:
  "slugPattern ''my-app'' \<and>
   ParseScope sample_lib (Scope_String (ScopeTo sample_lib [''my-app''])) = Inr (ScopeTo sample_lib [''my-app''])"
proof -
  have s: "slugPattern ''my-app''" by code_simp
  then show ?thesis using scope_roundtrip [of "[''my-app'']" sample_lib] by simp
qed

section \<open>Credentials\<close>

lemma takeWhile_before: "c \<notin> set a \<Longrightarrow> takeWhile (\<lambda>x. x \<noteq> c) (a @ c # b) = a"
  by (induction a) auto

lemma Cut_Some: "Cut s c = (a, b, True) \<longleftrightarrow> s = a @ c # b \<and> c \<notin> set a"
proof
  assume "Cut s c = (a, b, True)"
  then have a: "a = takeWhile (\<lambda>x. x \<noteq> c) s" and b: "b = drop (Suc (length a)) s" and c: "c \<in> set s"
    by (auto simp: Cut_def Let_def split: if_splits)
  have "dropWhile (\<lambda>x. x \<noteq> c) s = c # b"
  proof -
    have "dropWhile (\<lambda>x. x \<noteq> c) s \<noteq> []" using c by (simp add: dropWhile_eq_Nil_conv)
    then obtain x xs where x: "dropWhile (\<lambda>x. x \<noteq> c) s = x # xs" by (cases "dropWhile (\<lambda>x. x \<noteq> c) s") auto
    then have "x = c" using hd_dropWhile [of "\<lambda>x. x \<noteq> c" s] by simp
    moreover have "xs = b"
      using x unfolding b a by (metis drop_Suc dropWhile_eq_drop list.sel(3) tl_drop)
    ultimately show ?thesis using x by simp
  qed
  then show "s = a @ c # b \<and> c \<notin> set a"
    using takeWhile_dropWhile_id [of "\<lambda>x. x \<noteq> c" s] set_takeWhileD [of c "\<lambda>x. x \<noteq> c" s] by (auto simp: a)
next
  assume "s = a @ c # b \<and> c \<notin> set a"
  moreover from this have "takeWhile (\<lambda>x. x \<noteq> c) s = a" by (simp add: takeWhile_before)
  ultimately show "Cut s c = (a, b, True)" by (simp add: Cut_def)
qed

lemma match_loop_none: "p \<notin> set (map cr_digest cs) \<Longrightarrow> match_loop p i cs m = m"
  by (induction cs arbitrary: i m) auto

lemma match_loop_some:
  "distinct (map cr_digest cs) \<Longrightarrow> k < length cs \<Longrightarrow> match_loop (cr_digest (cs ! k)) i cs m = int (i + k)"
proof (induction cs arbitrary: i m k)
  case (Cons c cs)
  show ?case
  proof (cases k)
    case 0
    with Cons.prems show ?thesis by (simp add: match_loop_none)
  next
    case (Suc j)
    with Cons show ?thesis by simp
  qed
qed simp

lemma new_loop_Inr:
  assumes "new_loop L i sl sd pairs = Inr cs"
  shows "list_all2 (\<lambda>pair c. \<exists>secret. spec_credential L pair secret c) pairs cs \<and>
    distinct (map cr_label cs) \<and> distinct (map cr_digest cs) \<and>
    set (map cr_label cs) \<inter> set sl = {} \<and> set (map cr_digest cs) \<inter> set sd = {}"
  using assms
proof (induction pairs arbitrary: i sl sd cs)
  case (Cons pair pairs)
  obtain label rest ok1 where c1: "Cut pair (CHR '':'') = (label, rest, ok1)" by (cases "Cut pair (CHR '':'')") auto
  obtain roleText rest' ok2 where c2: "Cut rest (CHR '':'') = (roleText, rest', ok2)" by (cases "Cut rest (CHR '':'')") auto
  obtain scopeText secret ok3 where c3: "Cut rest' (CHR '':'') = (scopeText, secret, ok3)" by (cases "Cut rest' (CHR '':'')") auto
  have ok: ok1 ok2 ok3 using Cons.prems by (auto simp: c1 c2 c3 split: if_splits)
  define role where "role = ToLower L (TrimSpace roleText)"
  define lab where "lab = TrimSpace label"
  define dig where "dig = lib_sha256hex L secret"
  have role: "Role_Valid role"
    using Cons.prems ok by (auto simp: c1 c2 c3 ParseRole_def role_def Let_def split: if_splits)
  then obtain scope where scope: "ParseScope L scopeText = Inr scope"
    using Cons.prems ok by (auto simp: c1 c2 c3 ParseRole_def role_def Let_def split: sum.splits)
  have unf: "new_loop L i sl sd (pair # pairs) =
      (if lab = [] then Inl (EmptyLabel (i + 1)) else if length secret < MinTokenLength then Inl (SecretTooShort lab)
       else if lab \<in> set sl then Inl (LabelReused lab) else if dig \<in> set sd then Inl (SecretReused lab)
       else map_sum id (\<lambda>creds. \<lparr>cr_label = lab, cr_role = role, cr_scope = scope, cr_digest = dig\<rparr> # creds)
         (new_loop L (i + 1) (lab # sl) (dig # sd) pairs))"
    using ok role by (simp add: c1 c2 c3 ParseRole_def scope role_def [symmetric] lab_def dig_def Let_def)
  then obtain rest_cs where r: "new_loop L (i + 1) (lab # sl) (dig # sd) pairs = Inr rest_cs"
    and cs: "cs = \<lparr>cr_label = lab, cr_role = role, cr_scope = scope, cr_digest = dig\<rparr> # rest_cs"
    and guards: "lab \<noteq> []" "MinTokenLength \<le> length secret" "lab \<notin> set sl" "dig \<notin> set sd"
    using Cons.prems by (cases "new_loop L (i + 1) (lab # sl) (dig # sd) pairs") (auto split: if_splits)
  have "spec_credential L pair secret \<lparr>cr_label = lab, cr_role = role, cr_scope = scope, cr_digest = dig\<rparr>"
    unfolding spec_credential_def using c1 c2 c3 ok role scope guards(1,2)
    by (intro exI [of _ label] exI [of _ roleText] exI [of _ scopeText])
      (simp add: Cut_Some role_def lab_def dig_def)
  with Cons.IH [OF r] guards(3,4) show ?case by (auto simp: cs)
qed simp

lemma New_Inr:
  assumes "New_Authenticator L pairs = Inr a"
  shows "pairs \<noteq> []" "list_all2 (\<lambda>pair c. \<exists>secret. spec_credential L pair secret c) pairs (credentials a)"
    "distinct (map cr_label (credentials a))" "distinct (map cr_digest (credentials a))"
proof -
  obtain cs where "new_loop L 0 [] [] pairs = Inr cs" "credentials a = cs" "pairs \<noteq> []"
    using assms by (cases "new_loop L 0 [] [] pairs") (auto simp: New_Authenticator_def split: if_splits)
  with new_loop_Inr [of L 0 "[]" "[]" pairs cs]
  show "pairs \<noteq> []" "list_all2 (\<lambda>pair c. \<exists>secret. spec_credential L pair secret c) pairs (credentials a)"
    "distinct (map cr_label (credentials a))" "distinct (map cr_digest (credentials a))" by auto
qed

lemma Authenticate_Inr:
  assumes "distinct (map cr_digest (credentials a))"
  shows "Authenticate L a header = Inr p \<longleftrightarrow>
    (\<exists>token c. parseBearer header = Inr token \<and> c \<in> set (credentials a) \<and>
       cr_digest c = lib_sha256hex L token \<and> p = principal_of c)"
proof (cases "parseBearer header")
  case (Inr token)
  let ?d = "lib_sha256hex L token"
  show ?thesis
  proof (cases "?d \<in> set (map cr_digest (credentials a))")
    case False
    then have "Authenticate L a header = Inl Unauthenticated"
      by (simp add: Authenticate_def Inr match_loop_none Let_def)
    with False Inr show ?thesis by force
  next
    case True
    then obtain k where k: "k < length (credentials a)" "cr_digest (credentials a ! k) = ?d"
      by (auto simp: in_set_conv_nth)
    then have auth: "Authenticate L a header = Inr (principal_of (credentials a ! k))"
      using match_loop_some [OF assms k(1), of 0 "-1"] by (simp add: Authenticate_def Inr principal_of_def Let_def)
    have "c = credentials a ! k" if "c \<in> set (credentials a)" "cr_digest c = ?d" for c
      using that k assms by (metis distinct_map inj_onD nth_mem)
    with auth k Inr show ?thesis by (metis nth_mem sum.inject(2))
  qed
qed (simp add: Authenticate_def)

text \<open>
  C38: authentication is exact. An authenticator exists only for a non-empty list of
  \<open>label:role:scope:secret\<close> entries with valid roles, non-empty labels, secrets of at least 32 bytes
  and no label or digest used twice; a header is accepted exactly when it is a bearer header whose
  token has the digest of a configured secret, and the principal is that credential's label, role
  and scope. No two credentials can answer for the same token, and no token makes a user.
\<close>

theorem Authenticate_exact:
  assumes "New_Authenticator L pairs = Inr a"
  shows "pairs \<noteq> [] \<and>
    list_all2 (\<lambda>pair c. \<exists>secret. spec_credential L pair secret c) pairs (credentials a) \<and>
    distinct (map cr_label (credentials a)) \<and> distinct (map cr_digest (credentials a)) \<and>
    (Authenticate L a header = Inr p \<longleftrightarrow>
      (\<exists>token c. parseBearer header = Inr token \<and> c \<in> set (credentials a) \<and>
         cr_digest c = lib_sha256hex L token \<and> p = principal_of c)) \<and>
    (Authenticate L a header = Inr p \<longrightarrow> \<not> IsUser p)"
  using New_Inr [OF assms] Authenticate_Inr [OF New_Inr(4) [OF assms], of L header p]
  by (auto simp: IsUser_def principal_of_def)

theorem Authenticate_exact_witness:
  "\<exists>a. New_Authenticator sample_lib sample_pairs = Inr a \<and> Labels a = [''ci''] \<and>
     distinct (map cr_digest (credentials a))"
proof -
  let ?a = "\<lparr>credentials = [\<lparr>cr_label = ''ci'', cr_role = RoleService,
    cr_scope = \<lparr>scope_global = False, scope_projects = [''api'', ''web'']\<rparr>, cr_digest = sample_secret\<rparr>]\<rparr>"
  have n: "New_Authenticator sample_lib sample_pairs = Inr ?a" by code_simp
  from Authenticate_exact [OF n] n show ?thesis by (auto simp: Labels_def)
qed

lemma parseBearer_bearer:
  "TrimSpace secret = secret \<Longrightarrow> secret \<noteq> [] \<Longrightarrow> parseBearer (''Bearer '' @ secret) = Inr secret"
proof -
  assume s: "TrimSpace secret = secret" "secret \<noteq> []"
  have "Cut (''Bearer '' @ secret) (CHR '' '') = (''Bearer'', secret, True)" by (simp add: Cut_Some)
  moreover have "map lower_byte ''Bearer'' = ''bearer''" by code_simp
  ultimately show ?thesis using s by (simp add: parseBearer_def)
qed

lemma parseBearer_trimmed: "parseBearer header = Inr token \<Longrightarrow> TrimSpace token = token"
  by (auto simp: parseBearer_def Let_def split: if_splits prod.splits)

text \<open>
  Every configured secret works, unless its ends are whitespace. For each entry an accepted
  configuration holds, the header \<open>Bearer secret\<close> authenticates as that entry's credential when the
  secret has no surrounding whitespace; when it has, no header at all presents it,
  although \<open>New\<close> accepted it.
\<close>

theorem configured_secret_authenticates:
  assumes "New_Authenticator L pairs = Inr a" "k < length pairs"
  shows "\<exists>secret. spec_credential L (pairs ! k) secret (credentials a ! k) \<and>
    (TrimSpace secret = secret \<longrightarrow>
       Authenticate L a (''Bearer '' @ secret) = Inr (principal_of (credentials a ! k))) \<and>
    (TrimSpace secret \<noteq> secret \<longrightarrow> parseBearer header \<noteq> Inr secret)"
proof -
  note n = New_Inr [OF assms(1)]
  obtain secret where s: "spec_credential L (pairs ! k) secret (credentials a ! k)"
    using list_all2_nthD [OF n(2) assms(2)] by blast
  have k: "credentials a ! k \<in> set (credentials a)"
    using list_all2_lengthD [OF n(2)] assms(2) by simp
  have "Authenticate L a (''Bearer '' @ secret) = Inr (principal_of (credentials a ! k))"
    if t: "TrimSpace secret = secret"
  proof -
    have "secret \<noteq> []" "cr_digest (credentials a ! k) = lib_sha256hex L secret"
      using s by (auto simp: spec_credential_def)
    with k show ?thesis unfolding Authenticate_Inr [OF n(4)] using parseBearer_bearer [OF t] by blast
  qed
  with s parseBearer_trimmed [of header secret] show ?thesis by blast
qed

theorem configured_secret_authenticates_witness:
  "Authenticate sample_lib \<lparr>credentials = [\<lparr>cr_label = ''ci'', cr_role = RoleService,
     cr_scope = \<lparr>scope_global = False, scope_projects = [''api'', ''web'']\<rparr>, cr_digest = sample_secret\<rparr>]\<rparr>
     (''Bearer '' @ sample_secret) =
   Inr \<lparr>pr_Label = ''ci'', pr_Role = RoleService,
     pr_Scope = \<lparr>scope_global = False, scope_projects = [''api'', ''web'']\<rparr>, pr_UserID = []\<rparr>"
proof -
  let ?c = "\<lparr>cr_label = ''ci'', cr_role = RoleService,
    cr_scope = \<lparr>scope_global = False, scope_projects = [''api'', ''web'']\<rparr>, cr_digest = sample_secret\<rparr>"
  have n: "New_Authenticator sample_lib sample_pairs = Inr \<lparr>credentials = [?c]\<rparr>" by code_simp
  have k: "0 < length sample_pairs" by (simp add: sample_pairs_def)
  have t: "TrimSpace sample_secret = sample_secret" by code_simp
  from configured_secret_authenticates [OF n k, of "[]"] obtain secret where
    "cr_digest ?c = lib_sha256hex sample_lib secret" and
    "TrimSpace secret = secret \<longrightarrow> Authenticate sample_lib \<lparr>credentials = [?c]\<rparr> (''Bearer '' @ secret) = Inr (principal_of ?c)"
    by (auto simp: spec_credential_def)
  then show ?thesis using t by (simp add: sample_lib_def principal_of_def)
qed

end
