(* ===== verification/Users.thy ===== *)
theory Users
  imports Auth
begin

text \<open>
  People and their sessions: \<open>internal/users/user.go\<close> and \<open>session.go\<close>. A session token is
  \<open>usr_\<close>, the user id, the expiry in Unix seconds and an HMAC over both. The lemmas show that an
  issued token verifies to its user until it expires and not after, that nothing else verifies
  without the MAC of its own payload, and what \<open>NewUser.Validate\<close> lets through. HMAC-SHA256 in
  hexadecimal is a parameter, of the key and the message; so are the random bytes of a generated key.
\<close>

section \<open>user.go\<close>

type_synonym UserRole = string

abbreviation UserRoleViewer :: UserRole where "UserRoleViewer \<equiv> ''viewer''"
abbreviation UserRoleEngineer :: UserRole where "UserRoleEngineer \<equiv> ''engineer''"
abbreviation UserRoleAdmin :: UserRole where "UserRoleAdmin \<equiv> ''admin''"

definition Roles :: "UserRole list" where
  "Roles = [UserRoleViewer, UserRoleEngineer, UserRoleAdmin]"

definition UserRole_Valid :: "UserRole \<Rightarrow> bool" where
  "UserRole_Valid r = list_ex (\<lambda>known. r = known) Roles"

definition ParseUserRole :: "golib \<Rightarrow> string \<Rightarrow> UserRole \<times> bool" where
  "ParseUserRole L raw = (let r = ToLower L (TrimSpace raw) in (r, UserRole_Valid r))"

definition CanTriage :: "UserRole \<Rightarrow> bool" where
  "CanTriage r = (r = UserRoleEngineer \<or> r = UserRoleAdmin)"

definition CanAdminister :: "UserRole \<Rightarrow> bool" where
  "CanAdminister r = (r = UserRoleAdmin)"

abbreviation MaxEmailLength :: nat where "MaxEmailLength \<equiv> 254"
abbreviation MaxDisplayNameLength :: nat where "MaxDisplayNameLength \<equiv> 128"
abbreviation MinPasswordLength :: nat where "MinPasswordLength \<equiv> 12"

record NewUser =
  nu_Email :: string
  nu_Password :: string
  nu_DisplayName :: string
  nu_Role :: UserRole

datatype user_error =
    EmailRequired | EmailTooLong | EmailNoAt | DisplayNameTooLong | BadUserRole string | UserPasswordTooShort

text \<open>\<open>Validate\<close> normalises its receiver in place: the result is the receiver it leaves.\<close>

definition NewUser_Validate :: "golib \<Rightarrow> NewUser \<Rightarrow> user_error + NewUser" where
  "NewUser_Validate L n =
     (let n = n\<lparr>nu_Email := ToLower L (TrimSpace (nu_Email n)), nu_DisplayName := TrimSpace (nu_DisplayName n)\<rparr> in
      if nu_Email n = [] then Inl EmailRequired
      else if length (nu_Email n) > MaxEmailLength then Inl EmailTooLong
      else if \<not> contains (tl (nu_Email n)) ''@'' then Inl EmailNoAt
      else if length (nu_DisplayName n) > MaxDisplayNameLength then Inl DisplayNameTooLong
      else let n = n\<lparr>nu_Role := (if nu_Role n = [] then UserRoleViewer else nu_Role n)\<rparr> in
        if \<not> UserRole_Valid (nu_Role n) then Inl (BadUserRole (nu_Role n))
        else if length (nu_Password n) < MinPasswordLength then Inl UserPasswordTooShort
        else Inr n)"

section \<open>Packages strconv and time\<close>

definition FormatInt :: "int \<Rightarrow> string" where
  "FormatInt n = (if n < 0 then ''-'' @ Itoa (nat (- n)) else Itoa (nat n))"

definition is_digit :: "char \<Rightarrow> bool" where
  "is_digit c = (CHR ''0'' \<le> c \<and> c \<le> CHR ''9'')"

definition decimal :: "string \<Rightarrow> nat" where
  "decimal s = foldl (\<lambda>n c. 10 * n + (of_char c - 48)) 0 s"

text \<open>\<open>strconv.ParseInt(s, 10, 64)\<close>, syntax and range errors being one.\<close>

definition ParseInt64 :: "string \<Rightarrow> int option" where
  "ParseInt64 s =
     (let neg = (s \<noteq> [] \<and> hd s = CHR ''-'');
          digits = (if s \<noteq> [] \<and> (hd s = CHR ''-'' \<or> hd s = CHR ''+'') then tl s else s)
      in if digits = [] \<or> \<not> list_all is_digit digits then None
         else if \<not> neg \<and> int (decimal digits) \<ge> 2 ^ 63 then None
         else if neg \<and> int (decimal digits) > 2 ^ 63 then None
         else Some (if neg then - int (decimal digits) else int (decimal digits)))"

text \<open>
  Seconds since 1 January 1970 and back. Go keeps the seconds since year 1 in an \<open>int64\<close>, so
  \<open>time.Unix\<close> wraps around.
\<close>

abbreviation second :: time where "second \<equiv> 1000000000"
abbreviation unix_epoch :: int where "unix_epoch \<equiv> 62135596800"

definition Unix :: "time \<Rightarrow> int" where
  "Unix t = t div second - unix_epoch"

definition time_Unix :: "int \<Rightarrow> time" where
  "time_Unix sec = ((sec + unix_epoch + 2 ^ 63) mod 2 ^ 64 - 2 ^ 63) * second"

section \<open>session.go\<close>

type_synonym hmac = "string \<Rightarrow> string \<Rightarrow> string"

abbreviation SessionTTL :: time where "SessionTTL \<equiv> 8 * 3600 * second"
abbreviation sessionPrefix :: string where "sessionPrefix \<equiv> ''usr_''"

record Sessions =
  session_key :: string

datatype session_error = InvalidSession | SessionExpired

definition NewSessions :: "string \<Rightarrow> string \<Rightarrow> Sessions" where
  "NewSessions generated key =
     (let k = TrimSpace key in if k \<noteq> [] then \<lparr>session_key = k\<rparr> else \<lparr>session_key = generated\<rparr>)"

definition sign :: "hmac \<Rightarrow> Sessions \<Rightarrow> string \<Rightarrow> string" where
  "sign mac s payload = mac (session_key s) payload"

definition session_valid :: "hmac \<Rightarrow> Sessions \<Rightarrow> string \<Rightarrow> string \<Rightarrow> bool" where
  "session_valid mac s payload signature =
     (let want = sign mac s payload in
      if length want \<noteq> length signature then False else want = signature)"

definition Session_Issue :: "hmac \<Rightarrow> Sessions \<Rightarrow> string \<Rightarrow> time \<Rightarrow> string" where
  "Session_Issue mac s userID now =
     (let payload = userID @ ''.'' @ FormatInt (Unix (now + SessionTTL))
      in sessionPrefix @ payload @ ''.'' @ sign mac s payload)"

definition LooksLikeSession :: "string \<Rightarrow> bool" where
  "LooksLikeSession token = prefix sessionPrefix token"

text \<open>The cut at the last dot is the cut of the reversed string at its first.\<close>

definition Verify :: "hmac \<Rightarrow> Sessions \<Rightarrow> string \<Rightarrow> time \<Rightarrow> session_error + string" where
  "Verify mac s token now =
     (if \<not> prefix sessionPrefix token then Inl InvalidSession
      else let rest = drop (length sessionPrefix) token in
        case Cut (rev rest) (CHR ''.'') of (rsig, rpayload, ok) \<Rightarrow>
        if \<not> ok then Inl InvalidSession
        else let payload = rev rpayload; signature = rev rsig in
          if \<not> session_valid mac s payload signature then Inl InvalidSession
          else case Cut payload (CHR ''.'') of (userID, expiryText, ok) \<Rightarrow>
            if \<not> ok \<or> TrimSpace userID = [] then Inl InvalidSession
            else case ParseInt64 expiryText of
              None \<Rightarrow> Inl InvalidSession
            | Some expiry \<Rightarrow>
                if \<not> now < time_Unix expiry then Inl SessionExpired else Inr userID)"

section \<open>Specification vocabulary\<close>

definition user_ok :: "NewUser \<Rightarrow> bool" where
  "user_ok n = (nu_Email n \<noteq> [] \<and> length (nu_Email n) \<le> MaxEmailLength \<and> CHR ''@'' \<in> set (tl (nu_Email n)) \<and>
     length (nu_DisplayName n) \<le> MaxDisplayNameLength \<and> UserRole_Valid (nu_Role n) \<and>
     MinPasswordLength \<le> length (nu_Password n))"

text \<open>What hexadecimal encoding promises: no separator in a signature.\<close>

definition hex_mac :: "hmac \<Rightarrow> bool" where
  "hex_mac mac \<longleftrightarrow> (\<forall>k m. CHR ''.'' \<notin> set (mac k m))"

text \<open>A clock within the seconds Go's \<open>time.Time\<close> can hold, the session's length included.\<close>

definition clock_ok :: "time \<Rightarrow> bool" where
  "clock_ok t \<longleftrightarrow> 0 \<le> t \<and> t + SessionTTL < 2 ^ 63 * second"

definition sample_mac :: hmac where
  "sample_mac k m = ''ab''"

definition sample_newuser :: NewUser where
  "sample_newuser = \<lparr>nu_Email = '' Ann@Example.org '', nu_Password = ''correct horse'', nu_DisplayName = ''Ann'',
     nu_Role = []\<rparr>"

section \<open>Decimal numbers\<close>

lemma of_char_digit: "n < 10 \<Longrightarrow> is_digit (''0123456789'' ! n) \<and> of_char (''0123456789'' ! n) = (48 + n :: nat)"
proof -
  assume "n < 10"
  then have "n \<in> set [0, 1, 2, 3, 4, 5, 6, 7, 8, 9]" by auto
  then show ?thesis by (auto simp: is_digit_def)
qed

lemma Itoa_digits: "list_all is_digit (Itoa n) \<and> Itoa n \<noteq> []"
proof (induction n rule: Itoa.induct)
  case (1 n)
  then show ?case using of_char_digit [of n] of_char_digit [of "n mod 10"]
    by (subst (1 2) Itoa.simps) (auto simp del: nth_Cons_numeral)
qed

lemma decimal_Itoa: "decimal (Itoa n) = n"
proof (induction n rule: Itoa.induct)
  case (1 n)
  show ?case
  proof (cases "n < 10")
    case True
    then show ?thesis using of_char_digit [of n] by (simp add: Itoa.simps [of n] decimal_def)
  next
    case False
    have "decimal (Itoa n) = 10 * decimal (Itoa (n div 10)) + (of_char (''0123456789'' ! (n mod 10)) - 48)"
      using False by (simp add: Itoa.simps [of n] decimal_def)
    then show ?thesis using 1 False of_char_digit [of "n mod 10"] by simp
  qed
qed

lemma digit_not_sign: "is_digit c \<Longrightarrow> c \<noteq> CHR ''-'' \<and> c \<noteq> CHR ''+'' \<and> c \<noteq> CHR ''.''"
  by (auto simp: is_digit_def)

lemma FormatInt_no_dot: "CHR ''.'' \<notin> set (FormatInt n)"
proof -
  have "CHR ''.'' \<notin> set (Itoa m)" for m
    using Itoa_digits [of m] digit_not_sign [of "CHR ''.''"] by (auto simp: list_all_iff)
  then show ?thesis by (simp add: FormatInt_def)
qed

lemma ParseInt64_FormatInt:
  assumes "- (2 ^ 63) \<le> n" "n < 2 ^ 63"
  shows "ParseInt64 (FormatInt n) = Some n"
proof (cases "n < 0")
  case True
  with assms Itoa_digits [of "nat (- n)"] show ?thesis
    by (auto simp: FormatInt_def ParseInt64_def decimal_Itoa Let_def nat_le_iff)
next
  case False
  have d: "list_all is_digit (Itoa (nat n))" "Itoa (nat n) \<noteq> []" using Itoa_digits by auto
  then have "hd (Itoa (nat n)) \<noteq> CHR ''-''" "hd (Itoa (nat n)) \<noteq> CHR ''+''"
    by (metis digit_not_sign list_all_iff hd_in_set)+
  with False assms d show ?thesis
    by (auto simp: FormatInt_def ParseInt64_def decimal_Itoa Let_def nat_less_iff)
qed

section \<open>Sessions\<close>


lemma Verify_signed:
  assumes "CHR ''.'' \<notin> set (sign mac s payload)"
  shows "Verify mac s (sessionPrefix @ payload @ ''.'' @ sign mac s payload) now =
    (case Cut payload (CHR ''.'') of (userID, expiryText, ok) \<Rightarrow>
       if \<not> ok \<or> TrimSpace userID = [] then Inl InvalidSession
       else case ParseInt64 expiryText of
         None \<Rightarrow> Inl InvalidSession
       | Some expiry \<Rightarrow> if \<not> now < time_Unix expiry then Inl SessionExpired else Inr userID)"
proof -
  have "Cut (rev (payload @ ''.'' @ sign mac s payload)) (CHR ''.'') = (rev (sign mac s payload), rev payload, True)"
    using assms by (simp add: Cut_Some)
  then show ?thesis by (simp add: Verify_def session_valid_def Let_def)
qed

lemma Verify_Inr:
  assumes "Verify mac s token now = Inr userID"
  shows "\<exists>expiryText expiry. token = sessionPrefix @ userID @ ''.'' @ expiryText @ ''.'' @
      sign mac s (userID @ ''.'' @ expiryText) \<and>
    CHR ''.'' \<notin> set userID \<and> TrimSpace userID \<noteq> [] \<and>
    ParseInt64 expiryText = Some expiry \<and> now < time_Unix expiry"
proof -
  have "prefix sessionPrefix token" using assms by (auto simp: Verify_def split: if_splits)
  then obtain rest where tok: "token = sessionPrefix @ rest" by (rule prefixE)
  obtain rsig rpayload ok where c: "Cut (rev rest) (CHR ''.'') = (rsig, rpayload, ok)"
    by (cases "Cut (rev rest) (CHR ''.'')") auto
  then have ok: ok and v: "session_valid mac s (rev rpayload) (rev rsig)"
    using assms by (auto simp: Verify_def tok Let_def split: if_splits)
  have sig: "rev rsig = sign mac s (rev rpayload)" using v by (simp add: session_valid_def Let_def split: if_splits)
  have "rev rest = rsig @ CHR ''.'' # rpayload" "CHR ''.'' \<notin> set rsig"
    using c ok Cut_Some by auto
  then have rest: "rest = rev rpayload @ ''.'' @ sign mac s (rev rpayload)" "CHR ''.'' \<notin> set (sign mac s (rev rpayload))"
    by (simp_all add: rev_swap flip: sig)
  obtain u etext ok' where c': "Cut (rev rpayload) (CHR ''.'') = (u, etext, ok')"
    by (cases "Cut (rev rpayload) (CHR ''.'')") auto
  have "ok' \<and> TrimSpace u \<noteq> [] \<and> u = userID \<and> (\<exists>expiry. ParseInt64 etext = Some expiry \<and> now < time_Unix expiry)"
    using assms unfolding tok rest(1) Verify_signed [OF rest(2)] c'
    by (auto split: if_splits option.splits)
  moreover from this have "rev rpayload = userID @ ''.'' @ etext" "CHR ''.'' \<notin> set userID"
    using c' Cut_Some by auto
  ultimately show ?thesis unfolding tok rest(1) by auto
qed

lemma time_Unix_Unix:
  assumes "0 \<le> t" "t < 2 ^ 63 * second"
  shows "time_Unix (Unix t) = t div second * second"
proof -
  have "0 \<le> t div second" "t div second < 2 ^ 63" using assms by auto
  then show ?thesis by (simp add: time_Unix_def Unix_def)
qed

text \<open>
  A session lasts exactly as long as it was issued for. For a user id without a dot, the token
  \<open>Session_Issue\<close> returns verifies to that user at every instant before the expiry, eight hours later cut to
  the second, and is rejected as expired from then on.
\<close>

theorem session_roundtrip:
  assumes "hex_mac mac" "clock_ok now" "CHR ''.'' \<notin> set userID" "TrimSpace userID \<noteq> []"
  shows "Verify mac s (Session_Issue mac s userID now) later =
    (if later < (now + SessionTTL) div second * second then Inr userID else Inl SessionExpired)"
proof -
  let ?e = "Unix (now + SessionTTL)"
  have "0 \<le> (now + SessionTTL) div second" "(now + SessionTTL) div second < 2 ^ 63"
    using assms(2) by (auto simp: clock_ok_def)
  then have p: "ParseInt64 (FormatInt ?e) = Some ?e" by (intro ParseInt64_FormatInt) (auto simp: Unix_def)
  have t: "time_Unix ?e = (now + SessionTTL) div second * second"
    using assms(2) by (intro time_Unix_Unix) (auto simp: clock_ok_def)
  have cut: "Cut (userID @ ''.'' @ FormatInt ?e) (CHR ''.'') = (userID, FormatInt ?e, True)"
    using assms(3) by (simp add: Cut_Some)
  have tok: "Session_Issue mac s userID now = sessionPrefix @ (userID @ ''.'' @ FormatInt ?e) @ ''.'' @ sign mac s (userID @ ''.'' @ FormatInt ?e)"
    by (simp add: Session_Issue_def Let_def)
  have nd: "CHR ''.'' \<notin> set (sign mac s (userID @ ''.'' @ FormatInt ?e))"
    using assms(1) by (simp add: hex_mac_def sign_def)
  show ?thesis unfolding tok Verify_signed [OF nd] cut
    by (simp only: prod.case p option.case t simp_thms assms(4) if_False split: if_split) blast
qed

theorem session_roundtrip_witness:
  "hex_mac sample_mac \<and> clock_ok 0 \<and>
   Verify sample_mac \<lparr>session_key = ''k''\<rparr> (Session_Issue sample_mac \<lparr>session_key = ''k''\<rparr> ''u1'' 0) 5 = Inr ''u1''"
proof -
  have h: "hex_mac sample_mac" "clock_ok 0" "TrimSpace ''u1'' \<noteq> []"
    by (simp add: hex_mac_def sample_mac_def, simp add: clock_ok_def, code_simp)
  with session_roundtrip [of sample_mac 0 "''u1''" "\<lparr>session_key = ''k''\<rparr>" 5] show ?thesis by simp
qed

text \<open>
  No session without the key. A token verifies to a user only when it is the prefix, that user's
  id, an expiry still in the future and the MAC of exactly this id and expiry under the signer's
  key: editing the id or the expiry needs a new MAC. A token without the prefix never verifies.
\<close>

theorem session_needs_mac:
  assumes "Verify mac s token now = Inr userID"
  shows "LooksLikeSession token \<and>
    (\<exists>expiryText expiry. token = sessionPrefix @ userID @ ''.'' @ expiryText @ ''.'' @
        mac (session_key s) (userID @ ''.'' @ expiryText) \<and>
      ParseInt64 expiryText = Some expiry \<and> now < time_Unix expiry) \<and>
    CHR ''.'' \<notin> set userID \<and> TrimSpace userID \<noteq> []"
  using Verify_Inr [OF assms] by (auto simp: LooksLikeSession_def sign_def)

theorem session_needs_mac_witness:
  "Verify sample_mac \<lparr>session_key = ''k''\<rparr> ''usr_u1.100.ab'' 0 = Inr ''u1'' \<and> LooksLikeSession ''usr_u1.100.ab''"
proof -
  have v: "Verify sample_mac \<lparr>session_key = ''k''\<rparr> ''usr_u1.100.ab'' 0 = Inr ''u1''" by code_simp
  from session_needs_mac [OF v] v show ?thesis by blast
qed

section \<open>Users\<close>

text \<open>
  An accepted user has an address with an at sign after its first byte, within the bounds, one of
  the three roles (viewer when none was given) and a password of at least twelve bytes; only an
  explicitly named admin administers.
\<close>

lemma NewUser_Validate_Inr:
  "NewUser_Validate L n = Inr m \<longleftrightarrow> user_ok m \<and>
     m = n\<lparr>nu_Email := ToLower L (TrimSpace (nu_Email n)), nu_DisplayName := TrimSpace (nu_DisplayName n),
           nu_Role := (if nu_Role n = [] then UserRoleViewer else nu_Role n)\<rparr>"
  by (auto simp: NewUser_Validate_def user_ok_def Let_def split: if_splits)

lemma NewUser_Validate_privilege:
  assumes "NewUser_Validate L n = Inr m"
  shows "user_ok m \<and> (CanAdminister (nu_Role m) \<longrightarrow> nu_Role n = UserRoleAdmin) \<and>
    (CanAdminister (nu_Role m) \<longrightarrow> CanTriage (nu_Role m)) \<and>
    (nu_Role n = [] \<longrightarrow> \<not> CanTriage (nu_Role m))"
  using assms unfolding NewUser_Validate_Inr
  by (auto simp: CanAdminister_def CanTriage_def)

end
