(* ===== verification/Passwords.thy ===== *)
theory Passwords
  imports Users
begin

text \<open>
  Password hashes: \<open>internal/users/password.go\<close>, with the parts of \<open>encoding/base64\<close> and
  \<open>fmt.Sscanf\<close> it uses. Argon2id is a third-party function and a parameter; it may panic, which is
  \<open>None\<close>. The lemmas show that a stored hash verifies its own password at whatever cost it was made
  with, and what a hash read back from storage can lead to.
\<close>

section \<open>base64.RawStdEncoding\<close>

text \<open>Bytes and sextets as their bits, the most significant first.\<close>

definition byte_bits :: "char \<Rightarrow> bool list" where
  "byte_bits c = [digit7 c, digit6 c, digit5 c, digit4 c, digit3 c, digit2 c, digit1 c, digit0 c]"

definition bits_byte :: "bool list \<Rightarrow> char" where
  "bits_byte b = Char (b ! 7) (b ! 6) (b ! 5) (b ! 4) (b ! 3) (b ! 2) (b ! 1) (b ! 0)"

function chunks :: "nat \<Rightarrow> 'a list \<Rightarrow> 'a list list" where
  "chunks n xs = (if n = 0 \<or> xs = [] then [] else take n xs # chunks n (drop n xs))"
  by pat_completeness auto
termination by (relation "measure (\<lambda>(n, xs). length xs)") auto

declare chunks.simps [simp del]

definition sextets :: "bool list list" where
  "sextets = map rev (List.n_lists 6 [False, True])"

definition base64_alphabet :: string where
  "base64_alphabet = ''ABCDEFGHIJKLMNOPQRSTUVWXYZabcdefghijklmnopqrstuvwxyz0123456789+/''"

definition sextet_char :: "bool list \<Rightarrow> char" where
  "sextet_char b = the (map_of (zip sextets base64_alphabet) b)"

definition char_sextet :: "char \<Rightarrow> bool list option" where
  "char_sextet c = map_of (zip base64_alphabet sextets) c"

definition EncodeToString :: "string \<Rightarrow> string" where
  "EncodeToString src =
     map (\<lambda>b. sextet_char (b @ replicate (6 - length b) False)) (chunks 6 (concat (map byte_bits src)))"

text \<open>Line breaks are skipped; a lone last sextet is an error; bits left over at the end are ignored.\<close>

definition DecodeString :: "string \<Rightarrow> string option" where
  "DecodeString s =
     (let cs = filter (\<lambda>c. c \<noteq> CHR 0x0A \<and> c \<noteq> CHR 0x0D) s;
          bs = map char_sextet cs
      in if None \<in> set bs \<or> length cs mod 4 = 1 then None
         else Some (map bits_byte (take (6 * length cs div 8) (chunks 8 (concat (map the bs))))))"

section \<open>fmt.Sscanf\<close>

definition scan_literal :: "string \<Rightarrow> string \<Rightarrow> string option" where
  "scan_literal p s = (if prefix p s then Some (drop (length p) s) else None)"

text \<open>Space before a number is skipped; a line break is an error, since no digit follows.\<close>

definition skip_space :: "string \<Rightarrow> string" where
  "skip_space s = strip_front (filter (\<lambda>r. r \<noteq> [CHR 0x0A]) space_runes) s"

definition scan_uint :: "nat \<Rightarrow> string \<Rightarrow> (nat \<times> string) option" where
  "scan_uint bits s =
     (let s = skip_space s; digits = takeWhile is_digit s in
      if digits = [] \<or> int (decimal digits) \<ge> 2 ^ bits then None
      else Some (decimal digits, drop (length digits) s))"

definition scan_int :: "string \<Rightarrow> (int \<times> string) option" where
  "scan_int s =
     (let s = skip_space s;
          sgn = takeWhile (\<lambda>c. c = CHR ''+'' \<or> c = CHR ''-'') (take 1 s);
          digits = takeWhile is_digit (drop (length sgn) s)
      in map_option (\<lambda>n. (n, drop (length sgn + length digits) s)) (ParseInt64 (sgn @ digits)))"

section \<open>password.go\<close>

abbreviation argonTime :: nat where "argonTime \<equiv> 3"
abbreviation argonMemory :: nat where "argonMemory \<equiv> 64 * 1024"
abbreviation argonThreads :: nat where "argonThreads \<equiv> 4"
abbreviation argonKeyLen :: nat where "argonKeyLen \<equiv> 32"
abbreviation argonSaltLen :: nat where "argonSaltLen \<equiv> 16"
abbreviation minKeyLen :: nat where "minKeyLen \<equiv> 16"
abbreviation maxKeyLen :: nat where "maxKeyLen \<equiv> 64"

text \<open>\<open>argon2.Version\<close>, the 19 of the comment in \<open>VerifyPassword\<close>.\<close>

abbreviation argon2_Version :: nat where "argon2_Version \<equiv> 19"

text \<open>\<open>argon2.IDKey\<close>: password, salt, time, memory, threads, key length.\<close>

type_synonym IDKey = "string \<Rightarrow> string \<Rightarrow> nat \<Rightarrow> nat \<Rightarrow> nat \<Rightarrow> nat \<Rightarrow> string option"

datatype password_error = PasswordTooShort | SaltUnavailable | MalformedHash

definition encode_hash :: "nat \<Rightarrow> nat \<Rightarrow> nat \<Rightarrow> string \<Rightarrow> string \<Rightarrow> string" where
  "encode_hash memory tm threads salt key =
     ''$argon2id$v='' @ Itoa argon2_Version @ ''$m='' @ Itoa memory @ '',t='' @ Itoa tm @ '',p='' @ Itoa threads @
     ''$'' @ EncodeToString salt @ ''$'' @ EncodeToString key"

definition HashPassword :: "IDKey \<Rightarrow> string option \<Rightarrow> string \<Rightarrow> (password_error + string) option" where
  "HashPassword idkey random password =
     (if length password < MinPasswordLength then Some (Inl PasswordTooShort)
      else case random of
        None \<Rightarrow> Some (Inl SaltUnavailable)
      | Some salt \<Rightarrow>
          (case idkey password salt argonTime argonMemory argonThreads argonKeyLen of
             None \<Rightarrow> None
           | Some key \<Rightarrow> Some (Inr (encode_hash argonMemory argonTime argonThreads salt key))))"

definition scan_params :: "string \<Rightarrow> (nat \<times> nat \<times> nat) option" where
  \<comment> \<open>\<open>fmt.Sscanf(parts[3], "m=%d,t=%d,p=%d", &memory, &time, &threads)\<close>\<close>
  "scan_params s =
     (case scan_literal ''m='' s of None \<Rightarrow> None | Some s \<Rightarrow>
      case scan_uint 32 s of None \<Rightarrow> None | Some (memory, s) \<Rightarrow>
      case scan_literal '',t='' s of None \<Rightarrow> None | Some s \<Rightarrow>
      case scan_uint 32 s of None \<Rightarrow> None | Some (tm, s) \<Rightarrow>
      case scan_literal '',p='' s of None \<Rightarrow> None | Some s \<Rightarrow>
      case scan_uint 8 s of None \<Rightarrow> None | Some (threads, s) \<Rightarrow> Some (memory, tm, threads))"

definition scan_version :: "string \<Rightarrow> int option" where
  \<comment> \<open>\<open>fmt.Sscanf(parts[2], "v=%d", &version)\<close>\<close>
  "scan_version s =
     (case scan_literal ''v='' s of None \<Rightarrow> None | Some s \<Rightarrow> map_option fst (scan_int s))"

definition VerifyPassword :: "IDKey \<Rightarrow> string \<Rightarrow> string \<Rightarrow> (password_error + bool) option" where
  "VerifyPassword idkey password encoded =
     (let parts = Split encoded (CHR ''$'') in
      if length parts \<noteq> 6 \<or> parts ! 1 \<noteq> ''argon2id'' then Some (Inl MalformedHash)
      else if scan_version (parts ! 2) \<noteq> Some (int argon2_Version) then Some (Inl MalformedHash)
      else case scan_params (parts ! 3) of
        None \<Rightarrow> Some (Inl MalformedHash)
      | Some (memory, tm, threads) \<Rightarrow>
          (case DecodeString (parts ! 4) of
             None \<Rightarrow> Some (Inl MalformedHash)
           | Some salt \<Rightarrow>
               (case DecodeString (parts ! 5) of
                  None \<Rightarrow> Some (Inl MalformedHash)
                | Some want \<Rightarrow>
                    if length want < minKeyLen \<or> length want > maxKeyLen then Some (Inl MalformedHash)
                    else map_option (\<lambda>got. Inr (got = want))
                      (idkey password salt tm memory threads (length want)))))"

text \<open>\<open>hashWith\<close> panics where \<open>HashPassword\<close> returns an error.\<close>

definition hashWith :: "IDKey \<Rightarrow> string option \<Rightarrow> string \<Rightarrow> nat \<Rightarrow> nat \<Rightarrow> nat \<Rightarrow> string option" where
  "hashWith idkey random password memory tm threads =
     (case random of
        None \<Rightarrow> None
      | Some salt \<Rightarrow>
          map_option (encode_hash memory tm threads salt) (idkey password salt tm memory threads argonKeyLen))"

section \<open>Specification vocabulary\<close>

text \<open>Argon2id returns a key of the length asked for, for at least one pass and one lane.\<close>

definition idkey_ok :: "IDKey \<Rightarrow> bool" where
  "idkey_ok idkey \<longleftrightarrow> (\<forall>pw salt tm memory threads n. 1 \<le> tm \<longrightarrow> 1 \<le> threads \<longrightarrow>
     (\<exists>key. idkey pw salt tm memory threads n = Some key \<and> length key = n))"

definition sample_idkey :: IDKey where
  "sample_idkey pw salt tm memory threads n =
     (if tm < 1 \<or> threads < 1 then None else Some (take n (pw @ salt @ replicate n (CHR ''x''))))"

section \<open>Base64 round trip\<close>

lemma chunks_append:
  "0 < n \<Longrightarrow> length xs = n \<Longrightarrow> chunks n (xs @ ys) = xs # chunks n ys"
  by (subst chunks.simps) auto

lemma chunks_concat:
  "0 < n \<Longrightarrow> (\<And>x. x \<in> set xss \<Longrightarrow> length x = n) \<Longrightarrow> chunks n (concat xss @ ys) = xss @ chunks n ys"
  by (induction xss) (auto simp: chunks_append)

text \<open>Padding the chunks of a list pads the list, by less than a chunk.\<close>

lemma chunks_padded:
  assumes "0 < n"
  shows "\<exists>k < n. concat (map (\<lambda>b. b @ replicate (n - length b) z) (chunks n xs)) = xs @ replicate k z \<and>
    (\<forall>b \<in> set (map (\<lambda>b. b @ replicate (n - length b) z) (chunks n xs)). length b = n)"
  using assms
proof (induction n xs rule: chunks.induct)
  case (1 n xs)
  show ?case
  proof (cases "xs = []")
    case True
    with 1(2) show ?thesis by (auto simp: chunks.simps [of n "[]"] intro: exI [of _ 0])
  next
    case False
    have c: "chunks n xs = take n xs # chunks n (drop n xs)" using False 1(2) by (subst chunks.simps) simp
    obtain k where k: "k < n" "concat (map (\<lambda>b. b @ replicate (n - length b) z) (chunks n (drop n xs))) = drop n xs @ replicate k z"
      "\<forall>b \<in> set (map (\<lambda>b. b @ replicate (n - length b) z) (chunks n (drop n xs))). length b = n"
      using 1(1) [OF _ 1(2)] False 1(2) by blast
    show ?thesis
    proof (cases "n \<le> length xs")
      case True
      then have z: "n - length (take n xs) = 0" by simp
      have "concat (map (\<lambda>b. b @ replicate (n - length b) z) (chunks n xs)) = xs @ replicate k z"
        by (simp only: c list.map concat.simps k(2) z replicate_0 append_Nil2 append_take_drop_id flip: append_assoc)
      moreover have "\<forall>b \<in> set (map (\<lambda>b. b @ replicate (n - length b) z) (chunks n xs)). length b = n"
        using k(3) True by (simp add: c)
      ultimately show ?thesis using k(1) by blast
    next
      case short: False
      then have "drop n xs = []" "take n xs = xs" by auto
      then have c': "chunks n xs = [xs]" using c by (simp add: chunks.simps [of n "[]"])
      have "n - length xs < n" using False 1(2) by (cases xs) auto
      then show ?thesis using short by (intro exI [of _ "n - length xs"]) (simp add: c')
    qed
  qed
qed

lemma bits_byte_bits: "bits_byte (byte_bits c) = c"
  by (cases c) (simp add: bits_byte_def byte_bits_def)

lemma in_sextets: "length b = 6 \<Longrightarrow> b \<in> set sextets"
proof -
  assume "length b = 6"
  then have "rev b \<in> set (List.n_lists 6 [False, True])" by (auto simp: set_n_lists)
  then show ?thesis unfolding sextets_def by (metis image_eqI list.set_map rev_rev_ident)
qed

lemma sextet_table:
  "list_all (\<lambda>b. char_sextet (sextet_char b) = Some b \<and> sextet_char b \<noteq> CHR 0x0A \<and> sextet_char b \<noteq> CHR 0x0D \<and>
     sextet_char b \<noteq> CHR ''$'') sextets"
proof -
  have t: "distinct sextets \<and> length sextets = 64 \<and> length base64_alphabet = 64 \<and>
      list_all (\<lambda>c. c \<noteq> CHR 0x0A \<and> c \<noteq> CHR 0x0D \<and> c \<noteq> CHR ''$'') base64_alphabet" by code_simp
  have d: "distinct base64_alphabet" by code_simp
  show ?thesis unfolding list_all_length
  proof (intro allI impI)
    fix i assume "i < length sextets"
    then have i: "i < 64" using t by simp
    have c: "sextet_char (sextets ! i) = base64_alphabet ! i"
      using i t by (simp add: sextet_char_def map_of_zip_nth)
    moreover have "char_sextet (base64_alphabet ! i) = Some (sextets ! i)"
      using i t d by (simp add: char_sextet_def map_of_zip_nth)
    moreover have "base64_alphabet ! i \<noteq> CHR 0x0A \<and> base64_alphabet ! i \<noteq> CHR 0x0D \<and> base64_alphabet ! i \<noteq> CHR ''$''"
      using i t by (simp add: list_all_length)
    ultimately show "char_sextet (sextet_char (sextets ! i)) = Some (sextets ! i) \<and> sextet_char (sextets ! i) \<noteq> CHR 0x0A \<and>
      sextet_char (sextets ! i) \<noteq> CHR 0x0D \<and> sextet_char (sextets ! i) \<noteq> CHR ''$''" by simp
  qed
qed

lemma sextet_char_props:
  "length b = 6 \<Longrightarrow> char_sextet (sextet_char b) = Some b \<and> sextet_char b \<noteq> CHR 0x0A \<and> sextet_char b \<noteq> CHR 0x0D \<and>
     sextet_char b \<noteq> CHR ''$''"
  using sextet_table in_sextets unfolding list_all_iff by blast


lemma base64_roundtrip: "DecodeString (EncodeToString src) = Some src"
proof -
  define P where "P = map (\<lambda>b. b @ replicate (6 - length b) False) (chunks 6 (concat (map byte_bits src)))"
  have "\<exists>k < 6. concat P = concat (map byte_bits src) @ replicate k False \<and> (\<forall>b \<in> set P. length b = 6)"
    unfolding P_def by (rule chunks_padded) simp
  then obtain k where k: "k < 6" "concat P = concat (map byte_bits src) @ replicate k False" "\<forall>b \<in> set P. length b = 6"
    by blast
  have enc: "EncodeToString src = map sextet_char P"
    unfolding EncodeToString_def P_def by (simp add: comp_def)
  have f: "filter (\<lambda>c. c \<noteq> CHR 0x0A \<and> c \<noteq> CHR 0x0D) (map sextet_char P) = map sextet_char P"
    using k(3) sextet_char_props by (simp add: filter_id_conv)
  have bs: "map char_sextet (map sextet_char P) = map Some P" using k(3) sextet_char_props by simp
  have len: "6 * length P = 8 * length src + k"
  proof -
    have "length (concat P) = 6 * length P" using k(3) by (induction P) auto
    moreover have "length (concat (map byte_bits src)) = 8 * length src" by (induction src) (auto simp: byte_bits_def)
    ultimately show ?thesis using k(2) by simp
  qed
  have m4: "length P mod 4 \<noteq> 1"
  proof
    assume "length P mod 4 = 1"
    then have "length P = 4 * (length P div 4) + 1" using mult_div_mod_eq [of 4 "length P"] by simp
    moreover define m where "m = 3 * (length P div 4)"
    ultimately have "8 * length src + k = 6 + 8 * m" using len by simp
    then have "(8 * length src + k) mod 8 = (6 + 8 * m) mod 8" by (rule arg_cong)
    with k(1) show False by simp
  qed
  have n: "6 * length P div 8 = length src" using len k(1) by simp
  have "chunks 8 (concat P) = map byte_bits src @ chunks 8 (replicate k False)"
    unfolding k(2) by (rule chunks_concat) (auto simp: byte_bits_def)
  then have "map bits_byte (take (6 * length P div 8) (chunks 8 (concat P))) = src"
    by (simp add: n bits_byte_bits comp_def)
  moreover have "map the (map Some P) = P" "None \<notin> set (map Some P)" by (simp_all add: comp_def)
  ultimately show ?thesis using m4 unfolding DecodeString_def enc f bs Let_def length_map by simp
qed

lemma Encode_no_dollar: "CHR ''$'' \<notin> set (EncodeToString src)"
proof
  define pad6 where "pad6 = (\<lambda>b. b @ replicate (6 - length b) False)"
  assume in_enc: "CHR ''$'' \<in> set (EncodeToString src)"
  have enc: "EncodeToString src = map (\<lambda>b. sextet_char (pad6 b)) (chunks 6 (concat (map byte_bits src)))"
    by (simp add: EncodeToString_def pad6_def)
  obtain b where b: "b \<in> set (chunks 6 (concat (map byte_bits src)))" and d: "CHR ''$'' = sextet_char (pad6 b)"
    using in_enc unfolding enc set_map by (rule imageE)
  have "\<exists>k < 6. concat (map pad6 (chunks 6 (concat (map byte_bits src)))) = concat (map byte_bits src) @ replicate k False \<and>
      (\<forall>x \<in> set (map pad6 (chunks 6 (concat (map byte_bits src)))). length x = 6)"
    unfolding pad6_def by (rule chunks_padded) simp
  then have "\<forall>x \<in> set (map pad6 (chunks 6 (concat (map byte_bits src)))). length x = 6" by blast
  with b have "length (pad6 b) = 6" by simp
  with sextet_char_props [of "pad6 b"] d show False by simp
qed

section \<open>Stored parameters\<close>

lemma Itoa_no_space: "skip_space (Itoa n @ rest) = Itoa n @ rest"
proof -
  have d: "is_digit (hd (Itoa n))" "Itoa n \<noteq> []" using Itoa_digits [of n] by (auto simp: list_all_iff)
  have ends: "list_all (\<lambda>r. r \<noteq> [] \<and> \<not> is_digit (hd r)) space_runes" by code_simp
  show ?thesis unfolding skip_space_def
  proof (rule strip_front_id)
    fix p assume "p \<in> set (filter (\<lambda>r. r \<noteq> [CHR 0x0A]) space_runes)" "p \<noteq> []"
    then have "\<not> is_digit (hd p)" using ends by (auto simp: list_all_iff)
    then have "hd p \<noteq> hd (Itoa n)" using d(1) by metis
    then show "\<not> prefix p (Itoa n @ rest)"
      using d(2) \<open>p \<noteq> []\<close> by (metis append_assoc hd_append2 prefix_def)
  qed
qed

lemma takeWhile_Itoa: "rest = [] \<or> \<not> is_digit (hd rest) \<Longrightarrow> takeWhile is_digit (Itoa n @ rest) = Itoa n"
  using Itoa_digits [of n] by (cases rest) (auto simp: list_all_iff takeWhile_append2)

lemma scan_uint_Itoa:
  "rest = [] \<or> \<not> is_digit (hd rest) \<Longrightarrow> int n < 2 ^ bits \<Longrightarrow> scan_uint bits (Itoa n @ rest) = Some (n, rest)"
  using Itoa_digits [of n] by (simp add: scan_uint_def Itoa_no_space takeWhile_Itoa decimal_Itoa Let_def)

lemma scan_params_encoded:
  assumes "int memory < 2 ^ 32" "int tm < 2 ^ 32" "int threads < 2 ^ 8"
  shows "scan_params (''m='' @ Itoa memory @ '',t='' @ Itoa tm @ '',p='' @ Itoa threads) = Some (memory, tm, threads)"
proof -
  have p: "\<not> is_digit (CHR '','')" by (simp add: is_digit_def)
  have "scan_uint 32 (Itoa memory @ '',t='' @ Itoa tm @ '',p='' @ Itoa threads) =
      Some (memory, '',t='' @ Itoa tm @ '',p='' @ Itoa threads)"
    "scan_uint 32 (Itoa tm @ '',p='' @ Itoa threads) = Some (tm, '',p='' @ Itoa threads)"
    using assms p by (auto intro!: scan_uint_Itoa)
  moreover have "scan_uint 8 (Itoa threads) = Some (threads, [])"
    using scan_uint_Itoa [of "[]" threads 8] assms(3) by simp
  ultimately show ?thesis by (simp add: scan_params_def scan_literal_def)
qed

lemma Itoa_no_dollar: "CHR ''$'' \<notin> set (Itoa n)"
  using Itoa_digits [of n] by (auto simp: list_all_iff is_digit_def)

lemma Split_encode_hash:
  "Split (encode_hash memory tm threads salt key) (CHR ''$'') =
     [[], ''argon2id'', ''v='' @ Itoa argon2_Version,
      ''m='' @ Itoa memory @ '',t='' @ Itoa tm @ '',p='' @ Itoa threads, EncodeToString salt, EncodeToString key]"
proof -
  have "encode_hash memory tm threads salt key =
      Join [[], ''argon2id'', ''v='' @ Itoa argon2_Version,
        ''m='' @ Itoa memory @ '',t='' @ Itoa tm @ '',p='' @ Itoa threads, EncodeToString salt, EncodeToString key] ''$''"
    by (simp add: encode_hash_def)
  then show ?thesis by (simp only: Split_Join) (rule Split_Join; auto simp: Itoa_no_dollar Encode_no_dollar)
qed

lemma scan_version_encoded: "scan_version (''v='' @ Itoa argon2_Version) = Some (int argon2_Version)"
  by code_simp

lemma Verify_encode_hash:
  assumes "int memory < 2 ^ 32" "int tm < 2 ^ 32" "int threads < 2 ^ 8"
    and "minKeyLen \<le> length key" "length key \<le> maxKeyLen"
  shows "VerifyPassword idkey password (encode_hash memory tm threads salt key) =
    map_option (\<lambda>got. Inr (got = key)) (idkey password salt tm memory threads (length key))"
  using assms scan_version_encoded scan_params_encoded [OF assms(1-3)]
  by (simp add: VerifyPassword_def Split_encode_hash base64_roundtrip Let_def)

lemma sample_idkey_ok: "idkey_ok sample_idkey"
  unfolding idkey_ok_def sample_idkey_def by auto

text \<open>
  A stored hash verifies its own password. What \<open>HashPassword\<close> returns is accepted by
  \<open>VerifyPassword\<close> for the password it was made from and for exactly those others with the same
  derived key; the same holds for a hash made at any other cost, which is what lets the constants be
  raised; and a password below twelve bytes is never hashed.
\<close>

theorem password_roundtrip:
  assumes "idkey_ok idkey"
  shows "(HashPassword idkey random pw = Some (Inr encoded) \<longrightarrow>
      MinPasswordLength \<le> length pw \<and> VerifyPassword idkey pw encoded = Some (Inr True) \<and>
      (\<exists>salt. random = Some salt \<and> VerifyPassword idkey pw' encoded =
        Some (Inr (idkey pw' salt argonTime argonMemory argonThreads argonKeyLen =
          idkey pw salt argonTime argonMemory argonThreads argonKeyLen)))) \<and>
    (hashWith idkey random pw memory tm threads = Some encoded \<longrightarrow>
      1 \<le> tm \<longrightarrow> 1 \<le> threads \<longrightarrow> int memory < 2 ^ 32 \<longrightarrow> int tm < 2 ^ 32 \<longrightarrow> int threads < 2 ^ 8 \<longrightarrow>
      VerifyPassword idkey pw encoded = Some (Inr True))"
proof -
  have key: "\<exists>key. idkey pw salt tm memory threads argonKeyLen = Some key \<and> length key = argonKeyLen"
    if "1 \<le> tm" "1 \<le> threads" for pw salt tm memory threads
    using assms that unfolding idkey_ok_def by blast
  have "VerifyPassword idkey pw encoded = Some (Inr True)"
    if h: "hashWith idkey random pw memory tm threads = Some encoded" "1 \<le> tm" "1 \<le> threads"
      "int memory < 2 ^ 32" "int tm < 2 ^ 32" "int threads < 2 ^ 8"
  proof -
    obtain salt where salt: "random = Some salt" using h(1) by (auto simp: hashWith_def split: option.splits)
    obtain k where k: "idkey pw salt tm memory threads argonKeyLen = Some k" "length k = argonKeyLen"
      using key [OF h(2,3)] by blast
    then have "encoded = encode_hash memory tm threads salt k" using h(1) by (simp add: hashWith_def salt)
    with k Verify_encode_hash [OF h(4-6), of k] show ?thesis by simp
  qed
  moreover have "MinPasswordLength \<le> length pw \<and> VerifyPassword idkey pw encoded = Some (Inr True) \<and>
      (\<exists>salt. random = Some salt \<and> VerifyPassword idkey pw' encoded =
        Some (Inr (idkey pw' salt argonTime argonMemory argonThreads argonKeyLen =
          idkey pw salt argonTime argonMemory argonThreads argonKeyLen)))"
    if h: "HashPassword idkey random pw = Some (Inr encoded)"
  proof -
    obtain salt where salt: "random = Some salt" and len: "MinPasswordLength \<le> length pw"
      using h by (auto simp: HashPassword_def split: option.splits if_splits)
    obtain k k' where k: "idkey pw salt argonTime argonMemory argonThreads argonKeyLen = Some k" "length k = argonKeyLen"
      and k': "idkey pw' salt argonTime argonMemory argonThreads argonKeyLen = Some k'"
      using key [of argonTime argonThreads pw salt argonMemory] key [of argonTime argonThreads pw' salt argonMemory]
      by auto
    have "encoded = encode_hash argonMemory argonTime argonThreads salt k"
      using h k len by (simp add: HashPassword_def salt)
    with k k' salt len show ?thesis
      using Verify_encode_hash [of argonMemory argonTime argonThreads k idkey pw salt]
        Verify_encode_hash [of argonMemory argonTime argonThreads k idkey pw' salt]
      by simp
  qed
  ultimately show ?thesis by blast
qed

theorem password_roundtrip_witness:
  "idkey_ok sample_idkey \<and>
   (\<exists>encoded. HashPassword sample_idkey (Some ''0123456789abcdef'') ''correct horse'' = Some (Inr encoded) \<and>
      VerifyPassword sample_idkey ''correct horse'' encoded = Some (Inr True))"
proof -
  have ok: "idkey_ok sample_idkey" by (rule sample_idkey_ok)
  have "\<exists>encoded. HashPassword sample_idkey (Some ''0123456789abcdef'') ''correct horse'' = Some (Inr encoded)"
    by (simp add: HashPassword_def sample_idkey_def)
  with password_roundtrip [OF ok, of "Some ''0123456789abcdef''" "''correct horse''"] ok show ?thesis by blast
qed

text \<open>
  What a hash read back from storage can lead to. Verification never answers from anything but a
  six-part argon2id hash of the known version whose parameters fit their integers and whose key is
  16 to 64 bytes; then the answer is equality with a key derived at the stored cost. Anything else is
  the malformed-hash error, never a wrong password; and the only panic is the derivation's own, on a
  stored cost with no pass or no lane, which nothing checks.
\<close>

theorem stored_hash_outcomes:
  assumes "idkey_ok idkey"
  shows "case VerifyPassword idkey password encoded of
      Some (Inl e) \<Rightarrow> e = MalformedHash
    | Some (Inr b) \<Rightarrow> (\<exists>salt want memory tm threads got.
        Split encoded (CHR ''$'') ! 1 = ''argon2id'' \<and> length (Split encoded (CHR ''$'')) = 6 \<and>
        scan_version (Split encoded (CHR ''$'') ! 2) = Some (int argon2_Version) \<and>
        scan_params (Split encoded (CHR ''$'') ! 3) = Some (memory, tm, threads) \<and>
        DecodeString (Split encoded (CHR ''$'') ! 4) = Some salt \<and>
        DecodeString (Split encoded (CHR ''$'') ! 5) = Some want \<and>
        minKeyLen \<le> length want \<and> length want \<le> maxKeyLen \<and>
        idkey password salt tm memory threads (length want) = Some got \<and> b = (got = want))
    | None \<Rightarrow> (\<exists>memory tm threads.
        scan_params (Split encoded (CHR ''$'') ! 3) = Some (memory, tm, threads) \<and> (tm = 0 \<or> threads = 0))"
proof (cases "VerifyPassword idkey password encoded")
  case None
  then have "\<exists>salt n memory tm threads. scan_params (Split encoded (CHR ''$'') ! 3) = Some (memory, tm, threads) \<and>
      idkey password salt tm memory threads n = None"
    unfolding VerifyPassword_def Let_def
    by (simp split: if_splits option.splits prod.splits) blast
  then obtain salt n memory tm threads where
    p: "scan_params (Split encoded (CHR ''$'') ! 3) = Some (memory, tm, threads)"
    and i: "idkey password salt tm memory threads n = None" by blast
  then have "\<not> (1 \<le> tm \<and> 1 \<le> threads)" using assms unfolding idkey_ok_def by (metis option.distinct(1))
  with None p show ?thesis by auto
next
  case (Some r)
  then show ?thesis
    by (cases r) (auto simp: VerifyPassword_def Let_def split: if_splits option.splits prod.splits)
qed

theorem stored_hash_outcomes_witness:
  "VerifyPassword sample_idkey ''correct horse'' (''$argon2id$v=19$m=8,t=0,p=1$AAAA$'' @ replicate 22 (CHR ''A'')) = None \<and>
   (\<exists>memory tm threads. scan_params ''m=8,t=0,p=1'' = Some (memory, tm, threads) \<and> (tm = 0 \<or> threads = 0))"
proof -
  let ?e = "''$argon2id$v=19$m=8,t=0,p=1$AAAA$'' @ replicate 22 (CHR ''A'')"
  have ok: "idkey_ok sample_idkey" by (rule sample_idkey_ok)
  have v: "VerifyPassword sample_idkey ''correct horse'' ?e = None" by code_simp
  have p: "Split ?e (CHR ''$'') ! 3 = ''m=8,t=0,p=1''" by code_simp
  from stored_hash_outcomes [OF ok, where password = "''correct horse''" and encoded = ?e] show ?thesis unfolding v p by simp
qed

end
