(* ===== verification/Audit_Log.thy ===== *)
theory Audit_Log
  imports Go_Prelude
begin

text \<open>
  The audit log: \<open>internal/audit/audit.go\<close>. An entry is written in the transaction of the change it
  records, so writing is a function from the tables that transaction sees to the row it appends or
  the error that rolls the change back. Identifiers and recorded values are of the type of the
  audited store. The lemmas show which entries are refused and that a written one is kept as it is.
\<close>

section \<open>Entries\<close>

type_synonym ActorKind = string

abbreviation ActorTokenLabel :: ActorKind where "ActorTokenLabel \<equiv> ''token_label''"
abbreviation ActorSystem :: ActorKind where "ActorSystem \<equiv> ''system''"
abbreviation ActorUser :: ActorKind where "ActorUser \<equiv> ''user''"

record Actor =
  ac_Kind :: ActorKind
  ac_Label :: string

record ('i, 'v) Entry =
  e_Actor :: Actor
  e_Action :: string
  e_ResourceType :: string
  e_ResourceID :: 'i
  e_ProjectID :: string
  e_Before :: "'v option"
  e_After :: "'v option"
  e_OccurredAt :: time

record ('i, 'v) AuditRow =
  au_Entry :: "('i, 'v) Entry"
  au_ProjectSlug :: "string option"

datatype audit_error = NoActor | NoAction | NoResourceType | UserActorNeedsID

section \<open>Actors\<close>

definition TokenActor :: "string \<Rightarrow> Actor" where
  "TokenActor label =
     \<lparr>ac_Kind = ActorTokenLabel, ac_Label = (if TrimSpace label = [] then ''unknown'' else label)\<rparr>"

definition UserActor :: "string \<Rightarrow> audit_error + Actor" where
  "UserActor userID =
     (let userID = TrimSpace userID in
      if userID = [] then Inl UserActorNeedsID else Inr \<lparr>ac_Kind = ActorUser, ac_Label = userID\<rparr>)"

section \<open>Write\<close>

definition Entry_validate :: "('i, 'v) Entry \<Rightarrow> audit_error option" where
  "Entry_validate e =
     (if TrimSpace (ac_Kind (e_Actor e)) = [] \<or> TrimSpace (ac_Label (e_Actor e)) = [] then Some NoActor
      else if TrimSpace (e_Action e) = [] then Some NoAction
      else if TrimSpace (e_ResourceType e) = [] then Some NoResourceType
      else None)"

text \<open>The slug of a project in the table of projects, by identifier.\<close>

definition projectSlug :: "(string \<times> string) list \<Rightarrow> string \<Rightarrow> string option" where
  "projectSlug projects projectID = (if TrimSpace projectID = [] then None else map_of projects projectID)"

definition audit_Write :: "(string \<times> string) list \<Rightarrow> time \<Rightarrow> ('i, 'v) Entry \<Rightarrow> audit_error + ('i, 'v) AuditRow" where
  "audit_Write projects now e =
     (case Entry_validate e of
        Some err \<Rightarrow> Inl err
      | None \<Rightarrow>
          let e = (if e_OccurredAt e = 0 then e\<lparr>e_OccurredAt := now\<rparr> else e)
          in Inr \<lparr>au_Entry = e, au_ProjectSlug = projectSlug projects (e_ProjectID e)\<rparr>)"

section \<open>Lemmas\<close>

text \<open>An entry is refused exactly when it has no actor, no action or no resource type.\<close>

lemma audit_Write_Inl:
  "isl (audit_Write projects now e) \<longleftrightarrow>
     TrimSpace (ac_Kind (e_Actor e)) = [] \<or> TrimSpace (ac_Label (e_Actor e)) = [] \<or>
     TrimSpace (e_Action e) = [] \<or> TrimSpace (e_ResourceType e) = []"
  by (auto simp: audit_Write_def Entry_validate_def Let_def)

lemma audit_Write_Inr:
  assumes "audit_Write projects now e = Inr row"
  shows "e_Actor (au_Entry row) = e_Actor e" "e_Action (au_Entry row) = e_Action e"
    "e_ResourceID (au_Entry row) = e_ResourceID e" "e_ProjectID (au_Entry row) = e_ProjectID e"
    "e_Before (au_Entry row) = e_Before e" "e_After (au_Entry row) = e_After e"
  using assms by (auto simp: audit_Write_def Let_def split: option.splits if_splits)

lemma actors_can_write:
  "TrimSpace (ac_Label (TokenActor label)) \<noteq> []" "UserActor uid = Inr a \<Longrightarrow> TrimSpace (ac_Label a) \<noteq> []"
  by (auto simp: TokenActor_def UserActor_def Let_def TrimSpace_graphic split: if_splits, code_simp)

end
