(* ===== verification/Finding_Store.thy ===== *)
theory Finding_Store
  imports Scans Audit_Log
begin

text \<open>
  The findings store: \<open>internal/findings/store.go\<close> (\<open>RecordScan\<close> and what it calls) and
  \<open>transition.go\<close>, with the audit record of \<open>Audit_Log\<close>. The SQL statements are
  translated to functions on the tables they read and write, kept as lists in insertion order; a
  transaction is a function from the database to an error, which rolls back, or the database it
  commits. The lemmas show what a scan may resolve, that it never overrules a person, that the
  history tells the status of every finding, and that every human change is audited.
\<close>

section \<open>Tables\<close>

type_synonym uuid = nat

record FindingRow =
  fw_ID :: uuid
  fw_Project :: string
  fw_Finding :: Finding
  fw_FirstSeen :: time
  fw_LastSeen :: time

record OccurrenceRow =
  oc_Finding :: uuid
  oc_Scan :: string
  oc_Scanner :: string
  oc_File :: "string option"
  oc_StartLine :: "int option"
  oc_EndLine :: "int option"
  oc_SeenAt :: time

record HistoryRow =
  h_Finding :: uuid
  h_From :: "Status option"
  h_To :: Status
  h_Actor :: string
  h_Reason :: string
  h_Note :: "string option"
  h_Scan :: "string option"
  h_ChangedAt :: time

record ScanRow =
  sw_Target :: Target
  sw_CreatedAt :: time

text \<open>A value either side of a change: an object with string fields.\<close>

type_synonym audit_value = "(string \<times> string) list"

text \<open>\<open>now()\<close> is the start of the transaction; identifiers are generated from a counter.\<close>

record DB =
  db_findings :: "FindingRow list"
  db_occurrences :: "OccurrenceRow list"
  db_history :: "HistoryRow list"
  db_scans :: "(string \<times> ScanRow) list"
  db_projects :: "(string \<times> string) list"
  db_audit :: "(uuid, audit_value) AuditRow list"
  db_next :: uuid
  db_now :: time

section \<open>RecordScan\<close>

abbreviation ReasonFirstSeen :: string where "ReasonFirstSeen \<equiv> ''first_seen''"
abbreviation ReasonReopened :: string where "ReasonReopened \<equiv> ''reopened''"
abbreviation ReasonNotReported :: string where "ReasonNotReported \<equiv> ''not_reported''"

definition nullIfEmpty :: "string \<Rightarrow> string option" where
  "nullIfEmpty s = (if s = [] then None else Some s)"

definition nullIfZero :: "int \<Rightarrow> int option" where
  "nullIfZero n = (if n = 0 then None else Some n)"

definition recordTransition :: "uuid \<Rightarrow> Status option \<Rightarrow> Status \<Rightarrow> string \<Rightarrow> string \<Rightarrow> time \<Rightarrow> DB \<Rightarrow> DB" where
  "recordTransition findingID from to reason scanID at_time db =
     db\<lparr>db_history := db_history db @
       [\<lparr>h_Finding = findingID, h_From = from, h_To = to, h_Actor = ActorSystem, h_Reason = reason,
         h_Note = None, h_Scan = nullIfEmpty scanID, h_ChangedAt = at_time\<rparr>]\<rparr>"

text \<open>What \<open>ON CONFLICT (project_id, fingerprint) DO UPDATE\<close> sets.\<close>

definition refresh :: "Finding \<Rightarrow> time \<Rightarrow> FindingRow \<Rightarrow> FindingRow" where
  "refresh f at_time r =
     r\<lparr>fw_LastSeen := at_time,
       fw_Finding := (fw_Finding r)
         \<lparr>Sev := Sev f, Title := Title f, Description := Description f, Remediation := Remediation f,
          Threat := Threat f, FixInfo := FixInfo f, Image := Image f, Endpoint := Endpoint f,
          FStatus := (if FStatus (fw_Finding r) = StatusResolved then StatusReopened
                      else FStatus (fw_Finding r))\<rparr>\<rparr>"

definition same_key :: "string \<Rightarrow> string \<Rightarrow> FindingRow \<Rightarrow> bool" where
  "same_key projectID fp r = (fw_Project r = projectID \<and> Fingerprint (fw_Finding r) = fp)"

datatype store_error =
    UnknownFingerprint string | FindingNotFound | InvalidTransition | TransitionNotAllowed
  | AuditFailed audit_error | ConstraintViolated

text \<open>
  What the columns and constraints of the migrations accept of a proposed row: the enumerated types,
  \<open>findings_fingerprint_is_sha256\<close>, \<open>findings_title_not_blank\<close>, \<open>findings_cvss_range\<close>, the
  constraints of the image, the endpoint, the EPSS columns and the fix facts, and the lines of an
  occurrence. Postgres counts the length of a text in characters and its \<open>btrim\<close> removes blanks.
\<close>

definition pg_length :: "string \<Rightarrow> nat" where
  "pg_length s = length (filter (\<lambda>c. \<not> (digit7 c \<and> \<not> digit6 c)) s)"

definition blank_text :: "string \<Rightarrow> bool" where
  "blank_text s = list_all (\<lambda>c. c = CHR '' '') s"

definition is_sha256 :: "string \<Rightarrow> bool" where
  "is_sha256 s = (length s = 64 \<and> list_all (\<lambda>c. c \<in> set ''0123456789abcdef'') s)"

definition finding_checks :: "Finding \<Rightarrow> bool" where
  "finding_checks f =
     (is_sha256 (Fingerprint f) \<and> Severity_Valid (Sev f) \<and> Confidence_Valid (Conf f) \<and>
      \<not> blank_text (Title f) \<and> 0 \<le> CVSS f \<and> CVSS f \<le> 10 \<and>
      (Image f = [] \<or> \<not> blank_text (Image f) \<and> pg_length (Image f) \<le> 255) \<and>
      (Endpoint f = [] \<or> \<not> blank_text (Endpoint f) \<and> pg_length (Endpoint f) \<le> 2048) \<and>
      (case Threat_EPSS (Threat f) of
         None \<Rightarrow> True
       | Some e \<Rightarrow> 0 \<le> Probability e \<and> Probability e \<le> 1 \<and> 0 \<le> Percentile e \<and> Percentile e \<le> 1 \<and>
           \<not> blank_text (EPSS_Source e)) \<and>
      FixState_Valid (FixSt (FixInfo f)) \<and>
      (FixedVersions (FixInfo f) = [] \<or> FixSt (FixInfo f) = FixStateFixed \<or> FixSt (FixInfo f) = FixStateUnknown) \<and>
      (FixSt (FixInfo f) = FixStateFixed \<longrightarrow> FixedVersions (FixInfo f) \<noteq> []))"

definition occurrence_checks :: "Occurrence \<Rightarrow> bool" where
  "occurrence_checks x = (0 \<le> occ_StartLine x \<and> occ_StartLine x < 2147483648 \<and>
     0 \<le> occ_EndLine x \<and> occ_EndLine x < 2147483648)"

text \<open>The statement of \<open>upsertFinding\<close> where it succeeds, with the transition it records.\<close>

definition upsert_row :: "string \<Rightarrow> string \<Rightarrow> MergedFinding \<Rightarrow> time \<Rightarrow> DB \<Rightarrow> uuid \<times> DB" where
  "upsert_row projectID scanID f at_time db =
     (case List.find (same_key projectID (Fingerprint (merged f))) (db_findings db) of
        None \<Rightarrow>
          let i = db_next db;
              row = \<lparr>fw_ID = i, fw_Project = projectID,
                fw_Finding = (merged f)\<lparr>ProjectID := projectID, FStatus := StatusOpen\<rparr>,
                fw_FirstSeen = at_time, fw_LastSeen = at_time\<rparr>
          in (i, recordTransition i None StatusOpen ReasonFirstSeen scanID at_time
                (db\<lparr>db_findings := db_findings db @ [row], db_next := i + 1\<rparr>))
      | Some prev \<Rightarrow>
          let db' = db\<lparr>db_findings := map (\<lambda>r. if same_key projectID (Fingerprint (merged f)) r
                         then refresh (merged f) at_time r else r) (db_findings db)\<rparr>
          in (fw_ID prev,
              if FStatus (fw_Finding prev) = StatusResolved
              then recordTransition (fw_ID prev) (Some StatusResolved) StatusReopened ReasonReopened scanID at_time db'
              else db'))"

definition upsertFinding :: "string \<Rightarrow> string \<Rightarrow> MergedFinding \<Rightarrow> time \<Rightarrow> DB \<Rightarrow> store_error + uuid \<times> DB" where
  "upsertFinding projectID scanID f at_time db =
     (if \<not> finding_checks (merged f) \<or>
         list_ex (\<lambda>r. same_key projectID (Fingerprint (merged f)) r \<and> at_time < fw_FirstSeen r) (db_findings db)
      then Inl ConstraintViolated
      else Inr (upsert_row projectID scanID f at_time db))"

text \<open>
  \<open>ON CONFLICT (finding_id, scan_id, scanner, file, start_line) DO NOTHING\<close>: in SQL a null equals
  nothing, so an occurrence without a file or a line conflicts with none.
\<close>

definition occurrence_conflict :: "OccurrenceRow \<Rightarrow> OccurrenceRow \<Rightarrow> bool" where
  "occurrence_conflict a b =
     (oc_Finding a = oc_Finding b \<and> oc_Scan a = oc_Scan b \<and> oc_Scanner a = oc_Scanner b \<and>
      oc_File a \<noteq> None \<and> oc_File a = oc_File b \<and> oc_StartLine a \<noteq> None \<and> oc_StartLine a = oc_StartLine b)"

definition insert_row :: "uuid \<Rightarrow> string \<Rightarrow> Occurrence \<Rightarrow> DB \<Rightarrow> DB" where
  "insert_row findingID scanID o1 db =
     (let row = \<lparr>oc_Finding = findingID, oc_Scan = scanID, oc_Scanner = occ_Scanner o1,
        oc_File = nullIfEmpty (occ_File o1), oc_StartLine = nullIfZero (occ_StartLine o1),
        oc_EndLine = nullIfZero (occ_EndLine o1), oc_SeenAt = db_now db\<rparr>
      in if list_ex (occurrence_conflict row) (db_occurrences db) then db
         else db\<lparr>db_occurrences := db_occurrences db @ [row]\<rparr>)"

definition insertOccurrence :: "uuid \<Rightarrow> string \<Rightarrow> Occurrence \<Rightarrow> DB \<Rightarrow> store_error + DB" where
  "insertOccurrence findingID scanID o1 db =
     (if occurrence_checks o1 then Inr (insert_row findingID scanID o1 db) else Inl ConstraintViolated)"

text \<open>The most recent report of each finding from another scan: latest sighting, then latest scan.\<close>

definition later_report :: "DB \<Rightarrow> OccurrenceRow \<Rightarrow> OccurrenceRow \<Rightarrow> bool" where
  "later_report db a b =
     (oc_SeenAt b < oc_SeenAt a \<or> oc_SeenAt a = oc_SeenAt b \<and>
      (case (map_of (db_scans db) (oc_Scan a), map_of (db_scans db) (oc_Scan b)) of
         (Some sa, Some sb) \<Rightarrow> sw_CreatedAt sb < sw_CreatedAt sa | _ \<Rightarrow> False))"

definition last_report :: "DB \<Rightarrow> string \<Rightarrow> uuid \<Rightarrow> OccurrenceRow option" where
  "last_report db scanID i =
     foldl (\<lambda>best x. case best of None \<Rightarrow> Some x | Some b \<Rightarrow> Some (if later_report db x b then x else b)) None
       (filter (\<lambda>x. oc_Finding x = i \<and> oc_Scan x \<noteq> scanID \<and> map_of (db_scans db) (oc_Scan x) \<noteq> None)
         (db_occurrences db))"

definition findingsThisScanLookedAt :: "golib \<Rightarrow> string \<Rightarrow> string \<Rightarrow> string list \<Rightarrow> DB \<Rightarrow> bool \<times> uuid list" where
  "findingsThisScanLookedAt L projectID scanID completeScanners db =
     (case map_of (db_scans db) scanID of
        None \<Rightarrow> (False, [])
      | Some s \<Rightarrow>
          if t_Kind (sw_Target s) \<noteq> KindEndpoint then (False, [])
          else if t_EndpointURL (sw_Target s) = [] then (True, [])
          else case EndpointTargetPath L (t_EndpointURL (sw_Target s)) of
            None \<Rightarrow> (True, [])
          | Some current \<Rightarrow>
              (True, map fw_ID (filter (\<lambda>r.
                 fw_Project r = projectID \<and> Scanner (fw_Finding r) \<in> set completeScanners \<and>
                 (FStatus (fw_Finding r) = StatusOpen \<or> FStatus (fw_Finding r) = StatusReopened) \<and>
                 (case last_report db scanID (fw_ID r) of
                    None \<Rightarrow> False
                  | Some x \<Rightarrow> (case map_of (db_scans db) (oc_Scan x) of
                      None \<Rightarrow> False
                    | Some from \<Rightarrow> t_EndpointURL (sw_Target from) \<noteq> [] \<and>
                        EndpointTargetPath L (t_EndpointURL (sw_Target from)) = Some current)))
                 (db_findings db))))"

text \<open>The \<open>WHERE\<close> clause of the resolving update.\<close>

definition resolvable :: "string \<Rightarrow> string \<Rightarrow> string list \<Rightarrow> bool \<Rightarrow> uuid list \<Rightarrow> DB \<Rightarrow> FindingRow \<Rightarrow> bool" where
  "resolvable projectID scanID completeScanners limited eligible db r =
     (fw_Project r = projectID \<and> Scanner (fw_Finding r) \<in> set completeScanners \<and>
      (FStatus (fw_Finding r) = StatusOpen \<or> FStatus (fw_Finding r) = StatusReopened) \<and>
      \<not> list_ex (\<lambda>x. oc_Finding x = fw_ID r \<and> oc_Scan x = scanID) (db_occurrences db) \<and>
      \<not> list_ex (\<lambda>x. oc_Finding x = fw_ID r \<and> oc_Scanner x \<notin> set completeScanners) (db_occurrences db) \<and>
      (\<not> limited \<or> fw_ID r \<in> set eligible))"

definition set_status :: "Status \<Rightarrow> FindingRow \<Rightarrow> FindingRow" where
  "set_status s r = r\<lparr>fw_Finding := (fw_Finding r)\<lparr>FStatus := s\<rparr>\<rparr>"

definition resolveUnreported :: "golib \<Rightarrow> string \<Rightarrow> string \<Rightarrow> string list \<Rightarrow> time \<Rightarrow> DB \<Rightarrow> DB" where
  "resolveUnreported L projectID scanID completeScanners at_time db =
     (if length completeScanners = 0 then db
      else case findingsThisScanLookedAt L projectID scanID completeScanners db of (limited, eligible) \<Rightarrow>
        if limited \<and> length eligible = 0 then db
        else let P = resolvable projectID scanID completeScanners limited eligible db;
                 ids = map fw_ID (filter P (db_findings db))
             in foldl (\<lambda>db i. recordTransition i None StatusResolved ReasonNotReported scanID at_time db)
                  (db\<lparr>db_findings := map (\<lambda>r. if P r then set_status StatusResolved r else r) (db_findings db)\<rparr>) ids)"

fun upsert_all :: "string \<Rightarrow> string \<Rightarrow> time \<Rightarrow> MergedFinding list \<Rightarrow> (string \<times> uuid) list \<Rightarrow> DB \<Rightarrow>
    store_error + (string \<times> uuid) list \<times> DB" where
  "upsert_all projectID scanID at_time [] ids db = Inr (ids, db)"
| "upsert_all projectID scanID at_time (f # fs) ids db =
     (case upsertFinding projectID scanID f at_time db of
        Inl e \<Rightarrow> Inl e
      | Inr (i, db') \<Rightarrow> upsert_all projectID scanID at_time fs ((Fingerprint (merged f), i) # ids) db')"

fun insert_all :: "string \<Rightarrow> (string \<times> uuid) list \<Rightarrow> Occurrence list \<Rightarrow> DB \<Rightarrow> store_error + DB" where
  "insert_all scanID ids [] db = Inr db"
| "insert_all scanID ids (o1 # os) db =
     (case map_of ids (occ_Fingerprint o1) of
        None \<Rightarrow> Inl (UnknownFingerprint (occ_Fingerprint o1))
      | Some i \<Rightarrow>
          (case insertOccurrence i scanID o1 db of
             Inl e \<Rightarrow> Inl e
           | Inr db' \<Rightarrow> insert_all scanID ids os db'))"

definition RecordScan :: "golib \<Rightarrow> string \<Rightarrow> string \<Rightarrow> DedupResult \<Rightarrow> string list \<Rightarrow> time \<Rightarrow> DB \<Rightarrow> store_error + DB" where
  "RecordScan L projectID scanID result completeScanners at_time db =
     (case upsert_all projectID scanID at_time (dd_Findings result) [] db of
        Inl e \<Rightarrow> Inl e
      | Inr (ids, db1) \<Rightarrow>
          (case insert_all scanID ids (dd_Occurrences result) db1 of
             Inl e \<Rightarrow> Inl e
           | Inr db2 \<Rightarrow> Inr (resolveUnreported L projectID scanID completeScanners at_time db2)))"

section \<open>transition.go\<close>

abbreviation ReasonFalsePositive :: string where "ReasonFalsePositive \<equiv> ''false_positive''"
abbreviation ReasonAcceptedRisk :: string where "ReasonAcceptedRisk \<equiv> ''accepted_risk''"
abbreviation ReasonTriaged :: string where "ReasonTriaged \<equiv> ''triaged''"
abbreviation ReasonWorkStarted :: string where "ReasonWorkStarted \<equiv> ''work_started''"
abbreviation ReasonReinstated :: string where "ReasonReinstated \<equiv> ''reinstated''"

definition humanReasons :: "string list" where
  "humanReasons = [ReasonFalsePositive, ReasonAcceptedRisk, ReasonTriaged, ReasonWorkStarted, ReasonReinstated]"

abbreviation maxNoteLength :: nat where "maxNoteLength \<equiv> 2000"

definition humanSettable :: "Status \<Rightarrow> bool" where
  "humanSettable s = (s = StatusAcknowledged \<or> s = StatusInProgress \<or> s = StatusFalsePositive \<or>
     s = StatusIgnored \<or> s = StatusOpen)"

record TransitionRequest =
  tr_To :: Status
  tr_Reason :: string
  tr_Note :: string

definition TransitionRequest_Validate :: "TransitionRequest \<Rightarrow> store_error option" where
  "TransitionRequest_Validate r =
     (if \<not> Status_Valid (tr_To r) then Some InvalidTransition
      else if \<not> humanSettable (tr_To r) then Some TransitionNotAllowed
      else if tr_Reason r \<notin> set humanReasons then Some InvalidTransition
      else if length (tr_Note r) > maxNoteLength then Some InvalidTransition
      else None)"

record TransitionRecord =
  tx_FindingID :: uuid
  tx_From :: Status
  tx_To :: Status
  tx_Actor :: string
  tx_Reason :: string
  tx_Note :: string
  tx_ChangedAt :: time

text \<open>The clock reading is an argument.\<close>

definition Transition_finding :: "uuid \<Rightarrow> TransitionRequest \<Rightarrow> Actor \<Rightarrow> time \<Rightarrow> DB \<Rightarrow> store_error + TransitionRecord \<times> DB" where
  "Transition_finding findingID req actor at_time db =
     (case TransitionRequest_Validate req of
        Some e \<Rightarrow> Inl e
      | None \<Rightarrow>
          (case List.find (\<lambda>r. fw_ID r = findingID) (db_findings db) of
             None \<Rightarrow> Inl FindingNotFound
           | Some r \<Rightarrow>
               let from = FStatus (fw_Finding r) in
               if from = tr_To req then Inl InvalidTransition
               else
                 let row = \<lparr>h_Finding = findingID, h_From = Some from, h_To = tr_To req,
                       h_Actor = ac_Label actor, h_Reason = tr_Reason req,
                       h_Note = nullIfEmpty (TrimSpace (tr_Note req)), h_Scan = None, h_ChangedAt = at_time\<rparr>;
                     db1 = db\<lparr>db_findings := map (\<lambda>r. if fw_ID r = findingID then set_status (tr_To req) r else r)
                                (db_findings db)\<rparr>;
                     db2 = db1\<lparr>db_history := db_history db1 @ [row]\<rparr>
                 in case audit_Write (db_projects db2) (db_now db2) \<lparr>e_Actor = actor, e_Action = ''finding.status_change'',
                        e_ResourceType = ''finding'', e_ResourceID = findingID, e_ProjectID = fw_Project r,
                        e_Before = Some [(''status'', from)],
                        e_After = Some [(''status'', tr_To req), (''reason'', tr_Reason req), (''note'', tr_Note req)],
                        e_OccurredAt = at_time\<rparr> of
                      Inl e \<Rightarrow> Inl (AuditFailed e)
                    | Inr entry \<Rightarrow>
                        Inr (\<lparr>tx_FindingID = findingID, tx_From = from, tx_To = tr_To req, tx_Actor = ac_Label actor,
                          tx_Reason = tr_Reason req, tx_Note = tr_Note req, tx_ChangedAt = at_time\<rparr>,
                          db2\<lparr>db_audit := db_audit db2 @ [entry]\<rparr>)))"

definition ProjectOf :: "uuid \<Rightarrow> DB \<Rightarrow> store_error + string" where
  "ProjectOf findingID db =
     (case List.find (\<lambda>r. fw_ID r = findingID) (db_findings db) of
        None \<Rightarrow> Inl FindingNotFound | Some r \<Rightarrow> Inr (fw_Project r))"

section \<open>Specification vocabulary\<close>

text \<open>What no operation changes of a finding.\<close>

definition row_key :: "FindingRow \<Rightarrow> uuid \<times> string \<times> string \<times> string \<times> time" where
  "row_key r = (fw_ID r, fw_Project r, Fingerprint (fw_Finding r), Scanner (fw_Finding r), fw_FirstSeen r)"

definition row_status :: "FindingRow \<Rightarrow> Status" where
  "row_status r = FStatus (fw_Finding r)"

definition status_changes :: "HistoryRow list \<Rightarrow> uuid \<Rightarrow> Status option" where
  "status_changes hs = map_of (rev (map (\<lambda>h. (h_Finding h, h_To h)) hs))"

definition store_ok :: "DB \<Rightarrow> bool" where
  "store_ok db \<longleftrightarrow>
     distinct (map fw_ID (db_findings db)) \<and> (\<forall>r \<in> set (db_findings db). fw_ID r < db_next db) \<and>
     distinct (map (\<lambda>r. (fw_Project r, Fingerprint (fw_Finding r))) (db_findings db)) \<and>
     (\<forall>x \<in> set (db_occurrences db). oc_Finding x \<in> set (map fw_ID (db_findings db))) \<and>
     (\<forall>r \<in> set (db_findings db). status_changes (db_history db) (fw_ID r) = Some (row_status r) \<and>
        Status_Valid (row_status r)) \<and>
     (\<forall>h \<in> set (db_history db). h_From h \<noteq> Some (h_To h) \<and> h_Finding h < db_next db)"

text \<open>The two ways the table of findings changes.\<close>

inductive store_step :: "golib \<Rightarrow> DB \<Rightarrow> DB \<Rightarrow> bool" for L where
  scanned: "RecordScan L projectID scanID result completeScanners at_time db = Inr db' \<Longrightarrow> store_step L db db'"
| judged: "Transition_finding findingID req actor at_time db = Inr (rec, db') \<Longrightarrow> store_step L db db'"

inductive_cases store_stepE: "store_step L db db'"

text \<open>The findings a scan is entitled to resolve.\<close>

definition entitled :: "golib \<Rightarrow> string \<Rightarrow> string \<Rightarrow> string list \<Rightarrow> DB \<Rightarrow> FindingRow \<Rightarrow> bool" where
  "entitled L projectID scanID completeScanners db r =
     (case findingsThisScanLookedAt L projectID scanID completeScanners db of
        (limited, eligible) \<Rightarrow> resolvable projectID scanID completeScanners limited eligible db r)"

definition endpoint_scan :: "DB \<Rightarrow> string \<Rightarrow> bool" where
  "endpoint_scan db scanID =
     (case map_of (db_scans db) scanID of None \<Rightarrow> False | Some s \<Rightarrow> t_Kind (sw_Target s) = KindEndpoint)"

text \<open>The path a website scan looked at, when it has one.\<close>

definition scan_path :: "golib \<Rightarrow> DB \<Rightarrow> string \<Rightarrow> string option" where
  "scan_path L db scanID =
     (case map_of (db_scans db) scanID of None \<Rightarrow> None
      | Some s \<Rightarrow> EndpointTargetPath L (t_EndpointURL (sw_Target s)))"

definition seen_status :: "Status \<Rightarrow> Status" where
  "seen_status s = (if s = StatusResolved then StatusReopened else s)"

definition human_status :: "Status \<Rightarrow> bool" where
  "human_status s = (s = StatusAcknowledged \<or> s = StatusInProgress \<or> s = StatusFalsePositive \<or> s = StatusIgnored)"

definition empty_db :: "(string \<times> ScanRow) list \<Rightarrow> DB" where
  "empty_db scans = \<lparr>db_findings = [], db_occurrences = [], db_history = [], db_scans = scans, db_projects = [],
     db_audit = [], db_next = 0, db_now = 0\<rparr>"

definition sample_fp :: string where
  "sample_fp = replicate 64 (CHR ''f'')"

definition sample_finding :: "string \<Rightarrow> string \<Rightarrow> Finding" where
  "sample_finding fp sc = zero_Finding\<lparr>Fingerprint := fp, Scanner := sc, Category := CategorySAST,
     Sev := SeverityHigh, Conf := ConfidenceHigh, Title := ''finding''\<rparr>"

definition sample_report :: "string \<Rightarrow> string \<Rightarrow> string \<Rightarrow> DedupResult" where
  "sample_report fp sc scan = \<lparr>dd_Findings = [\<lparr>merged = sample_finding fp sc, Sources = [sc]\<rparr>],
     dd_Occurrences = [\<lparr>occ_Fingerprint = fp, occ_ScanID = scan, occ_File = [], occ_StartLine = 0, occ_EndLine = 0,
       occ_Scanner = sc, occ_SeenAt = 0\<rparr>], dd_Errors = []\<rparr>"

text \<open>A database in which one scan reported one finding, and the same after a scan that did not.\<close>

definition no_report :: DedupResult where
  "no_report = \<lparr>dd_Findings = [], dd_Occurrences = [], dd_Errors = []\<rparr>"

definition sample_db :: DB where
  "sample_db = projr (RecordScan sample_lib ''p'' ''s1'' (sample_report sample_fp ''trivy'' ''s1'') [''trivy''] 5 (empty_db []))"

definition sample_row :: FindingRow where
  "sample_row = hd (db_findings sample_db)"

definition sample_db2 :: DB where
  "sample_db2 = projr (RecordScan sample_lib ''p'' ''s2'' no_report [''trivy''] 9 sample_db)"

definition sample_verdict :: TransitionRequest where
  "sample_verdict = \<lparr>tr_To = StatusFalsePositive, tr_Reason = ReasonFalsePositive, tr_Note = ''test code''\<rparr>"

section \<open>Updating rows\<close>

lemma status_changes_append:
  "status_changes (hs @ hs') i = (case status_changes hs' i of Some s \<Rightarrow> Some s | None \<Rightarrow> status_changes hs i)"
  by (cases "status_changes hs' i") (simp_all add: status_changes_def map_add_def)

lemma status_changes_one [simp]:
  "status_changes [] i = None" "status_changes [h] i = (if i = h_Finding h then Some (h_To h) else None)"
  by (simp_all add: status_changes_def)

lemma status_changes_const:
  "(\<And>h. h \<in> set hs \<Longrightarrow> h_To h = s) \<Longrightarrow>
   status_changes hs i = (if i \<in> h_Finding ` set hs then Some s else None)"
  by (induction hs rule: rev_induct) (auto simp: status_changes_append)

lemma store_ok_update:
  assumes ok: "store_ok db" and rows: "db_findings db' = map g (db_findings db)"
    and key: "\<And>r. row_key (g r) = row_key r"
    and hist: "db_history db' = db_history db @ hs"
    and status: "\<And>r. r \<in> set (db_findings db) \<Longrightarrow> row_status (g r) =
        (case status_changes hs (fw_ID r) of Some s \<Rightarrow> s | None \<Rightarrow> row_status r)"
    and valid: "\<And>h. h \<in> set hs \<Longrightarrow> Status_Valid (h_To h) \<and> h_From h \<noteq> Some (h_To h) \<and> h_Finding h < db_next db"
    and rest: "db_occurrences db' = db_occurrences db" "db_next db' = db_next db"
  shows "store_ok db'"
proof -
  have k: "fw_ID (g r) = fw_ID r" "fw_Project (g r) = fw_Project r"
    "Fingerprint (fw_Finding (g r)) = Fingerprint (fw_Finding r)" for r
    using key [of r] by (simp_all add: row_key_def)
  have v: "Status_Valid (row_status (g r)) \<and>
      status_changes (db_history db') (fw_ID r) = Some (row_status (g r))" if r: "r \<in> set (db_findings db)" for r
  proof (cases "status_changes hs (fw_ID r)")
    case None
    then show ?thesis using ok r status [OF r] by (simp add: store_ok_def hist status_changes_append)
  next
    case (Some s)
    then obtain h where "h \<in> set hs" "h_To h = s"
      unfolding status_changes_def by (auto dest!: map_of_SomeD)
    then show ?thesis using Some status [OF r] valid by (auto simp: hist status_changes_append)
  qed
  have m: "map fw_ID (db_findings db') = map fw_ID (db_findings db)"
    "map (\<lambda>r. (fw_Project r, Fingerprint (fw_Finding r))) (db_findings db') =
     map (\<lambda>r. (fw_Project r, Fingerprint (fw_Finding r))) (db_findings db)"
    by (simp_all add: rows k)
  show ?thesis unfolding store_ok_def m rest
    using ok v valid by (auto simp: store_ok_def rows hist k)
qed

lemma foldl_recordTransition:
  "foldl (\<lambda>db i. recordTransition i from to reason scanID at_time db) db ids =
     db\<lparr>db_history := db_history db @ map (\<lambda>i. \<lparr>h_Finding = i, h_From = from, h_To = to, h_Actor = ActorSystem,
       h_Reason = reason, h_Note = None, h_Scan = nullIfEmpty scanID, h_ChangedAt = at_time\<rparr>) ids\<rparr>"
  by (induction ids arbitrary: db) (simp_all add: recordTransition_def)

lemma row_key_simps [simp]:
  "row_key (set_status s r) = row_key r" "row_key (refresh f t r) = row_key r"
  "row_status (set_status s r) = s"
  "row_status (refresh f t r) = (if row_status r = StatusResolved then StatusReopened else row_status r)"
  by (simp_all add: row_key_def set_status_def refresh_def row_status_def)

lemma Status_Valid_simps [simp]:
  "Status_Valid StatusOpen" "Status_Valid StatusResolved" "Status_Valid StatusReopened"
  by (simp_all add: Status_Valid_def)

lemma same_key_unique:
  "store_ok db \<Longrightarrow> r \<in> set (db_findings db) \<Longrightarrow> r' \<in> set (db_findings db) \<Longrightarrow>
   same_key p fp r \<Longrightarrow> same_key p fp r' \<Longrightarrow> r = r'"
  by (auto simp: store_ok_def same_key_def distinct_map dest!: inj_onD)

lemma id_unique:
  "store_ok db \<Longrightarrow> r \<in> set (db_findings db) \<Longrightarrow> r' \<in> set (db_findings db) \<Longrightarrow> fw_ID r = fw_ID r' \<Longrightarrow> r = r'"
  by (auto simp: store_ok_def distinct_map dest!: inj_onD)

section \<open>The steps of RecordScan\<close>

text \<open>What an upsert does to the rows: the reported one comes back if it was resolved.\<close>

lemma upsert_None:
  assumes "store_ok db" "List.find (same_key p (Fingerprint (merged f))) (db_findings db) = None"
  shows "store_ok (snd (upsert_row p scan f t db))"
proof -
  have new: "\<forall>r \<in> set (db_findings db). \<not> same_key p (Fingerprint (merged f)) r"
    using assms(2) by (auto simp: find_None_iff)
  have ids: "db_next db \<notin> set (map fw_ID (db_findings db))" using assms(1) by (auto simp: store_ok_def)
  have "status_changes (db_history db) (db_next db) = None"
  proof (rule ccontr)
    assume "status_changes (db_history db) (db_next db) \<noteq> None"
    then obtain h where "h \<in> set (db_history db)" "h_Finding h = db_next db"
      unfolding status_changes_def by (auto dest!: map_of_SomeD)
    then show False using assms(1) by (auto simp: store_ok_def)
  qed
  with assms(1) new ids show ?thesis
    unfolding upsert_row_def assms(2)
    by (auto simp: store_ok_def recordTransition_def Let_def status_changes_append same_key_def
        row_status_def less_Suc_eq)
qed

lemma upsert_Some:
  assumes "store_ok db" "List.find (same_key p (Fingerprint (merged f))) (db_findings db) = Some prev"
  shows "store_ok (snd (upsert_row p scan f t db))"
proof -
  have prev: "prev \<in> set (db_findings db)" "same_key p (Fingerprint (merged f)) prev"
    using assms(2) by (auto simp: find_Some_iff)
  define hs where "hs = (if FStatus (fw_Finding prev) = StatusResolved then
    [\<lparr>h_Finding = fw_ID prev, h_From = Some StatusResolved, h_To = StatusReopened, h_Actor = ActorSystem,
      h_Reason = ReasonReopened, h_Note = None, h_Scan = nullIfEmpty scan, h_ChangedAt = t\<rparr>] else [])"
  show ?thesis
  proof (rule store_ok_update [OF assms(1), where hs = hs and
        g = "\<lambda>r. if same_key p (Fingerprint (merged f)) r then refresh (merged f) t r else r"])
    fix r assume r: "r \<in> set (db_findings db)"
    have "fw_ID r = fw_ID prev \<longleftrightarrow> same_key p (Fingerprint (merged f)) r"
      using id_unique [OF assms(1) r prev(1)] same_key_unique [OF assms(1) r prev(1) _ prev(2)] prev(2) by blast
    then show "row_status (if same_key p (Fingerprint (merged f)) r then refresh (merged f) t r else r) =
        (case status_changes hs (fw_ID r) of Some s \<Rightarrow> s | None \<Rightarrow> row_status r)"
      using same_key_unique [OF assms(1) r prev(1) _ prev(2)] by (auto simp: hs_def row_status_def refresh_def)
  qed (use assms prev in \<open>auto simp: upsert_row_def recordTransition_def Let_def hs_def store_ok_def\<close>)
qed

lemma upsert_ok: "store_ok db \<Longrightarrow> store_ok (snd (upsert_row p scan f t db))"
  using upsert_None upsert_Some by (cases "List.find (same_key p (Fingerprint (merged f))) (db_findings db)") auto

text \<open>The row of a finding after its upsert, and what becomes of any other.\<close>

lemma upsert_reported:
  assumes "store_ok db" "upsert_row p scan f t db = (i, db')"
  shows "\<exists>r \<in> set (db_findings db'). same_key p (Fingerprint (merged f)) r \<and> fw_ID r = i \<and> row_status r \<noteq> StatusResolved"
proof (cases "List.find (same_key p (Fingerprint (merged f))) (db_findings db)")
  case None
  then show ?thesis
    using assms(2) by (auto simp: upsert_row_def Let_def recordTransition_def same_key_def row_status_def)
next
  case (Some prev)
  then have prev: "prev \<in> set (db_findings db)" "same_key p (Fingerprint (merged f)) prev"
    by (auto simp: find_Some_iff)
  have "refresh (merged f) t prev \<in> set (db_findings db') \<and> i = fw_ID prev"
    using assms(2) Some prev by (force simp: upsert_row_def Let_def recordTransition_def split: if_splits)
  moreover have "same_key p (Fingerprint (merged f)) (refresh (merged f) t prev)" "fw_ID (refresh (merged f) t prev) = fw_ID prev"
    using prev(2) by (simp_all add: same_key_def refresh_def)
  ultimately show ?thesis by (intro bexI [of _ "refresh (merged f) t prev"]) auto
qed

lemma upsert_old:
  assumes "r \<in> set (db_findings db)"
  shows "\<exists>r' \<in> set (db_findings (snd (upsert_row p scan f t db))). row_key r' = row_key r \<and>
    row_status r' = (if same_key p (Fingerprint (merged f)) r then seen_status (row_status r) else row_status r)"
proof (cases "List.find (same_key p (Fingerprint (merged f))) (db_findings db)")
  case None
  then have "\<not> same_key p (Fingerprint (merged f)) r" using assms by (simp add: find_None_iff)
  moreover have "r \<in> set (db_findings (snd (upsert_row p scan f t db)))"
    using assms by (simp add: upsert_row_def None Let_def recordTransition_def)
  ultimately show ?thesis by (intro bexI [of _ r]) simp_all
next
  case (Some prev)
  let ?g = "\<lambda>r. if same_key p (Fingerprint (merged f)) r then refresh (merged f) t r else r"
  have "db_findings (snd (upsert_row p scan f t db)) = map ?g (db_findings db)"
    by (simp add: upsert_row_def Some Let_def recordTransition_def)
  then have "?g r \<in> set (db_findings (snd (upsert_row p scan f t db)))" using assms by auto
  then show ?thesis by (rule bexI [rotated]) (simp add: seen_status_def)
qed

lemma upsert_others:
  "db_occurrences (snd (upsert_row p scan f t db)) = db_occurrences db \<and>
   db_scans (snd (upsert_row p scan f t db)) = db_scans db"
  by (auto simp: upsert_row_def Let_def recordTransition_def split: option.split)

lemma row_key_same: "row_key r' = row_key r \<Longrightarrow> same_key p fp r' = same_key p fp r \<and> fw_ID r' = fw_ID r"
  by (auto simp: row_key_def same_key_def)

lemma seen_status_idem [simp]: "seen_status (seen_status s) = seen_status s"
  by (simp add: seen_status_def)

lemma seen_human: "human_status s \<Longrightarrow> seen_status s = s"
  by (auto simp: human_status_def seen_status_def)

lemma human_not_open: "human_status s \<Longrightarrow> s \<noteq> StatusOpen \<and> s \<noteq> StatusReopened"
  by (auto simp: human_status_def)

lemma upsert_all_spec:
  assumes "store_ok db" "upsert_all p scan t fs ids db = Inr (ids', db')"
  shows "store_ok db' \<and> db_occurrences db' = db_occurrences db \<and> db_scans db' = db_scans db \<and>
    (\<forall>r \<in> set (db_findings db). \<exists>r' \<in> set (db_findings db'). row_key r' = row_key r \<and>
       row_status r' = (if \<exists>f \<in> set fs. same_key p (Fingerprint (merged f)) r
         then seen_status (row_status r) else row_status r))"
  using assms
proof (induction fs arbitrary: ids db)
  case Nil
  then show ?case by (auto intro: bexI)
next
  case (Cons f fs)
  obtain i db1 where u: "upsert_row p scan f t db = (i, db1)" by (cases "upsert_row p scan f t db")
  have ok1: "store_ok db1" using upsert_ok [OF Cons.prems(1), of p scan f t] u by simp
  have rest: "upsert_all p scan t fs ((Fingerprint (merged f), i) # ids) db1 = Inr (ids', db')"
    using Cons.prems(2) u by (simp add: upsertFinding_def split: if_splits)
  note IH = Cons.IH [OF ok1 rest]
  have "\<exists>r' \<in> set (db_findings db'). row_key r' = row_key r \<and>
       row_status r' = (if \<exists>f \<in> set (f # fs). same_key p (Fingerprint (merged f)) r
         then seen_status (row_status r) else row_status r)" if r: "r \<in> set (db_findings db)" for r
  proof -
    obtain r1 where r1: "r1 \<in> set (db_findings db1)" "row_key r1 = row_key r"
      "row_status r1 = (if same_key p (Fingerprint (merged f)) r then seen_status (row_status r) else row_status r)"
      using upsert_old [OF r, of p scan f t] u by auto
    obtain r' where r': "r' \<in> set (db_findings db')" "row_key r' = row_key r1"
      "row_status r' = (if \<exists>f \<in> set fs. same_key p (Fingerprint (merged f)) r1
         then seen_status (row_status r1) else row_status r1)"
      using IH r1(1) by blast
    have "same_key p fp r1 = same_key p fp r" for fp using row_key_same [OF r1(2)] by blast
    with r' r1(2,3) show ?thesis by (intro bexI [OF _ r'(1)]) auto
  qed
  with IH upsert_others [of p scan f t db] u show ?case by auto
qed

text \<open>The map from fingerprints to identifiers names the reported rows.\<close>

lemma upsert_all_ids:
  assumes "store_ok db" "upsert_all p scan t fs ids db = Inr (ids', db')"
    and "\<forall>fp i. map_of ids fp = Some i \<longrightarrow> (\<exists>r \<in> set (db_findings db). same_key p fp r \<and> fw_ID r = i \<and> row_status r \<noteq> StatusResolved)"
  shows "(\<forall>fp i. map_of ids' fp = Some i \<longrightarrow>
      (\<exists>r \<in> set (db_findings db'). same_key p fp r \<and> fw_ID r = i \<and> row_status r \<noteq> StatusResolved)) \<and>
    dom (map_of ids') = dom (map_of ids) \<union> (\<lambda>f. Fingerprint (merged f)) ` set fs"
  using assms
proof (induction fs arbitrary: ids db)
  case (Cons f fs)
  obtain i db1 where u: "upsert_row p scan f t db = (i, db1)" by (cases "upsert_row p scan f t db")
  have ok1: "store_ok db1" using upsert_ok [OF Cons.prems(1), of p scan f t] u by simp
  have rest: "upsert_all p scan t fs ((Fingerprint (merged f), i) # ids) db1 = Inr (ids', db')"
    using Cons.prems(2) u by (simp add: upsertFinding_def split: if_splits)
  have "\<exists>r \<in> set (db_findings db1). same_key p fp r \<and> fw_ID r = j \<and> row_status r \<noteq> StatusResolved"
    if m: "map_of ((Fingerprint (merged f), i) # ids) fp = Some j" for fp j
  proof (cases "fp = Fingerprint (merged f)")
    case True
    with m upsert_reported [OF Cons.prems(1) u] show ?thesis by simp
  next
    case False
    then obtain r where r: "r \<in> set (db_findings db)" "same_key p fp r" "fw_ID r = j" "row_status r \<noteq> StatusResolved"
      using m Cons.prems(3) by auto
    obtain r1 where "r1 \<in> set (db_findings db1)" "row_key r1 = row_key r"
      "row_status r1 = (if same_key p (Fingerprint (merged f)) r then seen_status (row_status r) else row_status r)"
      using upsert_old [OF r(1), of p scan f t] u by auto
    with r row_key_same [of r1 r p fp] show ?thesis by (intro bexI [of _ r1]) (auto simp: seen_status_def)
  qed
  with Cons.IH [OF ok1 rest] show ?case by auto
qed simp

lemma insert_row_props:
  "db_findings (insert_row i scan x db) = db_findings db"
  "db_history (insert_row i scan x db) = db_history db"
  "db_next (insert_row i scan x db) = db_next db"
  "db_scans (insert_row i scan x db) = db_scans db"
  "\<exists>y \<in> set (db_occurrences (insert_row i scan x db)). oc_Finding y = i \<and> oc_Scan y = scan \<and> oc_Scanner y = occ_Scanner x"
  "set (db_occurrences db) \<subseteq> set (db_occurrences (insert_row i scan x db))"
  "y \<in> set (db_occurrences (insert_row i scan x db)) \<Longrightarrow> y \<in> set (db_occurrences db) \<or> oc_Finding y = i \<and> oc_Scan y = scan"
  by (auto simp: insert_row_def Let_def list_ex_iff occurrence_conflict_def split: if_splits)

lemma insert_all_spec:
  assumes "insert_all scan ids os db = Inr db'"
  shows "db_findings db' = db_findings db \<and> db_history db' = db_history db \<and> db_next db' = db_next db \<and>
    db_scans db' = db_scans db \<and> set (db_occurrences db) \<subseteq> set (db_occurrences db') \<and>
    (\<forall>x \<in> set os. \<exists>i y. map_of ids (occ_Fingerprint x) = Some i \<and> y \<in> set (db_occurrences db') \<and>
       oc_Finding y = i \<and> oc_Scan y = scan) \<and>
    (\<forall>y \<in> set (db_occurrences db'). y \<in> set (db_occurrences db) \<or>
       oc_Scan y = scan \<and> (\<exists>x \<in> set os. map_of ids (occ_Fingerprint x) = Some (oc_Finding y)))"
  using assms
proof (induction os arbitrary: db)
  case (Cons x os)
  obtain i where i: "map_of ids (occ_Fingerprint x) = Some i" "insert_all scan ids os (insert_row i scan x db) = Inr db'"
    using Cons.prems by (auto simp: insertOccurrence_def split: option.splits if_splits)
  note IH = Cons.IH [OF i(2)] and p = insert_row_props [where i = i and scan = scan and x = x and db = db]
  obtain y where y: "y \<in> set (db_occurrences (insert_row i scan x db))" "oc_Finding y = i" "oc_Scan y = scan"
    using p(5) by blast
  then have "y \<in> set (db_occurrences db')" using IH by blast
  with i(1) y(2,3) have "\<exists>i y. map_of ids (occ_Fingerprint x) = Some i \<and> y \<in> set (db_occurrences db') \<and>
      oc_Finding y = i \<and> oc_Scan y = scan" by blast
  moreover have "\<forall>y \<in> set (db_occurrences db'). y \<in> set (db_occurrences db) \<or>
      oc_Scan y = scan \<and> (\<exists>x \<in> set (x # os). map_of ids (occ_Fingerprint x) = Some (oc_Finding y))"
  proof
    fix y assume "y \<in> set (db_occurrences db')"
    then consider "y \<in> set (db_occurrences (insert_row i scan x db))"
      | "oc_Scan y = scan" "\<exists>x \<in> set os. map_of ids (occ_Fingerprint x) = Some (oc_Finding y)"
      using IH by blast
    then show "y \<in> set (db_occurrences db) \<or>
        oc_Scan y = scan \<and> (\<exists>x \<in> set (x # os). map_of ids (occ_Fingerprint x) = Some (oc_Finding y))"
      by cases (use i(1) in \<open>auto dest: insert_row_props(7)\<close>)
  qed
  ultimately show ?case using IH p by auto
qed simp

lemma insert_all_ok:
  assumes "store_ok db" "insert_all scan ids os db = Inr db'"
    and "\<And>fp i. map_of ids fp = Some i \<Longrightarrow> \<exists>r \<in> set (db_findings db). fw_ID r = i"
  shows "store_ok db'"
proof -
  note sp = insert_all_spec [OF assms(2)]
  have "oc_Finding y \<in> set (map fw_ID (db_findings db))" if y: "y \<in> set (db_occurrences db')" for y
  proof -
    consider "y \<in> set (db_occurrences db)" | x :: Occurrence where "map_of ids (occ_Fingerprint x) = Some (oc_Finding y)"
      using sp y by blast
    then show ?thesis
    proof cases
      case 1
      then show ?thesis using assms(1) unfolding store_ok_def by blast
    next
      case (2 x)
      from assms(3) [OF 2] show ?thesis by (metis image_eqI list.set_map)
    qed
  qed
  with sp assms(1) show ?thesis unfolding store_ok_def by simp
qed

section \<open>Resolving\<close>

lemma resolve_rows:
  "db_findings (resolveUnreported L p scan cs t db) =
     map (\<lambda>r. if entitled L p scan cs db r then set_status StatusResolved r else r) (db_findings db)"
  "db_history (resolveUnreported L p scan cs t db) = db_history db @
     map (\<lambda>i. \<lparr>h_Finding = i, h_From = None, h_To = StatusResolved, h_Actor = ActorSystem,
       h_Reason = ReasonNotReported, h_Note = None, h_Scan = nullIfEmpty scan, h_ChangedAt = t\<rparr>)
       (map fw_ID (filter (entitled L p scan cs db) (db_findings db)))"
  "db_occurrences (resolveUnreported L p scan cs t db) = db_occurrences db"
  "db_scans (resolveUnreported L p scan cs t db) = db_scans db"
  "db_next (resolveUnreported L p scan cs t db) = db_next db"
proof -
  obtain lim el where f: "findingsThisScanLookedAt L p scan cs db = (lim, el)"
    by (cases "findingsThisScanLookedAt L p scan cs db")
  have e: "entitled L p scan cs db = resolvable p scan cs lim el db" by (rule ext) (simp add: entitled_def f)
  have none: "cs = [] \<or> lim \<and> el = [] \<Longrightarrow> \<not> entitled L p scan cs db r" for r
    unfolding e by (auto simp: resolvable_def)
  show "db_findings (resolveUnreported L p scan cs t db) =
      map (\<lambda>r. if entitled L p scan cs db r then set_status StatusResolved r else r) (db_findings db)"
    "db_history (resolveUnreported L p scan cs t db) = db_history db @
     map (\<lambda>i. \<lparr>h_Finding = i, h_From = None, h_To = StatusResolved, h_Actor = ActorSystem,
       h_Reason = ReasonNotReported, h_Note = None, h_Scan = nullIfEmpty scan, h_ChangedAt = t\<rparr>)
       (map fw_ID (filter (entitled L p scan cs db) (db_findings db)))"
    "db_occurrences (resolveUnreported L p scan cs t db) = db_occurrences db"
    "db_scans (resolveUnreported L p scan cs t db) = db_scans db"
    "db_next (resolveUnreported L p scan cs t db) = db_next db"
    using none by (auto simp: resolveUnreported_def f foldl_recordTransition Let_def e map_idI
        filter_empty_conv)
qed

lemma entitled_facts:
  assumes "entitled L p scan cs db r"
  shows "fw_Project r = p" "Scanner (fw_Finding r) \<in> set cs"
    "row_status r = StatusOpen \<or> row_status r = StatusReopened"
    "\<forall>x \<in> set (db_occurrences db). oc_Finding x = fw_ID r \<longrightarrow> oc_Scan x \<noteq> scan \<and> oc_Scanner x \<in> set cs"
  using assms by (auto simp: entitled_def resolvable_def list_ex_iff row_status_def split: prod.splits)

lemma entitled_endpoint:
  assumes "entitled L p scan cs db r" "endpoint_scan db scan" "store_ok db" "r \<in> set (db_findings db)"
  shows "\<exists>x path. last_report db scan (fw_ID r) = Some x \<and> scan_path L db (oc_Scan x) = Some path \<and>
    scan_path L db scan = Some path"
proof -
  obtain s where s: "map_of (db_scans db) scan = Some s" "t_Kind (sw_Target s) = KindEndpoint"
    using assms(2) by (auto simp: endpoint_scan_def split: option.splits)
  obtain lim el where f: "findingsThisScanLookedAt L p scan cs db = (lim, el)"
    by (cases "findingsThisScanLookedAt L p scan cs db")
  have lim: lim using f s by (auto simp: findingsThisScanLookedAt_def split: if_splits option.splits)
  then have "fw_ID r \<in> set el" using assms(1) f by (simp add: entitled_def resolvable_def)
  moreover obtain current where c: "EndpointTargetPath L (t_EndpointURL (sw_Target s)) = Some current"
    using f s calculation by (auto simp: findingsThisScanLookedAt_def split: if_splits option.splits)
  ultimately obtain r' where r': "r' \<in> set (db_findings db)" "fw_ID r' = fw_ID r"
    "case last_report db scan (fw_ID r') of None \<Rightarrow> False
     | Some x \<Rightarrow> (case map_of (db_scans db) (oc_Scan x) of None \<Rightarrow> False
         | Some from \<Rightarrow> t_EndpointURL (sw_Target from) \<noteq> [] \<and>
             EndpointTargetPath L (t_EndpointURL (sw_Target from)) = Some current)"
    using f s by (auto simp: findingsThisScanLookedAt_def split: if_splits)
  then show ?thesis using c s by (auto simp: scan_path_def split: option.splits)
qed

lemma resolve_ok: "store_ok db \<Longrightarrow> store_ok (resolveUnreported L p scan cs t db)"
proof (rule store_ok_update [where g = "\<lambda>r. if entitled L p scan cs db r then set_status StatusResolved r else r"
      and hs = "map (\<lambda>i. \<lparr>h_Finding = i, h_From = None, h_To = StatusResolved, h_Actor = ActorSystem,
       h_Reason = ReasonNotReported, h_Note = None, h_Scan = nullIfEmpty scan, h_ChangedAt = t\<rparr>)
       (map fw_ID (filter (entitled L p scan cs db) (db_findings db)))"])
  fix r assume ok: "store_ok db" and r: "r \<in> set (db_findings db)"
  let ?hs = "map (\<lambda>i. \<lparr>h_Finding = i, h_From = None, h_To = StatusResolved, h_Actor = ActorSystem,
       h_Reason = ReasonNotReported, h_Note = None, h_Scan = nullIfEmpty scan, h_ChangedAt = t\<rparr>)
       (map fw_ID (filter (entitled L p scan cs db) (db_findings db)))"
  have "status_changes ?hs (fw_ID r) = (if fw_ID r \<in> h_Finding ` set ?hs then Some StatusResolved else None)"
    by (rule status_changes_const) auto
  moreover have "fw_ID r \<in> h_Finding ` set ?hs \<longleftrightarrow> entitled L p scan cs db r"
    using id_unique [OF ok r] r by (force simp: image_iff)
  ultimately show "row_status (if entitled L p scan cs db r then set_status StatusResolved r else r) =
      (case status_changes ?hs (fw_ID r) of Some s \<Rightarrow> s | None \<Rightarrow> row_status r)"
    by simp
qed (auto simp: resolve_rows store_ok_def)

lemma RecordScan_parts:
  assumes "store_ok db" "RecordScan L p scan result cs t db = Inr db'"
  obtains ids db1 db2 where "upsert_all p scan t (dd_Findings result) [] db = Inr (ids, db1)"
    "insert_all scan ids (dd_Occurrences result) db1 = Inr db2" "db' = resolveUnreported L p scan cs t db2"
    "store_ok db1" "store_ok db2" "store_ok db'"
proof -
  obtain ids db1 where u: "upsert_all p scan t (dd_Findings result) [] db = Inr (ids, db1)"
    using assms(2) by (auto simp: RecordScan_def split: sum.splits)
  obtain db2 where i: "insert_all scan ids (dd_Occurrences result) db1 = Inr db2"
    and r: "db' = resolveUnreported L p scan cs t db2"
    using assms(2) u by (auto simp: RecordScan_def split: sum.splits)
  have ok1: "store_ok db1" using upsert_all_spec [OF assms(1) u] by blast
  have "store_ok db2"
    by (rule insert_all_ok [OF ok1 i]) (use upsert_all_ids [OF assms(1) u] in force)
  with u i r ok1 resolve_ok [of db2] show ?thesis using that by blast
qed

text \<open>Nothing else can stop a recording: what the checks accept is recorded.\<close>

lemma upsert_first_seen:
  assumes "\<forall>r \<in> set (db_findings db). fw_Project r = p \<longrightarrow> fw_FirstSeen r \<le> t"
  shows "\<forall>r \<in> set (db_findings (snd (upsert_row p scan f t db))). fw_Project r = p \<longrightarrow> fw_FirstSeen r \<le> t"
  using assms by (auto simp: upsert_row_def Let_def recordTransition_def refresh_def split: option.split)

lemma upsert_all_accepts:
  assumes "\<forall>m \<in> set fs. finding_checks (merged m)"
    and "\<forall>r \<in> set (db_findings db). fw_Project r = p \<longrightarrow> fw_FirstSeen r \<le> t"
  shows "\<exists>ids' db'. upsert_all p scan t fs ids db = Inr (ids', db')"
  using assms
proof (induction fs arbitrary: ids db)
  case (Cons f fs)
  obtain i db1 where u: "upsert_row p scan f t db = (i, db1)" by (cases "upsert_row p scan f t db")
  have "\<forall>r \<in> set (db_findings db1). fw_Project r = p \<longrightarrow> fw_FirstSeen r \<le> t"
    using upsert_first_seen [OF Cons.prems(2), of scan f] u by simp
  then obtain ids' db' where "upsert_all p scan t fs ((Fingerprint (merged f), i) # ids) db1 = Inr (ids', db')"
    using Cons.IH Cons.prems(1) by fastforce
  moreover have "upsertFinding p scan f t db = Inr (i, db1)"
    using Cons.prems u by (fastforce simp: upsertFinding_def list_ex_iff same_key_def)
  ultimately show ?case by simp
qed simp

lemma insert_all_accepts:
  "\<forall>x \<in> set os. occurrence_checks x \<and> occ_Fingerprint x \<in> dom (map_of ids) \<Longrightarrow>
   \<exists>db'. insert_all scan ids os db = Inr db'"
  by (induction os arbitrary: db) (auto simp: insertOccurrence_def split: option.split)

lemma RecordScan_accepts:
  assumes "store_ok db" "\<forall>m \<in> set (dd_Findings result). finding_checks (merged m)"
    and "\<forall>x \<in> set (dd_Occurrences result). occurrence_checks x \<and>
      occ_Fingerprint x \<in> (\<lambda>m. Fingerprint (merged m)) ` set (dd_Findings result)"
    and "\<forall>r \<in> set (db_findings db). fw_Project r = p \<longrightarrow> fw_FirstSeen r \<le> t"
  shows "\<exists>db'. RecordScan L p scan result cs t db = Inr db'"
proof -
  obtain ids db1 where u: "upsert_all p scan t (dd_Findings result) [] db = Inr (ids, db1)"
    using upsert_all_accepts [OF assms(2,4)] by blast
  have "dom (map_of ids) = (\<lambda>m. Fingerprint (merged m)) ` set (dd_Findings result)"
    using upsert_all_ids [OF assms(1) u] by simp
  then obtain db2 where "insert_all scan ids (dd_Occurrences result) db1 = Inr db2"
    using insert_all_accepts [of "dd_Occurrences result" ids scan db1] assms(3) by blast
  with u show ?thesis by (simp add: RecordScan_def)
qed

lemma RecordScan_checked:
  assumes "RecordScan L p scan result cs t db = Inr db'"
  shows "\<forall>m \<in> set (dd_Findings result). finding_checks (merged m)"
proof -
  have "upsert_all p scan t fs ids db = Inr x \<Longrightarrow> \<forall>m \<in> set fs. finding_checks (merged m)" for fs ids db x
    by (induction fs arbitrary: ids db) (auto simp: upsertFinding_def split: if_splits prod.splits)
  then show ?thesis using assms by (fastforce simp: RecordScan_def split: sum.splits)
qed

lemma RecordScan_row:
  assumes "store_ok db" "RecordScan L p scan result cs t db = Inr db'" "r \<in> set (db_findings db)"
  obtains db2 r2 r' where "r2 \<in> set (db_findings db2)" "row_key r2 = row_key r" "store_ok db2"
    "row_status r2 = (if \<exists>f \<in> set (dd_Findings result). same_key p (Fingerprint (merged f)) r
       then seen_status (row_status r) else row_status r)"
    "r' \<in> set (db_findings db')" "row_key r' = row_key r" "db_occurrences db' = db_occurrences db2"
    "row_status r' = (if entitled L p scan cs db2 r2 then StatusResolved else row_status r2)"
    "db_scans db2 = db_scans db" "db' = resolveUnreported L p scan cs t db2"
    "\<And>x. x \<in> set (dd_Occurrences result) \<Longrightarrow> same_key p (occ_Fingerprint x) r \<Longrightarrow>
       \<exists>y \<in> set (db_occurrences db2). oc_Finding y = fw_ID r \<and> oc_Scan y = scan"
    "\<And>y. y \<in> set (db_occurrences db2) \<Longrightarrow> oc_Finding y = fw_ID r \<Longrightarrow> y \<in> set (db_occurrences db) \<or>
       (\<exists>x \<in> set (dd_Occurrences result). same_key p (occ_Fingerprint x) r)"
proof -
  obtain ids db1 db2 where u: "upsert_all p scan t (dd_Findings result) [] db = Inr (ids, db1)"
    and i: "insert_all scan ids (dd_Occurrences result) db1 = Inr db2" and d: "db' = resolveUnreported L p scan cs t db2"
    and ok: "store_ok db1" "store_ok db2"
    by (rule RecordScan_parts [OF assms(1,2)])
  note us = upsert_all_spec [OF assms(1) u] and ins = insert_all_spec [OF i]
  obtain r2 where r2: "r2 \<in> set (db_findings db1)" "row_key r2 = row_key r"
    "row_status r2 = (if \<exists>f \<in> set (dd_Findings result). same_key p (Fingerprint (merged f)) r
       then seen_status (row_status r) else row_status r)"
    using us assms(3) by blast
  have r2': "r2 \<in> set (db_findings db2)" using r2(1) ins by simp
  let ?r' = "if entitled L p scan cs db2 r2 then set_status StatusResolved r2 else r2"
  have r': "?r' \<in> set (db_findings db')" unfolding d resolve_rows(1) using r2' by auto
  have idrow: "same_key p fp r \<longleftrightarrow> j = fw_ID r" if "map_of ids fp = Some j" for fp j
  proof -
    have "\<forall>fp i. map_of ids fp = Some i \<longrightarrow>
        (\<exists>r \<in> set (db_findings db1). same_key p fp r \<and> fw_ID r = i \<and> row_status r \<noteq> StatusResolved)"
      using upsert_all_ids [OF assms(1) u] by simp
    with that obtain r1 where r1: "r1 \<in> set (db_findings db1)" "same_key p fp r1" "fw_ID r1 = j"
      by blast
    then show ?thesis
      using id_unique [OF ok(1) r1(1) r2(1)] same_key_unique [OF ok(1) r1(1) r2(1) r1(2)]
        row_key_same [OF r2(2), of p fp] by auto
  qed
  have occ: "\<exists>y \<in> set (db_occurrences db2). oc_Finding y = fw_ID r \<and> oc_Scan y = scan"
    if x: "x \<in> set (dd_Occurrences result)" and k: "same_key p (occ_Fingerprint x) r" for x
  proof -
    obtain j y where "map_of ids (occ_Fingerprint x) = Some j" "y \<in> set (db_occurrences db2)"
      "oc_Finding y = j" "oc_Scan y = scan"
      using ins x by blast
    with idrow k show ?thesis by blast
  qed
  have old: "y \<in> set (db_occurrences db) \<or> (\<exists>x \<in> set (dd_Occurrences result). same_key p (occ_Fingerprint x) r)"
    if y: "y \<in> set (db_occurrences db2)" "oc_Finding y = fw_ID r" for y
  proof -
    have "y \<in> set (db_occurrences db1) \<or> (\<exists>x \<in> set (dd_Occurrences result). map_of ids (occ_Fingerprint x) = Some (oc_Finding y))"
      using ins y(1) by blast
    then show ?thesis using idrow y(2) us by auto
  qed
  show ?thesis
    by (rule that [of r2 db2 ?r']) (use r2 r2' r' ok us ins d resolve_rows(3) occ old in auto)
qed

lemma RecordScan_reported:
  assumes "store_ok db" "RecordScan L p scan result cs t db = Inr db'" "f \<in> set (dd_Findings result)"
    and "x \<in> set (dd_Occurrences result)" "occ_Fingerprint x = Fingerprint (merged f)"
  shows "\<exists>r \<in> set (db_findings db'). same_key p (Fingerprint (merged f)) r \<and> row_status r \<noteq> StatusResolved"
proof -
  obtain ids db1 db2 where u: "upsert_all p scan t (dd_Findings result) [] db = Inr (ids, db1)"
    and i: "insert_all scan ids (dd_Occurrences result) db1 = Inr db2" and d: "db' = resolveUnreported L p scan cs t db2"
    by (rule RecordScan_parts [OF assms(1,2)])
  note ins = insert_all_spec [OF i]
  have ids: "\<forall>fp i. map_of ids fp = Some i \<longrightarrow>
      (\<exists>r \<in> set (db_findings db1). same_key p fp r \<and> fw_ID r = i \<and> row_status r \<noteq> StatusResolved)"
    using upsert_all_ids [OF assms(1) u] by simp
  obtain j y where j: "map_of ids (Fingerprint (merged f)) = Some j"
    and y: "y \<in> set (db_occurrences db2)" "oc_Finding y = j" "oc_Scan y = scan"
    using ins assms(4,5) by metis
  obtain r where r: "r \<in> set (db_findings db1)" "same_key p (Fingerprint (merged f)) r" "fw_ID r = j"
    "row_status r \<noteq> StatusResolved"
    using ids j by blast
  then have "\<not> entitled L p scan cs db2 r" using entitled_facts(4) y by blast
  moreover have "r \<in> set (db_findings db2)" using ins r(1) by simp
  ultimately have "r \<in> set (db_findings db')" unfolding d resolve_rows(1) by force
  with r show ?thesis by blast
qed

lemma entitled_plain:
  "\<not> endpoint_scan db scan \<Longrightarrow> fw_Project r = p \<Longrightarrow> Scanner (fw_Finding r) \<in> set cs \<Longrightarrow>
   row_status r = StatusOpen \<or> row_status r = StatusReopened \<Longrightarrow>
   (\<And>x. x \<in> set (db_occurrences db) \<Longrightarrow> oc_Finding x = fw_ID r \<Longrightarrow> oc_Scan x \<noteq> scan \<and> oc_Scanner x \<in> set cs) \<Longrightarrow>
   entitled L p scan cs db r"
  by (fastforce simp: entitled_def endpoint_scan_def findingsThisScanLookedAt_def resolvable_def
      list_ex_iff row_status_def split: option.splits if_splits)

lemma scans_cong:
  assumes "db_scans db = db_scans db'"
  shows "scan_path L db = scan_path L db'" "endpoint_scan db = endpoint_scan db'"
    "db_occurrences db = db_occurrences db' \<Longrightarrow> last_report db = last_report db'"
proof -
  have "later_report db = later_report db'" by (intro ext) (simp add: later_report_def assms)
  then show "scan_path L db = scan_path L db'" "endpoint_scan db = endpoint_scan db'"
    "db_occurrences db = db_occurrences db' \<Longrightarrow> last_report db = last_report db'"
    by (intro ext, simp add: scan_path_def endpoint_scan_def last_report_def assms cong: option.case_cong)+
qed

section \<open>Transitions\<close>

lemma Validate_None:
  "TransitionRequest_Validate req = None \<longleftrightarrow>
   humanSettable (tr_To req) \<and> tr_Reason req \<in> set humanReasons \<and> length (tr_Note req) \<le> maxNoteLength"
  by (auto simp: TransitionRequest_Validate_def humanSettable_def Status_Valid_def)

lemma humanSettable_not: "\<not> humanSettable StatusResolved" "\<not> humanSettable StatusReopened"
  by (simp_all add: humanSettable_def)

lemma Transition_parts:
  assumes "Transition_finding i req actor t db = Inr (rec, db')"
  obtains r e row where "TransitionRequest_Validate req = None" "r \<in> set (db_findings db)" "fw_ID r = i"
    "row_status r \<noteq> tr_To req" "h_From row = Some (row_status r)" "h_To row = tr_To req" "h_Finding row = i"
    "h_Actor row = ac_Label actor" "h_Reason row = tr_Reason req"
    "tx_From rec = row_status r" "tx_To rec = tr_To req"
    "db_findings db' = map (\<lambda>r. if fw_ID r = i then set_status (tr_To req) r else r) (db_findings db)"
    "db_history db' = db_history db @ [row]" "db_occurrences db' = db_occurrences db" "db_next db' = db_next db"
    "db_audit db' = db_audit db @ [e]" "e_Actor (au_Entry e) = actor" "e_ResourceID (au_Entry e) = i"
    "e_Before (au_Entry e) = Some [(''status'', row_status r)]"
    "e_After (au_Entry e) = Some [(''status'', tr_To req), (''reason'', tr_Reason req), (''note'', tr_Note req)]"
    "e_ProjectID (au_Entry e) = fw_Project r"
proof -
  obtain r where r: "List.find (\<lambda>r. fw_ID r = i) (db_findings db) = Some r"
    and v: "TransitionRequest_Validate req = None"
    using assms by (auto simp: Transition_finding_def split: option.splits)
  have "r \<in> set (db_findings db)" "fw_ID r = i" using r by (auto simp: find_Some_iff)
  moreover have ne: "row_status r \<noteq> tr_To req"
    using assms r v by (auto simp: Transition_finding_def row_status_def)
  ultimately show ?thesis
    using that [of r "last (db_history db')" "last (db_audit db')"] assms r v
    by (auto simp: Transition_finding_def row_status_def Let_def audit_Write_def split: option.splits sum.splits)
qed

lemma Transition_ok:
  assumes ok: "store_ok db" and tr: "Transition_finding i req actor t db = Inr (rec, db')"
  shows "store_ok db'"
proof -
  obtain r row where r: "TransitionRequest_Validate req = None" "r \<in> set (db_findings db)" "fw_ID r = i"
    "row_status r \<noteq> tr_To req" "h_From row = Some (row_status r)" "h_To row = tr_To req" "h_Finding row = i"
    "db_findings db' = map (\<lambda>r. if fw_ID r = i then set_status (tr_To req) r else r) (db_findings db)"
    "db_history db' = db_history db @ [row]" "db_occurrences db' = db_occurrences db" "db_next db' = db_next db"
    by (rule Transition_parts [OF tr]) blast
  have "Status_Valid (tr_To req)" using r(1) by (auto simp: Validate_None humanSettable_def Status_Valid_def)
  moreover have "i < db_next db" using ok r(2,3) by (auto simp: store_ok_def)
  ultimately show ?thesis
    by (intro store_ok_update [OF ok r(8) _ r(9) _ _ r(10,11)]) (use r(4-7) in auto)
qed

lemma RecordScan_ok: "store_ok db \<Longrightarrow> RecordScan L p scan result cs t db = Inr db' \<Longrightarrow> store_ok db'"
  by (rule RecordScan_parts)

lemma store_steps_ok: "(store_step L)\<^sup>*\<^sup>* db db' \<Longrightarrow> store_ok db \<Longrightarrow> store_ok db'"
  by (induction rule: rtranclp_induct) (auto elim!: store_stepE intro: RecordScan_ok Transition_ok)

lemma empty_db_ok: "store_ok (empty_db scans)"
  by (simp add: store_ok_def empty_db_def)

section \<open>The sample databases\<close>

lemma sample_db_run:
  "RecordScan sample_lib ''p'' ''s1'' (sample_report sample_fp ''trivy'' ''s1'') [''trivy''] 5 (empty_db []) = Inr sample_db"
  unfolding sample_db_def by (rule not_isl_Inr) code_simp

lemma sample_db2_run: "RecordScan sample_lib ''p'' ''s2'' no_report [''trivy''] 9 sample_db = Inr sample_db2"
  unfolding sample_db2_def by (rule not_isl_Inr) code_simp

lemma sample_db_ok: "store_ok sample_db" "sample_row \<in> set (db_findings sample_db)"
  "row_status sample_row = StatusOpen" "map row_status (db_findings sample_db2) = [StatusResolved]"
  using RecordScan_ok [OF empty_db_ok sample_db_run] unfolding sample_row_def
  by (simp_all, code_simp+)

section \<open>Properties\<close>

text \<open>
  C10: a scan resolves only what it is entitled to. Recording a scan keeps every finding, with its
  identity and first sighting; a status a person set is never touched; and a finding becomes
  resolved only if it was open or reopened, this scan did not report it, its first reporter and every
  scanner that ever reported it are among those that completed in this scan, and, for a website
  scan, its latest report came from a scan of the same path.
\<close>

theorem resolution_is_justified:
  assumes "store_ok db" "RecordScan L p scan result cs t db = Inr db'" "r \<in> set (db_findings db)"
  shows "\<exists>r' \<in> set (db_findings db'). row_key r' = row_key r \<and>
    (human_status (row_status r) \<longrightarrow> row_status r' = row_status r) \<and>
    (row_status r' = StatusResolved \<and> row_status r \<noteq> StatusResolved \<longrightarrow>
       (row_status r = StatusOpen \<or> row_status r = StatusReopened) \<and>
       fw_Project r = p \<and> Scanner (fw_Finding r) \<in> set cs \<and>
       (\<forall>x \<in> set (db_occurrences db'). oc_Finding x = fw_ID r \<longrightarrow> oc_Scan x \<noteq> scan \<and> oc_Scanner x \<in> set cs) \<and>
       (endpoint_scan db scan \<longrightarrow> (\<exists>x path. last_report db' scan (fw_ID r) = Some x \<and>
          scan_path L db (oc_Scan x) = Some path \<and> scan_path L db scan = Some path)))"
proof -
  obtain db2 r2 r' where r2: "r2 \<in> set (db_findings db2)" "row_key r2 = row_key r" "store_ok db2"
    "row_status r2 = (if \<exists>f \<in> set (dd_Findings result). same_key p (Fingerprint (merged f)) r
       then seen_status (row_status r) else row_status r)"
    and r': "r' \<in> set (db_findings db')" "row_key r' = row_key r" "db_occurrences db' = db_occurrences db2"
    "row_status r' = (if entitled L p scan cs db2 r2 then StatusResolved else row_status r2)"
    "db_scans db2 = db_scans db" "db' = resolveUnreported L p scan cs t db2"
    by (rule RecordScan_row [OF assms]) blast
  have k: "fw_ID r2 = fw_ID r" "fw_Project r2 = fw_Project r" "Scanner (fw_Finding r2) = Scanner (fw_Finding r)"
    using r2(2) by (auto simp: row_key_def)
  have "row_status r' = row_status r" if h: "human_status (row_status r)"
  proof -
    have "row_status r2 = row_status r" using r2(4) seen_human [OF h] by simp
    moreover have "\<not> entitled L p scan cs db2 r2"
      using entitled_facts(3) [of L p scan cs db2 r2] human_not_open [OF h] calculation by metis
    ultimately show ?thesis using r'(4) by simp
  qed
  moreover have "(row_status r = StatusOpen \<or> row_status r = StatusReopened) \<and>
       fw_Project r = p \<and> Scanner (fw_Finding r) \<in> set cs \<and>
       (\<forall>x \<in> set (db_occurrences db'). oc_Finding x = fw_ID r \<longrightarrow> oc_Scan x \<noteq> scan \<and> oc_Scanner x \<in> set cs) \<and>
       (endpoint_scan db scan \<longrightarrow> (\<exists>x path. last_report db' scan (fw_ID r) = Some x \<and>
          scan_path L db (oc_Scan x) = Some path \<and> scan_path L db scan = Some path))"
    if n: "row_status r' = StatusResolved" "row_status r \<noteq> StatusResolved"
  proof -
    have s2: "row_status r2 = row_status r" using r2(4) n(2) by (simp add: seen_status_def)
    then have e: "entitled L p scan cs db2 r2" using r'(4) n by (metis (full_types))
    have same: "scan_path L db2 = scan_path L db" "endpoint_scan db2 = endpoint_scan db"
      "last_report db' = last_report db2"
      using r'(3,5) scans_cong [of db2 db] scans_cong [of db' db2] resolve_rows(4) [of L p scan cs t db2]
      by (simp_all add: r'(6))
    show ?thesis
      using entitled_facts [OF e] entitled_endpoint [OF e _ r2(3,1)] s2 r'(3) unfolding k same by auto
  qed
  ultimately show ?thesis using r'(1,2) by (intro bexI [of _ r']) blast+
qed

lemma resolution_is_justified_witness:
  "\<exists>r' \<in> set (db_findings sample_db2). row_status r' = StatusResolved \<and> row_status sample_row = StatusOpen \<and>
     Scanner (fw_Finding sample_row) \<in> {''trivy''}"
  using resolution_is_justified [OF sample_db_ok(1) sample_db2_run sample_db_ok(2)] sample_db_ok(3,4) by auto



text \<open>
  C12: the history tells the status of every finding. In every database that scans and human
  decisions can produce from an empty one, identifiers and the pairs of project and fingerprint are
  unique, and each finding has a valid status, which is the one its latest recorded change led to;
  no change leads from a status to itself.
\<close>

theorem history_tells_status:
  assumes "(store_step L)\<^sup>*\<^sup>* (empty_db scans) db"
  shows "distinct (map fw_ID (db_findings db)) \<and>
    distinct (map (\<lambda>r. (fw_Project r, Fingerprint (fw_Finding r))) (db_findings db)) \<and>
    (\<forall>r \<in> set (db_findings db). Status_Valid (FStatus (fw_Finding r)) \<and>
       status_changes (db_history db) (fw_ID r) = Some (FStatus (fw_Finding r))) \<and>
    (\<forall>h \<in> set (db_history db). h_From h \<noteq> Some (h_To h))"
  using store_steps_ok [OF assms empty_db_ok] by (auto simp: store_ok_def row_status_def)

lemma history_tells_status_witness:
  "status_changes (db_history sample_db2) (fw_ID (hd (db_findings sample_db2))) = Some StatusResolved"
proof -
  have "(store_step sample_lib)\<^sup>*\<^sup>* (empty_db []) sample_db2"
    using store_step.scanned [OF sample_db_run] store_step.scanned [OF sample_db2_run]
    by (meson converse_rtranclp_into_rtranclp rtranclp.rtrancl_refl)
  from history_tells_status [OF this] show ?thesis
    using sample_db_ok(4) by (cases "db_findings sample_db2") (auto simp: row_status_def)
qed

text \<open>
  C13: a person can judge a finding but not certify it fixed. A transition that succeeds never
  leads to resolved or reopened, carries one of the human reasons and differs from the present
  status; it changes that status and nothing else of the findings, and leaves one history record
  with both statuses and one audit entry that names the actor, the finding, its project and both
  statuses.
\<close>

theorem people_cannot_certify:
  assumes "store_ok db" "Transition_finding i req actor t db = Inr (rec, db')"
  shows "tr_To req \<noteq> StatusResolved \<and> tr_To req \<noteq> StatusReopened \<and> tr_Reason req \<in> set humanReasons \<and>
    tx_To rec = tr_To req \<and>
    (\<exists>r \<in> set (db_findings db). \<exists>row e. fw_ID r = i \<and> row_status r \<noteq> tr_To req \<and> tx_From rec = row_status r \<and>
       db_findings db' = map (\<lambda>q. if q = r then set_status (tr_To req) q else q) (db_findings db) \<and>
       db_history db' = db_history db @ [row] \<and> h_Finding row = i \<and> h_Actor row = ac_Label actor \<and>
       h_From row = Some (row_status r) \<and> h_To row = tr_To req \<and>
       db_occurrences db' = db_occurrences db \<and> db_audit db' = db_audit db @ [e] \<and>
       e_Actor (au_Entry e) = actor \<and> e_ResourceID (au_Entry e) = i \<and> e_ProjectID (au_Entry e) = fw_Project r \<and>
       e_Before (au_Entry e) = Some [(''status'', row_status r)] \<and>
       map_of (the (e_After (au_Entry e))) ''status'' = Some (tr_To req))"
proof -
  obtain r e row where r: "TransitionRequest_Validate req = None" "r \<in> set (db_findings db)" "fw_ID r = i"
    "row_status r \<noteq> tr_To req" "h_From row = Some (row_status r)" "h_To row = tr_To req" "h_Finding row = i"
    "h_Actor row = ac_Label actor" "h_Reason row = tr_Reason req"
    "tx_From rec = row_status r" "tx_To rec = tr_To req"
    "db_findings db' = map (\<lambda>r. if fw_ID r = i then set_status (tr_To req) r else r) (db_findings db)"
    "db_history db' = db_history db @ [row]" "db_occurrences db' = db_occurrences db" "db_next db' = db_next db"
    "db_audit db' = db_audit db @ [e]" "e_Actor (au_Entry e) = actor" "e_ResourceID (au_Entry e) = i"
    "e_Before (au_Entry e) = Some [(''status'', row_status r)]"
    "e_After (au_Entry e) = Some [(''status'', tr_To req), (''reason'', tr_Reason req), (''note'', tr_Note req)]"
    "e_ProjectID (au_Entry e) = fw_Project r"
    by (rule Transition_parts [OF assms(2)])
  have "db_findings db' = map (\<lambda>q. if q = r then set_status (tr_To req) q else q) (db_findings db)"
    unfolding r(12)
  proof (rule map_cong [OF refl])
    fix q assume "q \<in> set (db_findings db)"
    then have "fw_ID q = i \<longleftrightarrow> q = r" using id_unique [OF assms(1) r(2)] r(3) by metis
    then show "(if fw_ID q = i then set_status (tr_To req) q else q) = (if q = r then set_status (tr_To req) q else q)"
      by simp
  qed
  with r have "\<exists>row e. fw_ID r = i \<and> row_status r \<noteq> tr_To req \<and> tx_From rec = row_status r \<and>
       db_findings db' = map (\<lambda>q. if q = r then set_status (tr_To req) q else q) (db_findings db) \<and>
       db_history db' = db_history db @ [row] \<and> h_Finding row = i \<and> h_Actor row = ac_Label actor \<and>
       h_From row = Some (row_status r) \<and> h_To row = tr_To req \<and>
       db_occurrences db' = db_occurrences db \<and> db_audit db' = db_audit db @ [e] \<and>
       e_Actor (au_Entry e) = actor \<and> e_ResourceID (au_Entry e) = i \<and> e_ProjectID (au_Entry e) = fw_Project r \<and>
       e_Before (au_Entry e) = Some [(''status'', row_status r)] \<and>
       map_of (the (e_After (au_Entry e))) ''status'' = Some (tr_To req)"
    by (intro exI [of _ row] exI [of _ e]) simp
  moreover have "tr_To req \<noteq> StatusResolved \<and> tr_To req \<noteq> StatusReopened \<and> tr_Reason req \<in> set humanReasons"
    "tx_To rec = tr_To req"
    using r(1,11) unfolding Validate_None by (metis humanSettable_not)+
  ultimately show ?thesis using r(2) by blast
qed

lemma people_cannot_certify_witness:
  "\<exists>db' rec row. Transition_finding 0 sample_verdict \<lparr>ac_Kind = ActorUser, ac_Label = ''ann''\<rparr> 7 sample_db = Inr (rec, db') \<and>
     tx_From rec = StatusOpen \<and> db_history db' = db_history sample_db @ [row]"
proof -
  let ?x = "Transition_finding 0 sample_verdict \<lparr>ac_Kind = ActorUser, ac_Label = ''ann''\<rparr> 7 sample_db"
  have "\<not> isl ?x" "tx_From (fst (projr ?x)) = StatusOpen" by code_simp+
  then have x: "?x = Inr (fst (projr ?x), snd (projr ?x))" "tx_From (fst (projr ?x)) = StatusOpen"
    by (simp_all add: not_isl_Inr)
  show ?thesis using people_cannot_certify [OF sample_db_ok(1) x(1)] x by blast
qed

end
