(* ===== verification/Scan_Exec.thy ===== *)
theory Scan_Exec
  imports Scans
begin

text \<open>
  Scan execution: \<open>internal/scanexec/scanexec.go\<close> (requests, events, executions, fatal errors) and
  the in-process executor of \<open>inprocess.go\<close>. What a scanner subprocess, the fetcher, the workspace
  directory, the clock and the context answer is a parameter; the executor is a function from them
  to the events it reports, in order, and the error it returns. The lemmas show that every outcome
  of a scanner becomes a classified result, that nothing is dispatched after a failed fetch, and
  which scanners a returned execution has reported.
\<close>

section \<open>scanexec.go\<close>

type_synonym Phase = string

abbreviation PhaseAll :: Phase where "PhaseAll \<equiv> []"
abbreviation PhaseFetch :: Phase where "PhaseFetch \<equiv> ''fetch''"
abbreviation PhaseScan :: Phase where "PhaseScan \<equiv> ''scan''"

record Request =
  rq_ScanID :: string
  rq_ProjectID :: string
  rq_Target :: Target
  rq_Scanners :: "ScannerAdapter list"

record Execution =
  x_Result :: ScannerResult
  x_Raw :: RawResult
  x_Inventory :: string

text \<open>A call of one of the two callbacks of \<open>Events\<close>.\<close>

datatype Event = Checkout string string | ScannerDone Execution

text \<open>An error returned by \<open>Execute\<close>: one that carries a reason to record, or any other.\<close>

datatype exec_error = FatalError FailureReason | OtherError

section \<open>What the outside answers\<close>

datatype scan_err = BinaryMissing | ExecTimeout | OutputTooLarge | CtxCanceled | UnsupportedTarget | OtherScanErr

record FetchResult =
  fr_Path :: string
  fr_CommitSHA :: string
  fr_Branch :: string

datatype fetch_err = TooLarge | OtherFetchErr

text \<open>
  The adapters' subprocesses by name, the fetcher, the workspace, and two clocks readings per
  scanner. \<open>ex_ctx_err n\<close> is whether the context has ended once \<open>n\<close> scanners have been reported. An
  adapter with no separate inventory run has none.
\<close>

record ExecEnv =
  ex_Phase :: Phase
  ex_workspace :: "string \<Rightarrow> string option"
  ex_Fetcher :: "string \<Rightarrow> Target \<Rightarrow> fetch_err + FetchResult"
  ex_Version :: "string \<Rightarrow> string \<times> scan_err option"
  ex_Scan :: "string \<Rightarrow> Target \<Rightarrow> RawResult \<times> scan_err option"
  ex_ScanInventory :: "string \<Rightarrow> (Target \<Rightarrow> RawResult \<times> scan_err option) option"
  ex_started :: "string \<Rightarrow> time"
  ex_ended :: "string \<Rightarrow> time"
  ex_ctx_err :: "nat \<Rightarrow> bool"

definition zero_RawResult :: RawResult where
  "zero_RawResult = \<lparr>raw_Scanner = [], raw_Version = [], raw_Target = zero_Target, raw_Output = [], raw_ExitCode = 0,
     raw_Duration = 0, raw_Degradations = [], raw_StartedAt = 0\<rparr>"

section \<open>inprocess.go\<close>

definition inventoryOutput :: "(Target \<Rightarrow> RawResult \<times> scan_err option) \<Rightarrow> Target \<Rightarrow> string" where
  "inventoryOutput runner target =
     (case runner target of
        (_, Some UnsupportedTarget) \<Rightarrow> []
      | (_, Some _) \<Rightarrow> []
      | (raw, None) \<Rightarrow> raw_Output raw)"

definition runScanner :: "ExecEnv \<Rightarrow> ScannerAdapter \<Rightarrow> Target \<Rightarrow> Execution" where
  "runScanner e scanner target =
     (let name = sn_Name scanner; started = ex_started e name;
          result = \<lparr>sr_Scanner = name, sr_Status = ScannerRunning, sr_Version = [], sr_ExitCode = 0,
            sr_Duration = 0, sr_StartedAt = Some started, sr_Error = [], sr_Degradations = []\<rparr>
      in case ex_Version e name of
        (_, Some BinaryMissing) \<Rightarrow>
          \<lparr>x_Result = result\<lparr>sr_Status := ScannerSkipped, sr_Error := ''scanner binary is not installed''\<rparr>,
           x_Raw = zero_RawResult, x_Inventory = []\<rparr>
      | (version, _) \<Rightarrow>
          (case ex_Scan e name target of (raw, err) \<Rightarrow>
            let result = result\<lparr>sr_Version := version, sr_Duration := ex_ended e name - started,
                  sr_ExitCode := raw_ExitCode raw, sr_Degradations := raw_Degradations raw\<rparr>;
                out = \<lparr>x_Result = result, x_Raw = raw, x_Inventory = []\<rparr>
            in case err of
                 None \<Rightarrow>
                   out\<lparr>x_Result := result\<lparr>sr_Status := ScannerSucceeded\<rparr>,
                       x_Inventory := (case ex_ScanInventory e name of
                         Some runner \<Rightarrow> inventoryOutput runner target | None \<Rightarrow> [])\<rparr>
               | Some BinaryMissing \<Rightarrow>
                   out\<lparr>x_Result := result\<lparr>sr_Status := ScannerSkipped,
                       sr_Error := ''scanner binary is not installed''\<rparr>\<rparr>
               | Some ExecTimeout \<Rightarrow>
                   out\<lparr>x_Result := result\<lparr>sr_Status := ScannerFailed,
                       sr_Error := ''scanner exceeded its execution timeout''\<rparr>\<rparr>
               | Some OutputTooLarge \<Rightarrow>
                   out\<lparr>x_Result := result\<lparr>sr_Status := ScannerFailed,
                       sr_Degradations := [DegradedOutputTruncated],
                       sr_Error := ''scanner output exceeded the size limit''\<rparr>\<rparr>
               | Some CtxCanceled \<Rightarrow>
                   out\<lparr>x_Result := result\<lparr>sr_Status := ScannerFailed, sr_Error := ''scan was cancelled''\<rparr>\<rparr>
               | Some _ \<Rightarrow>
                   out\<lparr>x_Result := result\<lparr>sr_Status := ScannerFailed,
                       sr_Error := ''scanner execution failed''\<rparr>\<rparr>))"

text \<open>The target the scanners are handed, and the checkout it reports on the way.\<close>

definition fetchIfNeeded :: "ExecEnv \<Rightarrow> Request \<Rightarrow> string \<Rightarrow> exec_error + Target \<times> Event list" where
  "fetchIfNeeded e req workspace =
     (if t_Kind (rq_Target req) \<noteq> KindRepository then Inr (rq_Target req, [])
      else if ex_Phase e = PhaseScan
        then Inr (zero_Target\<lparr>t_Kind := KindFilesystem, t_Path := workspace\<rparr>, [])
      else case ex_Fetcher e workspace (rq_Target req) of
        Inl err \<Rightarrow>
          Inl (FatalError (if err = TooLarge then FailureTargetTooLarge else FailureFetchFailed))
      | Inr fetched \<Rightarrow>
          let branch = (if fr_Branch fetched = [] then t_Ref (rq_Target req) else fr_Branch fetched)
          in Inr (zero_Target\<lparr>t_Kind := KindFilesystem, t_Path := fr_Path fetched\<rparr>,
                  [Checkout (fr_CommitSHA fetched) branch]))"

text \<open>The loop over the scanners; \<open>n\<close> counts the ones already reported.\<close>

fun dispatch :: "ExecEnv \<Rightarrow> Target \<Rightarrow> nat \<Rightarrow> ScannerAdapter list \<Rightarrow> Event list" where
  "dispatch e target n [] = []"
| "dispatch e target n (scanner # rest) =
     ScannerDone (runScanner e scanner target) #
     (if ex_ctx_err e (n + 1) then [] else dispatch e target (n + 1) rest)"

definition InProcess_Execute :: "ExecEnv \<Rightarrow> Request \<Rightarrow> Event list \<times> exec_error option" where
  "InProcess_Execute e req =
     (case ex_workspace e (rq_ScanID req) of
        None \<Rightarrow> ([], Some (FatalError FailureWorkspaceUnavailable))
      | Some workspace \<Rightarrow>
          (case fetchIfNeeded e req workspace of
             Inl err \<Rightarrow> ([], Some err)
           | Inr (target, events) \<Rightarrow>
               if ex_Phase e = PhaseFetch then (events, None)
               else (events @ dispatch e target 0 (rq_Scanners req), None)))"

section \<open>Specification vocabulary\<close>

definition executions :: "Event list \<Rightarrow> Execution list" where
  "executions evs = List.map_filter (\<lambda>ev. case ev of ScannerDone x \<Rightarrow> Some x | Checkout _ _ \<Rightarrow> None) evs"

definition sample_exec :: ExecEnv where
  "sample_exec = \<lparr>ex_Phase = PhaseAll, ex_workspace = (\<lambda>id. Some (''/tmp/'' @ id)),
     ex_Fetcher = (\<lambda>ws t. Inr \<lparr>fr_Path = ws, fr_CommitSHA = ''abcdef0'', fr_Branch = []\<rparr>),
     ex_Version = (\<lambda>_. (''1'', None)), ex_Scan = (\<lambda>_ _. (zero_RawResult\<lparr>raw_Output := ''{}''\<rparr>, None)),
     ex_ScanInventory = (\<lambda>_. None), ex_started = (\<lambda>_. 0), ex_ended = (\<lambda>_. 1), ex_ctx_err = (\<lambda>_. False)\<rparr>"

definition sample_request :: "string list \<Rightarrow> Request" where
  "sample_request names = \<lparr>rq_ScanID = ''s1'', rq_ProjectID = ''p1'',
     rq_Target = zero_Target\<lparr>t_Kind := KindFilesystem, t_Path := ''/work/app''\<rparr>,
     rq_Scanners = map sample_adapter names\<rparr>"

section \<open>Every outcome is classified\<close>

lemma executions_simps [simp]:
  "executions [] = []"
  "executions (ScannerDone x # evs) = x # executions evs"
  "executions (Checkout c b # evs) = executions evs"
  "executions (xs @ ys) = executions xs @ executions ys"
  by (simp_all add: executions_def map_filter_simps map_filter_def)

lemma runScanner_name [simp]: "sr_Scanner (x_Result (runScanner e s t)) = sn_Name s"
  by (cases "ex_Version e (sn_Name s)"; cases "snd (ex_Version e (sn_Name s))"; cases "ex_Scan e (sn_Name s) t")
    (simp_all add: runScanner_def Let_def split: option.split scan_err.split)

lemma runScanner_status:
  "sr_Status (x_Result (runScanner e s t)) =
     (if snd (ex_Version e (sn_Name s)) = Some BinaryMissing then ScannerSkipped
      else case snd (ex_Scan e (sn_Name s) t) of
        None \<Rightarrow> ScannerSucceeded | Some BinaryMissing \<Rightarrow> ScannerSkipped | Some _ \<Rightarrow> ScannerFailed)"
  by (cases "ex_Version e (sn_Name s)"; cases "snd (ex_Version e (sn_Name s))"; cases "ex_Scan e (sn_Name s) t")
    (simp_all add: runScanner_def Let_def split: option.split scan_err.split)

lemma runScanner_done:
  assumes "snd (ex_Version e (sn_Name s)) \<noteq> Some BinaryMissing" "snd (ex_Scan e (sn_Name s) t) = None"
  shows "sr_Degradations (x_Result (runScanner e s t)) = raw_Degradations (fst (ex_Scan e (sn_Name s) t))"
  using assms by (cases "ex_Version e (sn_Name s)"; cases "snd (ex_Version e (sn_Name s))"; cases "ex_Scan e (sn_Name s) t")
    (simp_all add: runScanner_def Let_def split: scan_err.split)

lemma runScanner_inventory:
  assumes "snd (ex_Version e (sn_Name s)) = Some BinaryMissing \<or> snd (ex_Scan e (sn_Name s) t) \<noteq> None"
  shows "x_Inventory (runScanner e s t) = []"
  using assms by (cases "ex_Version e (sn_Name s)"; cases "snd (ex_Version e (sn_Name s))"; cases "ex_Scan e (sn_Name s) t")
    (auto simp: runScanner_def Let_def split: scan_err.split)

lemma dispatch_prefix:
  "\<exists>k. executions (dispatch e t n ss) = map (\<lambda>s. runScanner e s t) (take k ss) \<and> k \<le> length ss \<and>
     (k = length ss \<or> 0 < k \<and> ex_ctx_err e (n + k))"
proof (induction ss arbitrary: n)
  case (Cons s ss)
  show ?case
  proof (cases "ex_ctx_err e (n + 1)")
    case True
    then show ?thesis by (intro exI [of _ 1]) simp
  next
    case False
    obtain k where k: "executions (dispatch e t (n + 1) ss) = map (\<lambda>s. runScanner e s t) (take k ss)"
      "k \<le> length ss" "k = length ss \<or> 0 < k \<and> ex_ctx_err e (n + 1 + k)"
      using Cons.IH [of "n + 1"] by blast
    have "executions (dispatch e t n (s # ss)) = map (\<lambda>s. runScanner e s t) (take (Suc k) (s # ss))"
      using False k(1) by simp
    moreover have "Suc k = length (s # ss) \<or> 0 < Suc k \<and> ex_ctx_err e (n + Suc k)" using k(3) by auto
    ultimately show ?thesis using k(2) by (intro exI [of _ "Suc k"]) simp
  qed
qed simp

text \<open>
  A broken scanner degrades its own result and nothing more. Whatever its binary, its exit or its
  output do, running it yields one result under its own name whose status is succeeded exactly when
  the run had no error, skipped exactly when the binary is missing, and failed otherwise; the result
  counts as succeeded only if the adapter also reported no degradation, and a non-empty inventory
  comes only from a succeeded run.
\<close>

theorem scanner_outcome_classified:
  "let r = x_Result (runScanner e s t); v = snd (ex_Version e (sn_Name s)); err = snd (ex_Scan e (sn_Name s) t) in
   sr_Scanner r = sn_Name s \<and>
   (sr_Status r = ScannerSkipped \<longleftrightarrow> v = Some BinaryMissing \<or> err = Some BinaryMissing) \<and>
   (sr_Status r = ScannerSucceeded \<longleftrightarrow> v \<noteq> Some BinaryMissing \<and> err = None) \<and>
   (sr_Status r = ScannerFailed \<longleftrightarrow> v \<noteq> Some BinaryMissing \<and> err \<noteq> None \<and> err \<noteq> Some BinaryMissing) \<and>
   (Succeeded r \<longleftrightarrow> v \<noteq> Some BinaryMissing \<and> err = None \<and>
      raw_Degradations (fst (ex_Scan e (sn_Name s) t)) = []) \<and>
   (x_Inventory (runScanner e s t) \<noteq> [] \<longrightarrow> sr_Status r = ScannerSucceeded)"
proof -
  let ?r = "x_Result (runScanner e s t)"
  have d: "sr_Status ?r = ScannerSucceeded \<Longrightarrow> sr_Degradations ?r = raw_Degradations (fst (ex_Scan e (sn_Name s) t))"
    using runScanner_done [of e s t] by (simp add: runScanner_status split: option.splits if_splits scan_err.splits)
  have i: "x_Inventory (runScanner e s t) \<noteq> [] \<Longrightarrow> sr_Status ?r = ScannerSucceeded"
    using runScanner_inventory [of e s t] by (cases "snd (ex_Scan e (sn_Name s) t)") (auto simp: runScanner_status)
  have st: "(sr_Status ?r = ScannerSkipped \<longleftrightarrow> snd (ex_Version e (sn_Name s)) = Some BinaryMissing \<or>
        snd (ex_Scan e (sn_Name s) t) = Some BinaryMissing) \<and>
      (sr_Status ?r = ScannerSucceeded \<longleftrightarrow> snd (ex_Version e (sn_Name s)) \<noteq> Some BinaryMissing \<and>
        snd (ex_Scan e (sn_Name s) t) = None) \<and>
      (sr_Status ?r = ScannerFailed \<longleftrightarrow> snd (ex_Version e (sn_Name s)) \<noteq> Some BinaryMissing \<and>
        snd (ex_Scan e (sn_Name s) t) \<noteq> None \<and> snd (ex_Scan e (sn_Name s) t) \<noteq> Some BinaryMissing)"
    unfolding runScanner_status by (simp split: option.split scan_err.split)
  have n: "sr_Scanner ?r = sn_Name s" by simp
  have su: "Succeeded ?r \<longleftrightarrow> sr_Status ?r = ScannerSucceeded \<and> sr_Degradations ?r = []" by (simp add: Succeeded_def)
  show ?thesis unfolding Let_def su using n st d i by metis
qed

theorem scanner_outcome_classified_witness:
  "Succeeded (x_Result (runScanner sample_exec (sample_adapter ''trivy'') zero_Target))"
  using scanner_outcome_classified [of sample_exec "sample_adapter ''trivy''" zero_Target]
  by (simp add: Let_def sample_exec_def zero_RawResult_def)

text \<open>
  What an execution has reported when it returns. With an error it reported no scanner at all,
  and the reason is one of three. Without one, it fetched the repository it was given, and reported
  the selected scanners in order, up to the first after which the context had ended: all of them,
  unless the context ended, each handed a local checkout in place of a remote.
\<close>

theorem execution_reports_selection:
  assumes "InProcess_Execute e req = (evs, err)" "ex_Phase e = PhaseAll"
  shows "case err of
      Some r \<Rightarrow> evs = [] \<and> r \<in> {FatalError FailureWorkspaceUnavailable, FatalError FailureFetchFailed,
        FatalError FailureTargetTooLarge}
    | None \<Rightarrow> (\<exists>t k. executions evs = map (\<lambda>s. runScanner e s t) (take k (rq_Scanners req)) \<and>
        (k = length (rq_Scanners req) \<or> 0 < k \<and> k < length (rq_Scanners req) \<and> ex_ctx_err e k) \<and>
        t_Kind t = EffectiveKind (t_Kind (rq_Target req)) \<and>
        (t_Kind (rq_Target req) \<noteq> KindRepository \<longrightarrow> t = rq_Target req))"
proof (cases "ex_workspace e (rq_ScanID req)")
  case None
  with assms show ?thesis by (auto simp: InProcess_Execute_def)
next
  case (Some ws)
  show ?thesis
  proof (cases "fetchIfNeeded e req ws")
    case (Inl x)
    then have "x \<in> {FatalError FailureFetchFailed, FatalError FailureTargetTooLarge}"
      using assms(2) by (auto simp: fetchIfNeeded_def Let_def split: if_splits sum.splits)
    with Inl Some assms show ?thesis by (auto simp: InProcess_Execute_def)
  next
    case (Inr p)
    obtain t ev where p: "p = (t, ev)" by (cases p)
    have "executions ev = []" "t_Kind t = EffectiveKind (t_Kind (rq_Target req))"
      "t_Kind (rq_Target req) \<noteq> KindRepository \<longrightarrow> t = rq_Target req"
      using Inr assms(2) by (auto simp: p fetchIfNeeded_def EffectiveKind_def Let_def split: if_splits sum.splits)
    moreover have "err = None" "evs = ev @ dispatch e t 0 (rq_Scanners req)"
      using Inr Some assms by (auto simp: p InProcess_Execute_def)
    moreover obtain k where "executions (dispatch e t 0 (rq_Scanners req)) =
        map (\<lambda>s. runScanner e s t) (take k (rq_Scanners req))" "k \<le> length (rq_Scanners req)"
      "k = length (rq_Scanners req) \<or> 0 < k \<and> ex_ctx_err e (0 + k)"
      using dispatch_prefix by blast
    ultimately show ?thesis
      by (auto intro!: exI [of _ t] exI [of _ k])
  qed
qed

theorem execution_reports_selection_witness:
  "\<exists>evs. InProcess_Execute sample_exec (sample_request [''semgrep'', ''trivy'']) = (evs, None) \<and>
     length (executions evs) = 2"
proof -
  obtain evs where e: "InProcess_Execute sample_exec (sample_request [''semgrep'', ''trivy'']) = (evs, None)"
    by (simp add: InProcess_Execute_def sample_exec_def sample_request_def fetchIfNeeded_def)
  have "\<not> ex_ctx_err sample_exec k" for k by (simp add: sample_exec_def)
  with execution_reports_selection [OF e] e show ?thesis
    by (auto simp: sample_exec_def sample_request_def)
qed

end
