(* ===== verification/Queues.thy ===== *)
theory Queues
  imports Scans
begin

text \<open>
  The job queue: \<open>internal/queue/queue.go\<close> (jobs and the interface), \<open>memory.go\<close> and
  \<open>redis.go\<close>. The interface is a locale: what enqueueing and dequeueing do to the waiting jobs. The
  in-memory queue is an interpretation of it; the Redis queue keeps encoded payloads in a Redis
  list, whose commands \<open>RPUSH\<close> and \<open>BLPOP\<close> append and take the first, with the JSON codec as a
  parameter. The lemmas show delivery in order, exactly once, of validated jobs only.
\<close>

section \<open>queue.go\<close>

record Job =
  j_ScanID :: string
  j_ProjectID :: string
  j_Target :: Target
  j_Scanners :: "string list"
  j_EnqueuedAt :: time
  j_Attempt :: int

datatype job_error = ScanIDRequired | JobProjectIDRequired | JobKind string | AttemptTooSmall

definition Job_Validate :: "Job \<Rightarrow> job_error option" where
  "Job_Validate j =
     (if j_ScanID j = [] then Some ScanIDRequired
      else if j_ProjectID j = [] then Some JobProjectIDRequired
      else if \<not> Kind_Valid (t_Kind (j_Target j)) then Some (JobKind (t_Kind (j_Target j)))
      else if j_Attempt j < 1 then Some AttemptTooSmall
      else None)"

datatype queue_error =
    InvalidJob job_error | ErrEmpty | ContextEnded
  | PayloadTooLarge | PayloadMalformed | QueueUnavailable

text \<open>The zero \<open>EnqueuedAt\<close> is stamped with the clock.\<close>

definition stamp :: "time \<Rightarrow> Job \<Rightarrow> Job" where
  "stamp now job = (if j_EnqueuedAt job = 0 then job\<lparr>j_EnqueuedAt := now\<rparr> else job)"

section \<open>memory.go\<close>

record Memory =
  mem_jobs :: "Job list"

definition NewMemory :: Memory where
  "NewMemory = \<lparr>mem_jobs = []\<rparr>"

definition Memory_Enqueue :: "time \<Rightarrow> Job \<Rightarrow> Memory \<Rightarrow> queue_error + Memory" where
  "Memory_Enqueue now job m =
     (case Job_Validate job of
        Some e \<Rightarrow> Inl (InvalidJob e)
      | None \<Rightarrow> Inr (m\<lparr>mem_jobs := mem_jobs m @ [stamp now job]\<rparr>))"

text \<open>
  The polling loop. It looks at the queue once per round, under the lock, and between rounds other
  goroutines may enqueue: \<open>arrivals\<close> is what they appended before each further round, \<open>cancelled\<close>
  whether the context had ended by then. The deadline passes after the last round.
\<close>

fun Memory_Dequeue :: "(Job list \<times> bool) list \<Rightarrow> Memory \<Rightarrow> (queue_error + Job) \<times> Memory" where
  "Memory_Dequeue rounds m =
     (if length (mem_jobs m) > 0 then (Inr (hd (mem_jobs m)), m\<lparr>mem_jobs := tl (mem_jobs m)\<rparr>)
      else case rounds of
        [] \<Rightarrow> (Inl ErrEmpty, m)
      | (arrivals, cancelled) # rounds' \<Rightarrow>
          if cancelled then (Inl ContextEnded, m)
          else Memory_Dequeue rounds' (m\<lparr>mem_jobs := mem_jobs m @ arrivals\<rparr>))"

declare Memory_Dequeue.simps [simp del]

definition Memory_Len :: "Memory \<Rightarrow> int" where
  "Memory_Len m = int (length (mem_jobs m))"

section \<open>redis.go\<close>

text \<open>The codec: \<open>json.Marshal\<close> and \<open>json.Unmarshal\<close> of a job.\<close>

record job_codec =
  marshal :: "Job \<Rightarrow> string"
  unmarshal :: "string \<Rightarrow> Job option"

abbreviation maxPayloadBytes :: nat where "maxPayloadBytes \<equiv> 1048576"
abbreviation DefaultKey :: string where "DefaultKey \<equiv> ''secureops:scan_jobs''"

definition NewRedis_key :: "string \<Rightarrow> string" where
  "NewRedis_key key = (if key = [] then DefaultKey else key)"

text \<open>The Redis list is the state; \<open>up\<close> is whether the command reached the server.\<close>

definition Redis_Enqueue :: "job_codec \<Rightarrow> bool \<Rightarrow> time \<Rightarrow> Job \<Rightarrow> string list \<Rightarrow> queue_error + string list" where
  "Redis_Enqueue c up now job q =
     (case Job_Validate job of
        Some e \<Rightarrow> Inl (InvalidJob e)
      | None \<Rightarrow>
          let payload = marshal c (stamp now job) in
          if length payload > maxPayloadBytes then Inl PayloadTooLarge
          else if \<not> up then Inl QueueUnavailable
          else Inr (q @ [payload]))"

definition Redis_Dequeue :: "job_codec \<Rightarrow> bool \<Rightarrow> string list \<Rightarrow> (queue_error + Job) \<times> string list" where
  "Redis_Dequeue c up q =
     (if \<not> up then (Inl QueueUnavailable, q)
      else case q of
        [] \<Rightarrow> (Inl ErrEmpty, q)
      | payload # rest \<Rightarrow>
          ((if length payload > maxPayloadBytes then Inl PayloadTooLarge
            else case unmarshal c payload of
              None \<Rightarrow> Inl PayloadMalformed
            | Some job \<Rightarrow> (case Job_Validate job of Some e \<Rightarrow> Inl (InvalidJob e) | None \<Rightarrow> Inr job)), rest))"

section \<open>Specification vocabulary\<close>

text \<open>The codec reads a job back as it was written.\<close>

definition codec_ok :: "job_codec \<Rightarrow> Job \<Rightarrow> bool" where
  "codec_ok c j \<longleftrightarrow> unmarshal c (marshal c j) = Some j"

fun enqueue_all :: "('q \<Rightarrow> Job \<Rightarrow> queue_error + 'q) \<Rightarrow> Job list \<Rightarrow> 'q \<Rightarrow> queue_error + 'q" where
  "enqueue_all enq [] q = Inr q"
| "enqueue_all enq (j # js) q = (case enq q j of Inl e \<Rightarrow> Inl e | Inr q' \<Rightarrow> enqueue_all enq js q')"

fun dequeue_n :: "('q \<Rightarrow> (queue_error + Job) \<times> 'q) \<Rightarrow> nat \<Rightarrow> 'q \<Rightarrow> (queue_error + Job) list \<times> 'q" where
  "dequeue_n deq 0 q = ([], q)"
| "dequeue_n deq (Suc n) q = (let (r, q') = deq q; (rs, q'') = dequeue_n deq n q' in (r # rs, q''))"

definition sample_job :: "string \<Rightarrow> Job" where
  "sample_job sid = \<lparr>j_ScanID = sid, j_ProjectID = ''p1'',
     j_Target = zero_Target\<lparr>t_Kind := KindFilesystem, t_Path := ''app''\<rparr>, j_Scanners = [],
     j_EnqueuedAt = 0, j_Attempt = 1\<rparr>"

section \<open>The queue contract\<close>

locale job_queue =
  fixes waiting :: "'q \<Rightarrow> Job list"
    and enq :: "'q \<Rightarrow> Job \<Rightarrow> queue_error + 'q"
    and deq :: "'q \<Rightarrow> (queue_error + Job) \<times> 'q"
    and stamped :: "Job \<Rightarrow> Job"
  assumes enq_invalid: "Job_Validate j = Some e \<Longrightarrow> enq q j = Inl (InvalidJob e)"
    and enq_appends: "enq q j = Inr q' \<Longrightarrow> waiting q' = waiting q @ [stamped j]"
    and deq_first: "waiting q = j # js \<Longrightarrow> \<exists>q'. deq q = (Inr j, q') \<and> waiting q' = js"
    and deq_empty: "waiting q = [] \<Longrightarrow> \<exists>e. deq q = (Inl e, q)"
begin

lemma enqueue_all_appends:
  "enqueue_all enq js q = Inr q' \<Longrightarrow> waiting q' = waiting q @ map stamped js \<and> list_all (\<lambda>j. Job_Validate j = None) js"
proof (induction js arbitrary: q)
  case (Cons j js)
  then obtain q1 where q1: "enq q j = Inr q1" "enqueue_all enq js q1 = Inr q'" by (auto split: sum.splits)
  then have "Job_Validate j = None" using enq_invalid [of j _ q] by (cases "Job_Validate j") auto
  with Cons.IH [OF q1(2)] enq_appends [OF q1(1)] show ?case by simp
qed simp

lemma dequeue_n_waiting:
  "n \<le> length (waiting q) \<Longrightarrow>
   fst (dequeue_n deq n q) = map Inr (take n (waiting q)) \<and> waiting (snd (dequeue_n deq n q)) = drop n (waiting q)"
proof (induction n arbitrary: q)
  case (Suc n)
  then obtain j js where js: "waiting q = j # js" by (cases "waiting q") auto
  obtain q' where q': "deq q = (Inr j, q')" "waiting q' = js" using deq_first [OF js] by blast
  have "n \<le> length (waiting q')" using Suc.prems js q' by simp
  from Suc.IH [OF this] js q' show ?case by (auto simp: split_def)
qed simp

lemma fifo:
  assumes "enqueue_all enq js q = Inr q'" "n = length (waiting q) + length js"
  shows "fst (dequeue_n deq n q') = map Inr (waiting q @ map stamped js) \<and>
    waiting (snd (dequeue_n deq n q')) = [] \<and> list_all (\<lambda>j. Job_Validate j = None) js"
  using enqueue_all_appends [OF assms(1)] dequeue_n_waiting [of n q'] assms(2) by simp

end

interpretation memory: job_queue mem_jobs "\<lambda>m j. Memory_Enqueue now j m" "Memory_Dequeue []" "stamp now" for now
proof unfold_locales
  fix j e and q :: Memory assume "Job_Validate j = Some e"
  then show "Memory_Enqueue now j q = Inl (InvalidJob e)" by (simp add: Memory_Enqueue_def)
next
  fix q j and q' :: Memory assume "Memory_Enqueue now j q = Inr q'"
  then show "mem_jobs q' = mem_jobs q @ [stamp now j]" by (auto simp: Memory_Enqueue_def split: option.splits)
next
  fix j js and q :: Memory assume "mem_jobs q = j # js"
  then show "\<exists>q'. Memory_Dequeue [] q = (Inr j, q') \<and> mem_jobs q' = js"
    by (simp add: Memory_Dequeue.simps [of "[]"])
next
  fix q :: Memory assume "mem_jobs q = []"
  then show "\<exists>e. Memory_Dequeue [] q = (Inl e, q)" by (simp add: Memory_Dequeue.simps [of "[]"])
qed

text \<open>
  Jobs are delivered once, in order. Whatever is waiting and whichever jobs are accepted after
  it, as many dequeues return first the waiting jobs and then the accepted ones, each once and in
  the order of acceptance, stamped if they carried no time; then the queue is empty, and nothing
  malformed was ever accepted.
\<close>

theorem memory_delivers_in_order:
  assumes "enqueue_all (\<lambda>m j. Memory_Enqueue now j m) js m = Inr m'"
  shows "dequeue_n (Memory_Dequeue []) (length (mem_jobs m) + length js) m' =
      (map Inr (mem_jobs m @ map (stamp now) js), \<lparr>mem_jobs = []\<rparr>) \<and>
    list_all (\<lambda>j. Job_Validate j = None) js \<and> Memory_Len m' = Memory_Len m + int (length js)"
  using memory.fifo [OF assms refl] memory.enqueue_all_appends [OF assms]
  by (auto simp: prod_eq_iff Memory_Len_def intro: Memory.equality)

theorem memory_delivers_in_order_witness:
  "\<exists>m'. enqueue_all (\<lambda>m j. Memory_Enqueue 7 j m) [sample_job ''a'', sample_job ''b''] NewMemory = Inr m' \<and>
     fst (dequeue_n (Memory_Dequeue []) 2 m') = [Inr (stamp 7 (sample_job ''a'')), Inr (stamp 7 (sample_job ''b''))]"
proof -
  have "\<exists>m'. enqueue_all (\<lambda>m j. Memory_Enqueue 7 j m) [sample_job ''a'', sample_job ''b''] NewMemory = Inr m'"
    by (simp add: Memory_Enqueue_def Job_Validate_def sample_job_def Kind_Valid_def Kinds_def)
  then obtain m' where m: "enqueue_all (\<lambda>m j. Memory_Enqueue 7 j m) [sample_job ''a'', sample_job ''b''] NewMemory = Inr m'"
    by blast
  have l: "length (mem_jobs NewMemory) + length [sample_job ''a'', sample_job ''b''] = 2" by (simp add: NewMemory_def)
  have "fst (dequeue_n (Memory_Dequeue []) 2 m') = [Inr (stamp 7 (sample_job ''a'')), Inr (stamp 7 (sample_job ''b''))]"
    unfolding memory_delivers_in_order [OF m, THEN conjunct1, unfolded l] by (simp add: NewMemory_def)
  with m show ?thesis by blast
qed

section \<open>Redis\<close>

text \<open>
  The Redis queue carries jobs unchanged and cannot be blocked by a bad payload. An accepted job
  comes back, as it was stamped, as soon as the payloads before it are gone; every dequeue of a
  non-empty list removes exactly the first payload, even one that is oversized, malformed or holds
  an invalid job, and returns only jobs that validate.
\<close>

theorem redis_carries_jobs:
  assumes "codec_ok c (stamp now job)"
  shows "(Redis_Enqueue c up now job q = Inr q' \<longrightarrow>
      (\<exists>payload. q' = q @ [payload] \<and> Redis_Dequeue c True (payload # rest) = (Inr (stamp now job), rest))) \<and>
    (q \<noteq> [] \<longrightarrow> snd (Redis_Dequeue c True q) = tl q) \<and>
    (fst (Redis_Dequeue c up' q) = Inr j \<longrightarrow> Job_Validate j = None \<and> up' \<and> q \<noteq> [])"
proof -
  have v: "Job_Validate (stamp now job) = Job_Validate job" by (simp add: stamp_def Job_Validate_def)
  have "\<exists>payload. q' = q @ [payload] \<and> Redis_Dequeue c True (payload # rest) = (Inr (stamp now job), rest)"
    if e: "Redis_Enqueue c up now job q = Inr q'"
  proof (intro exI conjI)
    have ok: "Job_Validate job = None" "length (marshal c (stamp now job)) \<le> maxPayloadBytes"
      "q' = q @ [marshal c (stamp now job)]"
      using e by (auto simp: Redis_Enqueue_def Let_def split: option.splits if_splits)
    show "q' = q @ [marshal c (stamp now job)]" by (rule ok(3))
    show "Redis_Dequeue c True (marshal c (stamp now job) # rest) = (Inr (stamp now job), rest)"
      using ok(1,2) v assms by (simp add: Redis_Dequeue_def codec_ok_def)
  qed
  moreover have "q \<noteq> [] \<Longrightarrow> snd (Redis_Dequeue c True q) = tl q"
    by (cases q) (auto simp: Redis_Dequeue_def)
  moreover have "fst (Redis_Dequeue c up' q) = Inr j \<Longrightarrow> Job_Validate j = None \<and> up' \<and> q \<noteq> []"
    by (cases q) (auto simp: Redis_Dequeue_def split: if_splits option.splits)
  ultimately show ?thesis by blast
qed

theorem redis_carries_jobs_witness:
  "let c = \<lparr>marshal = (\<lambda>j. j_ScanID j), unmarshal = (\<lambda>s. Some (stamp 7 (sample_job s)))\<rparr> in
   Redis_Enqueue c True 7 (sample_job ''a'') [] = Inr [''a''] \<and>
   Redis_Dequeue c True [''a'', ''b''] = (Inr (stamp 7 (sample_job ''a'')), [''b''])"
proof -
  let ?c = "\<lparr>marshal = (\<lambda>j. j_ScanID j), unmarshal = (\<lambda>s. Some (stamp 7 (sample_job s)))\<rparr>"
  have id: "j_ScanID (stamp 7 (sample_job ''a'')) = ''a''" by (simp add: stamp_def sample_job_def)
  then have ok: "codec_ok ?c (stamp 7 (sample_job ''a''))" by (simp add: codec_ok_def)
  have e: "Redis_Enqueue ?c True 7 (sample_job ''a'') [] = Inr [''a'']"
    using id by (simp add: Redis_Enqueue_def Job_Validate_def Kind_Valid_def Kinds_def Let_def) (simp add: sample_job_def)
  from redis_carries_jobs [OF ok, of True "[]" "[''a'']" "[''b'']"] e show ?thesis by (simp add: Let_def)
qed

end
