(* ===== verification/Sbom.thy ===== *)
theory Sbom
  imports Targets
begin

text \<open>
  Bills of materials: \<open>internal/sbom/sbom.go\<close>. The JSON decoder is a parameter that returns the
  decoded document or nothing. The lemmas show what a parsed inventory holds, that no value in it
  exceeds the bound the database checks, and that a document over the cap says so.
\<close>

section \<open>Model\<close>

abbreviation MaxComponents :: nat where "MaxComponents \<equiv> 10000"
abbreviation MaxNameLength_bom :: nat where "MaxNameLength_bom \<equiv> 512"
abbreviation MaxPURLLength :: nat where "MaxPURLLength \<equiv> 1024"
abbreviation MaxVersionLength :: nat where "MaxVersionLength \<equiv> 256"
abbreviation MaxTypeLength :: nat where "MaxTypeLength \<equiv> 64"
abbreviation MaxCPELength :: nat where "MaxCPELength \<equiv> 1024"
abbreviation MaxLocationLength :: nat where "MaxLocationLength \<equiv> 1024"

record Component =
  cp_PURL :: string
  cp_Name :: string
  cp_Version :: string
  cp_Type :: string
  cp_CPE :: string
  cp_Location :: string

record BomResult =
  bom_Components :: "Component list"
  bom_Degradations :: "Degradation list"

record property =
  pr_Name :: string
  pr_Value :: string

record rawComponent =
  rc_Type :: string
  rc_Name :: string
  rc_Version :: string
  rc_PURL :: string
  rc_CPE :: string
  rc_Properties :: "property list"

record document =
  doc_BOMFormat :: string
  doc_Components :: "rawComponent list"

record BomArtifact =
  art_PURLs :: "string list"
  art_ScanID :: string
  art_ScannedAt :: time
  art_Complete :: bool
  art_Found :: bool

datatype bom_error = EmptyOutput | NotJSON | WrongFormat string

abbreviation locationPrefix :: string where "locationPrefix \<equiv> ''syft:location:''"
abbreviation locationSuffix :: string where "locationSuffix \<equiv> '':path''"

fun locationOf :: "property list \<Rightarrow> string" where
  "locationOf [] = []"
| "locationOf (p # ps) =
     (if prefix locationPrefix (pr_Name p) \<and> suffix locationSuffix (pr_Name p)
      then TrimSpace (pr_Value p) else locationOf ps)"

definition clamp :: "string \<Rightarrow> nat \<Rightarrow> string" where
  "clamp s n = (if length s \<le> n then s else take n s)"

fun parse_components :: "rawComponent list \<Rightarrow> Component list" where
  "parse_components [] = []"
| "parse_components (rc # rest) =
     (let name = TrimSpace (rc_Name rc) in
      if name = [] then parse_components rest
      else \<lparr>cp_PURL = clamp (rc_PURL rc) MaxPURLLength, cp_Name = clamp name MaxNameLength_bom,
             cp_Version = clamp (TrimSpace (rc_Version rc)) MaxVersionLength,
             cp_Type = clamp (TrimSpace (rc_Type rc)) MaxTypeLength,
             cp_CPE = clamp (TrimSpace (rc_CPE rc)) MaxCPELength,
             cp_Location = clamp (locationOf (rc_Properties rc)) MaxLocationLength\<rparr>
           # parse_components rest)"

definition Bom_Parse :: "(string \<Rightarrow> document option) \<Rightarrow> string \<Rightarrow> bom_error + BomResult" where
  "Bom_Parse unmarshal data =
     (let trimmed = TrimSpace data in
      if trimmed = [] then Inl EmptyOutput
      else case unmarshal trimmed of
        None \<Rightarrow> Inl NotJSON
      | Some doc \<Rightarrow>
          if doc_BOMFormat doc \<noteq> ''CycloneDX'' then Inl (WrongFormat (doc_BOMFormat doc))
          else
            let raw = doc_Components doc;
                over = length raw > MaxComponents;
                raw' = (if over then take MaxComponents raw else raw)
            in Inr \<lparr>bom_Components = parse_components raw',
                    bom_Degradations = (if over then [DegradedSBOMTruncated] else [])\<rparr>)"

section \<open>Specification vocabulary\<close>

definition within_bounds :: "Component \<Rightarrow> bool" where
  "within_bounds c \<longleftrightarrow> length (cp_PURL c) \<le> MaxPURLLength \<and> 0 < length (cp_Name c) \<and>
     length (cp_Name c) \<le> MaxNameLength_bom \<and> length (cp_Version c) \<le> MaxVersionLength \<and>
     length (cp_Type c) \<le> MaxTypeLength \<and> length (cp_CPE c) \<le> MaxCPELength \<and>
     length (cp_Location c) \<le> MaxLocationLength"

definition sample_document :: "string \<Rightarrow> document option" where
  "sample_document s = Some \<lparr>doc_BOMFormat = ''CycloneDX'', doc_Components =
     [\<lparr>rc_Type = ''library'', rc_Name = s, rc_Version = ''1'', rc_PURL = ''pkg:npm/a@1'', rc_CPE = [],
       rc_Properties = [\<lparr>pr_Name = ''syft:location:0:path'', pr_Value = '' /go.mod''\<rparr>]\<rparr>,
      \<lparr>rc_Type = ''file'', rc_Name = '' '', rc_Version = [], rc_PURL = [], rc_CPE = [], rc_Properties = []\<rparr>]\<rparr>"

section \<open>Properties\<close>

lemma clamp_bound [simp]: "length (clamp s n) \<le> n"
  by (simp add: clamp_def)

lemma clamp_nonempty [simp]: "0 < n \<Longrightarrow> clamp s n = [] \<longleftrightarrow> s = []"
  by (auto simp: clamp_def)

lemma clamp_prefix: "clamp s n = take n s"
  by (simp add: clamp_def)

lemma parse_components_names:
  "map (\<lambda>c. (cp_Name c, cp_PURL c)) (parse_components rcs) =
     map (\<lambda>rc. (take MaxNameLength_bom (TrimSpace (rc_Name rc)), take MaxPURLLength (rc_PURL rc)))
       (filter (\<lambda>rc. TrimSpace (rc_Name rc) \<noteq> []) rcs)"
  by (induction rcs) (simp_all add: Let_def clamp_prefix)

lemma parse_components_bounds: "c \<in> set (parse_components rcs) \<Longrightarrow> within_bounds c"
  by (induction rcs) (auto simp: Let_def within_bounds_def split: if_splits)

lemma parse_components_length: "length (parse_components rcs) \<le> length rcs"
  by (induction rcs) (auto simp: Let_def)

text \<open>
  An inventory is bounded, and a cut one says so. Parsing fails exactly on blank output, on
  output that is not JSON and on a document that is not CycloneDX. Otherwise the result holds at most
  ten thousand components, each with a name and with every value within its bound; it is marked as
  truncated exactly when the document lists more; and when it is not, every named entry is there, in
  the order of the document, under its name and package URL up to their bounds.
\<close>

theorem inventory_is_bounded:
  "case Bom_Parse unmarshal data of
     Inl e \<Rightarrow> TrimSpace data = [] \<or> unmarshal (TrimSpace data) = None \<or>
       doc_BOMFormat (the (unmarshal (TrimSpace data))) \<noteq> ''CycloneDX''
   | Inr r \<Rightarrow> \<exists>doc. TrimSpace data \<noteq> [] \<and> unmarshal (TrimSpace data) = Some doc \<and> doc_BOMFormat doc = ''CycloneDX'' \<and>
       length (bom_Components r) \<le> MaxComponents \<and> list_all within_bounds (bom_Components r) \<and>
       (bom_Degradations r = [] \<longleftrightarrow> length (doc_Components doc) \<le> MaxComponents) \<and>
       (bom_Degradations r = [] \<longrightarrow>
          map (\<lambda>c. (cp_Name c, cp_PURL c)) (bom_Components r) =
          map (\<lambda>rc. (take MaxNameLength_bom (TrimSpace (rc_Name rc)), take MaxPURLLength (rc_PURL rc)))
            (filter (\<lambda>rc. TrimSpace (rc_Name rc) \<noteq> []) (doc_Components doc)))"
proof (cases "Bom_Parse unmarshal data")
  case (Inl e)
  then show ?thesis by (auto simp: Bom_Parse_def Let_def split: if_splits option.splits)
next
  case (Inr r)
  then obtain doc where doc: "TrimSpace data \<noteq> []" "unmarshal (TrimSpace data) = Some doc"
    "doc_BOMFormat doc = ''CycloneDX''" by (auto simp: Bom_Parse_def Let_def split: if_splits option.splits)
  let ?raw = "take MaxComponents (doc_Components doc)"
  have r: "bom_Components r = parse_components ?raw"
    "bom_Degradations r = [] \<longleftrightarrow> length (doc_Components doc) \<le> MaxComponents"
    using Inr doc by (auto simp: Bom_Parse_def Let_def split: if_splits)
  have "length (bom_Components r) \<le> MaxComponents"
    using parse_components_length [of ?raw] r(1) by simp
  then show ?thesis
    using Inr doc r parse_components_bounds parse_components_names by (auto simp: list_all_iff)
qed

theorem inventory_is_bounded_witness:
  "\<exists>r. Bom_Parse sample_document ''left-pad'' = Inr r \<and> list_all within_bounds (bom_Components r) \<and>
     map (\<lambda>c. (cp_Name c, cp_PURL c)) (bom_Components r) = [(''left-pad'', ''pkg:npm/a@1'')]"
proof -
  let ?x = "Bom_Parse sample_document ''left-pad''"
  have e: "TrimSpace ''left-pad'' = ''left-pad''" "TrimSpace '' '' = []" by code_simp+
  have "\<not> isl ?x" by (simp add: Bom_Parse_def Let_def e sample_document_def)
  then obtain r where r: "?x = Inr r" by (cases ?x) auto
  have "bom_Degradations r = []" using r by (auto simp: Bom_Parse_def Let_def e sample_document_def)
  then show ?thesis
    using inventory_is_bounded [where unmarshal = sample_document and data = "''left-pad''"] unfolding r e
    by (simp add: sample_document_def e)
qed

end
