(* ===== verification/Runner.thy ===== *)
theory Runner
  imports Scan_Exec Queues Policies Correlation Sbom
begin

text \<open>
  The worker: \<open>internal/worker/runner.go\<close>. A job is executed against an environment that holds the
  runner's options and answers every question it asks of the outside. What the runner does to the
  outside is a trace of calls, in order, each with its arguments; an answer may depend on the trace
  so far. The consuming loop of \<open>Run\<close> is a step relation. The lemmas show that a job ends once, in a
  terminal state, with its stages in order, what a completed scan and a passing verdict stand for,
  and that the loop bounds and drains the jobs in flight.
\<close>

section \<open>Calls and environment\<close>

datatype call =
    MarkRunning string time
  | Executed Request
  | RecordCheckout string string string
  | StoreRaw string RawResult
  | RecordComponents string string string "Component list"
  | RecordScannerResult string ScannerResult
  | StoreFindings string string DedupResult "string list" time
  | ReplaceCorrelation string CResult
  | SaveRiskScore string string Assessment string
  | SaveResult string string Policy GateResult time
  | Finalize string ScanState FailureReason time

type_synonym trace = "call list"

record FindingReads =
  ListLiveForCorrelation :: "trace \<Rightarrow> string \<Rightarrow> CSubject list option"
  LoadRiskInputs :: "trace \<Rightarrow> string \<Rightarrow> (RiskSubject list \<times> RiskContext) option"

text \<open>
  The options, with an optional store absent as \<open>None\<close>; \<open>accepts\<close> is whether a write succeeds. An
  adapter that is no \<open>Normalizer\<close> or no \<open>Inventorier\<close> has none, and a parser returns nothing when
  it fails.
\<close>

record Worker =
  o_Registry :: Registry
  o_Validator :: Validator
  o_MaxAttempts :: int
  o_Concurrency :: int
  o_Sink :: bool
  o_Findings :: "FindingReads option"
  o_ArtifactFor :: "(trace \<Rightarrow> string \<Rightarrow> BomArtifact option) option"
  o_PolicyGet :: "(trace \<Rightarrow> string \<Rightarrow> Policy option) option"
  o_Normalizer :: "string \<Rightarrow> (string \<Rightarrow> string \<Rightarrow> NormResult option) option"
  o_Inventorier :: "string \<Rightarrow> (string \<Rightarrow> BomResult option) option"
  o_Execute :: "Request \<Rightarrow> Event list \<times> exec_error option"
  o_accepts :: "trace \<Rightarrow> call \<Rightarrow> bool"
  o_now :: "trace \<Rightarrow> time"
  o_cancelled :: "trace \<Rightarrow> bool"

definition applyDefaults :: "Worker \<Rightarrow> Worker" where
  "applyDefaults o1 = o1\<lparr>o_Concurrency := (if o_Concurrency o1 \<le> 0 then 2 else o_Concurrency o1),
     o_MaxAttempts := (if o_MaxAttempts o1 \<le> 0 then 3 else o_MaxAttempts o1)\<rparr>"

text \<open>Whether a write is accepted, and the trace with it.\<close>

definition attempt :: "Worker \<Rightarrow> call \<Rightarrow> trace \<Rightarrow> bool \<times> trace" where
  "attempt w c tr = (o_accepts w tr c, tr @ [c])"

section \<open>One scanner's outcome\<close>

definition recordInventory :: "Worker \<Rightarrow> (string \<Rightarrow> BomResult option) \<Rightarrow> string \<Rightarrow> string \<Rightarrow> string \<Rightarrow> string \<Rightarrow>
    trace \<Rightarrow> Degradation list \<times> trace" where
  "recordInventory w parse scanID projectID scanner raw tr =
     (case o_ArtifactFor w of
        None \<Rightarrow> ([], tr)
      | Some _ \<Rightarrow>
          (case parse raw of
             None \<Rightarrow> ([], tr)
           | Some result \<Rightarrow>
               (case attempt w (RecordComponents scanID projectID scanner (bom_Components result)) tr of
                  (False, tr) \<Rightarrow> ([], tr)
                | (True, tr) \<Rightarrow> (bom_Degradations result, tr))))"

definition ingest :: "Worker \<Rightarrow> Job \<Rightarrow> Execution \<Rightarrow> trace \<Rightarrow> (ScannerResult \<times> NormResult option) \<times> trace" where
  "ingest w job x tr =
     (let result = x_Result x; name = sr_Scanner result in
      if sr_Status result \<noteq> ScannerSucceeded then ((result, None), tr)
      else
        let tr = (if o_Sink w then snd (attempt w (StoreRaw (j_ScanID job) (x_Raw x)) tr) else tr) in
        case Registry_Get (o_Registry w) name of
          None \<Rightarrow> ((result, None), tr)
        | Some _ \<Rightarrow>
            (let (result, tr) =
               (case o_Inventorier w name of
                  None \<Rightarrow> (result, tr)
                | Some parse \<Rightarrow>
                    let bom = (if length (x_Inventory x) = 0 then raw_Output (x_Raw x) else x_Inventory x) in
                    if length bom > 0 then
                      (case recordInventory w parse (j_ScanID job) (j_ProjectID job) name bom tr of
                         (ds, tr) \<Rightarrow> (result\<lparr>sr_Degradations := sr_Degradations result @ ds\<rparr>, tr))
                    else (result, tr))
             in case o_Normalizer w name of
                  None \<Rightarrow> ((result, None), tr)
                | Some mapper \<Rightarrow>
                    if length (raw_Output (x_Raw x)) > 0
                    then ((result, mapper (raw_Output (x_Raw x)) (j_ScanID job)), tr)
                    else ((result, None), tr)))"

text \<open>The two callbacks handed to the executor, on the scan, the normalized results and the trace.\<close>

definition on_event :: "Worker \<Rightarrow> Job \<Rightarrow> Scan \<times> NormResult list \<times> trace \<Rightarrow> Event \<Rightarrow> Scan \<times> NormResult list \<times> trace" where
  "on_event w job s ev =
     (case s of (scan, normalized, tr) \<Rightarrow>
        (case ev of
           Checkout commitSHA branch \<Rightarrow>
             (scan, normalized, snd (attempt w (RecordCheckout (j_ScanID job) commitSHA branch) tr))
         | ScannerDone x \<Rightarrow>
             (case ingest w job x tr of ((result, nr), tr) \<Rightarrow>
                (RecordResult result scan,
                 (case nr of None \<Rightarrow> normalized | Some n \<Rightarrow> normalized @ [n]),
                 snd (attempt w (RecordScannerResult (j_ScanID job) result) tr)))))"

section \<open>The derived stages\<close>

record scored =
  scd_subjects :: "RiskSubject list"
  scd_context :: RiskContext
  scd_assessment :: Assessment

definition zero_Inventory :: Inventory where
  "zero_Inventory = \<lparr>PURLs = {}, Inventory.Complete = False, InvScanID = [], ScannedAt = 0\<rparr>"

definition artifact_of :: "Worker \<Rightarrow> string \<Rightarrow> trace \<Rightarrow> Inventory" where
  "artifact_of w projectID tr =
     (case o_ArtifactFor w of
        None \<Rightarrow> zero_Inventory
      | Some read \<Rightarrow>
          (case read tr projectID of
             None \<Rightarrow> zero_Inventory
           | Some art \<Rightarrow>
               if art_Found art
               then NewInventory (art_ScanID art) (art_ScannedAt art) (art_PURLs art) (art_Complete art)
               else zero_Inventory))"

definition correlate_stage :: "golib \<Rightarrow> Worker \<Rightarrow> FindingReads \<Rightarrow> string \<Rightarrow> trace \<Rightarrow> trace" where
  "correlate_stage L w fr projectID tr =
     (case ListLiveForCorrelation fr tr projectID of
        None \<Rightarrow> tr
      | Some subjects \<Rightarrow>
          snd (attempt w (ReplaceCorrelation projectID
            (CorrelateWith L subjects \<lparr>MaxBucketSize = 0, Artifact = artifact_of w projectID tr\<rparr>)) tr))"

definition score_stage :: "golib \<Rightarrow> Worker \<Rightarrow> FindingReads \<Rightarrow> string \<Rightarrow> string \<Rightarrow> trace \<Rightarrow> scored option \<times> trace" where
  "score_stage L w fr projectID scanID tr =
     (case LoadRiskInputs fr tr projectID of
        None \<Rightarrow> (None, tr)
      | Some (subjects, projectCtx) \<Rightarrow>
          let assessment = Assess L subjects projectCtx in
          (case attempt w (SaveRiskScore projectID scanID assessment (Digest L DefaultWeights)) tr of
             (False, tr) \<Rightarrow> (None, tr)
           | (True, tr) \<Rightarrow>
               (Some \<lparr>scd_subjects = subjects, scd_context = projectCtx, scd_assessment = assessment\<rparr>, tr)))"

definition complete_scanners :: "Scan \<Rightarrow> string list" where
  "complete_scanners scan = map sr_Scanner (filter Succeeded (sc_Results scan))"

definition persistFindings :: "golib \<Rightarrow> Worker \<Rightarrow> Job \<Rightarrow> Scan \<Rightarrow> NormResult list \<Rightarrow> trace \<Rightarrow> scored option \<times> trace" where
  "persistFindings L w job scan normalized tr =
     (case o_Findings w of
        None \<Rightarrow> (None, tr)
      | Some fr \<Rightarrow>
          if length normalized = 0 then (None, tr)
          else
            (case attempt w (StoreFindings (j_ProjectID job) (j_ScanID job) (Combine normalized)
                    (complete_scanners scan) (o_now w tr)) tr of
               (False, tr) \<Rightarrow> (None, tr)
             | (True, tr) \<Rightarrow>
                 score_stage L w fr (j_ProjectID job) (j_ScanID job)
                   (correlate_stage L w fr (j_ProjectID job) tr)))"

definition gate :: "golib \<Rightarrow> Worker \<Rightarrow> Job \<Rightarrow> scored option \<Rightarrow> ScanState \<Rightarrow> trace \<Rightarrow> trace" where
  "gate L w job sc status tr =
     (case (o_PolicyGet w, sc) of
        (Some get, Some sc) \<Rightarrow>
          (case get tr (j_ProjectID job) of
             None \<Rightarrow> tr
           | Some policy \<Rightarrow>
               (case Evaluate L policy (InputFrom (scd_subjects sc) (a_Score (scd_assessment sc)) status
                       (status = StatusCompleted)) of
                  Inl _ \<Rightarrow> tr
                | Inr result \<Rightarrow>
                    snd (attempt w (SaveResult (j_ProjectID job) (j_ScanID job) policy result (o_now w tr)) tr)))
      | _ \<Rightarrow> tr)"

definition finalize :: "Worker \<Rightarrow> string \<Rightarrow> ScanState \<Rightarrow> FailureReason \<Rightarrow> trace \<Rightarrow> trace" where
  "finalize w scanID status reason tr = snd (attempt w (Finalize scanID status reason (o_now w tr)) tr)"

section \<open>A job\<close>

definition new_scan :: "Job \<Rightarrow> Target \<Rightarrow> Scan" where
  "new_scan job target = \<lparr>sc_ID = j_ScanID job, sc_ProjectID = [], sc_RepositoryID = None,
     sc_Status = StatusRunning, sc_Target = target, sc_CommitSHA = [], sc_Branch = [],
     sc_RequestedScanners = [], sc_FailureReason = [], sc_Results = [], sc_QueuedAt = 0,
     sc_StartedAt = None, sc_CompletedAt = None\<rparr>"

text \<open>What follows an execution that returned no error.\<close>

definition settle :: "golib \<Rightarrow> Worker \<Rightarrow> Job \<Rightarrow> Scan \<times> NormResult list \<times> trace \<Rightarrow> trace" where
  "settle L w job s =
     (case s of (scan, normalized, tr) \<Rightarrow>
        (case persistFindings L w job scan normalized tr of (sc, tr) \<Rightarrow>
           let status = (if o_cancelled w tr then StatusCancelled else TerminalStatus scan);
               reason = (if status = StatusFailed then FailureAllScannersDegraded else [])
           in finalize w (j_ScanID job) status reason (gate L w job sc status tr)))"

definition executeJob :: "golib \<Rightarrow> Worker \<Rightarrow> Job \<Rightarrow> trace \<Rightarrow> trace" where
  "executeJob L w job tr =
     (if j_Attempt job > o_MaxAttempts w
      then finalize w (j_ScanID job) StatusFailed FailureMaxAttemptsExceeded tr
      else case Target_Validate L (o_Validator w) (j_Target job) of
        Inl _ \<Rightarrow> finalize w (j_ScanID job) StatusFailed FailureTargetInvalid tr
      | Inr target \<Rightarrow>
          (case Resolve (o_Registry w) (EffectiveKind (t_Kind target)) (j_Scanners job) of
             Inl _ \<Rightarrow> finalize w (j_ScanID job) StatusFailed
               (if length (j_Scanners job) > 0 then FailureScannerNotRegistered else FailureNoScannerAvailable) tr
           | Inr selected \<Rightarrow>
               (case attempt w (MarkRunning (j_ScanID job) (o_now w tr)) tr of
                  (False, tr) \<Rightarrow> tr
                | (True, tr) \<Rightarrow>
                    let req = \<lparr>rq_ScanID = j_ScanID job, rq_ProjectID = j_ProjectID job,
                          rq_Target = target, rq_Scanners = selected\<rparr>;
                        (events, err) = o_Execute w req;
                        s = foldl (on_event w job) (new_scan job target, [], tr @ [Executed req]) events
                    in case err of
                         Some (FatalError reason) \<Rightarrow>
                           finalize w (j_ScanID job) StatusFailed reason (snd (snd s))
                       | Some OtherError \<Rightarrow>
                           finalize w (j_ScanID job) StatusFailed FailureAllScannersDegraded (snd (snd s))
                       | None \<Rightarrow> settle L w job s)))"

section \<open>The consuming loop\<close>

text \<open>
  The state of \<open>Run\<close>: the dequeued job that waits for a slot, the jobs in flight, the slots taken, the
  jobs that ended, normally or by a recovered panic, the jobs dropped at shutdown, all jobs dequeued
  so far, and where the loop is.
\<close>

record Loop =
  lp_holding :: "Job option"
  lp_inflight :: "Job list"
  lp_sem :: nat
  lp_ended :: "Job list"
  lp_dropped :: "Job list"
  lp_taken :: "Job list"
  lp_consuming :: bool
  lp_returned :: bool

definition loop_start :: Loop where
  "loop_start = \<lparr>lp_holding = None, lp_inflight = [], lp_sem = 0, lp_ended = [], lp_dropped = [], lp_taken = [],
     lp_consuming = True, lp_returned = False\<rparr>"

inductive run_step :: "int \<Rightarrow> Loop \<Rightarrow> Loop \<Rightarrow> bool" for concurrency where
  dequeued: "lp_consuming s \<Longrightarrow> lp_holding s = None \<Longrightarrow>
    run_step concurrency s (s\<lparr>lp_holding := Some j, lp_taken := lp_taken s @ [j]\<rparr>)"
| started: "lp_holding s = Some j \<Longrightarrow> int (lp_sem s) < concurrency \<Longrightarrow>
    run_step concurrency s (s\<lparr>lp_holding := None, lp_sem := lp_sem s + 1, lp_inflight := lp_inflight s @ [j]\<rparr>)"
| dropped: "lp_holding s = Some j \<Longrightarrow>
    run_step concurrency s (s\<lparr>lp_holding := None, lp_dropped := lp_dropped s @ [j], lp_consuming := False\<rparr>)"
| stopped: "lp_consuming s \<Longrightarrow> lp_holding s = None \<Longrightarrow> run_step concurrency s (s\<lparr>lp_consuming := False\<rparr>)"
| ended: "lp_inflight s = xs @ j # ys \<Longrightarrow>
    run_step concurrency s (s\<lparr>lp_inflight := xs @ ys, lp_sem := lp_sem s - 1, lp_ended := lp_ended s @ [j]\<rparr>)"
| returned: "\<not> lp_consuming s \<Longrightarrow> lp_inflight s = [] \<Longrightarrow> \<not> lp_returned s \<Longrightarrow>
    run_step concurrency s (s\<lparr>lp_returned := True\<rparr>)"

inductive_cases run_stepE: "run_step concurrency s s'"

section \<open>Specification vocabulary\<close>

text \<open>The stage of a job a call belongs to.\<close>

fun stage :: "call \<Rightarrow> nat" where
  "stage (MarkRunning _ _) = 0"
| "stage (Executed _) = 1"
| "stage (RecordCheckout _ _ _) = 2"
| "stage (StoreRaw _ _) = 2"
| "stage (RecordComponents _ _ _ _) = 2"
| "stage (RecordScannerResult _ _) = 2"
| "stage (StoreFindings _ _ _ _ _) = 3"
| "stage (ReplaceCorrelation _ _) = 4"
| "stage (SaveRiskScore _ _ _ _) = 5"
| "stage (SaveResult _ _ _ _ _) = 6"
| "stage (Finalize _ _ _ _) = 7"

definition recorded :: "trace \<Rightarrow> ScannerResult list" where
  "recorded cs = List.map_filter (\<lambda>c. case c of RecordScannerResult _ r \<Rightarrow> Some r | _ \<Rightarrow> None) cs"

text \<open>A recorded result against what the executor reported: the same, but for added degradations.\<close>

definition faithful :: "Execution \<Rightarrow> ScannerResult \<Rightarrow> bool" where
  "faithful x r \<longleftrightarrow> (\<exists>ds. r = (x_Result x)\<lparr>sr_Degradations := sr_Degradations (x_Result x) @ ds\<rparr>)"

text \<open>
  Every inventory the store took was read from the document of a reported scanner, and the next call
  records that scanner's result with the degradations of the inventory.
\<close>

definition document :: "Execution \<Rightarrow> string" where
  "document x = (if x_Inventory x = [] then raw_Output (x_Raw x) else x_Inventory x)"

definition inventories_told :: "Worker \<Rightarrow> Execution list \<Rightarrow> trace \<Rightarrow> trace \<Rightarrow> bool" where
  "inventories_told w xs tr cs \<longleftrightarrow> (\<forall>pre sid pid name comps post.
     cs = pre @ RecordComponents sid pid name comps # post \<and> o_accepts w (tr @ pre) (RecordComponents sid pid name comps) \<longrightarrow>
     (\<exists>x parse res r post'. x \<in> set xs \<and> sr_Scanner (x_Result x) = name \<and> o_Inventorier w name = Some parse \<and>
        parse (document x) = Some res \<and> bom_Components res = comps \<and>
        post = RecordScannerResult sid r # post' \<and> sr_Scanner r = name \<and>
        sr_Degradations r = sr_Degradations (x_Result x) @ bom_Degradations res))"

definition loop_ok :: "int \<Rightarrow> Loop \<Rightarrow> bool" where
  "loop_ok concurrency s \<longleftrightarrow> lp_sem s = length (lp_inflight s) \<and> int (lp_sem s) \<le> concurrency \<and>
     mset (lp_taken s) = mset (case lp_holding s of None \<Rightarrow> [] | Some j \<Rightarrow> [j]) +
       mset (lp_inflight s) + mset (lp_ended s) + mset (lp_dropped s) \<and>
     (lp_consuming s \<longrightarrow> lp_dropped s = []) \<and> length (lp_dropped s) \<le> 1 \<and>
     (\<not> lp_consuming s \<longrightarrow> lp_holding s = None) \<and>
     (lp_returned s \<longrightarrow> \<not> lp_consuming s \<and> lp_inflight s = [])"

definition sample_worker :: Worker where
  "sample_worker = \<lparr>o_Registry = [(''trivy'', sample_adapter ''trivy'')], o_Validator = sample_validator,
     o_MaxAttempts = 3, o_Concurrency = 2, o_Sink = True,
     o_Findings = None, o_ArtifactFor = None, o_PolicyGet = Some (\<lambda>_ _. Some DefaultPolicy),
     o_Normalizer = (\<lambda>_. Some (\<lambda>_ _. Some \<lparr>res_Findings = [], res_Occurrences = [], res_Errors = []\<rparr>)),
     o_Inventorier = (\<lambda>_. None), o_Execute = InProcess_Execute sample_exec,
     o_accepts = (\<lambda>_ _. True), o_now = (\<lambda>_. 7), o_cancelled = (\<lambda>_. False)\<rparr>"

definition passing_worker :: Worker where
  "passing_worker = sample_worker
     \<lparr>o_Findings := Some \<lparr>ListLiveForCorrelation = (\<lambda>_ _. Some []), LoadRiskInputs = (\<lambda>_ _. Some ([], sample_context))\<rparr>,
      o_PolicyGet := Some (\<lambda>_ _. Some (DefaultPolicy\<lparr>Rules := []\<rparr>))\<rparr>"

text \<open>Two scanners, of which the output of one cannot be normalized.\<close>

definition unreadable_worker :: Worker where
  "unreadable_worker = passing_worker
     \<lparr>o_Registry := [(''trivy'', sample_adapter ''trivy''), (''grype'', sample_adapter ''grype'')],
      o_Normalizer := (\<lambda>name. Some (\<lambda>_ _. if name = ''trivy'' then None
        else Some \<lparr>res_Findings = [], res_Occurrences = [], res_Errors = []\<rparr>)),
      o_PolicyGet := None\<rparr>"

definition sample_loop :: Loop where
  "sample_loop = \<lparr>lp_holding = None, lp_inflight = [sample_job ''s1''], lp_sem = 1, lp_ended = [], lp_dropped = [],
     lp_taken = [sample_job ''s1''], lp_consuming = False, lp_returned = False\<rparr>"

text \<open>What a job did once it was marked running.\<close>

definition job_ran :: "golib \<Rightarrow> Worker \<Rightarrow> Job \<Rightarrow> trace \<Rightarrow> trace \<Rightarrow> Target \<Rightarrow> ScannerAdapter list \<Rightarrow> trace \<Rightarrow> trace \<Rightarrow> bool" where
  "job_ran L w job tr cs target selected c2 rest \<longleftrightarrow>
     j_Attempt job \<le> o_MaxAttempts w \<and> Target_Validate L (o_Validator w) (j_Target job) = Inr target \<and>
     Resolve (o_Registry w) (EffectiveKind (t_Kind target)) (j_Scanners job) = Inr selected \<and>
     (\<exists>t. o_accepts w tr (MarkRunning (j_ScanID job) t) \<and>
        cs = [MarkRunning (j_ScanID job) t, Executed \<lparr>rq_ScanID = j_ScanID job, rq_ProjectID = j_ProjectID job,
        rq_Target = target, rq_Scanners = selected\<rparr>] @ c2 @ rest) \<and>
     (\<forall>c \<in> set c2. stage c = 2)"

section \<open>Calls of the stages\<close>

lemma recorded_simps [simp]:
  "recorded [] = []" "recorded (xs @ ys) = recorded xs @ recorded ys"
  "recorded (RecordScannerResult sid r # cs) = r # recorded cs" "recorded (RecordCheckout a b c # cs) = recorded cs"
  "recorded (StoreRaw a x # cs) = recorded cs" "recorded (RecordComponents a b c d # cs) = recorded cs"
  by (simp_all add: recorded_def map_filter_def)

lemma faithful_refl [simp]: "faithful x (x_Result x)"
  by (auto simp: faithful_def intro!: exI [of _ "[]"])

lemma told_none: "\<forall>sid pid name comps. RecordComponents sid pid name comps \<notin> set cs \<Longrightarrow> inventories_told w xs tr cs"
  unfolding inventories_told_def by (metis in_set_conv_decomp)

lemma told_late: "\<forall>c \<in> set cs. 3 \<le> stage c \<Longrightarrow> inventories_told w xs tr cs"
  by (rule told_none) fastforce

lemma told_append:
  assumes "inventories_told w xs tr cs" "inventories_told w ys (tr @ cs) cs'"
  shows "inventories_told w (xs @ ys) tr (cs @ cs')"
  unfolding inventories_told_def
proof (intro allI impI, elim conjE)
  fix pre sid pid name comps post
  let ?c = "RecordComponents sid pid name comps"
  assume eq: "cs @ cs' = pre @ ?c # post" and acc: "o_accepts w (tr @ pre) ?c"
  from eq consider post1 where "cs = pre @ ?c # post1" "post = post1 @ cs'" | pre2 where "pre = cs @ pre2" "cs' = pre2 @ ?c # post"
    by (auto simp: append_eq_append_conv2 append_eq_Cons_conv)
  then show "\<exists>x parse res r post'. x \<in> set (xs @ ys) \<and> sr_Scanner (x_Result x) = name \<and> o_Inventorier w name = Some parse \<and>
        parse (document x) = Some res \<and> bom_Components res = comps \<and>
        post = RecordScannerResult sid r # post' \<and> sr_Scanner r = name \<and>
        sr_Degradations r = sr_Degradations (x_Result x) @ bom_Degradations res"
  proof cases
    case 1
    with assms(1) acc obtain x parse res r post' where "x \<in> set xs" "sr_Scanner (x_Result x) = name"
      "o_Inventorier w name = Some parse" "parse (document x) = Some res" "bom_Components res = comps"
      "post1 = RecordScannerResult sid r # post'" "sr_Scanner r = name"
      "sr_Degradations r = sr_Degradations (x_Result x) @ bom_Degradations res"
      unfolding inventories_told_def by blast
    then show ?thesis using 1(2) by auto
  next
    case 2
    then have "o_accepts w ((tr @ cs) @ pre2) ?c" using acc by simp
    with assms(2) 2(2) obtain x parse res r post' where "x \<in> set ys" "sr_Scanner (x_Result x) = name"
      "o_Inventorier w name = Some parse" "parse (document x) = Some res" "bom_Components res = comps"
      "post = RecordScannerResult sid r # post'" "sr_Scanner r = name"
      "sr_Degradations r = sr_Degradations (x_Result x) @ bom_Degradations res"
      unfolding inventories_told_def by blast
    then show ?thesis by auto
  qed
qed

lemma recordInventory_calls:
  assumes "recordInventory w parse sid pid name raw tr = (ds, tr')"
  obtains cs where "tr' = tr @ cs" "\<forall>c \<in> set cs. stage c = 2" "recorded cs = []"
    "cs = [] \<or> (\<exists>res. parse raw = Some res \<and> cs = [RecordComponents sid pid name (bom_Components res)] \<and>
       (o_accepts w tr (RecordComponents sid pid name (bom_Components res)) \<longrightarrow> ds = bom_Degradations res))"
  using assms that
  by (auto simp: recordInventory_def attempt_def split: option.splits bool.splits)

lemma told_one:
  assumes "o_Inventorier w name = Some parse" "document x = raw" "sr_Scanner (x_Result x) = name"
    and "cs = [] \<or> (\<exists>res. parse raw = Some res \<and> cs = [RecordComponents sid pid name (bom_Components res)] \<and>
       (o_accepts w tr (RecordComponents sid pid name (bom_Components res)) \<longrightarrow> ds = bom_Degradations res))"
  shows "inventories_told w [x] tr
    (cs @ [RecordScannerResult sid ((x_Result x)\<lparr>sr_Degradations := sr_Degradations (x_Result x) @ ds\<rparr>)])"
  using assms(4)
proof
  assume "cs = []"
  then show ?thesis by (intro told_none) simp
next
  assume "\<exists>res. parse raw = Some res \<and> cs = [RecordComponents sid pid name (bom_Components res)] \<and>
       (o_accepts w tr (RecordComponents sid pid name (bom_Components res)) \<longrightarrow> ds = bom_Degradations res)"
  then obtain res where res: "parse raw = Some res" "cs = [RecordComponents sid pid name (bom_Components res)]"
    "o_accepts w tr (RecordComponents sid pid name (bom_Components res)) \<longrightarrow> ds = bom_Degradations res" by blast
  then show ?thesis using assms(1-3)
    by (auto simp: inventories_told_def Cons_eq_append_conv)
qed

lemma ingest_calls:
  obtains cs r n where "ingest w job x tr = ((r, n), tr @ cs)" "\<forall>c \<in> set cs. stage c = 2"
    "recorded cs = []" "faithful x r" "inventories_told w [x] tr (cs @ [RecordScannerResult (j_ScanID job) r])"
proof -
  define tr1 where "tr1 = (if o_Sink w then snd (attempt w (StoreRaw (j_ScanID job) (x_Raw x)) tr) else tr)"
  obtain c1 where c1: "tr1 = tr @ c1" "\<forall>c \<in> set c1. stage c = 2" "recorded c1 = []"
    "\<forall>sid pid name comps. RecordComponents sid pid name comps \<notin> set c1"
    by (cases "o_Sink w") (auto simp: tr1_def attempt_def)
  have none: "inventories_told w [x] tr [RecordScannerResult (j_ScanID job) r]"
    "inventories_told w [x] tr (c1 @ [RecordScannerResult (j_ScanID job) r])" for r
    by (rule told_none, use c1(4) in simp)+
  let ?bom = "if length (x_Inventory x) = 0 then raw_Output (x_Raw x) else x_Inventory x"
  let ?inv = "\<lambda>parse. recordInventory w parse (j_ScanID job) (j_ProjectID job) (sr_Scanner (x_Result x)) ?bom tr1"
  have "\<exists>cs r n. ingest w job x tr = ((r, n), tr @ cs) \<and> (\<forall>c \<in> set cs. stage c = 2) \<and> recorded cs = [] \<and> faithful x r \<and>
      inventories_told w [x] tr (cs @ [RecordScannerResult (j_ScanID job) r])"
  proof (cases "sr_Status (x_Result x) = ScannerSucceeded \<and> Registry_Get (o_Registry w) (sr_Scanner (x_Result x)) \<noteq> None")
    case False
    then show ?thesis using c1 none by (auto simp: ingest_def Let_def tr1_def [symmetric] split: option.split)
  next
    case True
    note ing = ingest_def Let_def tr1_def [symmetric]
    show ?thesis
    proof (cases "o_Inventorier w (sr_Scanner (x_Result x))")
      case None
      then show ?thesis using True c1 none by (auto simp: ing split: option.split)
    next
      case (Some parse)
      obtain ds tr2 where i: "?inv parse = (ds, tr2)" by (cases "?inv parse")
      obtain c2 where c2: "tr2 = tr1 @ c2" "\<forall>c \<in> set c2. stage c = 2" "recorded c2 = []"
        and inv: "c2 = [] \<or> (\<exists>res. parse ?bom = Some res \<and>
           c2 = [RecordComponents (j_ScanID job) (j_ProjectID job) (sr_Scanner (x_Result x)) (bom_Components res)] \<and>
           (o_accepts w tr1 (RecordComponents (j_ScanID job) (j_ProjectID job) (sr_Scanner (x_Result x)) (bom_Components res)) \<longrightarrow>
              ds = bom_Degradations res))"
        by (rule recordInventory_calls [OF i]) (rule that)
      have f: "faithful x ((x_Result x)\<lparr>sr_Degradations := sr_Degradations (x_Result x) @ ds\<rparr>)"
        by (auto simp: faithful_def)
      have "inventories_told w [x] (tr @ c1) (c2 @
          [RecordScannerResult (j_ScanID job) ((x_Result x)\<lparr>sr_Degradations := sr_Degradations (x_Result x) @ ds\<rparr>)])"
        using told_one [OF Some _ refl inv] by (simp add: document_def c1(1))
      from told_append [OF told_none [OF c1(4)] this, of "[]"]
      have told: "inventories_told w [x] tr ((c1 @ c2) @
          [RecordScannerResult (j_ScanID job) ((x_Result x)\<lparr>sr_Degradations := sr_Degradations (x_Result x) @ ds\<rparr>)])" by simp
      show ?thesis
      proof (cases "length ?bom > 0")
        case pos: True
        then have "\<exists>n. ingest w job x tr =
            (((x_Result x)\<lparr>sr_Degradations := sr_Degradations (x_Result x) @ ds\<rparr>, n), tr2)"
          using True Some i by (auto simp: ing split: option.split)
        then obtain n where n: "ingest w job x tr =
            (((x_Result x)\<lparr>sr_Degradations := sr_Degradations (x_Result x) @ ds\<rparr>, n), tr @ c1 @ c2)"
          using c1(1) c2(1) by auto
        show ?thesis
          by (rule exI [of _ "c1 @ c2"], rule exI, rule exI [of _ n], rule conjI [OF n]) (use c1 c2 f told in auto)
      next
        case False
        then show ?thesis using True Some c1 none by (auto simp: ing split: option.split)
      qed
    qed
  qed
  then show ?thesis using that by blast
qed

lemma on_event_simps [simp]:
  "on_event w job (scan, ns, tr) (Checkout c b) = (scan, ns, tr @ [RecordCheckout (j_ScanID job) c b])"
  "ingest w job x tr = ((r, n), tr') \<Longrightarrow> on_event w job (scan, ns, tr) (ScannerDone x) =
     (RecordResult r scan, (case n of None \<Rightarrow> ns | Some n \<Rightarrow> ns @ [n]), tr' @ [RecordScannerResult (j_ScanID job) r])"
  by (simp_all add: on_event_def attempt_def)

lemma on_events_calls:
  assumes "foldl (on_event w job) (scan, ns, tr) evs = (scan', ns', tr')"
  shows "\<exists>cs. tr' = tr @ cs \<and> (\<forall>c \<in> set cs. stage c = 2) \<and> scan' = fold RecordResult (recorded cs) scan \<and>
    list_all2 faithful (executions evs) (recorded cs) \<and> inventories_told w (executions evs) tr cs"
  using assms
proof (induction evs arbitrary: scan ns tr)
  case (Cons ev evs)
  show ?case
  proof (cases ev)
    case (Checkout c b)
    let ?c = "RecordCheckout (j_ScanID job) c b"
    have "foldl (on_event w job) (scan, ns, tr @ [?c]) evs = (scan', ns', tr')"
      using Cons.prems Checkout by simp
    from Cons.IH [OF this] obtain cs where "tr' = (tr @ [?c]) @ cs" "\<forall>c \<in> set cs. stage c = 2"
      "scan' = fold RecordResult (recorded cs) scan" "list_all2 faithful (executions evs) (recorded cs)"
      and told: "inventories_told w (executions evs) (tr @ [?c]) cs" by blast
    moreover have "inventories_told w (executions evs) tr ([?c] @ cs)"
      using told_append [OF told_none told, of "[]"] by simp
    ultimately show ?thesis using Checkout by (intro exI [of _ "[?c] @ cs"]) (simp del: append.simps, simp)
  next
    case (ScannerDone x)
    obtain cs r n where i: "ingest w job x tr = ((r, n), tr @ cs)" "\<forall>c \<in> set cs. stage c = 2"
      "recorded cs = []" "faithful x r"
      "inventories_told w [x] tr (cs @ [RecordScannerResult (j_ScanID job) r])" by (rule ingest_calls)
    have "foldl (on_event w job) (RecordResult r scan, (case n of None \<Rightarrow> ns | Some n \<Rightarrow> ns @ [n]),
        tr @ cs @ [RecordScannerResult (j_ScanID job) r]) evs = (scan', ns', tr')"
      using Cons.prems i(1) ScannerDone by simp
    from Cons.IH [OF this] obtain cs' where cs': "tr' = tr @ cs @ [RecordScannerResult (j_ScanID job) r] @ cs'"
      "\<forall>c \<in> set cs'. stage c = 2" "scan' = fold RecordResult (recorded cs') (RecordResult r scan)"
      "list_all2 faithful (executions evs) (recorded cs')"
      and told: "inventories_told w (executions evs) (tr @ cs @ [RecordScannerResult (j_ScanID job) r]) cs'" by auto
    moreover have "inventories_told w (x # executions evs) tr (cs @ [RecordScannerResult (j_ScanID job) r] @ cs')"
      using told_append [OF i(5), of "executions evs" cs'] told by simp
    ultimately show ?thesis using i ScannerDone
      by (intro exI [of _ "cs @ [RecordScannerResult (j_ScanID job) r] @ cs'"]) auto
  qed
qed (simp add: recorded_def map_filter_simps inventories_told_def)

lemma correlate_calls:
  "\<exists>cs. correlate_stage L w fr p tr = tr @ cs \<and> (cs = [] \<or> (\<exists>r. cs = [ReplaceCorrelation p r]))"
  by (auto simp: correlate_stage_def attempt_def split: option.split)

lemma score_calls:
  "\<exists>cs sc. score_stage L w fr p sid tr = (sc, tr @ cs) \<and>
     (cs = [] \<and> sc = None \<or> (\<exists>a d. cs = [SaveRiskScore p sid a d] \<and> (\<forall>s. sc = Some s \<longrightarrow> a = scd_assessment s)))"
  by (auto simp: score_stage_def attempt_def Let_def split: option.split bool.split)

lemma persist_calls:
  "\<exists>cs sc. persistFindings L w job scan ns tr = (sc, tr @ cs) \<and> sorted_wrt (<) (map stage cs) \<and>
     (\<forall>c \<in> set cs. 3 \<le> stage c \<and> stage c \<le> 5) \<and> (sc \<noteq> None \<longrightarrow> cs \<noteq> []) \<and>
     (\<forall>p sid d cmp t. StoreFindings p sid d cmp t \<in> set cs \<longrightarrow> cmp = complete_scanners scan \<and> d = Combine ns)"
proof (cases "o_Findings w = None \<or> length ns = 0")
  case True
  then have "persistFindings L w job scan ns tr = (None, tr @ [])" by (auto simp: persistFindings_def split: option.split)
  then show ?thesis by (intro exI conjI) (assumption | simp)+
next
  case False
  then obtain fr where fr: "o_Findings w = Some fr" and ns: "length ns \<noteq> 0" by auto
  define c1 where "c1 = StoreFindings (j_ProjectID job) (j_ScanID job) (Combine ns) (complete_scanners scan) (o_now w tr)"
  obtain c2 where c2: "correlate_stage L w fr (j_ProjectID job) (tr @ [c1]) = (tr @ [c1]) @ c2"
    "c2 = [] \<or> (\<exists>r. c2 = [ReplaceCorrelation (j_ProjectID job) r])"
    using correlate_calls by blast
  obtain c3 sc where c3: "score_stage L w fr (j_ProjectID job) (j_ScanID job) ((tr @ [c1]) @ c2) = (sc, ((tr @ [c1]) @ c2) @ c3)"
    "c3 = [] \<or> (\<exists>a d. c3 = [SaveRiskScore (j_ProjectID job) (j_ScanID job) a d])"
    using score_calls by blast
  have f: "stage c1 = 3" "\<And>p sid d cmp t. StoreFindings p sid d cmp t = c1 \<Longrightarrow> cmp = complete_scanners scan \<and> d = Combine ns"
    by (auto simp: c1_def)
  have p: "persistFindings L w job scan ns tr = (case attempt w c1 tr of (False, tr) \<Rightarrow> (None, tr)
      | (True, tr) \<Rightarrow> score_stage L w fr (j_ProjectID job) (j_ScanID job) (correlate_stage L w fr (j_ProjectID job) tr))"
    using ns by (simp add: persistFindings_def fr c1_def)
  consider "attempt w c1 tr = (False, tr @ [c1])" | "attempt w c1 tr = (True, tr @ [c1])"
    by (auto simp: attempt_def)
  then show ?thesis
  proof cases
    case 1
    then show ?thesis by (intro exI [of _ "[c1]"] exI [of _ None]) (use f in \<open>auto simp: p\<close>)
  next
    case 2
    then have "persistFindings L w job scan ns tr = (sc, tr @ (c1 # c2 @ c3))" using c2(1) c3(1) by (simp add: p)
    then show ?thesis using c2(2) c3(2) f
      by (intro exI [of _ "c1 # c2 @ c3"] exI [of _ sc]) (elim disjE exE; auto)
  qed
qed

lemma gate_calls:
  "\<exists>cs. gate L w job sc status tr = tr @ cs \<and>
    (cs = [] \<or> (\<exists>p r t s. sc = Some s \<and> cs = [SaveResult (j_ProjectID job) (j_ScanID job) p r t] \<and>
       Evaluate L p (InputFrom (scd_subjects s) (a_Score (scd_assessment s)) status (status = StatusCompleted)) = Inr r))"
  by (auto simp: gate_def attempt_def split: option.split sum.split)

lemma settle_calls:
  assumes "settle L w job (scan, ns, tr) = tr'"
  obtains c3 c4 st t and sc :: "scored option" where
    "tr' = tr @ c3 @ c4 @ [Finalize (j_ScanID job) st (if st = StatusFailed then FailureAllScannersDegraded else []) t]"
    "st = StatusCancelled \<or> st = TerminalStatus scan"
    "sorted_wrt (<) (map stage c3)" "\<forall>c \<in> set c3. 3 \<le> stage c \<and> stage c \<le> 5" "sc \<noteq> None \<longrightarrow> c3 \<noteq> []"
    "\<forall>p sid d cmp t. StoreFindings p sid d cmp t \<in> set c3 \<longrightarrow> cmp = complete_scanners scan \<and> d = Combine ns"
    "c4 = [] \<or> (\<exists>p r t s. sc = Some s \<and> c4 = [SaveResult (j_ProjectID job) (j_ScanID job) p r t] \<and>
       Evaluate L p (InputFrom (scd_subjects s) (a_Score (scd_assessment s)) st (st = StatusCompleted)) = Inr r)"
proof -
  obtain c3 sc where p: "persistFindings L w job scan ns tr = (sc, tr @ c3)" "sorted_wrt (<) (map stage c3)"
    "\<forall>c \<in> set c3. 3 \<le> stage c \<and> stage c \<le> 5" "sc \<noteq> None \<longrightarrow> c3 \<noteq> []"
    "\<forall>p sid d cmp t. StoreFindings p sid d cmp t \<in> set c3 \<longrightarrow> cmp = complete_scanners scan \<and> d = Combine ns"
    using persist_calls by blast
  define st where "st = (if o_cancelled w (tr @ c3) then StatusCancelled else TerminalStatus scan)"
  obtain c4 where g: "gate L w job sc st (tr @ c3) = (tr @ c3) @ c4"
    "c4 = [] \<or> (\<exists>p r t s. sc = Some s \<and> c4 = [SaveResult (j_ProjectID job) (j_ScanID job) p r t] \<and>
       Evaluate L p (InputFrom (scd_subjects s) (a_Score (scd_assessment s)) st (st = StatusCompleted)) = Inr r)"
    using gate_calls by blast
  show ?thesis
    by (rule that [OF _ _ p(2-5) g(2)])
      (use assms p(1) g(1) in \<open>auto simp: settle_def Let_def st_def [symmetric] finalize_def attempt_def,
        auto simp: st_def\<close>)
qed

lemma stage_rest:
  assumes "sorted_wrt (<) (map stage c3)" "\<forall>c \<in> set c3. 3 \<le> stage c \<and> stage c \<le> 5"
    and "c4 = [] \<or> (\<exists>a b p r t. c4 = [SaveResult a b p r t])"
  shows "sorted_wrt (<) (map stage (c3 @ c4 @ [Finalize i st rs t]))"
    "\<forall>c \<in> set (c3 @ c4 @ [Finalize i st rs t]). 3 \<le> stage c"
  using assms by (auto simp: sorted_wrt_append)

lemma executeJob_cases:
  obtains cs where "executeJob L w job tr = tr @ cs" "\<exists>rs t. cs = [Finalize (j_ScanID job) StatusFailed rs t]"
  | cs t where "executeJob L w job tr = tr @ cs" "cs = [MarkRunning (j_ScanID job) t]"
      "\<not> o_accepts w tr (MarkRunning (j_ScanID job) t)"
  | cs target selected evs err c2 rest where "executeJob L w job tr = tr @ cs" "job_ran L w job tr cs target selected c2 rest"
      "o_Execute w \<lparr>rq_ScanID = j_ScanID job, rq_ProjectID = j_ProjectID job, rq_Target = target,
         rq_Scanners = selected\<rparr> = (evs, Some err)"
      "\<exists>rs t. rest = [Finalize (j_ScanID job) StatusFailed rs t]"
  | cs target selected evs c2 rest ns tr2 where "executeJob L w job tr = tr @ cs" "job_ran L w job tr cs target selected c2 rest"
      "o_Execute w \<lparr>rq_ScanID = j_ScanID job, rq_ProjectID = j_ProjectID job, rq_Target = target,
         rq_Scanners = selected\<rparr> = (evs, None)" "list_all2 faithful (executions evs) (recorded c2)"
      "inventories_told w (executions evs) tr cs"
      "settle L w job (fold RecordResult (recorded c2) (new_scan job target), ns, tr2) = tr2 @ rest"
proof -
  note fin = finalize_def attempt_def
  show ?thesis
  proof (cases "j_Attempt job > o_MaxAttempts w")
    case True
    then show ?thesis by (intro that(1) [of "[Finalize (j_ScanID job) StatusFailed FailureMaxAttemptsExceeded (o_now w tr)]"])
       (auto simp: executeJob_def fin)
  next
    case at1: False
    show ?thesis
    proof (cases "Target_Validate L (o_Validator w) (j_Target job)")
      case (Inl e)
      then show ?thesis using at1
        by (intro that(1) [of "[Finalize (j_ScanID job) StatusFailed FailureTargetInvalid (o_now w tr)]"])
          (auto simp: executeJob_def fin)
    next
      case target: (Inr target)
      show ?thesis
      proof (cases "Resolve (o_Registry w) (EffectiveKind (t_Kind target)) (j_Scanners job)")
        case (Inl e)
        then show ?thesis using at1 target
          by (intro that(1) [of "[Finalize (j_ScanID job) StatusFailed (if length (j_Scanners job) > 0
               then FailureScannerNotRegistered else FailureNoScannerAvailable) (o_now w tr)]"])
            (auto simp: executeJob_def fin)
      next
        case sel: (Inr selected)
        let ?m = "MarkRunning (j_ScanID job) (o_now w tr)"
        let ?rq = "\<lparr>rq_ScanID = j_ScanID job, rq_ProjectID = j_ProjectID job, rq_Target = target, rq_Scanners = selected\<rparr>"
        obtain evs err where ex: "o_Execute w ?rq = (evs, err)" by (cases "o_Execute w ?rq")
        obtain scan ns tr2 where f: "foldl (on_event w job) (new_scan job target, [], tr @ [?m, Executed ?rq]) evs = (scan, ns, tr2)"
          by (rule prod_cases3)
        obtain c2 where c2: "tr2 = (tr @ [?m, Executed ?rq]) @ c2" "\<forall>c \<in> set c2. stage c = 2"
          "scan = fold RecordResult (recorded c2) (new_scan job target)" "list_all2 faithful (executions evs) (recorded c2)"
          and told: "inventories_told w (executions evs) (tr @ [?m, Executed ?rq]) c2"
          using on_events_calls [OF f] by blast
        show ?thesis
        proof (cases "o_accepts w tr ?m")
          case False
          then show ?thesis using at1 target sel
            by (intro that(2) [of "[?m]"]) (auto simp: executeJob_def attempt_def)
        next
          case acc: True
          have run: "executeJob L w job tr = (case err of
              Some (FatalError reason) \<Rightarrow> finalize w (j_ScanID job) StatusFailed reason tr2
            | Some OtherError \<Rightarrow> finalize w (j_ScanID job) StatusFailed FailureAllScannersDegraded tr2
            | None \<Rightarrow> settle L w job (scan, ns, tr2))"
            using at1 target sel acc ex f by (simp add: executeJob_def attempt_def) (simp add: Let_def split: option.split exec_error.split)
          show ?thesis
          proof (cases err)
            case (Some x)
            obtain rs t where "executeJob L w job tr = tr2 @ [Finalize (j_ScanID job) StatusFailed rs t]"
              using run Some by (cases x) (auto simp: fin)
            then show ?thesis using at1 target sel ex c2 acc Some
              by (intro that(3) [of "[?m, Executed ?rq] @ c2 @ [Finalize (j_ScanID job) StatusFailed rs t]" target selected c2
                 "[Finalize (j_ScanID job) StatusFailed rs t]" evs x]) (auto simp: job_ran_def)
          next
            case None
            obtain rest where rest: "settle L w job (scan, ns, tr2) = tr2 @ rest" and late: "\<forall>c \<in> set rest. 3 \<le> stage c"
            proof (rule settle_calls [of L w job scan ns tr2], rule refl)
              fix c3 c4 st t and sc :: "scored option"
              assume s: "settle L w job (scan, ns, tr2) = tr2 @ c3 @ c4 @
                  [Finalize (j_ScanID job) st (if st = StatusFailed then FailureAllScannersDegraded else []) t]"
                "sorted_wrt (<) (map stage c3)" "\<forall>c \<in> set c3. 3 \<le> stage c \<and> stage c \<le> 5"
                "c4 = [] \<or> (\<exists>p r t s. sc = Some s \<and> c4 = [SaveResult (j_ProjectID job) (j_ScanID job) p r t] \<and>
                  Evaluate L p (InputFrom (scd_subjects s) (a_Score (scd_assessment s)) st (st = StatusCompleted)) = Inr r)"
              have "\<forall>c \<in> set (c3 @ c4 @ [Finalize (j_ScanID job) st (if st = StatusFailed then FailureAllScannersDegraded else []) t]).
                  3 \<le> stage c" by (rule stage_rest(2) [OF s(2,3)]) (use s(4) in blast)
              with s(1) show thesis by (rule that)
            qed
            have "inventories_told w (executions evs) tr ([?m, Executed ?rq] @ c2 @ rest)"
              using told_append [OF told_none [of "[?m, Executed ?rq]" w "[]" tr] told_append [OF told told_late [OF late, of w "[]"]]] by simp
            then show ?thesis using rest at1 target sel ex c2 acc None run
              by (intro that(4) [of "[?m, Executed ?rq] @ c2 @ rest" target selected c2 rest evs ns tr2])
                (auto simp: job_ran_def)
          qed
        qed
      qed
    qed
  qed
qed

section \<open>Properties\<close>

lemma fold_RecordResult_scan:
  "fold RecordResult rs (new_scan job target) = (new_scan job target)\<lparr>sc_Results := fold record_result rs []\<rparr>"
  by (simp add: fold_RecordResult new_scan_def)

lemma Terminal_TerminalStatus: "Terminal (TerminalStatus s)"
proof -
  consider "TerminalStatus s = StatusFailed" | "TerminalStatus s = StatusPartial" | "TerminalStatus s = StatusCompleted"
    using TerminalStatus_terminal [of s] by blast
  then show ?thesis by cases (simp_all only: Terminal_simps)
qed

text \<open>A scanner's last record is the one that stands.\<close>

lemma last_record_stands:
  assumes "recorded cs = ys @ r # zs" "sr_Scanner r \<notin> sr_Scanner ` set zs"
  shows "r \<in> set (sc_Results (fold RecordResult (recorded cs) (new_scan job target)))"
proof -
  have "map_of (map (\<lambda>r. (sr_Scanner r, r)) (rev zs)) (sr_Scanner r) = None"
    using assms(2) by (auto simp: map_of_eq_None_iff)
  then have "results_map (rev (recorded cs)) (sr_Scanner r) = Some r"
    by (simp add: results_map_def assms(1) map_add_def)
  then have "results_map (fold record_result (recorded cs) []) (sr_Scanner r) = Some r"
    using fold_record_result [of "recorded cs" "[]"] by (simp add: results_map_def)
  then show ?thesis by (auto simp: fold_RecordResult_scan results_map_def dest: map_of_SomeD)
qed

lemma completed_all_succeeded:
  "TerminalStatus s = StatusCompleted \<longleftrightarrow> sc_Results s \<noteq> [] \<and> list_all Succeeded (sc_Results s)"
  unfolding TerminalStatus_cases by (auto simp: list_all_iff list_ex_iff)

lemma recorded_late: "(\<And>c. c \<in> set cs \<Longrightarrow> 3 \<le> stage c) \<Longrightarrow> recorded cs = []"
  by (induction cs) (auto simp: recorded_def map_filter_def split: call.split, force)

lemma recorded_early [simp]: "recorded (MarkRunning i t # cs) = recorded cs" "recorded (Executed rq # cs) = recorded cs"
  by (simp_all add: recorded_def map_filter_def)

lemma faithful_name: "faithful x r \<Longrightarrow> sr_Scanner r = sr_Scanner (x_Result x)"
  by (auto simp: faithful_def)

lemma faithful_names:
  "list_all2 faithful xs rs \<Longrightarrow> sr_Scanner ` set rs = (\<lambda>x. sr_Scanner (x_Result x)) ` set xs"
  by (induction rule: list_all2_induct) (auto simp: faithful_name)

lemma ran_stages:
  assumes "job_ran L w job tr cs target selected c2 rest" "sorted_wrt (<) (map stage rest)" "\<forall>c \<in> set rest. 3 \<le> stage c"
  shows "sorted (map stage cs)" "distinct (filter (\<lambda>n. n \<noteq> 2) (map stage cs))"
    "\<forall>rq. Executed rq \<in> set cs \<longrightarrow> j_Attempt job \<le> o_MaxAttempts w \<and> rq_ScanID rq = j_ScanID job \<and>
       (\<exists>t rest. cs = MarkRunning (j_ScanID job) t # Executed rq # rest \<and> o_accepts w tr (MarkRunning (j_ScanID job) t)) \<and>
       Target_Validate L (o_Validator w) (j_Target job) = Inr (rq_Target rq) \<and>
       Resolve (o_Registry w) (EffectiveKind (t_Kind (rq_Target rq))) (j_Scanners job) = Inr (rq_Scanners rq)"
proof -
  let ?rq = "\<lparr>rq_ScanID = j_ScanID job, rq_ProjectID = j_ProjectID job, rq_Target = target, rq_Scanners = selected\<rparr>"
  obtain t where cs: "cs = MarkRunning (j_ScanID job) t # Executed ?rq # c2 @ rest" "\<forall>c \<in> set c2. stage c = 2"
    "o_accepts w tr (MarkRunning (j_ScanID job) t)" using assms(1) by (auto simp: job_ran_def)
  have c2: "map stage c2 = replicate (length c2) 2" using cs(2) by (induction c2) auto
  have "sorted (map stage rest)" "distinct (map stage rest)"
    using assms(2) by (auto simp: strict_sorted_iff)
  with cs assms(3) show "sorted (map stage cs)" "distinct (filter (\<lambda>n. n \<noteq> 2) (map stage cs))"
    unfolding cs(1) list.map map_append c2 by (auto simp: sorted_append)
  have "rq = ?rq" if "Executed rq \<in> set cs" for rq
  proof -
    have "Executed rq \<notin> set c2" using cs(2) by fastforce
    moreover have "Executed rq \<notin> set rest" using assms(3) by fastforce
    ultimately show ?thesis using that cs(1) by simp
  qed
  moreover have "j_Attempt job \<le> o_MaxAttempts w" "Target_Validate L (o_Validator w) (j_Target job) = Inr target"
    "Resolve (o_Registry w) (EffectiveKind (t_Kind target)) (j_Scanners job) = Inr selected"
    using assms(1) by (auto simp: job_ran_def)
  ultimately show "\<forall>rq. Executed rq \<in> set cs \<longrightarrow> j_Attempt job \<le> o_MaxAttempts w \<and> rq_ScanID rq = j_ScanID job \<and>
      (\<exists>t rest. cs = MarkRunning (j_ScanID job) t # Executed rq # rest \<and> o_accepts w tr (MarkRunning (j_ScanID job) t)) \<and>
      Target_Validate L (o_Validator w) (j_Target job) = Inr (rq_Target rq) \<and>
      Resolve (o_Registry w) (EffectiveKind (t_Kind (rq_Target rq))) (j_Scanners job) = Inr (rq_Scanners rq)"
    using cs(1,3) by fastforce
qed

lemma sample_target: "Target_Validate sample_lib sample_validator (j_Target (sample_job ''s1'')) =
    Inr (zero_Target\<lparr>t_Kind := KindFilesystem, t_Path := ''/work/app''\<rparr>)"
  by code_simp

lemma sample_resolve: "Resolve [(''trivy'', sample_adapter ''trivy'')] (EffectiveKind KindFilesystem) [] = Inr [sample_adapter ''trivy'']"
  by code_simp

lemma sample_execute:
  "rq_Target rq = zero_Target\<lparr>t_Kind := KindFilesystem, t_Path := ''/work/app''\<rparr> \<Longrightarrow>
   rq_Scanners rq = [sample_adapter ''trivy''] \<Longrightarrow> InProcess_Execute sample_exec rq = ([ScannerDone
     \<lparr>x_Result = (sample_result ''trivy'' ScannerSucceeded [])\<lparr>sr_Duration := 1, sr_StartedAt := Some 0\<rparr>,
      x_Raw = zero_RawResult\<lparr>raw_Output := ''{}''\<rparr>, x_Inventory = []\<rparr>], None)"
  by (simp add: InProcess_Execute_def fetchIfNeeded_def sample_exec_def runScanner_def sample_result_def
      sample_adapter_def zero_RawResult_def Let_def)

lemmas sample_runs = executeJob_def sample_resolve sample_execute attempt_def sample_worker_def sample_job_def ingest_def
  on_event_def Registry_Get_def settle_def persistFindings_def finalize_def gate_def new_scan_def
  sample_result_def Let_def RecordResult_def TerminalStatus_def count_result_def Succeeded_def

lemma sample_run:
  "\<exists>rq rest t. executeJob sample_lib sample_worker (sample_job ''s1'') [] = MarkRunning ''s1'' 7 # Executed rq # rest \<and>
     Finalize ''s1'' StatusCompleted [] t \<in> set rest"
  using sample_target by (simp add: sample_runs)

lemma passing_run:
  "\<exists>r. SaveResult ''p1'' ''s1'' (DefaultPolicy\<lparr>Rules := []\<rparr>) r 7 \<in>
     set (executeJob sample_lib passing_worker (sample_job ''s1'') []) \<and> g_Verdict r = VerdictPass"
proof -
  let ?p = "DefaultPolicy\<lparr>Rules := []\<rparr>"
  let ?i = "InputFrom [] (a_Score (Assess sample_lib [] sample_context)) StatusCompleted True"
  have "Policy_Validate ?p = None"
    using DefaultPolicy_valid by (simp add: Policy_Validate_None)
  then obtain r where r: "Evaluate sample_lib ?p ?i = Inr r" using Evaluate_total by blast
  have "causes ?p ?i = {}" by (simp add: cause_iff InputFrom_counts)
  then have "g_Verdict r = VerdictPass" using Evaluate_Inr(3) [OF r] by simp
  with r sample_target show ?thesis
    by (simp add: sample_runs passing_worker_def correlate_stage_def score_stage_def)
qed

lemma sample_adapter_name: "sn_Name (sample_adapter n) = n"
  by (simp add: sample_adapter_def)

lemma sample_resolve2:
  "Resolve [(''trivy'', sample_adapter ''trivy''), (''grype'', sample_adapter ''grype'')] (EffectiveKind KindFilesystem) [] =
     Inr [sample_adapter ''grype'', sample_adapter ''trivy'']"
  by code_simp

text \<open>
  A scanner whose output nothing could read counts as complete: it is named among the scanners
  entitled to resolve the findings they did not report, and the scan is completed.
\<close>

lemma unreadable_output_counts_as_complete:
  "(\<exists>d. StoreFindings ''p1'' ''s1'' d [''grype'', ''trivy''] 7 \<in>
      set (executeJob sample_lib unreadable_worker (sample_job ''s1'') [])) \<and>
   Finalize ''s1'' StatusCompleted [] 7 \<in> set (executeJob sample_lib unreadable_worker (sample_job ''s1'') [])"
  using sample_target
  by (simp add: sample_runs sample_resolve2 InProcess_Execute_def fetchIfNeeded_def sample_exec_def runScanner_def
      sample_adapter_name zero_RawResult_def unreadable_worker_def passing_worker_def complete_scanners_def
      correlate_stage_def score_stage_def)

lemma sample_loop_reached: "(run_step (o_Concurrency (applyDefaults sample_worker)))\<^sup>*\<^sup>* loop_start sample_loop"
proof -
  let ?n = "o_Concurrency (applyDefaults sample_worker)" and ?j = "sample_job ''s1''"
  have n: "?n = 2" by (simp add: applyDefaults_def sample_worker_def)
  have "run_step 2 loop_start (loop_start\<lparr>lp_holding := Some ?j, lp_taken := [?j]\<rparr>)"
    using run_step.dequeued [of loop_start 2 ?j] by (simp add: loop_start_def)
  moreover have "run_step 2 (loop_start\<lparr>lp_holding := Some ?j, lp_taken := [?j]\<rparr>) (sample_loop\<lparr>lp_consuming := True\<rparr>)"
    using run_step.started [of "loop_start\<lparr>lp_holding := Some ?j, lp_taken := [?j]\<rparr>" ?j 2]
    by (simp add: loop_start_def sample_loop_def)
  moreover have "run_step 2 (sample_loop\<lparr>lp_consuming := True\<rparr>) sample_loop"
    using run_step.stopped [of "sample_loop\<lparr>lp_consuming := True\<rparr>" 2] by (simp add: sample_loop_def)
  ultimately show ?thesis unfolding n by (meson converse_rtranclp_into_rtranclp rtranclp.rtrancl_refl)
qed

text \<open>
  C14: a job ends exactly once. Executing a job makes exactly one call to finalize its scan, the last
  of all, with a terminal state, and with a failure reason only if that state is failed; the one
  exception is a job whose scan the store refuses to mark as running, of which nothing else happens.
\<close>

theorem job_ends_once:
  "\<exists>cs. executeJob L w job tr = tr @ cs \<and>
    ((\<exists>t. cs = [MarkRunning (j_ScanID job) t] \<and> \<not> o_accepts w tr (MarkRunning (j_ScanID job) t)) \<or>
     (\<exists>cs' st rs t. cs = cs' @ [Finalize (j_ScanID job) st rs t] \<and> Terminal st \<and>
        (rs = [] \<or> st = StatusFailed) \<and> 7 \<notin> stage ` set cs'))"
proof (cases rule: executeJob_cases [of L w job tr])
  case (1 cs)
  then obtain rs t where "cs = [] @ [Finalize (j_ScanID job) StatusFailed rs t]" by auto
  moreover have "Terminal StatusFailed" "7 \<notin> stage ` set []" by simp_all
  ultimately show ?thesis using 1(1) by blast
next
  case (2 cs t)
  then show ?thesis by blast
next
  case (3 cs target selected evs err c2 rest)
  then obtain rs t t0 rq where "cs = ([MarkRunning (j_ScanID job) t0, Executed rq] @ c2) @ [Finalize (j_ScanID job) StatusFailed rs t]"
    "\<forall>c \<in> set c2. stage c = 2" by (auto simp: job_ran_def)
  moreover from this(2) have "7 \<notin> stage ` set ([MarkRunning (j_ScanID job) t0, Executed rq] @ c2)" by fastforce
  moreover have "Terminal StatusFailed" by simp
  ultimately show ?thesis using 3(1) by blast
next
  case (4 cs target selected evs c2 rest ns tr2)
  let ?scan = "fold RecordResult (recorded c2) (new_scan job target)"
  obtain c3 c4 st t and sc :: "scored option" where s: "tr2 @ rest = tr2 @ c3 @ c4 @
      [Finalize (j_ScanID job) st (if st = StatusFailed then FailureAllScannersDegraded else []) t]"
    "st = StatusCancelled \<or> st = TerminalStatus ?scan" "\<forall>c \<in> set c3. 3 \<le> stage c \<and> stage c \<le> 5"
    "c4 = [] \<or> (\<exists>p r t. c4 = [SaveResult (j_ProjectID job) (j_ScanID job) p r t])"
    by (rule settle_calls [OF 4(6)]) blast
  obtain t0 rq where cs: "cs = [MarkRunning (j_ScanID job) t0, Executed rq] @ c2 @ rest" "\<forall>c \<in> set c2. stage c = 2"
    using 4(2) by (auto simp: job_ran_def)
  have "Terminal st" using s(2) Terminal_TerminalStatus by auto
  moreover have "7 \<notin> stage ` set ([MarkRunning (j_ScanID job) t0, Executed rq] @ c2 @ c3 @ c4)"
    using s(3,4) cs(2) by fastforce
  moreover define rs where "rs = (if st = StatusFailed then FailureAllScannersDegraded else [])"
  have "cs = ([MarkRunning (j_ScanID job) t0, Executed rq] @ c2 @ c3 @ c4) @ [Finalize (j_ScanID job) st rs t]"
    using s(1) cs(1) by (simp add: rs_def)
  moreover have "rs = [] \<or> st = StatusFailed" by (simp add: rs_def)
  ultimately show ?thesis using 4(1) by blast
qed

theorem job_ends_once_witness:
  "\<exists>cs' st rs t. executeJob sample_lib sample_worker (sample_job ''s1'') [] = cs' @ [Finalize ''s1'' st rs t] \<and>
     Terminal st \<and> 7 \<notin> stage ` set cs'"
  using job_ends_once [of sample_lib sample_worker "sample_job ''s1''" "[]"]
  by (auto simp: sample_worker_def sample_job_def)

text \<open>
  C16: the stages of a job run in order. Marking the scan as running, the execution, the records of
  its scanners, the findings, the correlation, the risk score, the verdict and the final state follow
  each other in this order, and each but the records of the scanners happens at most once. Whatever
  is executed is the scan of the job, within its attempts, after the store accepted it as running,
  on a target that passed validation, with the scanners the registry resolved for it.
\<close>

theorem stages_run_in_order:
  "\<exists>cs. executeJob L w job tr = tr @ cs \<and> sorted (map stage cs) \<and> distinct (filter (\<lambda>n. n \<noteq> 2) (map stage cs)) \<and>
    (\<forall>rq. Executed rq \<in> set cs \<longrightarrow> j_Attempt job \<le> o_MaxAttempts w \<and> rq_ScanID rq = j_ScanID job \<and>
       (\<exists>t rest. cs = MarkRunning (j_ScanID job) t # Executed rq # rest \<and> o_accepts w tr (MarkRunning (j_ScanID job) t)) \<and>
       Target_Validate L (o_Validator w) (j_Target job) = Inr (rq_Target rq) \<and>
       Resolve (o_Registry w) (EffectiveKind (t_Kind (rq_Target rq))) (j_Scanners job) = Inr (rq_Scanners rq))"
proof (cases rule: executeJob_cases [of L w job tr])
  case (1 cs)
  then show ?thesis by auto
next
  case (2 cs t)
  then show ?thesis by auto
next
  case (3 cs target selected evs err c2 rest)
  then have "sorted_wrt (<) (map stage rest)" "\<forall>c \<in> set rest. 3 \<le> stage c" by auto
  note st = ran_stages [OF 3(2) this]
  show ?thesis
    using 3(1) st by blast
next
  case (4 cs target selected evs c2 rest ns tr2)
  obtain c3 c4 st t and sc :: "scored option" where s: "tr2 @ rest = tr2 @ c3 @ c4 @
      [Finalize (j_ScanID job) st (if st = StatusFailed then FailureAllScannersDegraded else []) t]"
    "sorted_wrt (<) (map stage c3)" "\<forall>c \<in> set c3. 3 \<le> stage c \<and> stage c \<le> 5"
    "c4 = [] \<or> (\<exists>a b p r t. c4 = [SaveResult a b p r t])"
    by (rule settle_calls [OF 4(6)]) blast
  have "sorted_wrt (<) (map stage rest)" "\<forall>c \<in> set rest. 3 \<le> stage c"
    using s(1) stage_rest [OF s(2-4)] by simp_all
  note st = ran_stages [OF 4(2) this]
  show ?thesis
    using 4(1) st by blast
qed

theorem stages_run_in_order_witness:
  "\<exists>rq rest. executeJob sample_lib sample_worker (sample_job ''s1'') [] = MarkRunning ''s1'' 7 # Executed rq # rest \<and>
     Target_Validate sample_lib sample_validator (j_Target (sample_job ''s1'')) = Inr (rq_Target rq)"
proof -
  let ?cs = "executeJob sample_lib sample_worker (sample_job ''s1'') []"
  obtain rq rest where r: "?cs = MarkRunning ''s1'' 7 # Executed rq # rest" using sample_run by blast
  then have e: "Executed rq \<in> set ?cs" by simp
  have v: "o_Validator sample_worker = sample_validator" by (simp add: sample_worker_def)
  show ?thesis
    using stages_run_in_order [of sample_lib sample_worker "sample_job ''s1''" "[]", unfolded append_Nil v] e r by blast
qed

text \<open>
  C15: a completed scan was executed and recorded whole. If a job finalizes its scan as completed, the
  executor returned without an error and reported at least one scanner; what is recorded of the
  reports, one by one, differs from them only by further degradations; the last record of every
  scanner succeeded without a degradation, and so did the last report; and every inventory the store
  took was read from a reported scanner's document, with its degradations in the record that follows,
  so that an inventory whose scanner reports no later result was read without any degradation.
\<close>

theorem completed_is_earned:
  assumes "executeJob L w job tr = tr @ cs" "Finalize sid StatusCompleted rs t \<in> set cs"
  shows "\<exists>rq evs. Executed rq \<in> set cs \<and> o_Execute w rq = (evs, None) \<and> executions evs \<noteq> [] \<and>
    list_all2 faithful (executions evs) (recorded cs) \<and>
    (\<forall>xs r ys. recorded cs = xs @ r # ys \<and> sr_Scanner r \<notin> sr_Scanner ` set ys \<longrightarrow> Succeeded r) \<and>
    (\<forall>xs x ys. executions evs = xs @ x # ys \<and>
       sr_Scanner (x_Result x) \<notin> (\<lambda>y. sr_Scanner (x_Result y)) ` set ys \<longrightarrow> Succeeded (x_Result x)) \<and>
    (\<forall>pre i p name comps post. cs = pre @ RecordComponents i p name comps # post \<and>
       o_accepts w (tr @ pre) (RecordComponents i p name comps) \<longrightarrow>
       (\<exists>x parse res r post'. x \<in> set (executions evs) \<and> sr_Scanner (x_Result x) = name \<and>
          o_Inventorier w name = Some parse \<and> parse (document x) = Some res \<and> bom_Components res = comps \<and>
          post = RecordScannerResult i r # post' \<and>
          sr_Degradations r = sr_Degradations (x_Result x) @ bom_Degradations res \<and>
          (name \<notin> sr_Scanner ` set (recorded post') \<longrightarrow> bom_Degradations res = [])))"
proof (cases rule: executeJob_cases [of L w job tr])
  case (4 cs' target selected evs c2 rest ns tr2)
  then have cs': "cs' = cs" using assms(1) by simp
  let ?scan = "fold RecordResult (recorded c2) (new_scan job target)"
  let ?rq = "\<lparr>rq_ScanID = j_ScanID job, rq_ProjectID = j_ProjectID job, rq_Target = target, rq_Scanners = selected\<rparr>"
  obtain t0 where c: "cs = MarkRunning (j_ScanID job) t0 # Executed ?rq # c2 @ rest" "\<forall>c \<in> set c2. stage c = 2"
    using 4(2) cs' by (auto simp: job_ran_def)
  obtain c3 c4 st t' and sc :: "scored option" where s: "tr2 @ rest = tr2 @ c3 @ c4 @
      [Finalize (j_ScanID job) st (if st = StatusFailed then FailureAllScannersDegraded else []) t']"
    "st = StatusCancelled \<or> st = TerminalStatus ?scan" "\<forall>c \<in> set c3. 3 \<le> stage c \<and> stage c \<le> 5"
    "c4 = [] \<or> (\<exists>p r t. c4 = [SaveResult (j_ProjectID job) (j_ScanID job) p r t])"
    by (rule settle_calls [OF 4(6)]) blast
  have "Finalize sid StatusCompleted rs t \<notin> set c2 \<union> set c3 \<union> set c4" using c(2) s(3,4) by fastforce
  then have "st = StatusCompleted" using assms(2) c(1) s(1) by auto
  then have whole: "sc_Results ?scan \<noteq> []" "list_all Succeeded (sc_Results ?scan)"
    using s(2) completed_all_succeeded [of ?scan] by auto
  have "recorded rest = []"
    using s(1,3,4) by (intro recorded_late) fastforce
  then have rec: "recorded cs = recorded c2" by (simp add: c(1))
  have "executions evs \<noteq> []" using whole(1) 4(4) by (auto simp: fold_RecordResult_scan)
  moreover have last: "Succeeded r" if r: "recorded cs = ys @ r # zs" "sr_Scanner r \<notin> sr_Scanner ` set zs" for ys r zs
    using last_record_stands [of c2 ys r zs job target] r rec whole(2) by (simp add: list_all_iff)
  moreover have "Succeeded (x_Result x)"
    if x: "executions evs = xs @ x # ys" "sr_Scanner (x_Result x) \<notin> (\<lambda>y. sr_Scanner (x_Result y)) ` set ys" for xs x ys
  proof -
    obtain rs1 r rs2 where r: "recorded c2 = rs1 @ r # rs2" "faithful x r" "list_all2 faithful ys rs2"
      using 4(4) x(1) by (auto simp: list_all2_append1 list_all2_Cons1)
    have "sr_Scanner r \<notin> sr_Scanner ` set rs2"
      using x(2) r(2) faithful_names [OF r(3)] by (simp add: faithful_name)
    from last [OF _ this] r(1) rec have "Succeeded r" by simp
    with r(2) show ?thesis by (auto simp: faithful_def Succeeded_def)
  qed
  moreover have "\<exists>x parse res r post'. x \<in> set (executions evs) \<and> sr_Scanner (x_Result x) = name \<and>
          o_Inventorier w name = Some parse \<and> parse (document x) = Some res \<and> bom_Components res = comps \<and>
          post = RecordScannerResult i r # post' \<and>
          sr_Degradations r = sr_Degradations (x_Result x) @ bom_Degradations res \<and>
          (name \<notin> sr_Scanner ` set (recorded post') \<longrightarrow> bom_Degradations res = [])"
    if i: "cs = pre @ RecordComponents i p name comps # post" "o_accepts w (tr @ pre) (RecordComponents i p name comps)"
    for pre i p name comps post
  proof -
    obtain x parse res r post' where r: "x \<in> set (executions evs)" "sr_Scanner (x_Result x) = name"
      "o_Inventorier w name = Some parse" "parse (document x) = Some res" "bom_Components res = comps"
      "post = RecordScannerResult i r # post'" "sr_Scanner r = name"
      "sr_Degradations r = sr_Degradations (x_Result x) @ bom_Degradations res"
      using 4(5) i unfolding cs' inventories_told_def by blast
    have "recorded cs = recorded pre @ r # recorded post'" by (simp add: i(1) r(6))
    then have "bom_Degradations res = []" if "name \<notin> sr_Scanner ` set (recorded post')"
      using last that r(7,8) by (auto simp: Succeeded_def)
    with r show ?thesis by blast
  qed
  ultimately show ?thesis using c(1) 4(3,4) rec by (intro exI [of _ ?rq] exI [of _ evs]) auto
next
  case (3 cs' target selected evs err c2 rest)
  then have "Finalize sid StatusCompleted rs t \<in> set c2" using assms by (auto simp: job_ran_def)
  then show ?thesis using 3(2) by (fastforce simp: job_ran_def)
qed (use assms in auto)

theorem completed_is_earned_witness:
  "\<exists>rq evs. Executed rq \<in> set (executeJob sample_lib sample_worker (sample_job ''s1'') []) \<and>
     o_Execute sample_worker rq = (evs, None) \<and> executions evs \<noteq> []"
proof -
  let ?cs = "executeJob sample_lib sample_worker (sample_job ''s1'') []"
  obtain t where "Finalize ''s1'' StatusCompleted [] t \<in> set ?cs" using sample_run by (metis list.set_intros(2))
  from completed_is_earned [OF _ this, of sample_lib sample_worker "sample_job ''s1''" "[]"] show ?thesis
    by (simp only: append_Nil) blast
qed

text \<open>
  A pass is a pass of a completed scan. If a job saves a passing verdict, then the verdict is the
  evaluation of the saved policy, it is the last call but one, and the last one finalizes the scan as
  completed.
\<close>

theorem pass_means_completed:
  assumes "executeJob L w job tr = tr @ cs" "SaveResult p sid policy r t \<in> set cs" "g_Verdict r = VerdictPass"
  shows "p = j_ProjectID job \<and> sid = j_ScanID job \<and> (\<exists>i. Evaluate L policy i = Inr r \<and> ScanComplete i) \<and>
    (\<exists>cs' t'. cs = cs' @ [SaveResult p sid policy r t, Finalize sid StatusCompleted [] t'])"
proof (cases rule: executeJob_cases [of L w job tr])
  case (4 cs' target selected evs c2 rest ns tr2)
  then have cs': "cs' = cs" using assms(1) by simp
  obtain t0 rq where c: "cs = MarkRunning (j_ScanID job) t0 # Executed rq # c2 @ rest" "\<forall>c \<in> set c2. stage c = 2"
    using 4(2) cs' by (auto simp: job_ran_def)
  obtain c3 c4 st t' and sc :: "scored option" where s: "tr2 @ rest = tr2 @ c3 @ c4 @
      [Finalize (j_ScanID job) st (if st = StatusFailed then FailureAllScannersDegraded else []) t']"
    "\<forall>c \<in> set c3. 3 \<le> stage c \<and> stage c \<le> 5"
    "c4 = [] \<or> (\<exists>p r t s. sc = Some s \<and> c4 = [SaveResult (j_ProjectID job) (j_ScanID job) p r t] \<and>
       Evaluate L p (InputFrom (scd_subjects s) (a_Score (scd_assessment s)) st (st = StatusCompleted)) = Inr r)"
    by (rule settle_calls [OF 4(6)]) blast
  have "SaveResult p sid policy r t \<notin> set c2 \<union> set c3" using c(2) s(2) by fastforce
  then have "SaveResult p sid policy r t \<in> set c4" using assms(2) c(1) s(1) by auto
  then obtain s' :: scored where g: "c4 = [SaveResult p sid policy r t]" "p = j_ProjectID job" "sid = j_ScanID job"
    "Evaluate L policy (InputFrom (scd_subjects s') (a_Score (scd_assessment s')) st (st = StatusCompleted)) = Inr r"
    using s(3) by auto
  let ?i = "InputFrom (scd_subjects s') (a_Score (scd_assessment s')) st (st = StatusCompleted)"
  have "ScanComplete ?i" using incomplete_verdict [OF g(4)] assms(3) by blast
  then have "st = StatusCompleted" by (simp add: InputFrom_counts)
  then have "cs = (MarkRunning (j_ScanID job) t0 # Executed rq # c2 @ c3) @
      [SaveResult p sid policy r t, Finalize sid StatusCompleted [] t']"
    using c(1) s(1) g(1,3) by simp
  with g \<open>ScanComplete ?i\<close> show ?thesis by blast
next
  case (3 cs' target selected evs err c2 rest)
  then have "SaveResult p sid policy r t \<in> set c2" using assms by (auto simp: job_ran_def)
  then show ?thesis using 3(2) by (fastforce simp: job_ran_def)
qed (use assms in auto)

theorem pass_means_completed_witness:
  "\<exists>cs policy r t t'. executeJob sample_lib passing_worker (sample_job ''s1'') [] = cs @
     [SaveResult ''p1'' ''s1'' policy r t, Finalize ''s1'' StatusCompleted [] t'] \<and> g_Verdict r = VerdictPass"
proof -
  let ?cs = "executeJob sample_lib passing_worker (sample_job ''s1'') []"
  obtain r where r: "SaveResult ''p1'' ''s1'' (DefaultPolicy\<lparr>Rules := []\<rparr>) r 7 \<in> set ?cs" "g_Verdict r = VerdictPass"
    using passing_run by blast
  have "?cs = [] @ ?cs" by simp
  from pass_means_completed [OF this r] r(2) show ?thesis by blast
qed

section \<open>The consuming loop\<close>

lemma loop_ok_start: "0 \<le> n \<Longrightarrow> loop_ok n loop_start"
  by (simp add: loop_ok_def loop_start_def)

lemma run_step_ok: "run_step n s s' \<Longrightarrow> loop_ok n s \<Longrightarrow> loop_ok n s'"
  by (induction rule: run_step.induct) (auto simp: loop_ok_def)

lemma run_steps_ok: "(run_step n)\<^sup>*\<^sup>* s s' \<Longrightarrow> loop_ok n s \<Longrightarrow> loop_ok n s'"
  by (induction rule: rtranclp_induct) (auto intro: run_step_ok)

text \<open>
  C37: the worker bounds the jobs in flight and loses at most one. In every state the loop can reach,
  the jobs in flight are as many as the slots taken and no more than the concurrency; every job it
  dequeued waits for a slot, is in flight, has ended, or was dropped; at most one is ever dropped,
  and only by a shutdown; and when the loop returns, none waits and none is in flight.
\<close>

theorem loop_is_bounded:
  assumes "(run_step (o_Concurrency (applyDefaults w)))\<^sup>*\<^sup>* loop_start s"
  shows "int (length (lp_inflight s)) = int (lp_sem s) \<and> int (lp_sem s) \<le> o_Concurrency (applyDefaults w) \<and>
    mset (lp_taken s) = mset (case lp_holding s of None \<Rightarrow> [] | Some j \<Rightarrow> [j]) + mset (lp_inflight s) +
      mset (lp_ended s) + mset (lp_dropped s) \<and>
    length (lp_dropped s) \<le> 1 \<and> (lp_dropped s \<noteq> [] \<longrightarrow> \<not> lp_consuming s) \<and>
    (lp_returned s \<longrightarrow> mset (lp_taken s) = mset (lp_ended s) + mset (lp_dropped s))"
proof -
  have "0 \<le> o_Concurrency (applyDefaults w)" by (simp add: applyDefaults_def)
  from run_steps_ok [OF assms loop_ok_start [OF this]] show ?thesis by (auto simp: loop_ok_def)
qed

theorem loop_is_bounded_witness:
  "(run_step (o_Concurrency (applyDefaults sample_worker)))\<^sup>*\<^sup>* loop_start sample_loop \<and>
   int (length (lp_inflight sample_loop)) \<le> 2"
  using loop_is_bounded [OF sample_loop_reached] sample_loop_reached
  by (simp add: applyDefaults_def sample_worker_def)

text \<open>
  A worker told to stop drains and returns. Once the loop no longer consumes, every run of it has
  at most as many steps as jobs in flight and one more, and as long as it has not returned it has a
  next step.
\<close>

theorem loop_drains:
  assumes "(run_step n)\<^sup>*\<^sup>* loop_start s" "0 \<le> n" "\<not> lp_consuming s"
  shows "((run_step n ^^ k) s s' \<longrightarrow> k \<le> length (lp_inflight s) + 1 \<and> \<not> lp_consuming s') \<and>
    (\<not> lp_returned s \<longrightarrow> (\<exists>s'. run_step n s s'))"
proof -
  have bound: "(run_step n ^^ k) s s' \<Longrightarrow> loop_ok n s \<Longrightarrow> \<not> lp_consuming s \<Longrightarrow>
      k + (length (lp_inflight s') + (if lp_returned s' then 0 else 1)) = length (lp_inflight s) + (if lp_returned s then 0 else 1) \<and>
      \<not> lp_consuming s' \<and> loop_ok n s'" for k s s'
  proof (induction k arbitrary: s')
    case (Suc k)
    then obtain s1 where s1: "(run_step n ^^ k) s s1" "run_step n s1 s'" by auto
    have IH: "k + (length (lp_inflight s1) + (if lp_returned s1 then 0 else 1)) =
        length (lp_inflight s) + (if lp_returned s then 0 else 1)" "\<not> lp_consuming s1" "loop_ok n s1"
      using Suc.IH [OF s1(1)] Suc.prems by auto
    have "length (lp_inflight s') + (if lp_returned s' then 0 else 1) + 1 =
        length (lp_inflight s1) + (if lp_returned s1 then 0 else 1) \<and> \<not> lp_consuming s'"
      using s1(2) IH(2,3) by (cases rule: run_step.cases) (auto simp: loop_ok_def)
    with IH run_step_ok [OF s1(2)] show ?case by auto
  qed simp
  have ok: "loop_ok n s" using run_steps_ok [OF assms(1) loop_ok_start [OF assms(2)]] .
  have "\<exists>s'. run_step n s s'" if "\<not> lp_returned s"
  proof (cases "lp_inflight s")
    case Nil
    then show ?thesis using that assms(3) run_step.returned by blast
  next
    case (Cons j js)
    then have "lp_inflight s = [] @ j # js" by simp
    then show ?thesis using run_step.ended by blast
  qed
  moreover have "k \<le> length (lp_inflight s) + 1 \<and> \<not> lp_consuming s'" if "(run_step n ^^ k) s s'"
    using bound [OF that ok assms(3)] by (auto split: if_splits)
  ultimately show ?thesis by blast
qed

theorem loop_drains_witness: "\<exists>s'. run_step 2 sample_loop s'"
  using loop_drains [of 2 sample_loop 0 sample_loop] sample_loop_reached
  by (simp add: sample_loop_def applyDefaults_def sample_worker_def)

end
