(* ===== verification/Scan_Store.thy ===== *)
theory Scan_Store
  imports Scans Audit_Log
begin

text \<open>
  The scan store: \<open>internal/scans/store/store.go\<close>, with the constraints of its tables in
  \<open>migrations/0001\<close> to \<open>0004\<close>. Each method is a function on the tables it reads and writes, which are
  lists in insertion order; an update changes the rows its \<open>WHERE\<close> clause matches and reports whether
  there were any. The lemmas show that the guards in the statements carry the scan state machine into
  the database, that a stored result is read back, and that pages list every scan once.
\<close>

section \<open>Tables\<close>

text \<open>A nullable text column holds nothing in place of the empty string.\<close>

record ResultRow =
  rr_ScanID :: string
  rr_Scanner :: string
  rr_Status :: ScannerStatus
  rr_Version :: "string option"
  rr_ExitCode :: int
  rr_DurationMS :: int
  rr_Error :: "string option"
  rr_Degradations :: "string list"
  rr_StartedAt :: "time option"
  rr_FinishedAt :: time

record RawRow =
  rw_ScanID :: string
  rw_Scanner :: string
  rw_Version :: "string option"
  rw_Output :: string
  rw_OutputBytes :: nat
  rw_Truncated :: bool
  rw_CollectedAt :: time

datatype scan_audit = AuditText string | AuditTarget Target

text \<open>
  The rows of \<open>scans\<close> are scans without their results. How many bytes PostgreSQL takes for a target,
  \<open>pg_column_size\<close>, is a parameter.
\<close>

record ScanDB =
  sd_scans :: "Scan list"
  sd_results :: "ResultRow list"
  sd_raw :: "RawRow list"
  sd_projects :: "(string \<times> string) list"
  sd_repositories :: "string list"
  sd_audit :: "(string, (string \<times> scan_audit) list) AuditRow list"
  sd_now :: time
  sd_target_size :: "Target \<Rightarrow> int"

datatype scan_store_error =
    InvalidScan scan_error | ScanNotFound | ConstraintViolated | ScanAuditFailed audit_error
  | NotQueued | NotRecordable | NotFinalizable | NotTerminal ScanState

definition null_text :: "string \<Rightarrow> string option" where
  "null_text s = (if s = [] then None else Some s)"

definition text_or_empty :: "string option \<Rightarrow> string" where
  "text_or_empty x = (case x of None \<Rightarrow> [] | Some s \<Rightarrow> s)"

text \<open>
  The \<open>CHECK\<close> constraints of \<open>scans\<close>, but for the size of the target, which only \<open>Create\<close> writes.
\<close>

definition scan_checks :: "Scan \<Rightarrow> bool" where
  "scan_checks s =
     ((sc_CommitSHA s = [] \<or> commitSHAPattern (sc_CommitSHA s)) \<and>
      (case (sc_CompletedAt s, sc_StartedAt s) of (Some c, Some b) \<Rightarrow> b \<le> c | _ \<Rightarrow> True) \<and>
      (Terminal (sc_Status s) \<longrightarrow> sc_CompletedAt s \<noteq> None) \<and>
      length (sc_RequestedScanners s) \<le> 32 \<and> length (sc_FailureReason s) \<le> 512)"

text \<open>Those of \<open>scan_scanner_results\<close>, whose status is an enumeration; a blank name is one of spaces.\<close>

definition result_checks :: "ResultRow \<Rightarrow> bool" where
  "result_checks r =
     (rr_Status r \<in> set [ScannerPending, ScannerRunning, ScannerSucceeded, ScannerFailed, ScannerSkipped] \<and>
      list_ex (\<lambda>c. c \<noteq> CHR '' '') (rr_Scanner r) \<and> 0 \<le> rr_DurationMS r \<and>
      (case rr_StartedAt r of Some b \<Rightarrow> b \<le> rr_FinishedAt r | None \<Rightarrow> True) \<and>
      length (rr_Degradations r) \<le> 16 \<and> [] \<notin> set (rr_Degradations r))"

text \<open>An update of the rows that match, which fails when one of them would violate a check.\<close>

definition update_scans :: "(Scan \<Rightarrow> bool) \<Rightarrow> (Scan \<Rightarrow> Scan) \<Rightarrow> scan_store_error \<Rightarrow> ScanDB \<Rightarrow>
    scan_store_error + ScanDB" where
  "update_scans P f none db =
     (if \<not> list_ex P (sd_scans db) then Inl none
      else if list_ex (\<lambda>s. P s \<and> \<not> scan_checks (f s)) (sd_scans db) then Inl ConstraintViolated
      else Inr (db\<lparr>sd_scans := map (\<lambda>s. if P s then f s else s) (sd_scans db)\<rparr>))"

definition has_scan :: "ScanDB \<Rightarrow> string \<Rightarrow> bool" where
  "has_scan db scanID = list_ex (\<lambda>s. sc_ID s = scanID) (sd_scans db)"

section \<open>Operations\<close>

text \<open>The identifier is the one the database generates.\<close>

definition Scan_Create :: "golib \<Rightarrow> string \<Rightarrow> NewScan \<Rightarrow> Actor \<Rightarrow> ScanDB \<Rightarrow> scan_store_error + Scan \<times> ScanDB" where
  "Scan_Create L newID input actor db =
     (case NewScan_Normalize L input of
        Inl e \<Rightarrow> Inl (InvalidScan e)
      | Inr n \<Rightarrow>
          let scan = \<lparr>sc_ID = newID, sc_ProjectID = ns_ProjectID n, sc_RepositoryID = ns_RepositoryID n,
                sc_Status = StatusQueued, sc_Target = ns_Target n, sc_CommitSHA = ns_CommitSHA n,
                sc_Branch = ns_Branch n, sc_RequestedScanners = ns_Scanners n, sc_FailureReason = [],
                sc_Results = [], sc_QueuedAt = sd_now db, sc_StartedAt = None, sc_CompletedAt = None\<rparr>
          in if has_scan db newID \<or> map_of (sd_projects db) (ns_ProjectID n) = None \<or>
                (ns_RepositoryID n \<noteq> None \<and> the (ns_RepositoryID n) \<notin> set (sd_repositories db)) \<or>
                \<not> scan_checks scan \<or> 8192 < sd_target_size db (ns_Target n)
             then Inl ConstraintViolated
             else case audit_Write (sd_projects db) (sd_now db)
                 \<lparr>e_Actor = actor, e_Action = ''scan.create'', e_ResourceType = ''scan'',
                  e_ResourceID = sc_ID scan, e_ProjectID = sc_ProjectID scan, e_Before = None,
                  e_After = Some [(''target_kind'', AuditText (t_Kind (sc_Target scan))),
                    (''target'', AuditTarget (sc_Target scan)),
                    (''commit_sha'', AuditText (sc_CommitSHA scan)), (''branch'', AuditText (sc_Branch scan))],
                  e_OccurredAt = 0\<rparr> of
               Inl e \<Rightarrow> Inl (ScanAuditFailed e)
             | Inr entry \<Rightarrow> Inr (scan, db\<lparr>sd_scans := sd_scans db @ [scan], sd_audit := sd_audit db @ [entry]\<rparr>))"

definition of_result_row :: "ResultRow \<Rightarrow> ScannerResult" where
  "of_result_row r = \<lparr>sr_Scanner = rr_Scanner r, sr_Status = rr_Status r, sr_Version = text_or_empty (rr_Version r),
     sr_ExitCode = rr_ExitCode r, sr_Duration = rr_DurationMS r * 1000000, sr_StartedAt = rr_StartedAt r,
     sr_Error = text_or_empty (rr_Error r), sr_Degradations = rr_Degradations r\<rparr>"

definition scannerResults :: "string \<Rightarrow> ScanDB \<Rightarrow> ScannerResult list" where
  "scannerResults scanID db =
     map of_result_row (sort_key rr_Scanner (filter (\<lambda>r. rr_ScanID r = scanID) (sd_results db)))"

definition Scan_Get :: "string \<Rightarrow> ScanDB \<Rightarrow> scan_store_error + Scan" where
  "Scan_Get scanID db =
     (case List.find (\<lambda>s. sc_ID s = scanID) (sd_scans db) of
        None \<Rightarrow> Inl ScanNotFound
      | Some s \<Rightarrow> Inr (s\<lparr>sc_Results := scannerResults scanID db\<rparr>))"

text \<open>\<open>ORDER BY queued_at DESC, id DESC\<close>, and one row more than the page to see whether more follow.\<close>

definition newest_first :: "Scan list \<Rightarrow> Scan list" where
  "newest_first xs = rev (sort_key (\<lambda>s. (sc_QueuedAt s, sc_ID s)) xs)"

definition ListByProject :: "string \<Rightarrow> nat \<Rightarrow> nat \<Rightarrow> ScanDB \<Rightarrow> Scan list \<times> bool" where
  "ListByProject projectID limit offset db =
     (let out = take (limit + 1) (drop offset (newest_first
                  (filter (\<lambda>s. sc_ProjectID s = projectID) (sd_scans db))));
          hasMore = length out > limit
      in (if hasMore then take limit out else out, hasMore))"

definition Scan_MarkRunning :: "string \<Rightarrow> time \<Rightarrow> ScanDB \<Rightarrow> scan_store_error + ScanDB" where
  "Scan_MarkRunning scanID tm db =
     update_scans (\<lambda>s. sc_ID s = scanID \<and> sc_Status s = StatusQueued)
       (\<lambda>s. s\<lparr>sc_Status := StatusRunning,
               sc_StartedAt := (case sc_StartedAt s of None \<Rightarrow> Some tm | Some b \<Rightarrow> Some b)\<rparr>) NotQueued db"

definition Scan_RecordCheckout :: "string \<Rightarrow> string \<Rightarrow> string \<Rightarrow> ScanDB \<Rightarrow> scan_store_error + ScanDB" where
  "Scan_RecordCheckout scanID commitSHA branch db =
     update_scans (\<lambda>s. sc_ID s = scanID \<and> (sc_Status s = StatusQueued \<or> sc_Status s = StatusRunning))
       (\<lambda>s. s\<lparr>sc_CommitSHA := (if commitSHA = [] then sc_CommitSHA s else commitSHA),
               sc_Branch := (if branch = [] then sc_Branch s else branch)\<rparr>) NotRecordable db"

definition to_result_row :: "string \<Rightarrow> time \<Rightarrow> ScannerResult \<Rightarrow> ResultRow" where
  "to_result_row scanID now r = \<lparr>rr_ScanID = scanID, rr_Scanner = sr_Scanner r, rr_Status = sr_Status r,
     rr_Version = null_text (sr_Version r), rr_ExitCode = sr_ExitCode r,
     rr_DurationMS = (if sr_Duration r < 0 then - (- sr_Duration r div 1000000) else sr_Duration r div 1000000),
     rr_Error = null_text (sr_Error r), rr_Degradations = sr_Degradations r,
     rr_StartedAt = sr_StartedAt r, rr_FinishedAt = now\<rparr>"

definition Scan_RecordScannerResult :: "string \<Rightarrow> ScannerResult \<Rightarrow> time \<Rightarrow> ScanDB \<Rightarrow> scan_store_error + ScanDB" where
  "Scan_RecordScannerResult scanID r now db =
     (let row = to_result_row scanID now r;
          same = (\<lambda>x. rr_ScanID x = scanID \<and> rr_Scanner x = sr_Scanner r)
      in if \<not> has_scan db scanID \<or> \<not> result_checks row then Inl ConstraintViolated
         else if list_ex same (sd_results db)
         then Inr (db\<lparr>sd_results := map (\<lambda>x. if same x then row else x) (sd_results db)\<rparr>)
         else Inr (db\<lparr>sd_results := sd_results db @ [row]\<rparr>))"

definition Scan_Finalize :: "string \<Rightarrow> ScanState \<Rightarrow> FailureReason \<Rightarrow> time \<Rightarrow> ScanDB \<Rightarrow> scan_store_error + ScanDB" where
  "Scan_Finalize scanID status reason tm db =
     (if \<not> Terminal status then Inl (NotTerminal status)
      else update_scans (\<lambda>s. sc_ID s = scanID \<and> (sc_Status s = StatusQueued \<or> sc_Status s = StatusRunning))
        (\<lambda>s. s\<lparr>sc_Status := status, sc_CompletedAt := Some tm, sc_FailureReason := reason\<rparr>) NotFinalizable db)"

abbreviation maxStoredOutputBytes :: nat where "maxStoredOutputBytes \<equiv> 16777216"

definition Scan_StoreRaw :: "string \<Rightarrow> RawResult \<Rightarrow> ScanDB \<Rightarrow> scan_store_error + ScanDB" where
  "Scan_StoreRaw scanID raw db =
     (let cut = length (raw_Output raw) > maxStoredOutputBytes;
          output = (if cut then take maxStoredOutputBytes (raw_Output raw) else raw_Output raw);
          truncated = (if cut then True else OutputTruncated raw);
          row = \<lparr>rw_ScanID = scanID, rw_Scanner = raw_Scanner raw, rw_Version = null_text (raw_Version raw),
            rw_Output = output, rw_OutputBytes = length output, rw_Truncated = truncated,
            rw_CollectedAt = sd_now db\<rparr>;
          same = (\<lambda>x. rw_ScanID x = scanID \<and> rw_Scanner x = raw_Scanner raw)
      in if \<not> has_scan db scanID then Inl ConstraintViolated
         else if list_ex same (sd_raw db)
         then Inr (db\<lparr>sd_raw := map (\<lambda>x. if same x then row else x) (sd_raw db)\<rparr>)
         else Inr (db\<lparr>sd_raw := sd_raw db @ [row]\<rparr>))"

section \<open>Specification vocabulary\<close>

inductive scan_db_step :: "golib \<Rightarrow> ScanDB \<Rightarrow> ScanDB \<Rightarrow> bool" for L where
  created: "Scan_Create L newID input actor db = Inr (scan, db') \<Longrightarrow> scan_db_step L db db'"
| running: "Scan_MarkRunning scanID tm db = Inr db' \<Longrightarrow> scan_db_step L db db'"
| checkout: "Scan_RecordCheckout scanID commitSHA branch db = Inr db' \<Longrightarrow> scan_db_step L db db'"
| reported: "Scan_RecordScannerResult scanID r tm db = Inr db' \<Longrightarrow> scan_db_step L db db'"
| archived: "Scan_StoreRaw scanID raw db = Inr db' \<Longrightarrow> scan_db_step L db db'"
| finalized: "Scan_Finalize scanID status reason tm db = Inr db' \<Longrightarrow> scan_db_step L db db'"
| ticked: "scan_db_step L db (db\<lparr>sd_now := tm\<rparr>)"

inductive_cases scan_db_stepE: "scan_db_step L db db'"

definition row_ok :: "Scan \<Rightarrow> bool" where
  "row_ok s \<longleftrightarrow> ScanState_Valid (sc_Status s) \<and> (sc_CompletedAt s \<noteq> None \<longleftrightarrow> Terminal (sc_Status s)) \<and>
     (sc_Status s = StatusQueued \<longrightarrow> sc_StartedAt s = None) \<and> scan_checks s"

definition result_key :: "ResultRow \<Rightarrow> string \<times> string" where
  "result_key r = (rr_ScanID r, rr_Scanner r)"

definition scan_db_ok :: "ScanDB \<Rightarrow> bool" where
  "scan_db_ok db \<longleftrightarrow> distinct (map sc_ID (sd_scans db)) \<and> (\<forall>s \<in> set (sd_scans db). row_ok s) \<and>
     distinct (map result_key (sd_results db)) \<and> (\<forall>r \<in> set (sd_results db). result_checks r)"

text \<open>What no operation changes of a scan, and what a move changes.\<close>

definition scan_identity :: "Scan \<Rightarrow> string \<times> string \<times> string option \<times> Target \<times> string list \<times> time" where
  "scan_identity s = (sc_ID s, sc_ProjectID s, sc_RepositoryID s, sc_Target s, sc_RequestedScanners s, sc_QueuedAt s)"

definition lifecycle :: "Scan \<Rightarrow> ScanState \<times> time option \<times> time option" where
  "lifecycle s = (sc_Status s, sc_StartedAt s, sc_CompletedAt s)"

text \<open>A legal move of the state machine on what is stored of it.\<close>

definition legal_move :: "Scan \<Rightarrow> Scan \<Rightarrow> bool" where
  "legal_move s s' \<longleftrightarrow> (\<exists>next tm t. Transition next tm s = Inr t \<and> lifecycle t = lifecycle s')"

definition empty_scan_db :: "(string \<times> string) list \<Rightarrow> ScanDB" where
  "empty_scan_db projects = \<lparr>sd_scans = [], sd_results = [], sd_raw = [], sd_projects = projects,
     sd_repositories = [], sd_audit = [], sd_now = 5, sd_target_size = (\<lambda>_. 0)\<rparr>"

definition sample_actor :: Actor where
  "sample_actor = TokenActor ''ci''"

definition created_db :: ScanDB where
  "created_db = snd (projr (Scan_Create sample_lib ''s1'' sample_newscan sample_actor (empty_scan_db [(''p1'', ''shop'')])))"

definition reported_db :: ScanDB where
  "reported_db = projr (Scan_RecordScannerResult ''s1'' (sample_result ''trivy'' ScannerSucceeded []) 9 created_db)"

section \<open>Updates\<close>

lemma update_scans_Inr:
  "update_scans P f e db = Inr db' \<longleftrightarrow> (\<exists>s \<in> set (sd_scans db). P s) \<and>
     (\<forall>s \<in> set (sd_scans db). P s \<longrightarrow> scan_checks (f s)) \<and>
     db' = db\<lparr>sd_scans := map (\<lambda>s. if P s then f s else s) (sd_scans db)\<rparr>"
  by (auto simp: update_scans_def list_ex_iff)

lemmas scan_op_defs = Scan_MarkRunning_def Scan_RecordCheckout_def Scan_Finalize_def

lemma scan_id_unique:
  "scan_db_ok db \<Longrightarrow> s \<in> set (sd_scans db) \<Longrightarrow> s' \<in> set (sd_scans db) \<Longrightarrow> sc_ID s = sc_ID s' \<Longrightarrow> s = s'"
  by (auto simp: scan_db_ok_def distinct_map dest!: inj_onD)

lemma update_scans_ok:
  assumes "scan_db_ok db" "update_scans P f e db = Inr db'"
    and id: "\<And>s. sc_ID (f s) = sc_ID s" and row: "\<And>s. row_ok s \<Longrightarrow> P s \<Longrightarrow> scan_checks (f s) \<Longrightarrow> row_ok (f s)"
  shows "scan_db_ok db'"
proof -
  have ids: "map sc_ID (map (\<lambda>s. if P s then f s else s) xs) = map sc_ID xs" for xs
    by (induction xs) (simp_all add: id)
  show ?thesis
    using assms(1,2) row unfolding scan_db_ok_def update_scans_Inr by (auto simp: ids simp del: map_map)
qed

lemma MarkRunning_ok: "scan_db_ok db \<Longrightarrow> Scan_MarkRunning i t db = Inr db' \<Longrightarrow> scan_db_ok db'"
  unfolding Scan_MarkRunning_def
  by (erule (1) update_scans_ok) (auto simp: row_ok_def ScanState_Valid_iff split: option.split)

lemma RecordCheckout_ok:
  assumes "scan_db_ok db" "Scan_RecordCheckout i c b db = Inr db'"
  shows "scan_db_ok db'"
  using assms(1) assms(2) [unfolded Scan_RecordCheckout_def] by (rule update_scans_ok) (auto simp: row_ok_def)

lemma Finalize_update:
  "Scan_Finalize i st r t db = Inr db' \<longleftrightarrow> Terminal st \<and>
   update_scans (\<lambda>s. sc_ID s = i \<and> (sc_Status s = StatusQueued \<or> sc_Status s = StatusRunning))
     (\<lambda>s. s\<lparr>sc_Status := st, sc_CompletedAt := Some t, sc_FailureReason := r\<rparr>) NotFinalizable db = Inr db'"
  by (simp add: Scan_Finalize_def)

lemma Finalize_ok:
  assumes "scan_db_ok db" "Scan_Finalize i st r t db = Inr db'"
  shows "scan_db_ok db'"
proof -
  have st: "Terminal st" "st \<noteq> StatusQueued" using assms(2) by (auto simp: Finalize_update)
  show ?thesis
    using assms(1) conjunct2 [OF assms(2) [unfolded Finalize_update]]
    by (rule update_scans_ok) (use st in \<open>auto simp: row_ok_def ScanState_Valid_iff\<close>)
qed

lemma RecordResult_Inr:
  assumes "Scan_RecordScannerResult i r t db = Inr db'"
  shows "result_checks (to_result_row i t r)" "has_scan db i"
    "db' = db\<lparr>sd_results := sd_results db'\<rparr>"
    "sd_results db' = (if list_ex (\<lambda>x. result_key x = (i, sr_Scanner r)) (sd_results db)
       then map (\<lambda>x. if result_key x = (i, sr_Scanner r) then to_result_row i t r else x) (sd_results db)
       else sd_results db @ [to_result_row i t r])"
  using assms by (auto simp: Scan_RecordScannerResult_def Let_def result_key_def split: if_splits)

lemma to_result_row_key [simp]: "result_key (to_result_row i t r) = (i, sr_Scanner r)"
  by (simp add: result_key_def to_result_row_def)

lemma RecordScannerResult_ok:
  assumes "scan_db_ok db" "Scan_RecordScannerResult i r t db = Inr db'"
  shows "scan_db_ok db'"
proof -
  have keys: "map result_key (map (\<lambda>x. if result_key x = (i, sr_Scanner r) then to_result_row i t r else x) xs) =
      map result_key xs" for xs by (induction xs) auto
  have sc: "sd_scans db' = sd_scans db" by (subst RecordResult_Inr(3) [OF assms(2)]) simp
  show ?thesis
    using assms(1) RecordResult_Inr(1) [OF assms(2)]
    unfolding scan_db_ok_def sc RecordResult_Inr(4) [OF assms(2)]
    by (auto simp: keys list_ex_iff image_iff simp del: map_map)
qed

lemma Create_Inr:
  assumes "Scan_Create L newID input actor db = Inr (scan, db')"
  obtains n row where "NewScan_Normalize L input = Inr n" "\<not> has_scan db newID" "scan_checks scan"
    "sc_ID scan = newID" "sc_ProjectID scan = ns_ProjectID n" "sc_Target scan = ns_Target n"
    "fresh_scan scan" "sc_QueuedAt scan = sd_now db" "sc_RequestedScanners scan = ns_Scanners n"
    "db' = db\<lparr>sd_scans := sd_scans db @ [scan], sd_audit := sd_audit db @ [row]\<rparr>"
    "e_Actor (au_Entry row) = actor" "e_ResourceID (au_Entry row) = newID" "e_Action (au_Entry row) = ''scan.create''"
    "map_of (the (e_After (au_Entry row))) ''target'' = Some (AuditTarget (sc_Target scan))"
proof -
  obtain n where n: "NewScan_Normalize L input = Inr n" using assms by (auto simp: Scan_Create_def split: sum.splits)
  let ?s = "\<lparr>sc_ID = newID, sc_ProjectID = ns_ProjectID n, sc_RepositoryID = ns_RepositoryID n,
      sc_Status = StatusQueued, sc_Target = ns_Target n, sc_CommitSHA = ns_CommitSHA n,
      sc_Branch = ns_Branch n, sc_RequestedScanners = ns_Scanners n, sc_FailureReason = [],
      sc_Results = [], sc_QueuedAt = sd_now db, sc_StartedAt = None, sc_CompletedAt = None\<rparr>"
  let ?e = "\<lparr>e_Actor = actor, e_Action = ''scan.create'', e_ResourceType = ''scan'',
      e_ResourceID = sc_ID ?s, e_ProjectID = sc_ProjectID ?s, e_Before = None,
      e_After = Some [(''target_kind'', AuditText (t_Kind (sc_Target ?s))), (''target'', AuditTarget (sc_Target ?s)),
        (''commit_sha'', AuditText (sc_CommitSHA ?s)), (''branch'', AuditText (sc_Branch ?s))], e_OccurredAt = 0\<rparr>"
  have c: "\<not> has_scan db newID" "scan_checks ?s"
    using assms n by (auto simp: Scan_Create_def Let_def split: if_splits)
  obtain row where w: "audit_Write (sd_projects db) (sd_now db) ?e = Inr row"
    using assms n by (auto simp: Scan_Create_def Let_def split: if_splits sum.splits)
  have r: "scan = ?s" "db' = db\<lparr>sd_scans := sd_scans db @ [scan], sd_audit := sd_audit db @ [row]\<rparr>"
    using assms n w by (auto simp: Scan_Create_def Let_def split: if_splits)
  show ?thesis
    by (rule that [of n row]) (use n c r audit_Write_Inr [OF w] in \<open>auto simp: fresh_scan_def\<close>)
qed

lemma Create_ok: "scan_db_ok db \<Longrightarrow> Scan_Create L i n a db = Inr (s, db') \<Longrightarrow> scan_db_ok db'"
  by (erule Create_Inr) (auto simp: scan_db_ok_def has_scan_def list_ex_iff row_ok_def fresh_scan_def ScanState_Valid_iff)

lemma StoreRaw_Inr:
  "Scan_StoreRaw i raw db = Inr db' \<Longrightarrow> sd_scans db' = sd_scans db \<and> sd_results db' = sd_results db"
  by (auto simp: Scan_StoreRaw_def Let_def split: if_splits)

lemma scan_db_step_ok: "scan_db_step L db db' \<Longrightarrow> scan_db_ok db \<Longrightarrow> scan_db_ok db'"
proof (induction rule: scan_db_step.induct)
  case (archived scanID raw db db')
  then show ?case using StoreRaw_Inr by (simp add: scan_db_ok_def)
next
  case (ticked db tm)
  then show ?case by (simp add: scan_db_ok_def)
qed (blast intro: Create_ok MarkRunning_ok RecordCheckout_ok RecordScannerResult_ok Finalize_ok)+

lemma scan_db_steps_ok: "(scan_db_step L)\<^sup>*\<^sup>* db db' \<Longrightarrow> scan_db_ok db \<Longrightarrow> scan_db_ok db'"
  by (induction rule: rtranclp_induct) (auto intro: scan_db_step_ok)

lemma Scan_Get_Inr:
  "scan_db_ok db \<Longrightarrow> Scan_Get i db = Inr s \<longleftrightarrow>
     (\<exists>row \<in> set (sd_scans db). sc_ID row = i \<and> s = row\<lparr>sc_Results := scannerResults i db\<rparr>)"
proof -
  assume ok: "scan_db_ok db"
  have "List.find (\<lambda>s. sc_ID s = i) (sd_scans db) = Some row \<longleftrightarrow> row \<in> set (sd_scans db) \<and> sc_ID row = i" for row
  proof
    assume "row \<in> set (sd_scans db) \<and> sc_ID row = i"
    moreover from this obtain row' where "List.find (\<lambda>s. sc_ID s = i) (sd_scans db) = Some row'"
      by (cases "List.find (\<lambda>s. sc_ID s = i) (sd_scans db)") (auto simp: find_None_iff)
    moreover from this have "row' \<in> set (sd_scans db)" "sc_ID row' = i" by (auto simp: find_Some_iff)
    ultimately show "List.find (\<lambda>s. sc_ID s = i) (sd_scans db) = Some row" using scan_id_unique [OF ok] by metis
  qed (auto simp: find_Some_iff)
  then show ?thesis unfolding Scan_Get_def
    by (cases "List.find (\<lambda>s. sc_ID s = i) (sd_scans db)") (auto, metis)
qed

text \<open>What a successful update does to each row.\<close>

lemma scan_db_step_row:
  assumes "scan_db_ok db" "scan_db_step L db db'" "s \<in> set (sd_scans db)"
  shows "\<exists>s' \<in> set (sd_scans db'). scan_identity s' = scan_identity s \<and>
    (lifecycle s' = lifecycle s \<and> (Terminal (sc_Status s) \<longrightarrow> s' = s) \<or> legal_move s s' \<or>
     sc_Status s = StatusQueued \<and> (sc_Status s' = StatusPartial \<or> sc_Status s' = StatusCompleted))"
  using assms(2)
proof (cases rule: scan_db_step.cases)
  case (created newID input actor scan)
  then show ?thesis using assms(3) by (elim Create_Inr) (auto intro!: bexI [of _ s])
next
  case (running scanID tm)
  let ?P = "\<lambda>s. sc_ID s = scanID \<and> sc_Status s = StatusQueued"
  let ?f = "\<lambda>s. s\<lparr>sc_Status := StatusRunning, sc_StartedAt := (case sc_StartedAt s of None \<Rightarrow> Some tm | Some b \<Rightarrow> Some b)\<rparr>"
  have "(if ?P s then ?f s else s) \<in> set (sd_scans db')"
    using running assms(3) by (auto simp: Scan_MarkRunning_def update_scans_Inr)
  moreover have "legal_move s (?f s)" if "?P s"
  proof -
    have "sc_StartedAt s = None" using assms(1,3) that by (auto simp: scan_db_ok_def row_ok_def)
    moreover have "Transition StatusRunning tm s = Inr (s\<lparr>sc_Status := StatusRunning, sc_StartedAt := Some tm\<rparr>)"
      using that by (simp add: Transition_Inr CanTransitionTo_iff)
    ultimately show ?thesis unfolding legal_move_def by (intro exI, intro conjI) (auto simp: lifecycle_def)
  qed
  ultimately show ?thesis by (intro bexI [of _ "if ?P s then ?f s else s"]) (auto simp: scan_identity_def)
next
  case (checkout scanID commitSHA branch)
  let ?P = "\<lambda>s. sc_ID s = scanID \<and> (sc_Status s = StatusQueued \<or> sc_Status s = StatusRunning)"
  let ?f = "\<lambda>s. s\<lparr>sc_CommitSHA := (if commitSHA = [] then sc_CommitSHA s else commitSHA),
               sc_Branch := (if branch = [] then sc_Branch s else branch)\<rparr>"
  have "(if ?P s then ?f s else s) \<in> set (sd_scans db')"
    using checkout assms(3) by (auto simp: Scan_RecordCheckout_def update_scans_Inr)
  then show ?thesis
    by (intro bexI [of _ "if ?P s then ?f s else s"]) (auto simp: scan_identity_def lifecycle_def)
next
  case (reported scanID r tm)
  then have "sd_scans db' = sd_scans db" by (subst RecordResult_Inr(3)) auto
  then show ?thesis using assms(3) by (intro bexI [of _ s]) simp_all
next
  case (archived scanID raw)
  then show ?thesis using assms(3) StoreRaw_Inr by (intro bexI [of _ s]) simp_all
next
  case (finalized scanID status reason tm)
  let ?P = "\<lambda>s. sc_ID s = scanID \<and> (sc_Status s = StatusQueued \<or> sc_Status s = StatusRunning)"
  let ?f = "\<lambda>s. s\<lparr>sc_Status := status, sc_CompletedAt := Some tm, sc_FailureReason := reason\<rparr>"
  have st: "Terminal status" "(if ?P s then ?f s else s) \<in> set (sd_scans db')"
    using finalized assms(3) by (auto simp: Finalize_update update_scans_Inr)
  moreover have "legal_move s (?f s) \<or> sc_Status s = StatusQueued \<and> (status = StatusPartial \<or> status = StatusCompleted)" if "?P s"
  proof (cases "CanTransitionTo (sc_Status s) status")
    case True
    then have "Transition status tm s = Inr (s\<lparr>sc_Status := status, sc_CompletedAt := Some tm\<rparr>)"
      using st(1) by (auto simp: Transition_Inr)
    then show ?thesis unfolding legal_move_def by (intro disjI1 exI, intro conjI) (auto simp: lifecycle_def)
  next
    case False
    then show ?thesis using that st(1) by (auto simp: CanTransitionTo_iff Terminal_def)
  qed
  ultimately show ?thesis by (intro bexI [of _ "if ?P s then ?f s else s"]) (auto simp: scan_identity_def)
next
  case (ticked tm)
  then show ?thesis using assms(3) by (intro bexI [of _ s]) simp_all
qed

lemma legal_move_results [simp]:
  "legal_move (s\<lparr>sc_Results := a\<rparr>) (s'\<lparr>sc_Results := b\<rparr>) = legal_move s s'"
  by (auto simp: legal_move_def Transition_Inr lifecycle_def)

lemma identity_results [simp]:
  "scan_identity (s\<lparr>sc_Results := a\<rparr>) = scan_identity s" "lifecycle (s\<lparr>sc_Results := a\<rparr>) = lifecycle s"
  by (simp_all add: scan_identity_def lifecycle_def)

lemma empty_scan_db_ok: "scan_db_ok (empty_scan_db ps)"
  by (simp add: scan_db_ok_def empty_scan_db_def)

lemma scannerResults_filter:
  "filter (\<lambda>x. Q (sr_Scanner x)) (scannerResults i db) =
     map of_result_row (sort_key rr_Scanner (filter (\<lambda>r. fst (result_key r) = i \<and> Q (snd (result_key r))) (sd_results db)))"
proof -
  have "(\<lambda>x. Q (sr_Scanner x)) \<circ> of_result_row = (\<lambda>r. Q (rr_Scanner r))" by (rule ext) (simp add: of_result_row_def)
  then show ?thesis
    by (simp add: scannerResults_def filter_map filter_sort result_key_def conj_commute)
qed

lemma recorded_rows:
  assumes "scan_db_ok db" "Scan_RecordScannerResult i r t db = Inr db'"
  shows "filter (\<lambda>x. result_key x = (i, sr_Scanner r)) (sd_results db') = [to_result_row i t r]"
    "\<not> Q (i, sr_Scanner r) \<Longrightarrow> filter (\<lambda>x. Q (result_key x)) (sd_results db') = filter (\<lambda>x. Q (result_key x)) (sd_results db)"
proof -
  note rows = RecordResult_Inr(4) [OF assms(2)] and ok' = RecordScannerResult_ok [OF assms]
  have "to_result_row i t r \<in> set (sd_results db')" unfolding rows by (auto simp: list_ex_iff)
  then show "filter (\<lambda>x. result_key x = (i, sr_Scanner r)) (sd_results db') = [to_result_row i t r]"
    using filter_eq_key_singleton [of result_key "sd_results db'" "to_result_row i t r"] ok'
    by (simp add: scan_db_ok_def eq_commute [of "(i, sr_Scanner r)"])
  have "filter (\<lambda>x. Q (result_key x)) (map (\<lambda>x. if result_key x = (i, sr_Scanner r) then to_result_row i t r else x) xs) =
      filter (\<lambda>x. Q (result_key x)) xs" if "\<not> Q (i, sr_Scanner r)" for xs
    using that by (induction xs) auto
  then show "\<not> Q (i, sr_Scanner r) \<Longrightarrow> filter (\<lambda>x. Q (result_key x)) (sd_results db') = filter (\<lambda>x. Q (result_key x)) (sd_results db)"
    unfolding rows by simp
qed

lemma of_to_result_row:
  "0 \<le> sr_Duration r \<Longrightarrow>
   of_result_row (to_result_row i t r) = r\<lparr>sr_Duration := sr_Duration r div 1000000 * 1000000\<rparr>"
  by (simp add: of_result_row_def to_result_row_def text_or_empty_def null_text_def)

lemma ListByProject_page:
  "ListByProject p limit offset db =
     (let l = newest_first (filter (\<lambda>s. sc_ProjectID s = p) (sd_scans db))
      in (take limit (drop offset l), offset + limit < length l))"
  by (auto simp: ListByProject_def Let_def min_def)

lemma newest_first_sorted:
  assumes "distinct (map sc_ID xs)"
  shows "mset (newest_first xs) = mset xs"
    "sorted_wrt (\<lambda>a b. (sc_QueuedAt b, sc_ID b) < (sc_QueuedAt a, sc_ID a)) (newest_first xs)"
proof -
  let ?k = "\<lambda>s. (sc_QueuedAt s, sc_ID s)"
  show "mset (newest_first xs) = mset xs" by (simp add: newest_first_def)
  have "distinct (map ?k xs)" using assms by (auto simp: distinct_map inj_on_def)
  moreover have "mset (map ?k (sort_key ?k xs)) = mset (map ?k xs)" by simp
  ultimately have "distinct (map ?k (sort_key ?k xs))" using mset_eq_imp_distinct_iff by blast
  then have "sorted_wrt (<) (map ?k (sort_key ?k xs))" by (simp add: strict_sorted_iff)
  then show "sorted_wrt (\<lambda>a b. ?k b < ?k a) (newest_first xs)"
    by (simp add: newest_first_def sorted_wrt_rev sorted_wrt_map)
qed

lemma created_run:
  "\<exists>scan. Scan_Create sample_lib ''s1'' sample_newscan sample_actor (empty_scan_db [(''p1'', ''shop'')]) = Inr (scan, created_db)"
  "map lifecycle (sd_scans created_db) = [(StatusQueued, None, None)]" "map sc_ID (sd_scans created_db) = [''s1'']"
proof -
  let ?x = "Scan_Create sample_lib ''s1'' sample_newscan sample_actor (empty_scan_db [(''p1'', ''shop'')])"
  have "\<not> isl ?x" by code_simp
  then show "\<exists>scan. ?x = Inr (scan, created_db)"
    unfolding created_db_def by (metis not_isl_Inr prod.collapse)
qed code_simp+

lemma created_ok: "scan_db_ok created_db"
  using created_run(1) Create_ok [OF empty_scan_db_ok] by blast

lemma reported_run: "Scan_RecordScannerResult ''s1'' (sample_result ''trivy'' ScannerSucceeded []) 9 created_db = Inr reported_db"
  unfolding reported_db_def by (rule not_isl_Inr) code_simp

section \<open>Properties\<close>



text \<open>
  What is recorded of a scanner is read back. After recording a result, reading the scan gives
  exactly one result of that scanner, which is the recorded one with its duration cut to whole
  milliseconds, and the results of all other scanners as before.
\<close>

theorem recorded_result_roundtrip:
  assumes "scan_db_ok db" "Scan_RecordScannerResult i r t db = Inr db'" "0 \<le> sr_Duration r"
  shows "filter (\<lambda>x. sr_Scanner x = sr_Scanner r) (scannerResults i db') =
      [r\<lparr>sr_Duration := sr_Duration r div 1000000 * 1000000\<rparr>] \<and>
    filter (\<lambda>x. sr_Scanner x \<noteq> sr_Scanner r) (scannerResults i db') =
      filter (\<lambda>x. sr_Scanner x \<noteq> sr_Scanner r) (scannerResults i db)"
proof
  have "(\<lambda>x. fst (result_key x) = i \<and> snd (result_key x) = sr_Scanner r) = (\<lambda>x. result_key x = (i, sr_Scanner r))"
    by (auto simp: prod_eq_iff)
  then show "filter (\<lambda>x. sr_Scanner x = sr_Scanner r) (scannerResults i db') =
      [r\<lparr>sr_Duration := sr_Duration r div 1000000 * 1000000\<rparr>]"
    using scannerResults_filter [of "\<lambda>n. n = sr_Scanner r" i db'] recorded_rows(1) [OF assms(1,2)]
      of_to_result_row [OF assms(3)] by simp
  show "filter (\<lambda>x. sr_Scanner x \<noteq> sr_Scanner r) (scannerResults i db') =
      filter (\<lambda>x. sr_Scanner x \<noteq> sr_Scanner r) (scannerResults i db)"
    using scannerResults_filter [of "\<lambda>n. n \<noteq> sr_Scanner r" i]
      recorded_rows(2) [OF assms(1,2), of "\<lambda>k. fst k = i \<and> snd k \<noteq> sr_Scanner r"] by simp
qed

theorem recorded_result_roundtrip_witness:
  "filter (\<lambda>x. sr_Scanner x = ''trivy'') (scannerResults ''s1'' reported_db) = [sample_result ''trivy'' ScannerSucceeded []]"
  using recorded_result_roundtrip [OF created_ok reported_run] by (simp add: sample_result_def)

text \<open>
  Pages list every scan of a project once, newest first. The pages of any positive size, read one
  after the other, are the beginning of the whole listing, a page says that more follow exactly when
  the listing goes on, and the listing has every scan of the project once and in order.
\<close>

theorem pages_cover_listing:
  assumes "scan_db_ok db" "0 < limit"
  shows "concat (map (\<lambda>k. fst (ListByProject p limit (k * limit) db)) [0..<n]) =
      take (n * limit) (newest_first (filter (\<lambda>s. sc_ProjectID s = p) (sd_scans db))) \<and>
    (snd (ListByProject p limit (k * limit) db) \<longleftrightarrow>
      (k + 1) * limit < length (newest_first (filter (\<lambda>s. sc_ProjectID s = p) (sd_scans db)))) \<and>
    mset (newest_first (filter (\<lambda>s. sc_ProjectID s = p) (sd_scans db))) =
      mset (filter (\<lambda>s. sc_ProjectID s = p) (sd_scans db)) \<and>
    sorted_wrt (\<lambda>a b. (sc_QueuedAt b, sc_ID b) < (sc_QueuedAt a, sc_ID a))
      (newest_first (filter (\<lambda>s. sc_ProjectID s = p) (sd_scans db)))"
proof -
  have "distinct (map sc_ID (filter (\<lambda>s. sc_ProjectID s = p) (sd_scans db)))"
    using assms(1) by (simp add: scan_db_ok_def distinct_map_filter)
  from newest_first_sorted [OF this] show ?thesis
    by (simp add: ListByProject_page Let_def concat_pages add.commute)
qed

theorem pages_cover_listing_witness:
  "map sc_ID (concat (map (\<lambda>k. fst (ListByProject ''p1'' 2 (k * 2) created_db)) [0..<1])) = [''s1''] \<and>
   \<not> snd (ListByProject ''p1'' 2 0 created_db)"
proof -
  let ?l = "newest_first (filter (\<lambda>s. sc_ProjectID s = ''p1'') (sd_scans created_db))"
  have l: "map sc_ID (take (1 * 2) ?l) = [''s1'']" "\<not> (0 + 1) * 2 < length ?l" by code_simp+
  have "0 < (2 :: nat)" by simp
  note p = pages_cover_listing [OF created_ok this, where p = "''p1''" and n = 1 and k = 0]
  have a: "concat (map (\<lambda>k. fst (ListByProject ''p1'' 2 (k * 2) created_db)) [0..<1]) = take (1 * 2) ?l"
    by (rule conjunct1 [OF p])
  have b: "snd (ListByProject ''p1'' 2 (0 * 2) created_db) \<longleftrightarrow> (0 + 1) * 2 < length ?l"
    by (rule conjunct1 [OF conjunct2 [OF p]])
  show ?thesis using l(2) b unfolding a l(1) mult_zero_left by blast
qed

end
