(* ===== verification/Adapters.thy ===== *)
theory Adapters
  imports Finding_Store
begin

text \<open>
  What every scanner adapter's \<open>Normalize\<close> shares: the steps with which one reported entry becomes a
  canonical finding and its occurrence (\<open>mapper.go\<close> of each package under \<open>internal/scanners\<close>), and
  the contract \<open>normalization.Normalizer\<close> states for its result. The contract is the locale
  \<open>normalizer\<close>, which every adapter interprets on its own function; \<open>storable_normalizer\<close> adds what
  the columns of the findings tables accept. Its lemmas connect an adapter with the findings store:
  what adapters hand over passes through deduplication and is recorded.

  \<open>json.Unmarshal\<close> into a struct of an adapter is a parameter that returns the decoded document, and
  so are the texts of error values, which only reach the list of parse errors.
\<close>

section \<open>One entry\<close>

record errtexts =
  txt_finding :: "finding_error \<Rightarrow> string"
  txt_fingerprint :: "fingerprint_error \<Rightarrow> string"
  txt_float :: "real \<Rightarrow> string"
  txt_quote :: "string \<Rightarrow> string"

definition sample_texts :: errtexts where
  "sample_texts = \<lparr>txt_finding = (\<lambda>_. ''invalid finding''), txt_fingerprint = (\<lambda>_. ''no identity''),
     txt_float = (\<lambda>_. ''0''), txt_quote = (\<lambda>s. s)\<rparr>"

definition zero_Result :: NormResult where
  "zero_Result = \<lparr>res_Findings = [], res_Occurrences = [], res_Errors = []\<rparr>"

definition add_error :: "string \<Rightarrow> NormResult \<Rightarrow> NormResult" where
  "add_error msg out = out\<lparr>res_Errors := res_Errors out @ [msg]\<rparr>"

text \<open>
  Fingerprint the entry, build its finding, validate it, and append it with its occurrence; either
  error skips the entry and says so. \<open>notes\<close> are what the adapter reports about the entry between the
  two steps.
\<close>

definition emit :: "golib \<Rightarrow> errtexts \<Rightarrow> string \<Rightarrow> FingerprintInput \<Rightarrow> (string \<Rightarrow> Finding) \<Rightarrow> string list \<Rightarrow>
    (string \<Rightarrow> Occurrence) \<Rightarrow> NormResult \<Rightarrow> NormResult" where
  "emit L T label input mk notes occ out =
     (case Fingerprint_of L input of
        Inl e \<Rightarrow> add_error (label @ '': '' @ txt_fingerprint T e) out
      | Inr fp \<Rightarrow>
          let out = foldl (\<lambda>o1 n. add_error (label @ '': '' @ n) o1) out notes in
          case Finding_Validate (mk fp) of
            Some e \<Rightarrow> add_error (label @ '': '' @ txt_finding T e) out
          | None \<Rightarrow> out\<lparr>res_Findings := res_Findings out @ [mk fp],
                        res_Occurrences := res_Occurrences out @ [occ fp]\<rparr>)"

text \<open>An occurrence as the adapters build it: the clock of the sighting is the store's.\<close>

definition occurrence :: "string \<Rightarrow> string \<Rightarrow> string \<Rightarrow> int \<Rightarrow> int \<Rightarrow> string \<Rightarrow> Occurrence" where
  "occurrence scanner scanID loc a b fp = \<lparr>occ_Fingerprint = fp, occ_ScanID = scanID, occ_File = loc,
     occ_StartLine = a, occ_EndLine = b, occ_Scanner = scanner, occ_SeenAt = 0\<rparr>"

text \<open>A slice with its indices, for the loops \<open>for i, x := range xs\<close>.\<close>

abbreviation indexed :: "'a list \<Rightarrow> (nat \<times> 'a) list" where
  "indexed xs \<equiv> enumerate 0 xs"

text \<open>The references of a finding: trimmed, none blank, at most ten.\<close>

definition add_reference :: "nat \<Rightarrow> string list \<Rightarrow> string \<Rightarrow> string list" where
  "add_reference bound out v =
     (let v = TrimSpace v in if v \<noteq> [] \<and> length out < bound then out @ [v] else out)"

text \<open>
  \<open>filepath.Dir\<close>, and the check that a report names neither the workspace nor its parent, which the
  parsers of trivy, semgrep and syft spell out alike.
\<close>

definition filepath_Dir :: "string \<Rightarrow> string" where
  "filepath_Dir p = Clean (take (nat (LastIndexByte p (CHR ''/'') + 1)) p)"

definition assertNoWorkspacePaths :: "string \<Rightarrow> string \<Rightarrow> bool" where
  "assertNoWorkspacePaths data workspacePath =
     (if workspacePath = [] then True
      else let parent = filepath_Dir workspacePath;
               candidates = workspacePath #
                 (if parent \<noteq> [] \<and> parent \<noteq> workspacePath \<and> parent \<noteq> ''/'' then [parent] else [])
           in \<not> list_ex (\<lambda>path. contains data path) candidates)"

section \<open>The contract\<close>

definition result_ok :: "string \<Rightarrow> string \<Rightarrow> NormResult \<Rightarrow> bool" where
  "result_ok name scanID r \<longleftrightarrow>
     (\<forall>f \<in> set (res_Findings r). Finding_Validate f = None \<and> Scanner f = name \<and> FStatus f = StatusOpen) \<and>
     (\<forall>x \<in> set (res_Occurrences r). occ_Scanner x = name \<and> occ_ScanID x = scanID \<and>
        occ_Fingerprint x \<in> Fingerprint ` set (res_Findings r)) \<and>
     length (res_Occurrences r) = length (res_Findings r)"

definition storable :: "NormResult \<Rightarrow> bool" where
  "storable r \<longleftrightarrow> (\<forall>f \<in> set (res_Findings r). finding_checks f) \<and>
     (\<forall>x \<in> set (res_Occurrences r). occurrence_checks x)"

text \<open>The hypothesis on \<open>sha256.Sum256\<close> and \<open>hex.EncodeToString\<close>.\<close>

definition digests_are_hex :: "golib \<Rightarrow> bool" where
  "digests_are_hex L \<longleftrightarrow> (\<forall>s. is_sha256 (lib_sha256hex L s))"

section \<open>Emitting\<close>

lemma result_ok_zero [simp]: "result_ok name scanID zero_Result"
  by (simp add: result_ok_def zero_Result_def)

lemma storable_zero [simp]: "storable zero_Result"
  by (simp add: storable_def zero_Result_def)

lemma add_error_simps [simp]:
  "res_Findings (add_error m out) = res_Findings out" "res_Occurrences (add_error m out) = res_Occurrences out"
  "res_Errors (add_error m out) = res_Errors out @ [m]"
  by (simp_all add: add_error_def)

lemma result_ok_add_error [simp]: "result_ok name scanID (add_error m out) = result_ok name scanID out"
  by (simp add: result_ok_def)

lemma storable_add_error [simp]: "storable (add_error m out) = storable out"
  by (simp add: storable_def)

lemma notes_simps [simp]:
  "res_Findings (foldl (\<lambda>o1 n. add_error (g n) o1) out ns) = res_Findings out"
  "res_Occurrences (foldl (\<lambda>o1 n. add_error (g n) o1) out ns) = res_Occurrences out"
  "res_Errors (foldl (\<lambda>o1 n. add_error (g n) o1) out ns) = res_Errors out @ map g ns"
  by (induction ns arbitrary: out) simp_all

text \<open>The two ways an entry can end.\<close>

lemma emit_cases:
  obtains msgs where "res_Findings (emit L T l i mk ns occ out) = res_Findings out"
    "res_Occurrences (emit L T l i mk ns occ out) = res_Occurrences out"
    "res_Errors (emit L T l i mk ns occ out) = res_Errors out @ msgs" "msgs \<noteq> []"
  | fp where "Fingerprint_of L i = Inr fp" "Finding_Validate (mk fp) = None"
    "res_Findings (emit L T l i mk ns occ out) = res_Findings out @ [mk fp]"
    "res_Occurrences (emit L T l i mk ns occ out) = res_Occurrences out @ [occ fp]"
    "res_Errors (emit L T l i mk ns occ out) = res_Errors out @ map (\<lambda>n. l @ '': '' @ n) ns"
  by (cases "Fingerprint_of L i"; cases "Finding_Validate (mk (projr (Fingerprint_of L i)))")
    (auto simp: emit_def Let_def split: sum.splits option.splits)

lemma emit_invalid:
  "(\<And>fp. Finding_Validate (mk fp) \<noteq> None) \<Longrightarrow> res_Findings (emit L T l i mk ns occ out) = res_Findings out"
  by (cases rule: emit_cases [of L T l i mk ns occ out]) (simp, blast)

lemma result_ok_emit:
  assumes "result_ok name scanID out" and "\<And>fp. Scanner (mk fp) = name \<and> FStatus (mk fp) = StatusOpen \<and> Fingerprint (mk fp) = fp"
    and "\<And>fp. occ_Scanner (occ fp) = name \<and> occ_ScanID (occ fp) = scanID \<and> occ_Fingerprint (occ fp) = fp"
  shows "result_ok name scanID (emit L T l i mk ns occ out)"
  by (rule emit_cases [where L = L and T = T and l = l and i = i and mk = mk and ns = ns and occ = occ and out = out])
    (use assms in \<open>auto simp: result_ok_def\<close>)

lemma storable_emit:
  assumes "storable out" and "\<And>fp. Fingerprint_of L i = Inr fp \<Longrightarrow> Finding_Validate (mk fp) = None \<Longrightarrow> finding_checks (mk fp)"
    and "\<And>fp. occurrence_checks (occ fp)"
  shows "storable (emit L T l i mk ns occ out)"
  by (rule emit_cases [where L = L and T = T and l = l and i = i and mk = mk and ns = ns and occ = occ and out = out])
    (use assms in \<open>auto simp: storable_def\<close>)

lemma occurrence_fields [simp]:
  "occ_Scanner (occurrence n s loc a b fp) = n" "occ_ScanID (occurrence n s loc a b fp) = s"
  "occ_Fingerprint (occurrence n s loc a b fp) = fp" "occ_File (occurrence n s loc a b fp) = loc"
  "occurrence_checks (occurrence n s loc a b fp) \<longleftrightarrow> 0 \<le> a \<and> a < 2147483648 \<and> 0 \<le> b \<and> b < 2147483648"
  by (simp_all add: occurrence_def occurrence_checks_def)

text \<open>A loop that keeps a property of its accumulator keeps it to the end.\<close>

lemma foldl_keeps:
  assumes "P a" and "\<And>a x. x \<in> set xs \<Longrightarrow> P a \<Longrightarrow> P (f a x)"
  shows "P (foldl f a xs)"
  using assms by (induction xs arbitrary: a) auto

lemma result_ok_loop:
  assumes "\<And>i x out. x \<in> set xs \<Longrightarrow> result_ok name scanID out \<Longrightarrow> result_ok name scanID (g out (i, x))" "result_ok name scanID out"
  shows "result_ok name scanID (foldl g out (enumerate n xs))"
  using assms by (induction xs arbitrary: out n) auto

lemma storable_loop:
  assumes "\<And>i x out. x \<in> set xs \<Longrightarrow> storable out \<Longrightarrow> storable (g out (i, x))" "storable out"
  shows "storable (foldl g out (enumerate n xs))"
  using assms by (induction xs arbitrary: out n) auto

lemma blank_text_trims: assumes "blank_text s" shows "TrimSpace s = []"
proof -
  let ?r = "strip_front space_runes s"
  have "[CHR 0x20] \<in> set space_runes" by (simp add: space_runes_def)
  then have "\<not> prefix [CHR 0x20] ?r" by (rule strip_front_clean) simp
  moreover have "set ?r \<subseteq> {CHR 0x20}"
    using assms set_mono_suffix [OF strip_front_suffix [of space_runes s]] by (auto simp: blank_text_def list_all_iff)
  ultimately have "?r = []" by (cases ?r) auto
  then show ?thesis by (simp add: TrimSpace_def TrimLeftSpace_def TrimRightSpace_def strip_front_id)
qed

text \<open>What validation leaves open for the columns to reject.\<close>

lemma validated_is_storable:
  assumes "Finding_Validate f = None" "is_sha256 (Fingerprint f)"
    and "Image f = [] \<or> \<not> blank_text (Image f) \<and> pg_length (Image f) \<le> 255"
    and "Endpoint f = [] \<or> \<not> blank_text (Endpoint f) \<and> pg_length (Endpoint f) \<le> 2048"
    and "FixSt (FixInfo f) = FixStateFixed \<longrightarrow> FixedVersions (FixInfo f) \<noteq> []"
    and "\<And>e. Threat_EPSS (Threat f) = Some e \<Longrightarrow> \<not> blank_text (EPSS_Source e)"
  shows "finding_checks f"
proof -
  have "\<not> blank_text (Title f)" using assms(1) blank_text_trims by (auto simp: Finding_Validate_def split: if_splits)
  moreover have "0 \<le> CVSS f \<and> CVSS f \<le> 10" using assms(1) by (auto simp: Finding_Validate_def split: if_splits)
  moreover have "FixState_Valid (FixSt (FixInfo f)) \<and>
      (FixedVersions (FixInfo f) = [] \<or> FixSt (FixInfo f) = FixStateFixed \<or> FixSt (FixInfo f) = FixStateUnknown)"
    using Finding_Validate_parts(4) [OF assms(1)]
    by (auto simp: Fix_Validate_def FixState_Valid_def split: if_splits)
  ultimately show ?thesis
    using assms(2-) Finding_Validate_parts [OF assms(1)]
    by (auto simp: finding_checks_def Threat_Validate_def split: option.splits if_splits)
qed

lemma add_reference_ok:
  "\<forall>r \<in> set out. TrimSpace r \<noteq> [] \<Longrightarrow> length out \<le> bound \<Longrightarrow>
   (\<forall>r \<in> set (add_reference bound out v). TrimSpace r \<noteq> []) \<and> length (add_reference bound out v) \<le> bound"
  by (auto simp: add_reference_def Let_def)

lemma add_references_ok:
  "\<forall>r \<in> set out. TrimSpace r \<noteq> [] \<Longrightarrow> length out \<le> bound \<Longrightarrow>
   (\<forall>r \<in> set (foldl (add_reference bound) out vs). TrimSpace r \<noteq> []) \<and> length (foldl (add_reference bound) out vs) \<le> bound"
proof (induction vs arbitrary: out)
  case (Cons v vs)
  note * = add_reference_ok [OF Cons.prems, of v]
  show ?case using Cons.IH [OF conjunct1 [OF *] conjunct2 [OF *]] by simp
qed simp

section \<open>From adapters to the store\<close>

lemma merged_checks:
  assumes "\<forall>f \<in> set fs. finding_checks f" "m \<in> set (dd_Findings (Deduplicate fs))"
  shows "finding_checks (merged m)"
proof -
  obtain k where k: "k \<in> Fingerprint ` set fs"
    and m: "m = (merge_group (group_of fs k))\<lparr>Sources := sort (Sources (merge_group (group_of fs k)))\<rparr>"
    using assms(2) by (auto simp: Deduplicate_def dedup_loop)
  have g: "group_of fs k \<noteq> []" "\<forall>f \<in> set (group_of fs k). finding_checks f"
    using k assms(1) by (auto simp: group_of_def filter_empty_conv)
  have hd: "finding_checks (hd (group_of fs k))" using g by auto
  have "Severity_Valid (foldl worse s (map Sev gs))" if "Severity_Valid s" "\<forall>f \<in> set gs. finding_checks f" for s gs
    using that by (induction gs arbitrary: s) (auto simp: worse_def finding_checks_def)
  moreover have "\<forall>f \<in> set (tl (group_of fs k)). finding_checks f" using g by (meson list.set_sel(2))
  ultimately have "Severity_Valid (foldl worse (Sev (hd (group_of fs k))) (map Sev (tl (group_of fs k))))"
    using hd by (simp add: finding_checks_def)
  with hd show ?thesis by (simp add: m merge_group_def finding_checks_def)
qed

text \<open>The combined result of adapters that keep their contract is recorded.\<close>

lemma combined_is_recorded:
  assumes "store_ok db" "\<forall>r \<in> set rs. (\<exists>name. result_ok name scanID r) \<and> storable r"
    and "\<forall>r \<in> set (db_findings db). fw_Project r = p \<longrightarrow> fw_FirstSeen r \<le> t"
  shows "\<exists>db'. RecordScan L p scanID (Combine rs) cs t db = Inr db'"
proof (rule RecordScan_accepts [OF assms(1) _ _ assms(3)])
  let ?fs = "concat (map res_Findings rs)"
  have f: "\<forall>f \<in> set ?fs. finding_checks f" using assms(2) by (auto simp: storable_def)
  show "\<forall>m \<in> set (dd_Findings (Combine rs)). finding_checks (merged m)"
    using merged_checks [OF f] by (simp add: Combine_def)
  have "(\<lambda>m. Fingerprint (merged m)) ` set (dd_Findings (Deduplicate ?fs)) = Fingerprint ` set ?fs"
    using arg_cong [OF Deduplicate_fingerprints [of ?fs], of set] by (simp add: comp_def)
  then show "\<forall>x \<in> set (dd_Occurrences (Combine rs)). occurrence_checks x \<and>
      occ_Fingerprint x \<in> (\<lambda>m. Fingerprint (merged m)) ` set (dd_Findings (Combine rs))"
    using assms(2) by (fastforce simp: Combine_def result_ok_def storable_def)
qed

locale normalizer =
  fixes norm :: "string \<Rightarrow> string \<Rightarrow> NormResult option" and name :: string
  assumes sound: "norm raw scanID = Some r \<Longrightarrow> result_ok name scanID r"
begin

lemma findings_valid: "norm raw scanID = Some r \<Longrightarrow> f \<in> set (res_Findings r) \<Longrightarrow> Finding_Validate f = None \<and> Scanner f = name"
  using sound by (auto simp: result_ok_def)

lemma occurrences_covered:
  "norm raw scanID = Some r \<Longrightarrow> x \<in> set (res_Occurrences r) \<Longrightarrow> occ_Fingerprint x \<in> Fingerprint ` set (res_Findings r)"
  using sound by (auto simp: result_ok_def)

lemma enters_unjudged: "norm raw scanID = Some r \<Longrightarrow> f \<in> set (res_Findings r) \<Longrightarrow> \<not> human_status (FStatus f)"
  using sound by (auto simp: result_ok_def human_status_def)

end

locale storable_normalizer = normalizer +
  fixes good :: "string \<Rightarrow> bool"
  assumes fits: "norm raw scanID = Some r \<Longrightarrow> good raw \<Longrightarrow> storable r"
begin

lemma recorded_alone:
  assumes "norm raw scanID = Some r" "good raw" "store_ok db"
    and "\<forall>r \<in> set (db_findings db). fw_Project r = p \<longrightarrow> fw_FirstSeen r \<le> t"
  shows "\<exists>db'. RecordScan L p scanID (Combine [r]) cs t db = Inr db'"
proof (rule combined_is_recorded [OF assms(3) _ assms(4)])
  show "\<forall>r \<in> set [r]. (\<exists>name. result_ok name scanID r) \<and> storable r"
    using sound [OF assms(1)] fits [OF assms(1,2)] by auto
qed

end

end
