(* ===== verification/Subprocess.thy ===== *)
theory Subprocess
  imports Scan_Exec
begin

text \<open>
  Bounded execution of a scanner: \<open>internal/scanners/exec.go\<close>. The limited buffer is a state with its
  \<open>Write\<close>; \<open>Run\<close> takes what the started process did (the chunks it wrote on its two streams, its exit
  code, why \<open>cmd.Run\<close> returned) and classifies it. The lemmas show that what is captured is the
  beginning of what was written, within the limit and flagged when it was cut, and what a returned
  nil error guarantees. \<open>exec.LookPath\<close> and the process itself are parameters. The workspace
  directory is a parameter of the executor.
\<close>

section \<open>Options and results\<close>

definition DefaultTimeout :: int where
  "DefaultTimeout = 600 * 1000000000"

definition DefaultMaxOutputBytes :: int where
  "DefaultMaxOutputBytes = 67108864"

record ExecOptions =
  eo_Timeout :: int
  eo_MaxOutputBytes :: int
  eo_Dir :: string
  eo_Env :: "string list option"
  eo_AllowNonZeroExit :: bool

definition exec_timeout :: "ExecOptions \<Rightarrow> int" where
  "exec_timeout o1 = (if eo_Timeout o1 \<le> 0 then DefaultTimeout else eo_Timeout o1)"

definition maxOutput :: "ExecOptions \<Rightarrow> int" where
  "maxOutput o1 = (if eo_MaxOutputBytes o1 \<le> 0 then DefaultMaxOutputBytes else eo_MaxOutputBytes o1)"

record ExecResult =
  er_Stdout :: string
  er_Stderr :: string
  er_ExitCode :: int
  er_Duration :: int
  er_Truncated :: bool

definition zero_ExecResult :: ExecResult where
  "zero_ExecResult = \<lparr>er_Stdout = [], er_Stderr = [], er_ExitCode = 0, er_Duration = 0, er_Truncated = False\<rparr>"

section \<open>The limited buffer\<close>

record limitedBuffer =
  lb_buf :: string
  lb_limit :: int
  lb_written :: int
  lb_truncated :: bool

definition new_buffer :: "int \<Rightarrow> limitedBuffer" where
  "new_buffer limit = \<lparr>lb_buf = [], lb_limit = limit, lb_written = 0, lb_truncated = False\<rparr>"

definition lb_Write :: "limitedBuffer \<Rightarrow> string \<Rightarrow> limitedBuffer" where
  "lb_Write l p =
     (let remaining = lb_limit l - lb_written l in
      if remaining \<le> 0 then l\<lparr>lb_truncated := True\<rparr>
      else if int (length p) > remaining
      then l\<lparr>lb_buf := lb_buf l @ take (nat remaining) p, lb_written := lb_limit l, lb_truncated := True\<rparr>
      else l\<lparr>lb_buf := lb_buf l @ p, lb_written := lb_written l + int (length p)\<rparr>)"

section \<open>Run\<close>

text \<open>The command as it is started: an argument vector, a directory and a complete environment.\<close>

record Command =
  cmd_Path :: string
  cmd_Args :: "string list"
  cmd_Dir :: string
  cmd_Env :: "string list"

datatype run_err = ExitError | StartError

text \<open>
  What the process did. The flags are the states of the two contexts when it returned: the deadline
  of the run has passed, and the caller has cancelled.
\<close>

record Process =
  pr_stdout :: "string list"
  pr_stderr :: "string list"
  pr_exit :: "int option"
  pr_err :: "run_err option"
  pr_duration :: int
  pr_deadline :: bool
  pr_cancelled :: bool

definition bad_command_name :: "string \<Rightarrow> bool" where
  "bad_command_name name = list_ex (\<lambda>c. c \<in> set ('' '' @ [CHR 0x09, CHR 0x0A] @ '';|&$'' @ [CHR 0x60])) name"

definition stderr_limit :: int where
  "stderr_limit = 262144"

definition exec_Run :: "(string \<Rightarrow> string option) \<Rightarrow> (Command \<Rightarrow> Process) \<Rightarrow> ExecOptions \<Rightarrow> string \<Rightarrow> string list \<Rightarrow>
    ExecResult \<times> scan_err option" where
  "exec_Run lookPath start opts name args =
     (if name = [] then (zero_ExecResult, Some OtherScanErr)
      else if bad_command_name name then (zero_ExecResult, Some OtherScanErr)
      else case lookPath name of
        None \<Rightarrow> (zero_ExecResult, Some BinaryMissing)
      | Some binary \<Rightarrow>
          let p = start \<lparr>cmd_Path = binary, cmd_Args = args, cmd_Dir = eo_Dir opts,
                cmd_Env = (case eo_Env opts of None \<Rightarrow> [] | Some env \<Rightarrow> env)\<rparr>;
              stdout = foldl lb_Write (new_buffer (maxOutput opts)) (pr_stdout p);
              stderr = foldl lb_Write (new_buffer stderr_limit) (pr_stderr p);
              result = \<lparr>er_Stdout = lb_buf stdout, er_Stderr = lb_buf stderr,
                er_ExitCode = (case pr_exit p of None \<Rightarrow> 0 | Some n \<Rightarrow> n), er_Duration = pr_duration p,
                er_Truncated = lb_truncated stdout\<rparr>
          in if lb_truncated stdout then (result, Some OutputTooLarge)
             else if pr_deadline p then (result, Some ExecTimeout)
             else if pr_cancelled p then (result, Some CtxCanceled)
             else case pr_err p of
               None \<Rightarrow> (result, None)
             | Some ExitError \<Rightarrow> if eo_AllowNonZeroExit opts then (result, None) else (result, Some OtherScanErr)
             | Some StartError \<Rightarrow> (result, Some OtherScanErr))"

section \<open>What every adapter builds from it\<close>

text \<open>The result an adapter starts from: its name, what ran, and the exit code of the run.\<close>

definition raw_of :: "string \<Rightarrow> string \<Rightarrow> Target \<Rightarrow> ExecResult \<Rightarrow> int \<Rightarrow> time \<Rightarrow> RawResult" where
  "raw_of name version target res duration started =
     (let raw = \<lparr>raw_Scanner = name, raw_Version = version, raw_Target = target, raw_Output = [],
        raw_ExitCode = er_ExitCode res, raw_Duration = duration, raw_Degradations = [], raw_StartedAt = started\<rparr>
      in if er_Truncated res then Degrade DegradedOutputTruncated raw else raw)"

definition named_Raw :: "string \<Rightarrow> RawResult" where
  "named_Raw name = zero_RawResult\<lparr>raw_Scanner := name\<rparr>"

text \<open>
  The steps between the guards and the checks that every adapter's \<open>Scan\<close> goes through: run the tool,
  build the raw result, record the degradations known whatever the run did, return it with the error
  of the run if there is one. \<open>accept\<close> is what the adapter does with a run that returned none.
\<close>

definition run_adapter :: "string \<Rightarrow> string \<Rightarrow> Target \<Rightarrow> ExecResult \<times> scan_err option \<Rightarrow> int \<Rightarrow> time \<Rightarrow> Degradation list \<Rightarrow>
    (RawResult \<Rightarrow> ExecResult \<Rightarrow> RawResult \<times> scan_err option) \<Rightarrow> RawResult \<times> scan_err option" where
  "run_adapter name version target run duration started known accept =
     (case run of (res, err) \<Rightarrow>
        let raw = foldl (\<lambda>r d. Degrade d r) (raw_of name version target res duration started) known
        in case err of Some e \<Rightarrow> (raw, Some e) | None \<Rightarrow> accept raw res)"

text \<open>A result that is returned in place of one that must not travel: no output, no exit code.\<close>

definition discarded :: "string \<Rightarrow> string \<Rightarrow> Target \<Rightarrow> RawResult" where
  "discarded name version target = (named_Raw name)\<lparr>raw_Version := version, raw_Target := target\<rparr>"

section \<open>Captured output\<close>

definition buffer_ok :: "limitedBuffer \<Rightarrow> string \<Rightarrow> bool" where
  "buffer_ok l all \<longleftrightarrow> lb_buf l = take (nat (lb_limit l)) all \<and> lb_written l = int (length (lb_buf l)) \<and>
     (length all > nat (lb_limit l) \<longrightarrow> lb_truncated l) \<and> (\<not> lb_truncated l \<longrightarrow> lb_buf l = all)"

lemma lb_Write_ok:
  assumes "buffer_ok l all"
  shows "buffer_ok (lb_Write l p) (all @ p)" "lb_limit (lb_Write l p) = lb_limit l"
proof -
  consider "lb_limit l - lb_written l \<le> 0" | "0 < lb_limit l - lb_written l" "int (length p) > lb_limit l - lb_written l"
    | "0 < lb_limit l - lb_written l" "int (length p) \<le> lb_limit l - lb_written l" by linarith
  then show "buffer_ok (lb_Write l p) (all @ p)"
  proof cases
    case 1
    then have "nat (lb_limit l) \<le> length all" using assms by (auto simp: buffer_ok_def min_def split: if_splits)
    then show ?thesis using 1 assms by (simp add: buffer_ok_def lb_Write_def)
  next
    case 2
    then have "length all < nat (lb_limit l)" "lb_buf l = all" using assms
      by (auto simp: buffer_ok_def min_def split: if_splits)
    then show ?thesis using 2 assms by (simp add: buffer_ok_def lb_Write_def nat_diff_distrib)
  next
    case 3
    then have "length all < nat (lb_limit l)" "lb_buf l = all" using assms
      by (auto simp: buffer_ok_def min_def split: if_splits)
    moreover have "\<not> nat (lb_limit l) < length all + length p"
      using 3 assms calculation by (simp add: buffer_ok_def)
    ultimately show ?thesis using 3 assms by (simp add: buffer_ok_def lb_Write_def)
  qed
  show "lb_limit (lb_Write l p) = lb_limit l" by (simp add: lb_Write_def Let_def)
qed

lemma writes_ok:
  "buffer_ok l all \<Longrightarrow> buffer_ok (foldl lb_Write l ps) (all @ concat ps) \<and> lb_limit (foldl lb_Write l ps) = lb_limit l"
proof (induction ps arbitrary: l all)
  case (Cons p ps)
  show ?case using Cons.IH [OF lb_Write_ok(1) [OF Cons.prems, of p]] lb_Write_ok(2) [OF Cons.prems, of p] by simp
qed simp

lemma captured:
  assumes "0 < limit"
  shows "lb_buf (foldl lb_Write (new_buffer limit) ps) = take (nat limit) (concat ps)"
    and "nat limit < length (concat ps) \<Longrightarrow> lb_truncated (foldl lb_Write (new_buffer limit) ps)"
    and "\<not> lb_truncated (foldl lb_Write (new_buffer limit) ps) \<Longrightarrow> lb_buf (foldl lb_Write (new_buffer limit) ps) = concat ps"
  using writes_ok [of "new_buffer limit" "[]" ps] assms by (auto simp: buffer_ok_def new_buffer_def)

lemma capture_bound: "0 < limit \<Longrightarrow> int (length (lb_buf (foldl lb_Write (new_buffer limit) ps))) \<le> limit"
  by (simp add: captured(1))

lemma limits_positive [simp]: "0 < maxOutput opts" "0 < exec_timeout opts" "0 < stderr_limit"
  by (simp_all add: maxOutput_def exec_timeout_def DefaultMaxOutputBytes_def DefaultTimeout_def stderr_limit_def)

lemma run_is_bounded_success:
  "snd (exec_Run look start opts name args) = None \<Longrightarrow> \<not> er_Truncated (fst (exec_Run look start opts name args))"
  by (auto simp: exec_Run_def Let_def split: if_splits option.splits run_err.splits)

lemma named_Raw_simps [simp]:
  "raw_Output (named_Raw n) = []" "raw_Scanner (named_Raw n) = n" "raw_Degradations (named_Raw n) = []"
  "raw_Output (discarded n v t) = []" "raw_Scanner (discarded n v t) = n" "raw_Degradations (discarded n v t) = []"
  by (simp_all add: named_Raw_def discarded_def zero_RawResult_def)

lemma Degrade_fields [simp]: "raw_Output (Degrade d r) = raw_Output r" "raw_Scanner (Degrade d r) = raw_Scanner r"
  by (simp_all add: Degrade_def)

lemma degrade_all:
  "raw_Output (foldl (\<lambda>r d. Degrade d r) r ds) = raw_Output r" "raw_Scanner (foldl (\<lambda>r d. Degrade d r) r ds) = raw_Scanner r"
  "raw_Degradations (foldl (\<lambda>r d. Degrade d r) r ds) = raw_Degradations r @ dedup_seen (raw_Degradations r) ds"
proof (induction ds arbitrary: r)
  case (Cons d ds)
  {
    case 1 show ?case using Cons(1) by simp
  next
    case 2 show ?case using Cons(2) by simp
  next
    case 3
    have "dedup_seen (raw_Degradations r @ [d]) ds = dedup_seen (d # raw_Degradations r) ds" by (rule dedup_seen_cong) auto
    then show ?case using Cons(3) [of "Degrade d r"] by (auto simp: Degrade_def list_ex_iff)
  }
qed simp_all

text \<open>A run either fails, and its result has no output, or is handed to the adapter's checks.\<close>

lemma run_adapter_cases:
  assumes "run_adapter n v t (exec_Run look start opts cmd args) d st known accept = (raw, err)"
  obtains "err \<noteq> None" "raw_Output raw = []" "raw_Scanner raw = n"
  | res raw0 where "accept raw0 res = (raw, err)" "raw_Output raw0 = []" "raw_Scanner raw0 = n"
    "raw_Degradations raw0 = dedup known" "exec_Run look start opts cmd args = (res, None)"
proof (cases "snd (exec_Run look start opts cmd args)")
  case None
  then obtain res where r: "exec_Run look start opts cmd args = (res, None)" by (metis prod.collapse)
  then have "\<not> er_Truncated res" using run_is_bounded_success [of look start opts cmd args] by simp
  then have "raw_Output (raw_of n v t res d st) = []" "raw_Scanner (raw_of n v t res d st) = n"
    "raw_Degradations (raw_of n v t res d st) = []"
    by (simp_all add: raw_of_def Let_def)
  then show ?thesis using assms r that(2) [of "foldl (\<lambda>r d. Degrade d r) (raw_of n v t res d st) known" res]
    by (simp add: run_adapter_def Let_def degrade_all)
next
  case (Some e)
  then show ?thesis using assms that(1)
    by (auto simp: run_adapter_def raw_of_def Let_def degrade_all split: prod.splits if_splits)
qed


definition sample_process :: "string list \<Rightarrow> Command \<Rightarrow> Process" where
  "sample_process err c = \<lparr>pr_stdout = [''{'', ''}''], pr_stderr = err, pr_exit = Some (if err = [] then 0 else -1),
     pr_err = (if err = [] then None else Some ExitError), pr_duration = 5, pr_deadline = False, pr_cancelled = False\<rparr>"

definition lenient :: ExecOptions where
  "lenient = \<lparr>eo_Timeout = 0, eo_MaxOutputBytes = 0, eo_Dir = ''/work'', eo_Env = None, eo_AllowNonZeroExit = True\<rparr>"


text \<open>
  A flood of diagnostics ends the process as a flood of output does, but is not classified: where any
  exit code is allowed, the run that was killed half-way returns a nil error.
\<close>

lemma stderr_flood_is_success:
  assumes "stderr_limit < int (length (concat err))"
  shows "lb_truncated (foldl lb_Write (new_buffer stderr_limit) err)"
    "snd (exec_Run (\<lambda>n. Some n) (sample_process err) lenient ''gitleaks'' args) = None"
proof -
  show "lb_truncated (foldl lb_Write (new_buffer stderr_limit) err)"
    using captured(2) [of stderr_limit err] assms limits_positive(3) by linarith
  have "err \<noteq> []" using assms by (auto simp: stderr_limit_def)
  then show "snd (exec_Run (\<lambda>n. Some n) (sample_process err) lenient ''gitleaks'' args) = None"
    by (simp add: exec_Run_def sample_process_def lenient_def bad_command_name_def Let_def maxOutput_def
        DefaultMaxOutputBytes_def lb_Write_def new_buffer_def)
qed

end
