(* ===== verification/Gitleaks_Adapter.thy ===== *)
theory Gitleaks_Adapter
  imports Adapters Subprocess
begin

text \<open>
  The gitleaks adapter: \<open>parser.go\<close>, \<open>mapper.go\<close> and the run of \<open>scanner.go\<close> in
  \<open>internal/scanners/gitleaks\<close>. The lemmas show that a successful run returns a report in which every
  secret is redacted, that no finding depends on the text of a secret, and that the mapper keeps the
  contract of a normalizer.
\<close>

section \<open>parser.go\<close>

abbreviation gitleaks_Name :: string where "gitleaks_Name \<equiv> ''gitleaks''"
abbreviation gitleaks_marker :: string where "gitleaks_marker \<equiv> ''REDACTED''"

definition maxFindings :: int where
  "maxFindings = 100000"

record gitleaks_finding =
  gl_RuleID :: string
  gl_Description :: string
  gl_File :: string
  gl_StartLine :: int
  gl_EndLine :: int
  gl_StartColumn :: int
  gl_EndColumn :: int
  gl_Secret :: string
  gl_Match :: string
  gl_Entropy :: real
  gl_Fingerprint :: string
  gl_Commit :: string
  gl_Author :: string
  gl_Email :: string
  gl_Date :: string

definition isSpaceByte :: "char \<Rightarrow> bool" where
  "isSpaceByte b = (b = CHR '' '' \<or> b = CHR 0x09 \<or> b = CHR 0x0A \<or> b = CHR 0x0D)"

definition gitleaks_trimSpace :: "string \<Rightarrow> string" where
  "gitleaks_trimSpace b = rev (dropWhile isSpaceByte (rev (dropWhile isSpaceByte b)))"

text \<open>\<open>None\<close> is \<open>ErrMalformedReport\<close>.\<close>

definition parseReport :: "(string \<Rightarrow> gitleaks_finding list option) \<Rightarrow> string \<Rightarrow> gitleaks_finding list option" where
  "parseReport unmarshal data =
     (if length (gitleaks_trimSpace data) = 0 then Some []
      else case unmarshal data of
        None \<Rightarrow> None
      | Some findings \<Rightarrow> if int (length findings) > maxFindings then None else Some findings)"

definition isRedactedSecret :: "string \<Rightarrow> bool" where
  "isRedactedSecret v = (v = [] \<or> v = gitleaks_marker)"

definition isRedactedMatch :: "string \<Rightarrow> bool" where
  "isRedactedMatch v = (v = [] \<or> contains v gitleaks_marker)"

text \<open>The first finding that is not redacted: its index, rule and field.\<close>

fun assertRedacted_from :: "nat \<Rightarrow> gitleaks_finding list \<Rightarrow> (nat \<times> string \<times> string) option" where
  "assertRedacted_from i [] = None"
| "assertRedacted_from i (f # fs) =
     (if \<not> isRedactedSecret (gl_Secret f) then Some (i, gl_RuleID f, ''Secret'')
      else if \<not> isRedactedMatch (gl_Match f) then Some (i, gl_RuleID f, ''Match'')
      else assertRedacted_from (i + 1) fs)"

definition assertRedacted :: "gitleaks_finding list \<Rightarrow> (nat \<times> string \<times> string) option" where
  "assertRedacted fs = assertRedacted_from 0 fs"

section \<open>mapper.go\<close>

definition secretTitle :: "string \<Rightarrow> string" where
  "secretTitle ruleID = (if ruleID = [] then ''Exposed credential'' else ''Exposed credential ('' @ ruleID @ '')'')"

definition gitleaks_map :: "golib \<Rightarrow> errtexts \<Rightarrow> string \<Rightarrow> NormResult \<Rightarrow> nat \<times> gitleaks_finding \<Rightarrow> NormResult" where
  "gitleaks_map L T scanID out = (\<lambda>(i, f).
     if \<not> isRedactedSecret (gl_Secret f) \<or> \<not> isRedactedMatch (gl_Match f)
     then add_error (''finding '' @ Itoa i @ '': unredacted secret material; discarded'') out
     else let location = NormalizeLocation (gl_File f) in
       emit L T (''finding '' @ Itoa i)
         \<lparr>in_Category = CategorySecrets, in_RuleID = gl_RuleID f, in_Location = location,
          in_Package = [], in_VulnerabilityID = []\<rparr>
         (\<lambda>fp. zero_Finding\<lparr>Fingerprint := fp, Scanner := gitleaks_Name, ScannerFindingID := gl_Fingerprint f,
            ScannerSeverity := [], Category := CategorySecrets, Sev := SeverityCritical, Conf := ConfidenceHigh,
            Title := secretTitle (gl_RuleID f), Description := gl_Description f,
            Remediation := ''Revoke the credential, then remove it from the file and from history.'',
            FStatus := StatusOpen\<rparr>)
         [] (occurrence gitleaks_Name scanID location (gl_StartLine f) (gl_EndLine f)) out)"

definition Gitleaks_Normalize :: "golib \<Rightarrow> errtexts \<Rightarrow> (string \<Rightarrow> gitleaks_finding list option) \<Rightarrow> string \<Rightarrow> string \<Rightarrow>
    NormResult option" where
  "Gitleaks_Normalize L T unmarshal data scanID =
     (case parseReport unmarshal data of
        None \<Rightarrow> None
      | Some findings \<Rightarrow> Some (foldl (gitleaks_map L T scanID) zero_Result (indexed findings)))"

section \<open>scanner.go\<close>

definition gitleaks_env :: "string list" where
  "gitleaks_env = [''PATH=/usr/local/bin:/usr/bin:/bin'', ''HOME=/nonexistent'', ''GIT_CONFIG_NOSYSTEM=1'',
     ''GIT_CONFIG_GLOBAL=/dev/null'', ''GIT_CONFIG_SYSTEM=/dev/null'']"

record Gitleaks =
  gs_Timeout :: int
  gs_MaxOutputBytes :: int
  gs_ConfigPath :: string

definition gitleaks_args :: "Gitleaks \<Rightarrow> string \<Rightarrow> string list" where
  "gitleaks_args s reportPath =
     [''detect'', ''--no-git'', ''--source'', ''.'', ''--report-format'', ''json'', ''--report-path'', reportPath,
      ''--redact'', ''--exit-code'', ''1''] @
     (if gs_ConfigPath s = [] then [] else [''--config'', gs_ConfigPath s])"

definition gitleaks_opts :: "Gitleaks \<Rightarrow> Target \<Rightarrow> ExecOptions" where
  "gitleaks_opts s target = \<lparr>eo_Timeout = gs_Timeout s, eo_MaxOutputBytes = gs_MaxOutputBytes s, eo_Dir = t_Path target,
     eo_Env = Some gitleaks_env, eo_AllowNonZeroExit = True\<rparr>"

text \<open>
  The report directory, the version, the two clock readings and the report file are what the outside
  answers; the report is read after the run.
\<close>

definition Gitleaks_Scan :: "(string \<Rightarrow> string option) \<Rightarrow> (Command \<Rightarrow> Process) \<Rightarrow> (string \<Rightarrow> gitleaks_finding list option) \<Rightarrow>
    string option \<Rightarrow> string \<Rightarrow> string option \<Rightarrow> time \<Rightarrow> int \<Rightarrow> Gitleaks \<Rightarrow> Target \<Rightarrow> RawResult \<times> scan_err option" where
  "Gitleaks_Scan look start unmarshal reportDir version reportFile started elapsed s target =
     (if t_Kind target \<noteq> KindFilesystem then (named_Raw gitleaks_Name, Some UnsupportedTarget)
      else if t_Path target = [] then (named_Raw gitleaks_Name, Some OtherScanErr)
      else case reportDir of
        None \<Rightarrow> (named_Raw gitleaks_Name, Some OtherScanErr)
      | Some dir \<Rightarrow>
          run_adapter gitleaks_Name version target
            (exec_Run look start (gitleaks_opts s target) gitleaks_Name (gitleaks_args s (dir @ ''/report.json'')))
            elapsed started []
            (\<lambda>raw res.
               case reportFile of
                 None \<Rightarrow> (raw, Some OtherScanErr)
               | Some content \<Rightarrow>
                   (case parseReport unmarshal content of
                      None \<Rightarrow> (raw, Some OtherScanErr)
                    | Some findings \<Rightarrow>
                        if assertRedacted findings \<noteq> None
                        then (discarded gitleaks_Name version target, Some OtherScanErr)
                        else (raw\<lparr>raw_Output := content\<rparr>, None))))"

section \<open>Specification vocabulary\<close>

text \<open>What remains of a finding without the two fields that carry the credential.\<close>

definition without_secret :: "gitleaks_finding \<Rightarrow> gitleaks_finding" where
  "without_secret f = f\<lparr>gl_Secret := [], gl_Match := []\<rparr>"

definition is_redacted :: "gitleaks_finding \<Rightarrow> bool" where
  "is_redacted f \<longleftrightarrow> isRedactedSecret (gl_Secret f) \<and> isRedactedMatch (gl_Match f)"

definition gitleaks_good :: "golib \<Rightarrow> (string \<Rightarrow> gitleaks_finding list option) \<Rightarrow> string \<Rightarrow> bool" where
  "gitleaks_good L unmarshal data \<longleftrightarrow> digests_are_hex L \<and>
     (\<forall>fs. parseReport unmarshal data = Some fs \<longrightarrow>
        (\<forall>f \<in> set fs. 0 \<le> gl_StartLine f \<and> gl_StartLine f < 2147483648 \<and> 0 \<le> gl_EndLine f \<and> gl_EndLine f < 2147483648))"

definition sample_leak :: "string \<Rightarrow> string \<Rightarrow> gitleaks_finding" where
  "sample_leak secret m = \<lparr>gl_RuleID = ''aws-key'', gl_Description = ''AWS key'', gl_File = ''./conf/a.env'', gl_StartLine = 3,
     gl_EndLine = 3, gl_StartColumn = 1, gl_EndColumn = 20, gl_Secret = secret, gl_Match = m, gl_Entropy = 4,
     gl_Fingerprint = ''x:1'', gl_Commit = [], gl_Author = [], gl_Email = [], gl_Date = []\<rparr>"

section \<open>Lemmas\<close>

lemma assertRedacted_None: "assertRedacted fs = None \<longleftrightarrow> (\<forall>f \<in> set fs. is_redacted f)"
proof -
  have "assertRedacted_from i fs = None \<longleftrightarrow> (\<forall>f \<in> set fs. is_redacted f)" for i
    by (induction i fs rule: assertRedacted_from.induct) (auto simp: is_redacted_def)
  then show ?thesis by (simp add: assertRedacted_def)
qed

lemma gitleaks_map_ok: "result_ok gitleaks_Name scanID out \<Longrightarrow> result_ok gitleaks_Name scanID (gitleaks_map L T scanID out x)"
  by (cases x) (auto simp: gitleaks_map_def Let_def intro!: result_ok_emit)

lemma gitleaks_map_storable:
  assumes "storable out" "digests_are_hex L" "0 \<le> gl_StartLine f" "gl_StartLine f < 2147483648" "0 \<le> gl_EndLine f" "gl_EndLine f < 2147483648"
  shows "storable (gitleaks_map L T scanID out (i, f))"
proof (cases "is_redacted f")
  case True
  then show ?thesis unfolding gitleaks_map_def is_redacted_def Let_def prod.case
    by (simp, intro storable_emit validated_is_storable)
      (use assms in \<open>auto simp: digests_are_hex_def zero_Finding_def dest!: Fingerprint_of_Inr(2)\<close>)
qed (use assms(1) in \<open>auto simp: gitleaks_map_def is_redacted_def\<close>)

interpretation gitleaks: storable_normalizer "Gitleaks_Normalize L T unmarshal" gitleaks_Name "gitleaks_good L unmarshal"
  for L T unmarshal
proof
  fix raw scanID r
  assume r: "Gitleaks_Normalize L T unmarshal raw scanID = Some r"
  then obtain fs where fs: "parseReport unmarshal raw = Some fs" "r = foldl (gitleaks_map L T scanID) zero_Result (indexed fs)"
    by (auto simp: Gitleaks_Normalize_def split: option.splits)
  show "result_ok gitleaks_Name scanID r"
    unfolding fs(2) by (rule result_ok_loop) (simp_all add: gitleaks_map_ok)
  assume "gitleaks_good L unmarshal raw"
  with fs(1) show "storable r"
    unfolding fs(2) by (intro storable_loop) (simp_all add: gitleaks_good_def gitleaks_map_storable)
qed

text \<open>
  C18: no finding of gitleaks depends on the text of a secret. Two reports that agree on everything
  but the contents of the two fields that carry the credential, and on which entries are redacted,
  give the same result: findings, occurrences and parse errors.
\<close>

theorem secrets_never_reach_findings:
  assumes "parseReport unmarshal d1 = Some as" "parseReport unmarshal d2 = Some bs"
    and "list_all2 (\<lambda>a b. without_secret a = without_secret b \<and> is_redacted a = is_redacted b) as bs"
  shows "Gitleaks_Normalize L T unmarshal d1 scanID = Gitleaks_Normalize L T unmarshal d2 scanID"
proof -
  have fields: "gl_RuleID a = gl_RuleID b \<and> gl_File a = gl_File b \<and> gl_Fingerprint a = gl_Fingerprint b \<and>
      gl_Description a = gl_Description b \<and> gl_StartLine a = gl_StartLine b \<and> gl_EndLine a = gl_EndLine b"
    if "without_secret a = without_secret b" for a b
    using arg_cong [OF that, of gl_RuleID] arg_cong [OF that, of gl_File] arg_cong [OF that, of gl_Fingerprint]
      arg_cong [OF that, of gl_Description] arg_cong [OF that, of gl_StartLine] arg_cong [OF that, of gl_EndLine]
    by (simp add: without_secret_def)
  have step: "gitleaks_map L T scanID out (i, a) = gitleaks_map L T scanID out (i, b)"
    if "without_secret a = without_secret b" "is_redacted a = is_redacted b" for out i a b
    using fields [OF that(1)] that(2) unfolding gitleaks_map_def prod.case de_Morgan_conj [symmetric] is_redacted_def [symmetric]
    by simp
  have "foldl (gitleaks_map L T scanID) out (enumerate n as) = foldl (gitleaks_map L T scanID) out (enumerate n bs)" for out n
    using assms(3)
  proof (induction as bs arbitrary: out n rule: list_all2_induct)
    case (Cons a1 as1 b1 bs1)
    then show ?case using step [of a1 b1 out n] by simp
  qed simp
  then show ?thesis using assms(1,2) by (simp add: Gitleaks_Normalize_def)
qed

theorem secrets_never_reach_findings_witness:
  "Gitleaks_Normalize sample_lib sample_texts (\<lambda>d. Some [sample_leak (if d = ''a'' then ''AKIA1'' else ''AKIA2'') []]) ''a'' ''s1'' =
   Gitleaks_Normalize sample_lib sample_texts (\<lambda>d. Some [sample_leak (if d = ''a'' then ''AKIA1'' else ''AKIA2'') []]) ''b'' ''s1''"
  by (rule secrets_never_reach_findings [where as = "[sample_leak ''AKIA1'' []]" and bs = "[sample_leak ''AKIA2'' []]"])
    (simp_all add: parseReport_def gitleaks_trimSpace_def isSpaceByte_def maxFindings_def sample_leak_def
      without_secret_def is_redacted_def isRedactedSecret_def)

text \<open>
  C40: a gitleaks run that succeeds hands over a report in which every secret is redacted, so that
  mapping it discards nothing; anything else is an error without output.
\<close>

theorem gitleaks_fails_closed:
  assumes "Gitleaks_Scan look start unmarshal reportDir version reportFile started elapsed s target = (raw, err)"
  shows "(err \<noteq> None \<longrightarrow> raw_Output raw = []) \<and>
    (err = None \<longrightarrow> raw_Scanner raw = gitleaks_Name \<and> raw_Degradations raw = [] \<and>
      (\<exists>fs. parseReport unmarshal (raw_Output raw) = Some fs \<and> (\<forall>f \<in> set fs. is_redacted f)))"
proof (cases "t_Kind target \<noteq> KindFilesystem \<or> t_Path target = [] \<or> reportDir = None")
  case True
  then show ?thesis using assms by (auto simp: Gitleaks_Scan_def named_Raw_def zero_RawResult_def split: if_splits option.splits)
next
  case False
  then obtain dir where dir: "reportDir = Some dir" by auto
  have "run_adapter gitleaks_Name version target
      (exec_Run look start (gitleaks_opts s target) gitleaks_Name (gitleaks_args s (dir @ ''/report.json''))) elapsed started []
      (\<lambda>raw res. case reportFile of None \<Rightarrow> (raw, Some OtherScanErr)
        | Some content \<Rightarrow> (case parseReport unmarshal content of None \<Rightarrow> (raw, Some OtherScanErr)
            | Some findings \<Rightarrow> if assertRedacted findings \<noteq> None
                then (discarded gitleaks_Name version target, Some OtherScanErr)
                else (raw\<lparr>raw_Output := content\<rparr>, None))) = (raw, err)"
    using assms False dir by (simp add: Gitleaks_Scan_def)
  then show ?thesis
    by (rule run_adapter_cases) (auto simp: assertRedacted_None split: option.splits if_splits)
qed

theorem gitleaks_fails_closed_witness:
  "raw_Output (fst (Gitleaks_Scan Some (sample_process []) (\<lambda>_. Some [sample_leak ''AKIA1'' []]) (Some ''/tmp/r'') ''8'' (Some ''x'') 0 5
     \<lparr>gs_Timeout = 0, gs_MaxOutputBytes = 0, gs_ConfigPath = []\<rparr> (zero_Target\<lparr>t_Kind := KindFilesystem, t_Path := ''/work''\<rparr>))) = []"
proof -
  let ?r = "Gitleaks_Scan Some (sample_process []) (\<lambda>_. Some [sample_leak ''AKIA1'' []]) (Some ''/tmp/r'') ''8'' (Some ''x'') 0 5
     \<lparr>gs_Timeout = 0, gs_MaxOutputBytes = 0, gs_ConfigPath = []\<rparr> (zero_Target\<lparr>t_Kind := KindFilesystem, t_Path := ''/work''\<rparr>)"
  have "snd ?r \<noteq> None" by code_simp
  with gitleaks_fails_closed [OF prod.collapse [symmetric, of ?r]] show ?thesis by blast
qed

end
