(* ===== verification/Semgrep_Adapter.thy ===== *)
theory Semgrep_Adapter
  imports Adapters Subprocess
begin

text \<open>
  The semgrep adapter: the checks of \<open>parser.go\<close>, \<open>mapper.go\<close>, and the run, the directories and the
  ruleset names of \<open>scanner.go\<close> in \<open>internal/scanners/semgrep\<close>. Fetching rulesets is not modelled. The
  lemmas show that neither a run nor the mapper lets matched source code through.
\<close>

section \<open>parser.go\<close>

abbreviation semgrep_Name :: string where "semgrep_Name \<equiv> ''semgrep''"
abbreviation semgrep_marker :: string where "semgrep_marker \<equiv> ''requires login''"

definition maxResults :: int where
  "maxResults = 200000"

record semgrep_pos =
  sp_Line :: int
  sp_Col :: int

record semgrep_metadata =
  sm_References :: "string list"
  sm_Shortlink :: string
  sm_SourceRuleURL :: string

record semgrep_extra =
  se_Message :: string
  se_Severity :: string
  se_Lines :: string
  se_Metadata :: semgrep_metadata

record semgrep_result =
  sg_CheckID :: string
  sg_Path :: string
  sg_Start :: semgrep_pos
  sg_End :: semgrep_pos
  sg_Extra :: semgrep_extra

text \<open>A slice that may be nil is an option; of the errors and the paths only their presence is read.\<close>

record semgrep_report =
  sr_Results_of :: "semgrep_result list option"
  sr_has_Errors :: bool
  sr_has_Paths :: bool
  sr_ReportVersion :: string

datatype semgrep_error = SemgrepMalformed | SemgrepSourceLeak

definition report_results :: "semgrep_report \<Rightarrow> semgrep_result list" where
  "report_results r = (case sr_Results_of r of None \<Rightarrow> [] | Some rs \<Rightarrow> rs)"

definition semgrep_validateReport :: "(string \<Rightarrow> semgrep_report option) \<Rightarrow> string \<Rightarrow> semgrep_error option" where
  "semgrep_validateReport unmarshal data =
     (if length (TrimSpace data) = 0 then Some SemgrepMalformed
      else case unmarshal data of
        None \<Rightarrow> Some SemgrepMalformed
      | Some r \<Rightarrow>
          if \<not> sr_has_Paths r \<and> \<not> sr_has_Errors r \<and> sr_Results_of r = None then Some SemgrepMalformed
          else if int (length (report_results r)) > maxResults then Some SemgrepMalformed
          else None)"

definition isRedactedSource :: "string \<Rightarrow> bool" where
  "isRedactedSource v = (let trimmed = TrimSpace v in trimmed = [] \<or> trimmed = semgrep_marker)"

definition assertNoMatchedSource :: "(string \<Rightarrow> semgrep_report option) \<Rightarrow> string \<Rightarrow> semgrep_error option" where
  "assertNoMatchedSource unmarshal data =
     (case unmarshal data of
        None \<Rightarrow> Some SemgrepMalformed
      | Some r \<Rightarrow>
          if list_ex (\<lambda>res. \<not> isRedactedSource (se_Lines (sg_Extra res))) (report_results r)
          then Some SemgrepSourceLeak else None)"

section \<open>mapper.go\<close>

text \<open>The last segment of a dotted rule id.\<close>

definition sastTitle :: "string \<Rightarrow> string" where
  "sastTitle checkID =
     (if checkID = [] then ''Static analysis finding''
      else drop (nat (LastIndexByte checkID (CHR ''.'') + 1)) checkID)"

definition maxRuleReferences :: nat where
  "maxRuleReferences = 10"

definition ruleReferences :: "semgrep_metadata \<Rightarrow> string list" where
  "ruleReferences m =
     add_reference maxRuleReferences
       (add_reference maxRuleReferences (foldl (add_reference maxRuleReferences) [] (sm_References m)) (sm_SourceRuleURL m))
       (sm_Shortlink m)"

definition semgrep_map :: "golib \<Rightarrow> errtexts \<Rightarrow> string \<Rightarrow> NormResult \<Rightarrow> nat \<times> semgrep_result \<Rightarrow> NormResult" where
  "semgrep_map L T scanID out = (\<lambda>(i, res).
     let location = NormalizeLocation (sg_Path res) in
     emit L T (''result '' @ Itoa i)
       \<lparr>in_Category = CategorySAST, in_RuleID = sg_CheckID res, in_Location = location,
        in_Package = [], in_VulnerabilityID = []\<rparr>
       (\<lambda>fp. zero_Finding\<lparr>Fingerprint := fp, Scanner := semgrep_Name, ScannerFindingID := sg_CheckID res,
          ScannerSeverity := se_Severity (sg_Extra res), Category := CategorySAST,
          Sev := MapSemgrepSeverity L (se_Severity (sg_Extra res)), Conf := ConfidenceMedium,
          Title := sastTitle (sg_CheckID res), Description := se_Message (sg_Extra res),
          FixInfo := \<lparr>FixSt = FixStateUnknown, FixedVersions = [],
            References = ruleReferences (se_Metadata (sg_Extra res))\<rparr>,
          FStatus := StatusOpen\<rparr>)
       [] (occurrence semgrep_Name scanID location (sp_Line (sg_Start res)) (sp_Line (sg_End res))) out)"

definition Semgrep_Normalize :: "golib \<Rightarrow> errtexts \<Rightarrow> (string \<Rightarrow> semgrep_report option) \<Rightarrow> string \<Rightarrow> string \<Rightarrow>
    NormResult option" where
  "Semgrep_Normalize L T unmarshal data scanID =
     (if semgrep_validateReport unmarshal data \<noteq> None then None
      else if assertNoMatchedSource unmarshal data \<noteq> None then None
      else case unmarshal data of
        None \<Rightarrow> None
      | Some r \<Rightarrow> Some (foldl (semgrep_map L T scanID) zero_Result (indexed (report_results r))))"

section \<open>scanner.go\<close>

record Semgrep =
  ss_Timeout :: int
  ss_MaxOutputBytes :: int
  ss_Dir :: string

definition IsAbs :: "string \<Rightarrow> bool" where
  "IsAbs p = prefix ''/'' p"

text \<open>\<open>None\<close> is the error that the directory is unusable.\<close>

definition baseDir :: "Semgrep \<Rightarrow> string option" where
  "baseDir s =
     (if TrimSpace (ss_Dir s) = [] then None
      else let clean = Clean (ss_Dir s) in if \<not> IsAbs clean then None else Some clean)"

definition rulesDir :: "Semgrep \<Rightarrow> string" where
  "rulesDir s = filepath_Join (Clean (ss_Dir s)) ''rules''"

definition homeDir :: "Semgrep \<Rightarrow> string" where
  "homeDir s = filepath_Join (Clean (ss_Dir s)) ''home''"

definition tmpDir :: "Semgrep \<Rightarrow> string" where
  "tmpDir s = filepath_Join (Clean (ss_Dir s)) ''tmp''"

definition semgrep_args :: "Semgrep \<Rightarrow> string list" where
  "semgrep_args s = [''scan'', ''--config'', rulesDir s, ''--json'', ''--metrics=off'', ''--quiet'',
     ''--no-rewrite-rule-ids'', ''--max-target-bytes'', ''1000000'', ''--timeout'', ''30'', ''--no-autofix'', ''.'']"

text \<open>Where the installation lies, its own directory and its packages, is a parameter.\<close>

definition semgrep_env :: "string \<Rightarrow> string \<Rightarrow> Semgrep \<Rightarrow> string list" where
  "semgrep_env binDir pythonPath s =
     [''PATH='' @ binDir @ '':/usr/local/bin:/usr/bin:/bin'', ''HOME='' @ homeDir s, ''SEMGREP_SEND_METRICS=off'',
      ''SEMGREP_SETTINGS_FILE='' @ filepath_Join (homeDir s) ''settings.yml'', ''TMPDIR='' @ tmpDir s] @
     (if pythonPath = [] then [] else [''PYTHONPATH='' @ pythonPath])"

definition semgrep_opts :: "string \<Rightarrow> string \<Rightarrow> Semgrep \<Rightarrow> Target \<Rightarrow> ExecOptions" where
  "semgrep_opts binDir pythonPath s target = \<lparr>eo_Timeout = ss_Timeout s, eo_MaxOutputBytes = ss_MaxOutputBytes s,
     eo_Dir = t_Path target, eo_Env = Some (semgrep_env binDir pythonPath s), eo_AllowNonZeroExit = False\<rparr>"

definition Semgrep_Scan :: "(string \<Rightarrow> string option) \<Rightarrow> (Command \<Rightarrow> Process) \<Rightarrow> (string \<Rightarrow> semgrep_report option) \<Rightarrow>
    string \<times> string \<Rightarrow> bool \<Rightarrow> string \<Rightarrow> time \<Rightarrow> int \<Rightarrow> Semgrep \<Rightarrow> Target \<Rightarrow> RawResult \<times> scan_err option" where
  "Semgrep_Scan look start unmarshal layout dirsMade version started elapsed s target =
     (if t_Kind target \<noteq> KindFilesystem then (named_Raw semgrep_Name, Some UnsupportedTarget)
      else if t_Path target = [] then (named_Raw semgrep_Name, Some OtherScanErr)
      else if baseDir s = None then (named_Raw semgrep_Name, Some OtherScanErr)
      else if \<not> dirsMade then (named_Raw semgrep_Name, Some OtherScanErr)
      else run_adapter semgrep_Name version target
        (exec_Run look start (semgrep_opts (fst layout) (snd layout) s target) semgrep_Name (semgrep_args s))
        elapsed started []
        (\<lambda>raw res.
           if semgrep_validateReport unmarshal (er_Stdout res) \<noteq> None then (raw, Some OtherScanErr)
           else if assertNoMatchedSource unmarshal (er_Stdout res) \<noteq> None
           then (discarded semgrep_Name version target, Some OtherScanErr)
           else if \<not> assertNoWorkspacePaths (er_Stdout res) (t_Path target)
           then (discarded semgrep_Name version target, Some OtherScanErr)
           else (raw\<lparr>raw_Output := er_Stdout res\<rparr>, None)))"

definition ruleset_rune :: "char \<Rightarrow> bool" where
  "ruleset_rune r = (CHR ''a'' \<le> r \<and> r \<le> CHR ''z'' \<or> CHR ''A'' \<le> r \<and> r \<le> CHR ''Z'' \<or> CHR ''0'' \<le> r \<and> r \<le> CHR ''9'' \<or>
     r \<in> set ''/-_.'')"

definition rulesetFilename :: "string \<Rightarrow> string option" where
  "rulesetFilename ruleset =
     (if ruleset = [] \<or> contains ruleset ''..'' \<or> prefix ''-'' ruleset then None
      else if \<not> list_all ruleset_rune ruleset then None
      else Some (map (\<lambda>c. if c = CHR ''/'' then CHR ''_'' else c) ruleset @ ''.yaml''))"

section \<open>Specification vocabulary\<close>

definition sourceless :: "semgrep_result \<Rightarrow> semgrep_result" where
  "sourceless r = r\<lparr>sg_Extra := (sg_Extra r)\<lparr>se_Lines := []\<rparr>\<rparr>"

definition semgrep_good :: "golib \<Rightarrow> (string \<Rightarrow> semgrep_report option) \<Rightarrow> string \<Rightarrow> bool" where
  "semgrep_good L unmarshal data \<longleftrightarrow> digests_are_hex L \<and>
     (\<forall>r. unmarshal data = Some r \<longrightarrow> (\<forall>x \<in> set (report_results r).
        0 \<le> sp_Line (sg_Start x) \<and> sp_Line (sg_Start x) < 2147483648 \<and>
        0 \<le> sp_Line (sg_End x) \<and> sp_Line (sg_End x) < 2147483648))"

definition sample_semgrep :: "string \<Rightarrow> semgrep_result" where
  "sample_semgrep lines = \<lparr>sg_CheckID = ''go.lang.sql'', sg_Path = ''db/q.go'', sg_Start = \<lparr>sp_Line = 4, sp_Col = 1\<rparr>,
     sg_End = \<lparr>sp_Line = 5, sp_Col = 2\<rparr>, sg_Extra = \<lparr>se_Message = ''concatenated query'', se_Severity = ''ERROR'', se_Lines = lines,
       se_Metadata = \<lparr>sm_References = [''https://example.org''], sm_Shortlink = [], sm_SourceRuleURL = []\<rparr>\<rparr>\<rparr>"

definition sample_semgrep_report :: "string \<Rightarrow> semgrep_report" where
  "sample_semgrep_report lines = \<lparr>sr_Results_of = Some [sample_semgrep lines], sr_has_Errors = True, sr_has_Paths = True,
     sr_ReportVersion = ''1''\<rparr>"

section \<open>Lemmas\<close>

lemma semgrep_map_ok: "result_ok semgrep_Name scanID out \<Longrightarrow> result_ok semgrep_Name scanID (semgrep_map L T scanID out x)"
  by (cases x) (auto simp: semgrep_map_def Let_def intro!: result_ok_emit)

lemma semgrep_map_storable:
  assumes "storable out" "digests_are_hex L" "0 \<le> sp_Line (sg_Start x)" "sp_Line (sg_Start x) < 2147483648"
    "0 \<le> sp_Line (sg_End x)" "sp_Line (sg_End x) < 2147483648"
  shows "storable (semgrep_map L T scanID out (i, x))"
  unfolding semgrep_map_def Let_def prod.case
  by (intro storable_emit validated_is_storable)
    (use assms in \<open>auto simp: digests_are_hex_def zero_Finding_def dest!: Fingerprint_of_Inr(2)\<close>)

interpretation semgrep: storable_normalizer "Semgrep_Normalize L T unmarshal" semgrep_Name "semgrep_good L unmarshal"
  for L T unmarshal
proof
  fix raw scanID r
  assume r: "Semgrep_Normalize L T unmarshal raw scanID = Some r"
  then obtain d where d: "unmarshal raw = Some d" "r = foldl (semgrep_map L T scanID) zero_Result (indexed (report_results d))"
    by (auto simp: Semgrep_Normalize_def split: option.splits if_splits)
  show "result_ok semgrep_Name scanID r"
    unfolding d(2) by (rule result_ok_loop) (simp_all add: semgrep_map_ok)
  assume "semgrep_good L unmarshal raw"
  with d(1) show "storable r"
    unfolding d(2) by (intro storable_loop) (simp_all add: semgrep_good_def semgrep_map_storable)
qed

lemma semgrep_references:
  "(\<forall>r \<in> set (ruleReferences m). TrimSpace r \<noteq> []) \<and> length (ruleReferences m) \<le> 10"
  using add_references_ok [of "[]" maxRuleReferences "sm_References m @ [sm_SourceRuleURL m, sm_Shortlink m]"]
  by (simp add: ruleReferences_def maxRuleReferences_def)

text \<open>A rule id that ends in a dot has no title, and its finding is dropped with a note.\<close>

lemma dotted_rule_is_dropped: "sastTitle (s @ ''.'') = []"
  by (simp add: sastTitle_def LastIndexByte_def)

lemma ruleset_stays_in_directory:
  assumes "rulesetFilename ruleset = Some n"
  shows "CHR ''/'' \<notin> set n \<and> n \<noteq> ''..'' \<and> \<not> prefix ''-'' n"
  using assms by (cases ruleset) (auto simp: rulesetFilename_def split: if_splits)

text \<open>
  Matched source code goes nowhere. A semgrep run that succeeds returns a whole report of semgrep
  in which no entry carries source and which names neither the workspace nor its parent; every other
  run returns an error and no output. And the findings of a report do not depend on the source
  fields: two reports the mapper accepts that agree on everything else give the same findings.
\<close>

theorem semgrep_keeps_source_out:
  assumes "Semgrep_Scan look start unmarshal layout dirs version started elapsed s target = (raw, err)"
  shows "(err \<noteq> None \<longrightarrow> raw_Output raw = []) \<and>
    (err = None \<longrightarrow> raw_Degradations raw = [] \<and> assertNoWorkspacePaths (raw_Output raw) (t_Path target) \<and>
      (\<exists>r. unmarshal (raw_Output raw) = Some r \<and> (\<forall>x \<in> set (report_results r). isRedactedSource (se_Lines (sg_Extra x)))) \<and>
      (\<forall>L T scanID. Semgrep_Normalize L T unmarshal (raw_Output raw) scanID \<noteq> None)) \<and>
    (\<forall>d1 d2 r1 r2 n1 n2. unmarshal d1 = Some r1 \<longrightarrow> unmarshal d2 = Some r2 \<longrightarrow>
      map sourceless (report_results r1) = map sourceless (report_results r2) \<longrightarrow>
      Semgrep_Normalize L T unmarshal d1 scanID = Some n1 \<longrightarrow> Semgrep_Normalize L T unmarshal d2 scanID = Some n2 \<longrightarrow> n1 = n2)"
proof (intro conjI allI impI)
  have "(err \<noteq> None \<longrightarrow> raw_Output raw = []) \<and>
    (err = None \<longrightarrow> raw_Degradations raw = [] \<and> assertNoWorkspacePaths (raw_Output raw) (t_Path target) \<and>
      semgrep_validateReport unmarshal (raw_Output raw) = None \<and> assertNoMatchedSource unmarshal (raw_Output raw) = None)"
  proof (cases "t_Kind target \<noteq> KindFilesystem \<or> t_Path target = [] \<or> baseDir s = None \<or> \<not> dirs")
    case True
    then show ?thesis using assms by (auto simp: Semgrep_Scan_def split: if_splits)
  next
    case False
    then have "run_adapter semgrep_Name version target
        (exec_Run look start (semgrep_opts (fst layout) (snd layout) s target) semgrep_Name (semgrep_args s)) elapsed started []
        (\<lambda>raw res. if semgrep_validateReport unmarshal (er_Stdout res) \<noteq> None then (raw, Some OtherScanErr)
           else if assertNoMatchedSource unmarshal (er_Stdout res) \<noteq> None
           then (discarded semgrep_Name version target, Some OtherScanErr)
           else if \<not> assertNoWorkspacePaths (er_Stdout res) (t_Path target)
           then (discarded semgrep_Name version target, Some OtherScanErr)
           else (raw\<lparr>raw_Output := er_Stdout res\<rparr>, None)) = (raw, err)"
      using assms by (simp add: Semgrep_Scan_def del: not_None_eq)
    then show ?thesis by (rule run_adapter_cases) (auto split: if_splits)
  qed
  then show "err \<noteq> None \<Longrightarrow> raw_Output raw = []" "err = None \<Longrightarrow> raw_Degradations raw = []"
    "err = None \<Longrightarrow> assertNoWorkspacePaths (raw_Output raw) (t_Path target)"
    "err = None \<Longrightarrow> \<exists>r. unmarshal (raw_Output raw) = Some r \<and> (\<forall>x \<in> set (report_results r). isRedactedSource (se_Lines (sg_Extra x)))"
    "err = None \<Longrightarrow> Semgrep_Normalize L T unmarshal (raw_Output raw) scanID \<noteq> None" for L T scanID
    by (auto simp: assertNoMatchedSource_def Semgrep_Normalize_def list_ex_iff split: option.splits if_splits)
next
  fix d1 d2 r1 r2 n1 n2
  assume u: "unmarshal d1 = Some r1" "unmarshal d2 = Some r2"
    and same: "map sourceless (report_results r1) = map sourceless (report_results r2)"
    and n: "Semgrep_Normalize L T unmarshal d1 scanID = Some n1" "Semgrep_Normalize L T unmarshal d2 scanID = Some n2"
  have step: "semgrep_map L T scanID out (i, x) = semgrep_map L T scanID out (i, sourceless x)" for out i x
    by (simp add: semgrep_map_def sourceless_def)
  have erase: "foldl (semgrep_map L T scanID) out (enumerate k xs) =
      foldl (semgrep_map L T scanID) out (enumerate k (map sourceless xs))" for out k xs
    by (induction xs arbitrary: out k) (simp_all add: step [symmetric])
  have "n1 = foldl (semgrep_map L T scanID) zero_Result (indexed (map sourceless (report_results r1)))"
    "n2 = foldl (semgrep_map L T scanID) zero_Result (indexed (map sourceless (report_results r2)))"
    unfolding erase [symmetric] using n u by (simp_all add: Semgrep_Normalize_def split: if_splits)
  then show "n1 = n2" using same by simp
qed

theorem semgrep_keeps_source_out_witness:
  "raw_Output (fst (Semgrep_Scan Some (sample_process []) (\<lambda>_. Some (sample_semgrep_report ''key = 1'')) ([], []) True ''1'' 0 5
     \<lparr>ss_Timeout = 0, ss_MaxOutputBytes = 0, ss_Dir = ''/var/semgrep''\<rparr>
     (zero_Target\<lparr>t_Kind := KindFilesystem, t_Path := ''/work''\<rparr>))) = []"
proof -
  let ?r = "Semgrep_Scan Some (sample_process []) (\<lambda>_. Some (sample_semgrep_report ''key = 1'')) ([], []) True ''1'' 0 5
     \<lparr>ss_Timeout = 0, ss_MaxOutputBytes = 0, ss_Dir = ''/var/semgrep''\<rparr>
     (zero_Target\<lparr>t_Kind := KindFilesystem, t_Path := ''/work''\<rparr>)"
  have "snd ?r \<noteq> None" by code_simp
  with semgrep_keeps_source_out [OF prod.collapse [symmetric, of ?r]] show ?thesis by blast
qed

end
