(* ===== verification/Grype_Adapter.thy ===== *)
theory Grype_Adapter
  imports Adapters Subprocess
begin

text \<open>
  The grype adapter: \<open>parser.go\<close>, \<open>mapper.go\<close>, and the run, the freshness of the database and the two
  environments of \<open>scanner.go\<close> in \<open>internal/scanners/grype\<close>. \<open>time.Parse\<close> is a parameter. The lemmas
  show which EPSS value a finding carries, that a fix can be acted on, and what a run that succeeds
  says about the vulnerability data behind it.
\<close>

section \<open>parser.go\<close>

abbreviation grype_Name :: string where "grype_Name \<equiv> ''grype''"

definition maxMatches :: int where
  "maxMatches = 200000"

record epssEntry =
  ee_CVE :: string
  ee_Probability :: real
  ee_Percentile :: real
  ee_Date :: string

record grype_fix =
  gf_Versions :: "string list"
  gf_State :: string

record grype_vulnerability =
  gv_ID :: string
  gv_Severity :: string
  gv_EPSS :: "epssEntry list"
  gv_Fix :: grype_fix
  gv_URLs :: "string list"
  gv_DataSource :: string

record grype_artifact =
  ga_Name :: string
  ga_Version :: string
  ga_PURL :: string

text \<open>A related vulnerability is its identifier.\<close>

record grype_match =
  gm_Vulnerability :: grype_vulnerability
  gm_Artifact :: grype_artifact
  gm_Related :: "string list"

record dbStatus =
  ds_Built :: string
  ds_Valid :: "bool option"

text \<open>The chain of pointers \<open>Descriptor.DB.Status\<close>, each of which may be nil.\<close>

record grype_descriptor =
  gd_Name :: string
  gd_Version :: string
  gd_DB :: "dbStatus option option"

record grype_report =
  gr_Matches :: "grype_match list"
  gr_Descriptor :: "grype_descriptor option"

text \<open>\<open>True\<close> is a valid report.\<close>

definition grype_validateReport :: "(string \<Rightarrow> grype_report option) \<Rightarrow> string \<Rightarrow> bool" where
  "grype_validateReport unmarshal data =
     (if length (TrimSpace data) = 0 then False
      else case unmarshal data of
        None \<Rightarrow> False
      | Some r \<Rightarrow>
          (case gr_Descriptor r of
             None \<Rightarrow> False
           | Some d \<Rightarrow>
               if gd_Name d \<noteq> grype_Name then False
               else if int (length (gr_Matches r)) > maxMatches then False else True))"

definition parseDBStatus :: "(string \<Rightarrow> grype_report option) \<Rightarrow> string \<Rightarrow> dbStatus option" where
  "parseDBStatus unmarshal data =
     (case unmarshal data of
        None \<Rightarrow> None
      | Some r \<Rightarrow>
          (case gr_Descriptor r of
             None \<Rightarrow> None
           | Some d \<Rightarrow> (case gd_DB d of None \<Rightarrow> None | Some status \<Rightarrow> status)))"

definition dbBuiltAt :: "(string \<Rightarrow> time option) \<Rightarrow> (string \<Rightarrow> grype_report option) \<Rightarrow> string \<Rightarrow> time option" where
  "dbBuiltAt parseTime unmarshal data =
     (case parseDBStatus unmarshal data of
        None \<Rightarrow> None
      | Some st \<Rightarrow> if ds_Built st = [] then None else parseTime (ds_Built st))"

definition invalidDatabase :: "(string \<Rightarrow> grype_report option) \<Rightarrow> string \<Rightarrow> bool" where
  "invalidDatabase unmarshal data =
     (case parseDBStatus unmarshal data of None \<Rightarrow> False | Some st \<Rightarrow> ds_Valid st = Some False)"

section \<open>mapper.go\<close>

definition grype_vulnerabilityTitle :: "grype_match \<Rightarrow> string" where
  "grype_vulnerabilityTitle m =
     (let name = (if ga_Name (gm_Artifact m) = [] then ''an unnamed component'' else ga_Name (gm_Artifact m)) in
      if gv_ID (gm_Vulnerability m) = [] then ''Known vulnerability in '' @ name
      else gv_ID (gm_Vulnerability m) @ '' in '' @ name)"

abbreviation SourceGrype :: string where "SourceGrype \<equiv> ''grype''"

definition advisory_ids :: "grype_match \<Rightarrow> string list" where
  "advisory_ids m = gv_ID (gm_Vulnerability m) # filter (\<lambda>i. i \<noteq> []) (gm_Related m)"

definition better_epss :: "string list \<Rightarrow> epssEntry option \<Rightarrow> epssEntry \<Rightarrow> epssEntry option" where
  "better_epss ids best e =
     (if ee_CVE e \<notin> set ids then best
      else case best of
        None \<Rightarrow> Some e
      | Some b \<Rightarrow> if ee_Probability e > ee_Probability b then Some e else Some b)"

text \<open>The value, if there is one, and the note on a value that was dropped.\<close>

definition epssFor :: "errtexts \<Rightarrow> (string \<Rightarrow> time option) \<Rightarrow> grype_match \<Rightarrow> EPSS option \<times> string" where
  "epssFor T parseDate m =
     (if length (gv_EPSS (gm_Vulnerability m)) = 0 then (None, [])
      else case foldl (better_epss (advisory_ids m)) None (gv_EPSS (gm_Vulnerability m)) of
        None \<Rightarrow> (None, [])
      | Some best \<Rightarrow>
          if ee_Probability best < 0 \<or> ee_Probability best > 1
          then (None, ''epss probability '' @ txt_float T (ee_Probability best) @ '' is outside 0-1, dropped'')
          else if ee_Percentile best < 0 \<or> ee_Percentile best > 1
          then (None, ''epss percentile '' @ txt_float T (ee_Percentile best) @ '' is outside 0-1, dropped'')
          else case parseDate (ee_Date best) of
            None \<Rightarrow> (None, ''epss date '' @ txt_quote T (ee_Date best) @ '' is not a date, dropped'')
          | Some observed \<Rightarrow>
              (Some \<lparr>Probability = ee_Probability best, Percentile = ee_Percentile best,
                     EPSS_Source = SourceGrype, ObservedAt = observed\<rparr>, []))"

definition maxReferences_grype :: nat where
  "maxReferences_grype = 10"

definition fixFor :: "golib \<Rightarrow> grype_match \<Rightarrow> Fix" where
  "fixFor L m =
     (let v = gm_Vulnerability m;
          state = MapFixState L (gf_State (gv_Fix v));
          versions = (if state = FixStateFixed then filter (\<lambda>x. x \<noteq> []) (map TrimSpace (gf_Versions (gv_Fix v))) else []);
          state = (if state = FixStateFixed \<and> length versions = 0 then FixStateUnknown else state)
      in \<lparr>FixSt = state, FixedVersions = versions,
          References = add_reference maxReferences_grype
            (foldl (add_reference maxReferences_grype) [] (gv_URLs v)) (gv_DataSource v)\<rparr>)"

definition grype_map :: "golib \<Rightarrow> errtexts \<Rightarrow> (string \<Rightarrow> time option) \<Rightarrow> string \<Rightarrow> NormResult \<Rightarrow> nat \<times> grype_match \<Rightarrow> NormResult" where
  "grype_map L T parseDate scanID out = (\<lambda>(i, m).
     let a = gm_Artifact m; v = gm_Vulnerability m;
         pkg = (if ga_PURL a = [] \<and> ga_Name a \<noteq> [] then ga_Name a @ ''@'' @ ga_Version a else ga_PURL a);
         (epss, note) = epssFor T parseDate m
     in emit L T (''match '' @ Itoa i)
       \<lparr>in_Category = CategoryDependency, in_RuleID = [], in_Location = [], in_Package = pkg,
        in_VulnerabilityID = gv_ID v\<rparr>
       (\<lambda>fp. zero_Finding\<lparr>Fingerprint := fp, Scanner := grype_Name, ScannerFindingID := gv_ID v,
          ScannerSeverity := gv_Severity v, Category := CategoryDependency, Sev := MapSeverity L (gv_Severity v),
          Conf := ConfidenceHigh, Title := grype_vulnerabilityTitle m, Package := ga_Name a,
          PackageVersion := ga_Version a, PURL := ga_PURL a, CVE := gv_ID v, FixInfo := fixFor L m,
          FStatus := StatusOpen, Threat := \<lparr>Threat_EPSS = epss\<rparr>\<rparr>)
       (if note = [] then [] else [note]) (occurrence grype_Name scanID [] 0 0) out)"

definition Grype_Normalize :: "golib \<Rightarrow> errtexts \<Rightarrow> (string \<Rightarrow> time option) \<Rightarrow> (string \<Rightarrow> grype_report option) \<Rightarrow>
    string \<Rightarrow> string \<Rightarrow> NormResult option" where
  "Grype_Normalize L T parseDate unmarshal data scanID =
     (if \<not> grype_validateReport unmarshal data then None
      else case unmarshal data of
        None \<Rightarrow> None
      | Some r \<Rightarrow> Some (foldl (grype_map L T parseDate scanID) zero_Result (indexed (gr_Matches r))))"

section \<open>scanner.go\<close>

definition DefaultMaxDBAge :: int where
  "DefaultMaxDBAge = 120 * 3600 * 1000000000"

definition DefaultDownloadTimeout :: int where
  "DefaultDownloadTimeout = 20 * 60 * 1000000000"

record Grype =
  gy_Timeout :: int
  gy_MaxOutputBytes :: int
  gy_MaxDBAge :: int
  gy_DBCacheDir :: string
  gy_DownloadTimeout :: int

definition maxDBAge :: "Grype \<Rightarrow> int" where
  "maxDBAge s = (if gy_MaxDBAge s > 0 then gy_MaxDBAge s else DefaultMaxDBAge)"

definition grype_provisionTimeout :: "Grype \<Rightarrow> int" where
  "grype_provisionTimeout s = (if gy_DownloadTimeout s > 0 then gy_DownloadTimeout s else DefaultDownloadTimeout)"

definition assessDatabase :: "(string \<Rightarrow> time option) \<Rightarrow> (string \<Rightarrow> grype_report option) \<Rightarrow> time \<Rightarrow> Grype \<Rightarrow> string \<Rightarrow>
    Degradation list" where
  "assessDatabase parseTime unmarshal now s data =
     (case dbBuiltAt parseTime unmarshal data of
        None \<Rightarrow> [DegradedUnknownVulnerabilityDB]
      | Some built \<Rightarrow> if now - built > maxDBAge s then [DegradedStaleVulnerabilityDB] else [])"

definition grype_args :: "string list" where
  "grype_args = [''dir:.'', ''-o'', ''json'', ''-q'']"

definition grype_env :: "Grype \<Rightarrow> string list" where
  "grype_env s = [''PATH=/usr/local/bin:/usr/bin:/bin'', ''HOME=/nonexistent'', ''GRYPE_DB_CACHE_DIR='' @ gy_DBCacheDir s,
     ''GRYPE_DB_AUTO_UPDATE=false'', ''GRYPE_DB_REQUIRE_UPDATE_CHECK=false'', ''GRYPE_CHECK_FOR_APP_UPDATE=false'',
     ''GRYPE_DB_VALIDATE_AGE=false'', ''GRYPE_DB_VALIDATE_BY_HASH_ON_START=true'']"

definition provisionEnv :: "Grype \<Rightarrow> string \<Rightarrow> string list" where
  "provisionEnv s tmpDir =
     filter (\<lambda>e. \<not> prefix ''GRYPE_DB_AUTO_UPDATE='' e \<and> \<not> prefix ''GRYPE_CHECK_FOR_APP_UPDATE='' e) (grype_env s) @
     [''GRYPE_DB_AUTO_UPDATE=true'', ''GRYPE_CHECK_FOR_APP_UPDATE=false'', ''TMPDIR='' @ tmpDir,
      ''SSL_CERT_DIR=/etc/ssl/certs'', ''SSL_CERT_FILE=/etc/ssl/certs/ca-certificates.crt'']"

definition grype_opts :: "Grype \<Rightarrow> Target \<Rightarrow> ExecOptions" where
  "grype_opts s target = \<lparr>eo_Timeout = gy_Timeout s, eo_MaxOutputBytes = gy_MaxOutputBytes s, eo_Dir = t_Path target,
     eo_Env = Some (grype_env s), eo_AllowNonZeroExit = False\<rparr>"

definition Grype_Scan :: "(string \<Rightarrow> string option) \<Rightarrow> (Command \<Rightarrow> Process) \<Rightarrow> (string \<Rightarrow> grype_report option) \<Rightarrow>
    (string \<Rightarrow> time option) \<Rightarrow> time \<Rightarrow> string \<Rightarrow> time \<Rightarrow> int \<Rightarrow> Grype \<Rightarrow> Target \<Rightarrow> RawResult \<times> scan_err option" where
  "Grype_Scan look start unmarshal parseTime now version started elapsed s target =
     (if t_Kind target \<noteq> KindFilesystem then (named_Raw grype_Name, Some UnsupportedTarget)
      else if t_Path target = [] then (named_Raw grype_Name, Some OtherScanErr)
      else run_adapter grype_Name version target
        (exec_Run look start (grype_opts s target) grype_Name grype_args) elapsed started []
        (\<lambda>raw res.
           if \<not> grype_validateReport unmarshal (er_Stdout res) then (raw, Some OtherScanErr)
           else let raw = foldl (\<lambda>r d. Degrade d r) raw (assessDatabase parseTime unmarshal now s (er_Stdout res)) in
             if invalidDatabase unmarshal (er_Stdout res) then (raw, Some OtherScanErr)
             else (raw\<lparr>raw_Output := er_Stdout res\<rparr>, None)))"

text \<open>Provisioning: the directory, then \<open>grype db update\<close> with the environment that may update.\<close>

definition Grype_Provision :: "(string \<Rightarrow> string option) \<Rightarrow> (Command \<Rightarrow> Process) \<Rightarrow> bool \<Rightarrow> Grype \<Rightarrow> bool" where
  "Grype_Provision look start dirMade s =
     (if gy_DBCacheDir s = [] then False
      else let tmpDir = filepath_Join (gy_DBCacheDir s) ''.tmp'' in
        if \<not> dirMade then False
        else snd (exec_Run look start
          \<lparr>eo_Timeout = grype_provisionTimeout s, eo_MaxOutputBytes = 65536, eo_Dir = [],
           eo_Env = Some (provisionEnv s tmpDir), eo_AllowNonZeroExit = False\<rparr> grype_Name [''db'', ''update'']) = None)"

section \<open>Specification vocabulary\<close>

definition sample_match :: "epssEntry list \<Rightarrow> grype_match" where
  "sample_match es = \<lparr>gm_Vulnerability = \<lparr>gv_ID = ''GHSA-1'', gv_Severity = ''High'', gv_EPSS = es,
     gv_Fix = \<lparr>gf_Versions = ['' 0.52.0 ''], gf_State = ''fixed''\<rparr>, gv_URLs = [''https://example.org''], gv_DataSource = []\<rparr>,
     gm_Artifact = \<lparr>ga_Name = ''lodash'', ga_Version = ''4.17.0'', ga_PURL = ''pkg:npm/lodash@4.17.0''\<rparr>,
     gm_Related = [''CVE-2024-1'', ''CVE-2024-2'']\<rparr>"

definition epss_of :: "string \<Rightarrow> real \<Rightarrow> epssEntry" where
  "epss_of cve p = \<lparr>ee_CVE = cve, ee_Probability = p, ee_Percentile = 1 / 2, ee_Date = ''2026-01-02''\<rparr>"

section \<open>The contract\<close>

lemma grype_map_ok: "result_ok grype_Name scanID out \<Longrightarrow> result_ok grype_Name scanID (grype_map L T D scanID out x)"
  by (cases x) (auto simp: grype_map_def Let_def split: prod.split intro!: result_ok_emit)

lemma fixFor_actionable:
  "(FixSt (fixFor L m) = FixStateFixed) = (FixedVersions (fixFor L m) \<noteq> [])"
  "v \<in> set (FixedVersions (fixFor L m)) \<Longrightarrow> v \<noteq> [] \<and> (\<exists>w \<in> set (gf_Versions (gv_Fix (gm_Vulnerability m))). v = TrimSpace w)"
  "(\<forall>r \<in> set (References (fixFor L m)). TrimSpace r \<noteq> []) \<and> length (References (fixFor L m)) \<le> 10"
  using add_references_ok [of "[]" maxReferences_grype "gv_URLs (gm_Vulnerability m) @ [gv_DataSource (gm_Vulnerability m)]"]
  by (auto simp: fixFor_def Let_def maxReferences_grype_def split: if_splits)

lemma epssFor_source: "epssFor T D m = (Some e, note) \<Longrightarrow> EPSS_Source e = SourceGrype"
  by (auto simp: epssFor_def split: if_splits option.splits)

lemma grype_map_storable:
  assumes "storable out" "digests_are_hex L"
  shows "storable (grype_map L T D scanID out (i, m))"
proof -
  obtain epss nt where e: "epssFor T D m = (epss, nt)" by fastforce
  show ?thesis unfolding grype_map_def Let_def prod.case e
    by (intro storable_emit validated_is_storable)
      (use assms fixFor_actionable(1) [of L m] epssFor_source [of T D m] e in
        \<open>auto simp: digests_are_hex_def zero_Finding_def blank_text_def dest!: Fingerprint_of_Inr(2)\<close>)
qed

interpretation grype: storable_normalizer "Grype_Normalize L T D unmarshal" grype_Name "\<lambda>_. digests_are_hex L"
  for L T D unmarshal
proof
  fix raw scanID r
  assume r: "Grype_Normalize L T D unmarshal raw scanID = Some r"
  then obtain d where d: "unmarshal raw = Some d" "r = foldl (grype_map L T D scanID) zero_Result (indexed (gr_Matches d))"
    by (auto simp: Grype_Normalize_def split: option.splits if_splits)
  show "result_ok grype_Name scanID r"
    unfolding d(2) by (rule result_ok_loop) (simp_all add: grype_map_ok)
  assume "digests_are_hex L"
  then show "storable r"
    unfolding d(2) by (intro storable_loop) (simp_all add: grype_map_storable)
qed

section \<open>Threat intelligence\<close>

lemma better_epss_loop:
  "foldl (better_epss ids) best es = r \<Longrightarrow>
   (r = None \<longleftrightarrow> best = None \<and> (\<forall>e \<in> set es. ee_CVE e \<notin> set ids)) \<and>
   (\<forall>b. r = Some b \<longrightarrow> (best = Some b \<or> b \<in> set es \<and> ee_CVE b \<in> set ids) \<and>
      (\<forall>x. best = Some x \<longrightarrow> ee_Probability x \<le> ee_Probability b) \<and>
      (\<forall>e \<in> set es. ee_CVE e \<in> set ids \<longrightarrow> ee_Probability e \<le> ee_Probability b))"
proof (induction es arbitrary: best)
  case (Cons e es)
  from Cons.prems have "foldl (better_epss ids) (better_epss ids best e) es = r" by simp
  note IH = Cons.IH [OF this]
  show ?case
  proof (cases "ee_CVE e \<in> set ids")
    case False
    then show ?thesis using IH by (auto simp: better_epss_def)
  next
    case True
    then obtain c where c: "better_epss ids best e = Some c" "c = e \<or> best = Some c"
      "ee_Probability e \<le> ee_Probability c" "\<forall>x. best = Some x \<longrightarrow> ee_Probability x \<le> ee_Probability c"
    proof (cases best)
      case None
      then show ?thesis using that [of e] True by (simp add: better_epss_def)
    next
      case (Some a)
      then show ?thesis using that [of e] that [of a] True
        by (cases "ee_Probability a < ee_Probability e") (auto simp: better_epss_def)
    qed
    show ?thesis using IH c True by (cases best) fastforce+
  qed
qed simp

text \<open>
  The EPSS value of a grype finding is evidence about that finding. It is one entry of the report,
  for the vulnerability or one of its aliases, with both its numbers from that entry and in range; no
  entry for an alias reports a higher probability; and where no entry is for an alias there is no
  value and no note.
\<close>

theorem epss_is_the_worst_alias:
  "(\<forall>e note. epssFor T D m = (Some e, note) \<longrightarrow> note = [] \<and>
      (\<exists>x \<in> set (gv_EPSS (gm_Vulnerability m)). ee_CVE x \<in> set (advisory_ids m) \<and>
         Probability e = ee_Probability x \<and> Percentile e = ee_Percentile x \<and> D (ee_Date x) = Some (ObservedAt e)) \<and>
      EPSS_Source e = SourceGrype \<and> 0 \<le> Probability e \<and> Probability e \<le> 1 \<and> 0 \<le> Percentile e \<and> Percentile e \<le> 1 \<and>
      (\<forall>y \<in> set (gv_EPSS (gm_Vulnerability m)). ee_CVE y \<in> set (advisory_ids m) \<longrightarrow> ee_Probability y \<le> Probability e)) \<and>
   ((\<forall>y \<in> set (gv_EPSS (gm_Vulnerability m)). ee_CVE y \<notin> set (advisory_ids m)) \<longrightarrow> epssFor T D m = (None, []))"
proof -
  let ?es = "gv_EPSS (gm_Vulnerability m)" and ?ids = "advisory_ids m"
  note loop = better_epss_loop [of ?ids None ?es, OF refl]
  show ?thesis
  proof (cases "foldl (better_epss ?ids) None ?es")
    case None
    then show ?thesis by (auto simp: epssFor_def)
  next
    case (Some b)
    have b: "b \<in> set ?es" "ee_CVE b \<in> set ?ids" "\<forall>e \<in> set ?es. ee_CVE e \<in> set ?ids \<longrightarrow> ee_Probability e \<le> ee_Probability b"
      using loop Some by blast+
    have ne: "?es \<noteq> []" using b(1) by auto
    show ?thesis
    proof (intro conjI allI impI)
      fix e nt
      assume "epssFor T D m = (Some e, nt)"
      then have e: "nt = []" "0 \<le> ee_Probability b" "ee_Probability b \<le> 1" "0 \<le> ee_Percentile b" "ee_Percentile b \<le> 1"
        "\<exists>d. D (ee_Date b) = Some d \<and> e = \<lparr>Probability = ee_Probability b, Percentile = ee_Percentile b,
           EPSS_Source = SourceGrype, ObservedAt = d\<rparr>"
        using ne Some by (auto simp: epssFor_def split: if_splits option.splits)
      then show "nt = []" "EPSS_Source e = SourceGrype" "0 \<le> Probability e" "Probability e \<le> 1" "0 \<le> Percentile e" "Percentile e \<le> 1"
        "\<exists>x \<in> set ?es. ee_CVE x \<in> set ?ids \<and> Probability e = ee_Probability x \<and> Percentile e = ee_Percentile x \<and>
           D (ee_Date x) = Some (ObservedAt e)"
        "\<forall>y \<in> set ?es. ee_CVE y \<in> set ?ids \<longrightarrow> ee_Probability y \<le> Probability e"
        using b by auto
    next
      assume "\<forall>y \<in> set ?es. ee_CVE y \<notin> set ?ids"
      then show "epssFor T D m = (None, [])" using b by blast
    qed
  qed
qed

theorem epss_is_the_worst_alias_witness:
  "\<exists>e. epssFor sample_texts (\<lambda>_. Some 9) (sample_match [epss_of ''CVE-2024-1'' (1/4), epss_of ''CVE-9'' 1, epss_of ''CVE-2024-2'' (1/2)]) = (Some e, []) \<and>
     1 / 4 \<le> Probability e \<and> 1 / 2 \<le> Probability e"
proof -
  let ?m = "sample_match [epss_of ''CVE-2024-1'' (1/4), epss_of ''CVE-9'' 1, epss_of ''CVE-2024-2'' (1/2)]"
  have m: "epssFor sample_texts (\<lambda>_. Some 9) ?m =
      (Some \<lparr>Probability = 1 / 2, Percentile = 1 / 2, EPSS_Source = SourceGrype, ObservedAt = 9\<rparr>, [])"
    by (simp add: epssFor_def sample_match_def epss_of_def better_epss_def advisory_ids_def)
  from epss_is_the_worst_alias [of sample_texts "\<lambda>_. Some 9" ?m] m
  have "\<forall>y \<in> set (gv_EPSS (gm_Vulnerability ?m)). ee_CVE y \<in> set (advisory_ids ?m) \<longrightarrow> ee_Probability y \<le> 1 / 2"
    by fastforce
  then show ?thesis using m by (simp add: sample_match_def epss_of_def advisory_ids_def)
qed

text \<open>
  The range of a value is checked where it is attached, its date is not: one that parses to the zero
  time is attached, and validation then drops the whole finding.
\<close>

lemma zero_epss_date_drops_finding:
  "epssFor T (\<lambda>_. Some 0) (sample_match [epss_of ''GHSA-1'' (1/2)]) =
     (Some \<lparr>Probability = 1 / 2, Percentile = 1 / 2, EPSS_Source = SourceGrype, ObservedAt = 0\<rparr>, [])"
  "res_Findings (grype_map sample_lib T (\<lambda>_. Some 0) scanID zero_Result (0, sample_match [epss_of ''GHSA-1'' (1/2)])) = []"
proof -
  show e: "epssFor T (\<lambda>_. Some 0) (sample_match [epss_of ''GHSA-1'' (1/2)]) =
     (Some \<lparr>Probability = 1 / 2, Percentile = 1 / 2, EPSS_Source = SourceGrype, ObservedAt = 0\<rparr>, [])"
    by (simp add: epssFor_def sample_match_def epss_of_def better_epss_def advisory_ids_def)
  have v: "Threat f = \<lparr>Threat_EPSS = Some \<lparr>Probability = 1 / 2, Percentile = 1 / 2, EPSS_Source = SourceGrype, ObservedAt = 0\<rparr>\<rparr> \<Longrightarrow>
      Finding_Validate f \<noteq> None" for f
    using Finding_Validate_parts(5) [of f] by (auto simp: Threat_Validate_def)
  show "res_Findings (grype_map sample_lib T (\<lambda>_. Some 0) scanID zero_Result (0, sample_match [epss_of ''GHSA-1'' (1/2)])) = []"
    unfolding grype_map_def Let_def prod.case e
    by (subst emit_invalid) (simp_all add: v zero_Result_def del: not_None_eq)
qed

section \<open>Runs\<close>

text \<open>
  A grype run that succeeds says how much its data can be trusted. Its output is a report of grype
  whose database grype does not call invalid; without a degradation the report states when the
  database was built and that is no longer ago than the limit; with an unusable time or one beyond the
  limit it carries exactly the reason. A run that fails has no output.
\<close>

theorem grype_states_freshness:
  assumes "Grype_Scan look start unmarshal parseTime now version started elapsed s target = (raw, err)"
  shows "(err \<noteq> None \<longrightarrow> raw_Output raw = []) \<and>
    (err = None \<longrightarrow> grype_validateReport unmarshal (raw_Output raw) \<and> \<not> invalidDatabase unmarshal (raw_Output raw) \<and>
      raw_Degradations raw = (case dbBuiltAt parseTime unmarshal (raw_Output raw) of
        None \<Rightarrow> [DegradedUnknownVulnerabilityDB]
      | Some built \<Rightarrow> if now - built \<le> maxDBAge s then [] else [DegradedStaleVulnerabilityDB]) \<and>
      (\<forall>L T D scanID. Grype_Normalize L T D unmarshal (raw_Output raw) scanID \<noteq> None))"
proof (cases "t_Kind target \<noteq> KindFilesystem \<or> t_Path target = []")
  case True
  then show ?thesis using assms by (auto simp: Grype_Scan_def split: if_splits)
next
  case False
  then have "run_adapter grype_Name version target
        (exec_Run look start (grype_opts s target) grype_Name grype_args) elapsed started []
        (\<lambda>raw res.
           if \<not> grype_validateReport unmarshal (er_Stdout res) then (raw, Some OtherScanErr)
           else let raw = foldl (\<lambda>r d. Degrade d r) raw (assessDatabase parseTime unmarshal now s (er_Stdout res)) in
             if invalidDatabase unmarshal (er_Stdout res) then (raw, Some OtherScanErr)
             else (raw\<lparr>raw_Output := er_Stdout res\<rparr>, None)) = (raw, err)"
    using assms by (simp add: Grype_Scan_def)
  then show ?thesis
    by (rule run_adapter_cases)
      (auto simp: Let_def assessDatabase_def Degrade_def Grype_Normalize_def grype_validateReport_def split: option.splits if_splits)
qed

definition sample_grype_report :: grype_report where
  "sample_grype_report = \<lparr>gr_Matches = [sample_match []], gr_Descriptor = Some \<lparr>gd_Name = grype_Name, gd_Version = ''1'',
     gd_DB = Some (Some \<lparr>ds_Built = ''t'', ds_Valid = None\<rparr>)\<rparr>\<rparr>"

definition sample_grype :: Grype where
  "sample_grype = \<lparr>gy_Timeout = 0, gy_MaxOutputBytes = 0, gy_MaxDBAge = 10, gy_DBCacheDir = ''/db'', gy_DownloadTimeout = 0\<rparr>"

theorem grype_states_freshness_witness:
  "raw_Degradations (fst (Grype_Scan Some (sample_process []) (\<lambda>_. Some sample_grype_report) (\<lambda>_. Some 5) 100 ''1'' 0 5 sample_grype
     (zero_Target\<lparr>t_Kind := KindFilesystem, t_Path := ''/work''\<rparr>))) = [DegradedStaleVulnerabilityDB]"
proof -
  let ?r = "Grype_Scan Some (sample_process []) (\<lambda>_. Some sample_grype_report) (\<lambda>_. Some 5) 100 ''1'' 0 5 sample_grype
     (zero_Target\<lparr>t_Kind := KindFilesystem, t_Path := ''/work''\<rparr>)"
  have "snd ?r = None" "dbBuiltAt (\<lambda>_. Some 5) (\<lambda>_. Some sample_grype_report) (raw_Output (fst ?r)) = Some 5" "maxDBAge sample_grype = 10"
    by code_simp+
  with grype_states_freshness [OF prod.collapse [symmetric, of ?r]] show ?thesis by simp
qed

text \<open>The two environments: only the one for provisioning lets grype fetch, and neither carries more.\<close>

lemma grype_environments:
  "''GRYPE_DB_AUTO_UPDATE=false'' \<in> set (grype_env s)" "''GRYPE_DB_AUTO_UPDATE=true'' \<notin> set (grype_env s)"
  "''GRYPE_DB_AUTO_UPDATE=true'' \<in> set (provisionEnv s d)" "''GRYPE_DB_AUTO_UPDATE=false'' \<notin> set (provisionEnv s d)"
  by (auto simp: grype_env_def provisionEnv_def)

end
