(* ===== verification/Json_Doc.thy ===== *)
theory Json_Doc
  imports Go_Prelude
begin

text \<open>
  A decoded JSON document (\<open>any\<close> in Go) and the two walks the adapters make over it: one that rewrites
  members of objects, and one that looks for the first object with an unwanted member. An object is
  the list of its members, in the order a walk visits them. The lemmas show that a walk that finds
  nothing has inspected every object, and when a rewriting leaves nothing to find.
\<close>

datatype json = JNull | JBool bool | JNum real | JStr string | JArr "json list" | JObj "(string \<times> json) list"

lemma json_sizes [termination_simp]:
  "x \<in> set xs \<Longrightarrow> size x < Suc (size_list size xs)"
  "(k, v) \<in> set kvs \<Longrightarrow> size v < Suc (size_list (size_prod (\<lambda>x. 0) size) kvs)"
  by (induction xs; fastforce) (induction kvs; fastforce)

text \<open>Every node, from the root on.\<close>

fun nodes :: "json \<Rightarrow> json list" where
  "nodes (JArr xs) = JArr xs # concat (map nodes xs)"
| "nodes (JObj kvs) = JObj kvs # concat (map (\<lambda>(k, v). nodes v) kvs)"
| "nodes j = [j]"

text \<open>
  Rewrite the members of every object. The function is given the keys of the object, the key and the
  value, whose own members have been rewritten.
\<close>

fun rewrite :: "(string list \<Rightarrow> string \<Rightarrow> json \<Rightarrow> json) \<Rightarrow> json \<Rightarrow> json" where
  "rewrite h (JArr xs) = JArr (map (rewrite h) xs)"
| "rewrite h (JObj kvs) = JObj (map (\<lambda>(k, v). (k, h (map fst kvs) k (rewrite h v))) kvs)"
| "rewrite h j = j"

text \<open>The first name an object is found wanting for, empty when there is none.\<close>

definition first_nonempty :: "string list \<Rightarrow> string" where
  "first_nonempty xs = (case List.find (\<lambda>x. x \<noteq> []) xs of None \<Rightarrow> [] | Some x \<Rightarrow> x)"

fun first_found :: "((string \<times> json) list \<Rightarrow> string) \<Rightarrow> json \<Rightarrow> string" where
  "first_found check (JArr xs) = first_nonempty (map (first_found check) xs)"
| "first_found check (JObj kvs) =
     (if check kvs \<noteq> [] then check kvs else first_nonempty (map (\<lambda>(k, v). first_found check v) kvs))"
| "first_found check j = []"

section \<open>Lemmas\<close>

lemma first_nonempty_Nil [simp]: "first_nonempty xs = [] \<longleftrightarrow> (\<forall>x \<in> set xs. x = [])"
  by (auto simp: first_nonempty_def find_None_iff find_Some_iff split: option.split)

lemma first_found_Nil: "first_found check d = [] \<longleftrightarrow> (\<forall>kvs. JObj kvs \<in> set (nodes d) \<longrightarrow> check kvs = [])"
proof (induction check d rule: first_found.induct)
  case (2 check kvs)
  then show ?case by (auto split: if_splits) fastforce+
qed auto

text \<open>A rewriting that turns members into leaves or leaves them alone introduces no objects.\<close>

definition leafy :: "(string list \<Rightarrow> string \<Rightarrow> json \<Rightarrow> json) \<Rightarrow> bool" where
  "leafy h \<longleftrightarrow> (\<forall>ks k v. h ks k v = v \<or> (\<exists>s. h ks k v = JStr s))"

lemma rewrite_objects:
  assumes "leafy h" "JObj ms \<in> set (nodes (rewrite h d))"
  shows "\<exists>kvs. ms = map (\<lambda>(k, v). (k, h (map fst kvs) k (rewrite h v))) kvs"
  using assms(2)
proof (induction d)
  case (JObj kvs)
  show ?case
  proof (cases "ms = map (\<lambda>(k, v). (k, h (map fst kvs) k (rewrite h v))) kvs")
    case False
    then obtain k v where kv: "(k, v) \<in> set kvs" "JObj ms \<in> set (nodes (h (map fst kvs) k (rewrite h v)))"
      using JObj.prems by auto
    have "h (map fst kvs) k (rewrite h v) = rewrite h v"
      using assms(1) kv(2) unfolding leafy_def by (metis json.distinct(27) list.set_intros(1) nodes.simps(6) set_ConsD empty_iff list.set(1))
    then show ?thesis using JObj.IH [of "(k, v)" v] kv by simp
  qed blast
qed auto

lemma rewrite_clears:
  assumes "leafy h" "\<And>kvs. check (map (\<lambda>(k, v). (k, h (map fst kvs) k v)) kvs) = []"
  shows "first_found check (rewrite h d) = []"
  unfolding first_found_Nil
proof (intro allI impI)
  fix ms
  assume "JObj ms \<in> set (nodes (rewrite h d))"
  then obtain kvs where ms: "ms = map (\<lambda>(k, v). (k, h (map fst kvs) k (rewrite h v))) kvs"
    using rewrite_objects [OF assms(1)] by blast
  show "check ms = []"
    using assms(2) [of "map (\<lambda>(k, v). (k, rewrite h v)) kvs"] by (simp add: ms comp_def case_prod_beta')
qed

lemma map_of_members: "map_of (map (\<lambda>(k, v). (k, h k v)) kvs) k = map_option (h k) (map_of kvs k)"
  by (induction kvs) auto

end
