(* ===== verification/Trivy_Adapter.thy ===== *)
theory Trivy_Adapter
  imports Adapters Subprocess Json_Doc
begin

text \<open>
  The trivy adapter: \<open>parser.go\<close>, \<open>mapper.go\<close>, \<open>scanner.go\<close>, \<open>inventory.go\<close> and \<open>dbage.go\<close> of
  \<open>internal/scanners/trivy\<close>. The decodings of one document into its several Go types, and its encoding,
  are a record of parameters. The lemmas show what redaction removes and what the check after it
  guarantees, that the identity of an image does not depend on tag or digest, and how one CVSS score
  is chosen.
\<close>

section \<open>parser.go\<close>

abbreviation trivy_Name :: string where "trivy_Name \<equiv> ''trivy''"
abbreviation trivy_marker :: string where "trivy_marker \<equiv> ''[redacted]''"

definition maxMisconfigurations :: int where
  "maxMisconfigurations = 200000"

text \<open>What validation reads of a report: whether it has a schema version, and its results.\<close>

record trivy_report =
  ty_SchemaVersion :: "int option"
  ty_ArtifactName :: string
  ty_ArtifactType :: string
  ty_Results :: "json list"

record trivy_misconfiguration =
  tm_ID :: string
  tm_Title :: string
  tm_Description :: string
  tm_Message :: string
  tm_Resolution :: string
  tm_References :: "string list"
  tm_PrimaryURL :: string
  tm_Severity :: string
  tm_Status :: string
  tm_StartLine :: int
  tm_EndLine :: int

text \<open>The CVSS scores are a map from the vendor to its version 3 score.\<close>

record trivy_vulnerability =
  tv_VulnerabilityID :: string
  tv_PkgName :: string
  tv_PURL :: string
  tv_InstalledVersion :: string
  tv_FixedVersion :: string
  tv_Status :: string
  tv_Title :: string
  tv_Description :: string
  tv_Severity :: string
  tv_CweIDs :: "string list"
  tv_PrimaryURL :: string
  tv_References :: "string list"
  tv_DataSourceURL :: string
  tv_CVSS :: "(string \<times> real) list"

record trivy_result =
  tr_Target :: string
  tr_Class :: string
  tr_Vulnerabilities :: "trivy_vulnerability list"
  tr_Misconfigurations :: "trivy_misconfiguration list"

record resultBlock =
  rb_ArtifactName :: string
  rb_ArtifactType :: string
  rb_Results :: "trivy_result list"

record trivy_codec =
  ty_report :: "string \<Rightarrow> trivy_report option"
  ty_block :: "string \<Rightarrow> resultBlock option"
  ty_any :: "string \<Rightarrow> json option"
  ty_encode :: "json \<Rightarrow> string option"
  ty_UpdatedAt :: "string \<Rightarrow> string option"

definition trivy_validateReport :: "trivy_codec \<Rightarrow> string \<Rightarrow> bool" where
  "trivy_validateReport c data =
     (if length (TrimSpace data) = 0 then False
      else case ty_report c data of
        None \<Rightarrow> False
      | Some r \<Rightarrow>
          if ty_SchemaVersion r = None then False
          else if int (length (ty_Results r)) > maxMisconfigurations then False else True)"

definition sourceBearingFields :: "string list" where
  "sourceBearingFields = [''Content'', ''Highlighted'', ''Annotation'']"

text \<open>The step of \<open>redactLines\<close> at one member.\<close>

definition redactLine :: "string list \<Rightarrow> string \<Rightarrow> json \<Rightarrow> json" where
  "redactLine ks k v = (if ''Number'' \<in> set ks \<and> k \<in> set sourceBearingFields then JStr trivy_marker else v)"

definition redactSourceContent :: "trivy_codec \<Rightarrow> string \<Rightarrow> string option" where
  "redactSourceContent c data =
     (case ty_any c data of None \<Rightarrow> None | Some doc \<Rightarrow> ty_encode c (rewrite redactLine doc))"

text \<open>The check of \<open>findUnredacted\<close> at one object: the first source-bearing field with other text.\<close>

definition unredacted_field :: "(string \<times> json) list \<Rightarrow> string" where
  "unredacted_field kvs =
     first_nonempty (map (\<lambda>field.
       case map_of kvs field of
         Some (JStr s) \<Rightarrow> if s \<noteq> trivy_marker \<and> s \<noteq> [] then field else []
       | _ \<Rightarrow> []) sourceBearingFields)"

definition assertNoSourceContent :: "trivy_codec \<Rightarrow> string \<Rightarrow> bool" where
  "assertNoSourceContent c data =
     (case ty_any c data of None \<Rightarrow> False | Some doc \<Rightarrow> first_found unredacted_field doc = [])"

section \<open>mapper.go\<close>

definition maxCheckReferences :: nat where
  "maxCheckReferences = 10"

abbreviation artifactTypeImage :: string where "artifactTypeImage \<equiv> ''container_image''"

definition misconfigTitle :: "string \<Rightarrow> string \<Rightarrow> string" where
  "misconfigTitle i title =
     (if title \<noteq> [] then title else if i \<noteq> [] then ''Misconfiguration '' @ i else ''Misconfiguration'')"

definition checkReferences :: "string list \<Rightarrow> string \<Rightarrow> string list" where
  "checkReferences refs primary =
     foldl (add_reference maxCheckReferences) (add_reference maxCheckReferences [] primary) refs"

definition misconfig_map :: "golib \<Rightarrow> errtexts \<Rightarrow> string \<Rightarrow> string \<Rightarrow> NormResult \<Rightarrow> nat \<times> trivy_misconfiguration \<Rightarrow> NormResult" where
  "misconfig_map L T scanID target out = (\<lambda>(i, m).
     if tm_Status m \<noteq> [] \<and> tm_Status m \<noteq> ''FAIL'' then out
     else let location = NormalizeLocation target in
       emit L T (target @ '' misconfiguration '' @ Itoa i)
         \<lparr>in_Category = CategoryIaC, in_RuleID = tm_ID m, in_Location = location, in_Package = [], in_VulnerabilityID = []\<rparr>
         (\<lambda>fp. zero_Finding\<lparr>Fingerprint := fp, Scanner := trivy_Name, ScannerFindingID := tm_ID m,
            ScannerSeverity := tm_Severity m, Category := CategoryIaC, Sev := MapSeverity L (tm_Severity m),
            Conf := ConfidenceHigh, Title := misconfigTitle (tm_ID m) (tm_Title m), Description := tm_Description m,
            Remediation := tm_Resolution m,
            FixInfo := \<lparr>FixSt = FixStateUnknown, FixedVersions = [], References = checkReferences (tm_References m) (tm_PrimaryURL m)\<rparr>,
            FStatus := StatusOpen\<rparr>)
         [] (occurrence trivy_Name scanID location (tm_StartLine m) (tm_EndLine m)) out)"

text \<open>The repository of an image reference: without digest, and without a tag after the last slash.\<close>

definition imageRepository :: "golib \<Rightarrow> string \<Rightarrow> string" where
  "imageRepository L ref =
     (let ref = TrimSpace ref;
          ref = takeWhile (\<lambda>c. c \<noteq> CHR ''@'') ref;
          i = LastIndexByte ref (CHR '':'');
          ref = (if i \<ge> 0 \<and> i > LastIndexByte ref (CHR ''/'') then take (nat i) ref else ref)
      in ToLower L (TrimSpace ref))"

definition canonicalPURL :: "string \<Rightarrow> string" where
  "canonicalPURL purl = takeWhile (\<lambda>c. c \<noteq> CHR ''?'') (TrimSpace purl)"

definition trivy_vulnerabilityTitle :: "trivy_vulnerability \<Rightarrow> string" where
  "trivy_vulnerabilityTitle v =
     (let name = (if tv_PkgName v = [] then ''an unnamed component'' else tv_PkgName v) in
      if tv_VulnerabilityID v = [] then ''Known vulnerability in '' @ name
      else tv_VulnerabilityID v @ '' in '' @ name)"

definition firstCWE :: "string list \<Rightarrow> string" where
  "firstCWE ids = first_nonempty (map TrimSpace ids)"

definition inCVSSRange :: "real \<Rightarrow> bool" where
  "inCVSSRange score = (score \<ge> 0 \<and> score \<le> 10)"

definition cvssFor :: "trivy_vulnerability \<Rightarrow> real" where
  "cvssFor v =
     (case map_of (tv_CVSS v) ''nvd'' of
        Some nvd \<Rightarrow>
          if inCVSSRange nvd then nvd
          else foldl (\<lambda>best e. if inCVSSRange (snd e) \<and> snd e > best then snd e else best) 0 (tv_CVSS v)
      | None \<Rightarrow> foldl (\<lambda>best e. if inCVSSRange (snd e) \<and> snd e > best then snd e else best) 0 (tv_CVSS v))"

definition imageFix :: "golib \<Rightarrow> trivy_vulnerability \<Rightarrow> Fix" where
  "imageFix L v =
     (let state = MapFixState L (tv_Status v);
          versions = (if state = FixStateFixed
            then filter (\<lambda>x. x \<noteq> []) (map TrimSpace (Split (tv_FixedVersion v) (CHR '',''))) else []);
          state = (if state = FixStateFixed \<and> length versions = 0 then FixStateUnknown else state)
      in \<lparr>FixSt = state, FixedVersions = versions,
          References = add_reference maxCheckReferences
            (foldl (add_reference maxCheckReferences) [] (tv_PrimaryURL v # tv_References v)) (tv_DataSourceURL v)\<rparr>)"

definition vulnerability_map :: "golib \<Rightarrow> errtexts \<Rightarrow> string \<Rightarrow> string \<Rightarrow> string \<Rightarrow> NormResult \<Rightarrow> nat \<times> trivy_vulnerability \<Rightarrow> NormResult" where
  "vulnerability_map L T scanID repository class out = (\<lambda>(i, v).
     let pkg = canonicalPURL (tv_PURL v);
         pkg = (if pkg = [] \<and> tv_PkgName v \<noteq> [] then tv_PkgName v @ ''@'' @ tv_InstalledVersion v else pkg)
     in if pkg = [] \<and> TrimSpace (tv_VulnerabilityID v) = []
        then add_error (class @ '' vulnerability '' @ Itoa i @ '': names neither a component nor an identifier'') out
        else emit L T (class @ '' vulnerability '' @ Itoa i)
          \<lparr>in_Category = CategoryContainer, in_RuleID = [], in_Location = repository, in_Package = pkg,
           in_VulnerabilityID = tv_VulnerabilityID v\<rparr>
          (\<lambda>fp. zero_Finding\<lparr>Fingerprint := fp, Scanner := trivy_Name, ScannerFindingID := tv_VulnerabilityID v,
             ScannerSeverity := tv_Severity v, Category := CategoryContainer, Sev := MapSeverity L (tv_Severity v),
             Conf := ConfidenceHigh, Title := trivy_vulnerabilityTitle v, Description := tv_Description v,
             Package := tv_PkgName v, PackageVersion := tv_InstalledVersion v, PURL := pkg, Image := repository,
             CVE := tv_VulnerabilityID v, CWE := firstCWE (tv_CweIDs v), CVSS := cvssFor v, FixInfo := imageFix L v,
             FStatus := StatusOpen\<rparr>)
          [] (occurrence trivy_Name scanID [] 0 0) out)"

definition normalizeImage :: "golib \<Rightarrow> errtexts \<Rightarrow> resultBlock \<Rightarrow> string \<Rightarrow> NormResult option" where
  "normalizeImage L T doc scanID =
     (let repository = imageRepository L (rb_ArtifactName doc) in
      if repository = [] then None
      else Some (foldl (\<lambda>out r. foldl (vulnerability_map L T scanID repository (tr_Class r)) out (indexed (tr_Vulnerabilities r)))
        zero_Result (rb_Results doc)))"

definition Trivy_Normalize :: "golib \<Rightarrow> errtexts \<Rightarrow> trivy_codec \<Rightarrow> string \<Rightarrow> string \<Rightarrow> NormResult option" where
  "Trivy_Normalize L T c data scanID =
     (if \<not> trivy_validateReport c data then None
      else if \<not> assertNoSourceContent c data then None
      else case ty_block c data of
        None \<Rightarrow> None
      | Some doc \<Rightarrow>
          if rb_ArtifactType doc = artifactTypeImage then normalizeImage L T doc scanID
          else Some (foldl (\<lambda>out r. foldl (misconfig_map L T scanID (tr_Target r)) out (indexed (tr_Misconfigurations r)))
            zero_Result (rb_Results doc)))"

section \<open>scanner.go, inventory.go, dbage.go\<close>

record Trivy =
  ts_Timeout :: int
  ts_MaxOutputBytes :: int
  ts_CacheDir :: string
  ts_ProvisionTimeout :: int
  ts_MaxImageSize :: string
  ts_MaxDBAge :: int

definition maxImageSize :: "Trivy \<Rightarrow> string" where
  "maxImageSize s = (let v = TrimSpace (ts_MaxImageSize s) in if v \<noteq> [] then v else ''2GB'')"

definition trivy_baseDir :: "Trivy \<Rightarrow> string option" where
  "trivy_baseDir s =
     (if TrimSpace (ts_CacheDir s) = [] then None
      else let clean = Clean (ts_CacheDir s) in if \<not> prefix ''/'' clean then None else Some clean)"

definition cacheDir :: "Trivy \<Rightarrow> string" where
  "cacheDir s = filepath_Join (Clean (ts_CacheDir s)) ''cache''"

definition trivy_tmpDir :: "Trivy \<Rightarrow> string" where
  "trivy_tmpDir s = filepath_Join (Clean (ts_CacheDir s)) ''tmp''"

definition fsArgs :: "Trivy \<Rightarrow> string list" where
  "fsArgs s = [''--cache-dir'', cacheDir s, ''fs'', ''--scanners'', ''misconfig'', ''--offline-scan'', ''--skip-check-update'',
     ''--skip-db-update'', ''--skip-version-check'', ''--format'', ''json'', ''--quiet'', ''--exit-code'', ''0'', ''.'']"

definition imageArgs :: "Trivy \<Rightarrow> string \<Rightarrow> string list" where
  "imageArgs s ref = [''--cache-dir'', cacheDir s, ''image'', ''--scanners'', ''vuln'', ''--pkg-types'', ''os,library'',
     ''--image-src'', ''remote'', ''--max-image-size'', maxImageSize s, ''--offline-scan'', ''--skip-db-update'',
     ''--skip-version-check'', ''--format'', ''json'', ''--quiet'', ''--exit-code'', ''0'', ref]"

definition inventoryArgs :: "Trivy \<Rightarrow> string \<Rightarrow> string list" where
  "inventoryArgs s ref = [''--cache-dir'', cacheDir s, ''image'', ''--format'', ''cyclonedx'', ''--pkg-types'', ''os,library'',
     ''--image-src'', ''remote'', ''--max-image-size'', maxImageSize s, ''--offline-scan'', ''--skip-db-update'',
     ''--skip-version-check'', ''--quiet'', ''--exit-code'', ''0'', ref]"

definition alphanumeric :: "char \<Rightarrow> bool" where
  "alphanumeric c = (CHR ''A'' \<le> c \<and> c \<le> CHR ''Z'' \<or> CHR ''a'' \<le> c \<and> c \<le> CHR ''z'' \<or> CHR ''0'' \<le> c \<and> c \<le> CHR ''9'')"

text \<open>The pattern \<open>^[A-Za-z0-9][A-Za-z0-9._:/@\-]{0,254}$\<close>, and no dot-dot.\<close>

definition imageRefIsSafe :: "string \<Rightarrow> bool" where
  "imageRefIsSafe ref =
     ((case ref of [] \<Rightarrow> False
       | c # cs \<Rightarrow> alphanumeric c \<and> int (length cs) \<le> 254 \<and> list_all (\<lambda>x. alphanumeric x \<or> x \<in> set ''._:/@-'') cs) \<and>
      \<not> contains ref ''..'')"

definition trivy_env :: "Trivy \<Rightarrow> string list" where
  "trivy_env s = [''PATH=/usr/local/bin:/usr/bin:/bin'', ''HOME=/nonexistent'', ''TRIVY_SKIP_VERSION_CHECK=true'',
     ''TMPDIR='' @ trivy_tmpDir s]"

definition trivy_opts :: "Trivy \<Rightarrow> int \<Rightarrow> int \<Rightarrow> string \<Rightarrow> ExecOptions" where
  "trivy_opts s timeout bound dir = \<lparr>eo_Timeout = timeout, eo_MaxOutputBytes = bound, eo_Dir = dir,
     eo_Env = Some (trivy_env s), eo_AllowNonZeroExit = False\<rparr>"

definition DefaultMaxDBAge_trivy :: int where
  "DefaultMaxDBAge_trivy = 7 * 24 * 3600 * 1000000000"

definition trivy_maxDBAge :: "Trivy \<Rightarrow> int" where
  "trivy_maxDBAge s = (if ts_MaxDBAge s > 0 then ts_MaxDBAge s else DefaultMaxDBAge_trivy)"

definition dbUpdatedAt :: "trivy_codec \<Rightarrow> (string \<Rightarrow> time option) \<Rightarrow> string \<Rightarrow> time option" where
  "dbUpdatedAt c parseTime data =
     (case ty_UpdatedAt c data of None \<Rightarrow> None | Some text \<Rightarrow> if text = [] then None else parseTime text)"

definition trivy_assessDatabase :: "(string \<Rightarrow> string option) \<Rightarrow> (Command \<Rightarrow> Process) \<Rightarrow> trivy_codec \<Rightarrow> (string \<Rightarrow> time option) \<Rightarrow>
    time \<Rightarrow> Trivy \<Rightarrow> Degradation list" where
  "trivy_assessDatabase look start c parseTime now s =
     (case exec_Run look start (trivy_opts s (ts_Timeout s) 1048576 []) trivy_Name
         [''--cache-dir'', cacheDir s, ''version'', ''--format'', ''json''] of
        (_, Some _) \<Rightarrow> [DegradedUnknownVulnerabilityDB]
      | (res, None) \<Rightarrow>
          (case dbUpdatedAt c parseTime (er_Stdout res) of
             None \<Rightarrow> [DegradedUnknownVulnerabilityDB]
           | Some built \<Rightarrow> if now - built > trivy_maxDBAge s then [DegradedStaleVulnerabilityDB] else []))"

definition Trivy_Scan :: "(string \<Rightarrow> string option) \<Rightarrow> (Command \<Rightarrow> Process) \<Rightarrow> trivy_codec \<Rightarrow> (string \<Rightarrow> time option) \<Rightarrow> time \<Rightarrow>
    string \<Rightarrow> time \<Rightarrow> int \<Rightarrow> Trivy \<Rightarrow> Target \<Rightarrow> RawResult \<times> scan_err option" where
  "Trivy_Scan look start c parseTime now version started elapsed s target =
     (if t_Kind target \<noteq> KindFilesystem \<and> t_Kind target \<noteq> KindImage then (named_Raw trivy_Name, Some UnsupportedTarget)
      else if t_Kind target = KindFilesystem \<and> t_Path target = [] then (named_Raw trivy_Name, Some OtherScanErr)
      else if t_Kind target = KindImage \<and> (t_Image target = [] \<or> \<not> imageRefIsSafe (t_Image target))
      then (named_Raw trivy_Name, Some OtherScanErr)
      else if trivy_baseDir s = None then (named_Raw trivy_Name, Some OtherScanErr)
      else run_adapter trivy_Name version target
        (exec_Run look start
          (trivy_opts s (ts_Timeout s) (ts_MaxOutputBytes s) (if t_Kind target = KindFilesystem then t_Path target else []))
          trivy_Name (if t_Kind target = KindFilesystem then fsArgs s else imageArgs s (t_Image target)))
        elapsed started
        (if t_Kind target = KindImage then trivy_assessDatabase look start c parseTime now s else [])
        (\<lambda>raw res.
           if \<not> trivy_validateReport c (er_Stdout res) then (raw, Some OtherScanErr)
           else case redactSourceContent c (er_Stdout res) of
             None \<Rightarrow> (raw, Some OtherScanErr)
           | Some redacted \<Rightarrow>
               if \<not> assertNoSourceContent c redacted then (discarded trivy_Name version target, Some OtherScanErr)
               else if \<not> assertNoWorkspacePaths redacted (t_Path target)
               then (discarded trivy_Name version target, Some OtherScanErr)
               else (raw\<lparr>raw_Output := redacted\<rparr>, None)))"

text \<open>The separate inventory run; its result has no version, and its output whatever came back.\<close>

definition Trivy_ScanInventory :: "(string \<Rightarrow> string option) \<Rightarrow> (Command \<Rightarrow> Process) \<Rightarrow> time \<Rightarrow> int \<Rightarrow> Trivy \<Rightarrow> Target \<Rightarrow>
    RawResult \<times> scan_err option" where
  "Trivy_ScanInventory look start started elapsed s target =
     (if t_Kind target \<noteq> KindImage then (named_Raw trivy_Name, Some UnsupportedTarget)
      else if t_Image target = [] \<or> \<not> imageRefIsSafe (t_Image target) then (named_Raw trivy_Name, Some OtherScanErr)
      else case exec_Run look start (trivy_opts s (ts_Timeout s) (ts_MaxOutputBytes s) []) trivy_Name
          (inventoryArgs s (t_Image target)) of
        (res, err) \<Rightarrow>
          let raw = \<lparr>raw_Scanner = trivy_Name, raw_Version = [], raw_Target = target, raw_Output = er_Stdout res,
                raw_ExitCode = er_ExitCode res, raw_Duration = elapsed, raw_Degradations = [], raw_StartedAt = started\<rparr>
          in case err of
               Some e \<Rightarrow> (raw, Some e)
             | None \<Rightarrow>
                 (if er_Truncated res
                  then raw\<lparr>raw_Degradations := raw_Degradations raw @ [DegradedOutputTruncated]\<rparr> else raw, None))"

section \<open>Specification vocabulary\<close>

text \<open>Every object with a source-bearing text has a line number.\<close>

definition lines_are_numbered :: "json \<Rightarrow> bool" where
  "lines_are_numbered d \<longleftrightarrow> (\<forall>kvs. JObj kvs \<in> set (nodes d) \<longrightarrow> ''Number'' \<notin> fst ` set kvs \<longrightarrow> unredacted_field kvs = [])"

definition trivy_good :: "golib \<Rightarrow> trivy_codec \<Rightarrow> string \<Rightarrow> bool" where
  "trivy_good L c data \<longleftrightarrow> digests_are_hex L \<and>
     (\<forall>doc. ty_block c data = Some doc \<longrightarrow>
        (if rb_ArtifactType doc = artifactTypeImage
         then \<not> blank_text (imageRepository L (rb_ArtifactName doc)) \<and> pg_length (imageRepository L (rb_ArtifactName doc)) \<le> 255
         else \<forall>r \<in> set (rb_Results doc). \<forall>m \<in> set (tr_Misconfigurations r).
           0 \<le> tm_StartLine m \<and> tm_StartLine m < 2147483648 \<and> 0 \<le> tm_EndLine m \<and> tm_EndLine m < 2147483648))"

definition sample_cve :: trivy_vulnerability where
  "sample_cve = \<lparr>tv_VulnerabilityID = ''CVE-2024-1'', tv_PkgName = ''openssl'', tv_PURL = ''pkg:apk/alpine/openssl@3.1?arch=x86_64'',
     tv_InstalledVersion = ''3.1'', tv_FixedVersion = ''3.1.1, 3.2'', tv_Status = ''fixed'', tv_Title = [], tv_Description = [],
     tv_Severity = ''HIGH'', tv_CweIDs = ['' '', ''CWE-79''], tv_PrimaryURL = ''https://example.org'', tv_References = [],
     tv_DataSourceURL = [], tv_CVSS = [(''ghsa'', 9), (''redhat'', 7)]\<rparr>"

section \<open>The contract\<close>

lemma misconfig_map_ok: "result_ok trivy_Name scanID out \<Longrightarrow> result_ok trivy_Name scanID (misconfig_map L T scanID tg out x)"
  by (cases x) (auto simp: misconfig_map_def Let_def intro!: result_ok_emit)

lemma vulnerability_map_ok: "result_ok trivy_Name scanID out \<Longrightarrow> result_ok trivy_Name scanID (vulnerability_map L T scanID repo cl out x)"
  by (cases x) (auto simp: vulnerability_map_def Let_def intro!: result_ok_emit)

lemma imageFix_actionable:
  "(FixSt (imageFix L v) = FixStateFixed) = (FixedVersions (imageFix L v) \<noteq> [])"
  "x \<in> set (FixedVersions (imageFix L v)) \<Longrightarrow> x \<noteq> [] \<and> CHR '','' \<notin> set x"
  using Split_no_sep_elem [of _ "tv_FixedVersion v" "CHR '',''"] TrimSpace_sublist
  by (auto simp: imageFix_def Let_def split: if_splits)

lemma misconfig_map_storable:
  assumes "storable out" "digests_are_hex L" "0 \<le> tm_StartLine m" "tm_StartLine m < 2147483648" "0 \<le> tm_EndLine m" "tm_EndLine m < 2147483648"
  shows "storable (misconfig_map L T scanID tg out (i, m))"
proof (cases "tm_Status m \<noteq> [] \<and> tm_Status m \<noteq> ''FAIL''")
  case False
  show ?thesis unfolding misconfig_map_def Let_def prod.case if_not_P [OF False]
    by (intro storable_emit validated_is_storable)
      (use assms in \<open>auto simp: digests_are_hex_def zero_Finding_def dest!: Fingerprint_of_Inr(2)\<close>)
qed (use assms(1) in \<open>simp add: misconfig_map_def\<close>)

lemma vulnerability_map_storable:
  assumes "storable out" "digests_are_hex L" "\<not> blank_text repo" "pg_length repo \<le> 255"
  shows "storable (vulnerability_map L T scanID repo cl out (i, v))"
proof -
  have "storable (emit L T l inp (\<lambda>fp. zero_Finding\<lparr>Fingerprint := fp, Scanner := trivy_Name, ScannerFindingID := tv_VulnerabilityID v,
      ScannerSeverity := tv_Severity v, Category := CategoryContainer, Sev := MapSeverity L (tv_Severity v),
      Conf := ConfidenceHigh, Title := trivy_vulnerabilityTitle v, Description := tv_Description v,
      Package := tv_PkgName v, PackageVersion := tv_InstalledVersion v, PURL := pkg, Image := repo,
      CVE := tv_VulnerabilityID v, CWE := firstCWE (tv_CweIDs v), CVSS := cvssFor v, FixInfo := imageFix L v,
      FStatus := StatusOpen\<rparr>) [] (occurrence trivy_Name scanID [] 0 0) out)" for l inp pkg
    by (intro storable_emit validated_is_storable)
      (use assms imageFix_actionable(1) [of L v] in \<open>auto simp: digests_are_hex_def zero_Finding_def dest!: Fingerprint_of_Inr(2)\<close>)
  then show ?thesis using assms(1) by (simp add: vulnerability_map_def Let_def)
qed

lemma nested_loop:
  assumes "P out" "\<And>out r. r \<in> set rs \<Longrightarrow> P out \<Longrightarrow> P (foldl (g r) out (indexed (xs r)))"
  shows "P (foldl (\<lambda>out r. foldl (g r) out (indexed (xs r))) out rs)"
  using assms by (rule foldl_keeps)

interpretation trivy: storable_normalizer "Trivy_Normalize L T c" trivy_Name "trivy_good L c" for L T c
proof
  fix raw scanID r
  assume r: "Trivy_Normalize L T c raw scanID = Some r"
  then obtain d where d: "ty_block c raw = Some d" and
    r': "if rb_ArtifactType d = artifactTypeImage then normalizeImage L T d scanID = Some r
      else r = foldl (\<lambda>out r. foldl (misconfig_map L T scanID (tr_Target r)) out (indexed (tr_Misconfigurations r))) zero_Result (rb_Results d)"
    by (auto simp: Trivy_Normalize_def split: option.splits if_splits)
  show "result_ok trivy_Name scanID r"
  proof (cases "rb_ArtifactType d = artifactTypeImage")
    case True
    then have "r = foldl (\<lambda>out r. foldl (vulnerability_map L T scanID (imageRepository L (rb_ArtifactName d)) (tr_Class r)) out
        (indexed (tr_Vulnerabilities r))) zero_Result (rb_Results d)"
      using r' by (auto simp: normalizeImage_def Let_def split: if_splits)
    then show ?thesis
      by (simp only:) (rule nested_loop, simp, rule result_ok_loop, simp_all add: vulnerability_map_ok)
  next
    case False
    then have "r = foldl (\<lambda>out r. foldl (misconfig_map L T scanID (tr_Target r)) out (indexed (tr_Misconfigurations r))) zero_Result (rb_Results d)"
      using r' by simp
    then show ?thesis
      by (simp only:) (rule nested_loop, simp, rule result_ok_loop, simp_all add: misconfig_map_ok)
  qed
  assume good: "trivy_good L c raw"
  show "storable r"
  proof (cases "rb_ArtifactType d = artifactTypeImage")
    case True
    then have "r = foldl (\<lambda>out r. foldl (vulnerability_map L T scanID (imageRepository L (rb_ArtifactName d)) (tr_Class r)) out
        (indexed (tr_Vulnerabilities r))) zero_Result (rb_Results d)"
      using r' by (auto simp: normalizeImage_def Let_def split: if_splits)
    moreover have "digests_are_hex L" "\<not> blank_text (imageRepository L (rb_ArtifactName d))"
      "pg_length (imageRepository L (rb_ArtifactName d)) \<le> 255" using good d True by (simp_all add: trivy_good_def)
    ultimately show ?thesis
      by (simp only:) (rule nested_loop, simp, rule storable_loop, simp_all add: vulnerability_map_storable)
  next
    case False
    then have "r = foldl (\<lambda>out r. foldl (misconfig_map L T scanID (tr_Target r)) out (indexed (tr_Misconfigurations r))) zero_Result (rb_Results d)"
      using r' by simp
    moreover have "digests_are_hex L" "\<forall>r \<in> set (rb_Results d). \<forall>m \<in> set (tr_Misconfigurations r).
        0 \<le> tm_StartLine m \<and> tm_StartLine m < 2147483648 \<and> 0 \<le> tm_EndLine m \<and> tm_EndLine m < 2147483648"
      using good d False by (simp_all add: trivy_good_def)
    ultimately show ?thesis
      by (simp only:) (rule nested_loop, simp, rule storable_loop, simp_all add: misconfig_map_storable)
  qed
qed

section \<open>Redaction\<close>

lemma redactLine_leafy: "leafy redactLine"
  by (auto simp: leafy_def redactLine_def)

text \<open>What the check guarantees of every object.\<close>

lemma unredacted_field_Nil:
  "unredacted_field kvs = [] \<longleftrightarrow>
     (\<forall>field \<in> set sourceBearingFields. \<forall>s. map_of kvs field = Some (JStr s) \<longrightarrow> s = trivy_marker \<or> s = [])"
proof -
  have one: "(case x of Some (JStr s) \<Rightarrow> if s \<noteq> trivy_marker \<and> s \<noteq> [] then field else [] | _ \<Rightarrow> []) = [] \<longleftrightarrow>
      (\<forall>s. x = Some (JStr s) \<longrightarrow> s = trivy_marker \<or> s = [])" if "field \<noteq> []" for x and field :: string
    using that by (auto split: option.splits json.splits)
  have "field \<noteq> []" if "field \<in> set sourceBearingFields" for field
    using that by (auto simp: sourceBearingFields_def)
  then show ?thesis by (simp add: unredacted_field_def one cong: ball_cong)
qed

text \<open>Where every source line has its number, redaction leaves nothing for the check to find.\<close>

lemma redaction_completes:
  assumes "lines_are_numbered d"
  shows "first_found unredacted_field (rewrite redactLine d) = []"
  using assms
proof (induction d)
  case (JArr xs)
  then show ?case by (fastforce simp: lines_are_numbered_def)
next
  case (JObj kvs)
  let ?ms = "map (\<lambda>(k, v). (k, redactLine (map fst kvs) k (rewrite redactLine v))) kvs"
  have get: "map_of ?ms f = map_option (\<lambda>v. redactLine (map fst kvs) f (rewrite redactLine v)) (map_of kvs f)" for f
    using map_of_members [of "\<lambda>k v. redactLine (map fst kvs) k (rewrite redactLine v)" kvs f] by simp
  have "unredacted_field ?ms = []"
  proof (cases "''Number'' \<in> fst ` set kvs")
    case True
    have "s = trivy_marker \<or> s = []"
      if "f \<in> set sourceBearingFields" "map_of ?ms f = Some (JStr s)" for f s
      using that True unfolding get by (auto simp: redactLine_def)
    then show ?thesis unfolding unredacted_field_Nil by blast
  next
    case False
    then have old: "unredacted_field kvs = []" using JObj.prems by (auto simp: lines_are_numbered_def)
    have "s = trivy_marker \<or> s = []"
      if f: "f \<in> set sourceBearingFields" and found: "map_of ?ms f = Some (JStr s)" for f s
    proof -
      obtain v where v: "map_of kvs f = Some v" "rewrite redactLine v = JStr s"
        using found False unfolding get by (auto simp: redactLine_def)
      then have "v = JStr s" by (cases v) auto
      with v(1) old f show ?thesis by (auto simp: unredacted_field_Nil)
    qed
    then show ?thesis unfolding unredacted_field_Nil by blast
  qed
  moreover have "first_found unredacted_field (redactLine (map fst kvs) k (rewrite redactLine v)) = []"
    if kv: "(k, v) \<in> set kvs" for k v
  proof -
    have "lines_are_numbered v" using JObj.prems kv by (fastforce simp: lines_are_numbered_def)
    then have "first_found unredacted_field (rewrite redactLine v) = []" using JObj.IH [OF kv] by simp
    then show ?thesis by (simp add: redactLine_def)
  qed
  ultimately show ?case by auto
qed simp_all

text \<open>
  The check reads only fields that hold a text: source under such a field in any other shape, in an
  object without a number, is neither redacted nor found.
\<close>

lemma nested_source_survives:
  "let d = JObj [(''Code'', JObj [(''Content'', JArr [JStr ''password = hunter2''])])]
   in rewrite redactLine d = d \<and> first_found unredacted_field d = []"
  by code_simp


definition leaky_codec :: trivy_codec where
  "leaky_codec = \<lparr>ty_report = (\<lambda>_. Some \<lparr>ty_SchemaVersion = Some 2, ty_ArtifactName = ''.'', ty_ArtifactType = ''filesystem'', ty_Results = []\<rparr>),
     ty_block = (\<lambda>_. None), ty_any = (\<lambda>_. Some (JObj [(''Content'', JStr ''password'')])), ty_encode = (\<lambda>_. Some ''{}''),
     ty_UpdatedAt = (\<lambda>_. None)\<rparr>"

definition sample_trivy :: Trivy where
  "sample_trivy = \<lparr>ts_Timeout = 0, ts_MaxOutputBytes = 0, ts_CacheDir = ''/var/trivy'', ts_ProvisionTimeout = 0,
     ts_MaxImageSize = [], ts_MaxDBAge = 0\<rparr>"


section \<open>Identity of an image\<close>

lemma LastIndexByte_append:
  "c \<notin> set t \<Longrightarrow> LastIndexByte (s @ c # t) c = int (length s)"
  "c \<notin> set t \<Longrightarrow> LastIndexByte (s @ t) c = LastIndexByte s c"
  by (auto simp: LastIndexByte_def takeWhile_append takeWhile_eq_all_conv [THEN iffD2])

lemma LastIndexByte_less: "LastIndexByte s c < int (length s)"
  by (auto simp: LastIndexByte_def)

lemma takeWhile_cut: "c \<notin> set s \<Longrightarrow> takeWhile (\<lambda>x. x \<noteq> c) (s @ c # t) = s"
  by (induction s) auto

lemma takeWhile_none: "c \<notin> set s \<Longrightarrow> takeWhile (\<lambda>x. x \<noteq> c) s = s"
  by (induction s) auto

lemma image_reference_forms:
  assumes "\<forall>x \<in> set (repo @ tag @ digest). CHR 0x20 < x \<and> \<not> digit7 x"
    and "CHR ''@'' \<notin> set repo" "CHR ''@'' \<notin> set tag" "CHR '':'' \<notin> set tag" "CHR ''/'' \<notin> set tag"
    and "LastIndexByte repo (CHR '':'') \<le> LastIndexByte repo (CHR ''/'')"
  shows "imageRepository L repo = ToLower L repo"
    "imageRepository L (repo @ '':'' @ tag) = ToLower L repo"
    "imageRepository L (repo @ ''@'' @ digest) = ToLower L repo"
    "imageRepository L (repo @ '':'' @ tag @ ''@'' @ digest) = ToLower L repo"
proof -
  have trim: "TrimSpace x = x" if "\<forall>y \<in> set x. y \<in> set (repo @ tag @ digest) \<or> y = CHR '':'' \<or> y = CHR ''@''" for x
    by (rule TrimSpace_graphic) (use that assms(1) in auto)
  have trimmed: "TrimSpace repo = repo" "TrimSpace (repo @ CHR '':'' # tag) = repo @ CHR '':'' # tag"
    "TrimSpace (repo @ CHR ''@'' # digest) = repo @ CHR ''@'' # digest"
    "TrimSpace (repo @ CHR '':'' # tag @ CHR ''@'' # digest) = repo @ CHR '':'' # tag @ CHR ''@'' # digest"
    by (rule trim, auto)+
  have repo: "(if LastIndexByte repo (CHR '':'') \<ge> 0 \<and> LastIndexByte repo (CHR '':'') > LastIndexByte repo (CHR ''/'')
      then take (nat (LastIndexByte repo (CHR '':''))) repo else repo) = repo" using assms(6) by simp
  show "imageRepository L repo = ToLower L repo"
    using assms(6) by (simp add: imageRepository_def Let_def trimmed takeWhile_none [OF assms(2)])
  show "imageRepository L (repo @ ''@'' @ digest) = ToLower L repo"
    using assms(6) by (simp add: imageRepository_def Let_def trimmed takeWhile_cut [OF assms(2)])
  have slash: "LastIndexByte (repo @ CHR '':'' # tag) (CHR ''/'') < int (length repo)"
    using LastIndexByte_append(2) [of "CHR ''/''" "'':'' @ tag" repo] assms(5) LastIndexByte_less [of repo "CHR ''/''"] by simp
  have colon: "LastIndexByte (repo @ CHR '':'' # tag) (CHR '':'') = int (length repo)"
    using LastIndexByte_append(1) [of "CHR '':''" tag repo] assms(4) by simp
  have no_at: "CHR ''@'' \<notin> set (repo @ CHR '':'' # tag)" using assms(2,3) by simp
  show "imageRepository L (repo @ '':'' @ tag) = ToLower L repo"
    using slash colon takeWhile_none [OF no_at] by (simp add: imageRepository_def Let_def trimmed del: takeWhile_append takeWhile_eq_all_conv)
  show "imageRepository L (repo @ '':'' @ tag @ ''@'' @ digest) = ToLower L repo"
    using slash colon takeWhile_cut [OF no_at, of digest] by (simp add: imageRepository_def Let_def trimmed del: takeWhile_append)
qed

text \<open>
  An image keeps its identity when it is rebuilt. A reference and the same reference with a tag,
  with a digest, or with both, name the same repository, which is the reference in lower case; a port
  of the registry is not taken for a tag.
\<close>

theorem image_identity_is_stable:
  assumes "\<forall>x \<in> set (repo @ tag @ digest). CHR 0x20 < x \<and> \<not> digit7 x"
    and "CHR ''@'' \<notin> set repo" "CHR ''@'' \<notin> set tag" "CHR '':'' \<notin> set tag" "CHR ''/'' \<notin> set tag"
    and "LastIndexByte repo (CHR '':'') \<le> LastIndexByte repo (CHR ''/'')"
  shows "imageRepository L repo = ToLower L repo \<and>
    imageRepository L (repo @ '':'' @ tag) = ToLower L repo \<and>
    imageRepository L (repo @ ''@'' @ digest) = ToLower L repo \<and>
    imageRepository L (repo @ '':'' @ tag @ ''@'' @ digest) = ToLower L repo"
  using image_reference_forms [OF assms] by blast

theorem image_identity_is_stable_witness:
  "imageRepository sample_lib ''localhost:5000/app:1.2@sha256:ab'' = ToLower sample_lib ''localhost:5000/app'' \<and>
   imageRepository sample_lib ''localhost:5000/app'' = ToLower sample_lib ''localhost:5000/app''"
proof -
  have "LastIndexByte ''localhost:5000/app'' (CHR '':'') \<le> LastIndexByte ''localhost:5000/app'' (CHR ''/'')" by code_simp
  moreover have "\<forall>x \<in> set (''localhost:5000/app'' @ ''1.2'' @ ''sha256:ab''). CHR 0x20 < x \<and> \<not> digit7 x" by code_simp
  ultimately show ?thesis
    using image_identity_is_stable [of "''localhost:5000/app''" "''1.2''" "''sha256:ab''" sample_lib] by simp
qed

section \<open>One score\<close>

lemma best_score:
  "foldl (\<lambda>best e. if inCVSSRange (snd e) \<and> snd e > best then snd e else best) b xs =
     Max (insert b (snd ` {e \<in> set xs. inCVSSRange (snd e)}))"
proof (induction xs arbitrary: b)
  case (Cons x xs)
  have "finite (snd ` {e \<in> set xs. inCVSSRange (snd e)})" by simp
  moreover have "snd ` {e \<in> set (x # xs). inCVSSRange (snd e)} =
      (if inCVSSRange (snd x) then insert (snd x) else id) (snd ` {e \<in> set xs. inCVSSRange (snd e)})" by auto
  ultimately show ?case using Cons
    by (cases "snd ` {e \<in> set xs. inCVSSRange (snd e)} = {}") (auto simp: max_def insert_commute)
qed simp

text \<open>
  One CVSS score is chosen, the same in whatever order the vendors are read. It is in range; it is
  the one of NVD where NVD's is in range, and otherwise the highest in range, or zero.
\<close>

theorem cvss_choice:
  assumes "distinct (map fst (tv_CVSS v))"
  shows "0 \<le> cvssFor v \<and> cvssFor v \<le> 10 \<and>
    (\<forall>score. map_of (tv_CVSS v) ''nvd'' = Some score \<and> inCVSSRange score \<longrightarrow> cvssFor v = score) \<and>
    ((\<forall>score. map_of (tv_CVSS v) ''nvd'' = Some score \<longrightarrow> \<not> inCVSSRange score) \<longrightarrow>
      cvssFor v = Max (insert 0 {score. inCVSSRange score \<and> score \<in> snd ` set (tv_CVSS v)})) \<and>
    (mset scores = mset (tv_CVSS v) \<longrightarrow> cvssFor (v\<lparr>tv_CVSS := scores\<rparr>) = cvssFor v)"
proof -
  have set: "snd ` {e \<in> set xs. inCVSSRange (snd e)} = {score. inCVSSRange score \<and> score \<in> snd ` set xs}" for xs :: "(string \<times> real) list"
    by auto
  have val: "cvssFor v = (case map_of (tv_CVSS v) ''nvd'' of
      Some score \<Rightarrow> if inCVSSRange score then score else Max (insert 0 {s. inCVSSRange s \<and> s \<in> snd ` set (tv_CVSS v)})
    | None \<Rightarrow> Max (insert 0 {s. inCVSSRange s \<and> s \<in> snd ` set (tv_CVSS v)}))" for v
    by (auto simp: cvssFor_def best_score set split: option.split)
  have fin: "finite {s. inCVSSRange s \<and> s \<in> snd ` set (tv_CVSS v)}" by simp
  have range: "0 \<le> Max (insert 0 {s. inCVSSRange s \<and> s \<in> snd ` set (tv_CVSS v)}) \<and>
      Max (insert 0 {s. inCVSSRange s \<and> s \<in> snd ` set (tv_CVSS v)}) \<le> 10"
    using fin by (auto simp: inCVSSRange_def intro!: Max.boundedI)
  have perm: "cvssFor (v\<lparr>tv_CVSS := scores\<rparr>) = cvssFor v" if m: "mset scores = mset (tv_CVSS v)"
  proof -
    have s: "set scores = set (tv_CVSS v)" by (rule mset_eq_setD [OF m])
    have "mset (map fst scores) = mset (map fst (tv_CVSS v))" using m by simp
    then have "distinct (map fst scores)" using assms by (metis mset_eq_imp_distinct_iff)
    then have "map_of scores ''nvd'' = map_of (tv_CVSS v) ''nvd''"
      using assms s by (metis map_of_eq_Some_iff not_Some_eq)
    moreover have "tv_CVSS (v\<lparr>tv_CVSS := scores\<rparr>) = scores" by simp
    ultimately show ?thesis unfolding val by (simp only: s)
  qed
  show ?thesis using range perm by (auto simp: val inCVSSRange_def split: option.splits)
qed

theorem cvss_choice_witness:
  "cvssFor sample_cve = 9 \<and> cvssFor (sample_cve\<lparr>tv_CVSS := [(''redhat'', 7), (''ghsa'', 9)]\<rparr>) = 9"
proof -
  have d: "distinct (map fst (tv_CVSS sample_cve))" by (simp add: sample_cve_def)
  have m: "mset [(''redhat'', 7), (''ghsa'', 9 :: real)] = mset (tv_CVSS sample_cve)" by (simp add: sample_cve_def)
  have "cvssFor sample_cve = 9" by (simp add: cvssFor_def sample_cve_def inCVSSRange_def)
  with cvss_choice [OF d, of "[(''redhat'', 7), (''ghsa'', 9)]"] m show ?thesis by (elim conjE) simp
qed

text \<open>
  An NVD entry without a version 3 score decodes as zero, which is in range, so it hides every other
  vendor's score.
\<close>

lemma nvd_without_v3_hides_others:
  "cvssFor (sample_cve\<lparr>tv_CVSS := [(''nvd'', 0), (''ghsa'', 9)]\<rparr>) = 0"
  by (simp add: cvssFor_def inCVSSRange_def)

end
