(* ===== verification/Project_Store.thy ===== *)
theory Project_Store
  imports Projects Auth Scan_Store
begin

text \<open>
  The project store: \<open>internal/projects/store.go\<close>, with the constraints of \<open>migrations/0001\<close>. Each
  method is a function on the tables \<open>projects\<close> and \<open>audit_logs\<close>; a transaction that fails leaves them
  as they were, so it returns the error alone. The lemmas show that the constraints and what creation
  validates stay true of the table, that a listing shows what the scope reaches and nothing of the
  rest, not even how much of it there is, and that archiving hides and is undone. The state is
  extensible: the store of users adds its tables to it.
\<close>

section \<open>Tables\<close>

record ProjectRow =
  pw_ID :: string
  pw_Name :: string
  pw_Slug :: string
  pw_Description :: string
  pw_Environment :: Environment
  pw_Criticality :: Criticality
  pw_InternetFacing :: bool
  pw_ArchivedAt :: "time option"
  pw_CreatedAt :: time
  pw_UpdatedAt :: time

record Project =
  pj_ID :: string
  pj_Name :: string
  pj_Slug :: string
  pj_Description :: string
  pj_Environment :: Environment
  pj_Criticality :: Criticality
  pj_InternetFacing :: bool
  pj_Archived :: bool
  pj_CreatedAt :: time
  pj_UpdatedAt :: time

datatype acct_value = AText string | ABool bool | ATexts "string list"

record ProjectDB =
  pd_projects :: "ProjectRow list"
  pd_audit :: "(string, (string \<times> acct_value) list) AuditRow list"
  pd_now :: time

datatype project_store_error =
    InvalidProject project_error | SlugTaken string | ProjectNotFound | ProjectConstraint
  | ProjectAuditFailed audit_error

definition scanProject :: "ProjectRow \<Rightarrow> Project" where
  "scanProject r = \<lparr>pj_ID = pw_ID r, pj_Name = pw_Name r, pj_Slug = pw_Slug r, pj_Description = pw_Description r,
     pj_Environment = pw_Environment r, pj_Criticality = pw_Criticality r,
     pj_InternetFacing = pw_InternetFacing r, pj_Archived = (pw_ArchivedAt r \<noteq> None),
     pj_CreatedAt = pw_CreatedAt r, pj_UpdatedAt = pw_UpdatedAt r\<rparr>"

text \<open>The constraints of the table, the two enumerations included.\<close>

definition project_checks :: "ProjectRow \<Rightarrow> bool" where
  "project_checks r =
     (list_ex (\<lambda>c. c \<noteq> CHR '' '') (pw_Name r) \<and> slugPattern (pw_Slug r) \<and>
      Environment_Valid (pw_Environment r) \<and> Criticality_Valid (pw_Criticality r))"

definition slug_table :: "ProjectRow list \<Rightarrow> (string \<times> string) list" where
  "slug_table rows = map (\<lambda>r. (pw_ID r, pw_Slug r)) rows"

section \<open>Operations\<close>

text \<open>Every unique violation is reported as a slug that is taken.\<close>

definition Project_Create :: "golib \<Rightarrow> string \<Rightarrow> NewProject \<Rightarrow> Actor \<Rightarrow> 'a ProjectDB_scheme \<Rightarrow>
    project_store_error + Project \<times> 'a ProjectDB_scheme" where
  "Project_Create L newID input actor db =
     (case NewProject_Normalize L input of
        Inl e \<Rightarrow> Inl (InvalidProject e)
      | Inr n \<Rightarrow>
          let row = \<lparr>pw_ID = newID, pw_Name = np_Name n, pw_Slug = np_Slug n, pw_Description = np_Description n,
                pw_Environment = np_Environment n, pw_Criticality = np_Criticality n,
                pw_InternetFacing = np_InternetFacing n, pw_ArchivedAt = None,
                pw_CreatedAt = pd_now db, pw_UpdatedAt = pd_now db\<rparr>;
              project = scanProject row
          in if \<not> project_checks row then Inl ProjectConstraint
             else if list_ex (\<lambda>r. pw_ID r = newID \<or> pw_Slug r = np_Slug n) (pd_projects db) then Inl (SlugTaken (np_Slug n))
             else case audit_Write (slug_table (pd_projects db @ [row])) (pd_now db)
                 \<lparr>e_Actor = actor, e_Action = ''project.create'', e_ResourceType = ''project'',
                  e_ResourceID = pj_ID project, e_ProjectID = pj_ID project, e_Before = None,
                  e_After = Some [(''name'', AText (pj_Name project)), (''slug'', AText (pj_Slug project)),
                    (''environment'', AText (pj_Environment project)),
                    (''criticality'', AText (pj_Criticality project)),
                    (''internet_facing'', ABool (pj_InternetFacing project))],
                  e_OccurredAt = 0\<rparr> of
               Inl e \<Rightarrow> Inl (ProjectAuditFailed e)
             | Inr entry \<Rightarrow>
                 Inr (project, db\<lparr>pd_projects := pd_projects db @ [row], pd_audit := pd_audit db @ [entry]\<rparr>))"

definition find_project :: "string \<Rightarrow> 'a ProjectDB_scheme \<Rightarrow> ProjectRow option" where
  "find_project pid db = List.find (\<lambda>r. pw_ID r = pid) (pd_projects db)"

definition Project_Get :: "string \<Rightarrow> 'a ProjectDB_scheme \<Rightarrow> project_store_error + Project" where
  "Project_Get pid db =
     (case List.find (\<lambda>r. pw_ID r = pid \<and> pw_ArchivedAt r = None) (pd_projects db) of
        None \<Rightarrow> Inl ProjectNotFound | Some r \<Rightarrow> Inr (scanProject r))"

definition Project_Exists :: "string \<Rightarrow> 'a ProjectDB_scheme \<Rightarrow> bool" where
  "Project_Exists pid db = list_ex (\<lambda>r. pw_ID r = pid \<and> pw_ArchivedAt r = None) (pd_projects db)"

definition Project_GetAny :: "string \<Rightarrow> 'a ProjectDB_scheme \<Rightarrow> project_store_error + Project" where
  "Project_GetAny pid db =
     (case find_project pid db of None \<Rightarrow> Inl ProjectNotFound | Some r \<Rightarrow> Inr (scanProject r))"

record ProjectPage =
  pp_Limit :: nat
  pp_Offset :: nat
  pp_Archived :: bool

text \<open>The \<open>WHERE\<close> clause, the order, and one row more than the page.\<close>

definition visible_to :: "Scope \<Rightarrow> bool \<Rightarrow> ProjectRow \<Rightarrow> bool" where
  "visible_to scope archived r \<longleftrightarrow>
     ((pw_ArchivedAt r \<noteq> None) = archived \<and> (IsGlobal scope \<or> pw_Slug r \<in> set (Slugs scope)))"

definition newest_projects :: "ProjectRow list \<Rightarrow> ProjectRow list" where
  "newest_projects rows = rev (sort_key (\<lambda>r. (pw_CreatedAt r, pw_ID r)) rows)"

definition Project_List :: "ProjectPage \<Rightarrow> Scope \<Rightarrow> 'a ProjectDB_scheme \<Rightarrow> Project list \<times> bool" where
  "Project_List page scope db =
     (let out = map scanProject (take (pp_Limit page + 1) (drop (pp_Offset page)
                  (newest_projects (filter (visible_to scope (pp_Archived page)) (pd_projects db)))));
          hasMore = length out > pp_Limit page
      in (if hasMore then take (pp_Limit page) out else out, hasMore))"

text \<open>The trigger stamps every updated row.\<close>

definition archive_row :: "bool \<Rightarrow> time \<Rightarrow> ProjectRow \<Rightarrow> ProjectRow" where
  "archive_row archived now r = r\<lparr>pw_ArchivedAt := (if archived then Some now else None), pw_UpdatedAt := now\<rparr>"

definition Project_SetArchived :: "string \<Rightarrow> bool \<Rightarrow> Actor \<Rightarrow> 'a ProjectDB_scheme \<Rightarrow>
    project_store_error + Project \<times> 'a ProjectDB_scheme" where
  "Project_SetArchived pid archived actor db =
     (case find_project pid db of
        None \<Rightarrow> Inl ProjectNotFound
      | Some r \<Rightarrow>
          let rows = map (\<lambda>x. if pw_ID x = pid then archive_row archived (pd_now db) x else x) (pd_projects db) in
          case audit_Write (slug_table rows) (pd_now db)
              \<lparr>e_Actor = actor, e_Action = (if archived then ''project.archive'' else ''project.unarchive''),
               e_ResourceType = ''project'', e_ResourceID = pid, e_ProjectID = pid,
               e_Before = Some [(''archived'', ABool (pw_ArchivedAt r \<noteq> None))],
               e_After = Some [(''archived'', ABool archived)], e_OccurredAt = 0\<rparr> of
            Inl e \<Rightarrow> Inl (ProjectAuditFailed e)
          | Inr entry \<Rightarrow>
              Inr (scanProject (archive_row archived (pd_now db) r),
                   db\<lparr>pd_projects := rows, pd_audit := pd_audit db @ [entry]\<rparr>))"

section \<open>The invariant of the table\<close>

text \<open>What the constraints and the validation at creation promise of every row, and the keys.\<close>

definition projects_ok :: "ProjectRow list \<Rightarrow> bool" where
  "projects_ok rows \<longleftrightarrow> distinct (map pw_ID rows) \<and> distinct (map pw_Slug rows) \<and>
     (\<forall>r \<in> set rows. project_checks r \<and> length (pw_Slug r) \<le> MaxSlugLength)"

lemma scanProject_simps [simp]:
  "pj_ID (scanProject r) = pw_ID r" "pj_Slug (scanProject r) = pw_Slug r"
  "pj_Archived (scanProject r) = (pw_ArchivedAt r \<noteq> None)"
  by (simp_all add: scanProject_def)

lemma archive_row_simps [simp]:
  "pw_ID (archive_row b t r) = pw_ID r" "pw_Slug (archive_row b t r) = pw_Slug r"
  "project_checks (archive_row b t r) = project_checks r"
  "pw_ArchivedAt (archive_row b t r) = (if b then Some t else None)"
  by (simp_all add: archive_row_def project_checks_def)

lemma archive_rows_ok:
  "projects_ok (map (\<lambda>x. if pw_ID x = pid then archive_row b t x else x) rows) = projects_ok rows"
proof -
  have i: "map pw_ID (map (\<lambda>x. if pw_ID x = pid then archive_row b t x else x) rows) = map pw_ID rows"
    and s: "map pw_Slug (map (\<lambda>x. if pw_ID x = pid then archive_row b t x else x) rows) = map pw_Slug rows" by auto
  have "(\<forall>r \<in> set (map (\<lambda>x. if pw_ID x = pid then archive_row b t x else x) rows). project_checks r \<and> length (pw_Slug r) \<le> MaxSlugLength) =
      (\<forall>r \<in> set rows. project_checks r \<and> length (pw_Slug r) \<le> MaxSlugLength)"
    unfolding set_map ball_simps by (rule ball_cong) auto
  then show ?thesis unfolding projects_ok_def i s by (rule conj_cong [OF refl conj_cong [OF refl]])
qed

lemma Normalize_slug: "NewProject_Normalize L n = Inr m \<Longrightarrow> slugPattern (np_Slug m) \<and> length (np_Slug m) \<le> MaxSlugLength"
  by (auto simp: NewProject_Normalize_def check_project_def split: if_splits)

lemma Project_Create_effect:
  assumes "Project_Create L newID input actor db = Inr (p, db')"
  shows "\<exists>n row entry. NewProject_Normalize L input = Inr n \<and> p = scanProject row \<and> pw_ID row = newID \<and>
    pw_Slug row = np_Slug n \<and> pw_ArchivedAt row = None \<and> project_checks row \<and>
    newID \<notin> pw_ID ` set (pd_projects db) \<and> np_Slug n \<notin> pw_Slug ` set (pd_projects db) \<and>
    e_ResourceID (au_Entry entry) = newID \<and>
    db' = db\<lparr>pd_projects := pd_projects db @ [row], pd_audit := pd_audit db @ [entry]\<rparr>"
  using assms
  by (auto simp: Project_Create_def Let_def list_ex_iff split: sum.splits if_splits dest!: audit_Write_Inr(3))
    (force dest!: audit_Write_Inr(3))

lemma Project_SetArchived_effect:
  assumes "Project_SetArchived pid archived actor db = Inr (p, db')"
  shows "\<exists>r entry. find_project pid db = Some r \<and> p = scanProject (archive_row archived (pd_now db) r) \<and>
    e_ResourceID (au_Entry entry) = pid \<and>
    db' = db\<lparr>pd_projects := map (\<lambda>x. if pw_ID x = pid then archive_row archived (pd_now db) x else x) (pd_projects db),
      pd_audit := pd_audit db @ [entry]\<rparr>"
  using assms by (auto simp: Project_SetArchived_def Let_def split: option.splits sum.splits dest!: audit_Write_Inr(3))

lemma Project_SetArchived_fields:
  assumes "Project_SetArchived pid archived actor db = Inr (p, db')" "find_project pid db = Some r"
  shows "p = scanProject (archive_row archived (pd_now db) r)"
    "pd_projects db' = map (\<lambda>x. if pw_ID x = pid then archive_row archived (pd_now db) x else x) (pd_projects db)"
    "length (pd_audit db') = Suc (length (pd_audit db))"
  using Project_SetArchived_effect [OF assms(1)] assms(2) by (elim exE conjE; simp)+

lemma Project_Create_keeps:
  assumes "Project_Create L newID input actor db = Inr (p, db')" "projects_ok (pd_projects db)"
  shows "projects_ok (pd_projects db')"
  using Project_Create_effect [OF assms(1)] assms(2) Normalize_slug by (fastforce simp: projects_ok_def)

lemma Project_SetArchived_keeps:
  assumes "Project_SetArchived pid archived actor db = Inr (p, db')"
  shows "projects_ok (pd_projects db') = projects_ok (pd_projects db)"
  using Project_SetArchived_effect [OF assms] by (auto simp: archive_rows_ok)

section \<open>Listings\<close>

lemma stored_scope:
  assumes "projects_ok rows" "r \<in> set rows"
  shows "Scope_Allows L scope (pw_Slug r) \<longleftrightarrow> IsGlobal scope \<or> pw_Slug r \<in> set (Slugs scope)"
proof -
  have "slugPattern (pw_Slug r)" using assms by (auto simp: projects_ok_def project_checks_def)
  then show ?thesis by (auto simp: Scope_Allows_def IsGlobal_def Slugs_def slugPattern_fix list_ex_iff)
qed

lemma visible_filter:
  assumes "projects_ok rows"
  shows "filter (visible_to scope archived) rows =
    filter (\<lambda>r. (pw_ArchivedAt r \<noteq> None) = archived) (filter (\<lambda>r. Scope_Allows L scope (pw_Slug r)) rows)"
  unfolding filter_filter by (rule filter_cong) (auto simp: visible_to_def stored_scope [OF assms, of _ L])

lemma Project_List_page:
  "Project_List page scope db =
     (let l = newest_projects (filter (visible_to scope (pp_Archived page)) (pd_projects db))
      in (map scanProject (take (pp_Limit page) (drop (pp_Offset page) l)), pp_Offset page + pp_Limit page < length l))"
  by (auto simp: Project_List_def Let_def min_def take_map)

lemma set_newest_projects [simp]: "set (newest_projects rows) = set rows"
  by (simp add: newest_projects_def)

definition sample_row_of :: "string \<Rightarrow> string \<Rightarrow> time \<Rightarrow> ProjectRow" where
  "sample_row_of pid slug created = \<lparr>pw_ID = pid, pw_Name = slug, pw_Slug = slug, pw_Description = [],
     pw_Environment = EnvProduction, pw_Criticality = CriticalityHigh, pw_InternetFacing = False,
     pw_ArchivedAt = None, pw_CreatedAt = created, pw_UpdatedAt = created\<rparr>"

definition sample_projects :: ProjectDB where
  "sample_projects = \<lparr>pd_projects = [sample_row_of ''p1'' ''shop'' 1, sample_row_of ''p2'' ''billing'' 2],
     pd_audit = [], pd_now = 9\<rparr>"

lemma sample_projects_ok: "projects_ok (pd_projects sample_projects)"
  by code_simp

text \<open>
  C30: a listing shows what the scope reaches and nothing of the rest. Every project it returns is one the
  scope allows, by the same check that guards a single project, in the half asked for; the pages of
  any positive size, read one after the other, have every such project, newest first; and both the
  rows of a page and whether more follow are the same in any two tables that agree on what the scope
  allows.
\<close>

theorem listing_shows_scope_only:
  fixes db db' :: "'a ProjectDB_scheme"
  assumes "projects_ok (pd_projects db)" "projects_ok (pd_projects db')"
  shows "(\<forall>p \<in> set (fst (Project_List page scope db)). Scope_Allows L scope (pj_Slug p) \<and> pj_Archived p = pp_Archived page \<and>
      (\<exists>r \<in> set (pd_projects db). p = scanProject r)) \<and>
    concat (map (\<lambda>k. fst (Project_List \<lparr>pp_Limit = m, pp_Offset = k * m, pp_Archived = archived\<rparr> scope db)) [0..<n]) =
      map scanProject (take (n * m) (newest_projects (filter (\<lambda>r. Scope_Allows L scope (pw_Slug r) \<and>
        (pw_ArchivedAt r \<noteq> None) = archived) (pd_projects db)))) \<and>
    (filter (\<lambda>r. Scope_Allows L scope (pw_Slug r)) (pd_projects db) =
       filter (\<lambda>r. Scope_Allows L scope (pw_Slug r)) (pd_projects db') \<longrightarrow>
     Project_List page scope db = Project_List page scope db')"
proof (intro conjI ballI impI)
  fix p
  assume "p \<in> set (fst (Project_List page scope db))"
  then obtain r where r: "p = scanProject r" "r \<in> set (pd_projects db)" "visible_to scope (pp_Archived page) r"
    by (auto simp: Project_List_page Let_def dest!: in_set_takeD in_set_dropD)
  then show "Scope_Allows L scope (pj_Slug p)" "pj_Archived p = pp_Archived page" "\<exists>r \<in> set (pd_projects db). p = scanProject r"
    using stored_scope [OF assms(1), of r L scope] by (auto simp: visible_to_def)
next
  show "concat (map (\<lambda>k. fst (Project_List \<lparr>pp_Limit = m, pp_Offset = k * m, pp_Archived = archived\<rparr> scope db)) [0..<n]) =
      map scanProject (take (n * m) (newest_projects (filter (\<lambda>r. Scope_Allows L scope (pw_Slug r) \<and>
        (pw_ArchivedAt r \<noteq> None) = archived) (pd_projects db))))"
    using concat_pages [of m "map scanProject (newest_projects (filter (visible_to scope archived) (pd_projects db)))" n]
    by (simp add: Project_List_page Let_def take_map drop_map visible_filter [OF assms(1), of scope archived L] filter_filter)
next
  assume "filter (\<lambda>r. Scope_Allows L scope (pw_Slug r)) (pd_projects db) = filter (\<lambda>r. Scope_Allows L scope (pw_Slug r)) (pd_projects db')"
  then show "Project_List page scope db = Project_List page scope db'"
    by (simp add: Project_List_page visible_filter [OF assms(1), of _ _ L] visible_filter [OF assms(2), of _ _ L])
qed

theorem listing_shows_scope_only_witness:
  "map pj_Slug (concat (map (\<lambda>k. fst (Project_List \<lparr>pp_Limit = 1, pp_Offset = k * 1, pp_Archived = False\<rparr>
     (ScopeTo sample_lib [''Shop'']) sample_projects)) [0..<3])) = [''shop'']"
proof -
  have a: "map pj_Slug (map scanProject (take (3 * 1) (newest_projects (filter (\<lambda>r. Scope_Allows sample_lib (ScopeTo sample_lib [''Shop'']) (pw_Slug r) \<and>
        (pw_ArchivedAt r \<noteq> None) = False) (pd_projects sample_projects))))) = [''shop'']"
    by code_simp
  show ?thesis
    unfolding conjunct1 [OF conjunct2 [OF listing_shows_scope_only [OF sample_projects_ok sample_projects_ok,
      where m = 1 and n = 3 and archived = False and scope = "ScopeTo sample_lib [''Shop'']" and L = sample_lib]]]
    by (rule a)
qed

section \<open>Archiving\<close>

text \<open>
  Archiving hides a project and is undone. An archived project is gone from the live listing and from
  what accepts scans, is still found by its identifier and listed among the archived ones, and
  unarchiving brings every column back but the time of its last change. Both leave a record, and
  neither touches another project.
\<close>

theorem archiving_is_reversible:
  assumes "projects_ok (pd_projects db)"
    and "Project_SetArchived pid True actor db = Inr (p, db1)"
    and "Project_SetArchived pid False actor' (db1\<lparr>pd_now := later\<rparr>) = Inr (p', db2)"
    and "find_project pid db = Some r" "pw_ArchivedAt r = None"
  shows "\<not> Project_Exists pid db1 \<and> Project_Get pid db1 = Inl ProjectNotFound \<and> Project_GetAny pid db1 = Inr p \<and>
    find_project pid db1 = Some (r\<lparr>pw_ArchivedAt := Some (pd_now db), pw_UpdatedAt := pd_now db\<rparr>) \<and>
    find_project pid db2 = Some (r\<lparr>pw_UpdatedAt := later\<rparr>) \<and> Project_GetAny pid db2 = Inr p' \<and>
    filter (\<lambda>x. pw_ID x \<noteq> pid) (pd_projects db1) = filter (\<lambda>x. pw_ID x \<noteq> pid) (pd_projects db) \<and>
    filter (\<lambda>x. pw_ID x \<noteq> pid) (pd_projects db2) = filter (\<lambda>x. pw_ID x \<noteq> pid) (pd_projects db) \<and>
    length (pd_audit db2) = length (pd_audit db) + 2"
proof -
  let ?set = "\<lambda>b t. map (\<lambda>x. if pw_ID x = pid then archive_row b t x else x)"
  have found: "List.find (\<lambda>x. pw_ID x = pid) (?set b t rows) = map_option (archive_row b t) (List.find (\<lambda>x. pw_ID x = pid) rows)"
    for b t rows by (induction rows) auto
  have others: "filter (\<lambda>x. pw_ID x \<noteq> pid) (?set b t rows) = filter (\<lambda>x. pw_ID x \<noteq> pid) rows" for b t rows
    by (induction rows) auto
  note one = Project_SetArchived_fields [OF assms(2) assms(4)]
  have f1: "find_project pid db1 = Some (archive_row True (pd_now db) r)"
    using assms(4) by (simp add: find_project_def one(2) found)
  then have "find_project pid (db1\<lparr>pd_now := later\<rparr>) = Some (archive_row True (pd_now db) r)"
    by (simp add: find_project_def)
  note two = Project_SetArchived_fields [OF assms(3) this, simplified]
  have f2: "find_project pid db2 = Some (archive_row False later (archive_row True (pd_now db) r))"
    using f1 by (simp add: find_project_def two(2) found)
  have hidden: "\<not> (pw_ID x = pid \<and> pw_ArchivedAt x = None)" if "x \<in> set (pd_projects db1)" for x
  proof -
    from that obtain y where "x = (if pw_ID y = pid then archive_row True (pd_now db) y else y)" unfolding one(2) set_map by (rule imageE)
    then show ?thesis by (cases "pw_ID y = pid") simp_all
  qed
  then have "List.find (\<lambda>x. pw_ID x = pid \<and> pw_ArchivedAt x = None) (pd_projects db1) = None"
    unfolding find_None_iff by blast
  with hidden have gone: "\<not> Project_Exists pid db1" "Project_Get pid db1 = Inl ProjectNotFound"
    unfolding Project_Exists_def Project_Get_def list_ex_iff by (blast, simp only: option.case)
  have rest: "filter (\<lambda>x. pw_ID x \<noteq> pid) (pd_projects db1) = filter (\<lambda>x. pw_ID x \<noteq> pid) (pd_projects db)"
      "filter (\<lambda>x. pw_ID x \<noteq> pid) (pd_projects db2) = filter (\<lambda>x. pw_ID x \<noteq> pid) (pd_projects db1)"
    unfolding one(2) two(2) by (rule others)+
  have restored: "archive_row False later (archive_row True (pd_now db) r) = r\<lparr>pw_UpdatedAt := later\<rparr>"
      "archive_row True (pd_now db) r = r\<lparr>pw_ArchivedAt := Some (pd_now db), pw_UpdatedAt := pd_now db\<rparr>"
    using assms(5) by (simp_all add: archive_row_def)
  show ?thesis
    using gone f1 f2 rest unfolding Project_GetAny_def one(1) two(1) restored(1) unfolding restored(2) by (simp add: one(3) two(3))
qed

theorem archiving_is_reversible_witness:
  "\<exists>db1 db2 p p'. Project_SetArchived ''p1'' True (TokenActor ''ci'') sample_projects = Inr (p, db1) \<and>
     Project_SetArchived ''p1'' False (TokenActor ''ci'') (db1\<lparr>pd_now := 12\<rparr>) = Inr (p', db2) \<and>
     \<not> Project_Exists ''p1'' db1 \<and> find_project ''p1'' db2 = Some ((sample_row_of ''p1'' ''shop'' 1)\<lparr>pw_UpdatedAt := 12\<rparr>)"
proof -
  let ?one = "Project_SetArchived ''p1'' True (TokenActor ''ci'') sample_projects"
  let ?two = "Project_SetArchived ''p1'' False (TokenActor ''ci'') ((snd (projr ?one))\<lparr>pd_now := 12\<rparr>)"
  have one: "?one = Inr (fst (projr ?one), snd (projr ?one))" by (subst prod.collapse, rule sum.collapse(2) [symmetric], code_simp)
  have two: "?two = Inr (fst (projr ?two), snd (projr ?two))" by (subst prod.collapse, rule sum.collapse(2) [symmetric], code_simp)
  have r: "find_project ''p1'' sample_projects = Some (sample_row_of ''p1'' ''shop'' 1)" by code_simp
  have n: "pw_ArchivedAt (sample_row_of ''p1'' ''shop'' 1) = None" by code_simp
  from archiving_is_reversible [OF sample_projects_ok one two r n] one two show ?thesis by blast
qed

end
