(* ===== verification/User_Store.thy ===== *)
theory User_Store
  imports Passwords Project_Store
begin

text \<open>
  The store of users: \<open>internal/users/store.go\<close>, with the constraints of \<open>migrations/0016\<close>. Its tables
  \<open>users\<close> and \<open>project_members\<close> extend those of the project store. Each method is a function on the
  tables, an error leaving them as they were; \<open>None\<close> is a panic of the key derivation. The lemmas show
  that accounts stay consistent and never lose their last administrator one operation at a time, that
  two concurrent ones can, that signing in says nothing about why it failed, and that an account which
  was created signs in. SQL's \<open>lower\<close> is \<^const>\<open>ToLower\<close>.
\<close>

section \<open>Tables\<close>

record UserRow =
  uw_ID :: string
  uw_Email :: string
  uw_PasswordHash :: string
  uw_DisplayName :: string
  uw_Role :: UserRole
  uw_DisabledAt :: "time option"
  uw_LastLoginAt :: "time option"
  uw_CreatedAt :: time
  uw_UpdatedAt :: time

record User =
  us_ID :: string
  us_Email :: string
  us_DisplayName :: string
  us_Role :: UserRole
  us_Disabled :: bool
  us_LastLoginAt :: time
  us_CreatedAt :: time
  us_UpdatedAt :: time

record UserDB = ProjectDB +
  ud_users :: "UserRow list"
  ud_members :: "(string \<times> string) list"

datatype user_store_error =
    UserInvalid user_error | UserPassword password_error | EmailTaken | UserNotFound | LastAdmin
  | UnknownProject string | BadRole string | UserConstraint | UserAuditFailed audit_error

text \<open>\<open>userColumns\<close>: every column that may travel, which the hash is not among.\<close>

definition scan_user :: "UserRow \<Rightarrow> User" where
  "scan_user r = \<lparr>us_ID = uw_ID r, us_Email = uw_Email r, us_DisplayName = uw_DisplayName r,
     us_Role = uw_Role r, us_Disabled = (uw_DisabledAt r \<noteq> None),
     us_LastLoginAt = (case uw_LastLoginAt r of None \<Rightarrow> 0 | Some t \<Rightarrow> t),
     us_CreatedAt = uw_CreatedAt r, us_UpdatedAt = uw_UpdatedAt r\<rparr>"

text \<open>The constraints of \<open>users\<close>, the enumeration of roles included.\<close>

definition user_checks :: "UserRow \<Rightarrow> bool" where
  "user_checks r =
     (list_ex (\<lambda>c. c \<noteq> CHR '' '') (uw_Email r) \<and> uw_Email r \<noteq> [] \<and> hd (uw_Email r) \<noteq> CHR ''@'' \<and>
      CHR ''@'' \<in> set (tl (uw_Email r)) \<and> prefix ''$argon2id$'' (uw_PasswordHash r) \<and> UserRole_Valid (uw_Role r))"

definition find_user :: "string \<Rightarrow> UserDB \<Rightarrow> UserRow option" where
  "find_user uid db = List.find (\<lambda>r. uw_ID r = uid) (ud_users db)"

definition user_entry :: "Actor \<Rightarrow> string \<Rightarrow> string \<Rightarrow> (string \<times> acct_value) list option \<Rightarrow>
    (string \<times> acct_value) list \<Rightarrow> (string, (string \<times> acct_value) list) Entry" where
  "user_entry actor action uid before after =
     \<lparr>e_Actor = actor, e_Action = action, e_ResourceType = ''user'', e_ResourceID = uid, e_ProjectID = [],
      e_Before = before, e_After = Some after, e_OccurredAt = 0\<rparr>"

definition write_audit :: "(string, (string \<times> acct_value) list) Entry \<Rightarrow> UserDB \<Rightarrow> user_store_error + UserDB" where
  "write_audit e db =
     (case audit_Write (slug_table (pd_projects db)) (pd_now db) e of
        Inl err \<Rightarrow> Inl (UserAuditFailed err)
      | Inr row \<Rightarrow> Inr (db\<lparr>pd_audit := pd_audit db @ [row]\<rparr>))"

section \<open>Accounts\<close>

definition User_Create :: "golib \<Rightarrow> IDKey \<Rightarrow> string option \<Rightarrow> string \<Rightarrow> NewUser \<Rightarrow> Actor \<Rightarrow> UserDB \<Rightarrow>
    (user_store_error + User \<times> UserDB) option" where
  "User_Create L idkey random newID input actor db =
     (case NewUser_Validate L input of
        Inl e \<Rightarrow> Some (Inl (UserInvalid e))
      | Inr n \<Rightarrow>
          case HashPassword idkey random (nu_Password n) of
            None \<Rightarrow> None
          | Some (Inl e) \<Rightarrow> Some (Inl (UserPassword e))
          | Some (Inr hash) \<Rightarrow>
              let row = \<lparr>uw_ID = newID, uw_Email = nu_Email n, uw_PasswordHash = hash,
                    uw_DisplayName = nu_DisplayName n, uw_Role = nu_Role n, uw_DisabledAt = None,
                    uw_LastLoginAt = None, uw_CreatedAt = pd_now db, uw_UpdatedAt = pd_now db\<rparr>;
                  user = scan_user row
              in Some (
                if \<not> user_checks row then Inl UserConstraint
                else if list_ex (\<lambda>r. uw_ID r = newID \<or> ToLower L (uw_Email r) = ToLower L (nu_Email n)) (ud_users db)
                then Inl EmailTaken
                else case write_audit (user_entry actor ''user.create'' (us_ID user) None
                    [(''email'', AText (us_Email user)), (''role'', AText (us_Role user))])
                    (db\<lparr>ud_users := ud_users db @ [row]\<rparr>) of
                  Inl e \<Rightarrow> Inl e | Inr db \<Rightarrow> Inr (user, db)))"

text \<open>The decoy is verified for the time it takes; its outcome is discarded.\<close>

definition Authenticate_user :: "golib \<Rightarrow> IDKey \<Rightarrow> string \<Rightarrow> string \<Rightarrow> string \<Rightarrow> UserDB \<Rightarrow>
    (user_store_error + User) option" where
  "Authenticate_user L idkey decoyHash email password db =
     (let email = ToLower L (TrimSpace email) in
      case List.find (\<lambda>r. ToLower L (uw_Email r) = email) (ud_users db) of
        None \<Rightarrow> (case VerifyPassword idkey password decoyHash of None \<Rightarrow> None | Some _ \<Rightarrow> Some (Inl UserNotFound))
      | Some r \<Rightarrow>
          (case VerifyPassword idkey password (uw_PasswordHash r) of
             None \<Rightarrow> None
           | Some (Inl e) \<Rightarrow> Some (Inl (UserPassword e))
           | Some (Inr ok) \<Rightarrow>
               if \<not> ok \<or> uw_DisabledAt r \<noteq> None then Some (Inl UserNotFound)
               else Some (Inr ((scan_user r)\<lparr>us_Disabled := False\<rparr>))))"

definition update_users :: "string \<Rightarrow> (UserRow \<Rightarrow> UserRow) \<Rightarrow> UserDB \<Rightarrow> UserDB" where
  "update_users uid f db =
     db\<lparr>ud_users := map (\<lambda>r. if uw_ID r = uid then (f r)\<lparr>uw_UpdatedAt := pd_now db\<rparr> else r) (ud_users db)\<rparr>"

definition RecordLogin :: "string \<Rightarrow> UserDB \<Rightarrow> UserDB" where
  "RecordLogin uid db = update_users uid (\<lambda>r. r\<lparr>uw_LastLoginAt := Some (pd_now db)\<rparr>) db"

definition User_ByID :: "string \<Rightarrow> UserDB \<Rightarrow> user_store_error + User" where
  "User_ByID uid db = (case find_user uid db of None \<Rightarrow> Inl UserNotFound | Some r \<Rightarrow> Inr (scan_user r))"

definition User_Count :: "UserDB \<Rightarrow> nat" where
  "User_Count db = length (ud_users db)"

definition User_List :: "UserDB \<Rightarrow> User list" where
  "User_List db = map scan_user (sort_key (\<lambda>r. (uw_CreatedAt r, uw_ID r)) (ud_users db))"

text \<open>The join of the user's memberships with the projects.\<close>

definition ScopeOf :: "golib \<Rightarrow> User \<Rightarrow> UserDB \<Rightarrow> Scope" where
  "ScopeOf L user db =
     (if us_Role user = UserRoleAdmin then GlobalScope
      else ScopeTo L (concat (map (\<lambda>(uid, pid).
        if uid = us_ID user then map pw_Slug (filter (\<lambda>p. pw_ID p = pid) (pd_projects db)) else []) (ud_members db))))"

section \<open>Administration\<close>

text \<open>The query of \<open>refuseIfLastAdmin\<close>, on the rows it sees.\<close>

definition other_admins :: "string \<Rightarrow> UserRow list \<Rightarrow> nat" where
  "other_admins excluding rows =
     length (filter (\<lambda>r. uw_Role r = UserRoleAdmin \<and> uw_DisabledAt r = None \<and> uw_ID r \<noteq> excluding) rows)"

definition refuseIfLastAdmin :: "string \<Rightarrow> UserRow list \<Rightarrow> user_store_error option" where
  "refuseIfLastAdmin excluding rows = (if other_admins excluding rows = 0 then Some LastAdmin else None)"

definition user_update :: "string \<Rightarrow> Actor \<Rightarrow> string \<Rightarrow> (User \<Rightarrow> user_store_error option) \<Rightarrow> (UserRow \<Rightarrow> UserRow) \<Rightarrow>
    UserDB \<Rightarrow> user_store_error + User \<times> UserDB" where
  "user_update uid actor action guard f db =
     (case find_user uid db of
        None \<Rightarrow> Inl UserNotFound
      | Some r \<Rightarrow>
          let before = scan_user r in
          case guard before of
            Some e \<Rightarrow> Inl e
          | None \<Rightarrow>
              let after = scan_user ((f r)\<lparr>uw_UpdatedAt := pd_now db\<rparr>) in
              case write_audit (user_entry actor action uid
                  (Some [(''role'', AText (us_Role before)), (''disabled'', ABool (us_Disabled before))])
                  [(''role'', AText (us_Role after)), (''disabled'', ABool (us_Disabled after))])
                  (update_users uid f db) of
                Inl e \<Rightarrow> Inl e | Inr db \<Rightarrow> Inr (after, db))"

text \<open>The two guards, on the user read and the rows the pool sees.\<close>

definition role_guard :: "string \<Rightarrow> UserRole \<Rightarrow> UserRow list \<Rightarrow> User \<Rightarrow> user_store_error option" where
  "role_guard uid role rows current =
     (if us_Role current = UserRoleAdmin \<and> role \<noteq> UserRoleAdmin then refuseIfLastAdmin uid rows else None)"

definition disable_guard :: "string \<Rightarrow> bool \<Rightarrow> UserRow list \<Rightarrow> User \<Rightarrow> user_store_error option" where
  "disable_guard uid disabled rows current =
     (if disabled \<and> us_Role current = UserRoleAdmin then refuseIfLastAdmin uid rows else None)"

definition SetRole :: "string \<Rightarrow> UserRole \<Rightarrow> Actor \<Rightarrow> UserDB \<Rightarrow> user_store_error + User \<times> UserDB" where
  "SetRole uid role actor db =
     (if \<not> UserRole_Valid role then Inl (BadRole role)
      else user_update uid actor ''user.role_change'' (role_guard uid role (ud_users db))
        (\<lambda>r. r\<lparr>uw_Role := role\<rparr>) db)"

definition SetDisabled :: "string \<Rightarrow> bool \<Rightarrow> Actor \<Rightarrow> UserDB \<Rightarrow> user_store_error + User \<times> UserDB" where
  "SetDisabled uid disabled actor db =
     user_update uid actor (if disabled then ''user.disable'' else ''user.enable'')
       (disable_guard uid disabled (ud_users db))
       (\<lambda>r. r\<lparr>uw_DisabledAt := (if disabled then Some (pd_now db) else None)\<rparr>) db"

section \<open>Membership\<close>

text \<open>The foreign keys of a membership row.\<close>

definition member_keys :: "string \<Rightarrow> string \<Rightarrow> UserDB \<Rightarrow> bool" where
  "member_keys uid pid db = (find_user uid db \<noteq> None \<and> find_project pid db \<noteq> None)"

definition GrantMembership :: "string \<Rightarrow> string \<Rightarrow> UserDB \<Rightarrow> user_store_error + UserDB" where
  "GrantMembership uid pid db =
     (if (uid, pid) \<in> set (ud_members db) then Inr db
      else if \<not> member_keys uid pid db then Inl UserConstraint
      else Inr (db\<lparr>ud_members := ud_members db @ [(uid, pid)]\<rparr>))"

fun insert_members :: "string \<Rightarrow> string list \<Rightarrow> UserDB \<Rightarrow> user_store_error + UserDB" where
  "insert_members uid [] db = Inr db"
| "insert_members uid (pid # pids) db =
     (if find_project pid db = None then Inl (UnknownProject pid)
      else if (uid, pid) \<in> set (ud_members db) then Inl UserConstraint
      else insert_members uid pids (db\<lparr>ud_members := ud_members db @ [(uid, pid)]\<rparr>))"

definition SetMembership :: "string \<Rightarrow> string list \<Rightarrow> Actor \<Rightarrow> UserDB \<Rightarrow> user_store_error + UserDB" where
  "SetMembership uid projectIDs actor db =
     (if find_user uid db = None then Inl UserNotFound
      else let before = map snd (filter (\<lambda>m. fst m = uid) (ud_members db)) in
        case insert_members uid projectIDs (db\<lparr>ud_members := filter (\<lambda>m. fst m \<noteq> uid) (ud_members db)\<rparr>) of
          Inl e \<Rightarrow> Inl e
        | Inr db \<Rightarrow> write_audit (user_entry actor ''user.membership_change'' uid
            (Some [(''projects'', ATexts before)]) [(''projects'', ATexts projectIDs)]) db)"

definition MembershipOf :: "string \<Rightarrow> UserDB \<Rightarrow> string list" where
  "MembershipOf uid db = sort (map snd (filter (\<lambda>m. fst m = uid) (ud_members db)))"

section \<open>Consistency\<close>

definition has_admin :: "UserRow list \<Rightarrow> bool" where
  "has_admin rows \<longleftrightarrow> (\<exists>r \<in> set rows. uw_Role r = UserRoleAdmin \<and> uw_DisabledAt r = None)"

definition accounts_ok :: "golib \<Rightarrow> UserDB \<Rightarrow> bool" where
  "accounts_ok L db \<longleftrightarrow> projects_ok (pd_projects db) \<and> distinct (map uw_ID (ud_users db)) \<and>
     distinct (map (\<lambda>r. ToLower L (uw_Email r)) (ud_users db)) \<and> (\<forall>r \<in> set (ud_users db). user_checks r) \<and>
     distinct (ud_members db) \<and>
     set (ud_members db) \<subseteq> (uw_ID ` set (ud_users db)) \<times> (pw_ID ` set (pd_projects db))"

text \<open>What the methods of the two stores do to the tables, one at a time, while the clock runs.\<close>

inductive account_step :: "golib \<Rightarrow> IDKey \<Rightarrow> UserDB \<Rightarrow> UserDB \<Rightarrow> bool" for L idkey where
  clock: "account_step L idkey db (db\<lparr>pd_now := now\<rparr>)"
| new_project: "Project_Create L newID input actor db = Inr (p, db') \<Longrightarrow> account_step L idkey db db'"
| archive_project: "Project_SetArchived pid b actor db = Inr (p, db') \<Longrightarrow> account_step L idkey db db'"
| new_user: "User_Create L idkey random newID n actor db = Some (Inr (u, db')) \<Longrightarrow> account_step L idkey db db'"
| login: "account_step L idkey db (RecordLogin uid db)"
| set_role: "SetRole uid role actor db = Inr (u, db') \<Longrightarrow> account_step L idkey db db'"
| set_disabled: "SetDisabled uid b actor db = Inr (u, db') \<Longrightarrow> account_step L idkey db db'"
| grant: "GrantMembership uid pid db = Inr db' \<Longrightarrow> account_step L idkey db db'"
| set_membership: "SetMembership uid pids actor db = Inr db' \<Longrightarrow> account_step L idkey db db'"

inductive_cases account_stepE: "account_step L idkey db db'"

text \<open>What one step keeps, as one relation that composes.\<close>

definition keeps :: "golib \<Rightarrow> UserDB \<Rightarrow> UserDB \<Rightarrow> bool" where
  "keeps L db db' \<longleftrightarrow> (accounts_ok L db \<longrightarrow> accounts_ok L db' \<and> (has_admin (ud_users db) \<longrightarrow> has_admin (ud_users db'))) \<and>
     prefix (pd_audit db) (pd_audit db') \<and> uw_ID ` set (ud_users db) \<subseteq> uw_ID ` set (ud_users db') \<and>
     pw_ID ` set (pd_projects db) \<subseteq> pw_ID ` set (pd_projects db')"

lemma keeps_refl [simp]: "keeps L db db"
  by (simp add: keeps_def)

lemma keeps_trans: "keeps L a b \<Longrightarrow> keeps L b c \<Longrightarrow> keeps L a c"
  unfolding keeps_def
  by (elim conjE, intro conjI; (erule (1) prefix_order.trans | erule (1) subset_trans | blast))

lemma write_audit_fields:
  assumes "write_audit e db = Inr db'"
  shows "ud_users db' = ud_users db" "ud_members db' = ud_members db" "pd_projects db' = pd_projects db"
    "pd_now db' = pd_now db" "\<exists>row. pd_audit db' = pd_audit db @ [row]"
  using assms by (auto simp: write_audit_def split: sum.splits)

lemma found_user: "find_user uid db \<noteq> None \<Longrightarrow> uid \<in> uw_ID ` set (ud_users db)"
  by (rule ccontr) (auto simp: find_user_def find_Some_iff)

lemma found_project: "find_project pid db \<noteq> None \<Longrightarrow> pid \<in> pw_ID ` set (pd_projects db)"
  by (rule ccontr) (auto simp: find_project_def find_Some_iff)

text \<open>An update of one row that leaves its key columns and its constraints alone.\<close>

definition keyed :: "(UserRow \<Rightarrow> UserRow) \<Rightarrow> bool" where
  "keyed f \<longleftrightarrow> (\<forall>r. uw_ID (f r) = uw_ID r \<and> uw_Email (f r) = uw_Email r \<and> (user_checks r \<longrightarrow> user_checks (f r)))"

definition on_row :: "string \<Rightarrow> (UserRow \<Rightarrow> UserRow) \<Rightarrow> UserRow \<Rightarrow> UserRow" where
  "on_row uid g r = (if uw_ID r = uid then g r else r)"

definition stamped :: "(UserRow \<Rightarrow> UserRow) \<Rightarrow> time \<Rightarrow> UserRow \<Rightarrow> UserRow" where
  "stamped f t r = (f r)\<lparr>uw_UpdatedAt := t\<rparr>"

lemma keyed_stamped: "keyed f \<Longrightarrow> keyed (on_row uid (stamped f t))"
  by (auto simp: keyed_def on_row_def stamped_def user_checks_def)

lemma keyed_rows:
  assumes "keyed g"
  shows "map uw_ID (map g rows) = map uw_ID rows"
    "map (\<lambda>r. ToLower L (uw_Email r)) (map g rows) = map (\<lambda>r. ToLower L (uw_Email r)) rows"
    "(\<forall>r \<in> set rows. user_checks r) \<Longrightarrow> (\<forall>r \<in> set (map g rows). user_checks r)"
  using assms by (auto simp: keyed_def)

lemma update_users_fields [simp]:
  "pd_projects (update_users uid f db) = pd_projects db" "pd_audit (update_users uid f db) = pd_audit db"
  "ud_members (update_users uid f db) = ud_members db" "pd_now (update_users uid f db) = pd_now db"
  "ud_users (update_users uid f db) = map (on_row uid (stamped f (pd_now db))) (ud_users db)"
  by (simp_all add: update_users_def on_row_def stamped_def)

lemma accounts_ok_update:
  assumes "keyed f"
  shows "accounts_ok L db \<Longrightarrow> accounts_ok L (update_users uid f db)"
    "uw_ID ` set (ud_users (update_users uid f db)) = uw_ID ` set (ud_users db)"
proof -
  note k = keyed_rows [OF keyed_stamped [OF assms]]
  have "set (map uw_ID (ud_users (update_users uid f db))) = set (map uw_ID (ud_users db))"
    unfolding update_users_fields by (rule arg_cong [OF k(1)])
  then show ids: "uw_ID ` set (ud_users (update_users uid f db)) = uw_ID ` set (ud_users db)" unfolding set_map .
  assume ok: "accounts_ok L db"
  then have "(\<forall>r \<in> set (ud_users db). user_checks r)" by (simp add: accounts_ok_def)
  from k(3) [OF this, of uid "pd_now db"] ok show "accounts_ok L (update_users uid f db)"
    unfolding accounts_ok_def ids unfolding update_users_fields k(1,2) by blast
qed

text \<open>Some administrator other than the one changed stays.\<close>

lemma other_admin_stays:
  assumes "0 < other_admins uid rows"
  shows "has_admin (map (on_row uid g) rows)"
proof -
  from assms obtain r where "r \<in> set rows" "uw_Role r = UserRoleAdmin" "uw_DisabledAt r = None" "uw_ID r \<noteq> uid"
    by (auto simp: other_admins_def filter_empty_conv)
  then show ?thesis unfolding has_admin_def by (intro bexI [of _ r]) (auto simp: image_iff on_row_def intro!: bexI [of _ r])
qed

lemma admin_kept:
  assumes "has_admin rows" "\<And>r. r \<in> set rows \<Longrightarrow> uw_Role r = UserRoleAdmin \<Longrightarrow> uw_DisabledAt r = None \<Longrightarrow>
      uw_Role (g r) = UserRoleAdmin \<and> uw_DisabledAt (g r) = None"
  shows "has_admin (map g rows)"
  using assms unfolding has_admin_def by auto

lemma user_update_effect:
  assumes "user_update uid actor action guard f db = Inr (u, db')"
  shows "\<exists>r. find_user uid db = Some r \<and> guard (scan_user r) = None \<and> u = scan_user (stamped f (pd_now db) r)"
    "ud_users db' = map (on_row uid (stamped f (pd_now db))) (ud_users db)" "ud_members db' = ud_members db"
    "pd_projects db' = pd_projects db" "pd_now db' = pd_now db" "\<exists>row. pd_audit db' = pd_audit db @ [row]"
proof -
  from assms obtain r e where r: "find_user uid db = Some r" "guard (scan_user r) = None"
      "u = scan_user (stamped f (pd_now db) r)" and w: "write_audit e (update_users uid f db) = Inr db'"
    by (auto simp: user_update_def Let_def stamped_def split: option.splits sum.splits)
  show "\<exists>r. find_user uid db = Some r \<and> guard (scan_user r) = None \<and> u = scan_user (stamped f (pd_now db) r)"
    using r by blast
  show "ud_users db' = map (on_row uid (stamped f (pd_now db))) (ud_users db)" "ud_members db' = ud_members db"
    "pd_projects db' = pd_projects db" "pd_now db' = pd_now db" "\<exists>row. pd_audit db' = pd_audit db @ [row]"
    using write_audit_fields [OF w] by simp_all
qed

lemma accounts_ok_cong:
  "ud_users a = ud_users b \<Longrightarrow> ud_members a = ud_members b \<Longrightarrow> pd_projects a = pd_projects b \<Longrightarrow>
    accounts_ok L a = accounts_ok L b"
  by (simp add: accounts_ok_def)

lemma only_row: "accounts_ok L db \<Longrightarrow> find_user uid db = Some r \<Longrightarrow> x \<in> set (ud_users db) \<Longrightarrow> uw_ID x = uid \<Longrightarrow> x = r"
  by (auto simp: find_user_def find_Some_iff accounts_ok_def distinct_map dest: inj_onD)

lemma keeps_user_update:
  assumes upd: "user_update uid actor action guard f db = Inr (u, db')" and "keyed f"
    and guarded: "\<And>r. guard (scan_user r) = None \<Longrightarrow> uw_Role r = UserRoleAdmin \<Longrightarrow> uw_DisabledAt r = None \<Longrightarrow>
      uw_Role (f r) = UserRoleAdmin \<and> uw_DisabledAt (f r) = None \<or> 0 < other_admins uid (ud_users db)"
  shows "keeps L db db'"
proof -
  note eff = user_update_effect [OF upd]
  obtain r where r: "find_user uid db = Some r" "guard (scan_user r) = None" using eff(1) by blast
  have same: "ud_users db' = ud_users (update_users uid f db)" unfolding eff(2) by simp
  have "has_admin (ud_users db')" if a: "has_admin (ud_users db)" and ok: "accounts_ok L db"
  proof (cases "0 < other_admins uid (ud_users db)")
    case True
    then show ?thesis unfolding eff(2) by (rule other_admin_stays)
  next
    case False
    show ?thesis unfolding eff(2)
    proof (rule admin_kept [OF a])
      fix x
      assume x: "x \<in> set (ud_users db)" "uw_Role x = UserRoleAdmin" "uw_DisabledAt x = None"
      show "uw_Role (on_row uid (stamped f (pd_now db)) x) = UserRoleAdmin \<and>
          uw_DisabledAt (on_row uid (stamped f (pd_now db)) x) = None"
        using only_row [OF ok r(1) x(1)] guarded [OF r(2)] False x(2,3) by (auto simp: on_row_def stamped_def)
    qed
  qed
  moreover have "accounts_ok L db' = accounts_ok L (update_users uid f db)"
    by (rule accounts_ok_cong) (simp_all only: same eff(3,4) update_users_fields)
  moreover have "uw_ID ` set (ud_users db') = uw_ID ` set (ud_users db)"
    unfolding same by (rule accounts_ok_update(2) [OF assms(2)])
  ultimately show ?thesis
    using accounts_ok_update(1) [OF assms(2)] eff(4,6) unfolding keeps_def by auto
qed

lemma keeps_SetRole:
  assumes "SetRole uid role actor db = Inr (u, db')"
  shows "keeps L db db'"
proof -
  have "UserRole_Valid role" and
    upd: "user_update uid actor ''user.role_change'' (role_guard uid role (ud_users db)) (\<lambda>r. r\<lparr>uw_Role := role\<rparr>) db = Inr (u, db')"
    using assms by (auto simp: SetRole_def split: if_splits)
  then have "keyed (\<lambda>r. r\<lparr>uw_Role := role\<rparr>)" by (auto simp: keyed_def user_checks_def)
  then show ?thesis
    by (rule keeps_user_update [OF upd])
      (auto simp: role_guard_def refuseIfLastAdmin_def scan_user_def split: if_splits)
qed

lemma keeps_SetDisabled:
  assumes "SetDisabled uid b actor db = Inr (u, db')"
  shows "keeps L db db'"
proof -
  have "keyed (\<lambda>r. r\<lparr>uw_DisabledAt := t\<rparr>)" for t by (auto simp: keyed_def user_checks_def)
  then show ?thesis
    by (rule keeps_user_update [OF assms [unfolded SetDisabled_def]])
      (auto simp: disable_guard_def refuseIfLastAdmin_def scan_user_def split: if_splits)
qed

lemma keeps_RecordLogin: "keeps L db (RecordLogin uid db)"
proof -
  have k: "keyed (\<lambda>r. r\<lparr>uw_LastLoginAt := t\<rparr>)" for t by (auto simp: keyed_def user_checks_def)
  have "has_admin (ud_users (RecordLogin uid db))" if "has_admin (ud_users db)"
    unfolding RecordLogin_def update_users_fields by (rule admin_kept [OF that]) (auto simp: on_row_def stamped_def)
  then show ?thesis
    using accounts_ok_update(1) [OF k, where L = L and db = db and uid = uid] accounts_ok_update(2) [OF k, where db = db and uid = uid] by (simp add: keeps_def RecordLogin_def del: update_users_fields(5))
qed

lemma keeps_Project:
  assumes "projects_ok (pd_projects db) \<Longrightarrow> projects_ok (pd_projects db')"
    "pw_ID ` set (pd_projects db) \<subseteq> pw_ID ` set (pd_projects db')" "prefix (pd_audit db) (pd_audit db')"
    and same: "ud_users db' = ud_users db" "ud_members db' = ud_members db"
  shows "keeps L db db'"
proof -
  have "A \<times> pw_ID ` set (pd_projects db) \<subseteq> A \<times> pw_ID ` set (pd_projects db')" for A :: "string set"
    using assms(2) by (rule Sigma_mono [OF subset_refl])
  then have "accounts_ok L db \<Longrightarrow> accounts_ok L db'"
    using assms(1) unfolding accounts_ok_def same by (meson subset_trans)
  then show ?thesis using assms(2,3) unfolding keeps_def same by simp
qed

lemma keeps_Create_Project:
  assumes "Project_Create L newID input actor db = Inr (p, db')"
  shows "keeps L' db db'"
proof (rule keeps_Project [OF Project_Create_keeps [OF assms]])
  from Project_Create_effect [OF assms] obtain row entry where
    e: "db' = db\<lparr>pd_projects := pd_projects db @ [row], pd_audit := pd_audit db @ [entry]\<rparr>" by blast
  show "pw_ID ` set (pd_projects db) \<subseteq> pw_ID ` set (pd_projects db')" "prefix (pd_audit db) (pd_audit db')"
    "ud_users db' = ud_users db" "ud_members db' = ud_members db" by (auto simp: e)
qed

lemma keeps_SetArchived:
  assumes "Project_SetArchived pid b actor db = Inr (p, db')"
  shows "keeps L' db db'"
proof (rule keeps_Project)
  from Project_SetArchived_effect [OF assms] obtain entry where
    e: "db' = db\<lparr>pd_projects := map (\<lambda>x. if pw_ID x = pid then archive_row b (pd_now db) x else x) (pd_projects db),
      pd_audit := pd_audit db @ [entry]\<rparr>" by blast
  show "projects_ok (pd_projects db')" if "projects_ok (pd_projects db)" using Project_SetArchived_keeps [OF assms] that by simp
  have "map pw_ID (pd_projects db') = map pw_ID (pd_projects db)" by (simp add: e)
  from arg_cong [OF this, of set] show "pw_ID ` set (pd_projects db) \<subseteq> pw_ID ` set (pd_projects db')"
    unfolding set_map by simp
  show "prefix (pd_audit db) (pd_audit db')" "ud_users db' = ud_users db" "ud_members db' = ud_members db"
    by (simp_all add: e)
qed

lemma User_Create_effect:
  assumes "User_Create L idkey random newID input actor db = Some (Inr (u, db'))"
  obtains n hash row where "NewUser_Validate L input = Inr n" "HashPassword idkey random (nu_Password n) = Some (Inr hash)"
    "u = scan_user row" "uw_ID row = newID" "uw_Email row = nu_Email n" "uw_PasswordHash row = hash"
    "uw_Role row = nu_Role n" "uw_DisabledAt row = None" "user_checks row" "newID \<notin> uw_ID ` set (ud_users db)"
    "ToLower L (nu_Email n) \<notin> (\<lambda>r. ToLower L (uw_Email r)) ` set (ud_users db)"
    "ud_users db' = ud_users db @ [row]" "ud_members db' = ud_members db" "pd_projects db' = pd_projects db"
    "pd_now db' = pd_now db" "prefix (pd_audit db) (pd_audit db')"
proof -
  from assms obtain n hash where n: "NewUser_Validate L input = Inr n" "HashPassword idkey random (nu_Password n) = Some (Inr hash)"
    by (auto simp: User_Create_def Let_def split: sum.splits option.splits)
  define row where "row = \<lparr>uw_ID = newID, uw_Email = nu_Email n, uw_PasswordHash = hash,
    uw_DisplayName = nu_DisplayName n, uw_Role = nu_Role n, uw_DisabledAt = None,
    uw_LastLoginAt = None, uw_CreatedAt = pd_now db, uw_UpdatedAt = pd_now db\<rparr>"
  from assms n have c: "user_checks row" "\<not> list_ex (\<lambda>r. uw_ID r = newID \<or> ToLower L (uw_Email r) = ToLower L (nu_Email n)) (ud_users db)"
    "u = scan_user row" and "\<exists>e. write_audit e (db\<lparr>ud_users := ud_users db @ [row]\<rparr>) = Inr db'"
    by (auto simp: User_Create_def Let_def row_def split: sum.splits if_splits)
  then obtain e where w: "write_audit e (db\<lparr>ud_users := ud_users db @ [row]\<rparr>) = Inr db'" by blast
  from write_audit_fields [OF w] have f: "ud_users db' = ud_users db @ [row]" "ud_members db' = ud_members db"
    "pd_projects db' = pd_projects db" "pd_now db' = pd_now db" "prefix (pd_audit db) (pd_audit db')" by auto
  have "uw_ID row = newID" "uw_Email row = nu_Email n" "uw_PasswordHash row = hash" "uw_Role row = nu_Role n"
    "uw_DisabledAt row = None" by (simp_all add: row_def)
  moreover have "newID \<notin> uw_ID ` set (ud_users db)"
    "ToLower L (nu_Email n) \<notin> (\<lambda>r. ToLower L (uw_Email r)) ` set (ud_users db)" using c(2) by (auto simp: list_ex_iff)
  ultimately show ?thesis using n c(1,3) f by (intro that [of n hash row])
qed

lemma keeps_User_Create:
  assumes "User_Create L idkey random newID input actor db = Some (Inr (u, db'))"
  shows "keeps L db db'"
proof (rule User_Create_effect [OF assms])
  fix n hash row
  assume r: "uw_ID row = newID" "uw_Email row = nu_Email n" "user_checks row" "newID \<notin> uw_ID ` set (ud_users db)"
      "ToLower L (nu_Email n) \<notin> (\<lambda>r. ToLower L (uw_Email r)) ` set (ud_users db)" and
    f: "ud_users db' = ud_users db @ [row]" "ud_members db' = ud_members db" "pd_projects db' = pd_projects db"
      "prefix (pd_audit db) (pd_audit db')"
  have "uw_ID ` set (ud_users db) \<times> B \<subseteq> uw_ID ` set (ud_users db @ [row]) \<times> B" for B :: "string set" by auto
  then have "accounts_ok L db'" if "accounts_ok L db"
    using that r unfolding accounts_ok_def f by (auto dest: subset_trans)
  moreover have "has_admin (ud_users db) \<Longrightarrow> has_admin (ud_users db')" by (auto simp: has_admin_def f)
  ultimately show ?thesis using f(4) unfolding keeps_def f(1-3) by auto
qed

lemma keeps_members:
  assumes same: "ud_users db' = ud_users db" "pd_projects db' = pd_projects db" and "prefix (pd_audit db) (pd_audit db')"
    and m: "accounts_ok L db \<Longrightarrow> distinct (ud_members db') \<and>
      set (ud_members db') \<subseteq> (uw_ID ` set (ud_users db)) \<times> (pw_ID ` set (pd_projects db))"
  shows "keeps L db db'"
proof -
  have "accounts_ok L db'" if ok: "accounts_ok L db"
    using m [OF ok] ok unfolding accounts_ok_def same by blast
  with assms(3) show ?thesis unfolding keeps_def same by simp
qed

lemma keeps_Grant:
  assumes "GrantMembership uid pid db = Inr db'"
  shows "keeps L db db'"
proof (cases "(uid, pid) \<in> set (ud_members db)")
  case True
  then show ?thesis using assms by (simp add: GrantMembership_def)
next
  case False
  then have k: "member_keys uid pid db" and db': "db' = db\<lparr>ud_members := ud_members db @ [(uid, pid)]\<rparr>"
    using assms by (auto simp: GrantMembership_def split: if_splits)
  have f: "ud_members db' = ud_members db @ [(uid, pid)]" "ud_users db' = ud_users db" "pd_projects db' = pd_projects db"
    "pd_audit db' = pd_audit db" by (simp_all add: db')
  have "uid \<in> uw_ID ` set (ud_users db)" "pid \<in> pw_ID ` set (pd_projects db)"
    by (rule found_user [OF conjunct1 [OF k [unfolded member_keys_def]]], rule found_project [OF conjunct2 [OF k [unfolded member_keys_def]]])
  then have "distinct (ud_members db') \<and> set (ud_members db') \<subseteq> uw_ID ` set (ud_users db) \<times> pw_ID ` set (pd_projects db)"
    if "accounts_ok L db"
    using that False unfolding accounts_ok_def f by simp
  moreover have "prefix (pd_audit db) (pd_audit db')" by (simp add: f(4))
  ultimately show ?thesis by (intro keeps_members [OF f(2,3)])
qed

lemma insert_members_Inr:
  "insert_members uid pids db = Inr db' \<Longrightarrow> ud_members db' = ud_members db @ map (Pair uid) pids \<and>
    ud_users db' = ud_users db \<and> pd_projects db' = pd_projects db \<and> pd_now db' = pd_now db \<and> pd_audit db' = pd_audit db \<and>
    set pids \<subseteq> pw_ID ` set (pd_projects db) \<and> (distinct (ud_members db) \<longrightarrow> distinct (ud_members db @ map (Pair uid) pids))"
proof (induction uid pids db rule: insert_members.induct)
  case (2 uid pid pids db)
  have s: "find_project pid db \<noteq> None" "(uid, pid) \<notin> set (ud_members db)"
    "insert_members uid pids (db\<lparr>ud_members := ud_members db @ [(uid, pid)]\<rparr>) = Inr db'"
    using "2.prems" by (auto split: if_splits)
  have "pid \<in> pw_ID ` set (pd_projects db)" by (rule found_project [OF s(1)])
  with "2.IH" [OF s] s(2) show ?case by simp
qed simp_all

lemma SetMembership_effect:
  assumes "SetMembership uid pids actor db = Inr db'"
  shows "find_user uid db \<noteq> None" "ud_users db' = ud_users db" "pd_projects db' = pd_projects db"
    "ud_members db' = filter (\<lambda>m. fst m \<noteq> uid) (ud_members db) @ map (Pair uid) pids"
    "set pids \<subseteq> pw_ID ` set (pd_projects db)" "prefix (pd_audit db) (pd_audit db')"
    "distinct (ud_members db) \<Longrightarrow> distinct (ud_members db')"
proof -
  let ?db = "db\<lparr>ud_members := filter (\<lambda>m. fst m \<noteq> uid) (ud_members db)\<rparr>"
  from assms obtain db1 e where i: "insert_members uid pids ?db = Inr db1" and w: "write_audit e db1 = Inr db'"
    and u: "find_user uid db \<noteq> None"
    by (auto simp: SetMembership_def Let_def split: if_splits sum.splits)
  note m = insert_members_Inr [OF i]
  note f = write_audit_fields [OF w]
  show "find_user uid db \<noteq> None" by (rule u)
  show "ud_users db' = ud_users db" "pd_projects db' = pd_projects db"
    "ud_members db' = filter (\<lambda>m. fst m \<noteq> uid) (ud_members db) @ map (Pair uid) pids"
    "set pids \<subseteq> pw_ID ` set (pd_projects db)" "prefix (pd_audit db) (pd_audit db')"
    using f(1-3) m f(5) by (simp_all, elim exE) simp
  show "distinct (ud_members db')" if "distinct (ud_members db)"
  proof -
    have "distinct (ud_members ?db)" using that by simp
    then have "distinct (ud_members ?db @ map (Pair uid) pids)" using m by blast
    then show ?thesis using m f(2) by simp
  qed
qed

lemma keeps_SetMembership:
  assumes "SetMembership uid pids actor db = Inr db'"
  shows "keeps L db db'"
proof -
  note e = SetMembership_effect [OF assms]
  have "{uid} \<subseteq> uw_ID ` set (ud_users db)" using found_user [OF e(1)] by simp
  from Sigma_mono [OF this e(5)] have pids: "{uid} \<times> set pids \<subseteq> uw_ID ` set (ud_users db) \<times> pw_ID ` set (pd_projects db)" .
  have "distinct (ud_members db') \<and> set (ud_members db') \<subseteq> uw_ID ` set (ud_users db) \<times> pw_ID ` set (pd_projects db)"
    if ok: "accounts_ok L db"
  proof -
    have "set (ud_members db) \<subseteq> uw_ID ` set (ud_users db) \<times> pw_ID ` set (pd_projects db)" "distinct (ud_members db)"
      using ok by (simp_all add: accounts_ok_def)
    moreover have "set (ud_members db') \<subseteq> set (ud_members db) \<union> {uid} \<times> set pids" unfolding e(4) by auto
    ultimately show ?thesis using e(7) pids by blast
  qed
  then show ?thesis by (rule keeps_members [OF e(2,3,6)])
qed

lemma keeps_step: "account_step L idkey db db' \<Longrightarrow> keeps L db db'"
proof (induction rule: account_step.induct)
  case (clock db now)
  show ?case by (simp add: keeps_def accounts_ok_def)
qed (simp_all add: keeps_Create_Project keeps_SetArchived keeps_User_Create keeps_RecordLogin keeps_SetRole
  keeps_SetDisabled keeps_Grant keeps_SetMembership)

lemma keeps_steps: "(account_step L idkey)\<^sup>*\<^sup>* db db' \<Longrightarrow> keeps L db db'"
  by (induction rule: rtranclp_induct) (auto intro: keeps_trans keeps_step)

definition sample_account :: "string \<Rightarrow> UserRole \<Rightarrow> UserRow" where
  "sample_account name role = \<lparr>uw_ID = name, uw_Email = name @ ''@example.org'', uw_PasswordHash = ''$argon2id$'',
     uw_DisplayName = name, uw_Role = role, uw_DisabledAt = None, uw_LastLoginAt = None, uw_CreatedAt = 1, uw_UpdatedAt = 1\<rparr>"

definition sample_users :: UserDB where
  "sample_users = ProjectDB.extend sample_projects
     \<lparr>ud_users = [sample_account ''ann'' UserRoleAdmin, sample_account ''bob'' UserRoleAdmin, sample_account ''eve'' UserRoleEngineer],
      ud_members = [(''eve'', ''p1'')]\<rparr>"

lemma sample_users_ok: "accounts_ok sample_lib sample_users"
  unfolding accounts_ok_def by (intro conjI; code_simp)

text \<open>
  C21: accounts stay consistent. Whatever sequence of operations on projects, accounts and memberships
  succeeds, one at a time: identifiers, slugs and addresses stay unique, every row keeps its
  constraints, every membership names an account and a project that exist, a deployment with an enabled
  administrator keeps one, no account and no project disappears, and the audit log only grows.
\<close>

theorem accounts_stay_consistent:
  assumes "(account_step L idkey)\<^sup>*\<^sup>* db db'" "accounts_ok L db"
  shows "accounts_ok L db' \<and> (has_admin (ud_users db) \<longrightarrow> has_admin (ud_users db')) \<and>
    prefix (pd_audit db) (pd_audit db') \<and> uw_ID ` set (ud_users db) \<subseteq> uw_ID ` set (ud_users db') \<and>
    pw_ID ` set (pd_projects db) \<subseteq> pw_ID ` set (pd_projects db')"
  using keeps_steps [OF assms(1)] assms(2) unfolding keeps_def by blast

theorem accounts_stay_consistent_witness:
  "\<exists>db. (account_step sample_lib sample_idkey)\<^sup>*\<^sup>* sample_users db \<and> has_admin (ud_users db) \<and>
     \<not> isl (SetRole ''ann'' UserRoleViewer (TokenActor ''ci'') sample_users) \<and>
     SetRole ''bob'' UserRoleViewer (TokenActor ''ci'') db = Inl LastAdmin"
proof -
  let ?x = "SetRole ''ann'' UserRoleViewer (TokenActor ''ci'') sample_users"
  let ?db = "snd (projr ?x)"
  have x: "\<not> isl ?x" by code_simp
  then have "?x = Inr (fst (projr ?x), ?db)" by (simp add: not_isl_Inr)
  then have st: "(account_step sample_lib sample_idkey)\<^sup>*\<^sup>* sample_users ?db"
    using account_step.set_role by blast
  have a: "has_admin (ud_users sample_users)" by code_simp
  have b: "SetRole ''bob'' UserRoleViewer (TokenActor ''ci'') ?db = Inl LastAdmin" by code_simp
  show ?thesis using accounts_stay_consistent [OF st sample_users_ok] st a b x by blast
qed

section \<open>Two administrators at once\<close>

text \<open>
  A change of a role or a state as \<open>update\<close> runs it: the row is read and locked and the guard is run,
  whose count is a query of its own outside the transaction, so it sees what is committed; then the
  row is written and the transaction commits. Other transactions run in between, except on a locked
  row.
\<close>

datatype admin_change = ToRole UserRole | ToDisabled bool

type_synonym admin_request = "string \<times> admin_change"

fun change_guard :: "admin_request \<Rightarrow> UserRow list \<Rightarrow> User \<Rightarrow> user_store_error option" where
  "change_guard (uid, ToRole role) rows = role_guard uid role rows"
| "change_guard (uid, ToDisabled b) rows = disable_guard uid b rows"

fun change_row :: "time \<Rightarrow> admin_change \<Rightarrow> UserRow \<Rightarrow> UserRow" where
  "change_row now (ToRole role) r = r\<lparr>uw_Role := role\<rparr>"
| "change_row now (ToDisabled b) r = r\<lparr>uw_DisabledAt := (if b then Some now else None)\<rparr>"

record Transactions =
  tx_rows :: "UserRow list"
  tx_waiting :: "admin_request list"
  tx_guarded :: "admin_request list"

inductive tx_step :: "Transactions \<Rightarrow> Transactions \<Rightarrow> bool" where
  guard: "req \<in> set (tx_waiting s) \<Longrightarrow> fst req \<notin> fst ` set (tx_guarded s) \<Longrightarrow>
    List.find (\<lambda>r. uw_ID r = fst req) (tx_rows s) = Some r \<Longrightarrow> change_guard req (tx_rows s) (scan_user r) = None \<Longrightarrow>
    tx_step s (s\<lparr>tx_waiting := remove1 req (tx_waiting s), tx_guarded := req # tx_guarded s\<rparr>)"
| commit: "req \<in> set (tx_guarded s) \<Longrightarrow>
    tx_step s (s\<lparr>tx_rows := map (on_row (fst req) (stamped (change_row now (snd req)) now)) (tx_rows s),
      tx_guarded := remove1 req (tx_guarded s)\<rparr>)"

text \<open>The method is the two steps with nothing in between.\<close>

lemma SetRole_steps:
  assumes "SetRole uid role actor db = Inr (u, db')"
  shows "tx_step\<^sup>*\<^sup>* \<lparr>tx_rows = ud_users db, tx_waiting = [(uid, ToRole role)], tx_guarded = []\<rparr>
    \<lparr>tx_rows = ud_users db', tx_waiting = [], tx_guarded = []\<rparr>"
proof -
  have upd: "user_update uid actor ''user.role_change'' (role_guard uid role (ud_users db)) (\<lambda>r. r\<lparr>uw_Role := role\<rparr>) db = Inr (u, db')"
    using assms by (auto simp: SetRole_def split: if_splits)
  note e = user_update_effect [OF upd]
  obtain r where r: "find_user uid db = Some r" "role_guard uid role (ud_users db) (scan_user r) = None" using e(1) by blast
  have f: "change_row now (ToRole role) = (\<lambda>r. r\<lparr>uw_Role := role\<rparr>)" for now by auto
  let ?s = "\<lparr>tx_rows = ud_users db, tx_waiting = [(uid, ToRole role)], tx_guarded = []\<rparr>"
  have "tx_step ?s \<lparr>tx_rows = ud_users db, tx_waiting = [], tx_guarded = [(uid, ToRole role)]\<rparr>"
    using tx_step.guard [of "(uid, ToRole role)" ?s r] r by (simp add: find_user_def)
  moreover have "tx_step \<lparr>tx_rows = ud_users db, tx_waiting = [], tx_guarded = [(uid, ToRole role)]\<rparr>
      \<lparr>tx_rows = ud_users db', tx_waiting = [], tx_guarded = []\<rparr>"
    using tx_step.commit [of "(uid, ToRole role)" "\<lparr>tx_rows = ud_users db, tx_waiting = [], tx_guarded = [(uid, ToRole role)]\<rparr>" "pd_now db"]
    by (simp add: e(2) f)
  ultimately show ?thesis by (meson rtranclp.rtrancl_into_rtrancl rtranclp.rtrancl_refl)
qed

text \<open>
  C22: the count of the guard is not part of the transaction, so two administrators demoted at the same time
  both see the other and a deployment ends with none, which either order one after the other refuses.
\<close>

theorem concurrent_demotions_lock_out:
  "\<exists>s. tx_step\<^sup>*\<^sup>* \<lparr>tx_rows = ud_users sample_users,
        tx_waiting = [(''ann'', ToRole UserRoleViewer), (''bob'', ToRole UserRoleViewer)], tx_guarded = []\<rparr> s \<and>
     has_admin (ud_users sample_users) \<and> \<not> has_admin (tx_rows s) \<and> tx_waiting s = [] \<and> tx_guarded s = [] \<and>
     (case SetRole ''ann'' UserRoleViewer (TokenActor ''ci'') sample_users of
        Inl e \<Rightarrow> False | Inr (u, db) \<Rightarrow> SetRole ''bob'' UserRoleViewer (TokenActor ''ci'') db = Inl LastAdmin) \<and>
     (case SetRole ''bob'' UserRoleViewer (TokenActor ''ci'') sample_users of
        Inl e \<Rightarrow> False | Inr (u, db) \<Rightarrow> SetRole ''ann'' UserRoleViewer (TokenActor ''ci'') db = Inl LastAdmin)"
proof -
  let ?r = "ud_users sample_users" and ?a = "(''ann'', ToRole UserRoleViewer)" and ?b = "(''bob'', ToRole UserRoleViewer)"
  let ?w = "\<lambda>uid. map (on_row uid (stamped (change_row 9 (ToRole UserRoleViewer)) 9))"
  have one: "tx_step \<lparr>tx_rows = ?r, tx_waiting = [?a, ?b], tx_guarded = []\<rparr> \<lparr>tx_rows = ?r, tx_waiting = [?b], tx_guarded = [?a]\<rparr>"
  proof -
    have "List.find (\<lambda>r. uw_ID r = ''ann'') ?r = Some (sample_account ''ann'' UserRoleAdmin)"
      "change_guard ?a ?r (scan_user (sample_account ''ann'' UserRoleAdmin)) = None" by code_simp+
    then show ?thesis using tx_step.guard [of ?a "\<lparr>tx_rows = ?r, tx_waiting = [?a, ?b], tx_guarded = []\<rparr>"] by simp
  qed
  have two: "tx_step \<lparr>tx_rows = ?r, tx_waiting = [?b], tx_guarded = [?a]\<rparr> \<lparr>tx_rows = ?r, tx_waiting = [], tx_guarded = [?b, ?a]\<rparr>"
  proof -
    have "List.find (\<lambda>r. uw_ID r = ''bob'') ?r = Some (sample_account ''bob'' UserRoleAdmin)"
      "change_guard ?b ?r (scan_user (sample_account ''bob'' UserRoleAdmin)) = None" by code_simp+
    then show ?thesis using tx_step.guard [of ?b "\<lparr>tx_rows = ?r, tx_waiting = [?b], tx_guarded = [?a]\<rparr>"] by simp
  qed
  have three: "tx_step \<lparr>tx_rows = ?r, tx_waiting = [], tx_guarded = [?b, ?a]\<rparr> \<lparr>tx_rows = ?w ''ann'' ?r, tx_waiting = [], tx_guarded = [?b]\<rparr>"
    using tx_step.commit [of ?a "\<lparr>tx_rows = ?r, tx_waiting = [], tx_guarded = [?b, ?a]\<rparr>" 9] by simp
  have four: "tx_step \<lparr>tx_rows = ?w ''ann'' ?r, tx_waiting = [], tx_guarded = [?b]\<rparr>
      \<lparr>tx_rows = ?w ''bob'' (?w ''ann'' ?r), tx_waiting = [], tx_guarded = []\<rparr>"
    using tx_step.commit [of ?b "\<lparr>tx_rows = ?w ''ann'' ?r, tx_waiting = [], tx_guarded = [?b]\<rparr>" 9] by simp
  have gone: "has_admin ?r" "\<not> has_admin (?w ''bob'' (?w ''ann'' ?r))" by code_simp+
  have serial: "case SetRole ''ann'' UserRoleViewer (TokenActor ''ci'') sample_users of
          Inl e \<Rightarrow> False | Inr (u, db) \<Rightarrow> SetRole ''bob'' UserRoleViewer (TokenActor ''ci'') db = Inl LastAdmin"
    "case SetRole ''bob'' UserRoleViewer (TokenActor ''ci'') sample_users of
          Inl e \<Rightarrow> False | Inr (u, db) \<Rightarrow> SetRole ''ann'' UserRoleViewer (TokenActor ''ci'') db = Inl LastAdmin" by code_simp+
  show ?thesis
    by (rule exI [of _ "\<lparr>tx_rows = ?w ''bob'' (?w ''ann'' ?r), tx_waiting = [], tx_guarded = []\<rparr>"], intro conjI)
      (use one two three four in \<open>meson rtranclp.rtrancl_into_rtrancl rtranclp.rtrancl_refl\<close>,
       use gone serial in simp_all)
qed

section \<open>Signing in\<close>

lemma find_by_email:
  assumes "accounts_ok L db" "r \<in> set (ud_users db)" "ToLower L (uw_Email r) = email"
  shows "List.find (\<lambda>r. ToLower L (uw_Email r) = email) (ud_users db) = Some r"
proof -
  have "List.find (\<lambda>r. ToLower L (uw_Email r) = email) (ud_users db) \<noteq> None"
    using assms(2,3) by (auto simp: find_None_iff)
  then obtain x where x: "List.find (\<lambda>r. ToLower L (uw_Email r) = email) (ud_users db) = Some x" by blast
  then have "x \<in> set (ud_users db)" "ToLower L (uw_Email x) = email" by (auto simp: find_Some_iff)
  moreover have "inj_on (\<lambda>r. ToLower L (uw_Email r)) (set (ud_users db))"
    using assms(1) by (simp add: accounts_ok_def distinct_map)
  ultimately have "x = r" using assms(2,3) by (auto dest: inj_onD)
  with x show ?thesis by simp
qed

text \<open>
  Signing in admits exactly the person, and says nothing of anybody else. It succeeds exactly with the
  address of an account up to case and surrounding space, a password its stored hash verifies and the
  account enabled, and then returns that account; an unknown address, a wrong password and a disabled
  account are answered alike.
\<close>

theorem sign_in_is_exact:
  assumes "accounts_ok L db" "VerifyPassword idkey pw decoy \<noteq> None"
  shows "(Authenticate_user L idkey decoy email pw db = Some (Inr u) \<longleftrightarrow>
      (\<exists>r \<in> set (ud_users db). ToLower L (uw_Email r) = ToLower L (TrimSpace email) \<and>
        VerifyPassword idkey pw (uw_PasswordHash r) = Some (Inr True) \<and> uw_DisabledAt r = None \<and> u = scan_user r)) \<and>
    (Authenticate_user L idkey decoy email pw db = Some (Inl UserNotFound) \<longleftrightarrow>
      (\<forall>r \<in> set (ud_users db). ToLower L (uw_Email r) = ToLower L (TrimSpace email) \<longrightarrow>
        VerifyPassword idkey pw (uw_PasswordHash r) = Some (Inr False) \<or>
        VerifyPassword idkey pw (uw_PasswordHash r) = Some (Inr True) \<and> uw_DisabledAt r \<noteq> None))"
proof (cases "\<exists>r \<in> set (ud_users db). ToLower L (uw_Email r) = ToLower L (TrimSpace email)")
  case False
  then have "List.find (\<lambda>r. ToLower L (uw_Email r) = ToLower L (TrimSpace email)) (ud_users db) = None"
    by (auto simp: find_None_iff)
  with assms(2) False show ?thesis by (auto simp: Authenticate_user_def Let_def)
next
  case True
  then obtain r where r: "r \<in> set (ud_users db)" "ToLower L (uw_Email r) = ToLower L (TrimSpace email)" by blast
  note find = find_by_email [OF assms(1) r]
  have only: "x = r" if "x \<in> set (ud_users db)" "ToLower L (uw_Email x) = ToLower L (TrimSpace email)" for x
    using find_by_email [OF assms(1) that] find by simp
  have "(scan_user r)\<lparr>us_Disabled := False\<rparr> = scan_user r" if "uw_DisabledAt r = None"
    using that by (simp add: scan_user_def)
  then have val: "Authenticate_user L idkey decoy email pw db =
      (case VerifyPassword idkey pw (uw_PasswordHash r) of None \<Rightarrow> None | Some (Inl e) \<Rightarrow> Some (Inl (UserPassword e))
       | Some (Inr ok) \<Rightarrow> if \<not> ok \<or> uw_DisabledAt r \<noteq> None then Some (Inl UserNotFound) else Some (Inr (scan_user r)))"
    by (auto simp: Authenticate_user_def Let_def find split: option.split sum.split)
  have ex: "(\<exists>x \<in> set (ud_users db). ToLower L (uw_Email x) = ToLower L (TrimSpace email) \<and> P x) \<longleftrightarrow> P r" for P
    using only r by blast
  have all: "(\<forall>x \<in> set (ud_users db). ToLower L (uw_Email x) = ToLower L (TrimSpace email) \<longrightarrow> P x) \<longleftrightarrow> P r" for P
    using only r by blast
  show ?thesis unfolding ex all unfolding val by (auto split: option.split sum.split)
qed

text \<open>A hash that was made verifies its password.\<close>

lemma hashed_verifies:
  assumes "idkey_ok idkey" "HashPassword idkey random pw = Some (Inr hash)"
  shows "VerifyPassword idkey pw hash = Some (Inr True)"
proof -
  from assms(2) obtain salt k where k: "idkey pw salt argonTime argonMemory argonThreads argonKeyLen = Some k"
      "hash = encode_hash argonMemory argonTime argonThreads salt k"
    by (auto simp: HashPassword_def split: option.splits if_splits)
  moreover obtain key where "idkey pw salt argonTime argonMemory argonThreads argonKeyLen = Some key" "length key = argonKeyLen"
  proof -
    have "1 \<le> argonTime" "1 \<le> argonThreads" by simp_all
    then show ?thesis using assms(1) that unfolding idkey_ok_def by blast
  qed
  ultimately show ?thesis
    using Verify_encode_hash [of argonMemory argonTime argonThreads k idkey pw salt] by simp
qed

definition signup :: NewUser where
  "signup = \<lparr>nu_Email = '' Joe@Example.org'', nu_Password = ''correct horse'', nu_DisplayName = ''Joe'', nu_Role = []\<rparr>"

definition sample_salt :: string where
  "sample_salt = ''0123456789abcdef''"

definition signed_up :: "User \<times> UserDB" where
  "signed_up = projr (the (User_Create sample_lib sample_idkey (Some sample_salt) ''joe'' signup (TokenActor ''ci'') sample_users))"

lemma write_audit_accepts:
  assumes "TrimSpace (ac_Kind actor) \<noteq> []" "TrimSpace (ac_Label actor) \<noteq> []" "TrimSpace action \<noteq> []"
  shows "\<not> isl (write_audit (user_entry actor action uid before after) db)"
proof -
  have "TrimSpace ''user'' \<noteq> []" by code_simp
  then show ?thesis
    using assms by (auto simp: write_audit_def user_entry_def audit_Write_def Entry_validate_def Let_def split: sum.split)
qed

lemma signed_up_run: "User_Create sample_lib sample_idkey (Some sample_salt) ''joe'' signup (TokenActor ''ci'') sample_users =
    Some (Inr (fst signed_up, snd signed_up))"
proof -
  let ?x = "User_Create sample_lib sample_idkey (Some sample_salt) ''joe'' signup (TokenActor ''ci'') sample_users"
  let ?n = "signup\<lparr>nu_Email := ''joe@example.org'', nu_Role := UserRoleViewer\<rparr>"
  have n: "NewUser_Validate sample_lib signup = Inr ?n" by code_simp
  have long: "\<not> length (nu_Password ?n) < MinPasswordLength" by code_simp
  obtain k where "sample_idkey (nu_Password ?n) sample_salt argonTime argonMemory argonThreads argonKeyLen = Some k"
    using sample_idkey_ok unfolding idkey_ok_def by (meson le_refl one_le_numeral)
  then have h: "HashPassword sample_idkey (Some sample_salt) (nu_Password ?n) =
      Some (Inr (encode_hash argonMemory argonTime argonThreads sample_salt k))" (is "_ = Some (Inr ?hash)")
    using long by (simp add: HashPassword_def)
  have hash: "prefix ''$argon2id$'' ?hash" by (simp add: encode_hash_def)
  have free: "\<not> list_ex (\<lambda>r. uw_ID r = ''joe'' \<or> ToLower sample_lib (uw_Email r) = ToLower sample_lib (nu_Email ?n)) (ud_users sample_users)"
    by code_simp
  have actor: "TrimSpace (ac_Kind (TokenActor ''ci'')) \<noteq> []" "TrimSpace (ac_Label (TokenActor ''ci'')) \<noteq> []"
    "TrimSpace ''user.create'' \<noteq> []" by code_simp+
  have w: "write_audit (user_entry (TokenActor ''ci'') ''user.create'' uid before after) db \<noteq> Inl e" for uid before after db e
    using write_audit_accepts [OF actor] by (metis sum.disc(1))
  have role: "UserRole_Valid UserRoleViewer" by code_simp
  have "?x \<noteq> None \<and> \<not> isl (the ?x)"
    using free hash w role unfolding User_Create_def n sum.case h option.case Let_def
    by (auto simp: user_checks_def signup_def split: sum.splits if_splits)
  then have some: "?x \<noteq> None" and r: "\<not> isl (the ?x)" by (rule conjunct1, rule conjunct2)
  have "?x = Some (the ?x)" by (rule option.collapse [OF some, symmetric])
  also have "the ?x = Inr (projr (the ?x))" by (rule sum.collapse(2) [OF r, symmetric])
  finally show ?thesis unfolding signed_up_def prod.collapse .
qed

text \<open>
  An account that was created signs in. With the address as it was submitted, and the password, the
  account is returned, until it is disabled, and again when it is enabled; the address is lower-cased
  once at creation and once at the lookup, so the case tables must be idempotent on it.
\<close>

theorem created_account_signs_in:
  assumes "User_Create L idkey random newID input actor db = Some (Inr (u, db'))"
    and "idkey_ok idkey" "accounts_ok L db"
    and "ToLower L (ToLower L (TrimSpace (nu_Email input))) = ToLower L (TrimSpace (nu_Email input))"
  shows "Authenticate_user L idkey decoy (nu_Email input) (nu_Password input) db' = Some (Inr u) \<and>
    us_ID u = newID \<and> us_Email u = ToLower L (TrimSpace (nu_Email input)) \<and>
    (SetDisabled newID True actor' db' = Inr (v, db1) \<longrightarrow>
      Authenticate_user L idkey decoy (nu_Email input) (nu_Password input) db1 = Some (Inl UserNotFound))"
proof (rule User_Create_effect [OF assms(1)])
  fix n hash row
  assume n: "NewUser_Validate L input = Inr n" and h: "HashPassword idkey random (nu_Password n) = Some (Inr hash)" and
    r: "u = scan_user row" "uw_ID row = newID" "uw_Email row = nu_Email n" "uw_PasswordHash row = hash" "uw_DisabledAt row = None"
    and new: "ToLower L (nu_Email n) \<notin> (\<lambda>r. ToLower L (uw_Email r)) ` set (ud_users db)" "newID \<notin> uw_ID ` set (ud_users db)"
    and users: "ud_users db' = ud_users db @ [row]"
  have e: "nu_Email n = ToLower L (TrimSpace (nu_Email input))" "nu_Password n = nu_Password input"
    using n by (auto simp: NewUser_Validate_def Let_def split: if_splits)
  note v = hashed_verifies [OF assms(2) h, unfolded e(2)]
  have f: "List.find (\<lambda>r. ToLower L (uw_Email r) = ToLower L (TrimSpace (nu_Email input))) (ud_users db) = None"
    using new(1) unfolding e(1) assms(4) find_None_iff by (auto simp: image_iff)
  have found: "List.find P (xs @ [x]) = (if P x then Some x else None)" if "List.find P xs = None" for P and xs :: "UserRow list" and x
    using that by (induction xs) (auto split: if_splits)
  have look: "List.find (\<lambda>r. ToLower L (uw_Email r) = ToLower L (TrimSpace (nu_Email input))) (ud_users db') = Some row"
    unfolding users found [OF f] by (simp add: r e assms(4))
  have "Authenticate_user L idkey decoy (nu_Email input) (nu_Password input) db' = Some (Inr u)"
    using v by (simp add: Authenticate_user_def Let_def look r scan_user_def)
  moreover have "us_ID u = newID" "us_Email u = ToLower L (TrimSpace (nu_Email input))" by (simp_all add: r scan_user_def e)
  moreover have "Authenticate_user L idkey decoy (nu_Email input) (nu_Password input) db1 = Some (Inl UserNotFound)"
    if d: "SetDisabled newID True actor' db' = Inr (v, db1)"
  proof -
    let ?g = "on_row newID (stamped (\<lambda>r. r\<lparr>uw_DisabledAt := Some (pd_now db')\<rparr>) (pd_now db'))"
    have "ud_users db1 = map ?g (ud_users db')"
      using user_update_effect(2) [OF d [unfolded SetDisabled_def]] by simp
    moreover have "List.find P (map ?g xs) = map_option ?g (List.find P xs)" if "\<And>r. P (?g r) = P r" for P and xs :: "UserRow list"
      using that by (induction xs) auto
    moreover have "uw_Email (?g r) = uw_Email r" for r by (simp add: on_row_def stamped_def)
    ultimately have "List.find (\<lambda>r. ToLower L (uw_Email r) = ToLower L (TrimSpace (nu_Email input))) (ud_users db1) = Some (?g row)"
      using look by simp
    moreover have "uw_PasswordHash (?g row) = hash" "uw_DisabledAt (?g row) \<noteq> None" using r by (auto simp: on_row_def stamped_def)
    ultimately show ?thesis using v by (simp add: Authenticate_user_def Let_def)
  qed
  ultimately show ?thesis by blast
qed

theorem created_account_signs_in_witness:
  "Authenticate_user sample_lib sample_idkey ''x'' '' Joe@Example.org'' ''correct horse'' (snd signed_up) = Some (Inr (fst signed_up)) \<and>
   us_ID (fst signed_up) = ''joe''"
proof -
  have "ToLower sample_lib (ToLower sample_lib (TrimSpace (nu_Email signup))) = ToLower sample_lib (TrimSpace (nu_Email signup))"
    by code_simp
  from created_account_signs_in [OF signed_up_run sample_idkey_ok sample_users_ok this, where decoy = "''x''"]
  show ?thesis by (simp add: signup_def)
qed

theorem sign_in_is_exact_witness:
  "Authenticate_user sample_lib sample_idkey ''x'' ''nobody'' ''secret'' sample_users = Some (Inl UserNotFound)"
proof -
  have d: "VerifyPassword sample_idkey ''secret'' ''x'' \<noteq> None" by code_simp
  have "\<forall>r \<in> set (ud_users sample_users). ToLower sample_lib (uw_Email r) \<noteq> ToLower sample_lib (TrimSpace ''nobody'')" by code_simp
  with sign_in_is_exact [OF sample_users_ok d, of "''nobody''"] show ?thesis by blast
qed

section \<open>Reach\<close>

text \<open>
  A person reaches exactly their projects. An administrator reaches every project; anybody else exactly
  those a membership names, whatever their state; a grant adds one, and setting the memberships leaves
  exactly the ones given.
\<close>

theorem reach_is_membership:
  assumes "accounts_ok L db" "p \<in> set (pd_projects db)"
  shows "(Scope_Allows L (ScopeOf L u db) (pw_Slug p) \<longleftrightarrow>
      us_Role u = UserRoleAdmin \<or> (us_ID u, pw_ID p) \<in> set (ud_members db)) \<and>
    (GrantMembership (us_ID u) pid db = Inr db1 \<longrightarrow>
      (Scope_Allows L (ScopeOf L u db1) (pw_Slug p) \<longleftrightarrow> pw_ID p = pid \<or> Scope_Allows L (ScopeOf L u db) (pw_Slug p))) \<and>
    (SetMembership (us_ID u) pids actor db = Inr db2 \<and> us_Role u \<noteq> UserRoleAdmin \<longrightarrow>
      (Scope_Allows L (ScopeOf L u db2) (pw_Slug p) \<longleftrightarrow> pw_ID p \<in> set pids))"
proof -
  have reach: "Scope_Allows L (ScopeOf L u d) (pw_Slug p) \<longleftrightarrow>
      us_Role u = UserRoleAdmin \<or> (us_ID u, pw_ID p) \<in> set (ud_members d)"
    if d: "pd_projects d = pd_projects db" for d
  proof (cases "us_Role u = UserRoleAdmin")
    case True
    then show ?thesis by (simp add: ScopeOf_def Scope_Allows_def GlobalScope_def)
  next
    case False
    let ?slugs = "concat (map (\<lambda>(uid, pid). if uid = us_ID u then map pw_Slug (filter (\<lambda>p. pw_ID p = pid) (pd_projects d)) else [])
      (ud_members d))"
    have ok: "projects_ok (pd_projects db)" using assms(1) by (simp add: accounts_ok_def)
    then have slug: "slugPattern (pw_Slug x)" if "x \<in> set (pd_projects db)" for x
      using that by (auto simp: projects_ok_def project_checks_def)
    have inj: "pw_ID x = pw_ID p" if "x \<in> set (pd_projects db)" "pw_Slug x = pw_Slug p" for x
      using ok that assms(2) by (auto simp: projects_ok_def distinct_map dest: inj_onD)
    have "set ?slugs = {pw_Slug x | x. x \<in> set (pd_projects db) \<and> (us_ID u, pw_ID x) \<in> set (ud_members d)}"
      unfolding d by (auto split: if_splits)
    moreover have "scope_projects (ScopeTo L ?slugs) = sort (dedup ?slugs)"
      by (rule ScopeTo_slugs) (use slug in \<open>auto simp: d split: if_splits\<close>)
    moreover have "Scope_Allows L (ScopeTo L ?slugs) (pw_Slug p) \<longleftrightarrow> pw_Slug p \<in> set (scope_projects (ScopeTo L ?slugs))"
      unfolding Scope_Allows_def slugPattern_fix [OF slug [OF assms(2)]] Let_def list_ex_iff
      by (simp add: ScopeTo_def)
    ultimately have "Scope_Allows L (ScopeTo L ?slugs) (pw_Slug p) \<longleftrightarrow>
        (\<exists>x. pw_Slug p = pw_Slug x \<and> x \<in> set (pd_projects db) \<and> (us_ID u, pw_ID x) \<in> set (ud_members d))"
      by (simp only: set_sort set_dedup mem_Collect_eq)
    also have "\<dots> \<longleftrightarrow> (us_ID u, pw_ID p) \<in> set (ud_members d)" using inj assms(2) by metis
    finally show ?thesis using False by (simp only: ScopeOf_def if_False simp_thms)
  qed
  have one: "pd_projects db1 = pd_projects db \<and> set (ud_members db1) = insert (us_ID u, pid) (set (ud_members db))"
    if "GrantMembership (us_ID u) pid db = Inr db1"
    using that by (auto simp: GrantMembership_def split: if_splits)
  show ?thesis
  proof (intro conjI impI)
    show "Scope_Allows L (ScopeOf L u db) (pw_Slug p) \<longleftrightarrow> us_Role u = UserRoleAdmin \<or> (us_ID u, pw_ID p) \<in> set (ud_members db)"
      by (rule reach) (rule refl)
    assume "GrantMembership (us_ID u) pid db = Inr db1"
    note g = one [OF this]
    show "Scope_Allows L (ScopeOf L u db1) (pw_Slug p) \<longleftrightarrow> pw_ID p = pid \<or> Scope_Allows L (ScopeOf L u db) (pw_Slug p)"
      unfolding reach [OF conjunct1 [OF g]] reach [OF refl] conjunct2 [OF g] by auto
  next
    assume s: "SetMembership (us_ID u) pids actor db = Inr db2 \<and> us_Role u \<noteq> UserRoleAdmin"
    note e = SetMembership_effect [OF conjunct1 [OF s]]
    show "Scope_Allows L (ScopeOf L u db2) (pw_Slug p) \<longleftrightarrow> pw_ID p \<in> set pids"
      unfolding reach [OF e(3)] e(4) using s by auto
  qed
qed

theorem reach_is_membership_witness:
  "Scope_Allows sample_lib (ScopeOf sample_lib (scan_user (sample_account ''eve'' UserRoleEngineer)) sample_users) ''shop'' \<and>
   \<not> Scope_Allows sample_lib (ScopeOf sample_lib (scan_user (sample_account ''eve'' UserRoleEngineer)) sample_users) ''billing''"
proof -
  have p: "sample_row_of ''p1'' ''shop'' 1 \<in> set (pd_projects sample_users)" "sample_row_of ''p2'' ''billing'' 2 \<in> set (pd_projects sample_users)"
    "(''eve'', ''p1'') \<in> set (ud_members sample_users)" "(''eve'', ''p2'') \<notin> set (ud_members sample_users)" by code_simp+
  show ?thesis
    using conjunct1 [OF reach_is_membership [OF sample_users_ok p(1), of "scan_user (sample_account ''eve'' UserRoleEngineer)"]]
      conjunct1 [OF reach_is_membership [OF sample_users_ok p(2), of "scan_user (sample_account ''eve'' UserRoleEngineer)"]] p(3,4)
    by (simp add: sample_account_def scan_user_def sample_row_of_def)
qed

end
