(* ===== verification/Finding_Reads.thy ===== *)
theory Finding_Reads
  imports Finding_Store Correlation Risk Project_Store
begin

text \<open>
  What is read from the findings store, and what is derived from it and stored beside it: the listings
  and the history of \<open>internal/findings/store.go\<close> and \<open>transition.go\<close>, the correlation tables of
  \<open>correlation.go\<close> and the risk scores of \<open>risk.go\<close>. A query is a filter, a sort and a projection of
  the tables; a transaction returns the new tables or an error. The lemmas show that a listing is tiled
  by its pages, that the correlation the engine computes is one the tables accept and hand back whole,
  and which score a project shows.
\<close>

section \<open>Listings\<close>

record FindingPage =
  fp_Limit :: int
  fp_Offset :: int

definition page_normalize :: "FindingPage \<Rightarrow> FindingPage" where
  "page_normalize p =
     (let p = (if fp_Limit p \<le> 0 then p\<lparr>fp_Limit := 50\<rparr> else p);
          p = (if fp_Limit p > 200 then p\<lparr>fp_Limit := 200\<rparr> else p)
      in if fp_Offset p < 0 then p\<lparr>fp_Offset := 0\<rparr> else p)"

record FindingFilter =
  ff_Status :: string
  ff_Severity :: string
  ff_Scanner :: string

record FindingRecord =
  fd_Finding :: Finding
  fd_ID :: uuid
  fd_Sources :: "string list"
  fd_Occurrences :: nat
  fd_FirstSeen :: time
  fd_LastSeen :: time

text \<open>The columns of a record; the project is not among them.\<close>

definition recordColumns :: "DB \<Rightarrow> FindingRow \<Rightarrow> FindingRecord" where
  "recordColumns db r =
     (let seen = filter (\<lambda>oc. oc_Finding oc = fw_ID r) (db_occurrences db) in
      \<lparr>fd_Finding = (fw_Finding r)\<lparr>ProjectID := []\<rparr>, fd_ID = fw_ID r,
       fd_Sources = sort (remdups (map oc_Scanner seen)), fd_Occurrences = length seen,
       fd_FirstSeen = fw_FirstSeen r, fd_LastSeen = fw_LastSeen r\<rparr>)"

text \<open>The \<open>CASE\<close> expression of the queries.\<close>

definition severity_case :: "Severity \<Rightarrow> int" where
  "severity_case s =
     (if s = ''critical'' then 5 else if s = ''high'' then 4 else if s = ''medium'' then 3
      else if s = ''unknown'' then 2 else if s = ''low'' then 1 else 0)"

definition worst_first :: "FindingRow list \<Rightarrow> FindingRow list" where
  "worst_first rows = sort_key (\<lambda>r. (- severity_case (Sev (fw_Finding r)), - fw_LastSeen r, fw_ID r)) rows"

text \<open>\<open>LIMIT limit + 1 OFFSET offset\<close>, and the row beyond the limit cut off again.\<close>

definition cut_page :: "nat \<Rightarrow> nat \<Rightarrow> 'a list \<Rightarrow> 'a list \<times> bool" where
  "cut_page limit offset rows =
     (let out = take (limit + 1) (drop offset rows); hasMore = length out > limit
      in (if hasMore then take limit out else out, hasMore))"

definition project_findings :: "string \<Rightarrow> FindingFilter \<Rightarrow> DB \<Rightarrow> FindingRow list" where
  "project_findings projectID flt db =
     worst_first (filter (\<lambda>r. fw_Project r = projectID \<and>
       (ff_Status flt = [] \<or> FStatus (fw_Finding r) = ff_Status flt) \<and>
       (ff_Severity flt = [] \<or> Sev (fw_Finding r) = ff_Severity flt) \<and>
       (ff_Scanner flt = [] \<or> Scanner (fw_Finding r) = ff_Scanner flt)) (db_findings db))"

definition Findings_ListByProject :: "string \<Rightarrow> FindingFilter \<Rightarrow> FindingPage \<Rightarrow> DB \<Rightarrow> FindingRecord list \<times> bool" where
  "Findings_ListByProject projectID flt page db =
     (let page = page_normalize page in
      apfst (map (recordColumns db))
        (cut_page (nat (fp_Limit page)) (nat (fp_Offset page)) (project_findings projectID flt db)))"

definition scan_findings :: "string \<Rightarrow> DB \<Rightarrow> FindingRow list" where
  "scan_findings scanID db =
     worst_first (filter (\<lambda>r. list_ex (\<lambda>oc. oc_Finding oc = fw_ID r \<and> oc_Scan oc = scanID) (db_occurrences db))
       (db_findings db))"

definition Findings_ListByScan :: "string \<Rightarrow> FindingPage \<Rightarrow> DB \<Rightarrow> FindingRecord list \<times> bool" where
  "Findings_ListByScan scanID page db =
     (let page = page_normalize page in
      apfst (map (recordColumns db))
        (cut_page (nat (fp_Limit page)) (nat (fp_Offset page)) (scan_findings scanID db)))"

text \<open>Newest first; the identifiers of history rows grow, so the later of two rows written at the
  same time comes first.\<close>

definition History :: "uuid \<Rightarrow> DB \<Rightarrow> TransitionRecord list" where
  "History findingID db =
     map (\<lambda>h. \<lparr>tx_FindingID = findingID, tx_From = (case h_From h of None \<Rightarrow> [] | Some s \<Rightarrow> s),
         tx_To = h_To h, tx_Actor = h_Actor h, tx_Reason = h_Reason h,
         tx_Note = (case h_Note h of None \<Rightarrow> [] | Some n \<Rightarrow> n), tx_ChangedAt = h_ChangedAt h\<rparr>)
       (rev (sort_key h_ChangedAt (filter (\<lambda>h. h_Finding h = findingID) (db_history db))))"

section \<open>Correlation\<close>

record IssueRow =
  iw_ID :: nat
  iw_Project :: string
  iw_Key :: Key
  iw_Severity :: Severity
  iw_Escalated :: bool
  iw_Categories :: "string list"
  iw_Explanation :: string
  iw_Deployment :: Deployment
  iw_DeploymentEvidence :: string
  iw_ArtifactScanID :: "string option"

record MemberRow =
  mw_Issue :: nat
  mw_Finding :: uuid
  mw_Evidence :: string

record LinkRow =
  lw_From :: uuid
  lw_To :: uuid
  lw_Relationship :: Relationship
  lw_Confidence :: Confidence
  lw_Evidence :: string

record ScoreRow =
  sk_Scan :: string
  sk_Project :: string
  sk_Score :: real
  sk_Total :: float64
  sk_Live :: nat
  sk_Dismissed :: nat
  sk_Digest :: string
  sk_At :: time

text \<open>The derived tables. \<open>an_scans\<close> is the column \<open>status\<close> of the table of scans.\<close>

record Analysis =
  an_issues :: "IssueRow list"
  an_members :: "MemberRow list"
  an_links :: "LinkRow list"
  an_scores :: "ScoreRow list"
  an_scans :: "(string \<times> string) list"
  an_next :: nat

datatype analysis_error = AnalysisConstraint | RiskProjectNotFound | NoRiskScore

definition liveStatuses :: "Status list" where
  "liveStatuses = [''open'', ''reopened'', ''acknowledged'', ''in_progress'']"

definition live_rows :: "string \<Rightarrow> DB \<Rightarrow> FindingRow list" where
  "live_rows projectID db =
     sort_key (\<lambda>r. Fingerprint (fw_Finding r))
       (filter (\<lambda>r. fw_Project r = projectID \<and> FStatus (fw_Finding r) \<in> set liveStatuses) (db_findings db))"

text \<open>The columns the query reads; every other field of the subject is left at its zero value.\<close>

definition correlation_subject :: "string \<Rightarrow> DB \<Rightarrow> FindingRow \<Rightarrow> CSubject" where
  "correlation_subject projectID db r =
     (let f = fw_Finding r in
      \<lparr>c_Finding = zero_Finding\<lparr>Fingerprint := Fingerprint f, ProjectID := projectID, Scanner := Scanner f,
         Category := Category f, Sev := Sev f, Conf := Conf f, Title := Title f, Package := Package f,
         PURL := PURL f, CVE := CVE f, CWE := CWE f\<rparr>,
       Files = sort (remdups (List.map_filter (\<lambda>oc. if oc_Finding oc = fw_ID r then oc_File oc else None)
         (db_occurrences db)))\<rparr>)"

definition ListLiveForCorrelation :: "string \<Rightarrow> DB \<Rightarrow> CSubject list" where
  "ListLiveForCorrelation projectID db = map (correlation_subject projectID db) (live_rows projectID db)"

definition findingIDs :: "string \<Rightarrow> DB \<Rightarrow> string \<Rightarrow> uuid option" where
  "findingIDs projectID db =
     map_of (rev (map (\<lambda>r. (Fingerprint (fw_Finding r), fw_ID r))
       (filter (\<lambda>r. fw_Project r = projectID) (db_findings db))))"

definition project_of_finding :: "DB \<Rightarrow> uuid \<Rightarrow> string option" where
  "project_of_finding db fid = map_option fw_Project (List.find (\<lambda>r. fw_ID r = fid) (db_findings db))"

text \<open>Members go with their issue; links go with their first finding.\<close>

definition clearCorrelation :: "string \<Rightarrow> DB \<Rightarrow> Analysis \<Rightarrow> Analysis" where
  "clearCorrelation projectID db an =
     (let gone = map iw_ID (filter (\<lambda>i. iw_Project i = projectID) (an_issues an)) in
      an\<lparr>an_issues := filter (\<lambda>i. iw_Project i \<noteq> projectID) (an_issues an),
         an_members := filter (\<lambda>m. mw_Issue m \<notin> set gone) (an_members an),
         an_links := filter (\<lambda>l. project_of_finding db (lw_From l) \<noteq> Some projectID) (an_links an)\<rparr>)"

definition Relationship_Valid :: "Relationship \<Rightarrow> bool" where
  "Relationship_Valid r = (r \<in> set [RelationExactDuplicate, RelationLikelyDuplicate, RelationRelated, RelationIndependent])"

definition link_checks :: "LinkRow \<Rightarrow> bool" where
  "link_checks l = (Relationship_Valid (lw_Relationship l) \<and> Confidence_Valid (lw_Confidence l) \<and>
     lw_From l \<noteq> lw_To l \<and> \<not> blank_text (lw_Evidence l))"

definition insertLink :: "uuid \<Rightarrow> uuid \<Rightarrow> Link \<Rightarrow> Analysis \<Rightarrow> analysis_error + Analysis" where
  "insertLink from to l an =
     (let row = \<lparr>lw_From = from, lw_To = to, lw_Relationship = l_Relationship l,
            lw_Confidence = l_Confidence l, lw_Evidence = l_Evidence l\<rparr> in
      if \<not> link_checks row then Inl AnalysisConstraint
      else if list_ex (\<lambda>x. lw_From x = from \<and> lw_To x = to \<and> lw_Relationship x = l_Relationship l) (an_links an)
      then Inr an
      else Inr (an\<lparr>an_links := an_links an @ [row]\<rparr>))"

fun insert_links :: "(string \<Rightarrow> uuid option) \<Rightarrow> Link list \<Rightarrow> Analysis \<Rightarrow> analysis_error + Analysis" where
  "insert_links ids [] an = Inr an"
| "insert_links ids (link # links) an =
     (case (ids (l_From link), ids (l_To link)) of
        (Some from, Some to) \<Rightarrow>
          (case insertLink from to link an of Inl e \<Rightarrow> Inl e | Inr an \<Rightarrow> insert_links ids links an)
      | _ \<Rightarrow> insert_links ids links an)"

definition nullableID :: "string \<Rightarrow> string option" where
  "nullableID i = (if i = [] then None else Some i)"

definition Deployment_Valid :: "Deployment \<Rightarrow> bool" where
  "Deployment_Valid d = (d \<in> set [DeploymentUnknown, DeploymentPresent, DeploymentAbsent])"

text \<open>The constraints of \<open>correlated_issues\<close>, the enumerated types included.\<close>

definition issue_checks :: "IssueRow \<Rightarrow> bool" where
  "issue_checks i =
     (Kind (iw_Key i) \<in> set [KindCVE, KindComponent, KindFile] \<and> \<not> blank_text (KeyValue (iw_Key i)) \<and>
      \<not> blank_text (iw_Explanation i) \<and> Severity_Valid (iw_Severity i) \<and> Deployment_Valid (iw_Deployment i) \<and>
      pg_length (iw_DeploymentEvidence i) \<le> 512 \<and>
      (iw_Deployment i \<noteq> DeploymentUnknown \<or> iw_ArtifactScanID i = None \<and> iw_DeploymentEvidence i = []))"

fun insert_issue_members :: "nat \<Rightarrow> (string \<Rightarrow> uuid option) \<Rightarrow> Member list \<Rightarrow> Analysis \<Rightarrow> analysis_error + Analysis" where
  "insert_issue_members issueID ids [] an = Inr an"
| "insert_issue_members issueID ids (m # ms) an =
     (case ids (m_Fingerprint m) of
        None \<Rightarrow> insert_issue_members issueID ids ms an
      | Some fid \<Rightarrow>
          if blank_text (m_Evidence m) then Inl AnalysisConstraint
          else if list_ex (\<lambda>x. mw_Issue x = issueID \<and> mw_Finding x = fid) (an_members an)
          then insert_issue_members issueID ids ms an
          else insert_issue_members issueID ids ms
            (an\<lparr>an_members := an_members an @ [\<lparr>mw_Issue = issueID, mw_Finding = fid, mw_Evidence = m_Evidence m\<rparr>]\<rparr>))"

definition issue_row :: "nat \<Rightarrow> string \<Rightarrow> Issue \<Rightarrow> IssueRow" where
  "issue_row issueID projectID issue =
     \<lparr>iw_ID = issueID, iw_Project = projectID, iw_Key = i_Key issue, iw_Severity = i_Severity issue,
      iw_Escalated = i_Escalated issue, iw_Categories = i_Categories issue, iw_Explanation = i_Explanation issue,
      iw_Deployment = i_Deployment issue, iw_DeploymentEvidence = i_DeploymentEvidence issue,
      iw_ArtifactScanID = nullableID (i_ArtifactScanID issue)\<rparr>"

definition insertIssue :: "string \<Rightarrow> (string \<Rightarrow> uuid option) \<Rightarrow> Issue \<Rightarrow> Analysis \<Rightarrow> analysis_error + Analysis" where
  "insertIssue projectID ids issue an =
     (let row = issue_row (an_next an) projectID issue in
      if \<not> issue_checks row \<or> list_ex (\<lambda>i. iw_Project i = projectID \<and> iw_Key i = i_Key issue) (an_issues an)
      then Inl AnalysisConstraint
      else insert_issue_members (an_next an) ids (i_Members issue)
        (an\<lparr>an_issues := an_issues an @ [row], an_next := an_next an + 1\<rparr>))"

fun insert_issues :: "string \<Rightarrow> (string \<Rightarrow> uuid option) \<Rightarrow> Issue list \<Rightarrow> Analysis \<Rightarrow> analysis_error + Analysis" where
  "insert_issues projectID ids [] an = Inr an"
| "insert_issues projectID ids (i # rest) an =
     (case insertIssue projectID ids i an of Inl e \<Rightarrow> Inl e | Inr an \<Rightarrow> insert_issues projectID ids rest an)"

definition ReplaceCorrelation :: "string \<Rightarrow> CResult \<Rightarrow> DB \<Rightarrow> Analysis \<Rightarrow> analysis_error + Analysis" where
  "ReplaceCorrelation projectID result db an =
     (let ids = findingIDs projectID db in
      case insert_links ids (Links result) (clearCorrelation projectID db an) of
        Inl e \<Rightarrow> Inl e
      | Inr an \<Rightarrow> insert_issues projectID ids (Issues result) an)"

record IssueMemberRecord =
  im_FindingID :: uuid
  im_Fingerprint :: string
  im_Scanner :: string
  im_Severity :: Severity
  im_Title :: string
  im_Evidence :: string

record IssueRecord =
  ir_ID :: nat
  ir_Key :: Key
  ir_Severity :: Severity
  ir_Escalated :: bool
  ir_Categories :: "string list"
  ir_Explanation :: string
  ir_Deployment :: Deployment
  ir_DeploymentEvidence :: string
  ir_ArtifactScanID :: string
  ir_Members :: "IssueMemberRecord list"

text \<open>The join of the members with their findings, in fingerprint order.\<close>

definition issueMembers :: "nat \<Rightarrow> DB \<Rightarrow> Analysis \<Rightarrow> IssueMemberRecord list" where
  "issueMembers issueID db an =
     sort_key im_Fingerprint (List.map_filter (\<lambda>m.
       map_option (\<lambda>r. \<lparr>im_FindingID = mw_Finding m, im_Fingerprint = Fingerprint (fw_Finding r),
           im_Scanner = Scanner (fw_Finding r), im_Severity = Sev (fw_Finding r),
           im_Title = Title (fw_Finding r), im_Evidence = mw_Evidence m\<rparr>)
         (List.find (\<lambda>r. fw_ID r = mw_Finding m) (db_findings db)))
       (filter (\<lambda>m. mw_Issue m = issueID) (an_members an)))"

definition issue_record :: "DB \<Rightarrow> Analysis \<Rightarrow> IssueRow \<Rightarrow> IssueRecord" where
  "issue_record db an i =
     \<lparr>ir_ID = iw_ID i, ir_Key = iw_Key i, ir_Severity = iw_Severity i, ir_Escalated = iw_Escalated i,
      ir_Categories = iw_Categories i, ir_Explanation = iw_Explanation i, ir_Deployment = iw_Deployment i,
      ir_DeploymentEvidence = iw_DeploymentEvidence i,
      ir_ArtifactScanID = (case iw_ArtifactScanID i of None \<Rightarrow> [] | Some a \<Rightarrow> a),
      ir_Members = issueMembers (iw_ID i) db an\<rparr>"

definition project_issues :: "string \<Rightarrow> Analysis \<Rightarrow> IssueRow list" where
  "project_issues projectID an =
     sort_key (\<lambda>i. (- severity_case (iw_Severity i), Kind (iw_Key i), KeyValue (iw_Key i)))
       (filter (\<lambda>i. iw_Project i = projectID) (an_issues an))"

definition ListIssues :: "string \<Rightarrow> FindingPage \<Rightarrow> DB \<Rightarrow> Analysis \<Rightarrow> IssueRecord list \<times> bool" where
  "ListIssues projectID page db an =
     (let page = page_normalize page in
      apfst (map (issue_record db an))
        (cut_page (nat (fp_Limit page)) (nat (fp_Offset page)) (project_issues projectID an)))"

section \<open>Risk\<close>

text \<open>The worst issue of a finding; of several with the same severity the query may pick any.\<close>

definition worst_issue :: "uuid \<Rightarrow> Analysis \<Rightarrow> IssueRow option" where
  "worst_issue fid an =
     (case sort_key (\<lambda>i. - severity_case (iw_Severity i))
        (filter (\<lambda>i. list_ex (\<lambda>m. mw_Issue m = iw_ID i \<and> mw_Finding m = fid) (an_members an)) (an_issues an)) of
        [] \<Rightarrow> None | i # _ \<Rightarrow> Some i)"

definition risk_subject :: "string \<Rightarrow> DB \<Rightarrow> Analysis \<Rightarrow> FindingRow \<Rightarrow> RiskSubject" where
  "risk_subject projectID db an r =
     (let f = fw_Finding r; worst = worst_issue (fw_ID r) an in
      \<lparr>rs_Finding = zero_Finding\<lparr>Fingerprint := Fingerprint f, ProjectID := projectID, Scanner := Scanner f,
         Category := Category f, Sev := Sev f, Conf := Conf f, FStatus := FStatus f, Title := Title f,
         CVE := CVE f, Package := Package f, PackageVersion := PackageVersion f, PURL := PURL f,
         Threat := (case Threat_EPSS (Threat f) of
             Some e \<Rightarrow> if EPSS_Source e \<noteq> [] then Threat f else \<lparr>Threat_EPSS = None\<rparr>
           | None \<Rightarrow> \<lparr>Threat_EPSS = None\<rparr>),
         FixInfo := FixInfo f\<rparr>,
       rs_Sources = sort (remdups (map oc_Scanner (filter (\<lambda>oc. oc_Finding oc = fw_ID r) (db_occurrences db)))),
       rs_IssueSeverity = (case worst of None \<Rightarrow> [] | Some i \<Rightarrow> iw_Severity i),
       rs_IssueKey = (case worst of None \<Rightarrow> [] | Some i \<Rightarrow> Key_String (iw_Key i))\<rparr>)"

definition LoadRiskInputs :: "string \<Rightarrow> 'a ProjectDB_scheme \<Rightarrow> DB \<Rightarrow> Analysis \<Rightarrow>
    analysis_error + RiskSubject list \<times> RiskContext" where
  "LoadRiskInputs projectID pdb db an =
     (case find_project projectID pdb of
        None \<Rightarrow> Inl RiskProjectNotFound
      | Some p \<Rightarrow>
          Inr (map (risk_subject projectID db an)
              (sort_key (\<lambda>r. Fingerprint (fw_Finding r)) (filter (\<lambda>r. fw_Project r = projectID) (db_findings db))),
            \<lparr>ctx_Environment = pw_Environment p, ctx_Criticality = pw_Criticality p,
             ctx_InternetFacing = pw_InternetFacing p\<rparr>))"

text \<open>A column \<open>numeric(p, d)\<close> keeps \<open>d\<close> decimals, rounding halves away from zero.\<close>

definition pg_numeric :: "nat \<Rightarrow> real \<Rightarrow> real" where
  "pg_numeric d x = sgn x * of_int \<lfloor>\<bar>x\<bar> * 10 ^ d + 1 / 2\<rfloor> / 10 ^ d"

text \<open>
  The column \<open>total numeric(16, 4)\<close>: it holds NaN, which compares above every number, but no infinity
  and nothing from \<open>10 ^ 12\<close> on.
\<close>

fun total_column :: "float64 \<Rightarrow> float64 option" where
  "total_column (Fin x) = (let r = pg_numeric 4 x in if \<bar>r\<bar> < 10 ^ 12 then Some (Fin r) else None)"
| "total_column NaN = Some NaN"
| "total_column _ = None"

definition score_checks :: "ScoreRow \<Rightarrow> bool" where
  "score_checks s = (0 \<le> sk_Score s \<and> sk_Score s \<le> 100 \<and> \<not> fless (sk_Total s) (Fin 0) \<and>
     \<not> blank_text (sk_Digest s))"

definition SaveRiskScore :: "string \<Rightarrow> string \<Rightarrow> Assessment \<Rightarrow> string \<Rightarrow> time \<Rightarrow> Analysis \<Rightarrow> analysis_error + Analysis" where
  "SaveRiskScore projectID scanID a weightsDigest at_time an =
     (case total_column (a_Total a) of None \<Rightarrow> Inl AnalysisConstraint | Some sum_total \<Rightarrow>
      let row = \<lparr>sk_Scan = scanID, sk_Project = projectID, sk_Score = pg_numeric 2 (a_Score a),
            sk_Total = sum_total, sk_Live = a_Live a, sk_Dismissed = a_Dismissed a,
            sk_Digest = weightsDigest, sk_At = at_time\<rparr>
      in if \<not> score_checks row \<or> map_of (an_scans an) scanID = None then Inl AnalysisConstraint
         else if list_ex (\<lambda>s. sk_Scan s = scanID) (an_scores an)
         then Inr (an\<lparr>an_scores := map (\<lambda>s. if sk_Scan s = scanID then row\<lparr>sk_Project := sk_Project s\<rparr> else s)
                (an_scores an)\<rparr>)
         else Inr (an\<lparr>an_scores := an_scores an @ [row]\<rparr>))"

record RiskRecord =
  kr_ScanID :: string
  kr_ProjectID :: string
  kr_Score :: real
  kr_Total :: float64
  kr_Live :: nat
  kr_Dismissed :: nat
  kr_Digest :: string
  kr_ComputedAt :: time
  kr_ScanStatus :: string

definition risk_rows :: "string \<Rightarrow> Analysis \<Rightarrow> RiskRecord list" where
  "risk_rows projectID an =
     List.map_filter (\<lambda>s. map_option (\<lambda>st.
         \<lparr>kr_ScanID = sk_Scan s, kr_ProjectID = sk_Project s, kr_Score = sk_Score s, kr_Total = sk_Total s,
          kr_Live = sk_Live s, kr_Dismissed = sk_Dismissed s, kr_Digest = sk_Digest s,
          kr_ComputedAt = sk_At s, kr_ScanStatus = st\<rparr>) (map_of (an_scans an) (sk_Scan s)))
       (sort_key (\<lambda>s. - sk_At s) (filter (\<lambda>s. sk_Project s = projectID) (an_scores an)))"

definition LatestRiskScore :: "string \<Rightarrow> Analysis \<Rightarrow> analysis_error + RiskRecord" where
  "LatestRiskScore projectID an = (case risk_rows projectID an of [] \<Rightarrow> Inl NoRiskScore | r # _ \<Rightarrow> Inr r)"

definition RiskHistory :: "string \<Rightarrow> int \<Rightarrow> Analysis \<Rightarrow> RiskRecord list" where
  "RiskHistory projectID limit an =
     (let limit = (if limit \<le> 0 \<or> limit > 200 then 50 else limit) in take (nat limit) (risk_rows projectID an))"

section \<open>Specification vocabulary\<close>

text \<open>A link as it was computed, the row it is stored as, and the row as a reader sees it.\<close>

definition link_row :: "(string \<Rightarrow> uuid option) \<Rightarrow> Link \<Rightarrow> LinkRow" where
  "link_row ids l = \<lparr>lw_From = the (ids (l_From l)), lw_To = the (ids (l_To l)), lw_Relationship = l_Relationship l,
     lw_Confidence = l_Confidence l, lw_Evidence = l_Evidence l\<rparr>"

definition fingerprint_of :: "DB \<Rightarrow> uuid \<Rightarrow> string option" where
  "fingerprint_of db fid = map_option (\<lambda>r. Fingerprint (fw_Finding r)) (List.find (\<lambda>r. fw_ID r = fid) (db_findings db))"

definition stored_link :: "DB \<Rightarrow> LinkRow \<Rightarrow> string option \<times> string option \<times> Relationship \<times> Confidence \<times> string" where
  "stored_link db l = (fingerprint_of db (lw_From l), fingerprint_of db (lw_To l), lw_Relationship l, lw_Confidence l,
     lw_Evidence l)"

definition computed_link :: "Link \<Rightarrow> string option \<times> string option \<times> Relationship \<times> Confidence \<times> string" where
  "computed_link l = (Some (l_From l), Some (l_To l), l_Relationship l, l_Confidence l, l_Evidence l)"

text \<open>The links that start at a finding of the project, and all the others.\<close>

definition project_links :: "string \<Rightarrow> DB \<Rightarrow> Analysis \<Rightarrow> LinkRow list" where
  "project_links pid db an = filter (\<lambda>l. project_of_finding db (lw_From l) = Some pid) (an_links an)"

definition foreign_links :: "string \<Rightarrow> DB \<Rightarrow> Analysis \<Rightarrow> LinkRow list" where
  "foreign_links pid db an = filter (\<lambda>l. project_of_finding db (lw_From l) \<noteq> Some pid) (an_links an)"

definition links_fit :: "(string \<Rightarrow> uuid option) \<Rightarrow> Link list \<Rightarrow> bool" where
  "links_fit ids ls \<longleftrightarrow>
     (\<forall>l \<in> set ls. ids (l_From l) \<noteq> None \<and> ids (l_To l) \<noteq> None \<and> link_checks (link_row ids l)) \<and>
     distinct (map (\<lambda>l. (ids (l_From l), ids (l_To l))) ls)"

text \<open>The identifiers of the derived tables are consistent.\<close>

definition analysis_ok :: "Analysis \<Rightarrow> bool" where
  "analysis_ok an \<longleftrightarrow> distinct (map iw_ID (an_issues an)) \<and> (\<forall>i \<in> set (an_issues an). iw_ID i < an_next an) \<and>
     (\<forall>m \<in> set (an_members an). mw_Issue m \<in> iw_ID ` set (an_issues an)) \<and>
     distinct (map (\<lambda>i. (iw_Project i, iw_Key i)) (an_issues an))"

text \<open>An issue as it was computed, and as it is read.\<close>

definition computed_view :: "Issue \<Rightarrow> (Key \<times> Severity \<times> bool \<times> string list \<times> string) \<times> (Deployment \<times> string \<times> string) \<times>
    (string \<times> string) list" where
  "computed_view i = ((i_Key i, i_Severity i, i_Escalated i, i_Categories i, i_Explanation i),
     (i_Deployment i, i_DeploymentEvidence i, i_ArtifactScanID i),
     map (\<lambda>m. (m_Fingerprint m, m_Evidence m)) (i_Members i))"

definition stored_view :: "IssueRecord \<Rightarrow> (Key \<times> Severity \<times> bool \<times> string list \<times> string) \<times> (Deployment \<times> string \<times> string) \<times>
    (string \<times> string) list" where
  "stored_view r = ((ir_Key r, ir_Severity r, ir_Escalated r, ir_Categories r, ir_Explanation r),
     (ir_Deployment r, ir_DeploymentEvidence r, ir_ArtifactScanID r),
     map (\<lambda>m. (im_Fingerprint m, im_Evidence m)) (ir_Members r))"

definition member_rows :: "nat \<Rightarrow> (string \<Rightarrow> uuid option) \<Rightarrow> Member list \<Rightarrow> MemberRow list" where
  "member_rows k ids ms = List.map_filter (\<lambda>m.
     map_option (\<lambda>f. \<lparr>mw_Issue = k, mw_Finding = f, mw_Evidence = m_Evidence m\<rparr>) (ids (m_Fingerprint m))) ms"

text \<open>What the tables ask of an issue, whatever its identifier, and of its members.\<close>

definition storable :: "(string \<Rightarrow> uuid option) \<Rightarrow> string \<Rightarrow> Issue \<Rightarrow> bool" where
  "storable ids projectID i \<longleftrightarrow> (\<forall>n. issue_checks (issue_row n projectID i)) \<and>
     (\<forall>m \<in> set (i_Members i). \<not> blank_text (m_Evidence m) \<and> ids (m_Fingerprint m) \<noteq> None) \<and>
     distinct (map (\<lambda>m. ids (m_Fingerprint m)) (i_Members i))"

text \<open>Two findings of a project that name one vulnerability, and empty derived tables.\<close>

definition pair_row :: "uuid \<Rightarrow> string \<Rightarrow> string \<Rightarrow> Category \<Rightarrow> FindingRow" where
  "pair_row n fp sc cat = \<lparr>fw_ID = n, fw_Project = ''p'',
     fw_Finding = zero_Finding\<lparr>Fingerprint := fp, Scanner := sc, Category := cat, Sev := SeverityHigh,
       Conf := ConfidenceHigh, Title := ''finding'', CVE := ''CVE-1'', FStatus := StatusOpen\<rparr>,
     fw_FirstSeen = 5, fw_LastSeen = 5\<rparr>"

definition pair_db :: DB where
  "pair_db = (empty_db [])\<lparr>db_findings := [pair_row 0 ''a'' ''trivy'' CategoryDependency, pair_row 1 ''b'' ''semgrep'' CategorySAST],
     db_history := [\<lparr>h_Finding = 0, h_From = None, h_To = StatusOpen, h_Actor = ActorSystem, h_Reason = ReasonFirstSeen,
         h_Note = None, h_Scan = None, h_ChangedAt = 5\<rparr>,
       \<lparr>h_Finding = 1, h_From = None, h_To = StatusOpen, h_Actor = ActorSystem, h_Reason = ReasonFirstSeen,
         h_Note = None, h_Scan = None, h_ChangedAt = 5\<rparr>], db_next := 2\<rparr>"

definition empty_analysis :: Analysis where
  "empty_analysis = \<lparr>an_issues = [], an_members = [], an_links = [], an_scores = [], an_scans = [(''s1'', ''completed'')], an_next = 0\<rparr>"

definition sample_assessment :: Assessment where
  "sample_assessment = \<lparr>a_Score = 12, a_Total = Fin 3, a_Findings = [], a_Live = 2, a_Dismissed = 1\<rparr>"

section \<open>Listings\<close>

lemma severity_case_rank: "severity_case s = int (Severity_Rank s)"
  by (simp add: severity_case_def Severity_Rank_def)

lemma cut_page_eq:
  "cut_page limit offset rows = (take limit (drop offset rows), offset + limit < length rows)"
  by (auto simp: cut_page_def Let_def)

lemma page_normalize_id:
  "0 < fp_Limit p \<Longrightarrow> fp_Limit p \<le> 200 \<Longrightarrow> 0 \<le> fp_Offset p \<Longrightarrow> page_normalize p = p"
  by (simp add: page_normalize_def)

lemma page_normalize_bounds:
  "0 < fp_Limit (page_normalize p) \<and> fp_Limit (page_normalize p) \<le> 200 \<and> 0 \<le> fp_Offset (page_normalize p)"
  by (simp add: page_normalize_def Let_def)

section \<open>Inserting a correlation\<close>

lemma insert_issue_members_ok:
  assumes "\<forall>m \<in> set ms. \<not> blank_text (m_Evidence m) \<and> ids (m_Fingerprint m) \<noteq> None"
    and "distinct (map (\<lambda>m. ids (m_Fingerprint m)) ms)"
    and "\<forall>x \<in> set (an_members an). mw_Issue x = k \<longrightarrow> Some (mw_Finding x) \<notin> (\<lambda>m. ids (m_Fingerprint m)) ` set ms"
  shows "insert_issue_members k ids ms an = Inr (an\<lparr>an_members := an_members an @ member_rows k ids ms\<rparr>)"
  using assms
proof (induction ms arbitrary: an)
  case Nil
  then show ?case by (simp add: member_rows_def List.map_filter_simps)
next
  case (Cons m ms)
  obtain f where f: "ids (m_Fingerprint m) = Some f" using Cons.prems(1) by auto
  let ?row = "\<lparr>mw_Issue = k, mw_Finding = f, mw_Evidence = m_Evidence m\<rparr>"
  let ?an = "an\<lparr>an_members := an_members an @ [?row]\<rparr>"
  have new: "\<not> list_ex (\<lambda>x. mw_Issue x = k \<and> mw_Finding x = f) (an_members an)"
    using Cons.prems(3) f by (auto simp: list_ex_iff)
  have "insert_issue_members k ids ms ?an = Inr (?an\<lparr>an_members := an_members ?an @ member_rows k ids ms\<rparr>)"
  proof (rule Cons.IH)
    show "\<forall>m \<in> set ms. \<not> blank_text (m_Evidence m) \<and> ids (m_Fingerprint m) \<noteq> None" using Cons.prems(1) by simp
    show "distinct (map (\<lambda>m. ids (m_Fingerprint m)) ms)" using Cons.prems(2) by simp
    have "Some f \<notin> (\<lambda>m. ids (m_Fingerprint m)) ` set ms" using Cons.prems(2) f by (simp add: image_iff)
    then show "\<forall>x \<in> set (an_members ?an). mw_Issue x = k \<longrightarrow> Some (mw_Finding x) \<notin> (\<lambda>m. ids (m_Fingerprint m)) ` set ms"
      using Cons.prems(3) by auto
  qed
  then show ?case using f new Cons.prems(1) by (simp add: member_rows_def List.map_filter_simps)
qed

lemma insert_issues_ok:
  assumes "\<forall>i \<in> set is'. storable ids pid i" "distinct (map i_Key is')"
    and "\<forall>x \<in> set (an_issues an). iw_Project x = pid \<longrightarrow> iw_Key x \<notin> i_Key ` set is'"
    and "\<forall>m \<in> set (an_members an). mw_Issue m < an_next an"
  shows "insert_issues pid ids is' an = Inr (an\<lparr>an_issues := an_issues an @ map (\<lambda>(n, i). issue_row n pid i) (enumerate (an_next an) is'),
     an_members := an_members an @ concat (map (\<lambda>(n, i). member_rows n ids (i_Members i)) (enumerate (an_next an) is')),
     an_next := an_next an + length is'\<rparr>)"
  using assms
proof (induction is' arbitrary: an)
  case (Cons i is')
  let ?row = "issue_row (an_next an) pid i"
  let ?an = "an\<lparr>an_issues := an_issues an @ [?row], an_next := an_next an + 1\<rparr>"
  let ?an' = "?an\<lparr>an_members := an_members an @ member_rows (an_next an) ids (i_Members i)\<rparr>"
  have st: "storable ids pid i" using Cons.prems(1) by simp
  have new: "\<not> list_ex (\<lambda>x. iw_Project x = pid \<and> iw_Key x = i_Key i) (an_issues an)"
    using Cons.prems(3) by (auto simp: list_ex_iff)
  have "insert_issue_members (an_next an) ids (i_Members i) ?an = Inr (?an\<lparr>an_members := an_members ?an @ member_rows (an_next an) ids (i_Members i)\<rparr>)"
    by (rule insert_issue_members_ok) (use st Cons.prems(4) in \<open>auto simp: storable_def\<close>)
  then have one: "insertIssue pid ids i an = Inr ?an'"
    using st new by (simp add: insertIssue_def storable_def)
  have rows: "mw_Issue x = an_next an" if "x \<in> set (member_rows (an_next an) ids (i_Members i))" for x
    using that by (auto simp: member_rows_def List.map_filter_def)
  have "insert_issues pid ids is' ?an' = Inr (?an'\<lparr>an_issues := an_issues ?an' @ map (\<lambda>(n, i). issue_row n pid i) (enumerate (an_next ?an') is'),
     an_members := an_members ?an' @ concat (map (\<lambda>(n, i). member_rows n ids (i_Members i)) (enumerate (an_next ?an') is')),
     an_next := an_next ?an' + length is'\<rparr>)"
  proof (rule Cons.IH)
    show "\<forall>i \<in> set is'. storable ids pid i" "distinct (map i_Key is')" using Cons.prems(1,2) by simp_all
    show "\<forall>x \<in> set (an_issues ?an'). iw_Project x = pid \<longrightarrow> iw_Key x \<notin> i_Key ` set is'"
      using Cons.prems(2,3) by (auto simp: issue_row_def)
    show "\<forall>m \<in> set (an_members ?an'). mw_Issue m < an_next ?an'"
      using Cons.prems(4) rows by (auto simp: less_Suc_eq)
  qed
  then show ?case using one by (simp add: add.commute)
qed simp

lemma insert_links_ok:
  assumes "links_fit ids ls" "\<forall>l \<in> set ls. \<forall>x \<in> set (an_links an). Some (lw_From x) \<noteq> ids (l_From l)"
  shows "insert_links ids ls an = Inr (an\<lparr>an_links := an_links an @ map (link_row ids) ls\<rparr>)"
proof -
  have "insert_links ids ls an = Inr (an\<lparr>an_links := an_links an @ map (link_row ids) ls\<rparr>)"
    if "links_fit ids ls" "\<forall>l \<in> set ls. \<forall>x \<in> set (an_links an). (Some (lw_From x), Some (lw_To x)) \<noteq> (ids (l_From l), ids (l_To l))"
    using that
  proof (induction ls arbitrary: an)
    case (Cons l ls)
    obtain a b where ab: "ids (l_From l) = Some a" "ids (l_To l) = Some b" using Cons.prems(1) by (auto simp: links_fit_def)
    have "link_checks (link_row ids l)" using Cons.prems(1) by (simp add: links_fit_def)
    moreover have "\<not> list_ex (\<lambda>x. lw_From x = a \<and> lw_To x = b \<and> lw_Relationship x = l_Relationship l) (an_links an)"
      using Cons.prems(2) ab by (auto simp: list_ex_iff)
    ultimately have one: "insertLink a b l an = Inr (an\<lparr>an_links := an_links an @ [link_row ids l]\<rparr>)"
      by (simp add: insertLink_def link_row_def ab)
    have "insert_links ids ls (an\<lparr>an_links := an_links an @ [link_row ids l]\<rparr>) =
        Inr (an\<lparr>an_links := an_links an @ link_row ids l # map (link_row ids) ls\<rparr>)"
      using Cons.prems ab by (subst Cons.IH) (auto simp: links_fit_def link_row_def image_iff)
    then show ?case by (simp add: ab one)
  qed simp
  then show ?thesis using assms by blast
qed

section \<open>The engine's result is storable\<close>

lemma project_fingerprints:
  assumes "store_ok db"
  shows "distinct (map (\<lambda>r. Fingerprint (fw_Finding r)) (filter (\<lambda>r. fw_Project r = pid) (db_findings db)))"
proof -
  have "inj_on (\<lambda>r. (fw_Project r, Fingerprint (fw_Finding r))) (set (db_findings db))" "distinct (db_findings db)"
    using assms by (simp_all add: store_ok_def distinct_map)
  then show ?thesis by (auto simp: distinct_map inj_on_def)
qed

lemma findingIDs_row:
  assumes "store_ok db" "r \<in> set (db_findings db)"
  shows "findingIDs (fw_Project r) db (Fingerprint (fw_Finding r)) = Some (fw_ID r)"
proof -
  have "map fst (rev (map (\<lambda>r. (Fingerprint (fw_Finding r), fw_ID r)) (filter (\<lambda>x. fw_Project x = fw_Project r) (db_findings db)))) =
      rev (map (\<lambda>r. Fingerprint (fw_Finding r)) (filter (\<lambda>x. fw_Project x = fw_Project r) (db_findings db)))"
    by (simp add: rev_map o_def)
  then show ?thesis
    using project_fingerprints [OF assms(1), of "fw_Project r"] assms(2)
    unfolding findingIDs_def by (intro map_of_is_SomeI) (simp_all add: image_iff Bex_def, metis)
qed

lemma findingIDs_Some:
  "findingIDs pid db fp = Some k \<Longrightarrow> \<exists>r \<in> set (db_findings db). fw_ID r = k \<and> fw_Project r = pid \<and> Fingerprint (fw_Finding r) = fp"
  by (auto simp: findingIDs_def dest!: map_of_SomeD)

lemma findingIDs_inj:
  assumes "store_ok db" "findingIDs pid db a = Some k" "findingIDs pid db b = Some k"
  shows "a = b"
proof -
  have "inj_on fw_ID (set (db_findings db))" using assms(1) by (simp add: store_ok_def distinct_map)
  with findingIDs_Some [OF assms(2)] findingIDs_Some [OF assms(3)] show ?thesis by (auto dest: inj_onD)
qed

lemma find_row:
  assumes "store_ok db" "r \<in> set (db_findings db)"
  shows "List.find (\<lambda>x. fw_ID x = fw_ID r) (db_findings db) = Some r"
proof -
  have "inj_on fw_ID (set (db_findings db))" using assms(1) by (simp add: store_ok_def distinct_map)
  moreover obtain x where "List.find (\<lambda>x. fw_ID x = fw_ID r) (db_findings db) = Some x"
    using assms(2) by (cases "List.find (\<lambda>x. fw_ID x = fw_ID r) (db_findings db)") (auto simp: find_None_iff)
  ultimately show ?thesis using assms(2) by (auto simp: find_Some_iff dest: inj_onD)
qed

lemma subject_row:
  "s \<in> set (ListLiveForCorrelation pid db) \<Longrightarrow>
   \<exists>r \<in> set (db_findings db). fw_Project r = pid \<and> Fingerprint (fw_Finding r) = c_Fingerprint s"
  by (auto simp: ListLiveForCorrelation_def live_rows_def correlation_subject_def Let_def)

lemma subjects_distinct:
  assumes "store_ok db"
  shows "distinct (map c_Fingerprint (ListLiveForCorrelation pid db))"
proof -
  let ?rows = "filter (\<lambda>r. fw_Project r = pid \<and> FStatus (fw_Finding r) \<in> set liveStatuses) (db_findings db)"
  have eq: "map c_Fingerprint (ListLiveForCorrelation pid db) = map (\<lambda>r. Fingerprint (fw_Finding r)) (live_rows pid db)"
    by (simp add: ListLiveForCorrelation_def correlation_subject_def Let_def o_def)
  have "distinct (db_findings db)" using assms by (simp add: store_ok_def distinct_map)
  then have "distinct (map (\<lambda>r. Fingerprint (fw_Finding r)) ?rows)"
    using project_fingerprints [OF assms, of pid] by (auto simp: distinct_map inj_on_def)
  moreover have "mset (map (\<lambda>r. Fingerprint (fw_Finding r)) (live_rows pid db)) = mset (map (\<lambda>r. Fingerprint (fw_Finding r)) ?rows)"
    by (simp add: live_rows_def)
  ultimately show ?thesis unfolding eq using mset_eq_imp_distinct_iff by blast
qed

lemma subject_id: "store_ok db \<Longrightarrow> s \<in> set (ListLiveForCorrelation pid db) \<Longrightarrow> findingIDs pid db (c_Fingerprint s) \<noteq> None"
  using subject_row findingIDs_row by fastforce

lemma formIssue_rest:
  assumes "formIssue k ms a = Some i"
  shows "i_Members i = map (\<lambda>m. \<lparr>m_Fingerprint = c_Fingerprint m, m_Scanner = Scanner (c_Finding m),
        m_Severity = Sev (c_Finding m), m_Evidence = membershipEvidence k m\<rparr>) ms"
    "i_DeploymentEvidence i = deploymentEvidence (i_Deployment i) a"
    "i_ArtifactScanID i = (if i_Deployment i \<noteq> DeploymentUnknown then InvScanID a else [])"
    "\<exists>j. i_Explanation i = explain_issue k j"
  using assms by (auto simp: formIssue_def Let_def split: if_splits prod.splits)

lemma texts_not_blank:
  "\<not> blank_text (membershipEvidence k m)" "\<not> blank_text (explain_issue k j)"
  "linkFor k a b = Some l \<Longrightarrow> \<not> blank_text (l_Evidence l)"
  by (auto simp: blank_text_def membershipEvidence_def explain_issue_def linkFor_def Let_def split: if_splits)

lemma issue_severity_valid: "Severity_Valid (fst (issueSeverity ms cs))"
proof -
  have "snd (escalate w) \<Longrightarrow> Severity_Valid (fst (escalate w))" for w
    by (auto simp: escalate_def Severity_Valid_def split: if_splits)
  then show ?thesis by (simp add: issueSeverity_cases worst_severity_valid)
qed

text \<open>A trimmed text that is not empty is not blank; so only a location can give a blank key.\<close>

lemma TrimSpace_not_blank: "TrimSpace v \<noteq> [] \<Longrightarrow> \<not> blank_text (TrimSpace v)"
proof
  assume ne: "TrimSpace v \<noteq> []" and blank: "blank_text (TrimSpace v)"
  have all: "strip_front ps s = []" if "blank_text s" and space: "[CHR '' ''] \<in> set ps" for ps s
    using that(1)
  proof (induction s rule: length_induct)
    case (1 s)
    show ?case
    proof (cases s)
      case Nil
      then show ?thesis by (subst strip_front.simps) (auto split: option.split simp: find_Some_iff)
    next
      case (Cons c cs)
      have "prefix [CHR '' ''] s" using 1(2) Cons by (simp add: blank_text_def)
      then obtain p where p: "List.find (\<lambda>p. p \<noteq> [] \<and> prefix p s) ps = Some p"
        using space by (cases "List.find (\<lambda>p. p \<noteq> [] \<and> prefix p s) ps") (auto simp: find_None_iff)
      then have "p \<noteq> []" by (auto simp: find_Some_iff)
      then have "length (drop (length p) s) < length s" using Cons by simp
      moreover have "blank_text (drop (length p) s)" using 1(2) by (auto simp: blank_text_def list_all_iff dest: in_set_dropD)
      ultimately have "strip_front ps (drop (length p) s) = []" using 1(1) by blast
      then show ?thesis by (subst strip_front.simps) (simp add: p)
    qed
  qed
  have "TrimSpace (TrimSpace v) = TrimSpace v" by (rule TrimSpace_idem)
  moreover have "TrimLeftSpace (TrimSpace v) = []"
    unfolding TrimLeftSpace_def by (rule all [OF blank]) (simp add: space_runes_def)
  moreover have "TrimSpace w = []" if "TrimLeftSpace w = []" for w
    using that strip_front_suffix [of "map rev space_runes" "[]"] by (simp add: TrimSpace_def TrimRightSpace_def)
  ultimately show False using ne by metis
qed

lemma keys_not_blank:
  assumes "\<forall>s \<in> set ss. \<forall>f \<in> set (Files s). NormalizeLocation f = [] \<or> \<not> blank_text (NormalizeLocation f)"
  shows "\<forall>s \<in> set ss. \<forall>k \<in> set (keysOf s). \<not> blank_text (KeyValue k)"
  using assms TrimSpace_not_blank by (fastforce simp: keysOf_def Let_def split: if_splits)

text \<open>Such a location exists; the table refuses its key, and with it the whole correlation.\<close>

lemma blank_location_key: "NormalizeLocation ''a/../ /.'' = '' ''"
  by code_simp

lemma pg_length_append [simp]: "pg_length (a @ b) = pg_length a + pg_length b"
  by (simp add: pg_length_def)

lemma pg_length_le: "pg_length s \<le> length s"
  by (simp add: pg_length_def)

lemma evidence_short:
  assumes "length (format_date (ScannedAt a)) \<le> 300"
  shows "pg_length (deploymentEvidence d a) \<le> 512"
proof -
  have "length (deploymentEvidence d a) \<le> 200 + length (format_date (ScannedAt a))"
    by (simp add: deploymentEvidence_def)
  then show ?thesis using assms pg_length_le [of "deploymentEvidence d a"] by linarith
qed

lemma issues_storable:
  assumes ok: "store_ok db" and i: "i \<in> set (Issues (CorrelateWith L (ListLiveForCorrelation pid db) opts))"
    and keys: "\<forall>s \<in> set (ListLiveForCorrelation pid db). \<forall>k \<in> set (keysOf s). \<not> blank_text (KeyValue k)"
    and date: "length (format_date (ScannedAt (Artifact opts))) \<le> 300"
  shows "storable (findingIDs pid db) pid i"
proof -
  let ?ss = "ListLiveForCorrelation pid db"
  let ?ms = "bucket_of opts ?ss (i_Key i)"
  note f = issue_bucket [OF i]
  have mem: "s \<in> set ?ss \<and> i_Key i \<in> set (keysOf s)" if "s \<in> set ?ms" for s
    using that by (auto simp: bucket_of_def set_members_of dest!: in_set_takeD)
  obtain s where s: "s \<in> set ?ss" "i_Key i \<in> set (keysOf s)" using f(2) mem hd_in_set [of ?ms] by fastforce
  have checks: "issue_checks (issue_row n pid i)" for n
    using keysOf_kinds [OF s(2)] keys s formIssue_rest(4) [OF f(3)] texts_not_blank(2)
      issue_severity_valid [of ?ms "distinctCategories ?ms"] formIssue_Some(3) [OF f(3), symmetric]
      evidence_short [OF date] formIssue_rest(2,3) [OF f(3)] formIssue_Some(6) [OF f(3)]
    by (auto simp: issue_checks_def issue_row_def nullableID_def deploymentOf_def Deployment_Valid_def deploymentEvidence_def)
  have "distinct (map (findingIDs pid db) (map c_Fingerprint ?ms))"
  proof -
    have "sorted_wrt (<) (map c_Fingerprint ?ms)"
      using strict_members [OF subjects_distinct [OF ok]] by (simp add: sorted_wrt_map)
    then have "distinct (map c_Fingerprint ?ms)" by (simp add: strict_sorted_iff)
    moreover have "inj_on (findingIDs pid db) (set (map c_Fingerprint ?ms))"
      using mem subject_id [OF ok] findingIDs_inj [OF ok] by (auto simp: inj_on_def) (metis not_None_eq)
    ultimately show ?thesis by (simp only: distinct_map simp_thms)
  qed
  then show ?thesis
    using checks mem subject_id [OF ok] by (auto simp: storable_def formIssue_rest(1) [OF f(3)] texts_not_blank o_def)
qed

lemma link_values:
  assumes "linkFor k a b = Some l"
  shows "Relationship_Valid (l_Relationship l) \<and> Confidence_Valid (l_Confidence l) \<and> \<not> blank_text (l_Evidence l)"
proof -
  have "Relationship_Valid RelationRelated" "Relationship_Valid RelationLikelyDuplicate"
    "Confidence_Valid ConfidenceHigh" "Confidence_Valid ConfidenceMedium" "Confidence_Valid ConfidenceLow"
    by (simp_all add: Relationship_Valid_def Confidence_Valid_def)
  moreover have "l_Relationship l \<in> {RelationRelated, RelationLikelyDuplicate} \<and>
      l_Confidence l \<in> {ConfidenceHigh, ConfidenceMedium, ConfidenceLow}"
    using assms unfolding linkFor_def Let_def by (auto split: if_splits)
  ultimately show ?thesis using texts_not_blank(3) [OF assms] by auto
qed

lemma links_storable:
  assumes ok: "store_ok db" and l: "l \<in> set (Links (CorrelateWith L (ListLiveForCorrelation pid db) opts))"
  shows "findingIDs pid db (l_From l) \<noteq> None \<and> findingIDs pid db (l_To l) \<noteq> None \<and>
    link_checks (link_row (findingIDs pid db) l)"
proof -
  let ?ss = "ListLiveForCorrelation pid db"
  let ?c = "candidate_links opts ?ss"
  have all: "set (foldl linkSet_add s ls) \<subseteq> set s \<union> (\<lambda>l. (link_pair (direct l), direct l)) ` set ls" for s ls
  proof (induction ls arbitrary: s)
    case (Cons l ls)
    have "set (linkSet_add s l) \<subseteq> set s \<union> {(link_pair (direct l), direct l)}"
      using set_put [of "link_pair (direct l)" "direct l" s]
      by (auto simp: linkSet_add_def Let_def split: option.splits if_splits)
    with Cons [of "linkSet_add s l"] show ?case by auto
  qed simp
  obtain m where m: "m \<in> set ?c" "l = direct m"
    using l all [of "[]" ?c] by (auto simp: CorrelateWith_eq(3) linkSet_sorted_def)
  obtain k x y where k: "linkFor k x y = Some m" "c_Fingerprint x < c_Fingerprint y" "direct m = m"
    "x \<in> set ?ss" "y \<in> set ?ss" using candidate_links_sound [OF subjects_distinct [OF ok] m(1)] by blast
  obtain a b where ab: "findingIDs pid db (l_From l) = Some a" "findingIDs pid db (l_To l) = Some b"
    using subject_id [OF ok k(4)] subject_id [OF ok k(5)] linkFor_ends [OF k(1)] k(3) m(2) by auto
  have "l_From l < l_To l" using linkFor_ends [OF k(1)] k m(2) by simp
  then have "l_From l \<noteq> l_To l" by simp
  moreover have "l_From l = l_To l" if "a = b"
    using findingIDs_inj [OF ok ab(1)] ab(2) that by simp
  ultimately have "a \<noteq> b" by blast
  moreover have "Relationship_Valid (l_Relationship l) \<and> Confidence_Valid (l_Confidence l) \<and> \<not> blank_text (l_Evidence l)"
    using link_values [OF k(1)] k(3) m(2) by simp
  ultimately show ?thesis by (simp add: link_checks_def link_row_def ab)
qed

lemma computed_links_fit:
  assumes ok: "store_ok db"
  shows "links_fit (findingIDs pid db) (Links (CorrelateWith L (ListLiveForCorrelation pid db) opts))"
proof -
  let ?ls = "Links (CorrelateWith L (ListLiveForCorrelation pid db) opts)"
  have one: "findingIDs pid db (l_From l) \<noteq> None \<and> findingIDs pid db (l_To l) \<noteq> None \<and>
      link_checks (link_row (findingIDs pid db) l)" if "l \<in> set ?ls" for l
    by (rule links_storable [OF ok that])
  have "distinct (map link_pair ?ls)"
    unfolding CorrelateWith_eq(3) by (rule linkSet_sorted_pairs(2)) (simp add: linkSet_adds_ok)
  then have d: "distinct ?ls" "inj_on link_pair (set ?ls)" by (simp_all add: distinct_map)
  have "inj_on (\<lambda>l. (findingIDs pid db (l_From l), findingIDs pid db (l_To l))) (set ?ls)"
  proof (rule inj_onI)
    fix l m assume lm: "l \<in> set ?ls" "m \<in> set ?ls"
      and eq: "(findingIDs pid db (l_From l), findingIDs pid db (l_To l)) = (findingIDs pid db (l_From m), findingIDs pid db (l_To m))"
    obtain a b where ab: "findingIDs pid db (l_From l) = Some a" "findingIDs pid db (l_To l) = Some b"
      using one [OF lm(1)] by blast
    then have "findingIDs pid db (l_From m) = Some a" "findingIDs pid db (l_To m) = Some b" using eq by simp_all
    with ab have "l_From l = l_From m" "l_To l = l_To m" using findingIDs_inj [OF ok] by blast+
    then show "l = m" using d(2) lm by (auto dest: inj_onD)
  qed
  then have "distinct (map (\<lambda>l. (findingIDs pid db (l_From l), findingIDs pid db (l_To l))) ?ls)"
    using d(1) by (simp only: distinct_map simp_thms)
  then show ?thesis using one by (simp add: links_fit_def)
qed

section \<open>Reading a correlation back\<close>

lemma members_of_issue:
  "(n, i) \<in> set (enumerate n0 is') \<Longrightarrow>
   filter (\<lambda>x. mw_Issue x = n) (concat (map (\<lambda>(n, i). member_rows n ids (i_Members i)) (enumerate n0 is'))) =
   member_rows n ids (i_Members i)"
proof (induction is' arbitrary: n0)
  case (Cons j js)
  have own: "mw_Issue x = k" if "x \<in> set (member_rows k ids ms)" for x k ms
    using that by (auto simp: member_rows_def List.map_filter_def)
  have later: "mw_Issue x > n0" if "x \<in> set (concat (map (\<lambda>(n, i). member_rows n ids (i_Members i)) (enumerate (Suc n0) js)))" for x
    using that by (auto simp: in_set_enumerate_eq dest!: own)
  show ?case
  proof (cases "n = n0")
    case True
    then have "i = j" using Cons.prems by (auto simp: in_set_enumerate_eq)
    have "filter (\<lambda>x. mw_Issue x = n) (member_rows n0 ids (i_Members j)) = member_rows n0 ids (i_Members j)"
      by (rule filter_True) (use own True in auto)
    moreover have "filter (\<lambda>x. mw_Issue x = n) (concat (map (\<lambda>(n, i). member_rows n ids (i_Members i)) (enumerate (Suc n0) js))) = []"
      by (rule filter_False) (use later True in fastforce)
    ultimately show ?thesis using \<open>i = j\<close> True by simp
  next
    case False
    then have "(n, i) \<in> set (enumerate (Suc n0) js)" using Cons.prems by simp
    moreover have "filter (\<lambda>x. mw_Issue x = n) (member_rows n0 ids (i_Members j)) = []"
      by (rule filter_False) (use own False in fastforce)
    ultimately show ?thesis using Cons.IH by simp
  qed
qed simp

lemma read_members:
  assumes "store_ok db" "storable (findingIDs pid db) pid i" "sorted (map m_Fingerprint (i_Members i))"
    and "filter (\<lambda>x. mw_Issue x = n) (an_members an) = member_rows n (findingIDs pid db) (i_Members i)"
  shows "map (\<lambda>m. (im_Fingerprint m, im_Evidence m)) (issueMembers n db an) = map (\<lambda>m. (m_Fingerprint m, m_Evidence m)) (i_Members i)"
proof -
  let ?read = "\<lambda>m. map_option (\<lambda>r. \<lparr>im_FindingID = mw_Finding m, im_Fingerprint = Fingerprint (fw_Finding r),
           im_Scanner = Scanner (fw_Finding r), im_Severity = Sev (fw_Finding r),
           im_Title = Title (fw_Finding r), im_Evidence = mw_Evidence m\<rparr>)
         (List.find (\<lambda>r. fw_ID r = mw_Finding m) (db_findings db))"
  have known: "\<forall>m \<in> set ms. findingIDs pid db (m_Fingerprint m) \<noteq> None \<Longrightarrow>
      map (\<lambda>m. (im_Fingerprint m, im_Evidence m)) (List.map_filter ?read (member_rows n (findingIDs pid db) ms)) =
      map (\<lambda>m. (m_Fingerprint m, m_Evidence m)) ms" for ms
  proof (induction ms)
    case (Cons m ms)
    then obtain f where f: "findingIDs pid db (m_Fingerprint m) = Some f" by auto
    obtain r where r: "r \<in> set (db_findings db)" "fw_ID r = f" "Fingerprint (fw_Finding r) = m_Fingerprint m"
      using findingIDs_Some [OF f] by blast
    show ?case using Cons f r find_row [OF assms(1) r(1)] by (simp add: member_rows_def List.map_filter_simps)
  qed (simp add: member_rows_def List.map_filter_simps)
  let ?out = "List.map_filter ?read (member_rows n (findingIDs pid db) (i_Members i))"
  have eq: "map (\<lambda>m. (im_Fingerprint m, im_Evidence m)) ?out = map (\<lambda>m. (m_Fingerprint m, m_Evidence m)) (i_Members i)"
    by (rule known) (use assms(2) in \<open>simp add: storable_def\<close>)
  have "map im_Fingerprint ?out = map m_Fingerprint (i_Members i)" using arg_cong [OF eq, of "map fst"] by (simp add: o_def)
  then have "sort_key im_Fingerprint ?out = ?out" using assms(3) by (simp add: sort_key_id_if_sorted)
  then show ?thesis unfolding issueMembers_def assms(4) using eq by simp
qed

lemma computed_members_sorted:
  assumes "store_ok db" "i \<in> set (Issues (CorrelateWith L (ListLiveForCorrelation pid db) opts))"
  shows "sorted (map m_Fingerprint (i_Members i))"
proof -
  have "sorted_wrt (<) (map c_Fingerprint (bucket_of opts (ListLiveForCorrelation pid db) (i_Key i)))"
    using strict_members [OF subjects_distinct [OF assms(1)]] by (simp add: sorted_wrt_map)
  then show ?thesis
    by (simp add: formIssue_Some(4) [OF issue_bucket(3) [OF assms(2)]] strict_sorted_iff)
qed

lemma clear_ok:
  assumes "analysis_ok an"
  shows "analysis_ok (clearCorrelation pid db an)" "filter (\<lambda>i. iw_Project i = pid) (an_issues (clearCorrelation pid db an)) = []"
    "an_next (clearCorrelation pid db an) = an_next an"
proof -
  have "distinct (map iw_ID (filter (\<lambda>i. iw_Project i \<noteq> pid) (an_issues an)))"
    "distinct (map (\<lambda>i. (iw_Project i, iw_Key i)) (filter (\<lambda>i. iw_Project i \<noteq> pid) (an_issues an)))"
    using assms by (simp_all only: analysis_ok_def distinct_map_filter)
  moreover have "mw_Issue m \<in> iw_ID ` set (filter (\<lambda>i. iw_Project i \<noteq> pid) (an_issues an))"
    if "m \<in> set (an_members an)" "mw_Issue m \<notin> iw_ID ` set (filter (\<lambda>i. iw_Project i = pid) (an_issues an))" for m
    using assms that by (force simp: analysis_ok_def)
  ultimately show "analysis_ok (clearCorrelation pid db an)"
    using assms by (auto simp: clearCorrelation_def Let_def analysis_ok_def)
qed (auto simp: clearCorrelation_def Let_def filter_empty_conv)

lemma issue_row_sel [simp]:
  "iw_ID (issue_row n pid i) = n" "iw_Project (issue_row n pid i) = pid" "iw_Key (issue_row n pid i) = i_Key i"
  by (simp_all add: issue_row_def)

lemma numbered_rows:
  "map iw_ID (map (\<lambda>(n, i). issue_row n pid i) (enumerate n0 is')) = [n0..<n0 + length is']"
  "map (\<lambda>i. (iw_Project i, iw_Key i)) (map (\<lambda>(n, i). issue_row n pid i) (enumerate n0 is')) = map (\<lambda>i. (pid, i_Key i)) is'"
  "iw_ID ` set (map (\<lambda>(n, i). issue_row n pid i) (enumerate n0 is')) = {n0..<n0 + length is'}"
proof -
  show ids: "map iw_ID (map (\<lambda>(n, i). issue_row n pid i) (enumerate n0 is')) = [n0..<n0 + length is']"
    by (simp add: o_def case_prod_beta' map_fst_enumerate [symmetric] del: map_fst_enumerate)
  show "iw_ID ` set (map (\<lambda>(n, i). issue_row n pid i) (enumerate n0 is')) = {n0..<n0 + length is'}"
    using arg_cong [OF ids, of set] by (simp only: set_map set_upt)
  show "map (\<lambda>i. (iw_Project i, iw_Key i)) (map (\<lambda>(n, i). issue_row n pid i) (enumerate n0 is')) = map (\<lambda>i. (pid, i_Key i)) is'"
    by (induction is' arbitrary: n0) simp_all
qed

text \<open>The tables after a replacement that succeeds.\<close>

lemma findingIDs_project:
  assumes "store_ok db" "findingIDs pid db fp = Some fid"
  shows "project_of_finding db fid = Some pid" "fingerprint_of db fid = Some fp"
proof -
  obtain r where r: "r \<in> set (db_findings db)" "fw_ID r = fid" "fw_Project r = pid" "Fingerprint (fw_Finding r) = fp"
    using findingIDs_Some [OF assms(2)] by blast
  show "project_of_finding db fid = Some pid" "fingerprint_of db fid = Some fp"
    using find_row [OF assms(1) r(1)] r by (simp_all add: project_of_finding_def fingerprint_of_def)
qed

lemma ReplaceCorrelation_eq:
  assumes "analysis_ok an" "\<forall>i \<in> set (Issues res). storable (findingIDs pid db) pid i" "distinct (map i_Key (Issues res))"
    and "store_ok db" "links_fit (findingIDs pid db) (Links res)"
  shows "ReplaceCorrelation pid res db an = Inr ((clearCorrelation pid db an)\<lparr>
     an_issues := an_issues (clearCorrelation pid db an) @ map (\<lambda>(n, i). issue_row n pid i) (enumerate (an_next an) (Issues res)),
     an_members := an_members (clearCorrelation pid db an) @
       concat (map (\<lambda>(n, i). member_rows n (findingIDs pid db) (i_Members i)) (enumerate (an_next an) (Issues res))),
     an_links := an_links (clearCorrelation pid db an) @ map (link_row (findingIDs pid db)) (Links res),
     an_next := an_next an + length (Issues res)\<rparr>)"
proof -
  let ?c = "clearCorrelation pid db an"
  note c = clear_ok [OF assms(1), of pid db]
  define links where "links = an_links ?c @ map (link_row (findingIDs pid db)) (Links res)"
  have links: "insert_links (findingIDs pid db) (Links res) ?c = Inr (?c\<lparr>an_links := links\<rparr>)"
    unfolding links_def
  proof (rule insert_links_ok [OF assms(5)], intro ballI notI)
    fix l x assume l: "l \<in> set (Links res)" and x: "x \<in> set (an_links ?c)" and eq: "Some (lw_From x) = findingIDs pid db (l_From l)"
    have "project_of_finding db (lw_From x) = Some pid" by (rule findingIDs_project(1) [OF assms(4) eq [symmetric]])
    with x show False by (simp add: clearCorrelation_def Let_def)
  qed
  let ?c' = "?c\<lparr>an_links := links\<rparr>"
  have "insert_issues pid (findingIDs pid db) (Issues res) ?c' = Inr (?c'\<lparr>an_issues := an_issues ?c' @
      map (\<lambda>(n, i). issue_row n pid i) (enumerate (an_next ?c') (Issues res)),
     an_members := an_members ?c' @ concat (map (\<lambda>(n, i). member_rows n (findingIDs pid db) (i_Members i)) (enumerate (an_next ?c') (Issues res))),
     an_next := an_next ?c' + length (Issues res)\<rparr>)"
  proof (rule insert_issues_ok [OF assms(2,3)])
    show "\<forall>x \<in> set (an_issues ?c'). iw_Project x = pid \<longrightarrow> iw_Key x \<notin> i_Key ` set (Issues res)"
      using c(2) by (auto simp: filter_empty_conv)
    show "\<forall>m \<in> set (an_members ?c'). mw_Issue m < an_next ?c'"
      using c(1) by (fastforce simp: analysis_ok_def)
  qed
  then show ?thesis using links c(3) by (simp add: ReplaceCorrelation_def Let_def links_def)
qed

lemma filter_shadow: "(\<And>x. Q x \<Longrightarrow> P x) \<Longrightarrow> filter Q (filter P xs) = filter Q xs"
  by (induction xs) auto

text \<open>The same as effects on the parts of the tables a reader looks at.\<close>

lemma ReplaceCorrelation_effect:
  assumes "analysis_ok an" "\<forall>i \<in> set (Issues res). storable (findingIDs pid db) pid i" "distinct (map i_Key (Issues res))"
    and "store_ok db" "links_fit (findingIDs pid db) (Links res)"
  obtains an' where "ReplaceCorrelation pid res db an = Inr an'" "analysis_ok an'"
    "filter (\<lambda>i. iw_Project i = pid) (an_issues an') = map (\<lambda>(n, i). issue_row n pid i) (enumerate (an_next an) (Issues res))"
    "\<And>q. q \<noteq> pid \<Longrightarrow> filter (\<lambda>i. iw_Project i = q) (an_issues an') = filter (\<lambda>i. iw_Project i = q) (an_issues an)"
    "\<And>n i. (n, i) \<in> set (enumerate (an_next an) (Issues res)) \<Longrightarrow>
       filter (\<lambda>x. mw_Issue x = n) (an_members an') = member_rows n (findingIDs pid db) (i_Members i)"
    "\<And>r. r \<in> set (an_issues an) \<Longrightarrow> iw_Project r \<noteq> pid \<Longrightarrow>
       filter (\<lambda>x. mw_Issue x = iw_ID r) (an_members an') = filter (\<lambda>x. mw_Issue x = iw_ID r) (an_members an)"
    "an_scores an' = an_scores an" "an_scans an' = an_scans an"
    "foreign_links pid db an' = foreign_links pid db an"
    "map (stored_link db) (project_links pid db an') = map computed_link (Links res)"
proof -
  let ?c = "clearCorrelation pid db an"
  let ?rows = "map (\<lambda>(n, i). issue_row n pid i) (enumerate (an_next an) (Issues res))"
  let ?mem = "concat (map (\<lambda>(n, i). member_rows n (findingIDs pid db) (i_Members i)) (enumerate (an_next an) (Issues res)))"
  note c = clear_ok [OF assms(1), of pid db]
  define links where "links = an_links ?c @ map (link_row (findingIDs pid db)) (Links res)"
  have run: "ReplaceCorrelation pid res db an = Inr (?c\<lparr>an_issues := an_issues ?c @ ?rows,
     an_members := an_members ?c @ ?mem, an_links := links, an_next := an_next an + length (Issues res)\<rparr>)"
    unfolding links_def by (rule ReplaceCorrelation_eq [OF assms])
  define an' where "an' = ?c\<lparr>an_issues := an_issues ?c @ ?rows,
     an_members := an_members ?c @ ?mem, an_links := links, an_next := an_next an + length (Issues res)\<rparr>"
  have sel: "an_issues an' = an_issues ?c @ ?rows" "an_members an' = an_members ?c @ ?mem"
    "an_next an' = an_next an + length (Issues res)" "an_scores an' = an_scores an" "an_scans an' = an_scans an"
    and sel_links: "an_links an' = links"
    by (simp_all add: an'_def clearCorrelation_def Let_def)
  note rows = numbered_rows [of pid "an_next an" "Issues res"]
  have mem: "mw_Issue x \<in> {an_next an..<an_next an + length (Issues res)}" if "x \<in> set ?mem" for x
    using that by (auto simp: in_set_enumerate_eq member_rows_def List.map_filter_def)
  have old: "mw_Issue x < an_next an" if "x \<in> set (an_members ?c)" for x
    using c(1,3) that by (fastforce simp: analysis_ok_def)
  have mine: "iw_Project r = pid" if "r \<in> set ?rows" for r using that by auto
  have others: "iw_Project r \<noteq> pid" if "r \<in> set (an_issues ?c)" for r using c(2) that by (auto simp: filter_empty_conv)
  have ids: "map iw_ID (an_issues ?c @ ?rows) = map iw_ID (an_issues ?c) @ [an_next an..<an_next an + length (Issues res)]"
    using rows(1) by simp
  have keys: "map (\<lambda>i. (iw_Project i, iw_Key i)) (an_issues ?c @ ?rows) =
      map (\<lambda>i. (iw_Project i, iw_Key i)) (an_issues ?c) @ map (\<lambda>i. (pid, i_Key i)) (Issues res)"
    using rows(2) by simp
  have "distinct (map iw_ID (an_issues ?c @ ?rows))"
    unfolding ids using c(1,3) by (auto simp: analysis_ok_def)
  moreover have "distinct (map (\<lambda>i. (iw_Project i, iw_Key i)) (an_issues ?c @ ?rows))"
    unfolding keys using c(1) others assms(3) by (auto simp: analysis_ok_def distinct_map inj_on_def)
  moreover have "iw_ID i < an_next an + length (Issues res)" if "i \<in> set (an_issues ?c @ ?rows)" for i
  proof (cases "i \<in> set (an_issues ?c)")
    case True
    then show ?thesis using c(1,3) by (auto simp: analysis_ok_def intro: trans_less_add1)
  next
    case False
    then have "iw_ID i \<in> iw_ID ` set ?rows" using that by (simp only: set_append Un_iff simp_thms imageI)
    then show ?thesis unfolding rows(3) by simp
  qed
  moreover have "mw_Issue m \<in> iw_ID ` set (an_issues ?c @ ?rows)" if "m \<in> set (an_members ?c @ ?mem)" for m
  proof (cases "m \<in> set (an_members ?c)")
    case True
    then have "mw_Issue m \<in> iw_ID ` set (an_issues ?c)" using c(1) by (simp add: analysis_ok_def)
    then show ?thesis unfolding set_append image_Un by (rule UnI1)
  next
    case False
    then have "m \<in> set ?mem" using that by (simp only: set_append Un_iff simp_thms)
    then show ?thesis using mem rows(3) unfolding set_append image_Un by (intro UnI2) simp
  qed
  ultimately have ok: "analysis_ok an'" unfolding analysis_ok_def sel by blast
  have new: "filter (\<lambda>i. iw_Project i = pid) (an_issues an') = ?rows"
    unfolding sel(1) filter_append c(2) by (simp only: append_Nil) (rule filter_True, use mine in blast)
  have kept: "filter (\<lambda>i. iw_Project i = q) (an_issues an') = filter (\<lambda>i. iw_Project i = q) (an_issues an)" if "q \<noteq> pid" for q
  proof -
    have "filter (\<lambda>i. iw_Project i = q) ?rows = []" by (rule filter_False) (use mine that in blast)
    moreover have "filter (\<lambda>i. iw_Project i = q) (an_issues ?c) = filter (\<lambda>i. iw_Project i = q) (an_issues an)"
      using that by (simp add: clearCorrelation_def Let_def filter_shadow del: filter_filter)
    ultimately show ?thesis unfolding sel(1) filter_append by (simp only: append_Nil2)
  qed
  have new_members: "filter (\<lambda>x. mw_Issue x = n) (an_members an') = member_rows n (findingIDs pid db) (i_Members i)"
    if n: "(n, i) \<in> set (enumerate (an_next an) (Issues res))" for n i
  proof -
    have "an_next an \<le> n" using n by (simp add: in_set_enumerate_eq)
    have "filter (\<lambda>x. mw_Issue x = n) (an_members ?c) = []"
      by (rule filter_False) (use old \<open>an_next an \<le> n\<close> in \<open>auto dest!: old\<close>)
    then show ?thesis unfolding sel(2) filter_append members_of_issue [OF n] by (simp only: append_Nil)
  qed
  have kept_members: "filter (\<lambda>x. mw_Issue x = iw_ID r) (an_members an') = filter (\<lambda>x. mw_Issue x = iw_ID r) (an_members an)"
    if r: "r \<in> set (an_issues an)" "iw_Project r \<noteq> pid" for r
  proof -
    have "inj_on iw_ID (set (an_issues an))" using assms(1) by (simp add: analysis_ok_def distinct_map)
    then have no: "iw_ID r \<notin> iw_ID ` set (filter (\<lambda>i. iw_Project i = pid) (an_issues an))"
      using r by (auto dest: inj_onD)
    have "filter (\<lambda>x. mw_Issue x = iw_ID r) (an_members ?c) = filter (\<lambda>x. mw_Issue x = iw_ID r) (an_members an)"
      unfolding clearCorrelation_def Let_def Analysis.simps by (simp del: filter_filter) (rule filter_shadow, use no in auto)
    moreover have "iw_ID r < an_next an" using assms(1) r(1) by (simp add: analysis_ok_def)
    have "mw_Issue x \<noteq> iw_ID r" if "x \<in> set ?mem" for x
      using mem [OF that] \<open>iw_ID r < an_next an\<close> by simp
    then have "filter (\<lambda>x. mw_Issue x = iw_ID r) ?mem = []" by (intro filter_False) blast
    ultimately show ?thesis unfolding sel(2) filter_append by (simp only: append_Nil2)
  qed
  have "\<forall>l \<in> set (Links res). findingIDs pid db (l_From l) \<noteq> None \<and> findingIDs pid db (l_To l) \<noteq> None"
    using assms(5) by (simp add: links_fit_def)
  then have ends: "project_of_finding db (lw_From (link_row (findingIDs pid db) l)) = Some pid \<and>
      stored_link db (link_row (findingIDs pid db) l) = computed_link l" if "l \<in> set (Links res)" for l
    using that findingIDs_project [OF assms(4)] by (fastforce simp: link_row_def stored_link_def computed_link_def)
  have cleared: "an_links ?c = foreign_links pid db an" by (simp add: clearCorrelation_def Let_def foreign_links_def)
  have "filter (\<lambda>l. project_of_finding db (lw_From l) \<noteq> Some pid) (map (link_row (findingIDs pid db)) (Links res)) = []"
    by (rule filter_False) (use ends in auto)
  then have foreign: "foreign_links pid db an' = foreign_links pid db an"
    unfolding foreign_links_def [of _ _ an'] sel_links links_def cleared by (simp add: foreign_links_def)
  have "filter (\<lambda>l. project_of_finding db (lw_From l) = Some pid) (map (link_row (findingIDs pid db)) (Links res)) =
      map (link_row (findingIDs pid db)) (Links res)"
    by (rule filter_True) (use ends in auto)
  moreover have "filter (\<lambda>l. project_of_finding db (lw_From l) = Some pid) (foreign_links pid db an) = []"
    by (rule filter_False) (auto simp: foreign_links_def)
  ultimately have "project_links pid db an' = map (link_row (findingIDs pid db)) (Links res)"
    unfolding project_links_def sel_links links_def cleared by simp
  then have own: "map (stored_link db) (project_links pid db an') = map computed_link (Links res)"
    using ends by (simp add: o_def)
  show thesis
    by (rule that [OF run [folded an'_def] ok new kept new_members kept_members sel(4,5) foreign own])
qed

lemma computed_issues_ok:
  assumes "store_ok db"
    and "\<forall>s \<in> set (ListLiveForCorrelation pid db). \<forall>k \<in> set (keysOf s). \<not> blank_text (KeyValue k)"
    and "length (format_date (ScannedAt (Artifact opts))) \<le> 300"
  shows "\<forall>i \<in> set (Issues (CorrelateWith L (ListLiveForCorrelation pid db) opts)). storable (findingIDs pid db) pid i"
    "distinct (map i_Key (Issues (CorrelateWith L (ListLiveForCorrelation pid db) opts)))"
    "links_fit (findingIDs pid db) (Links (CorrelateWith L (ListLiveForCorrelation pid db) opts))"
  using issues_storable [OF assms(1) _ assms(2,3)] computed_links_fit [OF assms(1)]
  by (blast, simp add: map_Key_issues distinct_keys_of, blast)

lemma project_issues_mset:
  "mset (map f (project_issues pid an)) = mset (map f (filter (\<lambda>i. iw_Project i = pid) (an_issues an)))"
  by (simp add: project_issues_def)

lemma issue_record_cong:
  "filter (\<lambda>x. mw_Issue x = iw_ID r) (an_members an') = filter (\<lambda>x. mw_Issue x = iw_ID r) (an_members an) \<Longrightarrow>
   issue_record db an' r = issue_record db an r"
  by (simp add: issue_record_def issueMembers_def)

lemma read_issue:
  assumes "store_ok db" "storable (findingIDs pid db) pid i" "sorted (map m_Fingerprint (i_Members i))"
    and "filter (\<lambda>x. mw_Issue x = n) (an_members an) = member_rows n (findingIDs pid db) (i_Members i)"
  shows "stored_view (issue_record db an (issue_row n pid i)) = computed_view i"
  using read_members [OF assms]
  by (simp add: stored_view_def issue_record_def computed_view_def issue_row_def nullableID_def split: option.split)

section \<open>Properties\<close>

text \<open>
  C24: what correlation computes is what the tables keep. When no finding's location cleans to spaces
  only and the date of the compared artifact renders in at most 300 characters, the result for a
  project's live findings is always accepted, whatever was stored before. The issues read back are
  exactly the computed ones, with every member, its evidence and the artifact that was compared; the
  links stored for the project's findings are exactly the computed ones, in order, with relationship,
  confidence and evidence; and no other project's issues or links, and no score, change.
\<close>

theorem correlation_survives_storage:
  assumes "store_ok db" "analysis_ok an"
    and "\<forall>s \<in> set (ListLiveForCorrelation pid db). \<forall>f \<in> set (Files s). NormalizeLocation f = [] \<or> \<not> blank_text (NormalizeLocation f)"
    and "length (format_date (ScannedAt (Artifact opts))) \<le> 300"
  shows "\<exists>an'. ReplaceCorrelation pid (CorrelateWith L (ListLiveForCorrelation pid db) opts) db an = Inr an' \<and> analysis_ok an' \<and>
    mset (map (\<lambda>r. stored_view (issue_record db an' r)) (project_issues pid an')) =
      mset (map computed_view (Issues (CorrelateWith L (ListLiveForCorrelation pid db) opts))) \<and>
    (\<forall>q. q \<noteq> pid \<longrightarrow> map (issue_record db an') (project_issues q an') = map (issue_record db an) (project_issues q an)) \<and>
    map (stored_link db) (project_links pid db an') =
      map computed_link (Links (CorrelateWith L (ListLiveForCorrelation pid db) opts)) \<and>
    foreign_links pid db an' = foreign_links pid db an \<and> an_scores an' = an_scores an"
proof -
  let ?res = "CorrelateWith L (ListLiveForCorrelation pid db) opts"
  note ok = computed_issues_ok [OF assms(1) keys_not_blank [OF assms(3)] assms(4)]
  obtain an' where an': "ReplaceCorrelation pid ?res db an = Inr an'" "analysis_ok an'"
    "filter (\<lambda>i. iw_Project i = pid) (an_issues an') = map (\<lambda>(n, i). issue_row n pid i) (enumerate (an_next an) (Issues ?res))"
    "\<And>q. q \<noteq> pid \<Longrightarrow> filter (\<lambda>i. iw_Project i = q) (an_issues an') = filter (\<lambda>i. iw_Project i = q) (an_issues an)"
    "\<And>n i. (n, i) \<in> set (enumerate (an_next an) (Issues ?res)) \<Longrightarrow>
       filter (\<lambda>x. mw_Issue x = n) (an_members an') = member_rows n (findingIDs pid db) (i_Members i)"
    "\<And>r. r \<in> set (an_issues an) \<Longrightarrow> iw_Project r \<noteq> pid \<Longrightarrow>
       filter (\<lambda>x. mw_Issue x = iw_ID r) (an_members an') = filter (\<lambda>x. mw_Issue x = iw_ID r) (an_members an)"
    "an_scores an' = an_scores an" "an_scans an' = an_scans an"
    "foreign_links pid db an' = foreign_links pid db an"
    "map (stored_link db) (project_links pid db an') = map computed_link (Links ?res)"
    by (rule ReplaceCorrelation_effect [OF assms(2) ok(1,2) assms(1) ok(3)]) (rule that)
  let ?view = "\<lambda>r. stored_view (issue_record db an' r)"
  have one: "?view (issue_row n pid i) = computed_view i" if ni: "(n, i) \<in> set (enumerate (an_next an) (Issues ?res))" for n i
  proof -
    have "i \<in> set (Issues ?res)" using ni by (auto simp: in_set_enumerate_eq)
    then show ?thesis
      using ok(1) computed_members_sorted [OF assms(1)] an'(5) [OF ni] by (intro read_issue [OF assms(1)]) blast+
  qed
  have "map ?view (map (\<lambda>(n, i). issue_row n pid i) (enumerate (an_next an) (Issues ?res))) =
      map (\<lambda>(n, i). computed_view i) (enumerate (an_next an) (Issues ?res))"
    unfolding map_map by (rule map_cong [OF refl]) (use one in auto)
  also have "\<dots> = map computed_view (map snd (enumerate (an_next an) (Issues ?res)))" by (simp only: map_map o_def case_prod_beta')
  finally have mine: "mset (map ?view (project_issues pid an')) = mset (map computed_view (Issues ?res))"
    by (simp only: project_issues_mset an'(3) map_snd_enumerate)
  have others: "map (issue_record db an') (project_issues q an') = map (issue_record db an) (project_issues q an)" if "q \<noteq> pid" for q
  proof -
    have "project_issues q an' = project_issues q an" by (simp only: project_issues_def an'(4) [OF that])
    moreover have "issue_record db an' r = issue_record db an r" if r: "r \<in> set (project_issues q an)" for r
      by (rule issue_record_cong, rule an'(6)) (use r \<open>q \<noteq> pid\<close> in \<open>auto simp: project_issues_def\<close>)
    ultimately show ?thesis by simp
  qed
  show ?thesis using an'(1,2,7,9,10) mine others by blast
qed

lemma pair_db_ok: "store_ok pair_db" "analysis_ok empty_analysis"
  by (auto simp: store_ok_def pair_db_def pair_row_def empty_db_def status_changes_def row_status_def analysis_ok_def empty_analysis_def)

theorem correlation_survives_storage_witness:
  "\<exists>an'. ReplaceCorrelation ''p'' (CorrelateWith sample_lib (ListLiveForCorrelation ''p'' pair_db) sample_options) pair_db empty_analysis = Inr an' \<and>
    mset (map (\<lambda>r. stored_view (issue_record pair_db an' r)) (project_issues ''p'' an')) =
      mset (map computed_view (Issues (CorrelateWith sample_lib (ListLiveForCorrelation ''p'' pair_db) sample_options))) \<and>
    length (project_links ''p'' pair_db an') = 1 \<and>
    map i_Key (Issues (CorrelateWith sample_lib (ListLiveForCorrelation ''p'' pair_db) sample_options)) = [\<lparr>Kind = KindCVE, KeyValue = ''CVE-1''\<rparr>]"
proof -
  have "map Files (ListLiveForCorrelation ''p'' pair_db) = [[], []]" by code_simp
  then have "\<forall>fs \<in> set (map Files (ListLiveForCorrelation ''p'' pair_db)). fs = []" by simp
  then have named: "\<forall>s \<in> set (ListLiveForCorrelation ''p'' pair_db). \<forall>f \<in> set (Files s).
      NormalizeLocation f = [] \<or> \<not> blank_text (NormalizeLocation f)" by simp
  have date: "length (format_date (ScannedAt (Artifact sample_options))) \<le> 300" by code_simp
  have issues: "map i_Key (Issues (CorrelateWith sample_lib (ListLiveForCorrelation ''p'' pair_db) sample_options)) =
      [\<lparr>Kind = KindCVE, KeyValue = ''CVE-1''\<rparr>]"
  proof -
    let ?k = "\<lparr>Kind = KindCVE, KeyValue = ''CVE-1''\<rparr>"
    have "keys_of (ListLiveForCorrelation ''p'' pair_db) = [?k]" by code_simp
    moreover have "length (bucket_of sample_options (ListLiveForCorrelation ''p'' pair_db) ?k) = 2" by code_simp
    ultimately show ?thesis by (simp add: map_Key_issues bucket_issue_def formIssue_None)
  qed
  have links: "length (Links (CorrelateWith sample_lib (ListLiveForCorrelation ''p'' pair_db) sample_options)) = 1" by code_simp
  have len: "length xs = 1" if "map (stored_link pair_db) xs = map computed_link
      (Links (CorrelateWith sample_lib (ListLiveForCorrelation ''p'' pair_db) sample_options))" for xs
    using arg_cong [OF that, of length] links by simp
  obtain an' where "ReplaceCorrelation ''p'' (CorrelateWith sample_lib (ListLiveForCorrelation ''p'' pair_db) sample_options)
      pair_db empty_analysis = Inr an'"
    "mset (map (\<lambda>r. stored_view (issue_record pair_db an' r)) (project_issues ''p'' an')) =
      mset (map computed_view (Issues (CorrelateWith sample_lib (ListLiveForCorrelation ''p'' pair_db) sample_options)))"
    "map (stored_link pair_db) (project_links ''p'' pair_db an') = map computed_link
      (Links (CorrelateWith sample_lib (ListLiveForCorrelation ''p'' pair_db) sample_options))"
    using correlation_survives_storage [OF pair_db_ok named date, of sample_lib] by (elim exE conjE) (rule that)
  then show ?thesis using issues len by (intro exI conjI)
qed

text \<open>
  C25: the pages of a project's findings tile its listing: for every page size the interface accepts the
  first pages, in order and without a gap or a repetition, are the first rows, and a page says that more
  follow exactly when they do. The rows are those of the project that pass the filter, the worst first.
\<close>

theorem finding_pages_tile_the_listing:
  assumes "0 < limit" "limit \<le> 200"
  shows "concat (map (\<lambda>k. fst (Findings_ListByProject pid flt \<lparr>fp_Limit = limit, fp_Offset = int k * limit\<rparr> db)) [0..<m]) =
      take (m * nat limit) (map (recordColumns db) (project_findings pid flt db)) \<and>
    (snd (Findings_ListByProject pid flt \<lparr>fp_Limit = limit, fp_Offset = int m * limit\<rparr> db) \<longleftrightarrow>
      (m + 1) * nat limit < length (project_findings pid flt db)) \<and>
    sorted (map (\<lambda>r. - int (Severity_Rank (Sev (fw_Finding r)))) (project_findings pid flt db)) \<and>
    mset (project_findings pid flt db) = filter_mset (\<lambda>r. fw_Project r = pid \<and>
      (ff_Status flt = [] \<or> FStatus (fw_Finding r) = ff_Status flt) \<and>
      (ff_Severity flt = [] \<or> Sev (fw_Finding r) = ff_Severity flt) \<and>
      (ff_Scanner flt = [] \<or> Scanner (fw_Finding r) = ff_Scanner flt)) (mset (db_findings db))"
proof -
  let ?rows = "project_findings pid flt db"
  have page: "Findings_ListByProject pid flt \<lparr>fp_Limit = limit, fp_Offset = int k * limit\<rparr> db =
      (map (recordColumns db) (take (nat limit) (drop (k * nat limit) ?rows)), k * nat limit + nat limit < length ?rows)" for k
    using assms by (simp add: Findings_ListByProject_def page_normalize_id cut_page_eq nat_mult_distrib)
  have "concat (map (\<lambda>k. map (recordColumns db) (take (nat limit) (drop (k * nat limit) ?rows))) [0..<m]) =
      take (m * nat limit) (map (recordColumns db) ?rows)"
    using concat_pages [of "nat limit" "map (recordColumns db) ?rows" m] by (simp add: take_map drop_map)
  moreover have "sorted (map (\<lambda>r. - int (Severity_Rank (Sev (fw_Finding r)))) ?rows)"
  proof -
    have "sorted (map (\<lambda>r. (- severity_case (Sev (fw_Finding r)), - fw_LastSeen r, fw_ID r)) ?rows)"
      by (simp add: project_findings_def worst_first_def)
    then show ?thesis unfolding sorted_map
      by (rule sorted_wrt_mono_rel [rotated]) (auto simp: severity_case_rank less_eq_prod_def)
  qed
  ultimately show ?thesis
    by (simp add: page project_findings_def worst_first_def add.commute)
qed

theorem finding_pages_tile_the_listing_witness:
  "map fd_ID (concat (map (\<lambda>k. fst (Findings_ListByProject ''p'' \<lparr>ff_Status = [], ff_Severity = [], ff_Scanner = []\<rparr>
      \<lparr>fp_Limit = 1, fp_Offset = int k * 1\<rparr> pair_db)) [0..<2])) = [0, 1] \<and>
   \<not> snd (Findings_ListByProject ''p'' \<lparr>ff_Status = [], ff_Severity = [], ff_Scanner = []\<rparr> \<lparr>fp_Limit = 1, fp_Offset = int 2 * 1\<rparr> pair_db)"
proof -
  let ?flt = "\<lparr>ff_Status = [], ff_Severity = [], ff_Scanner = []\<rparr>"
  have rows: "map fw_ID (project_findings ''p'' ?flt pair_db) = [0, 1]" by code_simp
  have "map fd_ID (map (recordColumns pair_db) (project_findings ''p'' ?flt pair_db)) = [0, 1]"
    using rows by (simp add: recordColumns_def Let_def o_def)
  moreover have "length (project_findings ''p'' ?flt pair_db) = 2" using arg_cong [OF rows, of length] by simp
  ultimately show ?thesis
    using finding_pages_tile_the_listing [of 1 "''p''" ?flt pair_db 2] by simp
qed

text \<open>
  A project's score is the newest one. After a score is saved that is newer than every other of the
  project, it is the one read, with the counts, the digest and the status of its scan, and rounded as
  the columns round; the trend starts with it; and there is still one row per scan.
\<close>

theorem newest_score_is_read:
  assumes "SaveRiskScore pid scanID a digest at_time an = Inr an'" "distinct (map sk_Scan (an_scores an))"
    and "\<forall>s \<in> set (an_scores an). sk_Scan s = scanID \<longrightarrow> sk_Project s = pid"
    and "\<forall>s \<in> set (an_scores an). sk_Project s = pid \<and> sk_Scan s \<noteq> scanID \<longrightarrow> sk_At s < at_time"
    and "0 < limit" "limit \<le> 200"
  shows "\<exists>r. LatestRiskScore pid an' = Inr r \<and> kr_ScanID r = scanID \<and> kr_Score r = pg_numeric 2 (a_Score a) \<and>
      Some (kr_Total r) = total_column (a_Total a) \<and> kr_Live r = a_Live a \<and> kr_Dismissed r = a_Dismissed a \<and>
      kr_Digest r = digest \<and> kr_ComputedAt r = at_time \<and> map_of (an_scans an) scanID = Some (kr_ScanStatus r) \<and>
      hd (RiskHistory pid limit an') = r \<and> length (RiskHistory pid limit an') \<le> nat limit \<and>
      distinct (map sk_Scan (an_scores an'))"
proof -
  obtain row where row: "sk_Scan row = scanID" "sk_Project row = pid" "sk_At row = at_time"
    "sk_Score row = pg_numeric 2 (a_Score a)" "Some (sk_Total row) = total_column (a_Total a)" "sk_Live row = a_Live a"
    "sk_Dismissed row = a_Dismissed a" "sk_Digest row = digest"
    and st: "map_of (an_scans an) scanID \<noteq> None" "an_scans an' = an_scans an"
    and scores: "an_scores an' = (if list_ex (\<lambda>s. sk_Scan s = scanID) (an_scores an)
      then map (\<lambda>s. if sk_Scan s = scanID then row\<lparr>sk_Project := sk_Project s\<rparr> else s) (an_scores an) else an_scores an @ [row])"
    by (rule that [of "\<lparr>sk_Scan = scanID, sk_Project = pid, sk_Score = pg_numeric 2 (a_Score a),
            sk_Total = the (total_column (a_Total a)), sk_Live = a_Live a, sk_Dismissed = a_Dismissed a,
            sk_Digest = digest, sk_At = at_time\<rparr>"])
      (use assms(1) in \<open>auto simp: SaveRiskScore_def Let_def split: if_splits option.splits\<close>)
  have same: "row\<lparr>sk_Project := sk_Project s\<rparr> = row" if "s \<in> set (an_scores an)" "sk_Scan s = scanID" for s
    using assms(3) that row(2) by (cases row) auto
  have keys: "map sk_Scan (an_scores an') = (if list_ex (\<lambda>s. sk_Scan s = scanID) (an_scores an)
      then map sk_Scan (an_scores an) else map sk_Scan (an_scores an) @ [scanID])"
    using row(1) by (auto simp: scores)
  have dist: "distinct (map sk_Scan (an_scores an'))"
    unfolding keys using assms(2) by (auto simp: list_ex_iff)
  have mem: "row \<in> set (an_scores an')"
    using same by (auto simp: scores list_ex_iff image_iff)
  have older: "sk_At s < at_time" if "s \<in> set (an_scores an')" "sk_Project s = pid" "s \<noteq> row" for s
    using that assms(4) same by (auto simp: scores list_ex_iff split: if_splits)
  let ?rows = "sort_key (\<lambda>s. - sk_At s) (filter (\<lambda>s. sk_Project s = pid) (an_scores an'))"
  have rin: "row \<in> set ?rows" using mem row(2) by simp
  then obtain x xs where x: "?rows = x # xs" by (cases ?rows) auto
  have "sorted (map (\<lambda>s. - sk_At s) ?rows)" by simp
  then have "\<forall>s \<in> set ?rows. - sk_At x \<le> - sk_At s" unfolding x by auto
  then have "\<not> sk_At x < at_time" using rin row(3) by fastforce
  moreover have "x \<in> set ?rows" unfolding x by simp
  ultimately have "x = row" using older by auto
  obtain status where status: "map_of (an_scans an) scanID = Some status" using st(1) by auto
  then obtain r rs where r: "risk_rows pid an' = r # rs" and "kr_ScanID r = scanID" "kr_Score r = sk_Score row"
    "kr_Total r = sk_Total row" "kr_Live r = sk_Live row" "kr_Dismissed r = sk_Dismissed row"
    "kr_Digest r = sk_Digest row" "kr_ComputedAt r = sk_At row" "kr_ScanStatus r = status"
    unfolding risk_rows_def x \<open>x = row\<close> using row(1) st(2) by (auto simp: List.map_filter_simps)
  then show ?thesis
    using assms(5,6) row status dist by (cases "nat limit") (auto simp: LatestRiskScore_def RiskHistory_def)
qed

theorem newest_score_is_read_witness:
  "\<exists>an' r. SaveRiskScore ''p'' ''s1'' sample_assessment ''w'' 7 empty_analysis = Inr an' \<and>
    LatestRiskScore ''p'' an' = Inr r \<and> kr_Live r = 2 \<and> kr_ScanStatus r = ''completed''"
proof -
  have "0 \<le> pg_numeric 2 12 \<and> pg_numeric 2 12 \<le> 100" "total_column (Fin 3) = Some (Fin 3)"
    by (simp_all add: pg_numeric_def)
  then obtain an' where "SaveRiskScore ''p'' ''s1'' sample_assessment ''w'' 7 empty_analysis = Inr an'"
    by (auto simp: SaveRiskScore_def score_checks_def sample_assessment_def empty_analysis_def blank_text_def)
  with newest_score_is_read [OF this, of 50] show ?thesis
    by (auto simp: empty_analysis_def sample_assessment_def)
qed

end
