(* ===== verification/Sbom_Store.thy ===== *)
theory Sbom_Store
  imports Sbom Scan_Store Finding_Reads
begin

text \<open>
  The stored bills of materials: \<open>internal/sbom/store/store.go\<close> over the table \<open>sbom_components\<close> and its
  constraints. A text column takes valid UTF-8 without a zero byte and counts characters. The lemmas show
  what a recorded inventory reads back as, which inventory a project shows, and what the artifact is that
  correlation compares findings with; one shows an inventory that is lost because a name was cut inside a
  character.
\<close>

section \<open>Text columns\<close>

definition continuation :: "char \<Rightarrow> bool" where
  "continuation c = (0x80 \<le> (of_char c :: nat) \<and> (of_char c :: nat) \<le> 0xBF)"

text \<open>The well-formed byte sequences of UTF-8, by the first byte.\<close>

function utf8_ok :: "string \<Rightarrow> bool" where
  "utf8_ok [] = True"
| "utf8_ok (c # cs) =
     (let n = (of_char c :: nat); d = (case cs of [] \<Rightarrow> 0 | d # _ \<Rightarrow> (of_char d :: nat)) in
      if n < 0x80 then utf8_ok cs
      else if 0xC2 \<le> n \<and> n \<le> 0xDF then 1 \<le> length cs \<and> list_all continuation (take 1 cs) \<and> utf8_ok (drop 1 cs)
      else if 0xE0 \<le> n \<and> n \<le> 0xEF then 2 \<le> length cs \<and> list_all continuation (take 2 cs) \<and>
        (n = 0xE0 \<longrightarrow> 0xA0 \<le> d) \<and> (n = 0xED \<longrightarrow> d \<le> 0x9F) \<and> utf8_ok (drop 2 cs)
      else if 0xF0 \<le> n \<and> n \<le> 0xF4 then 3 \<le> length cs \<and> list_all continuation (take 3 cs) \<and>
        (n = 0xF0 \<longrightarrow> 0x90 \<le> d) \<and> (n = 0xF4 \<longrightarrow> d \<le> 0x8F) \<and> utf8_ok (drop 3 cs)
      else False)"
  by pat_completeness auto
termination by (relation "measure length") auto

definition pg_text :: "string \<Rightarrow> bool" where
  "pg_text s = (utf8_ok s \<and> CHR 0x00 \<notin> set s)"

section \<open>Tables\<close>

record ComponentRow =
  cw_ID :: nat
  cw_Scan :: string
  cw_Project :: string
  cw_Scanner :: string
  cw_Component :: Component

record BomDB =
  bd_rows :: "ComponentRow list"
  bd_next :: nat

datatype bom_store_error = BomConstraint

definition component_checks :: "string \<Rightarrow> Component \<Rightarrow> bool" where
  "component_checks scanner c =
     (\<not> blank_text (cp_Name c) \<and> \<not> blank_text scanner \<and> pg_text scanner \<and>
      list_all (\<lambda>(v, n). pg_text v \<and> pg_length v \<le> n)
        [(cp_Name c, 512), (cp_PURL c, 1024), (cp_Version c, 256), (cp_Type c, 64), (cp_CPE c, 1024),
         (cp_Location c, 1024)])"

definition numbered_components :: "nat \<Rightarrow> string \<Rightarrow> string \<Rightarrow> string \<Rightarrow> Component list \<Rightarrow> ComponentRow list" where
  "numbered_components n scanID projectID scanner components =
     map (\<lambda>(i, c). \<lparr>cw_ID = i, cw_Scan = scanID, cw_Project = projectID, cw_Scanner = scanner, cw_Component = c\<rparr>)
       (enumerate n components)"

definition Bom_RecordScan :: "ScanDB \<Rightarrow> string \<Rightarrow> string \<Rightarrow> string \<Rightarrow> Component list \<Rightarrow> BomDB \<Rightarrow>
    bom_store_error + BomDB" where
  "Bom_RecordScan sdb scanID projectID scanner components bd =
     (let kept = filter (\<lambda>r. \<not> (cw_Scan r = scanID \<and> cw_Scanner r = scanner)) (bd_rows bd) in
      if components \<noteq> [] \<and> (\<not> has_scan sdb scanID \<or> map_of (sd_projects sdb) projectID = None \<or>
          list_ex (\<lambda>c. \<not> component_checks scanner c) components)
      then Inl BomConstraint
      else Inr (bd\<lparr>bd_rows := kept @ numbered_components (bd_next bd) scanID projectID scanner components,
                 bd_next := bd_next bd + length components\<rparr>))"

section \<open>Reads\<close>

record BomRecord =
  br_Component :: Component
  br_ScanID :: string
  br_ProjectID :: string
  br_Scanner :: string

definition bom_record :: "ComponentRow \<Rightarrow> BomRecord" where
  "bom_record r = \<lparr>br_Component = cw_Component r, br_ScanID = cw_Scan r, br_ProjectID = cw_Project r, br_Scanner = cw_Scanner r\<rparr>"

definition by_name :: "ComponentRow list \<Rightarrow> ComponentRow list" where
  "by_name rows = sort_key (\<lambda>r. (cp_Name (cw_Component r), cp_Version (cw_Component r), cw_ID r)) rows"

definition ByScan :: "string \<Rightarrow> nat \<Rightarrow> nat \<Rightarrow> BomDB \<Rightarrow> BomRecord list \<times> bool" where
  "ByScan scanID limit offset bd =
     cut_page limit offset (map bom_record (by_name (filter (\<lambda>r. cw_Scan r = scanID) (bd_rows bd))))"

text \<open>The scan of the row with the greatest identifier; without one nothing is listed.\<close>

definition latest_scan :: "string \<Rightarrow> BomDB \<Rightarrow> string option" where
  "latest_scan projectID bd =
     (case rev (sort_key cw_ID (filter (\<lambda>r. cw_Project r = projectID) (bd_rows bd))) of
        [] \<Rightarrow> None | r # _ \<Rightarrow> Some (cw_Scan r))"

definition ByProject :: "string \<Rightarrow> nat \<Rightarrow> nat \<Rightarrow> BomDB \<Rightarrow> BomRecord list \<times> bool" where
  "ByProject projectID limit offset bd =
     (case latest_scan projectID bd of None \<Rightarrow> ([], False) | Some scanID \<Rightarrow> ByScan scanID limit offset bd)"

definition scan_time :: "Scan \<Rightarrow> time" where
  "scan_time s = (case sc_CompletedAt s of Some t \<Rightarrow> t | None \<Rightarrow> sc_QueuedAt s)"

definition artifact_time :: "Scan \<Rightarrow> time" where
  "artifact_time s = (case sc_CompletedAt s of Some t \<Rightarrow> t | None \<Rightarrow> (case sc_StartedAt s of Some t \<Rightarrow> t | None \<Rightarrow> sc_QueuedAt s))"

definition image_scans :: "string \<Rightarrow> ScanDB \<Rightarrow> BomDB \<Rightarrow> Scan list" where
  "image_scans projectID sdb bd =
     rev (sort_key (\<lambda>s. (scan_time s, sc_ID s)) (filter (\<lambda>s. sc_ProjectID s = projectID \<and> t_Kind (sc_Target s) = KindImage \<and>
       list_ex (\<lambda>r. cw_Scan r = sc_ID s) (bd_rows bd)) (sd_scans sdb)))"

definition ArtifactFor :: "string \<Rightarrow> ScanDB \<Rightarrow> BomDB \<Rightarrow> BomArtifact" where
  "ArtifactFor projectID sdb bd =
     (case image_scans projectID sdb bd of
        [] \<Rightarrow> \<lparr>art_PURLs = [], art_ScanID = [], art_ScannedAt = 0, art_Complete = False, art_Found = False\<rparr>
      | s # _ \<Rightarrow>
          \<lparr>art_PURLs = filter (\<lambda>p. p \<noteq> []) (map (\<lambda>r. cp_PURL (cw_Component r)) (filter (\<lambda>r. cw_Scan r = sc_ID s) (bd_rows bd))),
           art_ScanID = sc_ID s, art_ScannedAt = artifact_time s,
           art_Complete = (\<not> list_ex (\<lambda>r. rr_ScanID r = sc_ID s \<and> DegradedSBOMTruncated \<in> set (rr_Degradations r)) (sd_results sdb)),
           art_Found = True\<rparr>)"

section \<open>Specification vocabulary\<close>

definition inventory :: "string \<Rightarrow> string \<Rightarrow> BomDB \<Rightarrow> Component list" where
  "inventory scanID scanner bd =
     map cw_Component (filter (\<lambda>r. cw_Scan r = scanID \<and> cw_Scanner r = scanner) (bd_rows bd))"

definition bom_ok :: "BomDB \<Rightarrow> bool" where
  "bom_ok bd \<longleftrightarrow> (\<forall>r \<in> set (bd_rows bd). cw_ID r < bd_next bd) \<and> distinct (map cw_ID (bd_rows bd))"

definition sample_component :: "string \<Rightarrow> Component" where
  "sample_component n = \<lparr>cp_PURL = ''pkg:npm/'' @ n, cp_Name = n, cp_Version = ''1'', cp_Type = ''library'', cp_CPE = [], cp_Location = []\<rparr>"

definition sample_scan_db :: ScanDB where
  "sample_scan_db = (empty_scan_db [(''p'', ''slug'')])\<lparr>sd_scans :=
     map (\<lambda>(i, t). sample_scan\<lparr>sc_ID := i, sc_ProjectID := ''p'', sc_QueuedAt := t\<rparr>) [(''s1'', 1), (''s2'', 2)]\<rparr>"

definition empty_bom :: BomDB where
  "empty_bom = \<lparr>bd_rows = [], bd_next = 0\<rparr>"

section \<open>Recording\<close>

lemma numbered_components_sel:
  "map cw_Component (numbered_components n s p sc cs) = cs"
  "\<forall>r \<in> set (numbered_components n s p sc cs). cw_Scan r = s \<and> cw_Project r = p \<and> cw_Scanner r = sc \<and>
     n \<le> cw_ID r \<and> cw_ID r < n + length cs"
  "map cw_ID (numbered_components n s p sc cs) = [n..<n + length cs]"
proof -
  show "map cw_Component (numbered_components n s p sc cs) = cs"
    by (induction cs arbitrary: n) (simp_all add: numbered_components_def)
  show "map cw_ID (numbered_components n s p sc cs) = [n..<n + length cs]"
    by (simp add: numbered_components_def o_def case_prod_beta' map_fst_enumerate [symmetric] del: map_fst_enumerate)
qed (auto simp: numbered_components_def in_set_enumerate_eq)

lemma Bom_RecordScan_rows:
  "Bom_RecordScan sdb s p sc cs bd = Inr bd' \<Longrightarrow>
   bd_rows bd' = filter (\<lambda>r. \<not> (cw_Scan r = s \<and> cw_Scanner r = sc)) (bd_rows bd) @ numbered_components (bd_next bd) s p sc cs \<and>
   bd_next bd' = bd_next bd + length cs"
  by (auto simp: Bom_RecordScan_def Let_def split: if_splits)

lemma Bom_RecordScan_keeps:
  assumes "Bom_RecordScan sdb s p sc cs bd = Inr bd'" "bom_ok bd"
  shows "bom_ok bd'"
proof -
  note r = Bom_RecordScan_rows [OF assms(1)]
  have "distinct (map cw_ID (filter P (bd_rows bd)))" for P using assms(2) by (simp add: bom_ok_def distinct_map_filter)
  moreover have "\<forall>x \<in> set (bd_rows bd). cw_ID x < bd_next bd" using assms(2) by (simp add: bom_ok_def)
  ultimately show ?thesis
    using r numbered_components_sel(2) [of "bd_next bd" s p sc cs] numbered_components_sel(3) [of "bd_next bd" s p sc cs]
    by (auto simp: bom_ok_def)
qed

lemma inventory_rows:
  assumes "Bom_RecordScan sdb s p sc cs bd = Inr bd'"
  shows "inventory s' sc' bd' = (if (s', sc') = (s, sc) then cs else inventory s' sc' bd)"
proof -
  note rows = conjunct1 [OF Bom_RecordScan_rows [OF assms]]
  let ?new = "numbered_components (bd_next bd) s p sc cs"
  note new = numbered_components_sel(1,2) [of "bd_next bd" s p sc cs]
  show ?thesis
  proof (cases "(s', sc') = (s, sc)")
    case True
    have "filter (\<lambda>r. cw_Scan r = s \<and> cw_Scanner r = sc) ?new = ?new" using new(2) by (simp add: filter_id_conv)
    then show ?thesis using True new(1) by (simp add: inventory_def rows)
  next
    case False
    have "filter (\<lambda>r. cw_Scan r = s' \<and> cw_Scanner r = sc') ?new = []" using False new(2) by (auto simp: filter_empty_conv)
    moreover have "filter (\<lambda>r. cw_Scan r = s' \<and> cw_Scanner r = sc') (filter (\<lambda>r. \<not> (cw_Scan r = s \<and> cw_Scanner r = sc)) (bd_rows bd)) =
        filter (\<lambda>r. cw_Scan r = s' \<and> cw_Scanner r = sc') (bd_rows bd)"
      by (rule filter_shadow) (use False in auto)
    ultimately show ?thesis using False unfolding inventory_def rows filter_append by (simp only: if_False map_append append_Nil2)
  qed
qed

lemma image_scans_mem:
  "s \<in> set (image_scans p sdb bd) \<Longrightarrow> s \<in> set (sd_scans sdb) \<and> sc_ProjectID s = p \<and> t_Kind (sc_Target s) = KindImage"
  by (simp add: image_scans_def)

section \<open>Properties\<close>

text \<open>
  Recording a scan's inventory replaces it. What one scanner reported of one scan is then exactly what
  was recorded, in its order; no other inventory changes; and recording the same again, as a repeated
  run does, changes no inventory.
\<close>

theorem recorded_inventory_is_read:
  assumes "Bom_RecordScan sdb s p sc cs bd = Inr bd'" "bom_ok bd"
  shows "inventory s sc bd' = cs \<and> bom_ok bd' \<and>
    (\<forall>s' sc'. (s', sc') \<noteq> (s, sc) \<longrightarrow> inventory s' sc' bd' = inventory s' sc' bd) \<and>
    (\<exists>bd''. Bom_RecordScan sdb s p sc cs bd' = Inr bd'' \<and> (\<forall>s' sc'. inventory s' sc' bd'' = inventory s' sc' bd'))"
proof -
  obtain bd'' where again: "Bom_RecordScan sdb s p sc cs bd' = Inr bd''"
    using assms(1) by (auto simp: Bom_RecordScan_def Let_def split: if_splits)
  have "inventory s' sc' bd'' = inventory s' sc' bd'" for s' sc'
    using inventory_rows [OF again] inventory_rows [OF assms(1)] by simp
  then show ?thesis
    using inventory_rows [OF assms(1)] Bom_RecordScan_keeps [OF assms] again by auto
qed

theorem recorded_inventory_is_read_witness:
  "\<exists>bd'. Bom_RecordScan sample_scan_db ''s1'' ''p'' ''syft'' [sample_component ''a''] empty_bom = Inr bd' \<and>
     inventory ''s1'' ''syft'' bd' = [sample_component ''a'']"
proof -
  have "\<not> isl (Bom_RecordScan sample_scan_db ''s1'' ''p'' ''syft'' [sample_component ''a''] empty_bom)" by code_simp
  then obtain bd' where r: "Bom_RecordScan sample_scan_db ''s1'' ''p'' ''syft'' [sample_component ''a''] empty_bom = Inr bd'"
    by (auto simp: isl_def) (metis obj_sumE)
  have "bom_ok empty_bom" by (simp add: bom_ok_def empty_bom_def)
  from recorded_inventory_is_read [OF r this] r show ?thesis by blast
qed

text \<open>
  A project shows the inventory that was recorded last, whichever scan it belongs to: after any scan of
  the project, however old, records components, that scan's inventory is the project's.
\<close>

theorem project_shows_the_last_recorded:
  assumes "Bom_RecordScan sdb s p sc cs bd = Inr bd'" "bom_ok bd" "cs \<noteq> []"
  shows "ByProject p limit offset bd' = ByScan s limit offset bd'"
proof -
  let ?rows = "filter (\<lambda>r. cw_Project r = p) (bd_rows bd')"
  let ?new = "numbered_components (bd_next bd) s p sc cs"
  note rows = Bom_RecordScan_rows [OF assms(1)]
  note new = numbered_components_sel(2,3) [of "bd_next bd" s p sc cs]
  have len: "length ?new = length cs" by (simp add: numbered_components_def)
  then obtain r where r: "r \<in> set ?new" using assms(3) by (cases ?new) auto
  then have r_in: "r \<in> set ?rows" using new(1) rows by auto
  have "set (rev (sort_key cw_ID ?rows)) = set ?rows" by simp
  then obtain x xs where x: "rev (sort_key cw_ID ?rows) = x # xs"
    using r_in by (cases "rev (sort_key cw_ID ?rows)") auto
  have "sorted (map cw_ID (sort_key cw_ID ?rows))" by simp
  then have "sorted (map cw_ID (rev (x # xs)))" using x by (metis rev_rev_ident)
  then have "\<forall>y \<in> set (x # xs). cw_ID y \<le> cw_ID x" by (auto simp: sorted_append)
  moreover have "set (x # xs) = set ?rows" using x by (metis set_rev set_sort)
  ultimately have max: "\<forall>y \<in> set ?rows. cw_ID y \<le> cw_ID x" and x_in: "x \<in> set ?rows" by auto
  have "bd_next bd \<le> cw_ID r" using r new(1) by blast
  then have "bd_next bd \<le> cw_ID x" using max r_in by fastforce
  then have "x \<notin> set (bd_rows bd)" using assms(2) by (auto simp: bom_ok_def)
  then have "x \<in> set ?new" using x_in rows by auto
  then have "cw_Scan x = s" using new(1) by blast
  then show ?thesis using x by (simp add: ByProject_def latest_scan_def)
qed

theorem project_shows_the_last_recorded_witness:
  "\<exists>bd1 bd2. Bom_RecordScan sample_scan_db ''s2'' ''p'' ''syft'' [sample_component ''new''] empty_bom = Inr bd1 \<and>
     Bom_RecordScan sample_scan_db ''s1'' ''p'' ''syft'' [sample_component ''old''] bd1 = Inr bd2 \<and>
     map sc_QueuedAt (sd_scans sample_scan_db) = [1, 2] \<and>
     ByProject ''p'' 10 0 bd2 = ByScan ''s1'' 10 0 bd2"
proof -
  let ?one = "Bom_RecordScan sample_scan_db ''s2'' ''p'' ''syft'' [sample_component ''new''] empty_bom"
  let ?two = "Bom_RecordScan sample_scan_db ''s1'' ''p'' ''syft'' [sample_component ''old''] (projr ?one)"
  have one: "?one = Inr (projr ?one)" by (rule not_isl_Inr) code_simp
  have two: "?two = Inr (projr ?two)" by (rule not_isl_Inr) code_simp
  have "bom_ok empty_bom" by (simp add: bom_ok_def empty_bom_def)
  then have "bom_ok (projr ?one)" by (rule Bom_RecordScan_keeps [OF one])
  then have "ByProject ''p'' 10 0 (projr ?two) = ByScan ''s1'' 10 0 (projr ?two)"
    by (rule project_shows_the_last_recorded [OF two]) simp
  moreover have "map sc_QueuedAt (sd_scans sample_scan_db) = [1, 2]" by code_simp
  ultimately show ?thesis using one two by (intro exI conjI)
qed

text \<open>
  A value cut to its bound inside a character loses the whole inventory: the component type below is
  valid text of 65 bytes, the parser cuts it to 64, and the table accepts neither the component nor any
  other recorded with it, although every value is within its bound.
\<close>

definition wide_type :: string where
  "wide_type = replicate 63 (CHR ''a'') @ [CHR 0xC3, CHR 0xA9]"

definition raw_of_type :: "string \<Rightarrow> rawComponent" where
  "raw_of_type t = \<lparr>rc_Type = t, rc_Name = ''lib'', rc_Version = ''1'', rc_PURL = ''pkg:npm/lib@1'', rc_CPE = [], rc_Properties = []\<rparr>"

lemma wide_type_cut:
  "utf8_ok wide_type" "length (parse_components [raw_of_type wide_type]) = 1"
  "list_ex (\<lambda>c. \<not> component_checks ''syft'' c) (parse_components [raw_of_type wide_type])"
  by code_simp+

theorem cut_character_loses_inventory:
  "utf8_ok wide_type \<and> (\<forall>c \<in> set (parse_components [raw_of_type wide_type]). within_bounds c) \<and>
   (\<forall>sdb s p bd others. Bom_RecordScan sdb s p ''syft'' (others @ parse_components [raw_of_type wide_type]) bd = Inl BomConstraint)"
proof -
  obtain cs where cs: "parse_components [raw_of_type wide_type] = cs" by simp
  have "cs \<noteq> []" "list_ex (\<lambda>c. \<not> component_checks ''syft'' c) cs" "\<forall>c \<in> set cs. within_bounds c"
    using wide_type_cut(2,3) parse_components_bounds [of _ "[raw_of_type wide_type]"] unfolding cs by auto
  then show ?thesis unfolding cs using wide_type_cut(1) by (simp add: Bom_RecordScan_def Let_def)
qed

theorem cut_character_loses_inventory_witness:
  "Bom_RecordScan sample_scan_db ''s1'' ''p'' ''syft'' ([sample_component ''a''] @ parse_components [raw_of_type wide_type]) empty_bom =
     Inl BomConstraint"
  using cut_character_loses_inventory by blast

text \<open>
  A component is called not deployed only on the evidence of an image. Then the project has a scan of an
  image whose stored inventory, of which no scanner said that it was truncated, has no such package; and
  one is called deployed only when that inventory has it.
\<close>

theorem deployment_rests_on_an_image:
  assumes "artifact = ArtifactFor p sdb bd"
    "iv = NewInventory (art_ScanID artifact) (art_ScannedAt artifact) (art_PURLs artifact) (art_Complete artifact)"
    "deploymentOf key iv \<noteq> DeploymentUnknown"
  shows "\<exists>s \<in> set (sd_scans sdb). sc_ProjectID s = p \<and> t_Kind (sc_Target s) = KindImage \<and> sc_ID s = art_ScanID artifact \<and>
    (if deploymentOf key iv = DeploymentPresent
     then \<exists>r \<in> set (bd_rows bd). cw_Scan r = sc_ID s \<and> TrimSpace (cp_PURL (cw_Component r)) = KeyValue key
     else (\<forall>r \<in> set (bd_rows bd). cw_Scan r = sc_ID s \<and> KeyValue key \<noteq> [] \<longrightarrow> TrimSpace (cp_PURL (cw_Component r)) \<noteq> KeyValue key) \<and>
       (\<forall>r \<in> set (sd_results sdb). rr_ScanID r = sc_ID s \<longrightarrow> DegradedSBOMTruncated \<notin> set (rr_Degradations r)))"
proof (cases "image_scans p sdb bd")
  case Nil
  then have "Inventory_Empty iv" using assms(1,2) by (simp add: ArtifactFor_def NewInventory_def Inventory_Empty_def purlsFrom_def)
  then show ?thesis using assms(3) by (simp add: deploymentOf_def)
next
  case (Cons s ss)
  then have s: "s \<in> set (sd_scans sdb) \<and> sc_ProjectID s = p \<and> t_Kind (sc_Target s) = KindImage"
    using image_scans_mem [of s p sdb bd] by simp
  have art: "art_ScanID artifact = sc_ID s" "art_PURLs artifact = filter (\<lambda>p. p \<noteq> [])
      (map (\<lambda>r. cp_PURL (cw_Component r)) (filter (\<lambda>r. cw_Scan r = sc_ID s) (bd_rows bd)))"
    "art_Complete artifact \<longleftrightarrow> (\<forall>r \<in> set (sd_results sdb). rr_ScanID r = sc_ID s \<longrightarrow> DegradedSBOMTruncated \<notin> set (rr_Degradations r))"
    using assms(1) Cons by (auto simp: ArtifactFor_def list_ex_iff)
  have purls: "PURLs iv = {TrimSpace (cp_PURL (cw_Component r)) | r. r \<in> set (bd_rows bd) \<and> cw_Scan r = sc_ID s} - {[]}"
    using assms(2) art(2) by (auto simp: NewInventory_def purlsFrom_def)
  have "Complete iv = art_Complete artifact" using assms(2) by (simp add: NewInventory_def)
  then show ?thesis
    using s art(1,3) assms(3) purls by (intro bexI [of _ s]) (auto simp: deploymentOf_def split: if_splits)
qed

definition image_scan_db :: ScanDB where
  "image_scan_db = (empty_scan_db [(''p'', ''slug'')])\<lparr>sd_scans := [sample_scan\<lparr>sc_ID := ''s1'', sc_ProjectID := ''p'',
     sc_Target := zero_Target\<lparr>t_Kind := KindImage, t_Image := ''alpine''\<rparr>\<rparr>]\<rparr>"

definition image_bom :: BomDB where
  "image_bom = \<lparr>bd_rows = [\<lparr>cw_ID = 0, cw_Scan = ''s1'', cw_Project = ''p'', cw_Scanner = ''syft'', cw_Component = sample_component ''a''\<rparr>],
     bd_next = 1\<rparr>"

theorem deployment_rests_on_an_image_witness:
  "\<exists>s \<in> set (sd_scans image_scan_db). t_Kind (sc_Target s) = KindImage \<and>
    (\<forall>r \<in> set (bd_rows image_bom). cw_Scan r = sc_ID s \<longrightarrow> TrimSpace (cp_PURL (cw_Component r)) \<noteq> ''pkg:npm/b'')"
proof -
  let ?a = "ArtifactFor ''p'' image_scan_db image_bom"
  let ?iv = "NewInventory (art_ScanID ?a) (art_ScannedAt ?a) (art_PURLs ?a) (art_Complete ?a)"
  let ?k = "\<lparr>Kind = KindComponent, KeyValue = ''pkg:npm/b''\<rparr>"
  have d: "deploymentOf ?k ?iv = DeploymentAbsent" by code_simp
  then have "deploymentOf ?k ?iv \<noteq> DeploymentUnknown" by simp
  from deployment_rests_on_an_image [OF refl refl this] d show ?thesis by auto
qed

end
