(* ===== verification/Policy_Store.thy ===== *)
theory Policy_Store
  imports Policies Audit_Log
begin

text \<open>
  The stored policies and gate decisions: \<open>internal/policies/store.go\<close> over the tables \<open>security_policies\<close> and
  \<open>policy_results\<close> and their constraints. The JSON columns hold what was encoded; decoding it again is the
  identity. A transaction of \<open>Set\<close> is modelled twice: as one step, and as the read and the write between
  which another transaction may commit. The lemmas show that a policy set is the one read, that a
  decision the engine reaches is one the table accepts, what is lost when it is read back, and what the
  audit record of two concurrent changes says.
\<close>

record PolicyResultRow =
  pr_Scan :: string
  pr_Project :: string
  pr_Verdict :: Verdict
  pr_Conditions :: "Condition list"
  pr_Policy :: Policy
  pr_Complete :: bool
  pr_Downgrade :: bool
  pr_Summary :: string
  pr_At :: time

record PolicyDB =
  po_policies :: "(string \<times> Policy) list"
  po_results :: "PolicyResultRow list"
  po_projects :: "(string \<times> string) list"
  po_scans :: "string list"
  po_audit :: "(string, Policy) AuditRow list"
  po_now :: time

datatype policy_store_error =
    InvalidPolicy policy_error | PolicyConstraint | PolicyAuditFailed audit_error | NoResult

definition Policy_Get :: "string \<Rightarrow> PolicyDB \<Rightarrow> Policy" where
  "Policy_Get projectID db = (case map_of (po_policies db) projectID of None \<Rightarrow> DefaultPolicy | Some p \<Rightarrow> p)"

definition previousWithin :: "string \<Rightarrow> PolicyDB \<Rightarrow> Policy option" where
  "previousWithin projectID db = map_of (po_policies db) projectID"

text \<open>The write of the transaction, which records \<open>previous\<close> as the value it replaces.\<close>

definition write_policy :: "string \<Rightarrow> Policy \<Rightarrow> Actor \<Rightarrow> Policy option \<Rightarrow> PolicyDB \<Rightarrow> policy_store_error + PolicyDB" where
  "write_policy projectID p actor previous db =
     (if map_of (po_projects db) projectID = None \<or> \<not> Level_Valid (IncompleteScan p) then Inl PolicyConstraint
      else let db = db\<lparr>po_policies := (projectID, p) # filter (\<lambda>q. fst q \<noteq> projectID) (po_policies db)\<rparr> in
        case audit_Write (po_projects db) (po_now db)
          \<lparr>e_Actor = actor, e_Action = (if previous = None then ''policy.create'' else ''policy.update''),
           e_ResourceType = ''security_policy'', e_ResourceID = projectID, e_ProjectID = projectID,
           e_Before = previous, e_After = Some p, e_OccurredAt = 0\<rparr> of
          Inl e \<Rightarrow> Inl (PolicyAuditFailed e)
        | Inr entry \<Rightarrow> Inr (db\<lparr>po_audit := po_audit db @ [entry]\<rparr>))"

definition Policy_Set :: "string \<Rightarrow> Policy \<Rightarrow> Actor \<Rightarrow> PolicyDB \<Rightarrow> policy_store_error + PolicyDB" where
  "Policy_Set projectID p actor db =
     (case Policy_Validate p of
        Some e \<Rightarrow> Inl (InvalidPolicy e)
      | None \<Rightarrow> write_policy projectID p actor (previousWithin projectID db) db)"

text \<open>\<open>policy_results_incomplete_never_passes\<close>, the enumerated verdicts and the references.\<close>

definition result_row_checks :: "PolicyDB \<Rightarrow> PolicyResultRow \<Rightarrow> bool" where
  "result_row_checks db r =
     (pr_Verdict r \<in> set [VerdictPass, VerdictWarn, VerdictFail] \<and> (pr_Complete r \<or> pr_Verdict r \<noteq> VerdictPass) \<and>
      pr_Scan r \<in> set (po_scans db) \<and> map_of (po_projects db) (pr_Project r) \<noteq> None)"

definition SaveResult :: "string \<Rightarrow> string \<Rightarrow> Policy \<Rightarrow> GateResult \<Rightarrow> time \<Rightarrow> PolicyDB \<Rightarrow> policy_store_error + PolicyDB" where
  "SaveResult projectID scanID p res at_time db =
     (let row = \<lparr>pr_Scan = scanID, pr_Project = projectID, pr_Verdict = g_Verdict res, pr_Conditions = Conditions res,
            pr_Policy = p, pr_Complete = cov_Complete (g_Coverage res), pr_Downgrade = Downgraded (g_Coverage res),
            pr_Summary = Summary res, pr_At = at_time\<rparr>
      in if \<not> result_row_checks db row then Inl PolicyConstraint
         else if list_ex (\<lambda>r. pr_Scan r = scanID) (po_results db)
         then Inr (db\<lparr>po_results := map (\<lambda>r. if pr_Scan r = scanID then row\<lparr>pr_Project := pr_Project r\<rparr> else r) (po_results db)\<rparr>)
         else Inr (db\<lparr>po_results := po_results db @ [row]\<rparr>))"

record PolicyResultRecord =
  pc_ScanID :: string
  pc_ProjectID :: string
  pc_Result :: GateResult
  pc_EvaluatedAt :: time

definition GetResult :: "string \<Rightarrow> PolicyDB \<Rightarrow> policy_store_error + PolicyResultRecord" where
  "GetResult scanID db =
     (case List.find (\<lambda>r. pr_Scan r = scanID) (po_results db) of
        None \<Rightarrow> Inl NoResult
      | Some r \<Rightarrow> Inr \<lparr>pc_ScanID = pr_Scan r, pc_ProjectID = pr_Project r,
          pc_Result = \<lparr>g_Verdict = pr_Verdict r, Conditions = pr_Conditions r,
            g_Coverage = \<lparr>cov_Complete = pr_Complete r, cov_ScanStatus = [], Downgraded = pr_Downgrade r,
              cov_Level = IncompleteScan (pr_Policy r)\<rparr>, Summary = pr_Summary r\<rparr>,
          pc_EvaluatedAt = pr_At r\<rparr>)"

section \<open>Concurrent changes\<close>

text \<open>
  Two transactions on one project under \<open>READ COMMITTED\<close>. Each reads the previous policy without a lock and
  writes later; the second writer waits for the first to commit and then replaces its row.
\<close>

record PolicyTx =
  pt_Policy :: Policy
  pt_Actor :: Actor
  pt_Read :: "Policy option option"

inductive policy_tx :: "string \<Rightarrow> PolicyDB \<times> PolicyTx list \<Rightarrow> PolicyDB \<times> PolicyTx list \<Rightarrow> bool" for projectID where
  read: "t \<in> set ts \<Longrightarrow> pt_Read t = None \<Longrightarrow> Policy_Validate (pt_Policy t) = None \<Longrightarrow>
    policy_tx projectID (db, ts) (db, t\<lparr>pt_Read := Some (previousWithin projectID db)\<rparr> # remove1 t ts)"
| finish: "t \<in> set ts \<Longrightarrow> pt_Read t = Some previous \<Longrightarrow>
    write_policy projectID (pt_Policy t) (pt_Actor t) previous db = Inr db' \<Longrightarrow>
    policy_tx projectID (db, ts) (db', remove1 t ts)"

section \<open>Specification vocabulary\<close>

definition sample_policy_db :: PolicyDB where
  "sample_policy_db = \<lparr>po_policies = [], po_results = [], po_projects = [(''p'', ''slug'')], po_scans = [''s1''],
     po_audit = [], po_now = 5\<rparr>"

definition lax_policy :: Policy where
  "lax_policy = \<lparr>Rules = [], IncompleteScan = LevelWarn\<rparr>"

definition before_after :: "PolicyDB \<Rightarrow> (Policy option \<times> Policy option) list" where
  "before_after db = map (\<lambda>r. (e_Before (au_Entry r), e_After (au_Entry r))) (po_audit db)"

text \<open>Each entry of the audit log replaces what the one before it left.\<close>

definition audit_chains :: "PolicyDB \<Rightarrow> bool" where
  "audit_chains db \<longleftrightarrow> (\<forall>i. Suc i < length (before_after db) \<longrightarrow> fst (before_after db ! Suc i) = snd (before_after db ! i))"

section \<open>Properties\<close>

lemma map_of_filter_other:
  "(map_of (filter (\<lambda>q. fst q \<noteq> k) xs))(k \<mapsto> v) = (map_of xs)(k \<mapsto> v)"
proof -
  have "x \<noteq> k \<Longrightarrow> map_of (filter (\<lambda>q. fst q \<noteq> k) xs) x = map_of xs x" for x by (induction xs) auto
  then show ?thesis by auto
qed

lemma find_last: "\<forall>x \<in> set xs. \<not> P x \<Longrightarrow> P y \<Longrightarrow> List.find P (xs @ [y]) = Some y"
  by (induction xs) auto

lemma write_policy_Inr:
  assumes "write_policy projectID p actor previous db = Inr db'"
  shows "map_of (po_policies db') = (map_of (po_policies db))(projectID \<mapsto> p)"
    "before_after db' = before_after db @ [(previous, Some p)]" "po_results db' = po_results db"
    "po_projects db' = po_projects db" "po_scans db' = po_scans db"
  using assms by (auto simp: write_policy_def Let_def before_after_def map_of_filter_other audit_Write_Inr split: if_splits sum.splits)



lemma Evaluate_checks:
  assumes "Evaluate L p i = Inr r"
  shows "g_Verdict r \<in> {VerdictPass, VerdictWarn, VerdictFail}" "cov_Complete (g_Coverage r) \<or> g_Verdict r \<noteq> VerdictPass"
    "cov_Level (g_Coverage r) = IncompleteScan p"
proof -
  have v: "Policy_Validate p = None" by (rule Evaluate_Inr(1) [OF assms])
  obtain w cs where f: "foldl (rule_step L i) (VerdictPass, []) (sortedRules (Rules p)) = (w, cs)" by fastforce
  have lv: "Level_Valid (IncompleteScan p)" "\<And>r. r \<in> set (sortedRules (Rules p)) \<Longrightarrow> Level_Valid (r_Level r)"
    using v Rule_validate_None(1) by (auto simp: Policy_Validate_None)
  have w: "w \<in> {VerdictPass, VerdictWarn, VerdictFail}"
    using rule_fold_verdict [where rs = "sortedRules (Rules p)" and i = i and L = L, OF lv(2)] f by (auto split: if_splits)
  have lev: "Level_verdict (IncompleteScan p) \<in> {VerdictWarn, VerdictFail}" by (simp add: Level_verdict_def)
  have r: "g_Verdict r = (if \<not> ScanComplete i \<and> Verdict_rank w < Verdict_rank (Level_verdict (IncompleteScan p))
        then Level_verdict (IncompleteScan p) else w)" "cov_Complete (g_Coverage r) = ScanComplete i"
    "cov_Level (g_Coverage r) = IncompleteScan p"
    using assms v f by (auto simp: Evaluate_def Let_def)
  show "g_Verdict r \<in> {VerdictPass, VerdictWarn, VerdictFail}" using r(1) w lev by auto
  show "cov_Complete (g_Coverage r) \<or> g_Verdict r \<noteq> VerdictPass"
    using r(1,2) lev by (auto simp: Verdict_rank_def)
  show "cov_Level (g_Coverage r) = IncompleteScan p" by (rule r(3))
qed

text \<open>
  Every decision the engine reaches is one the table accepts, and it is read back with its verdict, its
  conditions, its summary and whether coverage was complete. One field does not survive: the status of
  the scan is always read as the empty string.
\<close>

theorem decision_is_read_without_scan_status:
  assumes "Evaluate L p i = Inr res" "scanID \<in> set (po_scans db)" "map_of (po_projects db) projectID \<noteq> None"
    and "\<forall>r \<in> set (po_results db). pr_Scan r \<noteq> scanID"
  shows "\<exists>db' rec. SaveResult projectID scanID p res at_time db = Inr db' \<and> GetResult scanID db' = Inr rec \<and>
    pc_ProjectID rec = projectID \<and> pc_EvaluatedAt rec = at_time \<and>
    pc_Result rec = res\<lparr>g_Coverage := (g_Coverage res)\<lparr>cov_ScanStatus := []\<rparr>\<rparr>"
proof -
  note e = Evaluate_checks [OF assms(1)]
  let ?row = "\<lparr>pr_Scan = scanID, pr_Project = projectID, pr_Verdict = g_Verdict res, pr_Conditions = Conditions res,
            pr_Policy = p, pr_Complete = cov_Complete (g_Coverage res), pr_Downgrade = Downgraded (g_Coverage res),
            pr_Summary = Summary res, pr_At = at_time\<rparr>"
  have new: "\<not> list_ex (\<lambda>r. pr_Scan r = scanID) (po_results db)" using assms(4) by (simp add: list_ex_iff)
  have "result_row_checks db ?row" using e(1,2) assms(2,3) by (auto simp: result_row_checks_def)
  then have s: "SaveResult projectID scanID p res at_time db = Inr (db\<lparr>po_results := po_results db @ [?row]\<rparr>)"
    using new by (simp add: SaveResult_def Let_def)
  have "List.find (\<lambda>r. pr_Scan r = scanID) (po_results db @ [?row]) = Some ?row"
    by (rule find_last) (use assms(4) in simp_all)
  then show ?thesis
    using s e(3) by (auto simp: GetResult_def)
qed

theorem decision_is_read_without_scan_status_witness:
  "\<exists>res db' rec. Evaluate sample_lib lax_policy sample_gate_input = Inr res \<and>
     SaveResult ''p'' ''s1'' lax_policy res 7 sample_policy_db = Inr db' \<and> GetResult ''s1'' db' = Inr rec \<and>
     cov_ScanStatus (g_Coverage res) = ''completed'' \<and> cov_ScanStatus (g_Coverage (pc_Result rec)) = []"
proof -
  let ?e = "Evaluate sample_lib lax_policy sample_gate_input"
  have e: "?e = Inr (projr ?e)"
    by (rule not_isl_Inr) (simp add: Evaluate_def lax_policy_def Policy_Validate_def Level_Valid_def Let_def split: prod.split)
  have st: "cov_ScanStatus (g_Coverage (projr ?e)) = ''completed''"
    by (simp add: Evaluate_def lax_policy_def Policy_Validate_def Level_Valid_def Let_def sortedRules_def sample_gate_input_def
        InputFrom_def count_subject_def)
  have "\<exists>db' rec. SaveResult ''p'' ''s1'' lax_policy (projr ?e) 7 sample_policy_db = Inr db' \<and> GetResult ''s1'' db' = Inr rec \<and>
      pc_ProjectID rec = ''p'' \<and> pc_EvaluatedAt rec = 7 \<and>
      pc_Result rec = (projr ?e)\<lparr>g_Coverage := (g_Coverage (projr ?e))\<lparr>cov_ScanStatus := []\<rparr>\<rparr>"
    by (rule decision_is_read_without_scan_status [OF e]) (simp_all add: sample_policy_db_def)
  then obtain db' rec where "SaveResult ''p'' ''s1'' lax_policy (projr ?e) 7 sample_policy_db = Inr db'"
    "GetResult ''s1'' db' = Inr rec" "pc_Result rec = (projr ?e)\<lparr>g_Coverage := (g_Coverage (projr ?e))\<lparr>cov_ScanStatus := []\<rparr>\<rparr>"
    by blast
  then show ?thesis using e st by (intro exI [of _ "projr ?e"] exI [of _ db'] exI [of _ rec]) simp
qed

text \<open>
  The audit log of two concurrent changes can deny one of them. When both transactions have read before
  either commits, both entries name the same policy as the one replaced, so the second entry's policy
  before is not the policy it replaced.
\<close>

definition pending :: "Policy \<Rightarrow> PolicyTx" where
  "pending p = \<lparr>pt_Policy = p, pt_Actor = TokenActor ''ops'', pt_Read = None\<rparr>"

theorem concurrent_policy_changes_break_the_audit:
  "\<exists>db. (policy_tx ''p'')\<^sup>*\<^sup>* (sample_policy_db, [pending lax_policy, pending DefaultPolicy]) (db, []) \<and>
     Policy_Get ''p'' db = DefaultPolicy \<and> \<not> audit_chains db"
proof -
  let ?w1 = "write_policy ''p'' lax_policy (TokenActor ''ops'') None sample_policy_db"
  let ?w2 = "write_policy ''p'' DefaultPolicy (TokenActor ''ops'') None (projr ?w1)"
  have w1: "?w1 = Inr (projr ?w1)" by (rule not_isl_Inr) code_simp
  have w2: "?w2 = Inr (projr ?w2)" by (rule not_isl_Inr) code_simp
  have none: "previousWithin ''p'' sample_policy_db = None" by (simp add: previousWithin_def sample_policy_db_def)
  have differ: "DefaultPolicy \<noteq> lax_policy" by (simp add: DefaultPolicy_def lax_policy_def)
  let ?a = "(pending lax_policy)\<lparr>pt_Read := Some None\<rparr>" and ?b = "(pending DefaultPolicy)\<lparr>pt_Read := Some None\<rparr>"
  have valid: "Policy_Validate lax_policy = None" by (simp add: lax_policy_def Policy_Validate_def Level_Valid_def)
  have s1: "policy_tx ''p'' (sample_policy_db, [pending lax_policy, pending DefaultPolicy]) (sample_policy_db, [?a, pending DefaultPolicy])"
    using policy_tx.read [of "pending lax_policy" "[pending lax_policy, pending DefaultPolicy]" "''p''" sample_policy_db] valid none
    by (simp add: pending_def)
  have s2: "policy_tx ''p'' (sample_policy_db, [?a, pending DefaultPolicy]) (sample_policy_db, [?b, ?a])"
    using policy_tx.read [of "pending DefaultPolicy" "[?a, pending DefaultPolicy]" "''p''" sample_policy_db] DefaultPolicy_valid none differ
    by (simp add: pending_def)
  have s3: "policy_tx ''p'' (sample_policy_db, [?b, ?a]) (projr ?w1, [?b])"
    using policy_tx.finish [of ?a "[?b, ?a]" None "''p''" sample_policy_db] w1 differ by (simp add: pending_def)
  have s4: "policy_tx ''p'' (projr ?w1, [?b]) (projr ?w2, [])"
    using policy_tx.finish [of ?b "[?b]" None "''p''" "projr ?w1"] w2 by (simp add: pending_def)
  have run: "(policy_tx ''p'')\<^sup>*\<^sup>* (sample_policy_db, [pending lax_policy, pending DefaultPolicy]) (projr ?w2, [])"
    by (rule rtranclp.rtrancl_into_rtrancl, rule rtranclp.rtrancl_into_rtrancl, rule rtranclp.rtrancl_into_rtrancl,
      rule r_into_rtranclp, rule s1, rule s2, rule s3, rule s4)
  have "before_after (projr ?w2) = [(None, Some lax_policy), (None, Some DefaultPolicy)]"
  proof -
    have "before_after sample_policy_db = []" by (simp add: before_after_def sample_policy_db_def)
    then show ?thesis using write_policy_Inr(2) [OF w1] write_policy_Inr(2) [OF w2] by simp
  qed
  then have "\<not> audit_chains (projr ?w2)" by (auto simp: audit_chains_def intro: exI [of _ 0])
  moreover have "Policy_Get ''p'' (projr ?w2) = DefaultPolicy" using write_policy_Inr(1) [OF w2] by (simp add: Policy_Get_def)
  ultimately show ?thesis using run by blast
qed

end
