(* ===== verification/Api_Wire.thy ===== *)
theory Api_Wire
  imports User_Store Finding_Reads Sbom_Store Policy_Store Remediation_Plan Queues
begin

text \<open>
  The shapes that cross the wire of the API, in \<open>internal/httpapi\<close>: requests and their decoding
  (\<open>request.go\<close>), the error envelope (\<open>errors.go\<close>), and the conversions from the domain to the responses
  of \<open>scans.go\<close>, \<open>findings.go\<close>, \<open>issues.go\<close>, \<open>risk.go\<close>, \<open>remediation.go\<close>, \<open>policy.go\<close> and
  \<open>transitions.go\<close>. The JSON decoder and \<open>mime.ParseMediaType\<close> are parameters. The lemmas give the bounds
  of a page and the round trip of a policy.
\<close>

section \<open>Errors\<close>

type_synonym ErrorCode = string

abbreviation CodeNotFound :: ErrorCode where "CodeNotFound \<equiv> ''not_found''"
abbreviation CodeMethodInvalid :: ErrorCode where "CodeMethodInvalid \<equiv> ''method_not_allowed''"
abbreviation CodeInternal :: ErrorCode where "CodeInternal \<equiv> ''internal_error''"
abbreviation CodeUnauthenticated :: ErrorCode where "CodeUnauthenticated \<equiv> ''unauthenticated''"
abbreviation CodeForbidden :: ErrorCode where "CodeForbidden \<equiv> ''forbidden''"
abbreviation CodeInvalidRequest :: ErrorCode where "CodeInvalidRequest \<equiv> ''invalid_request''"
abbreviation CodeConflict :: ErrorCode where "CodeConflict \<equiv> ''conflict''"
abbreviation CodePayloadTooLarge :: ErrorCode where "CodePayloadTooLarge \<equiv> ''payload_too_large''"
abbreviation CodeUnsupportedMedia :: ErrorCode where "CodeUnsupportedMedia \<equiv> ''unsupported_media_type''"

text \<open>A message is a fixed text or the text of an error that is safe to forward.\<close>

datatype message =
    Text string | OfProject project_error | OfTarget target_error | OfScan scan_error | OfPolicy policy_error
  | OfUser user_store_error | OfTransition store_error

section \<open>Wire shapes\<close>

record loginRequest =
  lg_Email :: string
  lg_Password :: string

record createProjectRequest =
  cq_Name :: string
  cq_Slug :: string
  cq_Description :: string
  cq_Environment :: string
  cq_Criticality :: string
  cq_InternetFacing :: bool

record targetInput =
  ti_Kind :: string
  ti_RepositoryURL :: string
  ti_Ref :: string
  ti_Image :: string
  ti_EndpointURL :: string

record createScanRequest =
  sq_ProjectID :: string
  sq_RepositoryID :: "string option"
  sq_Target :: targetInput
  sq_CommitSHA :: string
  sq_Branch :: string
  sq_Scanners :: "string list"

record transitionRequest =
  tq_Status :: string
  tq_Reason :: string
  tq_Note :: string

record createUserRequest =
  uq_Email :: string
  uq_Password :: string
  uq_DisplayName :: string
  uq_Role :: string

text \<open>Every field may be left out.\<close>

record updateUserRequest =
  up_Role :: "string option"
  up_Disabled :: "bool option"
  up_Projects :: "string list option"

record policyRuleResponse =
  lr_Kind :: string
  lr_Selector :: string
  lr_Max :: real
  lr_Level :: string

record policyResponse =
  lp_Rules :: "policyRuleResponse list"
  lp_IncompleteScan :: string

record scannerResultResponse =
  xr_Scanner :: string
  xr_Status :: ScannerStatus
  xr_Version :: string
  xr_ExitCode :: int
  xr_DurationMS :: int
  xr_Error :: string
  xr_Degradations :: "string list"
  xr_StartedAt :: "time option"

record scanResponse =
  xs_ID :: string
  xs_ProjectID :: string
  xs_RepositoryID :: "string option"
  xs_Status :: ScanState
  xs_Target :: Target
  xs_CommitSHA :: string
  xs_Branch :: string
  xs_RequestedScanners :: "string list"
  xs_CompleteCoverage :: bool
  xs_DegradedScanners :: "string list"
  xs_FailureReason :: string
  xs_Results :: "scannerResultResponse list"
  xs_QueuedAt :: time
  xs_StartedAt :: "time option"
  xs_CompletedAt :: "time option"

text \<open>\<open>Milliseconds\<close> truncates towards zero.\<close>

definition milliseconds :: "int \<Rightarrow> int" where
  "milliseconds d = (if d < 0 then - (- d div 1000000) else d div 1000000)"

definition toScanResponse :: "Scan \<Rightarrow> scanResponse" where
  "toScanResponse s =
     \<lparr>xs_ID = sc_ID s, xs_ProjectID = sc_ProjectID s, xs_RepositoryID = sc_RepositoryID s, xs_Status = sc_Status s,
      xs_Target = sc_Target s, xs_CommitSHA = sc_CommitSHA s, xs_Branch = sc_Branch s,
      xs_RequestedScanners = sc_RequestedScanners s, xs_CompleteCoverage = HasCompleteCoverage s,
      xs_DegradedScanners = DegradedScanners s, xs_FailureReason = sc_FailureReason s,
      xs_Results = map (\<lambda>r. \<lparr>xr_Scanner = sr_Scanner r, xr_Status = sr_Status r, xr_Version = sr_Version r,
          xr_ExitCode = sr_ExitCode r, xr_DurationMS = milliseconds (sr_Duration r), xr_Error = sr_Error r,
          xr_Degradations = sr_Degradations r, xr_StartedAt = sr_StartedAt r\<rparr>) (sc_Results s),
      xs_QueuedAt = sc_QueuedAt s, xs_StartedAt = sc_StartedAt s, xs_CompletedAt = sc_CompletedAt s\<rparr>"

record findingResponse =
  xf_ID :: uuid
  xf_Fingerprint :: string
  xf_Category :: string
  xf_Severity :: string
  xf_Confidence :: string
  xf_Status :: string
  xf_Title :: string
  xf_Description :: string
  xf_Remediation :: string
  xf_Scanner :: string
  xf_Sources :: "string list"
  xf_ScannerSeverity :: string
  xf_Package :: string
  xf_PackageVersion :: string
  xf_PURL :: string
  xf_Image :: string
  xf_Endpoint :: string
  xf_CVE :: string
  xf_CWE :: string
  xf_CVSS :: real
  xf_Threat :: "EPSS option"
  xf_Occurrences :: nat
  xf_FirstSeen :: time
  xf_LastSeen :: time

definition toThreatResponse :: "ThreatIntel \<Rightarrow> EPSS option" where
  "toThreatResponse t = Threat_EPSS t"

definition toFindingResponse :: "FindingRecord \<Rightarrow> findingResponse" where
  "toFindingResponse r = (let f = fd_Finding r in
     \<lparr>xf_ID = fd_ID r, xf_Fingerprint = Fingerprint f, xf_Category = Category f, xf_Severity = Sev f,
      xf_Confidence = Conf f, xf_Status = FStatus f, xf_Title = Title f, xf_Description = Description f,
      xf_Remediation = Remediation f, xf_Scanner = Scanner f, xf_Sources = fd_Sources r,
      xf_ScannerSeverity = ScannerSeverity f, xf_Package = Package f, xf_PackageVersion = PackageVersion f,
      xf_PURL = PURL f, xf_Image = Image f, xf_Endpoint = Endpoint f, xf_CVE = CVE f, xf_CWE = CWE f,
      xf_CVSS = CVSS f, xf_Threat = toThreatResponse (Threat f), xf_Occurrences = fd_Occurrences r,
      xf_FirstSeen = fd_FirstSeen r, xf_LastSeen = fd_LastSeen r\<rparr>)"

text \<open>An issue and a stored transition cross unchanged, field by field.\<close>

record issueResponse =
  xi_ID :: nat
  xi_KeyKind :: string
  xi_KeyValue :: string
  xi_Severity :: string
  xi_Escalated :: bool
  xi_Categories :: "string list"
  xi_Explanation :: string
  xi_Deployment :: string
  xi_DeploymentEvidence :: string
  xi_ArtifactScanID :: string
  xi_Members :: "IssueMemberRecord list"

definition toIssueResponse :: "IssueRecord \<Rightarrow> issueResponse" where
  "toIssueResponse r =
     \<lparr>xi_ID = ir_ID r, xi_KeyKind = Kind (ir_Key r), xi_KeyValue = KeyValue (ir_Key r), xi_Severity = ir_Severity r,
      xi_Escalated = ir_Escalated r, xi_Categories = ir_Categories r, xi_Explanation = ir_Explanation r,
      xi_Deployment = ir_Deployment r, xi_DeploymentEvidence = ir_DeploymentEvidence r,
      xi_ArtifactScanID = ir_ArtifactScanID r, xi_Members = ir_Members r\<rparr>"

record riskPointResponse =
  rk_ScanID :: string
  rk_Score :: real
  rk_Total :: float64
  rk_LiveFindings :: nat
  rk_ScanStatus :: string
  rk_Complete :: bool
  rk_WeightsDigest :: string
  rk_ComputedAt :: time

record riskResponse = riskPointResponse +
  rk_DismissedFindings :: nat
  rk_History :: "riskPointResponse list"

definition scanWasComplete :: "string \<Rightarrow> bool" where
  "scanWasComplete status = (status = ''completed'')"

definition toRiskPoint :: "RiskRecord \<Rightarrow> riskPointResponse" where
  "toRiskPoint r =
     \<lparr>rk_ScanID = kr_ScanID r, rk_Score = kr_Score r, rk_Total = kr_Total r, rk_LiveFindings = kr_Live r,
      rk_ScanStatus = kr_ScanStatus r, rk_Complete = scanWasComplete (kr_ScanStatus r),
      rk_WeightsDigest = kr_Digest r, rk_ComputedAt = kr_ComputedAt r\<rparr>"

definition toRiskResponse :: "RiskRecord \<Rightarrow> RiskRecord list \<Rightarrow> riskResponse" where
  "toRiskResponse r history =
     \<lparr>rk_ScanID = kr_ScanID r, rk_Score = kr_Score r, rk_Total = kr_Total r, rk_LiveFindings = kr_Live r,
      rk_ScanStatus = kr_ScanStatus r, rk_Complete = scanWasComplete (kr_ScanStatus r),
      rk_WeightsDigest = kr_Digest r, rk_ComputedAt = kr_ComputedAt r,
      rk_DismissedFindings = kr_Dismissed r, rk_History = map toRiskPoint history\<rparr>"

definition toPolicyResponse :: "Policy \<Rightarrow> policyResponse" where
  "toPolicyResponse p =
     \<lparr>lp_Rules = map (\<lambda>r. \<lparr>lr_Kind = r_Kind r, lr_Selector = Selector r, lr_Max = r_Max r, lr_Level = r_Level r\<rparr>) (Rules p),
      lp_IncompleteScan = IncompleteScan p\<rparr>"

definition fromPolicyRequest :: "policyResponse \<Rightarrow> Policy" where
  "fromPolicyRequest b =
     \<lparr>Rules = map (\<lambda>r. \<lparr>r_Kind = lr_Kind r, Selector = lr_Selector r, r_Max = lr_Max r, r_Level = lr_Level r\<rparr>) (lp_Rules b),
      IncompleteScan = lp_IncompleteScan b\<rparr>"

record gateConditionResponse =
  xc_Rule :: policyRuleResponse
  xc_Observed :: real
  xc_Breached :: bool
  xc_Explanation :: string

record gateResponse =
  xg_Verdict :: string
  xg_Conditions :: "gateConditionResponse list"
  xg_Complete :: bool
  xg_ScanStatus :: string
  xg_Downgraded :: bool
  xg_Summary :: string
  xg_ScanID :: string
  xg_EvaluatedAt :: time

definition toGateResponse :: "PolicyResultRecord \<Rightarrow> gateResponse" where
  "toGateResponse rc = (let res = pc_Result rc in
     \<lparr>xg_Verdict = g_Verdict res,
      xg_Conditions = map (\<lambda>c. \<lparr>xc_Rule = \<lparr>lr_Kind = r_Kind (c_Rule c), lr_Selector = Selector (c_Rule c),
          lr_Max = r_Max (c_Rule c), lr_Level = r_Level (c_Rule c)\<rparr>, xc_Observed = Observed c, xc_Breached = Breached c,
          xc_Explanation = c_Explanation c\<rparr>) (Conditions res),
      xg_Complete = cov_Complete (g_Coverage res), xg_ScanStatus = cov_ScanStatus (g_Coverage res),
      xg_Downgraded = Downgraded (g_Coverage res), xg_Summary = Summary res, xg_ScanID = pc_ScanID rc,
      xg_EvaluatedAt = pc_EvaluatedAt rc\<rparr>)"

record remediationResponse =
  xm_Score :: real
  xm_Addressable :: nat
  xm_Actions :: "Action list"

record whoAmI =
  wi_Label :: string
  wi_Role :: string
  wi_UserID :: string
  wi_Global :: bool
  wi_Slugs :: "string list"

record dependencyState =
  ds_Name :: string
  ds_Status :: string
  ds_Error :: string

datatype body =
    ErrorBody ErrorCode message string
  | ProjectBody Project | ProjectsBody "Project list" int int bool
  | ScanBody scanResponse | ScansBody "scanResponse list" int int bool | TargetBody Target
  | FindingsBody "findingResponse list" bool | IssuesBody "issueResponse list" bool
  | RiskBody riskResponse | RemediationBody remediationResponse | PolicyBody policyResponse | GateBody gateResponse
  | ComponentsBody "BomRecord list" int int bool
  | TransitionBody TransitionRecord | HistoryBody "TransitionRecord list"
  | LoginBody string time User | WhoAmIBody whoAmI | UserBody User "string list" | UsersBody "(User \<times> string list) list"
  | LivenessBody string string string | ReadinessBody string "dependencyState list"

record Response =
  rp_Status :: nat
  rp_Header :: "(string \<times> string) list"
  rp_Body :: body

section \<open>Requests\<close>

record Request =
  rq_Method :: string
  rq_Path :: "string list"
  rq_Query :: "(string \<times> string) list"
  rq_Authorization :: string
  rq_ContentType :: string
  rq_Body :: string
  rq_ID :: string
  rq_Principal :: "Principal option"
  rq_Project :: "Project option"

text \<open>What the decoder says of a body, read up to the limit: a value, and whether another follows it.\<close>

datatype 'a decoded =
    Decoded 'a bool | BodyTooLarge | WrongType string | BadSyntax | NoBody | UnknownField | NotDecoded

record Decoders =
  dc_ParseMediaType :: "string \<Rightarrow> string option"
  dc_login :: "int \<Rightarrow> string \<Rightarrow> loginRequest decoded"
  dc_project :: "int \<Rightarrow> string \<Rightarrow> createProjectRequest decoded"
  dc_target :: "int \<Rightarrow> string \<Rightarrow> targetInput decoded"
  dc_scan :: "int \<Rightarrow> string \<Rightarrow> createScanRequest decoded"
  dc_transition :: "int \<Rightarrow> string \<Rightarrow> transitionRequest decoded"
  dc_policy :: "int \<Rightarrow> string \<Rightarrow> policyResponse decoded"
  dc_user :: "int \<Rightarrow> string \<Rightarrow> createUserRequest decoded"
  dc_update :: "int \<Rightarrow> string \<Rightarrow> updateUserRequest decoded"

record errBadRequest =
  bq_code :: ErrorCode
  bq_status :: nat
  bq_message :: string

definition badRequest :: "string \<Rightarrow> errBadRequest" where
  "badRequest m = \<lparr>bq_code = CodeInvalidRequest, bq_status = 400, bq_message = m\<rparr>"

text \<open>\<open>EqualFold\<close> on a media type, which is ASCII.\<close>

definition requireJSONContentType :: "Decoders \<Rightarrow> Request \<Rightarrow> errBadRequest option" where
  "requireJSONContentType d r =
     (let refusal = \<lparr>bq_code = CodeUnsupportedMedia, bq_status = 415, bq_message = ''Content-Type must be application/json''\<rparr> in
      if rq_ContentType r = [] then Some refusal
      else case dc_ParseMediaType d (rq_ContentType r) of
        None \<Rightarrow> Some refusal
      | Some mediaType \<Rightarrow> if map lower_byte mediaType \<noteq> ''application/json'' then Some refusal else None)"

definition decodeError :: "'a decoded \<Rightarrow> int \<Rightarrow> errBadRequest" where
  "decodeError e maxBytes =
     (case e of
        BodyTooLarge \<Rightarrow> \<lparr>bq_code = CodePayloadTooLarge, bq_status = 413,
          bq_message = ''request body must not exceed '' @ FormatInt maxBytes @ '' bytes''\<rparr>
      | WrongType f \<Rightarrow> badRequest (''field '' @ [CHR 0x22] @ f @ [CHR 0x22] @ '' has the wrong type'')
      | BadSyntax \<Rightarrow> badRequest ''request body is not valid JSON''
      | NoBody \<Rightarrow> badRequest ''request body is required''
      | UnknownField \<Rightarrow> badRequest ''request body contains an unrecognised field''
      | _ \<Rightarrow> badRequest ''request body could not be parsed'')"

definition decodeJSON :: "Decoders \<Rightarrow> (int \<Rightarrow> string \<Rightarrow> 'a decoded) \<Rightarrow> int \<Rightarrow> Request \<Rightarrow> errBadRequest + 'a" where
  "decodeJSON d dec maxBytes r =
     (case requireJSONContentType d r of
        Some e \<Rightarrow> Inl e
      | None \<Rightarrow>
          (case dec maxBytes (rq_Body r) of
             Decoded v again \<Rightarrow> if again then Inl (badRequest ''request body must contain exactly one JSON object'') else Inr v
           | e \<Rightarrow> Inl (decodeError e maxBytes)))"

definition query_value :: "Request \<Rightarrow> string \<Rightarrow> string" where
  "query_value r key = (case map_of (rq_Query r) key of None \<Rightarrow> [] | Some v \<Rightarrow> v)"

abbreviation DefaultPageLimit :: int where "DefaultPageLimit \<equiv> 25"
abbreviation MaxPageLimit :: int where "MaxPageLimit \<equiv> 100"

text \<open>\<open>strconv.Atoi\<close> reads a 64-bit integer.\<close>

definition intQuery :: "Request \<Rightarrow> string \<Rightarrow> int \<Rightarrow> errBadRequest + int" where
  "intQuery r key fallback =
     (let raw = query_value r key in
      if raw = [] then Inr fallback
      else case ParseInt64 raw of
        None \<Rightarrow> Inl (badRequest (key @ '' must be an integer''))
      | Some n \<Rightarrow> Inr n)"

definition pageFrom :: "Request \<Rightarrow> errBadRequest + int \<times> int" where
  "pageFrom r =
     (case intQuery r ''limit'' DefaultPageLimit of
        Inl e \<Rightarrow> Inl e
      | Inr limit \<Rightarrow>
          if limit < 1 then Inl (badRequest ''limit must be at least 1'')
          else if limit > MaxPageLimit then Inl (badRequest (''limit must not exceed '' @ FormatInt MaxPageLimit))
          else case intQuery r ''offset'' 0 of
            Inl e \<Rightarrow> Inl e
          | Inr offset \<Rightarrow> if offset < 0 then Inl (badRequest ''offset must not be negative'') else Inr (limit, offset))"

definition hex_digit :: "char \<Rightarrow> bool" where
  "hex_digit c = (c \<in> set ''0123456789abcdefABCDEF'')"

definition isUUID :: "string \<Rightarrow> bool" where
  "isUUID v = (let parts = Split v (CHR ''-'') in
     map length parts = [8, 4, 4, 4, 12] \<and> list_all (list_all hex_digit) parts)"

definition pathUUID :: "string \<Rightarrow> string \<Rightarrow> errBadRequest + string" where
  "pathUUID name v =
     (if v = [] then Inl (badRequest (name @ '' is required''))
      else if \<not> isUUID v then Inl (badRequest (name @ '' must be a UUID'')) else Inr v)"

section \<open>Writing responses\<close>

definition writeJSON :: "nat \<Rightarrow> body \<Rightarrow> Response" where
  "writeJSON status b = \<lparr>rp_Status = status,
     rp_Header = [(''Content-Type'', ''application/json; charset=utf-8''), (''X-Content-Type-Options'', ''nosniff'')],
     rp_Body = b\<rparr>"

definition writeError :: "Request \<Rightarrow> nat \<Rightarrow> ErrorCode \<Rightarrow> message \<Rightarrow> Response" where
  "writeError r status code m = writeJSON status (ErrorBody code m (rq_ID r))"

definition writeRequestError :: "Request \<Rightarrow> errBadRequest \<Rightarrow> Response" where
  "writeRequestError r e = writeError r (bq_status e) (bq_code e) (Text (bq_message e))"

definition with_header :: "string \<Rightarrow> string \<Rightarrow> Response \<Rightarrow> Response" where
  "with_header k v x = x\<lparr>rp_Header := (k, v) # rp_Header x\<rparr>"

definition internalError :: "Request \<Rightarrow> Response" where
  "internalError r = writeError r 500 CodeInternal (Text ''internal error'')"

section \<open>Lemmas\<close>

lemma pageFrom_bounds: "pageFrom r = Inr (limit, offset) \<Longrightarrow> 1 \<le> limit \<and> limit \<le> MaxPageLimit \<and> 0 \<le> offset"
  by (auto simp: pageFrom_def split: sum.splits if_splits)

lemma policy_wire_roundtrip: "fromPolicyRequest (toPolicyResponse p) = p" "toPolicyResponse (fromPolicyRequest b) = b"
proof -
  have r: "\<lparr>r_Kind = r_Kind x, Selector = Selector x, r_Max = r_Max x, r_Level = r_Level x\<rparr> = x" for x :: Rule by (cases x) simp
  show "fromPolicyRequest (toPolicyResponse p) = p"
    by (cases p) (simp add: fromPolicyRequest_def toPolicyResponse_def o_def r)
  have l: "\<lparr>lr_Kind = lr_Kind x, lr_Selector = lr_Selector x, lr_Max = lr_Max x, lr_Level = lr_Level x\<rparr> = x" for x :: policyRuleResponse
    by (cases x) simp
  show "toPolicyResponse (fromPolicyRequest b) = b"
    by (cases b) (simp add: fromPolicyRequest_def toPolicyResponse_def o_def l)
qed

lemma decodeJSON_errors: "decodeJSON d dec n r = Inl e \<Longrightarrow> bq_status e \<in> {400, 413, 415}"
  by (auto simp: decodeJSON_def requireJSONContentType_def decodeError_def badRequest_def Let_def
      split: option.splits decoded.splits if_splits)

end
