(* ===== verification/Api.thy ===== *)
theory Api
  imports Api_Wire
begin

text \<open>
  The API: \<open>internal/httpapi\<close>. A handler is a function from a request and the world to a response and the
  world; middleware is a function on handlers; the interfaces of the stores are records of functions, with
  reads that leave the world alone. Responses are as in \<open>Api_Wire\<close>. Logging, the delay of a login and the
  random request identifier are left out; the identifier is a field of the request. The lemmas of
  \<open>Api_Laws\<close> say who reaches which route and what a request can change.
\<close>

section \<open>Interfaces\<close>

text \<open>A store refuses with one of its errors or is broken.\<close>

datatype 'e failed = Refused 'e | Broken

record 'w ProjectOps =
  P_Create :: "NewProject \<Rightarrow> Actor \<Rightarrow> 'w \<Rightarrow> (project_store_error failed + Project) \<times> 'w"
  P_Get :: "string \<Rightarrow> 'w \<Rightarrow> project_store_error failed + Project"
  P_Exists :: "string \<Rightarrow> 'w \<Rightarrow> project_store_error failed + bool"
  P_List :: "ProjectPage \<Rightarrow> Scope \<Rightarrow> 'w \<Rightarrow> project_store_error failed + Project list \<times> bool"
  P_SetArchived :: "string \<Rightarrow> bool \<Rightarrow> Actor \<Rightarrow> 'w \<Rightarrow> (project_store_error failed + Project) \<times> 'w"
  P_GetAny :: "string \<Rightarrow> 'w \<Rightarrow> project_store_error failed + Project"

record 'w ScanOps =
  S_Create :: "NewScan \<Rightarrow> Actor \<Rightarrow> 'w \<Rightarrow> (scan_store_error failed + Scan) \<times> 'w"
  S_Get :: "string \<Rightarrow> 'w \<Rightarrow> scan_store_error failed + Scan"
  S_ListByProject :: "string \<Rightarrow> int \<Rightarrow> int \<Rightarrow> 'w \<Rightarrow> scan_store_error failed + Scan list \<times> bool"
  S_Finalize :: "string \<Rightarrow> ScanState \<Rightarrow> FailureReason \<Rightarrow> time \<Rightarrow> 'w \<Rightarrow> scan_store_error failed option \<times> 'w"

record 'w FindingOps =
  F_ListByProject :: "string \<Rightarrow> FindingFilter \<Rightarrow> FindingPage \<Rightarrow> 'w \<Rightarrow> store_error failed + FindingRecord list \<times> bool"
  F_ListByScan :: "string \<Rightarrow> FindingPage \<Rightarrow> 'w \<Rightarrow> store_error failed + FindingRecord list \<times> bool"
  F_ListIssues :: "string \<Rightarrow> FindingPage \<Rightarrow> 'w \<Rightarrow> analysis_error failed + IssueRecord list \<times> bool"
  F_LatestRiskScore :: "string \<Rightarrow> 'w \<Rightarrow> analysis_error failed + RiskRecord"
  F_RiskHistory :: "string \<Rightarrow> int \<Rightarrow> 'w \<Rightarrow> analysis_error failed + RiskRecord list"
  F_LoadRiskInputs :: "string \<Rightarrow> 'w \<Rightarrow> analysis_error failed + RiskSubject list \<times> RiskContext"
  F_Transition :: "string \<Rightarrow> TransitionRequest \<Rightarrow> Actor \<Rightarrow> 'w \<Rightarrow> (store_error failed + TransitionRecord) \<times> 'w"
  F_History :: "string \<Rightarrow> 'w \<Rightarrow> store_error failed + TransitionRecord list"
  F_ProjectOf :: "string \<Rightarrow> 'w \<Rightarrow> store_error failed + string"

record 'w PolicyOps =
  G_Get :: "string \<Rightarrow> 'w \<Rightarrow> policy_store_error failed + Policy"
  G_Set :: "string \<Rightarrow> Policy \<Rightarrow> Actor \<Rightarrow> 'w \<Rightarrow> policy_store_error failed option \<times> 'w"
  G_GetResult :: "string \<Rightarrow> 'w \<Rightarrow> policy_store_error failed + PolicyResultRecord"

record 'w ComponentOps =
  C_ByScan :: "string \<Rightarrow> int \<Rightarrow> int \<Rightarrow> 'w \<Rightarrow> bom_store_error failed + BomRecord list \<times> bool"
  C_ByProject :: "string \<Rightarrow> int \<Rightarrow> int \<Rightarrow> 'w \<Rightarrow> bom_store_error failed + BomRecord list \<times> bool"

record 'w UserOps =
  U_Authenticate :: "string \<Rightarrow> string \<Rightarrow> 'w \<Rightarrow> user_store_error failed + User"
  U_ByID :: "string \<Rightarrow> 'w \<Rightarrow> user_store_error failed + User"
  U_ScopeOf :: "User \<Rightarrow> 'w \<Rightarrow> user_store_error failed + Scope"
  U_RecordLogin :: "string \<Rightarrow> 'w \<Rightarrow> user_store_error failed option \<times> 'w"
  U_Create :: "NewUser \<Rightarrow> Actor \<Rightarrow> 'w \<Rightarrow> (user_store_error failed + User) \<times> 'w"
  U_List :: "'w \<Rightarrow> user_store_error failed + User list"
  U_SetRole :: "string \<Rightarrow> UserRole \<Rightarrow> Actor \<Rightarrow> 'w \<Rightarrow> (user_store_error failed + User) \<times> 'w"
  U_SetDisabled :: "string \<Rightarrow> bool \<Rightarrow> Actor \<Rightarrow> 'w \<Rightarrow> (user_store_error failed + User) \<times> 'w"
  U_SetMembership :: "string \<Rightarrow> string list \<Rightarrow> Actor \<Rightarrow> 'w \<Rightarrow> user_store_error failed option \<times> 'w"
  U_MembershipOf :: "string \<Rightarrow> 'w \<Rightarrow> user_store_error failed + string list"
  U_GrantMembership :: "string \<Rightarrow> string \<Rightarrow> 'w \<Rightarrow> user_store_error failed option \<times> 'w"

text \<open>The optional stores are the ones a deployment may leave out. A probe says whether its dependency answers.\<close>

record 'w Server =
  srv_lib :: golib
  srv_mac :: hmac
  srv_service :: string
  srv_version :: string
  srv_probes :: "(string \<times> ('w \<Rightarrow> bool)) list"
  srv_authenticator :: Authenticator
  srv_projects :: "'w ProjectOps"
  srv_scans :: "'w ScanOps"
  srv_enqueue :: "Job \<Rightarrow> 'w \<Rightarrow> queue_error option \<times> 'w"
  srv_validate :: "Target \<Rightarrow> target_error failed + Target"
  srv_findings :: "'w FindingOps option"
  srv_policies :: "'w PolicyOps option"
  srv_components :: "'w ComponentOps option"
  srv_users :: "'w UserOps option"
  srv_sessions :: "Sessions option"
  srv_maxRequestBytes :: int
  srv_now :: "'w \<Rightarrow> time"
  srv_decoders :: Decoders

abbreviation DefaultMaxRequestBytes :: int where "DefaultMaxRequestBytes \<equiv> 1048576"

text \<open>\<open>New\<close>: the required dependencies, and users and sessions together or not at all.\<close>

datatype server_error = NoAuthenticator | NoProjectStore | NoScanStore | NoQueue | HalfIdentity

definition New_Server :: "Authenticator option \<Rightarrow> 'w ProjectOps option \<Rightarrow> 'w ScanOps option \<Rightarrow>
    (Job \<Rightarrow> 'w \<Rightarrow> queue_error option \<times> 'w) option \<Rightarrow> 'w Server \<Rightarrow> server_error list + 'w Server" where
  "New_Server auth projects scans queue opts =
     (let errs = (if auth = None then [NoAuthenticator] else []) @
            (case projects of None \<Rightarrow> [NoProjectStore] | Some _ \<Rightarrow> []) @
            (case scans of None \<Rightarrow> [NoScanStore] | Some _ \<Rightarrow> []) @
            (case queue of None \<Rightarrow> [NoQueue] | Some _ \<Rightarrow> []) @
            (if Option.is_none (srv_users opts) \<noteq> Option.is_none (srv_sessions opts) then [HalfIdentity] else [])
      in case (auth, projects, scans, queue) of
           (Some a, Some p, Some s, Some q) \<Rightarrow>
             if errs \<noteq> [] then Inl errs
             else Inr (opts\<lparr>srv_authenticator := a, srv_projects := p, srv_scans := s, srv_enqueue := q,
               srv_maxRequestBytes := (if srv_maxRequestBytes opts \<le> 0 then DefaultMaxRequestBytes else srv_maxRequestBytes opts)\<rparr>)
         | _ \<Rightarrow> Inl errs)"

type_synonym 'w handler = "Request \<Rightarrow> 'w \<Rightarrow> Response \<times> 'w"

section \<open>Credentials\<close>

definition bearerToken :: "string \<Rightarrow> string" where
  "bearerToken header = (if length header < 7 \<or> map lower_byte (take 7 header) \<noteq> ''bearer '' then [] else drop 7 header)"

definition roleForUser :: "UserRole \<Rightarrow> Role" where
  "roleForUser r =
     (if r = UserRoleAdmin then RoleAdmin else if r = UserRoleEngineer then RoleService
      else if r = UserRoleViewer then RoleViewer else RoleViewer)"

definition principalForSession :: "'w Server \<Rightarrow> string \<Rightarrow> 'w \<Rightarrow> auth_error + Principal" where
  "principalForSession S token w =
     (case (srv_sessions S, srv_users S) of
        (Some sessions, Some users) \<Rightarrow>
          (case Verify (srv_mac S) sessions token (srv_now S w) of
             Inl _ \<Rightarrow> Inl Unauthenticated
           | Inr userID \<Rightarrow>
               (case U_ByID users userID w of
                  Inl _ \<Rightarrow> Inl Unauthenticated
                | Inr user \<Rightarrow>
                    if us_Disabled user then Inl Unauthenticated
                    else case U_ScopeOf users user w of
                      Inl _ \<Rightarrow> Inl Unauthenticated
                    | Inr scope \<Rightarrow> Inr \<lparr>pr_Label = us_Email user, pr_Role = roleForUser (us_Role user),
                        pr_Scope = scope, pr_UserID = us_ID user\<rparr>))
      | _ \<Rightarrow> Inl Unauthenticated)"

definition authenticate :: "'w Server \<Rightarrow> string \<Rightarrow> 'w \<Rightarrow> auth_error + Principal" where
  "authenticate S header w =
     (let token = bearerToken header in
      if LooksLikeSession token then principalForSession S token w
      else Authenticate (srv_lib S) (srv_authenticator S) header)"

definition unauthenticated :: "Request \<Rightarrow> Response" where
  "unauthenticated r = writeError r 401 CodeUnauthenticated (Text ''valid credentials are required'')"

definition challenge :: "Response \<Rightarrow> Response" where
  "challenge x = with_header ''WWW-Authenticate'' (''Bearer realm='' @ [CHR 0x22] @ ''secureops'' @ [CHR 0x22]) x"

definition requireAuth :: "'w Server \<Rightarrow> 'w handler \<Rightarrow> 'w handler" where
  "requireAuth S next_handler r w =
     (case authenticate S (rq_Authorization r) w of
        Inl _ \<Rightarrow> (challenge (unauthenticated r), w)
      | Inr p \<Rightarrow> next_handler (r\<lparr>rq_Principal := Some p\<rparr>) w)"

definition requireRole :: "Role \<Rightarrow> 'w handler \<Rightarrow> 'w handler" where
  "requireRole required next_handler r w =
     (case rq_Principal r of
        None \<Rightarrow> (unauthenticated r, w)
      | Some p \<Rightarrow>
          if \<not> Role_Allows (pr_Role p) required
          then (writeError r 403 CodeForbidden (Text ''this credential is not permitted to perform this action''), w)
          else next_handler r w)"

definition actorFrom :: "Request \<Rightarrow> Actor" where
  "actorFrom r =
     (case rq_Principal r of
        None \<Rightarrow> TokenActor []
      | Some p \<Rightarrow>
          if IsUser p then (case UserActor (pr_UserID p) of Inr a \<Rightarrow> a | Inl _ \<Rightarrow> TokenActor (pr_Label p))
          else TokenActor (pr_Label p))"

section \<open>Scope\<close>

definition scopeFrom :: "Request \<Rightarrow> Scope" where
  "scopeFrom r = (case rq_Principal r of Some p \<Rightarrow> pr_Scope p | None \<Rightarrow> zero_Scope)"

definition notFound :: "Request \<Rightarrow> string \<Rightarrow> Response" where
  "notFound r m = writeError r 404 CodeNotFound (Text m)"

definition invalid :: "Request \<Rightarrow> string \<Rightarrow> Response" where
  "invalid r m = writeError r 400 CodeInvalidRequest (Text m)"

definition scopedProject :: "'w Server \<Rightarrow> string \<Rightarrow> 'w handler \<Rightarrow> 'w handler" where
  "scopedProject S projectID next_handler r w =
     (if \<not> isUUID projectID then (invalid r ''project id must be a uuid'', w)
      else case P_GetAny (srv_projects S) projectID w of
        Inl _ \<Rightarrow> (notFound r ''project not found'', w)
      | Inr project \<Rightarrow>
          if \<not> Scope_Allows (srv_lib S) (scopeFrom r) (pj_Slug project) then (notFound r ''project not found'', w)
          else next_handler (r\<lparr>rq_Project := Some project\<rparr>) w)"

text \<open>\<open>projectFrom\<close> panics without a project, and \<open>recoverPanic\<close> answers for it.\<close>

definition projectFrom :: "(Project \<Rightarrow> 'w handler) \<Rightarrow> 'w handler" where
  "projectFrom h r w = (case rq_Project r of None \<Rightarrow> (internalError r, w) | Some p \<Rightarrow> h p r w)"

definition inScope :: "'w Server \<Rightarrow> Request \<Rightarrow> string \<Rightarrow> 'w \<Rightarrow> bool" where
  "inScope S r projectID w =
     (if IsGlobal (scopeFrom r) then True
      else case P_GetAny (srv_projects S) projectID w of
        Inl _ \<Rightarrow> False
      | Inr project \<Rightarrow> Scope_Allows (srv_lib S) (scopeFrom r) (pj_Slug project))"

definition findingInScope :: "'w Server \<Rightarrow> 'w FindingOps \<Rightarrow> Request \<Rightarrow> string \<Rightarrow> 'w \<Rightarrow> bool" where
  "findingInScope S F r findingID w =
     (if IsGlobal (scopeFrom r) then True
      else case F_ProjectOf F findingID w of Inl _ \<Rightarrow> False | Inr projectID \<Rightarrow> inScope S r projectID w)"

section \<open>Health and login\<close>

definition handleLiveness :: "'w Server \<Rightarrow> 'w handler" where
  "handleLiveness S r w = (writeJSON 200 (LivenessBody ''ok'' (srv_service S) (srv_version S)), w)"

definition handleReadiness :: "'w Server \<Rightarrow> 'w handler" where
  "handleReadiness S r w =
     (let states = map (\<lambda>(name, check). if check w then \<lparr>ds_Name = name, ds_Status = ''ok'', ds_Error = []\<rparr>
            else \<lparr>ds_Name = name, ds_Status = ''unavailable'', ds_Error = ''dependency check failed''\<rparr>) (srv_probes S)
      in if list_ex (\<lambda>s. ds_Status s \<noteq> ''ok'') states then (writeJSON 503 (ReadinessBody ''degraded'' states), w)
         else (writeJSON 200 (ReadinessBody ''ok'' states), w))"

definition no_accounts :: "Request \<Rightarrow> Response" where
  "no_accounts r = writeError r 501 CodeInternal (Text ''user accounts are not configured on this server'')"

definition handleLogin :: "'w Server \<Rightarrow> 'w handler" where
  "handleLogin S r w =
     (case (srv_users S, srv_sessions S) of
        (Some users, Some sessions) \<Rightarrow>
          (case decodeJSON (srv_decoders S) (dc_login (srv_decoders S)) (srv_maxRequestBytes S) r of
             Inl e \<Rightarrow> (writeRequestError r e, w)
           | Inr req \<Rightarrow>
               (case U_Authenticate users (lg_Email req) (lg_Password req) w of
                  Inl _ \<Rightarrow> (challenge (writeError r 401 CodeUnauthenticated (Text ''the email or password is incorrect'')), w)
                | Inr user \<Rightarrow>
                    let now = srv_now S w; token = Session_Issue (srv_mac S) sessions (us_ID user) now;
                        w = snd (U_RecordLogin users (us_ID user) w)
                    in (writeJSON 200 (LoginBody token (now + SessionTTL) user), w)))
      | _ \<Rightarrow> (no_accounts r, w))"

definition handleWhoAmI :: "'w Server \<Rightarrow> 'w handler" where
  "handleWhoAmI S r w =
     (case rq_Principal r of
        None \<Rightarrow> (unauthenticated r, w)
      | Some p \<Rightarrow>
          let role = (case srv_users S of
                None \<Rightarrow> pr_Role p
              | Some users \<Rightarrow> if IsUser p then (case U_ByID users (pr_UserID p) w of Inr u \<Rightarrow> us_Role u | Inl _ \<Rightarrow> pr_Role p)
                  else pr_Role p)
          in (writeJSON 200 (WhoAmIBody \<lparr>wi_Label = pr_Label p, wi_Role = role, wi_UserID = pr_UserID p,
               wi_Global = IsGlobal (pr_Scope p), wi_Slugs = Slugs (pr_Scope p)\<rparr>), w))"

section \<open>Projects\<close>

definition handleCreateProject :: "'w Server \<Rightarrow> 'w handler" where
  "handleCreateProject S r w =
     (case decodeJSON (srv_decoders S) (dc_project (srv_decoders S)) (srv_maxRequestBytes S) r of
        Inl e \<Rightarrow> (writeRequestError r e, w)
      | Inr req \<Rightarrow>
          (case P_Create (srv_projects S) \<lparr>np_Name = cq_Name req, np_Slug = cq_Slug req, np_Description = cq_Description req,
              np_Environment = cq_Environment req, np_Criticality = cq_Criticality req,
              np_InternetFacing = cq_InternetFacing req\<rparr> (actorFrom r) w of
             (Inl (Refused (InvalidProject e)), w) \<Rightarrow> (writeError r 400 CodeInvalidRequest (OfProject e), w)
           | (Inl (Refused (SlugTaken _)), w) \<Rightarrow>
               (writeError r 409 CodeConflict (Text ''a project with that slug already exists''), w)
           | (Inl _, w) \<Rightarrow> (internalError r, w)
           | (Inr project, w) \<Rightarrow>
               let w = (case (rq_Principal r, srv_users S) of
                     (Some p, Some users) \<Rightarrow>
                       if IsUser p \<and> \<not> IsGlobal (pr_Scope p) then snd (U_GrantMembership users (pr_UserID p) (pj_ID project) w) else w
                   | _ \<Rightarrow> w)
               in (with_header ''Location'' (''/api/v1/projects/'' @ pj_ID project) (writeJSON 201 (ProjectBody project)), w)))"

definition handleGetProject :: "'w Server \<Rightarrow> 'w handler" where
  "handleGetProject S = projectFrom (\<lambda>p r w. (writeJSON 200 (ProjectBody p), w))"

definition handleListProjects :: "'w Server \<Rightarrow> 'w handler" where
  "handleListProjects S r w =
     (case pageFrom r of
        Inl e \<Rightarrow> (writeRequestError r e, w)
      | Inr (limit, offset) \<Rightarrow>
          (case P_List (srv_projects S) \<lparr>pp_Limit = nat limit, pp_Offset = nat offset,
              pp_Archived = (query_value r ''archived'' = ''true'')\<rparr> (scopeFrom r) w of
             Inl _ \<Rightarrow> (internalError r, w)
           | Inr (found, hasMore) \<Rightarrow> (writeJSON 200 (ProjectsBody found limit offset hasMore), w)))"

definition handleArchiveProject :: "'w Server \<Rightarrow> bool \<Rightarrow> 'w handler" where
  "handleArchiveProject S archived = projectFrom (\<lambda>p r w.
     (case P_SetArchived (srv_projects S) (pj_ID p) archived (actorFrom r) w of
        (Inl _, w) \<Rightarrow> (internalError r, w)
      | (Inr updated, w) \<Rightarrow> (writeJSON 200 (ProjectBody updated), w)))"

section \<open>Scans\<close>

definition submittableKinds :: "TargetKind list" where
  "submittableKinds = [KindRepository, KindImage, KindEndpoint]"

definition isSubmittableKind :: "TargetKind \<Rightarrow> bool" where
  "isSubmittableKind k = list_ex (\<lambda>allowed. k = allowed) submittableKinds"

definition bad_kind :: "Request \<Rightarrow> Response" where
  "bad_kind r = invalid r (''target.kind must be one of '' @ Join submittableKinds '', '')"

definition submitted_target :: "targetInput \<Rightarrow> Target" where
  "submitted_target t = \<lparr>t_Kind = ti_Kind t, t_RepositoryURL = ti_RepositoryURL t, t_Ref = ti_Ref t, t_Path = [],
     t_Image = ti_Image t, t_EndpointURL = ti_EndpointURL t\<rparr>"

definition handleValidateTarget :: "'w Server \<Rightarrow> 'w handler" where
  "handleValidateTarget S r w =
     (case decodeJSON (srv_decoders S) (dc_target (srv_decoders S)) (srv_maxRequestBytes S) r of
        Inl e \<Rightarrow> (writeRequestError r e, w)
      | Inr t \<Rightarrow>
          if \<not> isSubmittableKind (ti_Kind t) then (bad_kind r, w)
          else case srv_validate S (submitted_target t) of
            Inl (Refused e) \<Rightarrow> (writeError r 400 CodeInvalidRequest (OfTarget e), w)
          | Inl Broken \<Rightarrow> (internalError r, w)
          | Inr target \<Rightarrow> (writeJSON 200 (TargetBody target), w))"

definition failUnqueuedScan :: "'w Server \<Rightarrow> string \<Rightarrow> 'w \<Rightarrow> 'w" where
  "failUnqueuedScan S scanID w = snd (S_Finalize (srv_scans S) scanID StatusFailed FailureNotEnqueued (srv_now S w) w)"

definition handleCreateScan :: "'w Server \<Rightarrow> 'w handler" where
  "handleCreateScan S r w =
     (case decodeJSON (srv_decoders S) (dc_scan (srv_decoders S)) (srv_maxRequestBytes S) r of
        Inl e \<Rightarrow> (writeRequestError r e, w)
      | Inr req \<Rightarrow>
          if \<not> isUUID (sq_ProjectID req) then (invalid r ''project_id must be a UUID'', w)
          else if \<not> isSubmittableKind (ti_Kind (sq_Target req)) then (bad_kind r, w)
          else case srv_validate S (submitted_target (sq_Target req)) of
            Inl (Refused e) \<Rightarrow> (writeError r 400 CodeInvalidRequest (OfTarget e), w)
          | Inl Broken \<Rightarrow> (internalError r, w)
          | Inr target \<Rightarrow>
              (case P_Exists (srv_projects S) (sq_ProjectID req) w of
                 Inl _ \<Rightarrow> (internalError r, w)
               | Inr False \<Rightarrow> (notFound r ''project not found'', w)
               | Inr True \<Rightarrow>
                   (case S_Create (srv_scans S) \<lparr>ns_ProjectID = sq_ProjectID req, ns_RepositoryID = sq_RepositoryID req,
                       ns_Target = target, ns_CommitSHA = sq_CommitSHA req, ns_Branch = sq_Branch req,
                       ns_Scanners = sq_Scanners req\<rparr> (actorFrom r) w of
                      (Inl (Refused (InvalidScan e)), w) \<Rightarrow> (writeError r 400 CodeInvalidRequest (OfScan e), w)
                    | (Inl _, w) \<Rightarrow> (internalError r, w)
                    | (Inr scan, w) \<Rightarrow>
                        (case srv_enqueue S \<lparr>j_ScanID = sc_ID scan, j_ProjectID = sc_ProjectID scan, j_Target = target,
                            j_Scanners = sc_RequestedScanners scan, j_EnqueuedAt = srv_now S w, j_Attempt = 1\<rparr> w of
                           (Some _, w) \<Rightarrow> (internalError r, failUnqueuedScan S (sc_ID scan) w)
                         | (None, w) \<Rightarrow> (with_header ''Location'' (''/api/v1/scans/'' @ sc_ID scan)
                             (writeJSON 202 (ScanBody (toScanResponse scan))), w)))))"

definition handleGetScan :: "'w Server \<Rightarrow> string \<Rightarrow> 'w handler" where
  "handleGetScan S sid r w =
     (case pathUUID ''scanID'' sid of
        Inl e \<Rightarrow> (writeRequestError r e, w)
      | Inr sid \<Rightarrow>
          (case S_Get (srv_scans S) sid w of
             Inl (Refused ScanNotFound) \<Rightarrow> (notFound r ''scan not found'', w)
           | Inl _ \<Rightarrow> (internalError r, w)
           | Inr scan \<Rightarrow>
               if \<not> inScope S r (sc_ProjectID scan) w then (notFound r ''scan not found'', w)
               else (writeJSON 200 (ScanBody (toScanResponse scan)), w)))"

definition handleListProjectScans :: "'w Server \<Rightarrow> 'w handler" where
  "handleListProjectScans S = projectFrom (\<lambda>p r w.
     (case pageFrom r of
        Inl e \<Rightarrow> (writeRequestError r e, w)
      | Inr (limit, offset) \<Rightarrow>
          (case S_ListByProject (srv_scans S) (pj_ID p) limit offset w of
             Inl _ \<Rightarrow> (internalError r, w)
           | Inr (found, hasMore) \<Rightarrow> (writeJSON 200 (ScansBody (map toScanResponse found) limit offset hasMore), w))))"

text \<open>The scan-addressed reads: the scan is resolved and its project checked before anything is read of it.\<close>

definition scan_in_scope :: "'w Server \<Rightarrow> string \<Rightarrow> string \<Rightarrow> 'w handler \<Rightarrow> 'w handler" where
  "scan_in_scope S refusal sid next_handler r w =
     (if \<not> isUUID sid then (invalid r ''scan id must be a uuid'', w)
      else case S_Get (srv_scans S) sid w of
        Inl _ \<Rightarrow> (notFound r refusal, w)
      | Inr scan \<Rightarrow> if \<not> inScope S r (sc_ProjectID scan) w then (notFound r refusal, w) else next_handler r w)"

section \<open>Findings\<close>

definition unavailable :: "Request \<Rightarrow> string \<Rightarrow> Response" where
  "unavailable r what = writeError r 503 CodeInternal (Text (what @ '' not available on this server''))"

text \<open>\<open>pageFrom\<close> again, where the handler writes the refusal itself as a 400.\<close>

definition finding_page :: "Request \<Rightarrow> string + int \<times> int" where
  "finding_page r = (case pageFrom r of Inl e \<Rightarrow> Inl (bq_message e) | Inr p \<Rightarrow> Inr p)"

definition handleListProjectFindings :: "'w Server \<Rightarrow> 'w handler" where
  "handleListProjectFindings S r w =
     (case srv_findings S of
        None \<Rightarrow> (unavailable r ''findings are'', w)
      | Some F \<Rightarrow> projectFrom (\<lambda>p r w.
          let flt = \<lparr>ff_Status = query_value r ''status'', ff_Severity = query_value r ''severity'',
                     ff_Scanner = query_value r ''scanner''\<rparr> in
          if ff_Status flt \<noteq> [] \<and> \<not> Status_Valid (ff_Status flt) then (invalid r ''unknown status filter'', w)
          else if ff_Severity flt \<noteq> [] \<and> \<not> Severity_Valid (ff_Severity flt) then (invalid r ''unknown severity filter'', w)
          else case finding_page r of
            Inl m \<Rightarrow> (invalid r m, w)
          | Inr (limit, offset) \<Rightarrow>
              (case F_ListByProject F (pj_ID p) flt \<lparr>fp_Limit = limit, fp_Offset = offset\<rparr> w of
                 Inl _ \<Rightarrow> (internalError r, w)
               | Inr (records, hasMore) \<Rightarrow> (writeJSON 200 (FindingsBody (map toFindingResponse records) hasMore), w))) r w)"

definition handleListScanFindings :: "'w Server \<Rightarrow> string \<Rightarrow> 'w handler" where
  "handleListScanFindings S sid r w =
     (case srv_findings S of
        None \<Rightarrow> (unavailable r ''findings are'', w)
      | Some F \<Rightarrow> scan_in_scope S ''scan not found'' sid (\<lambda>r w.
          (case finding_page r of
             Inl m \<Rightarrow> (invalid r m, w)
           | Inr (limit, offset) \<Rightarrow>
               (case F_ListByScan F sid \<lparr>fp_Limit = limit, fp_Offset = offset\<rparr> w of
                  Inl _ \<Rightarrow> (internalError r, w)
                | Inr (records, hasMore) \<Rightarrow> (writeJSON 200 (FindingsBody (map toFindingResponse records) hasMore), w)))) r w)"

definition handleListProjectIssues :: "'w Server \<Rightarrow> 'w handler" where
  "handleListProjectIssues S r w =
     (case srv_findings S of
        None \<Rightarrow> (unavailable r ''issues are'', w)
      | Some F \<Rightarrow> projectFrom (\<lambda>p r w.
          (case finding_page r of
             Inl m \<Rightarrow> (invalid r m, w)
           | Inr (limit, offset) \<Rightarrow>
               (case F_ListIssues F (pj_ID p) \<lparr>fp_Limit = limit, fp_Offset = offset\<rparr> w of
                  Inl _ \<Rightarrow> (internalError r, w)
                | Inr (records, hasMore) \<Rightarrow> (writeJSON 200 (IssuesBody (map toIssueResponse records) hasMore), w)))) r w)"

abbreviation defaultRiskHistory :: int where "defaultRiskHistory \<equiv> 30"
abbreviation maxRiskHistory :: int where "maxRiskHistory \<equiv> 200"

definition history_limit :: "Request \<Rightarrow> int option" where
  "history_limit r =
     (let raw = query_value r ''history'' in
      if raw = [] then Some defaultRiskHistory
      else case ParseInt64 raw of
        None \<Rightarrow> None
      | Some n \<Rightarrow> if n < 0 \<or> n > maxRiskHistory then None else Some n)"

definition handleGetProjectRisk :: "'w Server \<Rightarrow> 'w handler" where
  "handleGetProjectRisk S r w =
     (case srv_findings S of
        None \<Rightarrow> (unavailable r ''risk scoring is'', w)
      | Some F \<Rightarrow> projectFrom (\<lambda>p r w.
          (case history_limit r of
             None \<Rightarrow> (invalid r (''history must be an integer between 0 and '' @ FormatInt maxRiskHistory), w)
           | Some limit \<Rightarrow>
               (case F_LatestRiskScore F (pj_ID p) w of
                  Inl (Refused NoRiskScore) \<Rightarrow> (notFound r ''this project has not been scored yet'', w)
                | Inl _ \<Rightarrow> (internalError r, w)
                | Inr latest \<Rightarrow>
                    if limit > 0
                    then (case F_RiskHistory F (pj_ID p) limit w of
                        Inl _ \<Rightarrow> (internalError r, w)
                      | Inr history \<Rightarrow> (writeJSON 200 (RiskBody (toRiskResponse latest history)), w))
                    else (writeJSON 200 (RiskBody (toRiskResponse latest [])), w)))) r w)"

definition handleGetProjectRemediation :: "'w Server \<Rightarrow> 'w handler" where
  "handleGetProjectRemediation S r w =
     (case srv_findings S of
        None \<Rightarrow> (unavailable r ''remediation is'', w)
      | Some F \<Rightarrow> projectFrom (\<lambda>p r w.
          (case F_LoadRiskInputs F (pj_ID p) w of
             Inl _ \<Rightarrow> (internalError r, w)
           | Inr (subjects, ctx) \<Rightarrow>
               let plan = Build (srv_lib S) subjects ctx in
               (writeJSON 200 (RemediationBody \<lparr>xm_Score = plan_Score plan, xm_Addressable = plan_Addressable plan,
                  xm_Actions = plan_Actions plan\<rparr>), w))) r w)"

definition finding_addressed :: "'w Server \<Rightarrow> string \<Rightarrow> ('w FindingOps \<Rightarrow> 'w handler) \<Rightarrow> 'w handler" where
  "finding_addressed S fid next_handler r w =
     (case srv_findings S of
        None \<Rightarrow> (unavailable r ''findings are'', w)
      | Some F \<Rightarrow>
          if \<not> isUUID fid then (invalid r ''finding id must be a uuid'', w)
          else if \<not> findingInScope S F r fid w then (notFound r ''finding not found'', w)
          else next_handler F r w)"

definition handleTransitionFinding :: "'w Server \<Rightarrow> string \<Rightarrow> 'w handler" where
  "handleTransitionFinding S fid = finding_addressed S fid (\<lambda>F r w.
     (case decodeJSON (srv_decoders S) (dc_transition (srv_decoders S)) (srv_maxRequestBytes S) r of
        Inl e \<Rightarrow> (writeRequestError r e, w)
      | Inr req \<Rightarrow>
          (case F_Transition F fid \<lparr>tr_To = tq_Status req, tr_Reason = tq_Reason req, tr_Note = tq_Note req\<rparr> (actorFrom r) w of
             (Inl (Refused TransitionNotAllowed), w) \<Rightarrow> (writeError r 422 CodeInvalidRequest (OfTransition TransitionNotAllowed), w)
           | (Inl (Refused InvalidTransition), w) \<Rightarrow> (writeError r 400 CodeInvalidRequest (OfTransition InvalidTransition), w)
           | (Inl (Refused FindingNotFound), w) \<Rightarrow> (notFound r ''finding not found'', w)
           | (Inl _, w) \<Rightarrow> (internalError r, w)
           | (Inr rc, w) \<Rightarrow> (writeJSON 200 (TransitionBody rc), w))))"

definition handleGetFindingHistory :: "'w Server \<Rightarrow> string \<Rightarrow> 'w handler" where
  "handleGetFindingHistory S fid = finding_addressed S fid (\<lambda>F r w.
     (case F_History F fid w of
        Inl _ \<Rightarrow> (internalError r, w)
      | Inr records \<Rightarrow> (writeJSON 200 (HistoryBody records), w)))"

section \<open>Components\<close>

definition no_components :: "Request \<Rightarrow> Response" where
  "no_components r = writeError r 501 CodeInternal (Text ''component storage is not configured on this server'')"

definition handleListScanComponents :: "'w Server \<Rightarrow> string \<Rightarrow> 'w handler" where
  "handleListScanComponents S sid r w =
     (case srv_components S of
        None \<Rightarrow> (no_components r, w)
      | Some C \<Rightarrow> scan_in_scope S ''scan not found'' sid (\<lambda>r w.
          (case pageFrom r of
             Inl e \<Rightarrow> (writeRequestError r e, w)
           | Inr (limit, offset) \<Rightarrow>
               (case C_ByScan C sid limit offset w of
                  Inl _ \<Rightarrow> (internalError r, w)
                | Inr (found, hasMore) \<Rightarrow> (writeJSON 200 (ComponentsBody found limit offset hasMore), w)))) r w)"

definition handleListProjectComponents :: "'w Server \<Rightarrow> 'w handler" where
  "handleListProjectComponents S r w =
     (case srv_components S of
        None \<Rightarrow> (no_components r, w)
      | Some C \<Rightarrow> projectFrom (\<lambda>p r w.
          (case pageFrom r of
             Inl e \<Rightarrow> (writeRequestError r e, w)
           | Inr (limit, offset) \<Rightarrow>
               (case C_ByProject C (pj_ID p) limit offset w of
                  Inl _ \<Rightarrow> (internalError r, w)
                | Inr (found, hasMore) \<Rightarrow> (writeJSON 200 (ComponentsBody found limit offset hasMore), w)))) r w)"

section \<open>Policy and gate\<close>

definition handleGetProjectPolicy :: "'w Server \<Rightarrow> 'w handler" where
  "handleGetProjectPolicy S r w =
     (case srv_policies S of
        None \<Rightarrow> (unavailable r ''security policies are'', w)
      | Some G \<Rightarrow> projectFrom (\<lambda>p r w.
          (case G_Get G (pj_ID p) w of
             Inl _ \<Rightarrow> (internalError r, w)
           | Inr policy \<Rightarrow> (writeJSON 200 (PolicyBody (toPolicyResponse policy)), w))) r w)"

definition handleSetProjectPolicy :: "'w Server \<Rightarrow> 'w handler" where
  "handleSetProjectPolicy S r w =
     (case srv_policies S of
        None \<Rightarrow> (unavailable r ''security policies are'', w)
      | Some G \<Rightarrow> projectFrom (\<lambda>p r w.
          (case decodeJSON (srv_decoders S) (dc_policy (srv_decoders S)) (srv_maxRequestBytes S) r of
             Inl e \<Rightarrow> (writeRequestError r e, w)
           | Inr b \<Rightarrow>
               let policy = fromPolicyRequest b in
               (case Policy_Validate policy of
                  Some e \<Rightarrow> (writeError r 400 CodeInvalidRequest (OfPolicy e), w)
                | None \<Rightarrow>
                    (case G_Set G (pj_ID p) policy (actorFrom r) w of
                       (Some (Refused (InvalidPolicy e)), w) \<Rightarrow> (writeError r 400 CodeInvalidRequest (OfPolicy e), w)
                     | (Some _, w) \<Rightarrow> (internalError r, w)
                     | (None, w) \<Rightarrow> (writeJSON 200 (PolicyBody (toPolicyResponse policy)), w))))) r w)"

definition handleGetScanGate :: "'w Server \<Rightarrow> string \<Rightarrow> 'w handler" where
  "handleGetScanGate S sid r w =
     (case srv_policies S of
        None \<Rightarrow> (unavailable r ''security policies are'', w)
      | Some G \<Rightarrow> scan_in_scope S ''this scan has not been evaluated against a policy'' sid (\<lambda>r w.
          (case G_GetResult G sid w of
             Inl (Refused NoResult) \<Rightarrow> (notFound r ''this scan has not been evaluated against a policy'', w)
           | Inl _ \<Rightarrow> (internalError r, w)
           | Inr rc \<Rightarrow> (writeJSON 200 (GateBody (toGateResponse rc)), w))) r w)"

section \<open>Users\<close>

fun with_membership :: "'w UserOps \<Rightarrow> 'w \<Rightarrow> User list \<Rightarrow> (User \<times> string list) list option" where
  "with_membership users w [] = Some []"
| "with_membership users w (u # us) =
     (case U_MembershipOf users (us_ID u) w of
        Inl _ \<Rightarrow> None
      | Inr ps \<Rightarrow> map_option (\<lambda>out. (u, ps) # out) (with_membership users w us))"

definition handleListUsers :: "'w Server \<Rightarrow> 'w handler" where
  "handleListUsers S r w =
     (case srv_users S of
        None \<Rightarrow> (no_accounts r, w)
      | Some users \<Rightarrow>
          (case U_List users w of
             Inl _ \<Rightarrow> (internalError r, w)
           | Inr found \<Rightarrow>
               (case with_membership users w found of
                  None \<Rightarrow> (internalError r, w)
                | Some out \<Rightarrow> (writeJSON 200 (UsersBody out), w))))"

definition bad_role :: "Request \<Rightarrow> Response" where
  "bad_role r = invalid r ''role must be one of viewer, engineer, admin''"

definition handleCreateUser :: "'w Server \<Rightarrow> 'w handler" where
  "handleCreateUser S r w =
     (case srv_users S of
        None \<Rightarrow> (no_accounts r, w)
      | Some users \<Rightarrow>
          (case decodeJSON (srv_decoders S) (dc_user (srv_decoders S)) (srv_maxRequestBytes S) r of
             Inl e \<Rightarrow> (writeRequestError r e, w)
           | Inr req \<Rightarrow>
               let (role, ok) = (if uq_Role req = [] then (UserRoleViewer, True) else ParseUserRole (srv_lib S) (uq_Role req)) in
               if \<not> ok then (bad_role r, w)
               else case U_Create users \<lparr>nu_Email = uq_Email req, nu_Password = uq_Password req,
                   nu_DisplayName = uq_DisplayName req, nu_Role = role\<rparr> (actorFrom r) w of
                 (Inl (Refused EmailTaken), w) \<Rightarrow>
                   (writeError r 409 CodeConflict (Text ''an account already exists for that email''), w)
               | (Inl (Refused (UserInvalid e)), w) \<Rightarrow> (writeError r 400 CodeInvalidRequest (OfUser (UserInvalid e)), w)
               | (Inl _, w) \<Rightarrow> (internalError r, w)
               | (Inr user, w) \<Rightarrow> (writeJSON 201 (UserBody user []), w)))"

definition writeUserError :: "Request \<Rightarrow> user_store_error failed \<Rightarrow> Response" where
  "writeUserError r e =
     (case e of
        Refused UserNotFound \<Rightarrow> notFound r ''user not found''
      | Refused LastAdmin \<Rightarrow> writeError r 409 CodeConflict
          (Text ''this would leave no enabled administrator; appoint another one first'')
      | Refused (UnknownProject p) \<Rightarrow> writeError r 400 CodeInvalidRequest (OfUser (UnknownProject p))
      | Refused (UserInvalid u) \<Rightarrow> writeError r 400 CodeInvalidRequest (OfUser (UserInvalid u))
      | _ \<Rightarrow> internalError r)"

text \<open>The three changes of an update, each a transaction of its own.\<close>

definition update_role :: "'w Server \<Rightarrow> 'w UserOps \<Rightarrow> string \<Rightarrow> string option \<Rightarrow> Request \<Rightarrow> User \<Rightarrow> 'w \<Rightarrow> (Response + User) \<times> 'w" where
  "update_role S users uid role r user w =
     (case role of
        None \<Rightarrow> (Inr user, w)
      | Some raw \<Rightarrow>
          (case ParseUserRole (srv_lib S) raw of
             (role, ok) \<Rightarrow>
               if \<not> ok then (Inl (bad_role r), w)
               else case U_SetRole users uid role (actorFrom r) w of
                 (Inl e, w) \<Rightarrow> (Inl (writeUserError r e), w) | (Inr u, w) \<Rightarrow> (Inr u, w)))"

definition update_disabled :: "'w UserOps \<Rightarrow> string \<Rightarrow> bool option \<Rightarrow> Request \<Rightarrow> User \<Rightarrow> 'w \<Rightarrow> (Response + User) \<times> 'w" where
  "update_disabled users uid disabled r user w =
     (case disabled of
        None \<Rightarrow> (Inr user, w)
      | Some d \<Rightarrow>
          (case U_SetDisabled users uid d (actorFrom r) w of
             (Inl e, w) \<Rightarrow> (Inl (writeUserError r e), w) | (Inr u, w) \<Rightarrow> (Inr u, w)))"

definition update_membership :: "'w UserOps \<Rightarrow> string \<Rightarrow> string list option \<Rightarrow> Request \<Rightarrow> 'w \<Rightarrow> Response option \<times> 'w" where
  "update_membership users uid projects r w =
     (case projects of
        None \<Rightarrow> (None, w)
      | Some ps \<Rightarrow>
          (case U_SetMembership users uid ps (actorFrom r) w of
             (Some e, w) \<Rightarrow> (Some (writeUserError r e), w) | (None, w) \<Rightarrow> (None, w)))"

definition handleUpdateUser :: "'w Server \<Rightarrow> string \<Rightarrow> 'w handler" where
  "handleUpdateUser S uid r w =
     (case srv_users S of
        None \<Rightarrow> (no_accounts r, w)
      | Some users \<Rightarrow>
          if \<not> isUUID uid then (invalid r ''user id must be a uuid'', w)
          else case decodeJSON (srv_decoders S) (dc_update (srv_decoders S)) (srv_maxRequestBytes S) r of
            Inl e \<Rightarrow> (writeRequestError r e, w)
          | Inr req \<Rightarrow>
              (case U_ByID users uid w of
                 Inl _ \<Rightarrow> (notFound r ''user not found'', w)
               | Inr user \<Rightarrow>
                   (case update_role S users uid (up_Role req) r user w of
                      (Inl x, w) \<Rightarrow> (x, w)
                    | (Inr user, w) \<Rightarrow>
                        (case update_disabled users uid (up_Disabled req) r user w of
                           (Inl x, w) \<Rightarrow> (x, w)
                         | (Inr user, w) \<Rightarrow>
                             (case update_membership users uid (up_Projects req) r w of
                                (Some x, w) \<Rightarrow> (x, w)
                              | (None, w) \<Rightarrow>
                                  (case U_MembershipOf users uid w of
                                     Inl _ \<Rightarrow> (internalError r, w)
                                   | Inr ps \<Rightarrow> (writeJSON 200 (UserBody user ps), w)))))))"

section \<open>Routes\<close>

definition noRoute :: "'w handler" where
  "noRoute r w = (notFound r ''resource not found'', w)"

text \<open>A pattern with handlers for some methods.\<close>

definition methods :: "(string \<times> 'w handler) list \<Rightarrow> 'w handler" where
  "methods hs r w = (case map_of hs (rq_Method r) of
     None \<Rightarrow> (writeError r 405 CodeMethodInvalid (Text ''method not allowed''), w) | Some h \<Rightarrow> h r w)"

definition root_segment :: "string list \<Rightarrow> bool" where
  "root_segment segs = (segs = [] \<or> segs = [[]])"

text \<open>What follows the project in its subtree; every endpoint is behind \<open>scopedProject\<close>, which runs before \<open>requireRole\<close>.\<close>

definition project_subtree :: "'w Server \<Rightarrow> (string list \<times> (string \<times> 'w handler) list) list" where
  "project_subtree S =
     [([], [(''GET'', handleGetProject S)]),
      ([''scans''], [(''GET'', handleListProjectScans S)]),
      ([''findings''], [(''GET'', handleListProjectFindings S)]),
      ([''issues''], [(''GET'', handleListProjectIssues S)]),
      ([''risk''], [(''GET'', handleGetProjectRisk S)]),
      ([''remediation''], [(''GET'', handleGetProjectRemediation S)]),
      ([''components''], [(''GET'', handleListProjectComponents S)]),
      ([''policy''], [(''GET'', handleGetProjectPolicy S), (''PUT'', requireRole RoleAdmin (handleSetProjectPolicy S))]),
      ([''archive''], [(''POST'', requireRole RoleAdmin (handleArchiveProject S True))]),
      ([''unarchive''], [(''POST'', requireRole RoleAdmin (handleArchiveProject S False))])]"

definition scoped :: "'w Server \<Rightarrow> string \<Rightarrow> (string \<times> 'w handler) list \<Rightarrow> (string \<times> 'w handler) list" where
  "scoped S pid hs = map (\<lambda>(m, h). (m, scopedProject S pid h)) hs"

definition project_routes :: "'w Server \<Rightarrow> string list \<Rightarrow> 'w handler" where
  "project_routes S segs =
     (if root_segment segs
      then methods [(''POST'', requireRole RoleService (handleCreateProject S)), (''GET'', handleListProjects S)]
      else case map_of (project_subtree S) (tl segs) of
        None \<Rightarrow> noRoute
      | Some hs \<Rightarrow> methods (scoped S (hd segs) hs))"

definition finding_routes :: "'w Server \<Rightarrow> string list \<Rightarrow> 'w handler" where
  "finding_routes S segs =
     (if length segs \<noteq> 2 then noRoute
      else if segs ! 1 = ''history'' then methods [(''GET'', handleGetFindingHistory S (segs ! 0))]
      else if segs ! 1 = ''status'' then methods [(''POST'', requireRole RoleService (handleTransitionFinding S (segs ! 0)))]
      else noRoute)"

definition user_routes :: "'w Server \<Rightarrow> string list \<Rightarrow> 'w handler" where
  "user_routes S segs =
     requireRole RoleAdmin
       (if root_segment segs then methods [(''GET'', handleListUsers S), (''POST'', handleCreateUser S)]
        else if length segs = 1 then methods [(''PATCH'', handleUpdateUser S (segs ! 0))]
        else noRoute)"

definition target_routes :: "'w Server \<Rightarrow> string list \<Rightarrow> 'w handler" where
  "target_routes S segs =
     (if segs = [''validate''] then methods [(''POST'', requireRole RoleService (handleValidateTarget S))] else noRoute)"

definition scan_routes :: "'w Server \<Rightarrow> string list \<Rightarrow> 'w handler" where
  "scan_routes S segs =
     (if root_segment segs then methods [(''POST'', requireRole RoleService (handleCreateScan S))]
      else if length segs = 1 then methods [(''GET'', handleGetScan S (segs ! 0))]
      else if length segs \<noteq> 2 then noRoute
      else if segs ! 1 = ''findings'' then methods [(''GET'', handleListScanFindings S (segs ! 0))]
      else if segs ! 1 = ''components'' then methods [(''GET'', handleListScanComponents S (segs ! 0))]
      else if segs ! 1 = ''gate'' then methods [(''GET'', handleGetScanGate S (segs ! 0))]
      else noRoute)"

text \<open>The mounted subtrees: the middleware of the group wraps the whole subtree.\<close>

definition subtrees :: "'w Server \<Rightarrow> (string \<times> (string list \<Rightarrow> 'w handler)) list" where
  "subtrees S = [(''projects'', project_routes S), (''findings'', finding_routes S), (''users'', user_routes S),
     (''targets'', target_routes S), (''scans'', scan_routes S)]"

definition api_routes :: "'w Server \<Rightarrow> string list \<Rightarrow> 'w handler" where
  "api_routes S segs =
     (if segs = [''auth'', ''login''] then methods [(''POST'', handleLogin S)]
      else if segs = [''health''] then methods [(''GET'', handleLiveness S)]
      else if segs = [''auth'', ''me''] then methods [(''GET'', requireAuth S (handleWhoAmI S))]
      else if segs = [] then noRoute
      else case map_of (subtrees S) (hd segs) of
        None \<Rightarrow> noRoute
      | Some h \<Rightarrow> requireAuth S (h (tl segs)))"

definition routes :: "'w Server \<Rightarrow> 'w handler" where
  "routes S r w =
     (let segs = rq_Path r in
      if segs = [''healthz''] then methods [(''GET'', handleLiveness S)] r w
      else if segs = [''readyz''] then methods [(''GET'', handleReadiness S)] r w
      else if take 2 segs = [''api'', ''v1''] then api_routes S (drop 2 segs) r w
      else noRoute r w)"

text \<open>\<open>securityHeaders\<close> and the request identifier are set on every response.\<close>

definition quoted_none :: string where
  "quoted_none = [CHR 0x27] @ ''none'' @ [CHR 0x27]"

definition securityHeaders :: "(string \<times> string) list" where
  "securityHeaders = [(''X-Content-Type-Options'', ''nosniff''), (''X-Frame-Options'', ''DENY''), (''Referrer-Policy'', ''no-referrer''),
     (''Content-Security-Policy'', ''default-src '' @ quoted_none @ ''; frame-ancestors '' @ quoted_none), (''Cache-Control'', ''no-store'')]"

definition ServeHTTP :: "'w Server \<Rightarrow> 'w handler" where
  "ServeHTTP S r w = (case routes S (r\<lparr>rq_Principal := None, rq_Project := None\<rparr>) w of
     (x, w) \<Rightarrow> (x\<lparr>rp_Header := (''X-Request-Id'', rq_ID r) # securityHeaders @ rp_Header x\<rparr>, w))"

end
