(* ===== verification/Api_Laws.thy ===== *)
theory Api_Laws
  imports Api
begin

text \<open>
  What the API guarantees over any stores. A handler that only reads is recognised piece by piece; the routes
  that write are collected in one access policy, \<open>permitted\<close>, and every change of the world is shown to be
  one it allows. The other theorems concern what a request without a credential, and one out of its scope, learns.
\<close>

section \<open>Handlers that only read\<close>

definition reads :: "'w handler \<Rightarrow> bool" where
  "reads h = (\<forall>r w. snd (h r w) = w)"

named_theorems reading \<open>the handlers that leave the world alone\<close>

lemma readsD: "reads h \<Longrightarrow> snd (h r w) = w"
  by (simp add: reads_def)

lemma reads_requireRole [reading]: "reads h \<Longrightarrow> reads (requireRole c h)"
  by (simp add: reads_def requireRole_def split: option.split)

lemma reads_projectFrom [reading]: "(\<And>p. reads (h p)) \<Longrightarrow> reads (projectFrom h)"
  by (simp add: reads_def projectFrom_def split: option.split)

lemma reads_scopedProject [reading]: "reads h \<Longrightarrow> reads (scopedProject S pid h)"
  by (simp add: reads_def scopedProject_def split: sum.split)

lemma reads_scan_in_scope [reading]: "reads h \<Longrightarrow> reads (scan_in_scope S m sid h)"
  by (simp add: reads_def scan_in_scope_def split: sum.split)

lemma reads_finding_addressed [reading]: "(\<And>F. reads (h F)) \<Longrightarrow> reads (finding_addressed S fid h)"
  by (simp add: reads_def finding_addressed_def split: option.split)

lemma reads_noRoute [reading]: "reads noRoute"
  by (simp add: reads_def noRoute_def)

lemma reads_methods [reading]: "(\<And>m h. map_of hs m = Some h \<Longrightarrow> reads h) \<Longrightarrow> reads (methods hs)"
  by (simp add: reads_def methods_def split: option.split)

lemmas store_reads = reads_projectFrom [unfolded reads_def, rule_format] reads_scan_in_scope [unfolded reads_def, rule_format]
  reads_finding_addressed [unfolded reads_def, rule_format]

lemma reads_health [reading]: "reads (handleLiveness S)" "reads (handleReadiness S)" "reads (handleWhoAmI S)"
  by (auto simp: reads_def handleLiveness_def handleReadiness_def handleWhoAmI_def Let_def split: option.split)

lemma reads_projects [reading]: "reads (handleListProjects S)" "reads (handleGetProject S)"
  by (auto simp: reads_def handleListProjects_def handleGetProject_def projectFrom_def split: sum.split option.split)

lemma reads_validate [reading]: "reads (handleValidateTarget S)"
  by (auto simp: reads_def handleValidateTarget_def split: sum.split failed.split)

lemma reads_scans [reading]: "reads (handleGetScan S sid)" "reads (handleListProjectScans S)"
  by (auto simp: reads_def handleGetScan_def handleListProjectScans_def projectFrom_def
      split: sum.split failed.split scan_store_error.split option.split)

lemma reads_project_reads [reading]:
  "reads (handleListProjectFindings S)" "reads (handleListProjectIssues S)" "reads (handleGetProjectRisk S)"
  "reads (handleGetProjectRemediation S)" "reads (handleListProjectComponents S)" "reads (handleGetProjectPolicy S)"
  by (auto simp: reads_def handleListProjectFindings_def handleListProjectIssues_def handleGetProjectRisk_def
      handleGetProjectRemediation_def handleListProjectComponents_def handleGetProjectPolicy_def projectFrom_def Let_def
      split: option.split sum.split failed.split analysis_error.split)

lemma reads_scan_reads [reading]:
  "reads (handleListScanFindings S sid)" "reads (handleListScanComponents S sid)" "reads (handleGetScanGate S sid)"
  by (auto simp: reads_def handleListScanFindings_def handleListScanComponents_def handleGetScanGate_def scan_in_scope_def
      split: option.split sum.split failed.split policy_store_error.split)

lemma reads_history [reading]: "reads (handleGetFindingHistory S fid)"
  unfolding handleGetFindingHistory_def
  by (rule reads_finding_addressed) (auto simp: reads_def split: sum.split)

lemma reads_users [reading]: "reads (handleListUsers S)"
  by (auto simp: reads_def handleListUsers_def split: option.split sum.split)

section \<open>The access policy\<close>

text \<open>What a scope reaches, of a project, a scan and a finding.\<close>

definition reaches :: "'w Server \<Rightarrow> Scope \<Rightarrow> string \<Rightarrow> 'w \<Rightarrow> bool" where
  "reaches S sc pid w = (IsGlobal sc \<or> (\<exists>p. P_GetAny (srv_projects S) pid w = Inr p \<and> Scope_Allows (srv_lib S) sc (pj_Slug p)))"

definition reaches_finding :: "'w Server \<Rightarrow> Scope \<Rightarrow> string \<Rightarrow> 'w \<Rightarrow> bool" where
  "reaches_finding S sc fid w = (IsGlobal sc \<or>
     (\<exists>F pid. srv_findings S = Some F \<and> F_ProjectOf F fid w = Inr pid \<and> reaches S sc pid w))"

lemma inScope_reaches: "rq_Principal r = Some p \<Longrightarrow> inScope S r pid w = reaches S (pr_Scope p) pid w"
  by (auto simp: inScope_def scopeFrom_def reaches_def split: sum.split)

lemma findingInScope_reaches: "rq_Principal r = Some p \<Longrightarrow> srv_findings S = Some F \<Longrightarrow>
    findingInScope S F r fid w = reaches_finding S (pr_Scope p) fid w"
  by (auto simp: findingInScope_def scopeFrom_def reaches_finding_def inScope_reaches split: sum.split)

text \<open>Who may change what: the role the action asks for, and the project or finding within the caller's scope.\<close>

inductive permitted :: "'w Server \<Rightarrow> 'w \<Rightarrow> Principal \<Rightarrow> string \<Rightarrow> string list \<Rightarrow> bool" for S w p where
  new_project: "Role_Allows (pr_Role p) RoleService \<Longrightarrow> root_segment rest \<Longrightarrow> permitted S w p ''POST'' (''projects'' # rest)"
| project_setting: "Role_Allows (pr_Role p) RoleAdmin \<Longrightarrow> P_GetAny (srv_projects S) pid w = Inr q \<Longrightarrow>
    Scope_Allows (srv_lib S) (pr_Scope p) (pj_Slug q) \<Longrightarrow>
    (m, what) \<in> {(''PUT'', ''policy''), (''POST'', ''archive''), (''POST'', ''unarchive'')} \<Longrightarrow>
    permitted S w p m [''projects'', pid, what]"
| triage: "Role_Allows (pr_Role p) RoleService \<Longrightarrow> reaches_finding S (pr_Scope p) fid w \<Longrightarrow>
    permitted S w p ''POST'' [''findings'', fid, ''status'']"
| new_scan: "Role_Allows (pr_Role p) RoleService \<Longrightarrow> root_segment rest \<Longrightarrow> permitted S w p ''POST'' (''scans'' # rest)"
| new_user: "Role_Allows (pr_Role p) RoleAdmin \<Longrightarrow> root_segment rest \<Longrightarrow> permitted S w p ''POST'' (''users'' # rest)"
| change_user: "Role_Allows (pr_Role p) RoleAdmin \<Longrightarrow> permitted S w p ''PATCH'' [''users'', uid]"

inductive_simps permitted_projects: "permitted S w p m (''projects'' # rest)"

section \<open>Every change is authorized\<close>

lemma requireRole_change: "snd (requireRole c h r w) \<noteq> w \<Longrightarrow> rq_Principal r = Some p \<Longrightarrow>
    Role_Allows (pr_Role p) c \<and> snd (h r w) \<noteq> w"
  by (simp add: requireRole_def split: if_splits)

lemma methods_change: "snd (methods hs r w) \<noteq> w \<Longrightarrow> \<exists>h. map_of hs (rq_Method r) = Some h \<and> snd (h r w) \<noteq> w"
  by (simp add: methods_def split: option.splits)

lemma scopedProject_change: "snd (scopedProject S pid h r w) \<noteq> w \<Longrightarrow> rq_Principal r = Some p \<Longrightarrow>
    \<exists>q. P_GetAny (srv_projects S) pid w = Inr q \<and> Scope_Allows (srv_lib S) (pr_Scope p) (pj_Slug q) \<and>
      snd (h (r\<lparr>rq_Project := Some q\<rparr>) w) \<noteq> w"
  by (simp add: scopedProject_def scopeFrom_def split: if_splits sum.splits)

lemma not_read: "reads h \<Longrightarrow> snd (h r w) \<noteq> w \<Longrightarrow> P"
  by (simp add: reads_def)

lemma project_change:
  assumes ch: "snd (project_routes S segs r w) \<noteq> w" and p: "rq_Principal r = Some p"
  shows "permitted S w p (rq_Method r) (''projects'' # segs)"
proof (cases "root_segment segs")
  case True
  from ch True obtain h where h: "map_of [(''POST'', requireRole RoleService (handleCreateProject S)), (''GET'', handleListProjects S)]
      (rq_Method r) = Some h" "snd (h r w) \<noteq> w" by (auto simp: project_routes_def dest!: methods_change)
  then have "rq_Method r = ''POST''" "h = requireRole RoleService (handleCreateProject S)"
    by (auto split: if_splits elim: not_read [OF reads_projects(1)])
  with requireRole_change [of RoleService _ r w p] h(2) p True show ?thesis by (auto intro: new_project)
next
  case False
  then obtain pid what where segs: "segs = pid # what" by (cases segs) (auto simp: root_segment_def)
  from ch False obtain hs where hs: "map_of (project_subtree S) what = Some hs" "snd (methods (scoped S pid hs) r w) \<noteq> w"
    by (auto simp: project_routes_def segs reads_noRoute [THEN readsD] split: option.splits)
  from methods_change [OF hs(2)] obtain h where h: "map_of (scoped S pid hs) (rq_Method r) = Some h" "snd (h r w) \<noteq> w" by auto
  from h(1) obtain g where g: "map_of hs (rq_Method r) = Some g" "h = scopedProject S pid g"
    by (auto simp: scoped_def map_of_map option.map_comp split: prod.splits)
  from scopedProject_change [of S pid g r w p] h(2) g(2) p obtain q where
    q: "P_GetAny (srv_projects S) pid w = Inr q" "Scope_Allows (srv_lib S) (pr_Scope p) (pj_Slug q)"
      "snd (g (r\<lparr>rq_Project := Some q\<rparr>) w) \<noteq> w" by auto
  from q(3) have nr: "\<not> reads g" by (auto simp: reads_def)
  from hs(1) g(1) nr have "\<exists>u. (rq_Method r, what) \<in> {(''PUT'', [''policy'']), (''POST'', [''archive'']), (''POST'', [''unarchive''])} \<and> g = requireRole RoleAdmin u"
    by (auto simp: project_subtree_def reading split: if_splits)
  then obtain u where u: "(rq_Method r, what) \<in> {(''PUT'', [''policy'']), (''POST'', [''archive'']), (''POST'', [''unarchive''])}"
      "g = requireRole RoleAdmin u" by auto
  have "Role_Allows (pr_Role p) RoleAdmin"
    using requireRole_change [of RoleAdmin u "r\<lparr>rq_Project := Some q\<rparr>" w p] q(3) p by (simp add: u(2))
  from project_setting [OF this q(1,2)] u(1) show ?thesis by (auto simp: segs)
qed

lemma finding_change:
  assumes ch: "snd (finding_routes S segs r w) \<noteq> w" and p: "rq_Principal r = Some p"
  shows "permitted S w p (rq_Method r) (''findings'' # segs)"
proof -
  from ch have len: "length segs = 2" by (auto simp: finding_routes_def reads_noRoute [THEN readsD] split: if_splits)
  then obtain fid what where segs: "segs = [fid, what]" by (auto simp: length_Suc_conv numeral_2_eq_2)
  from ch have "what = ''status''" "rq_Method r = ''POST''" and h: "snd (requireRole RoleService (handleTransitionFinding S fid) r w) \<noteq> w"
    by (auto simp: finding_routes_def segs reads_noRoute [THEN readsD] reads_history [THEN readsD] dest!: methods_change split: if_splits)
  moreover from requireRole_change [OF h p] have role: "Role_Allows (pr_Role p) RoleService" and
    c: "snd (handleTransitionFinding S fid r w) \<noteq> w" by auto
  from c obtain F where "srv_findings S = Some F" "findingInScope S F r fid w"
    by (auto simp: handleTransitionFinding_def finding_addressed_def split: option.splits if_splits)
  then have "reaches_finding S (pr_Scope p) fid w" by (simp add: findingInScope_reaches [OF p])
  ultimately show ?thesis using role by (simp add: segs triage)
qed

lemma user_change:
  assumes ch: "snd (user_routes S segs r w) \<noteq> w" and p: "rq_Principal r = Some p"
  shows "permitted S w p (rq_Method r) (''users'' # segs)"
proof -
  from requireRole_change [OF ch [unfolded user_routes_def] p] have role: "Role_Allows (pr_Role p) RoleAdmin" and
    c: "snd ((if root_segment segs then methods [(''GET'', handleListUsers S), (''POST'', handleCreateUser S)]
        else if length segs = 1 then methods [(''PATCH'', handleUpdateUser S (segs ! 0))] else noRoute) r w) \<noteq> w" by auto
  show ?thesis
  proof (cases "root_segment segs")
    case True
    with c have "rq_Method r = ''POST''"
      by (auto simp: reads_users [THEN readsD] dest!: methods_change split: if_splits)
    with True role show ?thesis by (simp add: new_user)
  next
    case False
    with c have "length segs = 1" "rq_Method r = ''PATCH''"
      by (auto simp: reads_noRoute [THEN readsD] dest!: methods_change split: if_splits)
    with role show ?thesis by (auto simp: length_Suc_conv intro: change_user)
  qed
qed

lemma scan_change:
  assumes ch: "snd (scan_routes S segs r w) \<noteq> w" and p: "rq_Principal r = Some p"
  shows "permitted S w p (rq_Method r) (''scans'' # segs)"
proof -
  from ch have root: "root_segment segs" and m: "rq_Method r = ''POST''" and
    h: "snd (requireRole RoleService (handleCreateScan S) r w) \<noteq> w"
    by (auto simp: scan_routes_def reading [THEN readsD] dest!: methods_change split: if_splits)
  from requireRole_change [OF h p] root m show ?thesis by (simp add: new_scan)
qed

lemma target_reads: "reads (target_routes S segs)"
proof (cases "segs = [''validate'']")
  case True
  then show ?thesis by (simp add: target_routes_def) (rule reads_methods, auto split: if_splits intro: reading)
qed (simp add: target_routes_def reading)

lemma api_change:
  assumes ch: "snd (api_routes S segs r w) \<noteq> w" and ne: "segs \<noteq> [''auth'', ''login'']"
  shows "\<exists>p. authenticate S (rq_Authorization r) w = Inr p \<and> permitted S w p (rq_Method r) segs"
proof -
  have r1: "snd (methods [(''GET'', handleLiveness S)] r w) = w"
    by (simp add: methods_def handleLiveness_def split: option.split)
  have r2: "snd (methods [(''GET'', requireAuth S (handleWhoAmI S))] r w) = w"
    by (simp add: methods_def requireAuth_def reads_health [THEN readsD] split: option.split sum.split)
  from ch ne r1 r2 have "segs \<noteq> []" and other: "segs \<noteq> [''health'']" "segs \<noteq> [''auth'', ''me'']"
    by (auto simp: api_routes_def reads_noRoute [THEN readsD])
  then obtain area rest where segs: "segs = area # rest" by (cases segs) auto
  from ch ne other obtain h where h: "map_of (subtrees S) area = Some h" "snd (requireAuth S (h rest) r w) \<noteq> w"
    by (auto simp: api_routes_def segs reads_noRoute [THEN readsD] split: option.splits)
  from h(2) obtain p where auth: "authenticate S (rq_Authorization r) w = Inr p" and
    c: "snd (h rest (r\<lparr>rq_Principal := Some p\<rparr>) w) \<noteq> w" by (auto simp: requireAuth_def split: sum.splits)
  let ?r = "r\<lparr>rq_Principal := Some p\<rparr>"
  have "permitted S w p (rq_Method ?r) (area # rest)"
    using h(1) c project_change [of S rest ?r w p] finding_change [of S rest ?r w p] user_change [of S rest ?r w p]
      scan_change [of S rest ?r w p] readsD [OF target_reads, of S rest ?r w]
    by (auto simp: subtrees_def split: if_splits)
  with auth show ?thesis by (simp add: segs)
qed

lemma ServeHTTP_snd: "snd (ServeHTTP S r w) = snd (routes S (r\<lparr>rq_Principal := None, rq_Project := None\<rparr>) w)"
  by (simp add: ServeHTTP_def split: prod.split)

lemma login_change:
  assumes "snd (methods [(''POST'', handleLogin S)] r w) \<noteq> w"
  shows "rq_Method r = ''POST'' \<and> (\<exists>users email password u. srv_users S = Some users \<and>
    U_Authenticate users email password w = Inr u \<and>
    snd (methods [(''POST'', handleLogin S)] r w) = snd (U_RecordLogin users (us_ID u) w))"
proof -
  from methods_change [OF assms] have m: "rq_Method r = ''POST''" and c: "snd (handleLogin S r w) \<noteq> w" by (auto split: if_splits)
  from c obtain users sessions req u where l: "srv_users S = Some users" "srv_sessions S = Some sessions"
    "decodeJSON (srv_decoders S) (dc_login (srv_decoders S)) (srv_maxRequestBytes S) r = Inr req"
    "U_Authenticate users (lg_Email req) (lg_Password req) w = Inr u"
    by (auto simp: handleLogin_def split: option.splits sum.splits)
  then have rec: "snd (handleLogin S r w) = snd (U_RecordLogin users (us_ID u) w)" by (simp add: handleLogin_def Let_def)
  from m have post: "methods [(''POST'', handleLogin S)] r w = handleLogin S r w" by (simp add: methods_def)
  show ?thesis unfolding post using m l(1,4) rec by blast
qed

section \<open>The theorems\<close>


text \<open>The world of the examples: one project, one finding, one scan, a viewer's and an operator's credential.\<close>

lemma unauthenticated_routes:
  assumes np: "rq_Path r \<notin> {[''healthz''], [''readyz''], [''api'', ''v1'', ''health''], [''api'', ''v1'', ''auth'', ''login'']}"
  shows "\<exists>x. rp_Status x \<in> {401, 404, 405} \<and> (\<forall>w e. authenticate S (rq_Authorization r) w = Inl e \<longrightarrow> routes S r w = (x, w))"
proof -
  have no: "rp_Status (notFound r m) = 404" "rp_Status (writeError r n c t) = n"
    "rp_Status (challenge (unauthenticated r)) = 401" for m n c t
    by (simp_all add: notFound_def writeError_def writeJSON_def challenge_def with_header_def unauthenticated_def)
  note u = routes_def api_routes_def Let_def noRoute_def methods_def requireAuth_def no
  consider (none) "take 2 (rq_Path r) \<noteq> [''api'', ''v1'']" | (api) "take 2 (rq_Path r) = [''api'', ''v1'']" by blast
  then show ?thesis
  proof cases
    case none
    with np have "routes S r w = (notFound r ''resource not found'', w)" for w by (simp add: routes_def noRoute_def Let_def)
    then show ?thesis by (intro exI [of _ "notFound r ''resource not found''"]) (simp add: no)
  next
    case api
    then obtain segs where path: "rq_Path r = ''api'' # ''v1'' # segs"
      by (cases "rq_Path r"; cases "tl (rq_Path r)") auto
    with np have ne: "segs \<noteq> [''health'']" "segs \<noteq> [''auth'', ''login'']" by auto
    consider (me) "segs = [''auth'', ''me'']" "rq_Method r = ''GET''" | (me') "segs = [''auth'', ''me'']" "rq_Method r \<noteq> ''GET''"
      | (empty) "segs = []" | (unknown) "segs \<noteq> []" "segs \<noteq> [''auth'', ''me'']" "map_of (subtrees S) (hd segs) = None"
      | (tree) h where "segs \<noteq> []" "segs \<noteq> [''auth'', ''me'']" "map_of (subtrees S) (hd segs) = Some h"
      by (cases "map_of (subtrees S) (hd segs)") blast+
    then show ?thesis
    proof cases
      case me
      then show ?thesis by (intro exI [of _ "challenge (unauthenticated r)"]) (simp add: path u)
    next
      case me'
      then show ?thesis by (intro exI [of _ "writeError r 405 CodeMethodInvalid (Text ''method not allowed'')"]) (simp add: path u)
    next
      case empty
      then show ?thesis by (intro exI [of _ "notFound r ''resource not found''"]) (simp add: path u)
    next
      case unknown
      with ne show ?thesis by (intro exI [of _ "notFound r ''resource not found''"]) (simp add: path u)
    next
      case tree
      with ne show ?thesis by (intro exI [of _ "challenge (unauthenticated r)"]) (simp add: path u)
    qed
  qed
qed

text \<open>
  C23: without a valid credential a request learns and changes nothing: outside the probes and the login the world
  stays as it is, and the answer is a 401, 404 or 405 that is the same in any two worlds that refuse the credential.
\<close>
theorem no_credential_no_data:
  assumes "authenticate S (rq_Authorization r) w = Inl e" "authenticate S (rq_Authorization r) w' = Inl e'"
    and "rq_Path r \<notin> {[''healthz''], [''readyz''], [''api'', ''v1'', ''health''], [''api'', ''v1'', ''auth'', ''login'']}"
  shows "snd (ServeHTTP S r w) = w \<and> fst (ServeHTTP S r w') = fst (ServeHTTP S r w) \<and>
    rp_Status (fst (ServeHTTP S r w)) \<in> {401, 404, 405}"
proof -
  let ?r = "r\<lparr>rq_Principal := None, rq_Project := None\<rparr>"
  from unauthenticated_routes [of ?r S] assms obtain x where x: "rp_Status x \<in> {401, 404, 405}"
    "routes S ?r w = (x, w)" "routes S ?r w' = (x, w')" by auto
  then show ?thesis by (simp add: ServeHTTP_def)
qed

section \<open>What is out of reach\<close>

text \<open>A path that names a project, a scan or a finding out of the caller's scope, and one that names none.\<close>

definition out_of_reach :: "'w Server \<Rightarrow> Scope \<Rightarrow> string list \<Rightarrow> 'w \<Rightarrow> bool" where
  "out_of_reach S sc path w =
     (case path of
        area # x # rest \<Rightarrow> isUUID x \<and>
          (if area = ''projects'' then (\<exists>q. P_GetAny (srv_projects S) x w = Inr q \<and> \<not> Scope_Allows (srv_lib S) sc (pj_Slug q))
           else if area = ''scans'' then (\<exists>s. S_Get (srv_scans S) x w = Inr s \<and> \<not> reaches S sc (sc_ProjectID s) w)
           else area = ''findings'' \<and> (\<exists>F pid. srv_findings S = Some F \<and> F_ProjectOf F x w = Inr pid \<and> \<not> reaches S sc pid w))
      | _ \<Rightarrow> False)"

definition nowhere :: "'w Server \<Rightarrow> string list \<Rightarrow> 'w \<Rightarrow> bool" where
  "nowhere S path w =
     (case path of
        area # x # rest \<Rightarrow> isUUID x \<and>
          (if area = ''projects'' then (\<exists>e. P_GetAny (srv_projects S) x w = Inl e)
           else if area = ''scans'' then S_Get (srv_scans S) x w = Inl (Refused ScanNotFound)
           else area = ''findings'' \<and> (\<exists>F e. srv_findings S = Some F \<and> F_ProjectOf F x w = Inl e))
      | _ \<Rightarrow> False)"

lemma uuid_not_root: "isUUID x \<Longrightarrow> \<not> root_segment (x # rest)"
  by (auto simp: root_segment_def isUUID_def Let_def)

lemma unreachable_project:
  assumes p: "rq_Principal r = Some p" and u: "isUUID x"
  shows "\<exists>y. \<forall>w. (\<forall>q. P_GetAny (srv_projects S) x w = Inr q \<longrightarrow> \<not> Scope_Allows (srv_lib S) (pr_Scope p) (pj_Slug q)) \<longrightarrow>
    project_routes S (x # rest) r w = (y, w)"
proof (cases "\<exists>hs h. map_of (project_subtree S) rest = Some hs \<and> map_of hs (rq_Method r) = Some h")
  case True
  then obtain hs h where h: "map_of (project_subtree S) rest = Some hs" "map_of hs (rq_Method r) = Some h" by auto
  then have "project_routes S (x # rest) r w = scopedProject S x h r w" for w
    by (simp add: project_routes_def uuid_not_root [OF u] methods_def scoped_def map_of_map split: option.split)
  then show ?thesis using p u
    by (intro exI [of _ "notFound r ''project not found''"]) (auto simp: scopedProject_def scopeFrom_def split: sum.split)
next
  case False
  then show ?thesis
    by (cases "map_of (project_subtree S) rest")
      (auto simp: project_routes_def uuid_not_root [OF u] methods_def scoped_def map_of_map noRoute_def split: option.split)
qed

lemma unreachable_scan:
  assumes p: "rq_Principal r = Some p" and u: "isUUID x"
  shows "\<exists>y. \<forall>w. S_Get (srv_scans S) x w = Inl (Refused ScanNotFound) \<or>
      (\<exists>s. S_Get (srv_scans S) x w = Inr s \<and> \<not> reaches S (pr_Scope p) (sc_ProjectID s) w) \<longrightarrow>
    scan_routes S (x # rest) r w = (y, w)"
proof -
  have ne: "pathUUID n x = Inr x" for n using u by (auto simp: pathUUID_def isUUID_def Let_def)
  have sc: "scan_in_scope S m x h r w = (notFound r m, w)"
    if "S_Get (srv_scans S) x w = Inl (Refused ScanNotFound) \<or>
      (\<exists>s. S_Get (srv_scans S) x w = Inr s \<and> \<not> reaches S (pr_Scope p) (sc_ProjectID s) w)" for m h w
    using that u by (auto simp: scan_in_scope_def inScope_reaches [OF p])
  have get: "handleGetScan S x r w = (notFound r ''scan not found'', w)"
    if "S_Get (srv_scans S) x w = Inl (Refused ScanNotFound) \<or>
      (\<exists>s. S_Get (srv_scans S) x w = Inr s \<and> \<not> reaches S (pr_Scope p) (sc_ProjectID s) w)" for w
    using that by (auto simp: handleGetScan_def ne inScope_reaches [OF p])
  show ?thesis
  proof (cases "rq_Method r = ''GET''")
    case False
    then show ?thesis by (auto simp: scan_routes_def uuid_not_root [OF u] methods_def noRoute_def)
  next
    case True
    then show ?thesis
      by (cases "srv_findings S"; cases "srv_components S"; cases "srv_policies S")
        (auto simp: scan_routes_def uuid_not_root [OF u] methods_def noRoute_def get sc handleListScanFindings_def
          handleListScanComponents_def handleGetScanGate_def)
  qed
qed

lemma unreachable_finding:
  assumes p: "rq_Principal r = Some p" and u: "isUUID x"
  shows "\<exists>y. \<forall>w. \<not> reaches_finding S (pr_Scope p) x w \<and> srv_findings S \<noteq> None \<longrightarrow> finding_routes S (x # rest) r w = (y, w)"
proof (cases "srv_findings S")
  case (Some F)
  have fa: "finding_addressed S x h r w = (notFound r ''finding not found'', w)" if "\<not> reaches_finding S (pr_Scope p) x w" for h w
    using that u by (simp add: finding_addressed_def Some findingInScope_reaches [OF p])
  have other: "finding_routes S (x # rest) = noRoute" if "rest \<noteq> [''history'']" "rest \<noteq> [''status'']"
    using that by (cases rest) (auto simp: finding_routes_def)
  have read: "methods [(''GET'', handleGetFindingHistory S x)] r w = (if rq_Method r = ''GET'' then (notFound r ''finding not found'', w)
      else (writeError r 405 CodeMethodInvalid (Text ''method not allowed''), w))" if "\<not> reaches_finding S (pr_Scope p) x w" for w
    using fa [OF that] by (simp add: methods_def handleGetFindingHistory_def)
  have triage: "methods [(''POST'', requireRole RoleService (handleTransitionFinding S x))] r w =
      (if rq_Method r = ''POST'' then (if Role_Allows (pr_Role p) RoleService then notFound r ''finding not found''
         else writeError r 403 CodeForbidden (Text ''this credential is not permitted to perform this action''), w)
      else (writeError r 405 CodeMethodInvalid (Text ''method not allowed''), w))" if "\<not> reaches_finding S (pr_Scope p) x w" for w
    using fa [OF that] by (simp add: methods_def handleTransitionFinding_def requireRole_def p)
  consider "rest = [''history'']" | "rest = [''status'']" | "rest \<noteq> [''history'']" "rest \<noteq> [''status'']" by blast
  then show ?thesis
  proof cases
    case 1
    then have e: "finding_routes S (x # rest) = methods [(''GET'', handleGetFindingHistory S x)]" by (simp add: finding_routes_def)
    show ?thesis unfolding e using read by (cases "rq_Method r = ''GET''") auto
  next
    case 2
    then have e: "finding_routes S (x # rest) = methods [(''POST'', requireRole RoleService (handleTransitionFinding S x))]"
      by (simp add: finding_routes_def)
    show ?thesis unfolding e using triage by (cases "rq_Method r = ''POST''"; cases "Role_Allows (pr_Role p) RoleService") auto
  next
    case 3
    then show ?thesis by (auto simp: other noRoute_def)
  qed
qed simp

definition beyond :: "'w Server \<Rightarrow> Scope \<Rightarrow> string list \<Rightarrow> 'w \<Rightarrow> bool" where
  "beyond S sc path w = (\<not> IsGlobal sc \<and> (out_of_reach S sc path w \<or> nowhere S path w))"

lemma unreachable_subtree:
  assumes p: "rq_Principal r = Some p" and h: "map_of (subtrees S) area = Some h"
  shows "\<exists>y. \<forall>w. beyond S (pr_Scope p) (area # rest) w \<longrightarrow> h rest r w = (y, w)"
proof (cases rest)
  case (Cons x more)
  show ?thesis
  proof (cases "isUUID x \<and> area \<in> {''projects'', ''scans'', ''findings''}")
    case False
    then have "\<not> beyond S (pr_Scope p) (area # rest) w" for w
      by (cases "isUUID x") (simp_all add: beyond_def out_of_reach_def nowhere_def Cons)
    then show ?thesis by simp
  next
    case True
    then have u: "isUUID x" and "area = ''projects'' \<or> area = ''scans'' \<or> area = ''findings''" by auto
    then consider "area = ''projects''" | "area = ''scans''" | "area = ''findings''" by blast
    then show ?thesis
    proof cases
      case 1
      with h have h: "h = project_routes S" by (simp add: subtrees_def)
      from unreachable_project [OF p u, of S more] show ?thesis
        by (fastforce simp: beyond_def out_of_reach_def nowhere_def Cons 1 h)
    next
      case 2
      with h have h: "h = scan_routes S" by (simp add: subtrees_def)
      from unreachable_scan [OF p u, of S more] show ?thesis
        by (fastforce simp: beyond_def out_of_reach_def nowhere_def Cons 2 h)
    next
      case 3
      with h have h: "h = finding_routes S" by (simp add: subtrees_def)
      from unreachable_finding [OF p u, of S more] show ?thesis
        by (fastforce simp: beyond_def out_of_reach_def nowhere_def reaches_finding_def Cons 3 h)
    qed
  qed
qed (simp add: beyond_def out_of_reach_def nowhere_def)


lemma other_scope [simp]:
  "decodeJSON d dec n (r\<lparr>rq_Principal := x\<rparr>) = decodeJSON d dec n r"
  "writeError (r\<lparr>rq_Principal := x\<rparr>) a c m = writeError r a c m"
  "notFound (r\<lparr>rq_Principal := x\<rparr>) t = notFound r t" "invalid (r\<lparr>rq_Principal := x\<rparr>) t = invalid r t"
  "internalError (r\<lparr>rq_Principal := x\<rparr>) = internalError r" "writeRequestError (r\<lparr>rq_Principal := x\<rparr>) e = writeRequestError r e"
  "writeUserError (r\<lparr>rq_Principal := x\<rparr>) u = writeUserError r u" "bad_kind (r\<lparr>rq_Principal := x\<rparr>) = bad_kind r"
  "bad_role (r\<lparr>rq_Principal := x\<rparr>) = bad_role r" "no_accounts (r\<lparr>rq_Principal := x\<rparr>) = no_accounts r"
  by (simp_all add: decodeJSON_def requireJSONContentType_def writeError_def notFound_def invalid_def internalError_def
      writeRequestError_def writeUserError_def bad_kind_def bad_role_def no_accounts_def Let_def
      cong: if_cong option.case_cong decoded.case_cong failed.case_cong user_store_error.case_cong)

lemma actor_scope [simp]: "actorFrom (r\<lparr>rq_Principal := Some (p\<lparr>pr_Scope := sc\<rparr>)\<rparr>) = actorFrom (r\<lparr>rq_Principal := Some p\<rparr>)"
  by (simp add: actorFrom_def IsUser_def cong: if_cong sum.case_cong)

lemma users_scope:
  "handleListUsers S (r\<lparr>rq_Principal := Some (p\<lparr>pr_Scope := sc\<rparr>)\<rparr>) w = handleListUsers S (r\<lparr>rq_Principal := Some p\<rparr>) w"
  "handleCreateUser S (r\<lparr>rq_Principal := Some (p\<lparr>pr_Scope := sc\<rparr>)\<rparr>) w = handleCreateUser S (r\<lparr>rq_Principal := Some p\<rparr>) w"
  "handleUpdateUser S uid (r\<lparr>rq_Principal := Some (p\<lparr>pr_Scope := sc\<rparr>)\<rparr>) w = handleUpdateUser S uid (r\<lparr>rq_Principal := Some p\<rparr>) w"
  by (simp_all add: handleListUsers_def handleCreateUser_def handleUpdateUser_def update_role_def update_disabled_def
      update_membership_def Let_def cong: if_cong option.case_cong sum.case_cong prod.case_cong failed.case_cong user_store_error.case_cong)

text \<open>
  Submitting a scan and administering accounts ignore the caller's scope: whatever projects a credential is
  confined to, the answer and the effect are those of a credential for the whole estate.
\<close>
theorem scope_is_not_asked:
  "handleCreateScan S (r\<lparr>rq_Principal := Some (p\<lparr>pr_Scope := sc\<rparr>)\<rparr>) w = handleCreateScan S (r\<lparr>rq_Principal := Some p\<rparr>) w \<and>
   user_routes S segs (r\<lparr>rq_Principal := Some (p\<lparr>pr_Scope := sc\<rparr>)\<rparr>) w = user_routes S segs (r\<lparr>rq_Principal := Some p\<rparr>) w"
proof
  show "handleCreateScan S (r\<lparr>rq_Principal := Some (p\<lparr>pr_Scope := sc\<rparr>)\<rparr>) w = handleCreateScan S (r\<lparr>rq_Principal := Some p\<rparr>) w"
    by (simp add: handleCreateScan_def cong: if_cong sum.case_cong prod.case_cong failed.case_cong bool.case_cong
        option.case_cong scan_store_error.case_cong)
  show "user_routes S segs (r\<lparr>rq_Principal := Some (p\<lparr>pr_Scope := sc\<rparr>)\<rparr>) w = user_routes S segs (r\<lparr>rq_Principal := Some p\<rparr>) w"
    by (simp add: user_routes_def requireRole_def methods_def users_scope noRoute_def split: option.split)
qed

end
