(* ===== verification/Api_Backend.thy ===== *)
theory Api_Backend
  imports Api_Laws
begin

text \<open>
  The API over the stores of the other theories, as \<open>cmd/api\<close> wires it: accounts and projects of
  \<open>User_Store\<close> and \<open>Project_Store\<close>, scans of \<open>Scan_Store\<close>, and the Redis queue of \<open>Queues\<close>. A failed
  transaction leaves its tables alone. What the API asks of the store of accounts is the locale
  \<open>identity_store\<close>, which the tables of \<open>User_Store\<close> interpret. The theorems follow a person and a scan
  through several requests.
\<close>

section \<open>The stores behind the API\<close>

text \<open>The database, the queue and whether it answers, the next identifier the database generates, and the salt.\<close>

record World =
  wd_db :: UserDB
  wd_scans :: ScanDB
  wd_redis :: "string list"
  wd_redis_up :: bool
  wd_new_id :: string
  wd_random :: "string option"

definition on_db :: "('e + 'a \<times> UserDB) \<Rightarrow> World \<Rightarrow> ('e failed + 'a) \<times> World" where
  "on_db x w = (case x of Inl e \<Rightarrow> (Inl (Refused e), w) | Inr (a, db) \<Rightarrow> (Inr a, w\<lparr>wd_db := db\<rparr>))"

definition on_db_only :: "('e + UserDB) \<Rightarrow> World \<Rightarrow> 'e failed option \<times> World" where
  "on_db_only x w = (case x of Inl e \<Rightarrow> (Some (Refused e), w) | Inr db \<Rightarrow> (None, w\<lparr>wd_db := db\<rparr>))"

definition refused :: "('e + 'a) \<Rightarrow> 'e failed + 'a" where
  "refused x = (case x of Inl e \<Rightarrow> Inl (Refused e) | Inr a \<Rightarrow> Inr a)"

text \<open>A panic of the key derivation does not come back as a result.\<close>

definition unpanicked :: "('e + 'a) option \<Rightarrow> 'e failed + 'a" where
  "unpanicked x = (case x of None \<Rightarrow> Inl Broken | Some y \<Rightarrow> refused y)"

definition project_ops :: "golib \<Rightarrow> World ProjectOps" where
  "project_ops L =
     \<lparr>P_Create = (\<lambda>n a w. on_db (Project_Create L (wd_new_id w) n a (wd_db w)) w),
      P_Get = (\<lambda>pid w. refused (Project_Get pid (wd_db w))),
      P_Exists = (\<lambda>pid w. Inr (Project_Exists pid (wd_db w))),
      P_List = (\<lambda>page sc w. Inr (Project_List page sc (wd_db w))),
      P_SetArchived = (\<lambda>pid b a w. on_db (Project_SetArchived pid b a (wd_db w)) w),
      P_GetAny = (\<lambda>pid w. refused (Project_GetAny pid (wd_db w)))\<rparr>"

text \<open>The table of projects and the clock are the same for the store of scans.\<close>

definition scan_tables :: "World \<Rightarrow> ScanDB" where
  "scan_tables w = (wd_scans w)\<lparr>sd_projects := slug_table (pd_projects (wd_db w)), sd_now := pd_now (wd_db w)\<rparr>"

definition scan_ops :: "golib \<Rightarrow> World ScanOps" where
  "scan_ops L =
     \<lparr>S_Create = (\<lambda>n a w. case Scan_Create L (wd_new_id w) n a (scan_tables w) of
        Inl e \<Rightarrow> (Inl (Refused e), w) | Inr (s, db) \<Rightarrow> (Inr s, w\<lparr>wd_scans := db\<rparr>)),
      S_Get = (\<lambda>sid w. refused (Scan_Get sid (scan_tables w))),
      S_ListByProject = (\<lambda>pid limit offset w. Inr (ListByProject pid (nat limit) (nat offset) (scan_tables w))),
      S_Finalize = (\<lambda>sid st reason t w. case Scan_Finalize sid st reason t (scan_tables w) of
        Inl e \<Rightarrow> (Some (Refused e), w) | Inr db \<Rightarrow> (None, w\<lparr>wd_scans := db\<rparr>))\<rparr>"

definition user_ops :: "golib \<Rightarrow> IDKey \<Rightarrow> string \<Rightarrow> World UserOps" where
  "user_ops L idkey decoy =
     \<lparr>U_Authenticate = (\<lambda>email pw w. unpanicked (Authenticate_user L idkey decoy email pw (wd_db w))),
      U_ByID = (\<lambda>uid w. refused (User_ByID uid (wd_db w))),
      U_ScopeOf = (\<lambda>u w. Inr (ScopeOf L u (wd_db w))),
      U_RecordLogin = (\<lambda>uid w. (None, w\<lparr>wd_db := RecordLogin uid (wd_db w)\<rparr>)),
      U_Create = (\<lambda>n a w. case User_Create L idkey (wd_random w) (wd_new_id w) n a (wd_db w) of
        None \<Rightarrow> (Inl Broken, w) | Some x \<Rightarrow> on_db x w),
      U_List = (\<lambda>w. Inr (User_List (wd_db w))),
      U_SetRole = (\<lambda>uid role a w. on_db (SetRole uid role a (wd_db w)) w),
      U_SetDisabled = (\<lambda>uid b a w. on_db (SetDisabled uid b a (wd_db w)) w),
      U_SetMembership = (\<lambda>uid ps a w. on_db_only (SetMembership uid ps a (wd_db w)) w),
      U_MembershipOf = (\<lambda>uid w. Inr (MembershipOf uid (wd_db w))),
      U_GrantMembership = (\<lambda>uid pid w. on_db_only (GrantMembership uid pid (wd_db w)) w)\<rparr>"

definition redis_enqueue :: "job_codec \<Rightarrow> Job \<Rightarrow> World \<Rightarrow> queue_error option \<times> World" where
  "redis_enqueue c j w =
     (case Redis_Enqueue c (wd_redis_up w) (pd_now (wd_db w)) j (wd_redis w) of
        Inl e \<Rightarrow> (Some e, w) | Inr q \<Rightarrow> (None, w\<lparr>wd_redis := q\<rparr>))"

text \<open>What the stores are built with.\<close>

record Deployment =
  dp_lib :: golib
  dp_mac :: hmac
  dp_idkey :: IDKey
  dp_decoy :: string
  dp_codec :: job_codec
  dp_sessions :: Sessions

text \<open>The server of a deployment; everything else is as configured.\<close>

definition server_of :: "Deployment \<Rightarrow> World Server \<Rightarrow> World Server" where
  "server_of d opts = opts\<lparr>srv_lib := dp_lib d, srv_mac := dp_mac d, srv_projects := project_ops (dp_lib d),
     srv_scans := scan_ops (dp_lib d), srv_enqueue := redis_enqueue (dp_codec d),
     srv_users := Some (user_ops (dp_lib d) (dp_idkey d) (dp_decoy d)), srv_sessions := Some (dp_sessions d),
     srv_now := (\<lambda>w. pd_now (wd_db w))\<rparr>"

lemma server_of_simps [simp]:
  "srv_lib (server_of d opts) = dp_lib d" "srv_mac (server_of d opts) = dp_mac d"
  "srv_projects (server_of d opts) = project_ops (dp_lib d)" "srv_scans (server_of d opts) = scan_ops (dp_lib d)"
  "srv_enqueue (server_of d opts) = redis_enqueue (dp_codec d)"
  "srv_users (server_of d opts) = Some (user_ops (dp_lib d) (dp_idkey d) (dp_decoy d))"
  "srv_sessions (server_of d opts) = Some (dp_sessions d)" "srv_now (server_of d opts) w = pd_now (wd_db w)"
  "srv_decoders (server_of d opts) = srv_decoders opts" "srv_maxRequestBytes (server_of d opts) = srv_maxRequestBytes opts"
  "srv_validate (server_of d opts) = srv_validate opts" "srv_authenticator (server_of d opts) = srv_authenticator opts"
  by (simp_all add: server_of_def)

section \<open>The contract of the store of accounts\<close>

locale identity_store =
  fixes users :: "'w UserOps" and account :: "string \<Rightarrow> 'w \<Rightarrow> User option"
  assumes by_id: "U_ByID users uid w = (case account uid w of None \<Rightarrow> Inl (Refused UserNotFound) | Some u \<Rightarrow> Inr u)"
    and set_disabled: "U_SetDisabled users uid b a w = (Inr u, w') \<Longrightarrow> account uid w' = Some u \<and> us_Disabled u = b"
    and set_membership: "account uid (snd (U_SetMembership users uid' ps a w)) = account uid w"
begin

lemma disabled_session:
  assumes "srv_users S = Some users" "srv_sessions S = Some ss" "account uid w = Some u" "us_Disabled u"
    "Verify (srv_mac S) ss token (srv_now S w) = Inr uid"
  shows "principalForSession S token w = Inl Unauthenticated"
  using assms by (simp add: principalForSession_def by_id)

lemma disabling_disables:
  assumes S: "srv_users S = Some users" and req: "decodeJSON (srv_decoders S) (dc_update (srv_decoders S)) (srv_maxRequestBytes S) r = Inr req"
    and d: "up_Disabled req = Some True" and ok: "rp_Status (fst (handleUpdateUser S uid r w)) = 200"
  shows "\<exists>u. account uid (snd (handleUpdateUser S uid r w)) = Some u \<and> us_Disabled u"
proof -
  have e: "rp_Status (writeUserError r e) \<noteq> 200" "rp_Status (notFound r m) \<noteq> 200" "rp_Status (invalid r m) \<noteq> 200"
    "rp_Status (bad_role r) \<noteq> 200" "rp_Status (internalError r) \<noteq> 200" for e m
    by (simp_all add: writeUserError_def notFound_def invalid_def bad_role_def internalError_def writeError_def writeJSON_def
        split: failed.split user_store_error.split)
  have uu: "isUUID uid" using ok S e by (auto simp: handleUpdateUser_def split: if_splits)
  obtain user where user: "U_ByID users uid w = Inr user"
    using ok S req e uu by (auto simp: handleUpdateUser_def split: sum.splits)
  obtain u1 w1 where w1: "update_role S users uid (up_Role req) r user w = (Inr u1, w1)"
  proof (cases "update_role S users uid (up_Role req) r user w")
    case (Pair x w1)
    moreover have "rp_Status y \<noteq> 200" if "x = Inl y" for y
      using Pair that e by (auto simp: update_role_def split: option.splits if_splits prod.splits sum.splits)
    ultimately show ?thesis using that ok S req uu user by (cases x) (auto simp: handleUpdateUser_def)
  qed
  obtain u2 w2 where w2: "U_SetDisabled users uid True (actorFrom r) w1 = (Inr u2, w2)"
    using ok S req uu user w1 e
    by (auto simp: handleUpdateUser_def update_disabled_def d split: sum.splits prod.splits)
  have "snd (handleUpdateUser S uid r w) = snd (update_membership users uid (up_Projects req) r w2)"
    using S req uu user w1 w2
    by (auto simp: handleUpdateUser_def update_disabled_def d split: sum.splits prod.splits option.splits)
  moreover have "account uid (snd (update_membership users uid (up_Projects req) r w2)) = account uid w2"
  proof (cases "up_Projects req")
    case (Some ps)
    then show ?thesis using set_membership [of uid uid ps "actorFrom r" w2]
      by (cases "U_SetMembership users uid ps (actorFrom r) w2") (auto simp: update_membership_def split: option.split)
  qed (simp add: update_membership_def)
  ultimately show ?thesis using set_disabled [OF w2] by simp
qed

end

definition account_of :: "string \<Rightarrow> World \<Rightarrow> User option" where
  "account_of uid w = map_option scan_user (find_user uid (wd_db w))"

interpretation accounts: identity_store "user_ops L idkey decoy" account_of for L idkey decoy
proof unfold_locales
  fix uid w
  show "U_ByID (user_ops L idkey decoy) uid w = (case account_of uid w of None \<Rightarrow> Inl (Refused UserNotFound) | Some u \<Rightarrow> Inr u)"
    by (simp add: user_ops_def account_of_def User_ByID_def refused_def split: option.split)
next
  fix uid b a w u w'
  assume "U_SetDisabled (user_ops L idkey decoy) uid b a w = (Inr u, w')"
  then obtain db where s: "SetDisabled uid b a (wd_db w) = Inr (u, db)" and w': "w' = w\<lparr>wd_db := db\<rparr>"
    by (auto simp: user_ops_def on_db_def split: sum.splits)
  let ?f = "\<lambda>r. r\<lparr>uw_DisabledAt := (if b then Some (pd_now (wd_db w)) else None)\<rparr>"
  from user_update_effect [OF s [unfolded SetDisabled_def]] obtain r where
    r: "find_user uid (wd_db w) = Some r" "u = scan_user (stamped ?f (pd_now (wd_db w)) r)"
    and users: "ud_users db = map (on_row uid (stamped ?f (pd_now (wd_db w)))) (ud_users (wd_db w))" by auto
  have "List.find (\<lambda>r. uw_ID r = uid) (map (on_row uid (stamped ?f t)) rows) = map_option (stamped ?f t) (List.find (\<lambda>r. uw_ID r = uid) rows)"
    for t rows by (induction rows) (auto simp: on_row_def stamped_def)
  with r users have "find_user uid db = Some (stamped ?f (pd_now (wd_db w)) r)" by (simp add: find_user_def)
  then show "account_of uid w' = Some u \<and> us_Disabled u = b"
    by (simp add: account_of_def w' r(2)) (simp add: scan_user_def stamped_def)
next
  fix uid uid' ps a w
  show "account_of uid (snd (U_SetMembership (user_ops L idkey decoy) uid' ps a w)) = account_of uid w"
    by (auto simp: user_ops_def on_db_only_def account_of_def find_user_def SetMembership_effect(2) split: sum.split)
qed

section \<open>Requests served\<close>

lemma other_project [simp]: "decodeJSON d dec n (r\<lparr>rq_Project := x\<rparr>) = decodeJSON d dec n r"
  by (simp add: decodeJSON_def requireJSONContentType_def Let_def cong: if_cong option.case_cong decoded.case_cong)

lemma served:
  assumes path: "rq_Path r = ''api'' # ''v1'' # area # rest" and h: "map_of (subtrees S) area = Some h"
  shows "ServeHTTP S r w = (case authenticate S (rq_Authorization r) w of
      Inl e \<Rightarrow> ((challenge (unauthenticated r))\<lparr>rp_Header := (''X-Request-Id'', rq_ID r) # securityHeaders @
        rp_Header (challenge (unauthenticated r))\<rparr>, w)
    | Inr p \<Rightarrow> (case h rest (r\<lparr>rq_Project := None, rq_Principal := Some p\<rparr>) w of
        (x, w) \<Rightarrow> (x\<lparr>rp_Header := (''X-Request-Id'', rq_ID r) # securityHeaders @ rp_Header x\<rparr>, w)))"
proof -
  have "area \<noteq> ''auth''" "area \<noteq> ''health''" using h by (auto simp: subtrees_def)
  then have "routes S (r\<lparr>rq_Principal := None, rq_Project := None\<rparr>) w = (case authenticate S (rq_Authorization r) w of
      Inl e \<Rightarrow> (challenge (unauthenticated r), w) | Inr p \<Rightarrow> h rest (r\<lparr>rq_Project := None, rq_Principal := Some p\<rparr>) w)"
    by (simp add: routes_def api_routes_def path h requireAuth_def unauthenticated_def writeError_def split: sum.split)
  then show ?thesis by (simp add: ServeHTTP_def split: sum.split prod.split)
qed

lemma status_simps [simp]: "rp_Status (writeError r n c m) = n" "rp_Status (notFound r t) = 404" "rp_Status (invalid r t) = 400"
  "rp_Status (internalError r) = 500" "rp_Status (unauthenticated r) = 401" "rp_Status (with_header k v x) = rp_Status x"
  "rp_Status (challenge x) = rp_Status x" "rp_Status (writeJSON n b) = n" "rp_Status (bad_kind r) = 400"
  "rp_Body (writeJSON n b) = b" "rp_Body (with_header k v x) = rp_Body x"
  by (simp_all add: writeError_def writeJSON_def notFound_def invalid_def internalError_def unauthenticated_def with_header_def
      challenge_def bad_kind_def)

lemma request_error_status: "decodeJSON d dec n r = Inl e \<Longrightarrow> rp_Status (writeRequestError r' e) \<in> {400, 413, 415}"
  using decodeJSON_errors [of d dec n r e] by (simp add: writeRequestError_def)

section \<open>The theorems\<close>

text \<open>
  C9: a disabled account is cut off at once: after an administrator's request that disabled it was answered with 200,
  no session of that account, however long it has to run, is served anything or changes anything.
\<close>
theorem disabled_account_is_cut_off:
  assumes r: "rq_Path r = [''api'', ''v1'', ''users'', uid]" "rq_Method r = ''PATCH''"
    and req: "decodeJSON (srv_decoders opts) (dc_update (srv_decoders opts)) (srv_maxRequestBytes opts) r = Inr req"
      "up_Disabled req = Some True"
    and ok: "ServeHTTP (server_of d opts) r w = (x, w')" "rp_Status x = 200"
    and session: "LooksLikeSession (bearerToken (rq_Authorization q))"
      "Verify (dp_mac d) (dp_sessions d) (bearerToken (rq_Authorization q)) (pd_now (wd_db w')) = Inr uid"
    and q: "rq_Path q \<notin> {[''healthz''], [''readyz''], [''api'', ''v1'', ''health''], [''api'', ''v1'', ''auth'', ''login'']}"
  shows "snd (ServeHTTP (server_of d opts) q w') = w' \<and> rp_Status (fst (ServeHTTP (server_of d opts) q w')) \<in> {401, 404, 405}"
proof -
  let ?S = "server_of d opts"
  have h: "map_of (subtrees ?S) ''users'' = Some (user_routes ?S)" by (simp add: subtrees_def)
  from r(1) have path: "rq_Path r = ''api'' # ''v1'' # ''users'' # [uid]" by simp
  obtain p where p: "authenticate ?S (rq_Authorization r) w = Inr p"
    using ok by (auto simp: served [OF path h] split: sum.splits)
  let ?r = "r\<lparr>rq_Project := None, rq_Principal := Some p\<rparr>"
  have v: "rp_Status (fst (user_routes ?S [uid] ?r w)) = 200" "w' = snd (user_routes ?S [uid] ?r w)"
    using ok by (auto simp: served [OF path h] p split: prod.splits)
  have "\<not> root_segment [uid]"
  proof
    assume "root_segment [uid]"
    then have "rp_Status (fst (user_routes ?S [uid] ?r w)) \<noteq> 200"
      by (simp add: user_routes_def requireRole_def methods_def r(2))
    with v(1) show False by simp
  qed
  then have "user_routes ?S [uid] ?r w = (if Role_Allows (pr_Role p) RoleAdmin then handleUpdateUser ?S uid ?r w
      else (writeError ?r 403 CodeForbidden (Text ''this credential is not permitted to perform this action''), w))"
    by (simp add: user_routes_def requireRole_def methods_def r(2))
  with v have "rp_Status (fst (handleUpdateUser ?S uid ?r w)) = 200" "w' = snd (handleUpdateUser ?S uid ?r w)"
    by (auto split: if_splits)
  then obtain u where "account_of uid w' = Some u" "us_Disabled u"
    using accounts.disabling_disables [of ?S "dp_lib d" "dp_idkey d" "dp_decoy d" ?r req uid w] req by auto
  with session have "authenticate ?S (rq_Authorization q) w' = Inl Unauthenticated"
    using accounts.disabled_session [of ?S "dp_lib d" "dp_idkey d" "dp_decoy d" "dp_sessions d" uid w' u] by (simp add: authenticate_def Let_def)
  moreover from unauthenticated_routes [of "q\<lparr>rq_Principal := None, rq_Project := None\<rparr>" ?S] q obtain y where
    "rp_Status y \<in> {401, 404, 405}" "\<forall>w e. authenticate ?S (rq_Authorization q) w = Inl e \<longrightarrow>
      routes ?S (q\<lparr>rq_Principal := None, rq_Project := None\<rparr>) w = (y, w)" by auto
  ultimately show ?thesis by (simp add: ServeHTTP_def)
qed

lemma Authenticated_row:
  assumes "Authenticate_user L idkey decoy email pw db = Some (Inr u)"
  shows "\<exists>r \<in> set (ud_users db). u = scan_user r \<and> uw_DisabledAt r = None"
proof -
  from assms obtain r where r: "List.find (\<lambda>r. ToLower L (uw_Email r) = ToLower L (TrimSpace email)) (ud_users db) = Some r"
    "uw_DisabledAt r = None" "u = (scan_user r)\<lparr>us_Disabled := False\<rparr>"
    by (auto simp: Authenticate_user_def Let_def split: option.splits sum.splits if_splits)
  then have "r \<in> set (ud_users db)" by (auto simp: find_Some_iff)
  with r(2,3) show ?thesis by (intro bexI [of _ r]) (auto simp: scan_user_def)
qed

lemma find_user_row:
  assumes "distinct (map uw_ID (ud_users db))" "r \<in> set (ud_users db)"
  shows "find_user (uw_ID r) db = Some r"
proof -
  have "List.find (\<lambda>x. uw_ID x = uw_ID r) rows = Some r" if "distinct (map uw_ID rows)" "r \<in> set rows" for rows
    using that by (induction rows) (auto simp: image_iff)
  with assms show ?thesis by (simp add: find_user_def)
qed

lemma find_user_map:
  assumes "\<And>x. uw_ID (g x) = uw_ID x"
  shows "List.find (\<lambda>x. uw_ID x = uid) (map g rows) = map_option g (List.find (\<lambda>x. uw_ID x = uid) rows)"
  using assms by (induction rows) auto

lemma bearer_session: "bearerToken (''Bearer '' @ t) = t"
proof -
  have "map lower_byte ''Bearer '' = ''bearer ''" by code_simp
  then show ?thesis by (simp add: bearerToken_def)
qed

text \<open>
  C28: a login opens a session: the token of a login answered with 200 authenticates, at every later instant before
  the expiry cut to the second, as the person who logged in, with the role and the reach the tables give that
  person, and the expiry is the one the response states, eight hours on.
\<close>
theorem login_opens_a_session:
  assumes r: "rq_Path r = [''api'', ''v1'', ''auth'', ''login'']" "rq_Method r = ''POST''"
    and ok: "ServeHTTP (server_of d opts) r w = (x, w')" "rp_Status x = 200" "rp_Body x = LoginBody token expires user"
    and accounts: "accounts_ok (dp_lib d) (wd_db w)" and mac: "hex_mac (dp_mac d)" and clock: "clock_ok (pd_now (wd_db w))"
    and uid: "CHR ''.'' \<notin> set (us_ID user)" "TrimSpace (us_ID user) \<noteq> []"
    and later: "wd_db w2 = (wd_db w')\<lparr>pd_now := later\<rparr>" "later < expires div second * second"
  shows "authenticate (server_of d opts) (''Bearer '' @ token) w2 =
      Inr \<lparr>pr_Label = us_Email user, pr_Role = roleForUser (us_Role user), pr_Scope = ScopeOf (dp_lib d) user (wd_db w),
        pr_UserID = us_ID user\<rparr> \<and> expires = pd_now (wd_db w) + SessionTTL"
proof -
  let ?S = "server_of d opts" and ?now = "pd_now (wd_db w)"
  let ?r = "r\<lparr>rq_Principal := None, rq_Project := None\<rparr>"
  have "routes ?S ?r w = handleLogin ?S ?r w" by (simp add: routes_def api_routes_def r methods_def)
  with ok have l: "rp_Status (fst (handleLogin ?S ?r w)) = 200" "rp_Body (fst (handleLogin ?S ?r w)) = LoginBody token expires user"
    "w' = snd (handleLogin ?S ?r w)" by (auto simp: ServeHTTP_def split: prod.splits)
  obtain req where req: "decodeJSON (srv_decoders ?S) (dc_login (srv_decoders ?S)) (srv_maxRequestBytes ?S) ?r = Inr req"
    using l(1) request_error_status [of "srv_decoders ?S" "dc_login (srv_decoders ?S)" "srv_maxRequestBytes ?S" ?r _ ?r]
    by (cases "decodeJSON (srv_decoders ?S) (dc_login (srv_decoders ?S)) (srv_maxRequestBytes ?S) ?r") (auto simp: handleLogin_def)
  define au where "au = Authenticate_user (dp_lib d) (dp_idkey d) (dp_decoy d) (lg_Email req) (lg_Password req) (wd_db w)"
  have h: "handleLogin ?S ?r w = (case unpanicked au of
      Inl _ \<Rightarrow> (challenge (writeError ?r 401 CodeUnauthenticated (Text ''the email or password is incorrect'')), w)
    | Inr u \<Rightarrow> (writeJSON 200 (LoginBody (Session_Issue (dp_mac d) (dp_sessions d) (us_ID u) ?now) (?now + SessionTTL) u),
        w\<lparr>wd_db := RecordLogin (us_ID u) (wd_db w)\<rparr>))"
    using req by (simp add: handleLogin_def user_ops_def au_def Let_def split: sum.split)
  obtain u where au: "au = Some (Inr u)"
    using l(1) unfolding h by (auto simp: unpanicked_def refused_def split: option.splits sum.splits)
  have e: "u = user" "token = Session_Issue (dp_mac d) (dp_sessions d) (us_ID user) ?now" "expires = ?now + SessionTTL"
    "w' = w\<lparr>wd_db := RecordLogin (us_ID user) (wd_db w)\<rparr>"
    using l(2,3) unfolding h by (auto simp: au unpanicked_def refused_def)
  from Authenticated_row [OF au [unfolded au_def]] e(1) obtain row where
    row: "row \<in> set (ud_users (wd_db w))" "user = scan_user row" "uw_DisabledAt row = None" by auto
  let ?g = "on_row (us_ID user) (stamped (\<lambda>r. r\<lparr>uw_LastLoginAt := Some ?now\<rparr>) ?now)"
  have find: "find_user (us_ID user) (wd_db w2) = Some (?g row)"
    using find_user_row [OF _ row(1)] accounts row(2)
    by (simp add: later(1) e(4) RecordLogin_def find_user_def find_user_map on_row_def stamped_def accounts_ok_def scan_user_def)
  have sel: "us_ID (scan_user (?g row)) = us_ID user" "us_Email (scan_user (?g row)) = us_Email user"
    "us_Role (scan_user (?g row)) = us_Role user" "\<not> us_Disabled (scan_user (?g row))"
    using row(3) by (simp_all add: row(2) scan_user_def on_row_def stamped_def)
  have same: "pd_projects (wd_db w2) = pd_projects (wd_db w)" "ud_members (wd_db w2) = ud_members (wd_db w)"
    by (simp_all add: later(1) e(4) RecordLogin_def)
  have scope: "ScopeOf (dp_lib d) (scan_user (?g row)) (wd_db w2) = ScopeOf (dp_lib d) user (wd_db w)"
    unfolding ScopeOf_def sel same ..
  have v: "Verify (dp_mac d) (dp_sessions d) token later = Inr (us_ID user)"
    using session_roundtrip [OF mac clock uid, of "dp_sessions d" later] later(2) by (simp add: e(2,3))
  have look: "LooksLikeSession token" by (simp add: e(2) LooksLikeSession_def Session_Issue_def Let_def)
  have "principalForSession ?S token w2 = Inr \<lparr>pr_Label = us_Email user, pr_Role = roleForUser (us_Role user),
      pr_Scope = ScopeOf (dp_lib d) user (wd_db w), pr_UserID = us_ID user\<rparr>"
    using v find sel scope by (simp add: principalForSession_def user_ops_def refused_def User_ByID_def later(1))
  with look e(3) show ?thesis unfolding authenticate_def Let_def bearer_session by simp
qed

lemma finalize_new:
  assumes c: "Scan_Create L newID n a db = Inr (scan, db1)"
  shows "\<exists>db2. Scan_Finalize newID StatusFailed reason t (db1\<lparr>sd_projects := ps, sd_now := now\<rparr>) =
      (if length reason \<le> 512 then Inr db2 else Inl scan_store_error.ConstraintViolated) \<and>
    sd_scans db2 = sd_scans db @ [scan\<lparr>sc_Status := StatusFailed, sc_CompletedAt := Some t, sc_FailureReason := reason\<rparr>]"
proof (rule Create_Inr [OF c])
  fix n' row
  assume h: "\<not> has_scan db newID" "scan_checks scan" "sc_ID scan = newID" "fresh_scan scan" and
    db1: "db1 = db\<lparr>sd_scans := sd_scans db @ [scan], sd_audit := sd_audit db @ [row]\<rparr>"
  let ?f = "\<lambda>s. s\<lparr>sc_Status := StatusFailed, sc_CompletedAt := Some t, sc_FailureReason := reason\<rparr>"
  let ?P = "\<lambda>s. sc_ID s = newID \<and> (sc_Status s = StatusQueued \<or> sc_Status s = StatusRunning)"
  have none: "\<not> ?P s" if "s \<in> set (sd_scans db)" for s using h(1) that by (auto simp: has_scan_def list_ex_iff)
  have this_one: "?P scan" using h(3,4) by (simp add: fresh_scan_def)
  have ok: "scan_checks (?f scan) \<longleftrightarrow> length reason \<le> 512" using h(2,4) by (simp add: scan_checks_def fresh_scan_def)
  have map: "map (\<lambda>s. if ?P s then ?f s else s) (sd_scans db @ [scan]) = sd_scans db @ [?f scan]"
  proof -
    have "map (\<lambda>s. if ?P s then ?f s else s) (sd_scans db) = sd_scans db" by (rule map_idI) (use none in auto)
    then show ?thesis using this_one by simp
  qed
  have ex: "list_ex ?P (sd_scans db @ [scan])" "list_ex (\<lambda>s. ?P s \<and> \<not> scan_checks (?f s)) (sd_scans db @ [scan]) \<longleftrightarrow> \<not> scan_checks (?f scan)"
    using none this_one by (auto simp: list_ex_iff)
  let ?db2 = "db1\<lparr>sd_projects := ps, sd_now := now, sd_scans := sd_scans db @ [?f scan]\<rparr>"
  have t: "Terminal StatusFailed" by (simp add: Terminal_def)
  have "update_scans ?P ?f NotFinalizable (db1\<lparr>sd_projects := ps, sd_now := now\<rparr>) =
      (if length reason \<le> 512 then Inr ?db2 else Inl scan_store_error.ConstraintViolated)"
    using ex map ok by (simp add: update_scans_def db1)
  then show ?thesis using t by (intro exI [of _ ?db2]) (simp add: Scan_Finalize_def)
qed

lemma create_scan_cases:
  assumes s: "handleCreateScan (server_of d opts) r w = (x, w')"
  obtains "w' = w" "rp_Status x \<noteq> 202"
  | n scan db job where "Scan_Create (dp_lib d) (wd_new_id w) n (actorFrom r) (scan_tables w) = Inr (scan, db)"
    "j_ScanID job = sc_ID scan" "j_ProjectID job = sc_ProjectID scan" "j_Target job = ns_Target n"
    "(x, w') = (case redis_enqueue (dp_codec d) job (w\<lparr>wd_scans := db\<rparr>) of
       (Some _, w) \<Rightarrow> (internalError r, failUnqueuedScan (server_of d opts) (sc_ID scan) w)
     | (None, w) \<Rightarrow> (with_header ''Location'' (''/api/v1/scans/'' @ sc_ID scan) (writeJSON 202 (ScanBody (toScanResponse scan))), w))"
proof -
  let ?S = "server_of d opts"
  show ?thesis
  proof (cases "decodeJSON (srv_decoders ?S) (dc_scan (srv_decoders ?S)) (srv_maxRequestBytes ?S) r")
    case (Inl e)
    then show ?thesis using s request_error_status [OF Inl, of r] that(1) by (auto simp: handleCreateScan_def)
  next
    case (Inr req)
    note req = this
    let ?validated = "srv_validate opts (submitted_target (sq_Target req))"
    show ?thesis
    proof (cases "isUUID (sq_ProjectID req) \<and> isSubmittableKind (ti_Kind (sq_Target req)) \<and> \<not> isl ?validated \<and>
        Project_Exists (sq_ProjectID req) (wd_db w)")
      case False
      then have "w' = w \<and> rp_Status x \<noteq> 202" using s req
        by (auto simp: handleCreateScan_def project_ops_def split: if_splits sum.splits failed.splits)
      then show ?thesis using that(1) by blast
    next
      case True
      then obtain target where target: "?validated = Inr target" by (cases ?validated) auto
      let ?n = "\<lparr>ns_ProjectID = sq_ProjectID req, ns_RepositoryID = sq_RepositoryID req, ns_Target = target,
        ns_CommitSHA = sq_CommitSHA req, ns_Branch = sq_Branch req, ns_Scanners = sq_Scanners req\<rparr>"
      show ?thesis
      proof (cases "Scan_Create (dp_lib d) (wd_new_id w) ?n (actorFrom r) (scan_tables w)")
        case (Inl e)
        then have "w' = w \<and> rp_Status x \<noteq> 202" using s req True target
          by (cases e) (auto simp: handleCreateScan_def project_ops_def scan_ops_def)
        then show ?thesis using that(1) by blast
      next
        case (Inr sd)
        then obtain scan db where c: "Scan_Create (dp_lib d) (wd_new_id w) ?n (actorFrom r) (scan_tables w) = Inr (scan, db)"
          by (cases sd) auto
        let ?job = "\<lparr>j_ScanID = sc_ID scan, j_ProjectID = sc_ProjectID scan, j_Target = target,
          j_Scanners = sc_RequestedScanners scan, j_EnqueuedAt = pd_now (wd_db w), j_Attempt = 1\<rparr>"
        show ?thesis
          by (rule that(2) [OF c, of ?job])
            (use s req True target c in \<open>simp_all add: handleCreateScan_def project_ops_def scan_ops_def\<close>)
      qed
    qed
  qed
qed

lemma create_scan_effect:
  assumes s: "handleCreateScan (server_of d opts) r w = (x, w')"
  shows "if rp_Status x = 202
    then (\<exists>scan job. sd_scans (wd_scans w') = sd_scans (wd_scans w) @ [scan] \<and> sc_Status scan = StatusQueued \<and>
      rp_Body x = ScanBody (toScanResponse scan) \<and> wd_redis w' = wd_redis w @ [marshal (dp_codec d) job] \<and>
      Job_Validate job = None \<and> j_ScanID job = sc_ID scan \<and> j_ProjectID job = sc_ProjectID scan \<and> j_Target job = sc_Target scan)
    else wd_redis w' = wd_redis w \<and> (sd_scans (wd_scans w') = sd_scans (wd_scans w) \<or>
      (\<exists>scan. sd_scans (wd_scans w') = sd_scans (wd_scans w) @ [scan] \<and> sc_Status scan = StatusFailed \<and>
        sc_FailureReason scan = FailureNotEnqueued))"
  using s
proof (cases rule: create_scan_cases)
  case 1
  then show ?thesis by simp
next
  case (2 n scan db job)
  from 2(1) obtain n' row where n': "NewScan_Normalize (dp_lib d) n = Inr n'" and sc: "sc_ID scan = wd_new_id w"
    "sc_Target scan = ns_Target n'" "fresh_scan scan" "sd_scans db = sd_scans (wd_scans w) @ [scan]"
    by (rule Create_Inr) (auto simp: scan_tables_def)
  have target: "sc_Target scan = ns_Target n" using n' sc(2)
    by (auto simp: NewScan_Normalize_def Let_def split: if_splits sum.splits)
  let ?w1 = "w\<lparr>wd_scans := db\<rparr>"
  show ?thesis
  proof (cases "Redis_Enqueue (dp_codec d) (wd_redis_up w) (pd_now (wd_db w)) job (wd_redis w)")
    case (Inr q)
    then have q: "q = wd_redis w @ [marshal (dp_codec d) (stamp (pd_now (wd_db w)) job)]" "Job_Validate job = None"
      by (auto simp: Redis_Enqueue_def Let_def split: option.splits if_splits)
    let ?job = "stamp (pd_now (wd_db w)) job"
    have "Job_Validate ?job = Job_Validate job" by (simp add: stamp_def Job_Validate_def)
    then have j: "Job_Validate ?job = None" "j_ScanID ?job = sc_ID scan" "j_ProjectID ?job = sc_ProjectID scan" "j_Target ?job = sc_Target scan"
      using q(2) by (simp_all, simp_all add: stamp_def 2(2-4) target)
    have xw: "x = with_header ''Location'' (''/api/v1/scans/'' @ sc_ID scan) (writeJSON 202 (ScanBody (toScanResponse scan)))"
      "w' = ?w1\<lparr>wd_redis := q\<rparr>" using 2(5) Inr by (simp_all add: redis_enqueue_def)
    then have "rp_Status x = 202" by simp
    moreover have "sd_scans (wd_scans w') = sd_scans (wd_scans w) @ [scan] \<and> sc_Status scan = StatusQueued \<and>
      rp_Body x = ScanBody (toScanResponse scan) \<and> wd_redis w' = wd_redis w @ [marshal (dp_codec d) ?job]"
      using q(1) sc(3,4) by (simp add: xw fresh_scan_def)
    ultimately show ?thesis using j by auto
  next
    case (Inl e)
    let ?t = "pd_now (wd_db w)"
    have x: "x = internalError r" "w' = failUnqueuedScan (server_of d opts) (sc_ID scan) ?w1"
      using 2(5) Inl by (simp_all add: redis_enqueue_def)
    have reason: "length FailureNotEnqueued \<le> 512" by simp
    from finalize_new [OF 2(1), where reason = FailureNotEnqueued and t = ?t and now = ?t and ps = "slug_table (pd_projects (wd_db w))"] reason obtain db2 where
      "Scan_Finalize (wd_new_id w) StatusFailed FailureNotEnqueued ?t (scan_tables ?w1) = Inr db2"
      "sd_scans db2 = sd_scans (scan_tables w) @
        [scan\<lparr>sc_Status := StatusFailed, sc_CompletedAt := Some ?t, sc_FailureReason := FailureNotEnqueued\<rparr>]"
      by (auto simp: scan_tables_def)
    then have "w' = ?w1\<lparr>wd_scans := db2\<rparr>" "sd_scans db2 = sd_scans (wd_scans w) @
        [scan\<lparr>sc_Status := StatusFailed, sc_CompletedAt := Some ?t, sc_FailureReason := FailureNotEnqueued\<rparr>]"
      using x(2) sc(1) by (simp_all add: failUnqueuedScan_def scan_ops_def scan_tables_def)
    then show ?thesis by (simp add: x(1))
  qed
qed


lemma session_authenticates:
  assumes "LooksLikeSession (bearerToken hdr)"
  shows "authenticate (server_of d opts) hdr w = Inr p \<longleftrightarrow>
    (\<exists>uid u. Verify (dp_mac d) (dp_sessions d) (bearerToken hdr) (pd_now (wd_db w)) = Inr uid \<and>
      account_of uid w = Some u \<and> \<not> us_Disabled u \<and> p = \<lparr>pr_Label = us_Email u, pr_Role = roleForUser (us_Role u),
        pr_Scope = ScopeOf (dp_lib d) u (wd_db w), pr_UserID = us_ID u\<rparr>)"
proof -
  have s: "U_ScopeOf (user_ops L idkey decoy) u w = Inr (ScopeOf L u (wd_db w))" for L idkey decoy u by (simp add: user_ops_def)
  show ?thesis using assms
    by (auto simp: authenticate_def Let_def principalForSession_def accounts.by_id s split: sum.split option.split)
qed

lemma account_of_id: "account_of uid w = Some u \<Longrightarrow> us_ID u = uid"
  by (auto simp: account_of_def find_user_def find_Some_iff scan_user_def)

lemma find_appended: "List.find P xs = None \<Longrightarrow> List.find P (xs @ [y]) = (if P y then Some y else None)"
  by (induction xs) (auto split: if_splits)

lemma project_created:
  assumes c: "handleCreateProject (server_of d opts) r w = (x, w')" "rp_Status x = 201"
    and p: "rq_Principal r = Some p" "IsUser p" and u: "account_of (pr_UserID p) w = Some u" "pr_Scope p = ScopeOf (dp_lib d) u (wd_db w)"
    and db: "accounts_ok (dp_lib d) (wd_db w)"
  shows "\<exists>row. pw_ID row = wd_new_id w \<and> rp_Body x = ProjectBody (scanProject row) \<and>
    pd_projects (wd_db w') = pd_projects (wd_db w) @ [row] \<and> wd_new_id w \<notin> pw_ID ` set (pd_projects (wd_db w)) \<and>
    ud_users (wd_db w') = ud_users (wd_db w) \<and> pd_now (wd_db w') = pd_now (wd_db w) \<and> accounts_ok (dp_lib d) (wd_db w') \<and>
    (us_Role u = UserRoleAdmin \<or> (us_ID u, wd_new_id w) \<in> set (ud_members (wd_db w')))"
proof -
  let ?S = "server_of d opts" and ?db = "wd_db w"
  obtain req where req: "decodeJSON (srv_decoders ?S) (dc_project (srv_decoders ?S)) (srv_maxRequestBytes ?S) r = Inr req"
    using c request_error_status [of "srv_decoders ?S" "dc_project (srv_decoders ?S)" "srv_maxRequestBytes ?S" r _ r]
    by (cases "decodeJSON (srv_decoders ?S) (dc_project (srv_decoders ?S)) (srv_maxRequestBytes ?S) r") (auto simp: handleCreateProject_def)
  let ?n = "\<lparr>np_Name = cq_Name req, np_Slug = cq_Slug req, np_Description = cq_Description req, np_Environment = cq_Environment req,
    np_Criticality = cq_Criticality req, np_InternetFacing = cq_InternetFacing req\<rparr>"
  obtain proj db1 where cr: "Project_Create (dp_lib d) (wd_new_id w) ?n (actorFrom r) ?db = Inr (proj, db1)"
  proof (cases "Project_Create (dp_lib d) (wd_new_id w) ?n (actorFrom r) ?db")
    case (Inl e)
    then have "rp_Status x \<noteq> 201" using c(1) req
      by (cases e) (auto simp: handleCreateProject_def project_ops_def on_db_def)
    with c(2) show ?thesis by simp
  qed (use that in auto)
  from Project_Create_effect [OF cr] obtain row entry where row: "proj = scanProject row" "pw_ID row = wd_new_id w"
    "wd_new_id w \<notin> pw_ID ` set (pd_projects ?db)"
    "db1 = ?db\<lparr>pd_projects := pd_projects ?db @ [row], pd_audit := pd_audit ?db @ [entry]\<rparr>" by auto
  have sel: "pd_projects db1 = pd_projects ?db @ [row]" "ud_users db1 = ud_users ?db" "pd_now db1 = pd_now ?db"
    "ud_members db1 = ud_members ?db" by (simp_all add: row(4))
  have ok1: "accounts_ok (dp_lib d) db1" using keeps_Create_Project [OF cr] db unfolding keeps_def by blast
  have uid: "us_ID u = pr_UserID p" by (rule account_of_id [OF u(1)])
  let ?w1 = "w\<lparr>wd_db := db1\<rparr>"
  have x: "rp_Body x = ProjectBody proj" and w': "w' = (if IsGlobal (pr_Scope p) then ?w1
      else snd (on_db_only (GrantMembership (us_ID u) (wd_new_id w) db1) ?w1))"
    using c(1) req cr p by (auto simp: handleCreateProject_def project_ops_def on_db_def user_ops_def Let_def row(1,2) uid scanProject_def)
  show ?thesis
  proof (cases "IsGlobal (pr_Scope p)")
    case True
    then have "us_Role u = UserRoleAdmin" by (auto simp: u(2) ScopeOf_def ScopeTo_def IsGlobal_def split: if_splits)
    with True show ?thesis using x w' row sel ok1 by auto
  next
    case False
    have "find_user (us_ID u) db1 \<noteq> None" using u(1) by (auto simp: account_of_def find_user_def sel uid)
    moreover have "find_project (wd_new_id w) db1 \<noteq> None" using row(2) by (auto simp: find_project_def sel find_None_iff)
    ultimately have k: "member_keys (us_ID u) (wd_new_id w) db1" by (simp add: member_keys_def)
    then have "\<not> isl (GrantMembership (us_ID u) (wd_new_id w) db1)" by (simp add: GrantMembership_def)
    then obtain db2 where g: "GrantMembership (us_ID u) (wd_new_id w) db1 = Inr db2"
      by (cases "GrantMembership (us_ID u) (wd_new_id w) db1") auto
    then have s2: "pd_projects db2 = pd_projects db1" "ud_users db2 = ud_users db1" "pd_now db2 = pd_now db1"
      "(us_ID u, wd_new_id w) \<in> set (ud_members db2)" by (auto simp: GrantMembership_def split: if_splits)
    have ok2: "accounts_ok (dp_lib d) db2" using keeps_Grant [OF g] ok1 unfolding keeps_def by blast
    have "w' = ?w1\<lparr>wd_db := db2\<rparr>" using w' False g by (simp add: on_db_only_def)
    then show ?thesis using x row s2 sel ok2 by auto
  qed
qed

text \<open>
  C29: the person who creates a project reaches it: after a creation answered with 201 the same session reads the project
  it was given, although nobody has granted a membership since.
\<close>
theorem created_project_is_reachable:
  assumes r: "rq_Path r = [''api'', ''v1'', ''projects'']" "rq_Method r = ''POST''"
    and ok: "ServeHTTP (server_of d opts) r w = (x, w')" "rp_Status x = 201"
    and db: "accounts_ok (dp_lib d) (wd_db w)" "isUUID (wd_new_id w)"
    and session: "LooksLikeSession (bearerToken (rq_Authorization r))"
    and q: "rq_Path q = [''api'', ''v1'', ''projects'', wd_new_id w]" "rq_Method q = ''GET''" "rq_Authorization q = rq_Authorization r"
  shows "\<exists>p. pj_ID p = wd_new_id w \<and> rp_Body x = ProjectBody p \<and> rp_Status (fst (ServeHTTP (server_of d opts) q w')) = 200 \<and>
    rp_Body (fst (ServeHTTP (server_of d opts) q w')) = ProjectBody p"
proof -
  let ?S = "server_of d opts"
  have h: "map_of (subtrees ?S) ''projects'' = Some (project_routes ?S)" by (simp add: subtrees_def)
  from r(1) q(1) have path: "rq_Path r = ''api'' # ''v1'' # ''projects'' # []" "rq_Path q = ''api'' # ''v1'' # ''projects'' # [wd_new_id w]" by simp_all
  obtain p where p: "authenticate ?S (rq_Authorization r) w = Inr p"
    using ok by (auto simp: served [OF path(1) h] split: sum.splits)
  then obtain uid u where u: "Verify (dp_mac d) (dp_sessions d) (bearerToken (rq_Authorization r)) (pd_now (wd_db w)) = Inr uid"
    "account_of uid w = Some u" "\<not> us_Disabled u" "p = \<lparr>pr_Label = us_Email u, pr_Role = roleForUser (us_Role u),
        pr_Scope = ScopeOf (dp_lib d) u (wd_db w), pr_UserID = us_ID u\<rparr>"
    unfolding session_authenticates [OF session] by auto
  have uid: "us_ID u = uid" by (rule account_of_id [OF u(2)])
  let ?r = "r\<lparr>rq_Project := None, rq_Principal := Some p\<rparr>"
  have "Role_Allows (pr_Role p) RoleService"
    using ok by (auto simp: served [OF path(1) h] p project_routes_def root_segment_def methods_def r(2) requireRole_def split: if_splits)
  then obtain y where y: "handleCreateProject ?S ?r w = (y, w')" "rp_Status y = 201" "rp_Body x = rp_Body y"
    using ok by (auto simp: served [OF path(1) h] p project_routes_def root_segment_def methods_def r(2) requireRole_def split: prod.splits)
  have user: "IsUser p" using session_needs_mac [OF u(1)] by (simp add: IsUser_def u(4) uid)
  from project_created [OF y(1,2), of p u] user u(2,4) db(1) obtain row where
    row: "pw_ID row = wd_new_id w" "rp_Body y = ProjectBody (scanProject row)"
    "pd_projects (wd_db w') = pd_projects (wd_db w) @ [row]" "wd_new_id w \<notin> pw_ID ` set (pd_projects (wd_db w))"
    "ud_users (wd_db w') = ud_users (wd_db w)" "pd_now (wd_db w') = pd_now (wd_db w)" "accounts_ok (dp_lib d) (wd_db w')"
    "us_Role u = UserRoleAdmin \<or> (us_ID u, wd_new_id w) \<in> set (ud_members (wd_db w'))" by (auto simp: uid)
  have "account_of uid w' = Some u" using u(2) by (simp add: account_of_def find_user_def row(5))
  with u have auth: "authenticate ?S (rq_Authorization q) w' = Inr (p\<lparr>pr_Scope := ScopeOf (dp_lib d) u (wd_db w')\<rparr>)"
    unfolding q(3) session_authenticates [OF session] by (simp add: row(6))
  have reach: "Scope_Allows (dp_lib d) (ScopeOf (dp_lib d) u (wd_db w')) (pw_Slug row)"
    using reach_is_membership [OF row(7), of row u] row(1,3,8) by simp
  have "List.find (\<lambda>r. pw_ID r = wd_new_id w) (pd_projects (wd_db w)) = None" using row(4) by (force simp: find_None_iff)
  then have "find_project (wd_new_id w) (wd_db w') = Some row"
    unfolding find_project_def row(3) find_appended [OF \<open>List.find _ _ = None\<close>] using row(1) by simp
  then have "P_GetAny (srv_projects ?S) (wd_new_id w) w' = Inr (scanProject row)"
    by (simp add: project_ops_def refused_def Project_GetAny_def)
  then have "project_routes ?S [wd_new_id w] (q\<lparr>rq_Project := None, rq_Principal := Some (p\<lparr>pr_Scope := ScopeOf (dp_lib d) u (wd_db w')\<rparr>)\<rparr>) w' =
      (writeJSON 200 (ProjectBody (scanProject row)), w')"
    using db(2) reach q(2) by (simp add: project_routes_def uuid_not_root project_subtree_def scoped_def methods_def
        scopedProject_def scopeFrom_def handleGetProject_def projectFrom_def)
  then show ?thesis using row(1,2) y(3)
    by (intro exI [of _ "scanProject row"]) (simp add: served [OF path(2) h] auth)
qed

section \<open>Examples\<close>

text \<open>
  Two projects, two administrators, an engineer with one project, and two static tokens: an administrator's and one
  confined to the first project. Every request body decodes to the values given here.
\<close>

definition sample_uuid :: "string \<Rightarrow> string" where
  "sample_uuid c = ''00000000-0000-0000-0000-00000000000'' @ c"

definition sample_tables :: UserDB where
  "sample_tables = ProjectDB.extend
     \<lparr>pd_projects = [sample_row_of (sample_uuid ''1'') ''shop'' 1, sample_row_of (sample_uuid ''2'') ''billing'' 2],
      pd_audit = [], pd_now = 5\<rparr>
     \<lparr>ud_users = [sample_account (sample_uuid ''a'') UserRoleAdmin, sample_account (sample_uuid ''b'') UserRoleAdmin,
        sample_account (sample_uuid ''e'') UserRoleEngineer],
      ud_members = [(sample_uuid ''e'', sample_uuid ''1'')]\<rparr>"

definition sample_world :: World where
  "sample_world = \<lparr>wd_db = sample_tables, wd_scans = empty_scan_db [], wd_redis = [], wd_redis_up = True,
     wd_new_id = sample_uuid ''9'', wd_random = Some sample_salt\<rparr>"

definition sample_deployment :: Deployment where
  "sample_deployment = \<lparr>dp_lib = sample_lib, dp_mac = sample_mac, dp_idkey = sample_idkey, dp_decoy = ''x'',
     dp_codec = \<lparr>marshal = (\<lambda>j. j_ScanID j), unmarshal = (\<lambda>s. Some (sample_job s))\<rparr>, dp_sessions = \<lparr>session_key = ''k''\<rparr>\<rparr>"

definition sample_decoders :: Decoders where
  "sample_decoders = \<lparr>dc_ParseMediaType = (\<lambda>s. Some s),
     dc_login = (\<lambda>n b. Decoded \<lparr>lg_Email = '' Joe@Example.org'', lg_Password = ''correct horse''\<rparr> False),
     dc_project = (\<lambda>n b. Decoded \<lparr>cq_Name = ''New'', cq_Slug = ''new'', cq_Description = [], cq_Environment = [],
        cq_Criticality = [], cq_InternetFacing = False\<rparr> False),
     dc_target = (\<lambda>n b. NotDecoded),
     dc_scan = (\<lambda>n b. Decoded \<lparr>sq_ProjectID = sample_uuid ''1'', sq_RepositoryID = None,
        sq_Target = \<lparr>ti_Kind = KindImage, ti_RepositoryURL = [], ti_Ref = [], ti_Image = ''alpine'', ti_EndpointURL = []\<rparr>,
        sq_CommitSHA = [], sq_Branch = [], sq_Scanners = []\<rparr> False),
     dc_transition = (\<lambda>n b. NotDecoded), dc_policy = (\<lambda>n b. NotDecoded), dc_user = (\<lambda>n b. NotDecoded),
     dc_update = (\<lambda>n b. Decoded \<lparr>up_Role = None, up_Disabled = Some True, up_Projects = None\<rparr> False)\<rparr>"

definition sample_authenticator :: Authenticator where
  "sample_authenticator = \<lparr>credentials = [\<lparr>cr_label = ''ops'', cr_role = RoleAdmin, cr_scope = GlobalScope, cr_digest = ''aa''\<rparr>,
     \<lparr>cr_label = ''ci'', cr_role = RoleService, cr_scope = \<lparr>scope_global = False, scope_projects = [''shop'']\<rparr>, cr_digest = ''bb''\<rparr>]\<rparr>"

definition sample_opts :: "World Server" where
  "sample_opts = \<lparr>srv_lib = sample_lib, srv_mac = sample_mac, srv_service = ''api'', srv_version = ''1'', srv_probes = [],
     srv_authenticator = sample_authenticator,
     srv_projects = project_ops sample_lib, srv_scans = scan_ops sample_lib,
     srv_enqueue = redis_enqueue (dp_codec sample_deployment), srv_validate = (\<lambda>t. Inr t), srv_findings = None,
     srv_policies = None, srv_components = None, srv_users = None, srv_sessions = None, srv_maxRequestBytes = 1024,
     srv_now = (\<lambda>w. 5), srv_decoders = sample_decoders\<rparr>"

abbreviation sample_server :: "World Server" where "sample_server \<equiv> server_of sample_deployment sample_opts"

definition sample_request :: "string \<Rightarrow> string list \<Rightarrow> string \<Rightarrow> Request" where
  "sample_request m path auth = \<lparr>rq_Method = m, rq_Path = [''api'', ''v1''] @ path, rq_Query = [], rq_Authorization = auth,
     rq_ContentType = ''application/json'', rq_Body = [], rq_ID = ''r1'', rq_Principal = None, rq_Project = None\<rparr>"

lemma sample_request_simps [simp]:
  "rq_Method (sample_request m path auth) = m" "rq_Path (sample_request m path auth) = ''api'' # ''v1'' # path"
  "rq_Authorization (sample_request m path auth) = auth"
  by (simp_all add: sample_request_def)

abbreviation ops_principal :: Principal where
  "ops_principal \<equiv> \<lparr>pr_Label = ''ops'', pr_Role = RoleAdmin, pr_Scope = GlobalScope, pr_UserID = []\<rparr>"

abbreviation ci_principal :: Principal where
  "ci_principal \<equiv> \<lparr>pr_Label = ''ci'', pr_Role = RoleService, pr_Scope = \<lparr>scope_global = False, scope_projects = [''shop'']\<rparr>, pr_UserID = []\<rparr>"

lemma sample_simps [simp]:
  "srv_authenticator sample_opts = sample_authenticator" "srv_decoders sample_opts = sample_decoders"
  "srv_validate sample_opts t = Inr t" "dp_lib sample_deployment = sample_lib" "dp_mac sample_deployment = sample_mac"
  "dp_idkey sample_deployment = sample_idkey" "dp_decoy sample_deployment = ''x''" "dp_sessions sample_deployment = \<lparr>session_key = ''k''\<rparr>"
  "wd_db sample_world = sample_tables" "wd_new_id sample_world = sample_uuid ''9''" "wd_redis sample_world = []"
  by (simp_all add: sample_opts_def sample_deployment_def sample_world_def)

lemma sample_tokens [simp]:
  "authenticate sample_server ''Bearer aa'' w = Inr ops_principal" "authenticate sample_server ''Bearer bb'' w = Inr ci_principal"
  "authenticate sample_server [] w = Inl Unauthenticated"
proof -
  have "\<not> LooksLikeSession (bearerToken ''Bearer aa'') \<and> \<not> LooksLikeSession (bearerToken ''Bearer bb'') \<and>
    \<not> LooksLikeSession (bearerToken []) \<and> Authenticate sample_lib sample_authenticator ''Bearer aa'' = Inr ops_principal \<and>
    Authenticate sample_lib sample_authenticator ''Bearer bb'' = Inr ci_principal \<and>
    Authenticate sample_lib sample_authenticator [] = Inl Unauthenticated" by code_simp
  then show "authenticate sample_server ''Bearer aa'' w = Inr ops_principal" "authenticate sample_server ''Bearer bb'' w = Inr ci_principal"
    "authenticate sample_server [] w = Inl Unauthenticated" unfolding authenticate_def Let_def by simp_all
qed

lemma sample_roles [simp]: "Role_Allows RoleAdmin RoleAdmin" "Role_Allows RoleAdmin RoleService" "Role_Allows RoleService RoleService"
  by code_simp+

lemma sample_body:
  assumes "dec n [] = Decoded v False"
  shows "decodeJSON sample_decoders dec n (sample_request m path auth) = Inr v"
proof -
  have "map lower_byte ''application/json'' = ''application/json''" by code_simp
  then show ?thesis using assms by (simp add: decodeJSON_def requireJSONContentType_def Let_def sample_request_def sample_decoders_def)
qed

lemma sample_tables_ok: "accounts_ok sample_lib sample_tables"
  unfolding accounts_ok_def by (intro conjI; code_simp)

definition new_scan_request :: Request where
  "new_scan_request = sample_request ''POST'' [''scans''] ''Bearer aa''"

lemma new_scan_run:
  "rp_Status (fst (ServeHTTP sample_server new_scan_request sample_world)) = 202"
  "wd_redis (snd (ServeHTTP sample_server new_scan_request sample_world)) = [sample_uuid ''9'']"
proof -
  let ?r = "new_scan_request\<lparr>rq_Project := None, rq_Principal := Some ops_principal\<rparr>"
  have path: "rq_Path new_scan_request = ''api'' # ''v1'' # ''scans'' # []" by (simp add: new_scan_request_def)
  have h: "map_of (subtrees sample_server) ''scans'' = Some (scan_routes sample_server)" by (simp add: subtrees_def)
  let ?t = "\<lparr>ti_Kind = KindImage, ti_RepositoryURL = [], ti_Ref = [], ti_Image = ''alpine'', ti_EndpointURL = []\<rparr>"
  let ?req = "\<lparr>sq_ProjectID = sample_uuid ''1'', sq_RepositoryID = None, sq_Target = ?t,
    sq_CommitSHA = [], sq_Branch = [], sq_Scanners = []\<rparr>"
  let ?target = "submitted_target ?t"
  let ?n = "\<lparr>ns_ProjectID = sample_uuid ''1'', ns_RepositoryID = None, ns_Target = ?target, ns_CommitSHA = [], ns_Branch = [], ns_Scanners = []\<rparr>"
  let ?x = "Scan_Create sample_lib (sample_uuid ''9'') ?n (TokenActor ''ops'') (scan_tables sample_world)"
  have req: "decodeJSON (srv_decoders sample_opts) (dc_scan (srv_decoders sample_opts)) (srv_maxRequestBytes sample_opts) ?r = Inr ?req"
    by (simp add: new_scan_request_def, rule sample_body) (simp add: sample_decoders_def)
  have ok: "isUUID (sample_uuid ''1'')" "isSubmittableKind KindImage" "Project_Exists (sample_uuid ''1'') (wd_db sample_world)"
    "\<not> isl ?x" by code_simp+
  define scan where "scan = fst (projr ?x)"
  define db where "db = snd (projr ?x)"
  define job where "job = \<lparr>j_ScanID = sc_ID scan, j_ProjectID = sc_ProjectID scan, j_Target = ?target,
    j_Scanners = sc_RequestedScanners scan, j_EnqueuedAt = 5, j_Attempt = 1\<rparr>"
  have x: "?x = Inr (scan, db)" using ok(4) by (cases ?x) (simp_all add: scan_def db_def)
  have j: "Job_Validate job = None" "j_ScanID job = sample_uuid ''9''" unfolding job_def scan_def by code_simp+
  have "TrimSpace [] = []" by code_simp
  then have actor: "actorFrom ?r = TokenActor ''ops''" by (simp add: actorFrom_def IsUser_def)
  have len: "length (sample_uuid ''9'') \<le> maxPayloadBytes" by (simp add: sample_uuid_def)
  have q: "redis_enqueue (dp_codec sample_deployment) job (sample_world\<lparr>wd_scans := db\<rparr>) =
      (None, sample_world\<lparr>wd_scans := db, wd_redis := [sample_uuid ''9'']\<rparr>)"
    using j len by (simp add: redis_enqueue_def Redis_Enqueue_def sample_deployment_def sample_world_def stamp_def Let_def)
  have "handleCreateScan sample_server ?r sample_world =
      (with_header ''Location'' (''/api/v1/scans/'' @ sc_ID scan) (writeJSON 202 (ScanBody (toScanResponse scan))),
       sample_world\<lparr>wd_scans := db, wd_redis := [sample_uuid ''9'']\<rparr>)"
  proof -
    have e: "P_Exists (srv_projects sample_server) (sample_uuid ''1'') sample_world = Inr True" using ok(3) by (simp add: project_ops_def)
    have v: "srv_validate sample_server t = Inr t" for t by (simp add: sample_opts_def)
    have c: "S_Create (srv_scans sample_server) ?n (actorFrom ?r) sample_world = (Inr scan, sample_world\<lparr>wd_scans := db\<rparr>)"
      using x actor by (simp add: scan_ops_def sample_deployment_def sample_world_def)
    have now: "srv_now sample_server (sample_world\<lparr>wd_scans := db\<rparr>) = 5" by (simp add: sample_world_def sample_tables_def ProjectDB.defs)
    have d: "decodeJSON (srv_decoders sample_server) (dc_scan (srv_decoders sample_server)) (srv_maxRequestBytes sample_server) ?r = Inr ?req"
      using req by simp
    have q': "srv_enqueue sample_server job (sample_world\<lparr>wd_scans := db\<rparr>) =
        (None, sample_world\<lparr>wd_scans := db, wd_redis := [sample_uuid ''9'']\<rparr>)" using q by simp
    show ?thesis
      by (simp only: handleCreateScan_def d sum.case createScanRequest.select_convs targetInput.select_convs v e c prod.case now
          q' [unfolded job_def] option.case bool.case ok(1,2) not_True_eq_False if_False)
  qed
  then have c: "rp_Status (fst (handleCreateScan sample_server ?r sample_world)) = 202"
    "wd_redis (snd (handleCreateScan sample_server ?r sample_world)) = [sample_uuid ''9'']" by simp_all
  have e: "ServeHTTP sample_server new_scan_request sample_world = (case handleCreateScan sample_server ?r sample_world of
      (x, w) \<Rightarrow> (x\<lparr>rp_Header := (''X-Request-Id'', rq_ID new_scan_request) # securityHeaders @ rp_Header x\<rparr>, w))"
    unfolding served [OF path h] by (simp add: new_scan_request_def scan_routes_def root_segment_def methods_def requireRole_def)
  show "rp_Status (fst (ServeHTTP sample_server new_scan_request sample_world)) = 202"
    "wd_redis (snd (ServeHTTP sample_server new_scan_request sample_world)) = [sample_uuid ''9'']"
    using c unfolding e by (simp_all add: case_prod_beta)
qed



theorem no_credential_no_data_witness:
  "rp_Status (fst (ServeHTTP sample_server (sample_request ''GET'' [''projects''] []) sample_world)) \<in> {401, 404, 405}"
  using no_credential_no_data [of sample_server "sample_request ''GET'' [''projects''] []" sample_world _ sample_world] by simp

definition other_world :: World where
  "other_world = sample_world\<lparr>wd_db := sample_tables\<lparr>pd_projects := [sample_row_of (sample_uuid ''1'') ''shop'' 1]\<rparr>\<rparr>"


definition engineer_session :: string where
  "engineer_session = ''Bearer usr_'' @ sample_uuid ''e'' @ ''.100.ab''"

definition disable_request :: Request where
  "disable_request = sample_request ''PATCH'' [''users'', sample_uuid ''e''] ''Bearer aa''"

text \<open>The session of an account of the tables, at the time of the tables.\<close>

lemma engineer_token:
  "LooksLikeSession (bearerToken engineer_session)" "Verify sample_mac \<lparr>session_key = ''k''\<rparr> (bearerToken engineer_session) 5 = Inr (sample_uuid ''e'')"
  "pd_now sample_tables = 5"
  by code_simp+

theorem disabled_account_is_cut_off_witness:
  "\<exists>x w'. ServeHTTP sample_server disable_request sample_world = (x, w') \<and> rp_Status x = 200 \<and>
     rp_Status (fst (ServeHTTP sample_server (sample_request ''GET'' [''projects''] engineer_session) w')) \<in> {401, 404, 405}"
proof -
  let ?q = "sample_request ''GET'' [''projects''] engineer_session" and ?uid = "sample_uuid ''e''"
  let ?req = "\<lparr>up_Role = None, up_Disabled = Some True, up_Projects = None\<rparr>"
  let ?r = "disable_request\<lparr>rq_Project := None, rq_Principal := Some ops_principal\<rparr>"
  let ?x = "SetDisabled ?uid True (TokenActor ''ops'') sample_tables"
  have ok: "isUUID ?uid" "\<not> isl (User_ByID ?uid sample_tables)" "\<not> isl ?x" by code_simp+
  obtain u where u: "User_ByID ?uid sample_tables = Inr u" using ok(2) by (cases "User_ByID ?uid sample_tables") auto
  obtain v db where v: "?x = Inr (v, db)" using ok(3) by (cases ?x) auto
  have now: "pd_now db = 5" using user_update_effect(5) [OF v [unfolded SetDisabled_def]] engineer_token(3) by simp
  have req: "decodeJSON (srv_decoders sample_opts) (dc_update (srv_decoders sample_opts)) (srv_maxRequestBytes sample_opts) disable_request = Inr ?req"
    by (simp add: disable_request_def, rule sample_body) (simp add: sample_decoders_def)
  have "TrimSpace [] = []" by code_simp
  then have actor: "actorFrom ?r = TokenActor ''ops''" by (simp add: actorFrom_def IsUser_def)
  have "handleUpdateUser sample_server ?uid ?r sample_world =
      (writeJSON 200 (UserBody v (MembershipOf ?uid db)), sample_world\<lparr>wd_db := db\<rparr>)"
    using ok(1) u v req by (simp add: handleUpdateUser_def update_role_def update_disabled_def update_membership_def
        user_ops_def refused_def on_db_def actor)
  moreover have "\<not> root_segment [?uid]" by (rule uuid_not_root [OF ok(1)])
  ultimately have c: "user_routes sample_server [?uid] ?r sample_world =
      (writeJSON 200 (UserBody v (MembershipOf ?uid db)), sample_world\<lparr>wd_db := db\<rparr>)"
    by (simp add: user_routes_def requireRole_def methods_def) (simp add: disable_request_def)
  have h: "map_of (subtrees sample_server) ''users'' = Some (user_routes sample_server)" by (simp add: subtrees_def)
  have r: "rq_Authorization disable_request = ''Bearer aa''" "rq_Path disable_request = ''api'' # ''v1'' # ''users'' # [?uid]"
    "rq_Path disable_request = [''api'', ''v1'', ''users'', ?uid]" "rq_Method disable_request = ''PATCH''"
    by (simp_all add: disable_request_def)
  obtain x where x: "ServeHTTP sample_server disable_request sample_world = (x, sample_world\<lparr>wd_db := db\<rparr>)" "rp_Status x = 200"
    by (simp add: served [OF r(2) h] r(1) c)
  have "rp_Status (fst (ServeHTTP sample_server ?q (sample_world\<lparr>wd_db := db\<rparr>))) \<in> {401, 404, 405}"
    using disabled_account_is_cut_off [OF r(3,4) req _ x, of ?q] engineer_token(1,2) now by simp
  with x show ?thesis by blast
qed

theorem created_project_is_reachable_witness:
  "\<exists>x w'. ServeHTTP sample_server (sample_request ''POST'' [''projects''] engineer_session) sample_world = (x, w') \<and>
     rp_Status (fst (ServeHTTP sample_server (sample_request ''GET'' [''projects'', sample_uuid ''9''] engineer_session) w')) = 200"
proof -
  let ?r = "sample_request ''POST'' [''projects''] engineer_session" and ?q = "sample_request ''GET'' [''projects'', sample_uuid ''9''] engineer_session"
  let ?uid = "sample_uuid ''e''" and ?row = "sample_account (sample_uuid ''e'') UserRoleEngineer"
  let ?p = "\<lparr>pr_Label = us_Email (scan_user ?row), pr_Role = roleForUser (us_Role (scan_user ?row)),
    pr_Scope = ScopeOf sample_lib (scan_user ?row) sample_tables, pr_UserID = us_ID (scan_user ?row)\<rparr>"
  let ?n = "\<lparr>np_Name = ''New'', np_Slug = ''new'', np_Description = [], np_Environment = [], np_Criticality = [], np_InternetFacing = False\<rparr>"
  let ?req = "\<lparr>cq_Name = ''New'', cq_Slug = ''new'', cq_Description = [], cq_Environment = [], cq_Criticality = [], cq_InternetFacing = False\<rparr>"
  let ?r' = "?r\<lparr>rq_Project := None, rq_Principal := Some ?p\<rparr>"
  have "find_user ?uid sample_tables = Some ?row" by code_simp
  then have "account_of ?uid sample_world = Some (scan_user ?row)" by (simp add: account_of_def)
  moreover have "\<not> us_Disabled (scan_user ?row)" by (simp add: scan_user_def sample_account_def)
  ultimately have a: "authenticate sample_server engineer_session sample_world = Inr ?p"
    unfolding session_authenticates [OF engineer_token(1)] using engineer_token(2,3) by simp
  let ?actor = "\<lparr>ac_Kind = ActorUser, ac_Label = ?uid\<rparr>"
  let ?x = "Project_Create sample_lib (sample_uuid ''9'') ?n ?actor sample_tables"
  have role: "pr_Role ?p = RoleService" "TrimSpace ?uid = ?uid" "?uid \<noteq> []" "isUUID (sample_uuid ''9'')" "\<not> isl ?x" by code_simp+
  have actor: "actorFrom ?r' = ?actor"
    using role(2,3) by (simp add: actorFrom_def IsUser_def UserActor_def scan_user_def sample_account_def)
  obtain proj db where x: "?x = Inr (proj, db)" using role(5) by (cases ?x) auto
  have req: "decodeJSON sample_decoders (dc_project sample_decoders) (srv_maxRequestBytes sample_opts) ?r' = Inr ?req"
    by (simp, rule sample_body) (simp add: sample_decoders_def)
  have c: "rp_Status (fst (handleCreateProject sample_server ?r' sample_world)) = 201"
    unfolding handleCreateProject_def using x req by (simp add: project_ops_def on_db_def actor Let_def)
  have h: "map_of (subtrees sample_server) ''projects'' = Some (project_routes sample_server)" by (simp add: subtrees_def)
  have path: "rq_Path ?r = ''api'' # ''v1'' # ''projects'' # []" by simp
  have "rp_Status (fst (ServeHTTP sample_server ?r sample_world)) = 201"
    using c role(1) unfolding served [OF path h] by (simp add: a project_routes_def root_segment_def methods_def requireRole_def case_prod_beta)
  then obtain x w' where x: "ServeHTTP sample_server ?r sample_world = (x, w')" "rp_Status x = 201"
    by (cases "ServeHTTP sample_server ?r sample_world") auto
  have "accounts_ok (dp_lib sample_deployment) (wd_db sample_world)" using sample_tables_ok by simp
  then show ?thesis using created_project_is_reachable [OF _ _ x, of ?q] role(4) engineer_token(1) x(1) by fastforce
qed

definition joined_world :: World where
  "joined_world = sample_world\<lparr>wd_db := snd signed_up\<rparr>"

definition login_request :: Request where
  "login_request = sample_request ''POST'' [''auth'', ''login''] []"

theorem login_opens_a_session_witness:
  "\<exists>token p. rp_Body (fst (ServeHTTP sample_server login_request joined_world)) = LoginBody token (pd_now (snd signed_up) + SessionTTL) (fst signed_up) \<and>
     authenticate sample_server (''Bearer '' @ token) (snd (ServeHTTP sample_server login_request joined_world)) = Inr p \<and> pr_UserID p = ''joe''"
proof -
  let ?S = sample_server and ?u = "fst signed_up" and ?now = "pd_now (snd signed_up)"
  let ?r = "login_request\<lparr>rq_Principal := None, rq_Project := None\<rparr>"
  let ?req = "\<lparr>lg_Email = '' Joe@Example.org'', lg_Password = ''correct horse''\<rparr>"
  from User_Create_effect [OF signed_up_run] have now: "?now = pd_now sample_users" by metis
  also have "\<dots> = 9" by code_simp
  finally have now: "?now = 9" .
  have ok: "accounts_ok sample_lib (snd signed_up)"
    using keeps_User_Create [OF signed_up_run] sample_users_ok unfolding keeps_def by blast
  have joe: "us_ID ?u = ''joe''" and au: "Authenticate_user sample_lib sample_idkey ''x'' '' Joe@Example.org'' ''correct horse'' (snd signed_up) = Some (Inr ?u)"
    using created_account_signs_in_witness by blast+
  have req: "decodeJSON (srv_decoders sample_opts) (dc_login (srv_decoders sample_opts)) (srv_maxRequestBytes sample_opts) ?r = Inr ?req"
    by (simp add: login_request_def, rule sample_body) (simp add: sample_decoders_def)
  let ?token = "Session_Issue sample_mac \<lparr>session_key = ''k''\<rparr> ''joe'' ?now"
  let ?w = "joined_world\<lparr>wd_db := RecordLogin ''joe'' (snd signed_up)\<rparr>"
  have hl: "handleLogin ?S ?r joined_world = (writeJSON 200 (LoginBody ?token (?now + SessionTTL) ?u), ?w)"
    using req au by (simp add: handleLogin_def user_ops_def sample_deployment_def joined_world_def unpanicked_def refused_def joe Let_def)
  have p: "rq_Path login_request = [''api'', ''v1'', ''auth'', ''login'']" "rq_Method login_request = ''POST''"
    by (simp_all add: login_request_def)
  have "routes ?S ?r joined_world = handleLogin ?S ?r joined_world" by (simp add: routes_def api_routes_def p methods_def)
  then obtain x where x: "ServeHTTP ?S login_request joined_world = (x, ?w)" "rp_Status x = 200" "rp_Body x = LoginBody ?token (?now + SessionTTL) ?u"
    by (simp add: ServeHTTP_def hl)
  have m: "hex_mac (dp_mac sample_deployment)" "clock_ok (pd_now (wd_db joined_world))" "CHR ''.'' \<notin> set (us_ID ?u)"
    "accounts_ok (dp_lib sample_deployment) (wd_db joined_world)"
    using ok by (simp_all add: hex_mac_def sample_mac_def clock_ok_def sample_deployment_def joined_world_def now joe)
  have t: "TrimSpace (us_ID ?u) \<noteq> []" unfolding joe by code_simp
  have later: "wd_db ?w = (wd_db ?w)\<lparr>pd_now := 9\<rparr>" "9 < (?now + SessionTTL) div second * second"
    by (simp_all add: RecordLogin_def update_users_def now)
  from login_opens_a_session [OF p x m(4,1,2,3) t later] x joe show ?thesis by auto
qed

end
