(* ===== verification/Spec2Isabelle.thy ===== *)
theory Spec2Isabelle
  imports Fingerprints Risk Correlation Policies Remediation_Plan Passwords Finding_Store Runner Scan_Store
    Gitleaks_Adapter Semgrep_Adapter Grype_Adapter Trivy_Adapter User_Store Sbom_Store Policy_Store Api_Backend
begin

text \<open>
  SecureOps, a platform that scans repositories, images and endpoints with external scanners and
  keeps what they find. This development models its Go code under \<open>src/internal\<close>.

  \<^bold>\<open>How the program is put together.\<close> A person or a pipeline asks the API for a scan. The request is
  validated against the target rules and the network guard, stored as a queued scan, and put on a
  queue. The worker takes the job, obtains the target, runs every selected scanner as a bounded
  subprocess, and records each outcome. Each scanner's adapter turns the output into canonical findings;
  these are fingerprinted, deduplicated across scanners and written to the findings store, which opens,
  refreshes, reopens and resolves them. Then the findings of the project are correlated into issues,
  scored, and judged by the project's policy, and the scan ends. Remediation plans, audit entries,
  credentials, users and sessions serve the API.

  \<^bold>\<open>Which theory models which part.\<close>
  \<^item> \<open>Go_Prelude\<close>: Go strings as bytes, the functions of \<open>strings\<close>, \<open>path\<close> and \<open>sort\<close> the code uses,
    and the record \<open>golib\<close> of the parts of the standard library that are parameters (Unicode case tables,
    float rendering, \<open>url.Parse\<close>, \<open>net.ParseIP\<close>, SHA-256).
  \<^item> \<open>Findings_Model\<close> and \<open>Fingerprints\<close>: \<open>normalization\<close>. The canonical finding with its vocabularies and
    \<open>Validate\<close>; identity; merging of the same finding from several scanners.
  \<^item> \<open>Risk\<close>, \<open>Correlation\<close>, \<open>Policies\<close>, \<open>Remediation_Plan\<close>: the engines \<open>risk\<close>, \<open>correlation\<close>,
    \<open>policies\<close> and \<open>remediation\<close>, pure functions from findings to scores, issues, verdicts and plans.
    Scores are exact reals; where Go ranges over a map and then sorts, the map is an association list.
  \<^item> \<open>Netguard\<close> and \<open>Targets\<close>: \<open>netguard\<close> and the target half of \<open>scanners\<close>: which addresses a scan may
    reach, which targets are accepted, and the registry of scanners.
  \<^item> \<open>Scans\<close>: \<open>scans\<close>, the state machine of a scan as the step relation \<open>scan_step\<close>.
  \<^item> \<open>Auth\<close>, \<open>Users\<close>, \<open>Passwords\<close>, \<open>Projects\<close>: roles, scopes, bearer tokens, people, sealed session
    tokens, password hashes in their stored form, and the creation of projects.
  \<^item> \<open>Subprocess\<close> and \<open>Scan_Exec\<close>: \<open>scanners/exec.go\<close>, one bounded subprocess, and \<open>scanexec\<close>, the
    execution of the selected scanners against one target.
  \<^item> \<open>Adapters\<close>, \<open>Json_Doc\<close>, \<open>Gitleaks_Adapter\<close>, \<open>Semgrep_Adapter\<close>, \<open>Grype_Adapter\<close>, \<open>Trivy_Adapter\<close>:
    the packages under \<open>scanners\<close>. Each has its parser with the checks that keep source and secrets out,
    its mapper, and its \<open>Scan\<close> around \<open>Subprocess\<close>. Arbitrary JSON is the type \<open>json\<close>; a decoder into a
    struct is a parameter. What every adapter promises its caller is the locale \<open>normalizer\<close>, extended by
    \<open>storable_normalizer\<close> with what the columns of the database accept; each adapter interprets it on its
    own \<open>Normalize\<close>.
  \<^item> \<open>Queues\<close>, \<open>Runner\<close>, \<open>Sbom\<close>: \<open>queue\<close>, \<open>worker\<close> and \<open>sbom\<close>. A job's execution is the ordered list of
    calls it makes on its stores, whose answers are arbitrary; the consuming loop is the step relation
    \<open>run_step\<close>.
  \<^item> \<open>Finding_Store\<close>, \<open>Scan_Store\<close>, \<open>Audit_Log\<close>, \<open>Project_Store\<close>, \<open>User_Store\<close>, \<open>Finding_Reads\<close>, \<open>Sbom_Store\<close>,
    \<open>Policy_Store\<close>: the SQL of \<open>findings\<close>, \<open>scans/store\<close>, \<open>audit\<close>, \<open>projects/store.go\<close>, \<open>users/store.go\<close>,
    \<open>sbom/store\<close> and \<open>policies/store.go\<close> as functions on tables, lists of rows with the constraints of
    \<open>src/migrations\<close>; an error leaves the tables as they were, as the transaction does. \<open>Finding_Reads\<close> holds
    the listings of findings and the tables of \<open>findings/correlation.go\<close> and \<open>findings/risk.go\<close>. Where a
    method reads outside its transaction, its two halves are also steps that other calls interleave with.
  \<^item> \<open>Api_Wire\<close>, \<open>Api\<close>, \<open>Api_Laws\<close>, \<open>Api_Backend\<close>: \<open>httpapi\<close>. The first has requests, responses and the
    conversions between them and the domain; the second the routes, middleware and handlers, functions from a
    request and the world to a response and the world, over records of functions that stand for the interfaces
    of the stores. \<open>Api_Laws\<close> proves what holds over any stores, with the inductive access policy
    \<open>permitted\<close>; \<open>Api_Backend\<close> puts the stores above behind the API, as \<open>cmd/api\<close> does, with the accounts
    as an interpretation of the locale \<open>identity_store\<close>.

  \<^bold>\<open>What the lemmas show.\<close> For the engines: monotonicity, independence of the order of the input, and
  equality with a closed formula or a reference definition. For the stores: the invariant \<open>store_ok\<close> of
  the findings tables under every operation, what a scan may and must change, and that the statements of the
  scan store refine the state machine of \<open>Scans\<close>. For the worker: a job ends its scan exactly once, in a
  fixed order of stages, and claims completeness only when every scanner earned it. For the adapters and
  the guards: secrets and source text do not travel, only allowed addresses are reached, and paths stay
  inside their root. For the credentials: round trips of tokens, scopes and hashes, and exact
  characterisations of who is admitted. For the accounts: consistency of the table, and that an administrator
  is left by any sequence of operations but not by two concurrent ones. For what is read back: pages tile a
  listing, and issues, inventories and policies are read as they were written. For the API: every change
  is one the access policy permits, what is out of a credential's reach is answered as missing, and
  scenarios over several requests, from signing in to a scan on the queue.

  \<^bold>\<open>Bounds and fuel.\<close> Recursion is structural or has a measure, and no definition takes fuel. Loops over
  time (the polling of the memory queue, the worker's loop) are a list of rounds and a step relation; the
  latter is shown to drain. Integers are unbounded where the code cannot overflow them (counts, durations
  in nanoseconds, times as instants) and words or explicit residues elsewhere.

  \<^bold>\<open>Not modelled.\<close> The acquisition of targets by git (\<open>fetch\<close>), the execution in Kubernetes (\<open>scanjob\<close> and
  its client), the adapters \<open>zap\<close>, \<open>httpprobe\<close> and \<open>syft\<close>, configuration, connections (\<open>storage\<close>), \<open>logging\<close>,
  the processes under \<open>cmd\<close> and the dashboard: they talk to programs, services and files that are not in
  the repository, and the manifest gives the reason for each. Of the API, what it logs, the random request
  identifier and the delay of a failed login are left out. Concurrency inside one process is modelled only
  where it decides an outcome (the worker's slots, the truncation of output, transactions that interleave).
\<close>

end
